(* ===== verification/ViewDock_Prelude.thy ===== *)
theory ViewDock_Prelude
  imports Main "HOL-Library.AList"
begin

text \<open>
  Shared ground of the development: Go's 64-bit integers and truncating division, Go's
  \<^verbatim>\<open>time.Time\<close> and \<^verbatim>\<open>time.Duration\<close> as integers of nanoseconds, Go's byte strings with the
  part of the package \<^verbatim>\<open>strings\<close> that the program uses, UTF-8 segmentation of byte strings,
  and association lists as Go maps. The collections \<open>i64_simps\<close>, \<open>go_simps\<close> and
  \<open>inv_intros\<close> gather the facts that the component theories hand to the simplifier.
\<close>

named_theorems i64_simps
named_theorems go_simps
named_theorems inv_intros

section \<open>64-bit signed integers\<close>

text \<open>
  Go's \<^verbatim>\<open>int64\<close> and \<^verbatim>\<open>int\<close> (64 bits on every platform the program is released for) wrap
  around. Values are kept as \<^typ>\<open>int\<close> and \<open>wrap64\<close> is written where an operation can leave
  the range.
\<close>

type_synonym i64 = int

definition wrap64 :: "int \<Rightarrow> i64" where
  "wrap64 x = (x + 2 ^ 63) mod 2 ^ 64 - 2 ^ 63"

definition in_i64 :: "int \<Rightarrow> bool" where
  "in_i64 x \<longleftrightarrow> - (2 ^ 63) \<le> x \<and> x < 2 ^ 63"

lemma wrap64_id [i64_simps]: "in_i64 x \<Longrightarrow> wrap64 x = x"
  by (simp add: wrap64_def in_i64_def)

lemma wrap64_in_range [simp]: "in_i64 (wrap64 x)"
  by (simp add: wrap64_def in_i64_def)

text \<open>Go's integer division truncates towards zero.\<close>

definition quot :: "int \<Rightarrow> int \<Rightarrow> int" where
  "quot a b = sgn a * sgn b * (\<bar>a\<bar> div \<bar>b\<bar>)"

lemma quot_nonneg [i64_simps]: "0 \<le> a \<Longrightarrow> 0 < b \<Longrightarrow> quot a b = a div b"
  by (cases "a = 0") (auto simp: quot_def sgn_if)

lemma quot_neg [i64_simps]: "a < 0 \<Longrightarrow> 0 < b \<Longrightarrow> quot a b = - ((- a) div b)"
  by (auto simp: quot_def sgn_if)

lemma quot_bounds:
  assumes "0 < b"
  shows "\<bar>quot a b\<bar> \<le> \<bar>a\<bar>" and "quot a b * b \<le> max a 0" and "min a 0 \<le> quot a b * b"
proof -
  have d: "(\<bar>a\<bar> div b) * b \<le> \<bar>a\<bar>" and nn: "0 \<le> \<bar>a\<bar> div b"
    using assms by (auto simp: pos_imp_zdiv_nonneg_iff) (metis minus_mod_eq_div_mult pos_mod_sign diff_le_eq le_add_same_cancel1)
  have le: "\<bar>a\<bar> div b \<le> \<bar>a\<bar>"
    using assms by (metis abs_ge_zero div_by_1 int_one_le_iff_zero_less zdiv_mono2 zero_less_one)
  show "\<bar>quot a b\<bar> \<le> \<bar>a\<bar>"
    using le nn assms by (auto simp: quot_def abs_mult sgn_if)
  show "quot a b * b \<le> max a 0" "min a 0 \<le> quot a b * b"
    using d nn assms by (auto simp: quot_def sgn_if max_def min_def)
qed

section \<open>Time\<close>

text \<open>
  A \<^verbatim>\<open>time.Time\<close> is the number of nanoseconds since Go's zero time (1 January of year 1),
  so \<^verbatim>\<open>IsZero\<close> is \<open>t = 0\<close>. \<^verbatim>\<open>Sub\<close> saturates at the ends of \<^verbatim>\<open>time.Duration\<close>.
  Monotonic clock readings are not distinguished from wall clock readings.
\<close>

type_synonym gtime = int
type_synonym duration = int

definition unix_epoch_ns :: gtime where
  "unix_epoch_ns = 62135596800 * 1000000000"

definition seconds :: "int \<Rightarrow> duration" where
  "seconds n = n * 1000000000"

definition time_sub :: "gtime \<Rightarrow> gtime \<Rightarrow> duration" where
  "time_sub t u = max (- (2 ^ 63)) (min (2 ^ 63 - 1) (t - u))"

definition milliseconds :: "duration \<Rightarrow> i64" where
  "milliseconds d = quot d 1000000"

definition unix_milli :: "gtime \<Rightarrow> i64" where
  "unix_milli t = wrap64 ((t - unix_epoch_ns) div 1000000)"

definition from_unix_milli :: "i64 \<Rightarrow> gtime" where
  "from_unix_milli ms = unix_epoch_ns + ms * 1000000"

text \<open>The database stores times in whole seconds (\<^verbatim>\<open>time.RFC3339\<close>), as texts that sort like the times.\<close>

definition whole_seconds :: "gtime \<Rightarrow> gtime" where
  "whole_seconds t = t div 1000000000 * 1000000000"

lemma whole_seconds_bounds: "whole_seconds t \<le> t" "t < whole_seconds t + 1000000000"
  by (simp_all add: whole_seconds_def minus_mod_eq_div_mult [symmetric])

lemma whole_seconds_mono: "t \<le> u \<Longrightarrow> whole_seconds t \<le> whole_seconds u"
  by (simp add: whole_seconds_def zdiv_mono1)

lemma time_sub_self [simp]: "time_sub t t = 0"
  by (simp add: time_sub_def)

lemma time_sub_small [i64_simps]:
  "\<bar>t - u\<bar> < 2 ^ 63 \<Longrightarrow> time_sub t u = t - u"
  by (auto simp: time_sub_def)

lemma time_sub_less_iff [i64_simps]:
  "- (2 ^ 63) < c \<Longrightarrow> c < 2 ^ 63 \<Longrightarrow> time_sub t u < c \<longleftrightarrow> t - u < c"
  by (auto simp: time_sub_def)

lemma time_sub_le_iff [i64_simps]:
  "- (2 ^ 63) \<le> c \<Longrightarrow> c < 2 ^ 63 - 1 \<Longrightarrow> time_sub t u \<le> c \<longleftrightarrow> t - u \<le> c"
  by (auto simp: time_sub_def)

lemma milliseconds_0 [simp]: "milliseconds 0 = 0"
  by (simp add: milliseconds_def quot_def)

lemma milliseconds_nonneg: "0 \<le> d \<Longrightarrow> 0 \<le> milliseconds d"
  by (cases "d = 0") (auto simp: milliseconds_def quot_nonneg pos_imp_zdiv_nonneg_iff)

section \<open>Byte strings\<close>

text \<open>
  A Go string is a sequence of bytes, and so is \<^typ>\<open>string\<close> (a list of 8-bit characters).
  \<open>toLower\<close> lowers the ASCII letters: it is \<^verbatim>\<open>strings.ToLower\<close> on ASCII text, which codec
  names, containers, user agents and settings are; other bytes are left as they are.
\<close>

definition ascii_lower :: "char \<Rightarrow> char" where
  "ascii_lower c = (let n = (of_char c :: nat) in if 65 \<le> n \<and> n \<le> 90 then char_of (n + 32) else c)"

definition toLower :: "string \<Rightarrow> string" where
  "toLower s = map ascii_lower s"

definition hasPrefix :: "string \<Rightarrow> string \<Rightarrow> bool" where
  "hasPrefix s p \<longleftrightarrow> take (length p) s = p"

definition hasSuffix :: "string \<Rightarrow> string \<Rightarrow> bool" where
  "hasSuffix s p \<longleftrightarrow> length p \<le> length s \<and> drop (length s - length p) s = p"

fun strContains :: "string \<Rightarrow> string \<Rightarrow> bool" where
  "strContains [] sub = (sub = [])"
| "strContains (c # s) sub = (hasPrefix (c # s) sub \<or> strContains s sub)"

definition trimPrefix :: "string \<Rightarrow> string \<Rightarrow> string" where
  "trimPrefix s p = (if hasPrefix s p then drop (length p) s else s)"

definition trimSuffix :: "string \<Rightarrow> string \<Rightarrow> string" where
  "trimSuffix s p = (if hasSuffix s p then take (length s - length p) s else s)"

text \<open>\<^verbatim>\<open>strings.Split\<close> at a one-byte separator.\<close>

fun splitOn :: "char \<Rightarrow> string \<Rightarrow> string list" where
  "splitOn d [] = [[]]"
| "splitOn d (c # s) =
     (if c = d then [] # splitOn d s
      else (case splitOn d s of [] \<Rightarrow> [[c]] | w # ws \<Rightarrow> (c # w) # ws))"

fun joinWith :: "string \<Rightarrow> string list \<Rightarrow> string" where
  "joinWith sep [] = []"
| "joinWith sep [w] = w"
| "joinWith sep (w # ws) = w @ sep @ joinWith sep ws"

lemma ascii_lower_idem [simp]: "ascii_lower (ascii_lower c) = ascii_lower c"
  by (auto simp: ascii_lower_def Let_def)

lemma toLower_idem [simp]: "toLower (toLower s) = toLower s"
  by (simp add: toLower_def)

lemma toLower_Nil [simp]: "toLower [] = []"
  by (simp add: toLower_def)

lemma toLower_eq_Nil [simp]: "toLower s = [] \<longleftrightarrow> s = []"
  by (simp add: toLower_def)

lemma hasPrefix_append [simp]: "hasPrefix (p @ s) p"
  by (simp add: hasPrefix_def)

lemma hasPrefix_iff: "hasPrefix s p \<longleftrightarrow> (\<exists>r. s = p @ r)"
  by (metis append_eq_conv_conj append_take_drop_id hasPrefix_def)

lemma hasSuffix_iff: "hasSuffix s p \<longleftrightarrow> (\<exists>r. s = r @ p)"
  by (auto simp: hasSuffix_def) (metis append_take_drop_id)

lemma hasSuffix_append [simp]: "hasSuffix (s @ p) p"
  by (auto simp: hasSuffix_iff)

lemma trimPrefix_append [simp]: "trimPrefix (p @ s) p = s"
  by (simp add: trimPrefix_def)

lemma trimSuffix_append [simp]: "trimSuffix (s @ p) p = s"
  by (simp add: trimSuffix_def)

lemma strContains_iff: "strContains s sub \<longleftrightarrow> (\<exists>a b. s = a @ sub @ b)"
proof (induction s)
  case Nil
  then show ?case by auto
next
  case (Cons c s)
  have "(\<exists>a b. c # s = a @ sub @ b) \<longleftrightarrow> hasPrefix (c # s) sub \<or> (\<exists>a b. s = a @ sub @ b)"
    by (auto simp: hasPrefix_iff Cons_eq_append_conv)
  with Cons show ?case by simp
qed

lemma splitOn_not_Nil [simp]: "splitOn d s \<noteq> []"
  by (induction s) (auto split: list.splits)

lemma joinWith_splitOn: "joinWith [d] (splitOn d s) = s"
proof (induction s)
  case Nil
  then show ?case by simp
next
  case (Cons c s)
  obtain w ws where "splitOn d s = w # ws" by (cases "splitOn d s") auto
  with Cons show ?case by (cases ws) auto
qed

section \<open>Numbers in text\<close>

text \<open>\<^verbatim>\<open>strconv.Atoi\<close>: an optional sign, at least one decimal digit, nothing else, in range.\<close>

definition digit_val :: "char \<Rightarrow> int option" where
  "digit_val c = (let n = (of_char c :: nat) in if 48 \<le> n \<and> n \<le> 57 then Some (int n - 48) else None)"

fun digits_val :: "string \<Rightarrow> int \<Rightarrow> int option" where
  "digits_val [] acc = Some acc"
| "digits_val (c # s) acc =
     (case digit_val c of None \<Rightarrow> None | Some d \<Rightarrow> digits_val s (10 * acc + d))"

definition atoi :: "string \<Rightarrow> int option" where
  "atoi s =
     (let (neg, ds) = (case s of
            c # r \<Rightarrow> if c = CHR ''-'' then (True, r) else if c = CHR ''+'' then (False, r) else (False, s)
          | [] \<Rightarrow> (False, s))
      in if ds = [] then None
         else (case digits_val ds 0 of
                 None \<Rightarrow> None
               | Some v \<Rightarrow> (let x = (if neg then - v else v) in if in_i64 x then Some x else None)))"

text \<open>\<^verbatim>\<open>strconv.Itoa\<close> and \<^verbatim>\<open>fmt.Sprint\<close> of a number.\<close>

definition digit_char :: "nat \<Rightarrow> char" where
  "digit_char d = char_of (48 + d)"

fun nat_dec :: "nat \<Rightarrow> string" where
  "nat_dec n = (if n < 10 then [digit_char n] else nat_dec (n div 10) @ [digit_char (n mod 10)])"

declare nat_dec.simps [simp del]

definition int_dec :: "int \<Rightarrow> string" where
  "int_dec x = (if x < 0 then CHR ''-'' # nat_dec (nat (- x)) else nat_dec (nat x))"

lemma digit_val_char [simp]: "d < 10 \<Longrightarrow> digit_val (digit_char d) = Some (int d)"
  by (simp add: digit_val_def digit_char_def Let_def)

lemma digits_val_append:
  "digits_val (s @ t) acc = (case digits_val s acc of None \<Rightarrow> None | Some v \<Rightarrow> digits_val t v)"
  by (induction s arbitrary: acc) (auto split: option.splits)

lemma nat_dec_not_Nil [simp]: "nat_dec n \<noteq> []"
  by (subst nat_dec.simps) auto

lemma digits_val_nat_dec: "digits_val (nat_dec n) 0 = Some (int n)"
proof (induction n rule: nat_dec.induct)
  case (1 n)
  show ?case
  proof (cases "n < 10")
    case True
    then show ?thesis by (subst nat_dec.simps) simp
  next
    case False
    with 1 have "digits_val (nat_dec (n div 10)) 0 = Some (int (n div 10))" by simp
    with False show ?thesis
      by (subst nat_dec.simps) (simp add: digits_val_append zdiv_int zmod_int)
  qed
qed

lemma nat_dec_hd_digit: "\<exists>d. digit_val (hd (nat_dec n)) = Some d"
proof (induction n rule: nat_dec.induct)
  case (1 n)
  then show ?case
    by (cases "n < 10") (subst nat_dec.simps; simp)+
qed

lemma atoi_int_dec:
  assumes "0 \<le> x" "in_i64 x"
  shows "atoi (int_dec x) = Some x"
proof -
  obtain c r where cr: "nat_dec (nat x) = c # r" by (cases "nat_dec (nat x)") auto
  obtain d where "digit_val c = Some d" using nat_dec_hd_digit [of "nat x"] cr by auto
  then have "c \<noteq> CHR ''-''" "c \<noteq> CHR ''+''" by (auto simp: digit_val_def)
  with cr digits_val_nat_dec [of "nat x"] assms show ?thesis
    by (auto simp: atoi_def int_dec_def Let_def)
qed

section \<open>UTF-8\<close>

text \<open>
  \<open>rune_len s\<close> is the length of the first rune of \<open>s\<close> as \<^verbatim>\<open>utf8.DecodeRune\<close> finds it: 1 for
  ASCII, 2 to 4 for a well-formed multi-byte sequence (no overlong forms, no surrogates,
  nothing above U+10FFFF), and 0 where the first byte starts no well-formed sequence
  (\<^verbatim>\<open>RuneError\<close> of width 1). \<open>runes\<close> cuts a byte string into runes; an invalid byte is a rune
  of its own.
\<close>

abbreviation byte :: "char \<Rightarrow> nat" where
  "byte c \<equiv> of_char c"

definition cont :: "char \<Rightarrow> bool" where
  "cont c \<longleftrightarrow> 128 \<le> byte c \<and> byte c \<le> 191"

definition rune_len :: "string \<Rightarrow> nat" where
  "rune_len s = (case s of
     [] \<Rightarrow> 0
   | c0 # r \<Rightarrow>
     (let b = byte c0 in
      if b < 128 then 1
      else if 194 \<le> b \<and> b \<le> 223 then (case r of c1 # _ \<Rightarrow> if cont c1 then 2 else 0 | _ \<Rightarrow> 0)
      else if 224 \<le> b \<and> b \<le> 239 then
        (case r of c1 # c2 # _ \<Rightarrow>
           if cont c1 \<and> cont c2 \<and> (b = 224 \<longrightarrow> 160 \<le> byte c1) \<and> (b = 237 \<longrightarrow> byte c1 \<le> 159) then 3 else 0
         | _ \<Rightarrow> 0)
      else if 240 \<le> b \<and> b \<le> 244 then
        (case r of c1 # c2 # c3 # _ \<Rightarrow>
           if cont c1 \<and> cont c2 \<and> cont c3 \<and> (b = 240 \<longrightarrow> 144 \<le> byte c1) \<and> (b = 244 \<longrightarrow> byte c1 \<le> 143)
           then 4 else 0
         | _ \<Rightarrow> 0)
      else 0))"

function runes :: "string \<Rightarrow> string list" where
  "runes [] = []"
| "runes (c # s) = (let n = max 1 (rune_len (c # s)) in take n (c # s) # runes (drop n (c # s)))"
  by pat_completeness auto
termination
  by (relation "measure length") auto

declare runes.simps [simp del]

definition valid_rune :: "string \<Rightarrow> bool" where
  "valid_rune r \<longleftrightarrow> r \<noteq> [] \<and> rune_len r = length r"

definition replacement :: string where
  "replacement = [char_of (239::nat), char_of (191::nat), char_of (189::nat)]"

text \<open>\<^verbatim>\<open>string([]rune(s))\<close> writes an invalid byte as U+FFFD.\<close>

definition encode_rune :: "string \<Rightarrow> string" where
  "encode_rune r = (if valid_rune r then r else replacement)"

definition rune_count :: "string \<Rightarrow> nat" where
  "rune_count s = length (runes s)"

definition is_space :: "string \<Rightarrow> bool" where
  "is_space r \<longleftrightarrow> map byte r \<in> set
     ([[9], [10], [11], [12], [13], [32], [194, 133], [194, 160], [225, 154, 128],
       [226, 128, 168], [226, 128, 169], [226, 128, 175], [226, 129, 159], [227, 128, 128]]
      @ map (\<lambda>n. [226, 128, n]) [128..<139])"

text \<open>\<^verbatim>\<open>strings.TrimSpace\<close> drops the runes with the property White Space from both ends.\<close>

definition trimSpace :: "string \<Rightarrow> string" where
  "trimSpace s = concat (rev (dropWhile is_space (rev (dropWhile is_space (runes s)))))"

lemma concat_runes [simp]: "concat (runes s) = s"
  by (induction s rule: runes.induct) (simp_all add: runes.simps Let_def)

lemma runes_eq_Nil [simp]: "runes s = [] \<longleftrightarrow> s = []"
  by (cases s) (simp_all add: runes.simps Let_def)

lemma rune_len_cases: "rune_len s \<le> 4 \<and> rune_len s \<le> length s"
  by (auto simp: rune_len_def Let_def split: list.splits)

lemma list_upto4_cases:
  obtains "s = []" | a where "s = [a]" | a b where "s = [a, b]" | a b c where "s = [a, b, c]"
    | a b c d r where "s = a # b # c # d # r"
  by (cases s; cases "tl s"; cases "tl (tl s)"; cases "tl (tl (tl s))") auto

lemma rune_len_append:
  assumes "0 < rune_len s"
  shows "rune_len (s @ t) = rune_len s"
  using assms
  by (cases s rule: list_upto4_cases) (simp_all add: rune_len_def Let_def split: if_splits)

lemma runes_append_valid:
  assumes "valid_rune r"
  shows "runes (r @ s) = r # runes s"
proof -
  obtain c r' where r: "r = c # r'" using assms by (cases r) (auto simp: valid_rune_def)
  have len: "rune_len (r @ s) = length r"
    using assms rune_len_append [of r s] by (auto simp: valid_rune_def)
  then show ?thesis
    using r by (simp add: runes.simps Let_def)
qed

lemma runes_concat_valid:
  "\<forall>r \<in> set rs. valid_rune r \<Longrightarrow> runes (concat rs) = rs"
  by (induction rs) (auto simp: runes_append_valid runes.simps)

lemma valid_replacement [simp]: "valid_rune replacement"
  by (simp add: valid_rune_def replacement_def rune_len_def cont_def)

lemma valid_encode_rune [simp]: "valid_rune (encode_rune r)"
  by (simp add: encode_rune_def)

text \<open>Writing runes back and cutting them again gives the same runes: encoding is injective.\<close>

lemma runes_encode: "runes (concat (map encode_rune rs)) = map encode_rune rs"
  by (rule runes_concat_valid) auto

section \<open>Association lists as Go maps\<close>

text \<open>
  A Go map is an association list with distinct keys. Its order stands for the order in which
  a \<^verbatim>\<open>range\<close> loop meets the entries, which Go leaves open: every theorem holds for each order.
\<close>

definition set_key :: "'k \<Rightarrow> 'v \<Rightarrow> ('k \<times> 'v) list \<Rightarrow> ('k \<times> 'v) list" where
  "set_key k v m = AList.update k v m"

definition del_key :: "'k \<Rightarrow> ('k \<times> 'v) list \<Rightarrow> ('k \<times> 'v) list" where
  "del_key k m = filter (\<lambda>(k', v). k' \<noteq> k) m"

definition keys :: "('k \<times> 'v) list \<Rightarrow> 'k list" where
  "keys m = map fst m"

definition has_key :: "'k \<Rightarrow> ('k \<times> 'v) list \<Rightarrow> bool" where
  "has_key k m \<longleftrightarrow> map_of m k \<noteq> None"

lemma map_of_set_key [simp]: "map_of (set_key k v m) = (map_of m)(k \<mapsto> v)"
  by (simp add: set_key_def update_conv')

lemma map_of_del_key [simp]: "map_of (del_key k m) = (map_of m)(k := None)"
  by (induction m) (auto simp: del_key_def fun_eq_iff)

lemma distinct_set_key [simp]: "distinct (keys m) \<Longrightarrow> distinct (keys (set_key k v m))"
  by (simp add: keys_def set_key_def distinct_update)

lemma keys_del_key [simp]: "keys (del_key k m) = filter (\<lambda>k'. k' \<noteq> k) (keys m)"
  by (induction m) (auto simp: del_key_def keys_def)

lemma set_keys_set_key [simp]: "set (keys (set_key k v m)) = insert k (set (keys m))"
  by (simp add: keys_def set_key_def dom_update)

lemma has_key_iff: "has_key k m \<longleftrightarrow> k \<in> set (keys m)"
  by (simp add: has_key_def keys_def map_of_eq_None_iff)

lemma map_of_in_keys: "map_of m k = Some v \<Longrightarrow> k \<in> set (keys m)"
  by (metis has_key_def has_key_iff option.distinct(1))

lemma in_keys_map_of: "k \<in> set (keys m) \<Longrightarrow> \<exists>v. map_of m k = Some v"
  by (metis has_key_def has_key_iff not_None_eq)

lemma set_key_not_Nil [simp]: "set_key k v m \<noteq> []"
  by (cases m) (auto simp: set_key_def)

lemma set_set_key:
  "distinct (keys m) \<Longrightarrow> set (set_key k v m) = insert (k, v) (set m - {(k, w) | w. True})"
  by (induction m) (force simp: set_key_def keys_def)+

lemma set_del_key: "set (del_key k m) = set m - {(k, w) | w. True}"
  by (auto simp: del_key_def)

lemma map_of_distinct_iff:
  "distinct (keys m) \<Longrightarrow> map_of m k = Some v \<longleftrightarrow> (k, v) \<in> set m"
  by (simp add: keys_def)

section \<open>Machines with an invariant\<close>

text \<open>
  The contract several components share: every step of the component keeps a predicate on
  its state. What follows from it for whole runs is proved once, here.
\<close>

locale invariant_machine =
  fixes mstep :: "'s \<Rightarrow> 'e \<Rightarrow> 's"
    and minv :: "'s \<Rightarrow> bool"
  assumes step_keeps: "minv s \<Longrightarrow> minv (mstep s e)"
begin

lemma run_keeps: "minv s \<Longrightarrow> minv (foldl mstep s es)"
  by (induction es arbitrary: s) (auto simp: step_keeps)

lemma prefix_keeps: "minv s \<Longrightarrow> minv (foldl mstep s (take n es))"
  by (rule run_keeps)

end

text \<open>The same contract for a component whose steps are a relation.\<close>

locale invariant_relation =
  fixes rstep :: "'s \<Rightarrow> 's \<Rightarrow> bool"
    and rinv :: "'s \<Rightarrow> bool"
  assumes step_keeps: "rstep s t \<Longrightarrow> rinv s \<Longrightarrow> rinv t"
begin

lemma reach_keeps: "rstep\<^sup>*\<^sup>* s t \<Longrightarrow> rinv s \<Longrightarrow> rinv t"
  by (induction rule: rtranclp_induct) (auto simp: step_keeps)

end

end
