(* ===== verification/Float64.thy ===== *)
theory Float64
  imports Complex_Main ViewDock_Prelude
begin

text \<open>
  Go's \<^verbatim>\<open>float64\<close> on the range the program uses. A finite double is the rational it denotes;
  \<open>fl\<close> rounds a rational to the nearest double (53-bit significand, ties to even, gradual
  underflow), and every arithmetic operation of the source is the exact one followed by \<open>fl\<close>.
  Infinities and NaN are not modelled: no value of the modelled code leaves the finite range.
  \<^verbatim>\<open>math.Round\<close>, \<^verbatim>\<open>math.Ceil\<close>, \<^verbatim>\<open>math.Max\<close> and \<^verbatim>\<open>math.Min\<close> are exact operations.
\<close>

section \<open>Rounding\<close>

definition pow2 :: "int \<Rightarrow> rat" where
  "pow2 e = (if 0 \<le> e then 2 ^ nat e else 1 / 2 ^ nat (- e))"

definition rne :: "rat \<Rightarrow> int" where
  "rne x = (let f = \<lfloor>x\<rfloor>; d = x - of_int f in
     if d < 1 / 2 then f else if 1 / 2 < d then f + 1 else if even f then f else f + 1)"

text \<open>\<open>binade n d\<close>: the exponent \<open>k\<close> with \<open>2 ^ (k - 1) \<le> n / d < 2 ^ k\<close> for positive \<open>n\<close>, \<open>d\<close>.\<close>

function bits :: "int \<Rightarrow> nat" where
  "bits n = (if n \<le> 0 then 0 else Suc (bits (n div 2)))"
  by pat_completeness auto
termination
  by (relation "measure nat") auto

declare bits.simps [simp del]

definition binade :: "rat \<Rightarrow> int" where
  "binade x = (let (p, q) = quotient_of x; k = int (bits p) - int (bits q)
               in if x < pow2 k then k else k + 1)"

definition fl_exp :: "rat \<Rightarrow> int" where
  "fl_exp x = max (binade \<bar>x\<bar> - 53) (- 1074)"

definition fl :: "rat \<Rightarrow> rat" where
  "fl x = (if x = 0 then 0 else of_int (rne (x / pow2 (fl_exp x))) * pow2 (fl_exp x))"

definition fl_mul :: "rat \<Rightarrow> rat \<Rightarrow> rat" where "fl_mul x y = fl (x * y)"
definition fl_div :: "rat \<Rightarrow> rat \<Rightarrow> rat" where "fl_div x y = fl (x / y)"
definition fl_sub :: "rat \<Rightarrow> rat \<Rightarrow> rat" where "fl_sub x y = fl (x - y)"
definition fl_of_int :: "int \<Rightarrow> rat" where "fl_of_int n = fl (of_int n)"

text \<open>\<^verbatim>\<open>math.Round\<close>: halves away from zero.\<close>

definition fl_round :: "rat \<Rightarrow> int" where
  "fl_round x = (if 0 \<le> x then \<lfloor>x + 1 / 2\<rfloor> else - \<lfloor>- x + 1 / 2\<rfloor>)"

section \<open>Facts about rounding\<close>

lemma pow2_pos [simp]: "0 < pow2 e"
  by (simp add: pow2_def)

lemma pow2_nz [simp]: "pow2 e \<noteq> 0"
  using pow2_pos [of e] by linarith

lemma pow2_Suc: "pow2 (e + 1) = 2 * pow2 e"
proof (cases "0 \<le> e")
  case True
  then show ?thesis by (simp add: pow2_def nat_add_distrib)
next
  case False
  then obtain n where n: "e = - int (Suc n)"
    by (metis int_cases not_le of_nat_0_le_iff)
  have "nat (- (e + 1)) = n" "nat (- e) = Suc n" using n by auto
  with False n show ?thesis by (simp add: pow2_def)
qed

lemma pow2_add_nat: "pow2 (e + int n) = 2 ^ n * pow2 e"
proof (induction n)
  case 0
  then show ?case by simp
next
  case (Suc n)
  have "pow2 (e + int (Suc n)) = pow2 ((e + int n) + 1)" by (simp add: algebra_simps)
  with Suc show ?case by (simp add: pow2_Suc)
qed

lemma pow2_mono: "e \<le> f \<Longrightarrow> pow2 e \<le> pow2 f"
proof -
  assume "e \<le> f"
  then obtain n where "f = e + int n" by (metis zle_iff_zadd)
  moreover have "1 * pow2 e \<le> 2 ^ n * pow2 e"
    by (rule mult_right_mono) (auto intro: less_imp_le)
  ultimately show ?thesis by (simp add: pow2_add_nat)
qed

lemma bits_bounds: "0 < n \<Longrightarrow> 2 ^ (bits n - 1) \<le> n \<and> n < 2 ^ bits n"
proof (induction n rule: bits.induct)
  case (1 n)
  show ?case
  proof (cases "n div 2 \<le> 0")
    case True
    with 1 have "n = 1" by linarith
    then show ?thesis by (simp add: bits.simps)
  next
    case False
    with 1 have ih: "2 ^ (bits (n div 2) - 1) \<le> n div 2" "n div 2 < 2 ^ bits (n div 2)" by auto
    from False have "0 < bits (n div 2)" by (subst bits.simps) simp
    then obtain b where b: "bits (n div 2) = Suc b" by (cases "bits (n div 2)") auto
    from False b have "bits n = Suc (Suc b)" by (subst bits.simps) auto
    with ih b show ?thesis by auto
  qed
qed

lemma pow2_int: "pow2 (int n) = 2 ^ n"
  by (simp add: pow2_def)

lemma binade_bounds:
  assumes "0 < x"
  shows "pow2 (binade x - 1) \<le> x \<and> x < pow2 (binade x)"
proof -
  obtain p q where pq: "quotient_of x = (p, q)" by (cases "quotient_of x")
  have q: "0 < q" using quotient_of_denom_pos pq by blast
  have x: "x = of_int p / of_int q" by (rule quotient_of_div [OF pq])
  with assms q have p: "0 < p" by (simp add: zero_less_divide_iff)
  define bp where "bp = bits p"
  define bq where "bq = bits q"
  from bits_bounds [OF p] have P: "2 ^ (bp - 1) \<le> p" "p < 2 ^ bp" by (auto simp: bp_def)
  from bits_bounds [OF q] have Q: "2 ^ (bq - 1) \<le> q" "q < 2 ^ bq" by (auto simp: bq_def)
  have bp0: "0 < bp" unfolding bp_def using p by (subst bits.simps) simp
  have bq0: "0 < bq" unfolding bq_def using q by (subst bits.simps) simp
  have P': "(2::rat) ^ (bp - 1) \<le> of_int p" "of_int p < (2::rat) ^ bp"
    using P by (metis of_int_le_iff of_int_numeral of_int_power, metis of_int_less_iff of_int_numeral of_int_power)
  have Q': "(2::rat) ^ (bq - 1) \<le> of_int q" "of_int q < (2::rat) ^ bq"
    using Q by (metis of_int_le_iff of_int_numeral of_int_power, metis of_int_less_iff of_int_numeral of_int_power)
  define k where "k = int bp - int bq"
  have scale: "pow2 (k + int bq) = 2 ^ bq * pow2 k" by (rule pow2_add_nat)
  have kb: "2 ^ bq * pow2 k = 2 ^ bp"
    using scale by (simp add: k_def pow2_int)
  have lo: "pow2 (k - 1) \<le> x"
  proof -
    have "2 ^ bq * pow2 (k - 1) * 2 = 2 ^ bp"
      using pow2_Suc [of "k - 1"] kb by simp
    then have h: "2 ^ bq * pow2 (k - 1) = 2 ^ (bp - 1)"
      using bp0 by (cases bp) auto
    have "pow2 (k - 1) * of_int q \<le> pow2 (k - 1) * 2 ^ bq"
      by (rule mult_left_mono) (use Q' in \<open>auto intro: less_imp_le\<close>)
    also have "\<dots> \<le> of_int p" using h P' by (simp add: mult.commute)
    finally show ?thesis using q by (simp add: x pos_le_divide_eq)
  qed
  have hi: "x < pow2 (k + 1)"
  proof -
    have "2 ^ (bq - 1) * pow2 (k + 1) = 2 ^ bp"
      using bq0 kb by (cases bq) (auto simp: pow2_Suc)
    moreover have "2 ^ (bq - 1) * pow2 (k + 1) \<le> of_int q * pow2 (k + 1)"
      by (rule mult_right_mono) (use Q' in \<open>auto intro: less_imp_le\<close>)
    ultimately have "of_int p < pow2 (k + 1) * of_int q"
      using P'(2) by (metis less_le_trans mult.commute)
    then show ?thesis using q by (simp add: x pos_divide_less_eq)
  qed
  have b: "binade x = (if x < pow2 k then k else k + 1)"
    by (simp add: binade_def pq k_def bp_def bq_def Let_def)
  show ?thesis using lo hi by (auto simp: b)
qed

lemma rne_ge: "of_int n \<le> x \<Longrightarrow> n \<le> rne x"
  by (auto simp: rne_def Let_def dest: le_floor_iff [THEN iffD2])

lemma rne_le:
  assumes "x \<le> of_int n"
  shows "rne x \<le> n"
proof (cases "x = of_int n")
  case True
  then show ?thesis by (simp add: rne_def)
next
  case False
  with assms have "\<lfloor>x\<rfloor> < n" by (simp add: floor_less_iff)
  then show ?thesis by (auto simp: rne_def Let_def)
qed

lemma rne_int [simp]: "rne (of_int n) = n"
  by (simp add: rne_def)

lemma rne_err: "\<bar>of_int (rne x) - x\<bar> \<le> 1 / 2"
  by (auto simp: rne_def Let_def abs_if) linarith+

text \<open>The numbers of the format: an integer of at most 53 bits times a power of two.\<close>

definition is_double :: "rat \<Rightarrow> bool" where
  "is_double x \<longleftrightarrow> (\<exists>m e. x = of_int m * pow2 e \<and> \<bar>m\<bar> \<le> 2 ^ 53 \<and> - 1074 \<le> e)"

lemma fl_exp_mag: "x \<noteq> 0 \<Longrightarrow> fl_exp x = - 1074 \<or> 2 ^ 52 * pow2 (fl_exp x) \<le> \<bar>x\<bar>"
  using binade_bounds [of "\<bar>x\<bar>"] pow2_add_nat [of "binade \<bar>x\<bar> - 53" 52]
  by (auto simp: fl_exp_def max_def)

lemma double_below_exp:
  assumes d: "\<bar>m\<bar> \<le> 2 ^ 53" and e: "e < fl_exp x" and e0: "- 1074 \<le> e" and "x \<noteq> 0"
  shows "\<bar>of_int m * pow2 e\<bar> \<le> 2 ^ 52 * pow2 (fl_exp x) \<and> 2 ^ 52 * pow2 (fl_exp x) \<le> \<bar>x\<bar>"
proof
  from e e0 fl_exp_mag [OF \<open>x \<noteq> 0\<close>] show "2 ^ 52 * pow2 (fl_exp x) \<le> \<bar>x\<bar>" by auto
  have "\<bar>of_int m * pow2 e\<bar> = of_int \<bar>m\<bar> * pow2 e"
    by (simp add: abs_mult less_imp_le)
  also have "\<dots> \<le> of_int (2 ^ 53) * pow2 e"
    by (intro mult_right_mono) (use d in \<open>auto intro: less_imp_le simp del: of_int_power\<close>)
  also have "\<dots> = 2 ^ 52 * pow2 (e + 1)" by (simp add: pow2_Suc)
  also have "\<dots> \<le> 2 ^ 52 * pow2 (fl_exp x)"
    by (intro mult_left_mono pow2_mono) (use e in auto)
  finally show "\<bar>of_int m * pow2 e\<bar> \<le> 2 ^ 52 * pow2 (fl_exp x)" .
qed

text \<open>Rounding never crosses a double: what lies on one side of it stays there.\<close>

lemma scale_ge:
  assumes "of_int n * pow2 e \<le> x"
  shows "of_int n * pow2 e \<le> of_int (rne (x / pow2 e)) * pow2 e"
proof -
  have "of_int n \<le> x / pow2 e" using assms by (simp add: pos_le_divide_eq)
  then have "n \<le> rne (x / pow2 e)" by (rule rne_ge)
  then show ?thesis by (intro mult_right_mono) (auto intro: less_imp_le)
qed

lemma scale_le:
  assumes "x \<le> of_int n * pow2 e"
  shows "of_int (rne (x / pow2 e)) * pow2 e \<le> of_int n * pow2 e"
proof -
  have "x / pow2 e \<le> of_int n" using assms by (simp add: pos_divide_le_eq)
  then have "rne (x / pow2 e) \<le> n" by (rule rne_le)
  then show ?thesis by (intro mult_right_mono) (auto intro: less_imp_le)
qed

lemma double_on_grid:
  assumes "f \<le> e"
  obtains n where "of_int m * pow2 e = of_int n * pow2 f"
proof -
  obtain k where "e = f + int k" using assms by (metis zle_iff_zadd)
  then have "of_int m * pow2 e = of_int (m * 2 ^ k) * pow2 f" by (simp add: pow2_add_nat)
  then show thesis by (rule that)
qed

lemma fl_ge_double:
  assumes r: "is_double r" and le: "r \<le> x"
  shows "r \<le> fl x"
proof (cases "x = 0")
  case True
  with le show ?thesis by (simp add: fl_def)
next
  case False
  from r obtain m e where me: "r = of_int m * pow2 e" "\<bar>m\<bar> \<le> 2 ^ 53" "- 1074 \<le> e"
    by (auto simp: is_double_def)
  let ?f = "fl_exp x"
  have flx: "fl x = of_int (rne (x / pow2 ?f)) * pow2 ?f" using False by (simp add: fl_def)
  show ?thesis
  proof (cases "?f \<le> e")
    case True
    then obtain n where "r = of_int n * pow2 ?f" using me(1) double_on_grid by metis
    with le flx scale_ge show ?thesis by metis
  next
    case e: False
    have b: "\<bar>r\<bar> \<le> 2 ^ 52 * pow2 ?f" "2 ^ 52 * pow2 ?f \<le> \<bar>x\<bar>"
      using double_below_exp [of m e x] e me False by auto
    show ?thesis
    proof (cases "0 < x")
      case True
      with b have "of_int (2 ^ 52) * pow2 ?f \<le> x" by simp
      then have "of_int (2 ^ 52) * pow2 ?f \<le> fl x" using flx scale_ge by metis
      with b show ?thesis by simp
    next
      case False
      with b le have "r = - (2 ^ 52 * pow2 ?f)" "x = r" by auto
      then have "x = of_int (- (2 ^ 52)) * pow2 ?f" by simp
      then have "fl x = x" using flx scale_ge scale_le by (metis order.antisym order.refl)
      with \<open>x = r\<close> show ?thesis by simp
    qed
  qed
qed

lemma rne_neg: "rne (- x) = - rne x"
proof (cases "x = of_int \<lfloor>x\<rfloor>")
  case True
  then obtain n where "x = of_int n" by blast
  then show ?thesis by (metis of_int_minus rne_int)
next
  case False
  then have fr: "\<lfloor>- x\<rfloor> = - \<lfloor>x\<rfloor> - 1"
    by (metis add.inverse_inverse ceiling_altdef ceiling_def diff_minus_eq_add minus_diff_eq uminus_add_conv_diff)
  show ?thesis by (simp add: rne_def Let_def fr)
qed

lemma fl_neg: "fl (- x) = - fl x"
  by (simp add: fl_def fl_exp_def rne_neg)

lemma is_double_neg:
  assumes "is_double r"
  shows "is_double (- r)"
proof -
  from assms obtain m e where "r = of_int m * pow2 e" "\<bar>m\<bar> \<le> 2 ^ 53" "- 1074 \<le> e"
    by (auto simp: is_double_def)
  then have "- r = of_int (- m) * pow2 e \<and> \<bar>- m\<bar> \<le> 2 ^ 53 \<and> - 1074 \<le> e" by simp
  then show ?thesis unfolding is_double_def by blast
qed

lemma fl_le_double: "is_double r \<Longrightarrow> x \<le> r \<Longrightarrow> fl x \<le> r"
  using fl_ge_double [of "- r" "- x"] is_double_neg [of r] by (simp add: fl_neg)

lemma fl_double: "is_double r \<Longrightarrow> fl r = r"
  by (meson fl_ge_double fl_le_double order.antisym order.refl)

lemma is_doubleI: "x = of_int m * pow2 e \<Longrightarrow> \<bar>m\<bar> \<le> 2 ^ 53 \<Longrightarrow> - 1074 \<le> e \<Longrightarrow> is_double x"
  by (auto simp: is_double_def)

lemma is_double_int: "\<bar>n\<bar> \<le> 2 ^ 53 \<Longrightarrow> is_double (of_int n)"
  by (rule is_doubleI [of _ n 0]) (auto simp: pow2_def)

lemma fl_int: "\<bar>n\<bar> \<le> 2 ^ 53 \<Longrightarrow> fl (of_int n) = of_int n"
  by (simp add: fl_double is_double_int)

text \<open>The error of one rounding is at most half a unit in the last place.\<close>

lemma fl_error: "\<bar>fl x - x\<bar> \<le> pow2 (fl_exp x) / 2"
proof (cases "x = 0")
  case True
  then show ?thesis by (simp add: fl_def less_imp_le)
next
  case False
  let ?e = "pow2 (fl_exp x)"
  have "fl x - x = (of_int (rne (x / ?e)) - x / ?e) * ?e"
    using False by (simp add: fl_def algebra_simps)
  then have "\<bar>fl x - x\<bar> = \<bar>of_int (rne (x / ?e)) - x / ?e\<bar> * ?e"
    by (simp add: abs_mult less_imp_le)
  also have "\<dots> \<le> 1 / 2 * ?e"
    by (intro mult_right_mono rne_err) (auto intro: less_imp_le)
  finally show ?thesis by simp
qed

text \<open>
  \<^verbatim>\<open>math.Ceil(float64(d) / 1000)\<close> is the exact ceiling for every duration below \<open>2 ^ 52\<close>
  milliseconds: the nearest double of a quotient that is not whole stays strictly between
  the neighbouring whole numbers or reaches the upper one.
\<close>

lemma ceiling_fl_div_1000:
  assumes "0 \<le> d" "d \<le> 2 ^ 52"
  shows "\<lceil>fl (of_int d / 1000)\<rceil> = \<lceil>of_int d / (1000 :: rat)\<rceil>"
proof -
  let ?q = "of_int d / 1000 :: rat"
  define c where "c = \<lceil>?q\<rceil>"
  have q0: "0 \<le> ?q" using assms by simp
  have c: "?q \<le> of_int c" "of_int c - 1 < ?q" unfolding c_def by linarith+
  have "(of_int d :: rat) \<le> of_int (2 ^ 52)" using assms by (simp only: of_int_le_iff)
  then have "of_int c < (2 ^ 43 :: rat)" using c by simp
  then have c43: "c < 2 ^ 43" by (metis of_int_less_iff of_int_numeral of_int_power)
  have c0: "- 1 < c" using c q0 by linarith
  have up: "fl ?q \<le> of_int c"
    by (rule fl_le_double) (use c c0 c43 in \<open>auto intro!: is_double_int\<close>)
  have "(of_int (1000 * (c - 1)) :: rat) < of_int d" using c(2) by (simp add: field_simps)
  then have "1000 * (c - 1) < d" by (simp only: of_int_less_iff)
  then have step: "1000 * (c - 1) + 1 \<le> d" by simp
  define r where "r = (of_int ((c - 1) * 1024 + 1) * pow2 (- 10) :: rat)"
  have r: "r = of_int (c - 1) + 1 / 1024" by (simp add: r_def pow2_def field_simps)
  have "is_double r" using c43 c0 by (intro is_doubleI [OF r_def]) auto
  moreover have "r \<le> ?q"
  proof -
    have "(of_int (1000 * (c - 1) + 1) :: rat) \<le> of_int d" using step by (simp only: of_int_le_iff)
    then show ?thesis by (simp add: r field_simps)
  qed
  ultimately have "r \<le> fl ?q" by (rule fl_ge_double)
  with up show ?thesis by (simp add: r c_def [symmetric] ceiling_eq_iff)
qed

end
