(* ===== verification/Capability.thy ===== *)
theory Capability
  imports ViewDock_Prelude
begin

text \<open>
  The client profile of \<^verbatim>\<open>src/internal/capability/profile.go\<close>: what the player reports about
  the device (three-valued flags, a decoding table, measured codecs) and what is inferred
  from the user agent when it does not. The JSON decoding that fills the record is not
  modelled; \<open>any_val\<close> is the decoded JSON value.
\<close>

section \<open>Data\<close>

datatype any_val =
    ANull
  | ABool bool
  | ANum int
  | AStr string
  | AArr "any_val list"
  | AMap "(string \<times> any_val) list"

record codec_cap =
  MaxHeight :: int
  Hardware :: bool
  TenBit :: bool

record profile =
  UserAgent :: string
  MSE :: "bool option"
  HLSNative :: "bool option"
  ASSJS :: "bool option"
  HDR_flag :: "bool option"
  ViewportW :: int
  ViewportH :: int
  HEVC :: "bool option"
  HEVCMain10 :: "bool option"
  AV1 :: "bool option"
  AC3 :: "bool option"
  EAC3 :: "bool option"
  TrueHD :: "bool option"
  DecodingInfo :: "(string \<times> any_val) list"
  Codecs :: "(string \<times> codec_cap) list"

definition empty_profile :: profile where
  "empty_profile = \<lparr>UserAgent = [], MSE = None, HLSNative = None, ASSJS = None, HDR_flag = None,
     ViewportW = 0, ViewportH = 0, HEVC = None, HEVCMain10 = None, AV1 = None, AC3 = None,
     EAC3 = None, TrueHD = None, DecodingInfo = [], Codecs = []\<rparr>"

section \<open>Inference from the user agent\<close>

definition IsWindowsChrome :: "string \<Rightarrow> bool" where
  "IsWindowsChrome ua = (let u = toLower ua in
     if \<not> strContains u ''chrome/'' \<or> strContains u ''edg/'' then False
     else strContains u ''windows'')"

definition IsChrome :: "string \<Rightarrow> bool" where
  "IsChrome ua = (let u = toLower ua in
     if strContains u ''edg/'' \<or> strContains u ''opr/'' then False
     else strContains u ''chrome/'')"

definition IsFirefox :: "string \<Rightarrow> bool" where
  "IsFirefox ua = (let u = toLower ua in
     strContains u ''firefox/'' \<and> \<not> strContains u ''seamonkey'')"

definition IsSafari :: "string \<Rightarrow> bool" where
  "IsSafari ua = (let u = toLower ua in
     strContains u ''safari/'' \<and> \<not> strContains u ''chrome/'' \<and> \<not> strContains u ''chromium'')"

definition inferMSE :: "string \<Rightarrow> bool" where
  "inferMSE ua = (\<not> IsSafari ua \<or> strContains (toLower ua) ''chrome'')"

definition inferHLSNative :: "string \<Rightarrow> bool" where
  "inferHLSNative ua = (let u = toLower ua in
     if IsSafari ua then True
     else strContains u ''iphone'' \<or> strContains u ''ipad'' \<or> strContains u ''appletv'')"

definition inferHEVC :: "string \<Rightarrow> bool" where
  "inferHEVC ua = (if IsSafari ua then True
     else (let u = toLower ua in strContains u ''edg/'' \<and> strContains u ''windows''))"

definition inferAV1 :: "string \<Rightarrow> bool" where
  "inferAV1 ua = (let u = toLower ua in
     strContains u ''chrome/'' \<or> strContains u ''firefox/'' \<or> strContains u ''edg/'')"

definition inferAC3 :: "string \<Rightarrow> bool" where
  "inferAC3 ua = IsSafari ua"

section \<open>Capability questions\<close>

definition boolOr :: "bool option \<Rightarrow> bool \<Rightarrow> bool" where
  "boolOr v inferred = (case v of Some b \<Rightarrow> b | None \<Rightarrow> inferred)"

definition decodingSupported :: "(string \<times> any_val) list \<Rightarrow> string \<Rightarrow> bool option" where
  "decodingSupported info key =
     (case map_of info key of
        None \<Rightarrow> None
      | Some (ABool v) \<Rightarrow> Some v
      | Some (AMap v) \<Rightarrow> (case map_of v ''supported'' of Some (ABool s) \<Rightarrow> Some s | _ \<Rightarrow> None)
      | Some _ \<Rightarrow> None)"

definition hevcGeneric :: "profile \<Rightarrow> bool" where
  "hevcGeneric p =
     (if HEVC p = Some False then False
      else case decodingSupported (DecodingInfo p) ''hevc'' of
        Some dec \<Rightarrow> dec
      | None \<Rightarrow>
        (case HEVC p of
           Some v \<Rightarrow> if IsWindowsChrome (UserAgent p) then False else v
         | None \<Rightarrow> inferHEVC (UserAgent p)))"

definition HevcOK :: "profile \<Rightarrow> bool \<Rightarrow> bool" where
  "HevcOK p main10 =
     (if main10 then
        (if HEVCMain10 p = Some False then False
         else case decodingSupported (DecodingInfo p) ''hevc_main10'' of
           Some dec \<Rightarrow> dec
         | None \<Rightarrow>
           (case HEVCMain10 p of
              Some v \<Rightarrow> v
            | None \<Rightarrow> if IsSafari (UserAgent p) then hevcGeneric p else False))
      else hevcGeneric p)"

definition ac3OK :: "profile \<Rightarrow> bool" where
  "ac3OK p =
     (if AC3 p = Some False then False
      else case decodingSupported (DecodingInfo p) ''ac3'' of
        Some dec \<Rightarrow> dec
      | None \<Rightarrow>
        if IsChrome (UserAgent p) \<or> IsFirefox (UserAgent p) then False
        else case AC3 p of Some v \<Rightarrow> v | None \<Rightarrow> inferAC3 (UserAgent p))"

definition eac3OK :: "profile \<Rightarrow> bool" where
  "eac3OK p =
     (if EAC3 p = Some False then False
      else case decodingSupported (DecodingInfo p) ''eac3'' of
        Some dec \<Rightarrow> dec
      | None \<Rightarrow>
        if IsChrome (UserAgent p) \<or> IsFirefox (UserAgent p) then False
        else case EAC3 p of Some v \<Rightarrow> v | None \<Rightarrow> False)"

definition Bool :: "profile \<Rightarrow> string \<Rightarrow> bool" where
  "Bool p field =
     (if field = ''mse'' then boolOr (MSE p) (inferMSE (UserAgent p))
      else if field = ''hls_native'' then boolOr (HLSNative p) (inferHLSNative (UserAgent p))
      else if field = ''ass_js'' then boolOr (ASSJS p) False
      else if field = ''hdr'' then boolOr (HDR_flag p) False
      else if field = ''hevc'' then HevcOK p False
      else if field = ''hevc_main10'' then HevcOK p True
      else if field = ''av1'' then boolOr (AV1 p) (inferAV1 (UserAgent p))
      else if field = ''ac3'' then ac3OK p
      else if field = ''eac3'' then eac3OK p
      else if field = ''truehd'' then boolOr (TrueHD p) False
      else False)"

definition HLSAttach :: "profile \<Rightarrow> string" where
  "HLSAttach p =
     (if Bool p ''hls_native'' then ''native''
      else if Bool p ''mse'' then ''mse''
      else if inferHLSNative (UserAgent p) then ''native''
      else ''mse'')"

definition DecodeLimit :: "profile \<Rightarrow> string \<Rightarrow> bool \<Rightarrow> int" where
  "DecodeLimit p codec tenBit =
     (case map_of (Codecs p) codec of
        Some c \<Rightarrow> if tenBit \<and> \<not> TenBit c then 0 else MaxHeight c
      | None \<Rightarrow>
        (let ok = (if codec = ''h264'' then \<not> tenBit
                   else if codec = ''hevc'' then HevcOK p tenBit
                   else if codec = ''av1'' then Bool p ''av1''
                   else False)
         in if ok then 1080 else 0))"

definition WithUA :: "profile \<Rightarrow> string \<Rightarrow> profile" where
  "WithUA p ua = (if UserAgent p = [] then p\<lparr>UserAgent := ua\<rparr> else p)"

section \<open>Properties\<close>

lemmas capability_defs = Bool_def HevcOK_def hevcGeneric_def ac3OK_def eac3OK_def boolOr_def

text \<open>The flag the player may report for a capability question.\<close>

definition reported :: "profile \<Rightarrow> string \<Rightarrow> bool option" where
  "reported p field =
     (if field = ''mse'' then MSE p else if field = ''hls_native'' then HLSNative p
      else if field = ''ass_js'' then ASSJS p else if field = ''hdr'' then HDR_flag p
      else if field = ''hevc'' then HEVC p else if field = ''hevc_main10'' then HEVCMain10 p
      else if field = ''av1'' then AV1 p else if field = ''ac3'' then AC3 p
      else if field = ''eac3'' then EAC3 p else if field = ''truehd'' then TrueHD p else None)"

text \<open>A flag that is explicitly false wins over the decoding table and the user agent.\<close>

definition flag_fields :: "string list" where
  "flag_fields = [''mse'', ''hls_native'', ''ass_js'', ''hdr'', ''hevc'', ''hevc_main10'', ''av1'', ''ac3'', ''eac3'', ''truehd'']"

lemma explicit_false_fields:
  "list_all (\<lambda>field. reported p field = Some False \<longrightarrow> \<not> Bool p field) flag_fields"
  by (simp add: flag_fields_def reported_def capability_defs)

lemma reported_field: "reported p field \<noteq> None \<Longrightarrow> field \<in> set flag_fields"
  by (rule ccontr) (simp add: flag_fields_def reported_def)

lemma explicit_false_wins: "reported p field = Some False \<Longrightarrow> \<not> Bool p field"
  using explicit_false_fields [of p] reported_field [of p field] by (auto simp: list_all_iff)

lemma unknown_field: "Bool p field \<Longrightarrow> field \<in> set flag_fields"
  by (rule ccontr) (simp add: flag_fields_def Bool_def)

text \<open>Chrome and Firefox never get AC-3 or E-AC-3 on a flag alone: it takes the decoding table.\<close>

lemma surround_needs_decoding_info:
  assumes "IsChrome (UserAgent p) \<or> IsFirefox (UserAgent p)" and "field = ''ac3'' \<or> field = ''eac3''"
    and "Bool p field"
  shows "decodingSupported (DecodingInfo p) field = Some True"
proof -
  have "decodingSupported (DecodingInfo p) ''ac3'' = Some True" if "ac3OK p"
    using that assms(1) by (auto simp: ac3OK_def split: if_splits option.splits)
  moreover have "decodingSupported (DecodingInfo p) ''eac3'' = Some True" if "eac3OK p"
    using that assms(1) by (auto simp: eac3OK_def split: if_splits option.splits)
  moreover have "Bool p ''ac3'' = ac3OK p" "Bool p ''eac3'' = eac3OK p" by (simp_all add: Bool_def)
  ultimately show ?thesis using assms(2,3) by auto
qed

lemma WithUA_keeps: "UserAgent p \<noteq> [] \<Longrightarrow> WithUA p ua = p"
  by (simp add: WithUA_def)

lemma DecodeLimit_unmeasured: "map_of (Codecs p) c = None \<Longrightarrow> DecodeLimit p c t \<in> {0, 1080}"
  by (simp add: DecodeLimit_def Let_def)

lemma HLSAttach_cases: "HLSAttach p = ''native'' \<or> HLSAttach p = ''mse''"
  by (simp add: HLSAttach_def)

end
