(* ===== verification/Decision.thy ===== *)
theory Decision
  imports Capability
begin

text \<open>
  The playback decision of \<^verbatim>\<open>src/internal/decision\<close>: for a probed file, a client profile, a
  quality setting and the host's hardware it chooses direct play, remux or transcode, the
  height, the subtitle action and the reasons shown to the administrator. Reason, mode and
  label strings are the constants of \<^verbatim>\<open>reasons.go\<close>.
\<close>

section \<open>Data\<close>

record stream =
  Index :: int
  Kind :: string
  Codec :: string
  Language :: string
  Title :: string
  Channels :: int
  Default :: bool
  Forced :: bool
  SDH :: bool
  Width :: int
  Height :: int
  BitDepth :: int
  HDR :: string

record media_info =
  DurationMS :: int
  Container :: string
  Size :: int
  VideoCodec :: string
  AudioCodec :: string
  InfoWidth :: int
  InfoHeight :: int
  InfoBitDepth :: int
  InfoHDR :: string
  Streams :: "stream list"

text \<open>The part of \<^verbatim>\<open>hwaccel.Info\<close> a decision reads.\<close>

record hw_info =
  VAAPI :: bool
  NVENC :: bool
  ZScale :: bool

record dec_input =
  Info :: "media_info option"
  Client :: profile
  Quality :: string
  LAN :: bool
  ShareMaxH :: int
  RemoteBitrate :: int
  AudioIndex :: int
  SubtitleIndex :: "int option"
  HW :: hw_info
  Original :: bool

record stream_action =
  act_Codec :: string
  act_Action :: string
  act_To :: string
  act_Reason :: string

record dec_result =
  Mode :: string
  Delivery :: string
  res_HLSAttach :: string
  Reasons :: "string list"
  res_Height :: int
  NeedVideoXcode :: bool
  NeedAudioXcode :: bool
  NeedBurn :: bool
  CopyVideo :: bool
  CopyAudio :: bool
  HEVCRemuxTag :: bool
  Refuse :: string
  SubAction :: string
  Playback :: string
  Video :: stream_action
  Audio :: stream_action
  res_Container :: stream_action
  res_Hardware :: string

definition no_action :: stream_action where
  "no_action = \<lparr>act_Codec = [], act_Action = [], act_To = [], act_Reason = []\<rparr>"

section \<open>Constants of reasons.go\<close>

definition DirectUnprobed :: string where "DirectUnprobed = ''DIRECT_UNPROBED''"
definition DirectPlay :: string where "DirectPlay = ''DIRECT_PLAY''"
definition DirectVideoH264 :: string where "DirectVideoH264 = ''DIRECT_VIDEO_H264''"
definition DirectVideoHEVC :: string where "DirectVideoHEVC = ''DIRECT_VIDEO_HEVC''"
definition DirectVideoHEVCMain10 :: string where "DirectVideoHEVCMain10 = ''DIRECT_VIDEO_HEVC_MAIN10''"
definition DirectAudioAAC :: string where "DirectAudioAAC = ''DIRECT_AUDIO_AAC''"
definition DirectAudioMP3 :: string where "DirectAudioMP3 = ''DIRECT_AUDIO_MP3''"
definition DirectContainerMP4 :: string where "DirectContainerMP4 = ''DIRECT_CONTAINER_MP4''"
definition RemuxContainerMKV :: string where "RemuxContainerMKV = ''REMUX_CONTAINER_MKV''"
definition RemuxContainer :: string where "RemuxContainer = ''REMUX_CONTAINER''"
definition RemuxFMP4 :: string where "RemuxFMP4 = ''REMUX_FMP4_HLS''"
definition RemuxHEVCTag :: string where "RemuxHEVCTag = ''REMUX_HEVC_HVC1''"
definition TranscodeVideoHEVC :: string where "TranscodeVideoHEVC = ''TRANSCODE_VIDEO_HEVC_UNSUPPORTED''"
definition TranscodeVideoHEVCMain10 :: string where "TranscodeVideoHEVCMain10 = ''TRANSCODE_VIDEO_HEVC_MAIN10_UNSUPPORTED''"
definition TranscodeVideoAV1 :: string where "TranscodeVideoAV1 = ''TRANSCODE_VIDEO_AV1_UNSUPPORTED''"
definition TranscodeVideo :: string where "TranscodeVideo = ''TRANSCODE_VIDEO_CODEC''"
definition TranscodeVideoHDR :: string where "TranscodeVideoHDR = ''TRANSCODE_VIDEO_HDR''"
definition TranscodeAudioTrueHD :: string where "TranscodeAudioTrueHD = ''TRANSCODE_AUDIO_TRUEHD''"
definition TranscodeAudioAC3 :: string where "TranscodeAudioAC3 = ''TRANSCODE_AUDIO_AC3''"
definition TranscodeAudioEAC3 :: string where "TranscodeAudioEAC3 = ''TRANSCODE_AUDIO_EAC3''"
definition TranscodeAudioDTS :: string where "TranscodeAudioDTS = ''TRANSCODE_AUDIO_DTS''"
definition TranscodeAudio :: string where "TranscodeAudio = ''TRANSCODE_AUDIO_UNSUPPORTED''"
definition BurnPGS :: string where "BurnPGS = ''BURN_PGS''"
definition BurnVobSub :: string where "BurnVobSub = ''BURN_VOBSUB''"
definition BurnASS :: string where "BurnASS = ''BURN_ASS''"
definition TextASSJS :: string where "TextASSJS = ''TEXT_ASS_JS''"
definition TextSub :: string where "TextSub = ''TEXT_SUBTITLE''"
definition QualityRemote :: string where "QualityRemote = ''QUALITY_REMOTE_BITRATE''"
definition QualityViewport :: string where "QualityViewport = ''QUALITY_VIEWPORT''"
definition QualityShare :: string where "QualityShare = ''QUALITY_SHARE_HEIGHT''"
definition QualityRequested :: string where "QualityRequested = ''QUALITY_REQUESTED''"
definition HWVAAPI :: string where "HWVAAPI = ''HW_VAAPI''"
definition HWNVENC :: string where "HWNVENC = ''HW_NVENC''"
definition HWFallbackCPU :: string where "HWFallbackCPU = ''HW_FALLBACK_CPU''"
definition RefuseNoZScale :: string where "RefuseNoZScale = ''REFUSE_4K_HDR_NO_ZSCALE''"
definition RemuxKeyframeIncomplete :: string where "RemuxKeyframeIncomplete = ''REMUX_KEYFRAME_INCOMPLETE_PROMOTE_XCODE''"
definition ModeDirect :: string where "ModeDirect = ''direct_play''"
definition ModeRemux :: string where "ModeRemux = ''remux''"
definition ModeTranscodeVid :: string where "ModeTranscodeVid = ''transcode_video''"
definition ModeTranscodeAud :: string where "ModeTranscodeAud = ''transcode_audio''"
definition ModeTranscodeAV :: string where "ModeTranscodeAV = ''transcode_av''"
definition ModeBurnSubs :: string where "ModeBurnSubs = ''burn_subs''"
definition DeliveryDirect :: string where "DeliveryDirect = ''direct''"
definition DeliveryHLS :: string where "DeliveryHLS = ''hls''"
definition PlaybackDirect :: string where "PlaybackDirect = ''Direct Play''"
definition PlaybackRemux :: string where "PlaybackRemux = ''Remux''"
definition PlaybackPartial :: string where "PlaybackPartial = ''Partial Transcode''"
definition PlaybackFull :: string where "PlaybackFull = ''Full Transcode''"
definition ActionCopy :: string where "ActionCopy = ''COPY''"
definition ActionTranscode :: string where "ActionTranscode = ''TRANSCODE''"
definition ActionDirect :: string where "ActionDirect = ''DIRECT''"
definition ActionRemux :: string where "ActionRemux = ''REMUX''"

lemmas mode_defs = ModeDirect_def ModeRemux_def ModeTranscodeVid_def ModeTranscodeAud_def
  ModeTranscodeAV_def ModeBurnSubs_def

lemmas label_defs = mode_defs DeliveryDirect_def DeliveryHLS_def PlaybackDirect_def PlaybackRemux_def
  PlaybackPartial_def PlaybackFull_def ActionCopy_def ActionTranscode_def ActionDirect_def ActionRemux_def

section \<open>Height selection (quality.go)\<close>

definition defaultRemoteBitrate :: int where
  "defaultRemoteBitrate = 8000000"

definition snap :: "int \<Rightarrow> int" where
  "snap h = (if h \<le> 0 then 480 else if h \<le> 480 then 480 else if h \<le> 720 then 720 else 1080)"

definition estimateBitrate :: "media_info option \<Rightarrow> i64" where
  "estimateBitrate info =
     (case info of
        None \<Rightarrow> 0
      | Some i \<Rightarrow>
          if DurationMS i \<le> 0 \<or> Size i \<le> 0 then 0
          else quot (wrap64 (wrap64 (Size i * 8) * 1000)) (DurationMS i))"

definition autoHeight :: "int \<Rightarrow> int \<Rightarrow> bool \<Rightarrow> media_info option \<Rightarrow> i64 \<Rightarrow> int" where
  "autoHeight srcH viewportH lan info remoteCap =
     (let capH = srcH;
          capH = (if \<not> lan then
                    (let limit = 720;
                         br = estimateBitrate info;
                         remoteCap = (if remoteCap \<le> 0 then defaultRemoteBitrate else remoteCap);
                         limit = (if br > remoteCap \<or> srcH \<ge> 1080 then 720 else limit);
                         limit = (if srcH \<ge> 2160 then 720 else limit)
                     in if capH > limit then limit else capH)
                  else if capH > 1080 then 1080 else capH);
          capH = (if viewportH > 0 then (let v = snap viewportH in if v < capH then v else capH) else capH)
      in snap capH)"

text \<open>The quality switch of \<^verbatim>\<open>PickHeight\<close>, before the share limit and the source's own height.\<close>

definition wantedHeight :: "int \<Rightarrow> int \<Rightarrow> bool \<Rightarrow> string \<Rightarrow> media_info option \<Rightarrow> i64 \<Rightarrow> int" where
  "wantedHeight srcH viewportH lan quality info remoteCap =
     (let q = toLower (trimSpace quality) in
      if q \<in> {''1080'', ''720'', ''480''} then (case atoi q of Some n \<Rightarrow> n | None \<Rightarrow> 0)
      else if q = ''auto'' \<or> q = [] then autoHeight srcH viewportH lan info remoteCap
      else (case atoi q of
              Some n \<Rightarrow> if n > 0 then snap n else autoHeight srcH viewportH lan info remoteCap
            | None \<Rightarrow> autoHeight srcH viewportH lan info remoteCap))"

definition PickHeight :: "int \<Rightarrow> int \<Rightarrow> bool \<Rightarrow> string \<Rightarrow> int \<Rightarrow> media_info option \<Rightarrow> i64 \<Rightarrow> int" where
  "PickHeight srcH viewportH lan quality shareMax info remoteCap =
     (let srcH = (if srcH \<le> 0 then 1080 else srcH);
          want = wantedHeight srcH viewportH lan quality info remoteCap;
          want = (if shareMax > 0 \<and> (want = 0 \<or> want > shareMax) then snap shareMax else want)
      in if want \<le> 0 \<or> want \<ge> srcH then srcH else want)"

definition ParseQualityHeight :: "string \<Rightarrow> int" where
  "ParseQualityHeight q = (let q = toLower (trimSpace q) in
     if q = ''1080'' then 1080 else if q = ''720'' then 720 else if q = ''480'' then 480 else 0)"

section \<open>Codecs and containers\<close>

definition normalizeVideo :: "string \<Rightarrow> string" where
  "normalizeVideo c = (let c = toLower c in
     if c \<in> {''h264'', ''avc'', ''avc1''} then ''h264''
     else if c \<in> {''hevc'', ''h265'', ''hvc1'', ''hev1''} then ''hevc''
     else if c \<in> {''av1'', ''av01''} then ''av1''
     else c)"

definition normalizeAudio :: "string \<Rightarrow> string" where
  "normalizeAudio c = (let c = toLower c in
     if c \<in> {''aac'', ''mp4a''} then ''aac''
     else if c \<in> {''mp3'', ''mp3float''} then ''mp3''
     else if c \<in> {''ac3'', ''ac-3''} then ''ac3''
     else if c \<in> {''eac3'', ''ec-3'', ''eac-3''} then ''eac3''
     else if c \<in> {''truehd'', ''mlp''} then ''truehd''
     else c)"

definition isHEVC :: "string \<Rightarrow> bool" where
  "isHEVC c = (normalizeVideo c = ''hevc'')"

definition is4K :: "int \<Rightarrow> int \<Rightarrow> bool" where
  "is4K w h = (w \<ge> 3840 \<or> h \<ge> 2160)"

definition videoDirect :: "string \<Rightarrow> int \<Rightarrow> profile \<Rightarrow> bool \<times> string" where
  "videoDirect codec bitDepth c =
     (let n = normalizeVideo codec in
      if n = ''h264'' then (True, DirectVideoH264)
      else if n = ''hevc'' then
        (let main10 = bitDepth \<ge> 10 in
         if HevcOK c main10 then (if main10 then (True, DirectVideoHEVCMain10) else (True, DirectVideoHEVC))
         else if main10 then (False, TranscodeVideoHEVCMain10)
         else (False, TranscodeVideoHEVC))
      else if n = ''av1'' then (if Bool c ''av1'' then (True, []) else (False, TranscodeVideoAV1))
      else (False, TranscodeVideo))"

definition audioDirect :: "string \<Rightarrow> profile \<Rightarrow> bool \<times> string" where
  "audioDirect codec c =
     (let n = normalizeAudio codec in
      if n = ''aac'' then (True, DirectAudioAAC)
      else if n = ''mp3'' then (True, DirectAudioMP3)
      else if n = ''ac3'' then (if Bool c ''ac3'' then (True, []) else (False, TranscodeAudioAC3))
      else if n = ''eac3'' then (if Bool c ''eac3'' then (True, []) else (False, TranscodeAudioEAC3))
      else if n = ''truehd'' then (False, TranscodeAudioTrueHD)
      else if n \<in> {''dts'', ''dts-hd'', ''dca''} then (False, TranscodeAudioDTS)
      else if n = [] then (True, [])
      else (False, TranscodeAudio))"

definition isISOBMFF :: "string \<Rightarrow> bool" where
  "isISOBMFF n = (n \<in> {''mp4'', ''mov'', ''m4v'', ''isom''} \<or> strContains n ''mp4'' \<or> n = ''quicktime'')"

definition containerDirect :: "string \<Rightarrow> bool \<times> string" where
  "containerDirect c = (let n = toLower c in
     if isISOBMFF n then (True, DirectContainerMP4)
     else if strContains n ''mkv'' \<or> strContains n ''matroska'' then (False, RemuxContainerMKV)
     else (False, RemuxContainer))"

section \<open>Stream selection\<close>

definition videoStream :: "media_info \<Rightarrow> stream option" where
  "videoStream info = find (\<lambda>s. Kind s = ''video'') (Streams info)"

definition audioStream :: "media_info \<Rightarrow> int \<Rightarrow> stream option" where
  "audioStream info idx =
     (let audio = filter (\<lambda>s. Kind s = ''audio'') (Streams info) in
      case find (\<lambda>s. idx > 0 \<and> Index s = idx) audio of
        Some s \<Rightarrow> Some s
      | None \<Rightarrow> (case audio of [] \<Rightarrow> None | s # _ \<Rightarrow> Some s))"

definition selectedSub :: "media_info \<Rightarrow> int option \<Rightarrow> stream option" where
  "selectedSub info idx =
     (case idx of None \<Rightarrow> None
      | Some i \<Rightarrow> find (\<lambda>s. Kind s = ''subtitle'' \<and> Index s = i) (Streams info))"

definition subtitleAction :: "stream \<Rightarrow> profile \<Rightarrow> string \<times> string" where
  "subtitleAction s c = (let codec = toLower (Codec s) in
     if codec \<in> {''hdmv_pgs_subtitle'', ''pgs'', ''pgssub''} then (''burn'', BurnPGS)
     else if codec \<in> {''dvd_subtitle'', ''dvdsub'', ''vobsub''} then (''burn'', BurnVobSub)
     else if codec \<in> {''ass'', ''ssa''} then
       (if Bool c ''ass_js'' then (''extract'', TextASSJS) else (''burn'', BurnASS))
     else (''extract'', TextSub))"

section \<open>Reasons and labels\<close>

definition appendUnique :: "string list \<Rightarrow> string \<Rightarrow> string list" where
  "appendUnique s v = (if v \<in> set s then s else s @ [v])"

fun unique_from :: "string list \<Rightarrow> string list \<Rightarrow> string list" where
  "unique_from seen [] = []"
| "unique_from seen (x # xs) =
     (if x = [] \<or> x \<in> set seen then unique_from seen xs else x # unique_from (x # seen) xs)"

definition unique :: "string list \<Rightarrow> string list" where
  "unique s = unique_from [] s"

definition playbackLabel :: "dec_result \<Rightarrow> string" where
  "playbackLabel r =
     (if Mode r = ModeDirect then PlaybackDirect
      else if Mode r = ModeRemux then PlaybackRemux
      else if Mode r = ModeTranscodeAV then PlaybackFull
      else if Mode r \<in> {ModeTranscodeVid, ModeTranscodeAud, ModeBurnSubs} then
        (if NeedVideoXcode r \<and> NeedAudioXcode r then PlaybackFull else PlaybackPartial)
      else Mode r)"

definition streamVideo :: "string \<Rightarrow> int \<Rightarrow> dec_result \<Rightarrow> string \<Rightarrow> stream_action" where
  "streamVideo codec bitDepth r reason =
     (let label = (if isHEVC codec \<and> bitDepth \<ge> 10 then ''hevc_main10'' else codec);
          a = \<lparr>act_Codec = label, act_Action = ActionCopy, act_To = [], act_Reason = reason\<rparr>
      in if NeedVideoXcode r then a\<lparr>act_Action := ActionTranscode, act_To := ''h264''\<rparr>
         else if Mode r = ModeDirect then a\<lparr>act_Action := ActionDirect\<rparr>
         else a)"

definition streamAudio :: "string \<Rightarrow> dec_result \<Rightarrow> string \<Rightarrow> stream_action" where
  "streamAudio codec r reason =
     (let a = \<lparr>act_Codec = codec, act_Action = ActionCopy, act_To = [], act_Reason = reason\<rparr>
      in if NeedAudioXcode r then a\<lparr>act_Action := ActionTranscode, act_To := ''aac''\<rparr>
         else if Mode r = ModeDirect then a\<lparr>act_Action := ActionDirect\<rparr>
         else a)"

definition streamContainer :: "string \<Rightarrow> dec_result \<Rightarrow> string \<Rightarrow> bool \<Rightarrow> stream_action" where
  "streamContainer container r reason directOK =
     (let a = \<lparr>act_Codec = container, act_Action = [], act_To = [], act_Reason = reason\<rparr>
      in if Mode r = ModeDirect \<and> directOK then a\<lparr>act_Action := ActionDirect\<rparr>
         else a\<lparr>act_Action := ActionRemux, act_To := ''hls'',
                act_Reason := (if reason = [] then RemuxFMP4 else reason)\<rparr>)"

definition hardwareLabel :: "dec_result \<Rightarrow> hw_info \<Rightarrow> string" where
  "hardwareLabel r hw =
     (if \<not> NeedVideoXcode r then ''Not required''
      else if VAAPI hw then ''VAAPI''
      else if NVENC hw then ''NVENC''
      else ''CPU'')"

definition needVideoBesidesBurn :: "bool \<Rightarrow> int \<Rightarrow> int \<Rightarrow> bool" where
  "needVideoBesidesBurn vOK destH srcH =
     (if \<not> vOK then True else destH > 0 \<and> srcH > 0 \<and> destH < srcH)"

definition NeedsVideoSlot :: "dec_result \<Rightarrow> bool" where
  "NeedsVideoSlot r = NeedVideoXcode r"

section \<open>Decide\<close>

text \<open>
  \<^verbatim>\<open>Decide\<close> is a straight line of updates of one result. Each block of it is a definition that
  takes the result built so far; \<open>Decide\<close> chains them in the source's order.
\<close>

definition init_result :: "dec_input \<Rightarrow> dec_result" where
  "init_result inp = \<lparr>Mode = [], Delivery = [], res_HLSAttach = HLSAttach (Client inp), Reasons = [],
     res_Height = 0, NeedVideoXcode = False, NeedAudioXcode = False, NeedBurn = False, CopyVideo = True,
     CopyAudio = True, HEVCRemuxTag = False, Refuse = [], SubAction = [], Playback = [],
     Video = no_action, Audio = no_action, res_Container = no_action, res_Hardware = []\<rparr>"

definition unprobed :: "media_info option \<Rightarrow> bool" where
  "unprobed info = (case info of None \<Rightarrow> True
     | Some i \<Rightarrow> VideoCodec i = [] \<and> Container i = [] \<and> length (Streams i) = 0)"

definition source_height :: "media_info \<Rightarrow> int" where
  "source_height i = (if InfoHeight i = 0 then (case videoStream i of Some v \<Rightarrow> Height v | None \<Rightarrow> 0)
                      else InfoHeight i)"

definition target_height :: "dec_input \<Rightarrow> media_info \<Rightarrow> int" where
  "target_height inp i =
     (let srcH = source_height i;
          h = PickHeight srcH (ViewportH (Client inp)) (LAN inp) (Quality inp) (ShareMaxH inp) (Some i)
                (RemoteBitrate inp)
      in if Original inp \<and> ShareMaxH inp = 0 \<and> (Quality inp = [] \<or> toLower (Quality inp) = ''auto'')
         then srcH else h)"

definition video_codec :: "media_info \<Rightarrow> string" where
  "video_codec i = (case videoStream i of Some v \<Rightarrow> Codec v | None \<Rightarrow> VideoCodec i)"

definition audio_codec :: "media_info \<Rightarrow> int \<Rightarrow> string" where
  "audio_codec i idx = (case audioStream i idx of Some a \<Rightarrow> Codec a | None \<Rightarrow> AudioCodec i)"

definition bit_depth :: "media_info \<Rightarrow> int" where
  "bit_depth i = (case videoStream i of
     Some v \<Rightarrow> if BitDepth v > 0 then BitDepth v else InfoBitDepth i | None \<Rightarrow> InfoBitDepth i)"

definition hdr_of :: "media_info \<Rightarrow> string" where
  "hdr_of i = (if InfoHDR i = [] then (case videoStream i of Some v \<Rightarrow> HDR v | None \<Rightarrow> []) else InfoHDR i)"

definition width_of :: "media_info \<Rightarrow> int" where
  "width_of i = (if InfoWidth i = 0 then (case videoStream i of Some v \<Rightarrow> Width v | None \<Rightarrow> 0) else InfoWidth i)"

definition add_reason :: "string \<Rightarrow> dec_result \<Rightarrow> dec_result" where
  "add_reason x r = r\<lparr>Reasons := Reasons r @ [x]\<rparr>"

definition add_reason_nonempty :: "string \<Rightarrow> dec_result \<Rightarrow> dec_result" where
  "add_reason_nonempty x r = (if x \<noteq> [] then add_reason x r else r)"

definition decide_video :: "bool \<Rightarrow> string \<Rightarrow> dec_result \<Rightarrow> dec_result" where
  "decide_video vOK vReason r =
     (if \<not> vOK then add_reason_nonempty vReason (r\<lparr>NeedVideoXcode := True, CopyVideo := False\<rparr>)
      else add_reason_nonempty vReason r)"

definition decide_audio :: "bool \<Rightarrow> string \<Rightarrow> dec_result \<Rightarrow> dec_result" where
  "decide_audio aOK aReason r =
     (if \<not> aOK then add_reason_nonempty aReason (r\<lparr>NeedAudioXcode := True, CopyAudio := False\<rparr>)
      else add_reason_nonempty aReason r)"

definition decide_sub :: "stream option \<Rightarrow> profile \<Rightarrow> dec_result \<Rightarrow> dec_result" where
  "decide_sub sub c r =
     (case sub of
        None \<Rightarrow> r\<lparr>SubAction := ''none''\<rparr>
      | Some s \<Rightarrow>
         (let (action, reason) = subtitleAction s c;
              r = add_reason_nonempty reason (r\<lparr>SubAction := action\<rparr>)
          in if action = ''burn'' then r\<lparr>NeedBurn := True, NeedVideoXcode := True, CopyVideo := False\<rparr> else r))"

definition decide_height :: "dec_input \<Rightarrow> int \<Rightarrow> dec_result \<Rightarrow> dec_result" where
  "decide_height inp srcH r =
     (if res_Height r > 0 \<and> srcH > 0 \<and> res_Height r < srcH then
        (let r = r\<lparr>NeedVideoXcode := True, CopyVideo := False\<rparr> in
         if \<not> LAN inp then add_reason QualityRemote r
         else if ShareMaxH inp > 0 \<and> res_Height r \<le> ShareMaxH inp \<and> (Quality inp = [] \<or> Quality inp = ''auto'')
           then add_reason QualityShare r
         else if Quality inp \<noteq> [] \<and> Quality inp \<noteq> ''auto'' then add_reason QualityRequested r
         else add_reason QualityViewport r)
      else r)"

definition decide_hdr :: "dec_input \<Rightarrow> media_info \<Rightarrow> int \<Rightarrow> dec_result \<Rightarrow> dec_result" where
  "decide_hdr inp i srcH r =
     (let r = (if is4K (width_of i) srcH \<and> hdr_of i \<noteq> [] \<and> \<not> ZScale (HW inp) \<and> NeedVideoXcode r
               then add_reason RefuseNoZScale (r\<lparr>Refuse := RefuseNoZScale\<rparr>) else r)
      in if NeedVideoXcode r \<and> hdr_of i \<noteq> [] \<and> Bool (Client inp) ''hdr'' = False
         then r\<lparr>Reasons := appendUnique (Reasons r) TranscodeVideoHDR\<rparr> else r)"

definition decide_mode :: "bool \<Rightarrow> bool \<Rightarrow> string \<Rightarrow> string \<Rightarrow> int \<Rightarrow> dec_result \<Rightarrow> dec_result" where
  "decide_mode vOK cOK cReason vcodec srcH r =
     (if NeedVideoXcode r \<and> NeedAudioXcode r then r\<lparr>Mode := ModeTranscodeAV\<rparr>
      else if NeedBurn r \<and> \<not> NeedAudioXcode r \<and> \<not> needVideoBesidesBurn vOK (res_Height r) srcH
        then r\<lparr>Mode := ModeBurnSubs\<rparr>
      else if NeedVideoXcode r then r\<lparr>Mode := ModeTranscodeVid\<rparr>
      else if NeedAudioXcode r then r\<lparr>Mode := ModeTranscodeAud\<rparr>
      else if cOK then
        (let r = add_reason DirectPlay (r\<lparr>Mode := ModeDirect\<rparr>)
         in if cReason \<noteq> [] then r\<lparr>Reasons := appendUnique (Reasons r) cReason\<rparr> else r)
      else
        (let r = r\<lparr>Mode := ModeRemux\<rparr>;
             r = add_reason (if cReason \<noteq> [] then cReason else RemuxContainer) r;
             r = add_reason RemuxFMP4 r
         in if isHEVC vcodec then add_reason RemuxHEVCTag (r\<lparr>HEVCRemuxTag := True\<rparr>) else r))"

definition decide_hw :: "hw_info \<Rightarrow> dec_result \<Rightarrow> dec_result" where
  "decide_hw hw r =
     (if NeedVideoXcode r then
        r\<lparr>Reasons := appendUnique (Reasons r)
            (if VAAPI hw then HWVAAPI else if NVENC hw then HWNVENC else HWFallbackCPU)\<rparr>
      else r)"

definition decide_core :: "dec_input \<Rightarrow> media_info \<Rightarrow> dec_result" where
  "decide_core inp i =
     (let srcH = source_height i;
          r = (init_result inp)\<lparr>res_Height := target_height inp i\<rparr>;
          vcodec = video_codec i;
          acodec = audio_codec i (AudioIndex inp);
          (vOK, vReason) = videoDirect vcodec (bit_depth i) (Client inp);
          (aOK, aReason) = audioDirect acodec (Client inp);
          (cOK, cReason) = containerDirect (Container i);
          r = decide_video vOK vReason r;
          r = decide_audio aOK aReason r;
          r = decide_sub (selectedSub i (SubtitleIndex inp)) (Client inp) r;
          r = decide_height inp srcH r;
          r = decide_hdr inp i srcH r;
          r = decide_mode vOK cOK cReason vcodec srcH r;
          r = r\<lparr>Delivery := (if Mode r = ModeDirect then DeliveryDirect else DeliveryHLS)\<rparr>
      in decide_hw (HW inp) r)"

definition Decide :: "dec_input \<Rightarrow> dec_result" where
  "Decide inp =
     (case Info inp of
        Some i \<Rightarrow>
          if unprobed (Some i) then
            (init_result inp)\<lparr>Mode := ModeDirect, Delivery := DeliveryDirect, Reasons := [DirectUnprobed]\<rparr>
          else
            (let r = decide_core inp i;
                 (vOK, vReason) = videoDirect (video_codec i) (bit_depth i) (Client inp);
                 (aOK, aReason) = audioDirect (audio_codec i (AudioIndex inp)) (Client inp);
                 (cOK, cReason) = containerDirect (Container i);
                 r = r\<lparr>Reasons := unique (Reasons r)\<rparr>;
                 r = r\<lparr>Playback := playbackLabel r\<rparr>;
                 r = r\<lparr>Video := streamVideo (video_codec i) (bit_depth i) r vReason\<rparr>;
                 r = r\<lparr>Audio := streamAudio (audio_codec i (AudioIndex inp)) r aReason\<rparr>;
                 r = r\<lparr>res_Container := streamContainer (Container i) r cReason cOK\<rparr>
             in r\<lparr>res_Hardware := hardwareLabel r (HW inp)\<rparr>)
      | None \<Rightarrow>
          (init_result inp)\<lparr>Mode := ModeDirect, Delivery := DeliveryDirect, Reasons := [DirectUnprobed]\<rparr>)"

definition PromoteRemuxToVideoXcode :: "dec_result \<Rightarrow> hw_info \<Rightarrow> dec_result" where
  "PromoteRemuxToVideoXcode r hw =
     (let r = r\<lparr>NeedVideoXcode := True, CopyVideo := False,
                Reasons := appendUnique (Reasons r) RemuxKeyframeIncomplete\<rparr>;
          r = r\<lparr>Mode := (if NeedAudioXcode r then ModeTranscodeAV else ModeTranscodeVid), Delivery := DeliveryHLS\<rparr>;
          r = r\<lparr>Playback := playbackLabel r\<rparr>;
          r = r\<lparr>Video := (Video r)\<lparr>act_Action := ActionTranscode, act_To := ''h264''\<rparr>\<rparr>
      in if VAAPI hw then r\<lparr>Reasons := appendUnique (Reasons r) HWVAAPI, res_Hardware := ''VAAPI''\<rparr>
         else if NVENC hw then r\<lparr>Reasons := appendUnique (Reasons r) HWNVENC, res_Hardware := ''NVENC''\<rparr>
         else r\<lparr>Reasons := appendUnique (Reasons r) HWFallbackCPU, res_Hardware := ''CPU''\<rparr>)"

section \<open>Properties\<close>

subsection \<open>Heights\<close>

lemma snap_in: "snap h \<in> {480, 720, 1080}"
  by (auto simp: snap_def)

lemma snap_pos: "0 < snap h"
  by (simp add: snap_def)

lemma snap_mono: "h \<le> k \<Longrightarrow> snap h \<le> snap k"
  by (auto simp: snap_def)

lemma snap_idem [simp]: "snap (snap h) = snap h"
  by (auto simp: snap_def)

text \<open>
  In closed form: the limit is 720 for every remote viewer, so the bitrate estimate and the
  bitrate cap have no influence on the height.
\<close>

lemma autoHeight_eq:
  "autoHeight s v lan info cap =
     snap (let b = min s (if lan then 1080 else 720) in if v > 0 then min (snap v) b else b)"
proof -
  have m: "min a b = (if a < b then a else b)" "min s c = (if s > c then c else s)" for a b c :: int
    by auto
  show ?thesis unfolding m autoHeight_def Let_def by simp
qed

lemma autoHeight_in: "autoHeight s v lan info cap \<in> {480, 720, 1080}"
  unfolding autoHeight_eq by (rule snap_in)

lemma snap_le_720: "h \<le> 720 \<Longrightarrow> snap h \<le> 720"
  by (simp add: snap_def)

lemma autoHeight_remote: "autoHeight s v False info cap \<le> 720"
  unfolding autoHeight_eq by (rule snap_le_720) (simp add: Let_def min.coboundedI2)

lemma autoHeight_viewport:
  assumes "v > 0"
  shows "autoHeight s v lan info cap \<le> snap v"
proof -
  have "snap (min (snap v) (min s (if lan then 1080 else 720))) \<le> snap (snap v)"
    by (rule snap_mono) simp
  with assms show ?thesis by (simp add: autoHeight_eq Let_def)
qed

lemma atoi_presets: "atoi ''1080'' = Some 1080" "atoi ''720'' = Some 720" "atoi ''480'' = Some 480"
  by code_simp+

lemma wantedHeight_in: "wantedHeight s v lan q info cap \<in> {480, 720, 1080}"
proof -
  have "(case atoi t of Some n \<Rightarrow> n | None \<Rightarrow> 0) \<in> {480, 720, 1080 :: int}"
    if "t \<in> {''1080'', ''720'', ''480''}" for t
    using that atoi_presets by auto
  then show ?thesis
    using autoHeight_in snap_in by (simp add: wantedHeight_def Let_def split: option.split)
qed

lemma PickHeight_le_source: "PickHeight s v lan q m info cap \<le> (if s \<le> 0 then 1080 else s)"
  by (simp add: PickHeight_def Let_def)

lemma PickHeight_pos: "0 < PickHeight s v lan q m info cap"
  by (simp add: PickHeight_def Let_def)

lemma PickHeight_share:
  assumes "m \<in> {480, 720, 1080}"
  shows "PickHeight s v lan q m info cap \<le> m"
proof -
  let ?S = "if s \<le> 0 then 1080 else s"
  have "wantedHeight ?S v lan q info cap > 0" using wantedHeight_in [of ?S v lan q info cap] by auto
  moreover have "snap m = m" using assms by (auto simp: snap_def)
  ultimately show ?thesis using assms by (auto simp: PickHeight_def Let_def)
qed

lemma PickHeight_remote_auto:
  assumes "q = [] \<or> q = ''auto''" and "0 < s"
  shows "PickHeight s v False q m info cap \<le> 720"
proof -
  have q: "toLower (trimSpace q) = ''auto'' \<or> toLower (trimSpace q) = []"
    using assms(1) by (elim disjE) (simp_all, (code_simp)+)
  then have "wantedHeight s v False q info cap = autoHeight s v False info cap"
    by (auto simp: wantedHeight_def Let_def)
  then have "0 < wantedHeight s v False q info cap" "wantedHeight s v False q info cap \<le> 720"
    using autoHeight_remote [of s v info cap] autoHeight_in [of s v False info cap] by auto
  moreover have "m < wantedHeight s v False q info cap \<Longrightarrow> snap m \<le> 720"
    using calculation by (intro snap_le_720) auto
  ultimately show ?thesis using assms(2) snap_pos [of m] by (auto simp: PickHeight_def Let_def)
qed

lemma PickHeight_ignores_bitrate: "PickHeight s v lan q m info cap = PickHeight s v lan q m info' cap'"
  unfolding PickHeight_def wantedHeight_def autoHeight_eq by (rule refl)

text \<open>No overflow in the bitrate estimate below a petabyte.\<close>

lemma estimateBitrate_exact:
  assumes "0 < DurationMS i" "0 < Size i" "Size i < 2 ^ 50"
  shows "estimateBitrate (Some i) = Size i * 8000 div DurationMS i"
proof -
  have "wrap64 (Size i * 8) = Size i * 8" "wrap64 (Size i * 8 * 1000) = Size i * 8 * 1000"
    using assms by (auto intro!: wrap64_id simp: in_i64_def)
  with assms show ?thesis by (simp add: estimateBitrate_def quot_nonneg mult.commute)
qed

subsection \<open>Reasons\<close>

lemma unique_from_set: "set (unique_from seen xs) = set xs - set seen - {[]}"
  by (induction seen xs rule: unique_from.induct) auto

lemma unique_from_distinct: "distinct (unique_from seen xs)"
  by (induction seen xs rule: unique_from.induct) (auto simp: unique_from_set)

lemma unique_set: "set (unique xs) = set xs - {[]}"
  by (simp add: unique_def unique_from_set)

lemma unique_distinct: "distinct (unique xs)"
  by (simp add: unique_def unique_from_distinct)

lemma appendUnique_set [simp]: "set (appendUnique s v) = insert v (set s)"
  by (auto simp: appendUnique_def)

lemma appendUnique_distinct: "distinct s \<Longrightarrow> distinct (appendUnique s v)"
  by (simp add: appendUnique_def)

lemmas step_defs = add_reason_def add_reason_nonempty_def decide_video_def decide_audio_def
  decide_sub_def decide_height_def decide_hdr_def decide_mode_def decide_hw_def Let_def

subsection \<open>What each block writes\<close>

text \<open>
  One bundle per flag: how each block of \<^verbatim>\<open>Decide\<close> changes it. Everything proved below about
  a whole decision rests on these equations.
\<close>

lemma reason_fields [simp]:
  "NeedVideoXcode (add_reason x r) = NeedVideoXcode r" "NeedAudioXcode (add_reason x r) = NeedAudioXcode r"
  "NeedBurn (add_reason x r) = NeedBurn r" "CopyVideo (add_reason x r) = CopyVideo r"
  "CopyAudio (add_reason x r) = CopyAudio r" "res_Height (add_reason x r) = res_Height r"
  "Refuse (add_reason x r) = Refuse r" "Mode (add_reason x r) = Mode r"
  "Delivery (add_reason x r) = Delivery r" "Reasons (add_reason x r) = Reasons r @ [x]"
  "SubAction (add_reason x r) = SubAction r"
  by (simp_all add: add_reason_def)

lemma reason_nonempty_fields [simp]:
  "NeedVideoXcode (add_reason_nonempty x r) = NeedVideoXcode r"
  "NeedAudioXcode (add_reason_nonempty x r) = NeedAudioXcode r"
  "NeedBurn (add_reason_nonempty x r) = NeedBurn r" "CopyVideo (add_reason_nonempty x r) = CopyVideo r"
  "CopyAudio (add_reason_nonempty x r) = CopyAudio r" "res_Height (add_reason_nonempty x r) = res_Height r"
  "Refuse (add_reason_nonempty x r) = Refuse r" "Mode (add_reason_nonempty x r) = Mode r"
  "SubAction (add_reason_nonempty x r) = SubAction r"
  by (simp_all add: add_reason_nonempty_def)

definition burns :: "stream option \<Rightarrow> profile \<Rightarrow> bool" where
  "burns sub c = (case sub of None \<Rightarrow> False | Some s \<Rightarrow> fst (subtitleAction s c) = ''burn'')"

definition downscales :: "int \<Rightarrow> int \<Rightarrow> bool" where
  "downscales h srcH \<longleftrightarrow> h > 0 \<and> srcH > 0 \<and> h < srcH"

definition height_reason :: "dec_input \<Rightarrow> int \<Rightarrow> string" where
  "height_reason inp h =
     (if \<not> LAN inp then QualityRemote
      else if ShareMaxH inp > 0 \<and> h \<le> ShareMaxH inp \<and> (Quality inp = [] \<or> Quality inp = ''auto'') then QualityShare
      else if Quality inp \<noteq> [] \<and> Quality inp \<noteq> ''auto'' then QualityRequested
      else QualityViewport)"

lemma decide_height_alt:
  "decide_height inp s r =
     (if downscales (res_Height r) s
      then add_reason (height_reason inp (res_Height r)) (r\<lparr>NeedVideoXcode := True, CopyVideo := False\<rparr>) else r)"
  by (simp add: decide_height_def height_reason_def downscales_def Let_def)

lemmas block_defs = decide_video_def decide_audio_def decide_sub_def decide_height_alt decide_hdr_def
  decide_mode_def decide_hw_def burns_def Let_def

lemma need_video_blocks [simp]:
  "NeedVideoXcode (decide_video vOK x r) \<longleftrightarrow> \<not> vOK \<or> NeedVideoXcode r"
  "NeedVideoXcode (decide_audio aOK x r) \<longleftrightarrow> NeedVideoXcode r"
  "NeedVideoXcode (decide_sub sub c r) \<longleftrightarrow> burns sub c \<or> NeedVideoXcode r"
  "NeedVideoXcode (decide_height inp s r) \<longleftrightarrow> downscales (res_Height r) s \<or> NeedVideoXcode r"
  "NeedVideoXcode (decide_hdr inp i s r) \<longleftrightarrow> NeedVideoXcode r"
  "NeedVideoXcode (decide_mode vOK cOK cr vc s r) \<longleftrightarrow> NeedVideoXcode r"
  "NeedVideoXcode (decide_hw hw r) \<longleftrightarrow> NeedVideoXcode r"
  by (simp_all add: block_defs split: option.split prod.split)

lemma copy_video_blocks [simp]:
  "CopyVideo (decide_video vOK x r) \<longleftrightarrow> vOK \<and> CopyVideo r"
  "CopyVideo (decide_audio aOK x r) \<longleftrightarrow> CopyVideo r"
  "CopyVideo (decide_sub sub c r) \<longleftrightarrow> \<not> burns sub c \<and> CopyVideo r"
  "CopyVideo (decide_height inp s r) \<longleftrightarrow> \<not> downscales (res_Height r) s \<and> CopyVideo r"
  "CopyVideo (decide_hdr inp i s r) \<longleftrightarrow> CopyVideo r"
  "CopyVideo (decide_mode vOK cOK cr vc s r) \<longleftrightarrow> CopyVideo r"
  "CopyVideo (decide_hw hw r) \<longleftrightarrow> CopyVideo r"
  by (simp_all add: block_defs split: option.split prod.split)

lemma need_audio_blocks [simp]:
  "NeedAudioXcode (decide_video vOK x r) \<longleftrightarrow> NeedAudioXcode r"
  "NeedAudioXcode (decide_audio aOK x r) \<longleftrightarrow> \<not> aOK \<or> NeedAudioXcode r"
  "NeedAudioXcode (decide_sub sub c r) \<longleftrightarrow> NeedAudioXcode r"
  "NeedAudioXcode (decide_height inp s r) \<longleftrightarrow> NeedAudioXcode r"
  "NeedAudioXcode (decide_hdr inp i s r) \<longleftrightarrow> NeedAudioXcode r"
  "NeedAudioXcode (decide_mode vOK cOK cr vc s r) \<longleftrightarrow> NeedAudioXcode r"
  "NeedAudioXcode (decide_hw hw r) \<longleftrightarrow> NeedAudioXcode r"
  by (simp_all add: block_defs split: option.split prod.split)

lemma copy_audio_blocks [simp]:
  "CopyAudio (decide_video vOK x r) \<longleftrightarrow> CopyAudio r"
  "CopyAudio (decide_audio aOK x r) \<longleftrightarrow> aOK \<and> CopyAudio r"
  "CopyAudio (decide_sub sub c r) \<longleftrightarrow> CopyAudio r"
  "CopyAudio (decide_height inp s r) \<longleftrightarrow> CopyAudio r"
  "CopyAudio (decide_hdr inp i s r) \<longleftrightarrow> CopyAudio r"
  "CopyAudio (decide_mode vOK cOK cr vc s r) \<longleftrightarrow> CopyAudio r"
  "CopyAudio (decide_hw hw r) \<longleftrightarrow> CopyAudio r"
  by (simp_all add: block_defs split: option.split prod.split)

lemma burn_blocks [simp]:
  "NeedBurn (decide_video vOK x r) \<longleftrightarrow> NeedBurn r"
  "NeedBurn (decide_audio aOK x r) \<longleftrightarrow> NeedBurn r"
  "NeedBurn (decide_sub sub c r) \<longleftrightarrow> burns sub c \<or> NeedBurn r"
  "NeedBurn (decide_height inp s r) \<longleftrightarrow> NeedBurn r"
  "NeedBurn (decide_hdr inp i s r) \<longleftrightarrow> NeedBurn r"
  "NeedBurn (decide_mode vOK cOK cr vc s r) \<longleftrightarrow> NeedBurn r"
  "NeedBurn (decide_hw hw r) \<longleftrightarrow> NeedBurn r"
  by (simp_all add: block_defs split: option.split prod.split)

lemma height_blocks [simp]:
  "res_Height (decide_video vOK x r) = res_Height r"
  "res_Height (decide_audio aOK x r) = res_Height r"
  "res_Height (decide_sub sub c r) = res_Height r"
  "res_Height (decide_height inp s r) = res_Height r"
  "res_Height (decide_hdr inp i s r) = res_Height r"
  "res_Height (decide_mode vOK cOK cr vc s r) = res_Height r"
  "res_Height (decide_hw hw r) = res_Height r"
  by (simp_all add: block_defs split: option.split prod.split)

lemma refuse_blocks [simp]:
  "Refuse (decide_video vOK x r) = Refuse r"
  "Refuse (decide_audio aOK x r) = Refuse r"
  "Refuse (decide_sub sub c r) = Refuse r"
  "Refuse (decide_height inp s r) = Refuse r"
  "Refuse (decide_hdr inp i s r) =
     (if is4K (width_of i) s \<and> hdr_of i \<noteq> [] \<and> \<not> ZScale (HW inp) \<and> NeedVideoXcode r then RefuseNoZScale
      else Refuse r)"
  "Refuse (decide_mode vOK cOK cr vc s r) = Refuse r"
  "Refuse (decide_hw hw r) = Refuse r"
  by (auto simp: block_defs split: option.split prod.split)

lemma mode_hw [simp]: "Mode (decide_hw hw r) = Mode r" "Delivery (decide_hw hw r) = Delivery r"
  by (simp_all add: decide_hw_def)

text \<open>The mode as a function of what has to be done.\<close>

definition mode_for :: "bool \<Rightarrow> bool \<Rightarrow> bool \<Rightarrow> bool \<Rightarrow> bool \<Rightarrow> string" where
  "mode_for video audio burn other cOK =
     (if video \<and> audio then ModeTranscodeAV
      else if burn \<and> \<not> audio \<and> \<not> other then ModeBurnSubs
      else if video then ModeTranscodeVid
      else if audio then ModeTranscodeAud
      else if cOK then ModeDirect
      else ModeRemux)"

lemma mode_block [simp]:
  "Mode (decide_mode vOK cOK cr vc s r) =
     mode_for (NeedVideoXcode r) (NeedAudioXcode r) (NeedBurn r) (needVideoBesidesBurn vOK (res_Height r) s) cOK"
  by (simp add: decide_mode_def mode_for_def Let_def)

definition vOK_of :: "dec_input \<Rightarrow> media_info \<Rightarrow> bool" where
  "vOK_of inp i = fst (videoDirect (video_codec i) (bit_depth i) (Client inp))"

definition aOK_of :: "dec_input \<Rightarrow> media_info \<Rightarrow> bool" where
  "aOK_of inp i = fst (audioDirect (audio_codec i (AudioIndex inp)) (Client inp))"

definition burns_of :: "dec_input \<Rightarrow> media_info \<Rightarrow> bool" where
  "burns_of inp i = burns (selectedSub i (SubtitleIndex inp)) (Client inp)"

definition scales_of :: "dec_input \<Rightarrow> media_info \<Rightarrow> bool" where
  "scales_of inp i = downscales (target_height inp i) (source_height i)"

lemmas core_simps = decide_core_def Let_def vOK_of_def aOK_of_def burns_of_def scales_of_def init_result_def
  needVideoBesidesBurn_def downscales_def

lemma core_need_video:
  "NeedVideoXcode (decide_core inp i) \<longleftrightarrow> \<not> vOK_of inp i \<or> burns_of inp i \<or> scales_of inp i"
  by (auto simp: core_simps split: prod.split)

lemma core_need_audio: "NeedAudioXcode (decide_core inp i) \<longleftrightarrow> \<not> aOK_of inp i"
  by (simp add: core_simps split: prod.split)

lemma core_burn: "NeedBurn (decide_core inp i) \<longleftrightarrow> burns_of inp i"
  by (simp add: core_simps split: prod.split)

lemma core_copy:
  "CopyVideo (decide_core inp i) \<longleftrightarrow> \<not> NeedVideoXcode (decide_core inp i)"
  "CopyAudio (decide_core inp i) \<longleftrightarrow> \<not> NeedAudioXcode (decide_core inp i)"
  by (auto simp: core_simps split: prod.split)

lemma core_height: "res_Height (decide_core inp i) = target_height inp i"
  by (simp add: core_simps split: prod.split)

lemma core_refuse: "Refuse (decide_core inp i) \<noteq> [] \<longleftrightarrow>
    is4K (width_of i) (source_height i) \<and> hdr_of i \<noteq> [] \<and> \<not> ZScale (HW inp) \<and> NeedVideoXcode (decide_core inp i)"
  by (auto simp: core_simps RefuseNoZScale_def split: prod.split)

lemma core_mode:
  "Mode (decide_core inp i) =
     mode_for (NeedVideoXcode (decide_core inp i)) (NeedAudioXcode (decide_core inp i)) (burns_of inp i)
       (\<not> vOK_of inp i \<or> scales_of inp i) (fst (containerDirect (Container i)))"
  by (auto simp: core_simps split: prod.split)

lemma core_delivery:
  "Delivery (decide_core inp i) = (if Mode (decide_core inp i) = ModeDirect then DeliveryDirect else DeliveryHLS)"
  by (simp add: core_simps split: prod.split)

lemma mode_for_direct:
  "mode_for video audio burn other cOK = ModeDirect \<longleftrightarrow>
     \<not> video \<and> \<not> audio \<and> (\<not> burn \<or> other) \<and> cOK"
  by (simp add: mode_for_def mode_defs)

lemma mode_for_range:
  "mode_for video audio burn other cOK \<in>
     {ModeDirect, ModeRemux, ModeTranscodeVid, ModeTranscodeAud, ModeTranscodeAV, ModeBurnSubs}"
  by (simp add: mode_for_def)

text \<open>The last block of \<^verbatim>\<open>Decide\<close> only writes labels.\<close>

lemma Decide_probed:
  assumes "Info inp = Some i" "\<not> unprobed (Some i)"
  shows "NeedVideoXcode (Decide inp) = NeedVideoXcode (decide_core inp i)"
    and "NeedAudioXcode (Decide inp) = NeedAudioXcode (decide_core inp i)"
    and "NeedBurn (Decide inp) = NeedBurn (decide_core inp i)"
    and "CopyVideo (Decide inp) = CopyVideo (decide_core inp i)"
    and "CopyAudio (Decide inp) = CopyAudio (decide_core inp i)"
    and "res_Height (Decide inp) = res_Height (decide_core inp i)"
    and "Refuse (Decide inp) = Refuse (decide_core inp i)"
    and "Mode (Decide inp) = Mode (decide_core inp i)"
    and "Delivery (Decide inp) = Delivery (decide_core inp i)"
    and "Reasons (Decide inp) = unique (Reasons (decide_core inp i))"
  using assms by (simp_all add: Decide_def Let_def split: prod.split)

lemma Decide_unprobed:
  assumes "unprobed (Info inp)"
  shows "Decide inp = (init_result inp)\<lparr>Mode := ModeDirect, Delivery := DeliveryDirect, Reasons := [DirectUnprobed]\<rparr>"
  using assms by (cases "Info inp") (simp_all add: Decide_def)

lemma Decide_cases [case_names unprobed probed]:
  assumes "unprobed (Info inp) \<Longrightarrow> P" and "\<And>i. Info inp = Some i \<Longrightarrow> \<not> unprobed (Some i) \<Longrightarrow> P"
  shows P
  using assms by (cases "Info inp") (auto simp: unprobed_def)

lemma core_reasons_not_Nil: "set (Reasons (decide_core inp i)) - {[]} \<noteq> {}"
proof -
  have block: "set (Reasons (decide_hw hw r)) - {[]} \<noteq> {}" if "NeedVideoXcode r" for hw r
    using that by (auto simp: decide_hw_def HWVAAPI_def HWNVENC_def HWFallbackCPU_def)
  have keep: "set (Reasons r) \<subseteq> set (Reasons (decide_hw hw r))" for hw r
    by (auto simp: decide_hw_def)
  have direct: "\<exists>x \<in> set (Reasons (decide_mode vOK cOK cr vc s r)). x \<noteq> []"
    if "\<not> NeedVideoXcode r" "\<not> NeedAudioXcode r" "\<not> NeedBurn r" for vOK cOK cr vc s r
    using that by (auto simp: decide_mode_def DirectPlay_def RemuxContainer_def RemuxFMP4_def Let_def)
  have audio: "\<exists>x \<in> set (Reasons r). x \<noteq> [] \<Longrightarrow>
      \<exists>x \<in> set (Reasons (decide_mode vOK cOK cr vc s r)). x \<noteq> []" for vOK cOK cr vc s r
    by (auto simp: decide_mode_def Let_def)
  have sub: "set (Reasons r) \<subseteq> set (Reasons (decide_sub sub c r))" for sub c r
    by (auto simp: decide_sub_def add_reason_nonempty_def Let_def split: option.split prod.split)
  have hei: "set (Reasons r) \<subseteq> set (Reasons (decide_height inp s r))" for s r
    by (auto simp: decide_height_alt)
  have hdr: "set (Reasons r) \<subseteq> set (Reasons (decide_hdr inp i s r))" for s r
    by (auto simp: decide_hdr_def Let_def)
  have aud: "\<exists>x \<in> set (Reasons (decide_audio False (snd (audioDirect c p)) r)). x \<noteq> []"
    if "\<not> fst (audioDirect c p)" for c p r
    using that by (auto simp: decide_audio_def add_reason_nonempty_def audioDirect_def Let_def
        TranscodeAudioAC3_def TranscodeAudioEAC3_def TranscodeAudioTrueHD_def TranscodeAudioDTS_def
        TranscodeAudio_def split: if_splits)
  let ?ad = "audioDirect (audio_codec i (AudioIndex inp)) (Client inp)"
  obtain vOK vR aOK aR cOK cR where p: "videoDirect (video_codec i) (bit_depth i) (Client inp) = (vOK, vR)"
      "?ad = (aOK, aR)" "containerDirect (Container i) = (cOK, cR)"
    by (metis surj_pair)
  define r0 where "r0 = decide_video vOK vR ((init_result inp)\<lparr>res_Height := target_height inp i\<rparr>)"
  define r1 where "r1 = decide_hdr inp i (source_height i) (decide_height inp (source_height i)
      (decide_sub (selectedSub i (SubtitleIndex inp)) (Client inp) (decide_audio aOK aR r0)))"
  define r2 where "r2 = decide_mode vOK cOK cR (video_codec i) (source_height i) r1"
  have core: "decide_core inp i = decide_hw (HW inp) (r2\<lparr>Delivery :=
      (if Mode r2 = ModeDirect then DeliveryDirect else DeliveryHLS)\<rparr>)"
    by (simp add: decide_core_def p r0_def r1_def r2_def Let_def)
  have r1sub: "set (Reasons (decide_audio aOK aR r0)) \<subseteq> set (Reasons r1)"
    unfolding r1_def using hdr hei sub by blast
  show ?thesis
  proof (cases "NeedVideoXcode r1")
    case True
    then show ?thesis unfolding core by (intro block) (simp add: r2_def)
  next
    case v: False
    have "\<exists>x \<in> set (Reasons r2). x \<noteq> []"
    proof (cases "NeedAudioXcode r1")
      case True
      then have "\<not> aOK" by (auto simp: r1_def r0_def init_result_def)
      then have "\<exists>x \<in> set (Reasons (decide_audio aOK aR r0)). x \<noteq> []"
        using aud p(2) by (metis fst_conv snd_conv)
      with r1sub show ?thesis unfolding r2_def by (intro audio) blast
    next
      case False
      have "\<not> NeedBurn r1" using v by (auto simp: r1_def r0_def init_result_def)
      with v False show ?thesis unfolding r2_def by (rule direct)
    qed
    then show ?thesis unfolding core using keep by fastforce
  qed
qed

section \<open>The contract of a decision\<close>

text \<open>
  What the players and the transcoder rely on: the flags agree with each other and with the
  mode, delivery follows the mode, and the reasons are a non-empty list without duplicates
  or empty entries.
\<close>

definition decision_ok :: "dec_result \<Rightarrow> bool" where
  "decision_ok r \<longleftrightarrow>
     (Delivery r = DeliveryDirect \<longleftrightarrow> Mode r = ModeDirect) \<and>
     Delivery r \<in> {DeliveryDirect, DeliveryHLS} \<and>
     Mode r \<in> {ModeDirect, ModeRemux, ModeTranscodeVid, ModeTranscodeAud, ModeTranscodeAV, ModeBurnSubs} \<and>
     (CopyVideo r \<longleftrightarrow> \<not> NeedVideoXcode r) \<and> (CopyAudio r \<longleftrightarrow> \<not> NeedAudioXcode r) \<and>
     (NeedBurn r \<longrightarrow> NeedVideoXcode r) \<and>
     (NeedVideoXcode r \<longleftrightarrow> Mode r \<in> {ModeTranscodeVid, ModeTranscodeAV, ModeBurnSubs}) \<and>
     (NeedAudioXcode r \<longleftrightarrow> Mode r \<in> {ModeTranscodeAud, ModeTranscodeAV}) \<and>
     (Refuse r \<noteq> [] \<longrightarrow> NeedVideoXcode r)"

definition reasons_ok :: "dec_result \<Rightarrow> bool" where
  "reasons_ok r \<longleftrightarrow> Reasons r \<noteq> [] \<and> distinct (Reasons r) \<and> [] \<notin> set (Reasons r)"

lemma mode_for_flags:
  "burn \<longrightarrow> video \<Longrightarrow>
   (video \<longleftrightarrow> mode_for video audio burn other cOK \<in> {ModeTranscodeVid, ModeTranscodeAV, ModeBurnSubs}) \<and>
   (audio \<longleftrightarrow> mode_for video audio burn other cOK \<in> {ModeTranscodeAud, ModeTranscodeAV})"
  by (auto simp: mode_for_def mode_defs)

lemma decision_ok_core: "decision_ok (decide_core inp i)"
proof -
  let ?r = "decide_core inp i"
  have burn: "burns_of inp i \<longrightarrow> NeedVideoXcode ?r" by (simp add: core_need_video)
  have flags: "NeedVideoXcode ?r \<longleftrightarrow> Mode ?r \<in> {ModeTranscodeVid, ModeTranscodeAV, ModeBurnSubs}"
    "NeedAudioXcode ?r \<longleftrightarrow> Mode ?r \<in> {ModeTranscodeAud, ModeTranscodeAV}"
    unfolding core_mode using mode_for_flags [OF burn] by blast+
  have "Mode ?r \<in> {ModeDirect, ModeRemux, ModeTranscodeVid, ModeTranscodeAud, ModeTranscodeAV, ModeBurnSubs}"
    unfolding core_mode by (rule mode_for_range)
  moreover have "Delivery ?r = DeliveryDirect \<longleftrightarrow> Mode ?r = ModeDirect"
    "Delivery ?r \<in> {DeliveryDirect, DeliveryHLS}"
    by (simp_all add: core_delivery DeliveryDirect_def DeliveryHLS_def)
  moreover have "Refuse ?r \<noteq> [] \<longrightarrow> NeedVideoXcode ?r" using core_refuse by blast
  ultimately show ?thesis
    unfolding decision_ok_def using flags burn core_copy core_burn by blast
qed

lemma decision_ok_unprobed:
  "decision_ok ((init_result inp)\<lparr>Mode := ModeDirect, Delivery := DeliveryDirect, Reasons := [DirectUnprobed]\<rparr>)"
  by (simp add: decision_ok_def init_result_def label_defs)

text \<open>C2. Every decision \<^verbatim>\<open>Decide\<close> returns is consistent: delivery, mode, copy and transcode flags agree.\<close>

theorem Decide_consistent: "decision_ok (Decide inp)"
proof (cases inp rule: Decide_cases)
  case unprobed
  then show ?thesis by (simp add: Decide_unprobed decision_ok_unprobed)
next
  case (probed i)
  show ?thesis
    using decision_ok_core [of inp i]
    unfolding decision_ok_def Decide_probed [OF probed] .
qed

text \<open>C9. Direct play is chosen for a probed file exactly when the client decodes its video and
  its audio, its container is MP4-like, no subtitle has to be burned in and no downscale is
  asked for.
\<close>

theorem Decide_direct_iff:
  assumes "Info inp = Some i" and "\<not> unprobed (Some i)"
  shows "Mode (Decide inp) = ModeDirect \<longleftrightarrow>
    fst (videoDirect (video_codec i) (bit_depth i) (Client inp)) \<and>
    fst (audioDirect (audio_codec i (AudioIndex inp)) (Client inp)) \<and>
    fst (containerDirect (Container i)) \<and>
    \<not> burns (selectedSub i (SubtitleIndex inp)) (Client inp) \<and>
    \<not> downscales (target_height inp i) (source_height i)"
  using assms
  by (auto simp: Decide_probed core_mode mode_for_direct core_need_video core_need_audio
      vOK_of_def aOK_of_def burns_of_def scales_of_def)

text \<open>The reasons a decision reports are never empty, never repeated and never the empty
  string, so the administrator always sees why a title is transcoded.
\<close>

theorem Decide_reasons: "reasons_ok (Decide inp)"
proof (cases inp rule: Decide_cases)
  case unprobed
  then show ?thesis by (simp add: Decide_unprobed reasons_ok_def DirectUnprobed_def)
next
  case (probed i)
  have "unique (Reasons (decide_core inp i)) \<noteq> []"
    using core_reasons_not_Nil [of inp i] unique_set by (metis list.set(1))
  with probed show ?thesis by (simp add: reasons_ok_def Decide_probed unique_distinct unique_set)
qed

text \<open>The chosen height is positive and never above the source's own height; a remote
  viewer on automatic quality gets at most 720 lines, and a share's height limit holds
  for every quality the client asks for.
\<close>

theorem Decide_height_bounds:
  assumes "Info inp = Some i" and "\<not> unprobed (Some i)" and "0 < source_height i"
  shows "0 < res_Height (Decide inp) \<and> res_Height (Decide inp) \<le> source_height i \<and>
    (\<not> LAN inp \<and> \<not> Original inp \<and> Quality inp \<in> {[], ''auto''} \<longrightarrow> res_Height (Decide inp) \<le> 720) \<and>
    (ShareMaxH inp \<in> {480, 720, 1080} \<longrightarrow> res_Height (Decide inp) \<le> ShareMaxH inp)"
proof -
  let ?s = "source_height i"
  let ?P = "PickHeight ?s (ViewportH (Client inp)) (LAN inp) (Quality inp) (ShareMaxH inp) (Some i) (RemoteBitrate inp)"
  let ?keep = "Original inp \<and> ShareMaxH inp = 0 \<and> (Quality inp = [] \<or> toLower (Quality inp) = ''auto'')"
  have h: "res_Height (Decide inp) = (if ?keep then ?s else ?P)"
    using assms(1,2) by (simp add: Decide_probed core_height target_height_def Let_def)
  have "0 < ?P" by (rule PickHeight_pos)
  moreover have "?P \<le> ?s"
    using PickHeight_le_source [of ?s] assms(3) by (metis not_le)
  moreover have "?P \<le> ShareMaxH inp" if "ShareMaxH inp \<in> {480, 720, 1080}"
    using that by (rule PickHeight_share)
  moreover have "?P \<le> 720" if "\<not> LAN inp" "Quality inp \<in> {[], ''auto''}"
    using PickHeight_remote_auto [OF _ assms(3)] that by simp
  ultimately show ?thesis using assms(3) unfolding h by auto
qed

text \<open>The bitrate cap for remote viewers has no influence on any decision: every remote
  height limit is 720 whatever the file's bitrate, so \<^verbatim>\<open>Input.RemoteBitrate\<close> is dead.
\<close>

theorem Decide_ignores_remote_bitrate: "Decide (inp\<lparr>RemoteBitrate := cap\<rparr>) = Decide inp"
proof -
  let ?inp = "inp\<lparr>RemoteBitrate := cap\<rparr>"
  have t: "target_height ?inp i = target_height inp i" for i
    using PickHeight_ignores_bitrate [of "source_height i" "ViewportH (Client inp)" "LAN inp" "Quality inp"
        "ShareMaxH inp" "Some i" cap "Some i" "RemoteBitrate inp"]
    by (auto simp: target_height_def Let_def)
  have init: "init_result ?inp = init_result inp" by (simp add: init_result_def)
  have "decide_height ?inp s r = decide_height inp s r" "decide_hdr ?inp i s r = decide_hdr inp i s r" for i s r
    by (simp_all add: decide_height_alt height_reason_def decide_hdr_def)
  then have "decide_core ?inp i = decide_core inp i" for i
    by (simp add: decide_core_def t init)
  then show ?thesis by (cases "Info inp") (simp_all add: Decide_def init Let_def)
qed

lemma promote_fields:
  "NeedVideoXcode (PromoteRemuxToVideoXcode r hw) = True"
  "NeedAudioXcode (PromoteRemuxToVideoXcode r hw) = NeedAudioXcode r"
  "NeedBurn (PromoteRemuxToVideoXcode r hw) = NeedBurn r"
  "CopyVideo (PromoteRemuxToVideoXcode r hw) = False"
  "CopyAudio (PromoteRemuxToVideoXcode r hw) = CopyAudio r"
  "Refuse (PromoteRemuxToVideoXcode r hw) = Refuse r"
  "Delivery (PromoteRemuxToVideoXcode r hw) = DeliveryHLS"
  "Mode (PromoteRemuxToVideoXcode r hw) = (if NeedAudioXcode r then ModeTranscodeAV else ModeTranscodeVid)"
  by (simp_all add: PromoteRemuxToVideoXcode_def Let_def)

lemma promote_reasons:
  "set (Reasons r) \<subseteq> set (Reasons (PromoteRemuxToVideoXcode r hw))"
  "RemuxKeyframeIncomplete \<in> set (Reasons (PromoteRemuxToVideoXcode r hw))"
  "distinct (Reasons r) \<Longrightarrow> distinct (Reasons (PromoteRemuxToVideoXcode r hw))"
  "[] \<notin> set (Reasons r) \<Longrightarrow> [] \<notin> set (Reasons (PromoteRemuxToVideoXcode r hw))"
  by (simp_all add: PromoteRemuxToVideoXcode_def Let_def appendUnique_distinct subset_insertI2
      RemuxKeyframeIncomplete_def HWVAAPI_def HWNVENC_def HWFallbackCPU_def)

text \<open>Promoting a remux whose keyframes cannot be honoured keeps the decision consistent: the
  result is an HLS video transcode with the audio treatment and all earlier reasons kept.
\<close>

theorem Promote_consistent:
  assumes "decision_ok r" and "reasons_ok r" and "Mode r = ModeRemux"
  shows "decision_ok (PromoteRemuxToVideoXcode r hw) \<and> reasons_ok (PromoteRemuxToVideoXcode r hw) \<and>
    NeedVideoXcode (PromoteRemuxToVideoXcode r hw) \<and>
    CopyAudio (PromoteRemuxToVideoXcode r hw) = CopyAudio r \<and>
    insert RemuxKeyframeIncomplete (set (Reasons r)) \<subseteq> set (Reasons (PromoteRemuxToVideoXcode r hw))"
proof -
  let ?p = "PromoteRemuxToVideoXcode r hw"
  have a: "\<not> NeedAudioXcode r" using assms(1,3) by (auto simp: decision_ok_def mode_defs)
  have "decision_ok ?p"
    using assms(1) a unfolding decision_ok_def promote_fields
    by (simp add: label_defs)
  moreover have "reasons_ok ?p"
    using assms(2) promote_reasons [of r hw] by (auto simp: reasons_ok_def)
  ultimately show ?thesis using promote_reasons [of r hw] by (simp add: promote_fields)
qed

section \<open>Witnesses\<close>

definition wit_stream :: "string \<Rightarrow> string \<Rightarrow> int \<Rightarrow> stream" where
  "wit_stream kind codec h = \<lparr>Index = 0, Kind = kind, Codec = codec, Language = [], Title = [], Channels = 2,
     Default = True, Forced = False, SDH = False, Width = 0, Height = h, BitDepth = 8, HDR = []\<rparr>"

definition wit_info :: "string \<Rightarrow> int \<Rightarrow> media_info" where
  "wit_info container h = \<lparr>DurationMS = 60000, Container = container, Size = 1000000, VideoCodec = ''h264'',
     AudioCodec = ''aac'', InfoWidth = 1280, InfoHeight = h, InfoBitDepth = 8, InfoHDR = [],
     Streams = [wit_stream ''video'' ''h264'' h, wit_stream ''audio'' ''aac'' 0]\<rparr>"

definition wit_input :: "string \<Rightarrow> int \<Rightarrow> dec_input" where
  "wit_input container h = \<lparr>Info = Some (wit_info container h), Client = empty_profile, Quality = ''auto'',
     LAN = True, ShareMaxH = 0, RemoteBitrate = 0, AudioIndex = 0, SubtitleIndex = None,
     HW = \<lparr>VAAPI = False, NVENC = True, ZScale = True\<rparr>, Original = False\<rparr>"

lemma wit_probed: "Info (wit_input c h) = Some (wit_info c h)" "\<not> unprobed (Some (wit_info c h))"
  by (simp_all add: wit_input_def wit_info_def unprobed_def)

lemma Decide_direct_iff_witness: "Mode (Decide (wit_input ''mp4'' 720)) = ModeDirect"
  unfolding Decide_direct_iff [OF wit_probed] by code_simp

lemma Decide_height_bounds_witness:
  "0 < res_Height (Decide (wit_input ''mkv'' 2160)) \<and> res_Height (Decide (wit_input ''mkv'' 2160)) \<le> 2160"
  using Decide_height_bounds [OF wit_probed, of "''mkv''" 2160]
  by (simp add: wit_info_def source_height_def)

lemma Promote_consistent_witness:
  "decision_ok (PromoteRemuxToVideoXcode (Decide (wit_input ''mkv'' 720)) (HW (wit_input ''mkv'' 720)))"
proof -
  have "decision_ok (Decide (wit_input ''mkv'' 720))" "reasons_ok (Decide (wit_input ''mkv'' 720))"
    "Mode (Decide (wit_input ''mkv'' 720)) = ModeRemux"
    by code_simp+
  then show ?thesis using Promote_consistent by blast
qed

end
