(* ===== verification/Principal.thy ===== *)
theory Principal
  imports ViewDock_Prelude
begin

text \<open>
  The authenticated caller of \<^verbatim>\<open>src/internal/auth/principal.go\<close>: signed-in users and guests of
  a share link. A nil \<^verbatim>\<open>*Principal\<close> is \<open>None\<close>; the methods accept it, as the Go methods do.
\<close>

record principal =
  p_Kind :: string
  p_UserID :: string
  p_GuestSessionID :: string
  p_MediaKind :: string
  p_MediaID :: string
  p_IsAdmin :: bool
  p_DisplayName :: string
  p_Username :: string
  p_CanDownload :: bool
  p_Permissions :: "string list"
  p_PartyOnly :: bool

definition KindUser :: string where "KindUser = ''user''"
definition KindGuestShare :: string where "KindGuestShare = ''guest_share''"
definition PermAdmin :: string where "PermAdmin = ''admin''"

definition IsUser :: "principal option \<Rightarrow> bool" where
  "IsUser p = (case p of None \<Rightarrow> False | Some q \<Rightarrow> p_Kind q = KindUser \<and> p_UserID q \<noteq> [])"

definition IsGuest :: "principal option \<Rightarrow> bool" where
  "IsGuest p = (case p of None \<Rightarrow> False | Some q \<Rightarrow> p_Kind q = KindGuestShare)"

definition ID :: "principal option \<Rightarrow> string" where
  "ID p = (case p of None \<Rightarrow> [] | Some q \<Rightarrow> if IsGuest p then p_GuestSessionID q else p_UserID q)"

definition HasPerm :: "principal option \<Rightarrow> string \<Rightarrow> bool" where
  "HasPerm p name =
     (case p of None \<Rightarrow> False
      | Some q \<Rightarrow>
          if \<not> IsUser p then False
          else if p_IsAdmin q then True
          else list_ex (\<lambda>x. x = name \<or> x = PermAdmin) (p_Permissions q))"

lemma user_not_guest: "IsUser p \<Longrightarrow> \<not> IsGuest p"
  by (auto simp: IsUser_def IsGuest_def KindUser_def KindGuestShare_def split: option.splits)

lemma ID_user: "IsUser (Some q) \<Longrightarrow> ID (Some q) = p_UserID q"
  using user_not_guest by (auto simp: ID_def)

lemma ID_guest: "IsGuest (Some q) \<Longrightarrow> ID (Some q) = p_GuestSessionID q"
  by (simp add: ID_def)

lemma user_ID_nonempty: "IsUser p \<Longrightarrow> ID p \<noteq> []"
  using user_not_guest [of p] by (auto simp: ID_def IsUser_def split: option.splits)

lemma HasPerm_admin_all: "HasPerm p PermAdmin \<Longrightarrow> HasPerm p name"
  by (auto simp: HasPerm_def list_ex_iff split: option.splits if_splits)

lemma HasPerm_user: "HasPerm p name \<Longrightarrow> IsUser p"
  by (auto simp: HasPerm_def split: option.splits if_splits)

end
