(* ===== verification/Party.thy ===== *)
theory Party
  imports Float64 Principal "HOL-Library.List_Lexorder" "HOL-Library.Char_ord"
begin

text \<open>
  Rooms and members of a watch party (\<^verbatim>\<open>src/internal/watchtogether/hub.go\<close>, \<^verbatim>\<open>sync.go\<close>): the
  records, the room timeline, drift correction of one member, the majority realignment of a
  room, host promotion, and the state and presence messages. Operations on the hub as a
  whole are in \<^verbatim>\<open>Party_Hub\<close>.
\<close>

section \<open>Constants\<close>

definition driftMS :: int where "driftMS = 1000"
definition hostGrace :: duration where "hostGrace = seconds 15"
definition ticketTTL :: duration where "ticketTTL = seconds 120"
definition memberLease :: duration where "memberLease = seconds 45"
definition syncTargetMS :: int where "syncTargetMS = 250"
definition syncExitMS :: int where "syncExitMS = 120"
definition rateWindowMS :: rat where "rateWindowMS = 6000"
definition seekCooldown :: duration where "seekCooldown = seconds 3"
definition reportFresh :: duration where "reportFresh = seconds 3"
definition quorumMin :: nat where "quorumMin = 3"
definition majorityNum :: nat where "majorityNum = 2"
definition majorityDen :: nat where "majorityDen = 3"
definition majorityHold :: duration where "majorityHold = seconds 3"
definition hostOverride :: duration where "hostOverride = seconds 5"
definition emptyRoomTTL :: duration where "emptyRoomTTL = seconds 7200"
definition chatLimit :: nat where "chatLimit = 100"
definition chatMaxRunes :: nat where "chatMaxRunes = 500"

definition PanelEveryone :: string where "PanelEveryone = ''everyone''"
definition PanelHost :: string where "PanelHost = ''host''"
definition PanelHidden :: string where "PanelHidden = ''hidden''"

definition validPanel :: "string \<Rightarrow> bool" where
  "validPanel p \<longleftrightarrow> p \<in> {PanelEveryone, PanelHost, PanelHidden}"

definition normalPanel :: "string \<Rightarrow> string" where
  "normalPanel p = (if validPanel p then p else PanelEveryone)"

section \<open>Data\<close>

record report =
  rep_PosMS :: i64
  rep_At :: gtime
  rep_Received :: gtime
  rep_Playing :: bool
  rep_Buffering :: bool

definition no_report :: report where
  "no_report = \<lparr>rep_PosMS = 0, rep_At = 0, rep_Received = 0, rep_Playing = False, rep_Buffering = False\<rparr>"

text \<open>A connection is its number; \<open>None\<close> is a nil \<^verbatim>\<open>Conn\<close>.\<close>

record member =
  m_ID :: string
  m_Kind :: string
  m_DisplayName :: string
  m_GuestSessionID :: string
  m_Ready :: bool
  m_LastSeen :: gtime
  m_Conn :: "nat option"
  m_DriftMS :: i64
  m_Mode :: string
  m_Rate :: rat
  m_LastSeek :: gtime
  m_rep :: report

record chat_msg =
  cm_From :: string
  cm_Text :: string
  cm_At :: gtime

record queue_item =
  q_ItemKind :: string
  q_ItemID :: string
  q_Title :: string

record sync_stats =
  st_Reports :: int
  st_RateCorrections :: int
  st_Seeks :: int
  st_Realigns :: int

record room =
  r_ID :: string
  r_InviteCode :: string
  r_ItemKind :: string
  r_ItemID :: string
  r_SharePath :: string
  r_HostID :: string
  r_OwnerID :: string
  r_Playing :: bool
  r_PositionMS :: i64
  r_Clock :: gtime
  r_Seq :: int
  r_Members :: "(string \<times> member) list"
  r_Chat :: "chat_msg list"
  r_Queue :: "queue_item list"
  r_IntermissionUntil :: gtime
  r_Votes :: "(string \<times> (string \<times> bool) list) list"
  r_SharedControl :: bool
  r_Panel :: string
  r_Banned :: "(string \<times> bool) list"
  r_EmptySince :: gtime
  r_Stats :: sync_stats
  r_hostActionAt :: gtime
  r_majDir :: int
  r_majSince :: gtime

text \<open>\<^verbatim>\<open>room.Banned[id]\<close>: a missing key reads as false.\<close>

definition banned :: "room \<Rightarrow> string \<Rightarrow> bool" where
  "banned room mid = (map_of (r_Banned room) mid = Some True)"

definition lookup_member :: "room \<Rightarrow> string \<Rightarrow> member option" where
  "lookup_member room mid = map_of (r_Members room) mid"

text \<open>Writing through a \<^verbatim>\<open>*Member\<close> of the room, and through all of them.\<close>

definition put_member :: "string \<Rightarrow> member \<Rightarrow> room \<Rightarrow> room" where
  "put_member mid m room = room\<lparr>r_Members := set_key mid m (r_Members room)\<rparr>"

definition all_members :: "(member \<Rightarrow> member) \<Rightarrow> room \<Rightarrow> room" where
  "all_members f room = room\<lparr>r_Members := map (\<lambda>(mid, m). (mid, f m)) (r_Members room)\<rparr>"

section \<open>Timeline\<close>

definition abs64 :: "i64 \<Rightarrow> i64" where
  "abs64 v = (if v < 0 then wrap64 (- v) else v)"

definition projected :: "report \<Rightarrow> gtime \<Rightarrow> i64" where
  "projected r t =
     (if rep_Playing r \<and> \<not> rep_Buffering r
      then wrap64 (rep_PosMS r + milliseconds (time_sub t (rep_At r))) else rep_PosMS r)"

definition expectedAt :: "room \<Rightarrow> gtime \<Rightarrow> i64" where
  "expectedAt room t =
     (let pos = r_PositionMS room;
          pos = (if r_Playing room then wrap64 (pos + milliseconds (time_sub t (r_Clock room))) else pos)
      in if pos < 0 then 0 else pos)"

definition eligible :: "member \<Rightarrow> gtime \<Rightarrow> bool" where
  "eligible m now = (m_Conn m \<noteq> None \<and> m_Ready m \<and> rep_Playing (m_rep m) \<and> \<not> rep_Buffering (m_rep m)
     \<and> time_sub now (rep_Received (m_rep m)) \<le> reportFresh)"

definition canControl :: "room \<Rightarrow> string \<Rightarrow> bool" where
  "canControl room principalID = (principalID = r_HostID room \<or> r_SharedControl room)"

definition reportTime :: "i64 \<Rightarrow> gtime \<Rightarrow> gtime" where
  "reportTime atServerMS now =
     (if atServerMS \<le> 0 then now
      else (let ts = from_unix_milli atServerMS in
            if ts > now \<or> time_sub now ts > seconds 5 then now else ts))"

section \<open>Messages\<close>

record sync_payload =
  sy_action :: string
  sy_rate :: rat
  sy_target_ms :: i64
  sy_server_ms :: i64
  sy_drift_ms :: i64
  sy_seq :: int
  sy_playing :: bool

record member_view =
  mv_id :: string
  mv_display_name :: string
  mv_ready :: bool
  mv_kind :: string
  mv_host :: bool
  mv_connected :: bool
  mv_buffering :: bool
  mv_eligible :: bool
  mv_drift_ms :: i64

record sync_info =
  si_target_ms :: i64
  si_hard_ms :: i64
  si_eligible :: nat
  si_max_drift_ms :: i64
  si_stats :: sync_stats

record state_payload =
  sp_room_id :: string
  sp_host :: string
  sp_owner :: string
  sp_playing :: bool
  sp_position_ms :: i64
  sp_server_ms :: i64
  sp_seq :: int
  sp_members :: "member_view list"
  sp_item_kind :: string
  sp_item_id :: string
  sp_queue :: "queue_item list"
  sp_intermission_until :: gtime
  sp_votes :: "(string \<times> nat) list"
  sp_shared_control :: bool
  sp_panel :: string
  sp_sync :: sync_info
  sp_reason :: "string option"
  sp_by :: "string option"

datatype payload =
    StateMsg state_payload
  | Presence string string "member_view list" sync_info
  | Pong i64 i64
  | SyncMsg sync_payload
  | ChatOut string string
  | ReactionOut string string
  | Kicked string

definition syncMsg :: "room \<Rightarrow> string \<Rightarrow> rat \<Rightarrow> i64 \<Rightarrow> i64 \<Rightarrow> gtime \<Rightarrow> payload" where
  "syncMsg room action rate targetMS drift now =
     SyncMsg \<lparr>sy_action = action, sy_rate = rate, sy_target_ms = targetMS, sy_server_ms = unix_milli now,
       sy_drift_ms = drift, sy_seq = r_Seq room, sy_playing = r_Playing room\<rparr>"

definition view_member :: "room \<Rightarrow> gtime \<Rightarrow> member \<Rightarrow> member_view" where
  "view_member room now m =
     \<lparr>mv_id = m_ID m, mv_display_name = m_DisplayName m, mv_ready = m_Ready m, mv_kind = m_Kind m,
      mv_host = (m_ID m = r_HostID room), mv_connected = (m_Conn m \<noteq> None),
      mv_buffering = rep_Buffering (m_rep m), mv_eligible = eligible m now, mv_drift_ms = m_DriftMS m\<rparr>"

definition membersLocked :: "room \<Rightarrow> gtime \<Rightarrow> member_view list" where
  "membersLocked room now = sort_key mv_id (map (\<lambda>(_, m). view_member room now m) (r_Members room))"

definition worst_drift :: "room \<Rightarrow> gtime \<Rightarrow> i64" where
  "worst_drift room now =
     foldl (\<lambda>w (_, m). if eligible m now then max w (abs64 (m_DriftMS m)) else w) 0 (r_Members room)"

definition syncInfoLocked :: "i64 \<Rightarrow> room \<Rightarrow> gtime \<Rightarrow> sync_info" where
  "syncInfoLocked hard room now =
     \<lparr>si_target_ms = syncTargetMS, si_hard_ms = hard,
      si_eligible = length (filter (\<lambda>(_, m). eligible m now) (r_Members room)),
      si_max_drift_ms = worst_drift room now, si_stats = r_Stats room\<rparr>"

definition presenceLocked :: "i64 \<Rightarrow> room \<Rightarrow> gtime \<Rightarrow> payload" where
  "presenceLocked hard room now =
     Presence (r_ID room) (r_HostID room) (membersLocked room now) (syncInfoLocked hard room now)"

definition voteCounts :: "(string \<times> (string \<times> bool) list) list \<Rightarrow> (string \<times> nat) list" where
  "voteCounts votes = map (\<lambda>(item, members). (item, length members)) votes"

definition state_payload_of :: "i64 \<Rightarrow> room \<Rightarrow> gtime \<Rightarrow> state_payload" where
  "state_payload_of hard room now =
     \<lparr>sp_room_id = r_ID room, sp_host = r_HostID room, sp_owner = r_OwnerID room, sp_playing = r_Playing room,
      sp_position_ms = expectedAt room now, sp_server_ms = unix_milli now, sp_seq = r_Seq room,
      sp_members = membersLocked room now, sp_item_kind = r_ItemKind room, sp_item_id = r_ItemID room,
      sp_queue = r_Queue room, sp_intermission_until = r_IntermissionUntil room,
      sp_votes = voteCounts (r_Votes room), sp_shared_control = r_SharedControl room,
      sp_panel = normalPanel (r_Panel room), sp_sync = syncInfoLocked hard room now,
      sp_reason = None, sp_by = None\<rparr>"

definition stateLocked :: "i64 \<Rightarrow> room \<Rightarrow> gtime \<Rightarrow> payload" where
  "stateLocked hard room now = StateMsg (state_payload_of hard room now)"

section \<open>Drift correction of one member\<close>

text \<open>The constants \<^verbatim>\<open>1 - maxRateDelta\<close> and \<^verbatim>\<open>1 + maxRateDelta\<close>, exact in Go, rounded once.\<close>

definition rate_lo :: rat where "rate_lo = fl (19 / 20)"
definition rate_hi :: rat where "rate_hi = fl (21 / 20)"

definition correction_rate :: "i64 \<Rightarrow> rat" where
  "correction_rate drift =
     (let rate = fl_sub 1 (fl_div (fl_of_int drift) rateWindowMS);
          rate = max rate_lo (min rate_hi rate)
      in fl_div (of_int (fl_round (fl_mul rate 1000))) 1000)"

text \<open>The constant \<^verbatim>\<open>0.005\<close> of the hysteresis test.\<close>

definition rate_step :: rat where "rate_step = fl (1 / 200)"

definition inc_seeks :: "room \<Rightarrow> room" where
  "inc_seeks room = room\<lparr>r_Stats := (r_Stats room)\<lparr>st_Seeks := st_Seeks (r_Stats room) + 1\<rparr>\<rparr>"

definition inc_rates :: "room \<Rightarrow> room" where
  "inc_rates room = room\<lparr>r_Stats := (r_Stats room)\<lparr>st_RateCorrections := st_RateCorrections (r_Stats room) + 1\<rparr>\<rparr>"

definition correctLocked :: "i64 \<Rightarrow> room \<Rightarrow> member \<Rightarrow> gtime \<Rightarrow> room \<times> member \<times> payload option" where
  "correctLocked hard room m now =
     (let expected = expectedAt room now;
          pos = projected (m_rep m) now;
          drift = wrap64 (pos - expected);
          m = m\<lparr>m_DriftMS := drift\<rparr>
      in if rep_Buffering (m_rep m) then (room, m, None)
         else if \<not> r_Playing room then
           (if abs64 drift > hard \<and> time_sub now (m_LastSeek m) \<ge> seekCooldown
            then (let room = inc_seeks room
                  in (room, m\<lparr>m_LastSeek := now\<rparr>, Some (syncMsg room ''seek'' 1 expected drift now)))
            else (room, m, None))
         else if \<not> rep_Playing (m_rep m) then (room, m, None)
         else (let ad = abs64 drift in
           if ad > hard then
             (if time_sub now (m_LastSeek m) < seekCooldown then (room, m, None)
              else (let room = inc_seeks room
                    in (room, m\<lparr>m_LastSeek := now, m_Mode := ''seek'', m_Rate := 1\<rparr>,
                        Some (syncMsg room ''seek'' 1 expected drift now))))
           else if ad > syncTargetMS \<or> (m_Mode m = ''rate'' \<and> ad > syncExitMS) then
             (let rate = correction_rate drift;
                  changed = (m_Mode m \<noteq> ''rate'' \<or> \<bar>fl_sub rate (m_Rate m)\<bar> \<ge> rate_step);
                  room = (if m_Mode m \<noteq> ''rate'' then inc_rates room else room);
                  m = m\<lparr>m_Mode := ''rate'', m_Rate := rate\<rparr>
              in if \<not> changed then (room, m, None)
                 else (room, m, Some (syncMsg room ''rate'' rate expected drift now)))
           else (if m_Mode m = ''ok'' then (room, m, None)
                 else (room, m\<lparr>m_Mode := ''ok'', m_Rate := 1\<rparr>,
                       Some (syncMsg room ''ok'' 1 expected drift now)))))"

section \<open>Majority realignment of a room\<close>

definition spread :: "i64 list \<Rightarrow> i64" where
  "spread v = (case v of [] \<Rightarrow> 0 | x # xs \<Rightarrow> wrap64 (foldl max x xs - foldl min x xs))"

definition median :: "i64 list \<Rightarrow> i64" where
  "median v =
     (let s = sort v in
      if length s mod 2 = 1 then s ! (length s div 2)
      else quot (wrap64 (s ! (length s div 2 - 1) + s ! (length s div 2))) 2)"

definition voters :: "room \<Rightarrow> gtime \<Rightarrow> member list" where
  "voters room now = filter (\<lambda>m. eligible m now) (map snd (r_Members room))"

definition vote_drifts :: "room \<Rightarrow> gtime \<Rightarrow> i64 list" where
  "vote_drifts room now = map (\<lambda>m. wrap64 (projected (m_rep m) now - expectedAt room now)) (voters room now)"

text \<open>The drifts of the side that holds two thirds of the votes, if one does, and its direction.\<close>

definition majority :: "room \<Rightarrow> gtime \<Rightarrow> i64 list \<times> int" where
  "majority room now =
     (let ds = vote_drifts room now;
          ahead = filter (\<lambda>d. d > syncTargetMS) ds;
          behind = filter (\<lambda>d. d < - syncTargetMS) ds;
          n = length ds
      in if length ahead * majorityDen \<ge> majorityNum * n then (ahead, 1)
         else if length behind * majorityDen \<ge> majorityNum * n then (behind, - 1)
         else ([], 0))"

definition realigned :: "room \<Rightarrow> gtime \<Rightarrow> room" where
  "realigned room now =
     all_members (\<lambda>m. m\<lparr>m_Mode := []\<rparr>)
       (room\<lparr>r_PositionMS := wrap64 (expectedAt room now + median (fst (majority room now))), r_Clock := now,
          r_Seq := r_Seq room + 1,
          r_Stats := (r_Stats room)\<lparr>st_Realigns := st_Realigns (r_Stats room) + 1\<rparr>,
          r_majDir := 0, r_hostActionAt := now\<rparr>)"

definition realignLocked :: "i64 \<Rightarrow> room \<Rightarrow> gtime \<Rightarrow> room \<times> bool" where
  "realignLocked hard room now =
     (if \<not> r_Playing room \<or> time_sub now (r_hostActionAt room) < hostOverride
      then (room\<lparr>r_majDir := 0\<rparr>, False)
      else if length (vote_drifts room now) < quorumMin then (room\<lparr>r_majDir := 0\<rparr>, False)
      else let group = fst (majority room now); dir = snd (majority room now) in
           if dir = 0 \<or> spread group > hard then (room\<lparr>r_majDir := 0\<rparr>, False)
           else if r_majDir room \<noteq> dir then (room\<lparr>r_majDir := dir, r_majSince := now\<rparr>, False)
           else if time_sub now (r_majSince room) < majorityHold then (room, False)
           else (realigned room now, True))"

section \<open>Membership\<close>

definition promote_best :: "(string \<times> member) list \<Rightarrow> member option" where
  "promote_best ms =
     foldl (\<lambda>best (_, m). case best of None \<Rightarrow> Some m
              | Some b \<Rightarrow> if m_LastSeen m > m_LastSeen b then Some m else Some b) None ms"

definition promoteLocked :: "room \<Rightarrow> room" where
  "promoteLocked room =
     (case promote_best (r_Members room) of
        None \<Rightarrow> room\<lparr>r_HostID := []\<rparr>
      | Some best \<Rightarrow> room\<lparr>r_HostID := m_ID best\<rparr>)"

text \<open>\<^verbatim>\<open>dropLocked\<close>; closing the connection is an effect of the caller's.\<close>

definition dropLocked :: "string \<Rightarrow> room \<Rightarrow> room" where
  "dropLocked mid room =
     (case lookup_member room mid of
        None \<Rightarrow> room
      | Some m \<Rightarrow>
          (let room = room\<lparr>r_Members := del_key mid (r_Members room)\<rparr>
           in if r_HostID room = mid then promoteLocked room else room))"

definition displayName :: "principal \<Rightarrow> string" where
  "displayName p =
     (if IsGuest (Some p) then ''Guest'' else if p_DisplayName p \<noteq> [] then p_DisplayName p else p_Username p)"

definition new_member :: "principal \<Rightarrow> gtime \<Rightarrow> member" where
  "new_member p now =
     \<lparr>m_ID = ID (Some p), m_Kind = p_Kind p, m_DisplayName = displayName p,
      m_GuestSessionID = p_GuestSessionID p, m_Ready = False, m_LastSeen = now, m_Conn = None,
      m_DriftMS = 0, m_Mode = [], m_Rate = 0, m_LastSeek = 0, m_rep = no_report\<rparr>"

definition addMember :: "principal \<Rightarrow> gtime \<Rightarrow> room \<Rightarrow> room" where
  "addMember p now room =
     (let room = room\<lparr>r_EmptySince := 0\<rparr>;
          mid = ID (Some p);
          m = (case lookup_member room mid of Some m \<Rightarrow> m\<lparr>m_LastSeen := now\<rparr> | None \<Rightarrow> new_member p now);
          room = put_member mid m room
      in if r_HostID room = [] \<or> (r_OwnerID room \<noteq> [] \<and> m_ID m = r_OwnerID room)
         then room\<lparr>r_HostID := m_ID m\<rparr> else room)"

end
