(* ===== verification/Party_Sync.thy ===== *)
theory Party_Sync
  imports Party "HOL-Library.Multiset"
begin

text \<open>
  Facts about one room: the correction of a drifting member, the realignment of the room to
  its majority, host promotion, and the room invariant with its preservation by every
  operation on a room. The hub's theorems in \<^verbatim>\<open>Party_Hub\<close> are short over these.
\<close>

section \<open>Timeline\<close>

lemma seconds_simps [simp]: "hostGrace = 15000000000" "ticketTTL = 120000000000" "memberLease = 45000000000"
  "seekCooldown = 3000000000" "reportFresh = 3000000000" "majorityHold = 3000000000"
  "hostOverride = 5000000000" "emptyRoomTTL = 7200000000000" "seconds 5 = 5000000000"
  by (simp_all add: hostGrace_def ticketTTL_def memberLease_def seekCooldown_def reportFresh_def
      majorityHold_def hostOverride_def emptyRoomTTL_def seconds_def)

lemma expectedAt_nonneg: "0 \<le> expectedAt room t"
  by (simp add: expectedAt_def Let_def)

lemma expectedAt_paused: "\<not> r_Playing room \<Longrightarrow> 0 \<le> r_PositionMS room \<Longrightarrow> expectedAt room t = r_PositionMS room"
  by (simp add: expectedAt_def)

lemma expectedAt_clock: "in_i64 (r_PositionMS room) \<Longrightarrow> 0 \<le> r_PositionMS room \<Longrightarrow>
    expectedAt room (r_Clock room) = r_PositionMS room"
  by (simp add: expectedAt_def wrap64_id Let_def)

lemma reportTime_bounds: "reportTime ms now \<le> now \<and> now - reportTime ms now \<le> seconds 5"
proof -
  have "\<not> seconds 5 < time_sub now ts \<Longrightarrow> now - ts \<le> seconds 5" for ts
    by (auto simp: time_sub_def)
  then show ?thesis by (auto simp: reportTime_def Let_def seconds_def)
qed

section \<open>The playback-rate correction\<close>

lemma fl_ge_half_grid: "of_int m * pow2 e \<le> x \<Longrightarrow> \<bar>m\<bar> \<le> 2 ^ 53 \<Longrightarrow> - 1074 \<le> e \<Longrightarrow> of_int m * pow2 e \<le> fl x"
  by (rule fl_ge_double) (auto simp: is_double_def)

lemma fl_nonneg: "0 \<le> x \<Longrightarrow> 0 \<le> fl x"
  using fl_ge_double [of 0 x] is_double_int [of 0] by simp

lemma fl_nonpos: "x \<le> 0 \<Longrightarrow> fl x \<le> 0"
  using fl_le_double [of 0 x] is_double_int [of 0] by simp

lemma fl_le_1: "x \<le> 1 \<Longrightarrow> fl x \<le> 1"
  using fl_le_double [of 1 x] is_double_int [of 1] by simp

lemma fl_ge_1: "1 \<le> x \<Longrightarrow> 1 \<le> fl x"
  using fl_ge_double [of 1 x] is_double_int [of 1] by simp

lemma rate_limits: "rate_lo = 4278419646001971 / 4503599627370496" "rate_hi = 4728779608739021 / 4503599627370496"
  by code_simp+

definition clamped_rate :: "i64 \<Rightarrow> rat" where
  "clamped_rate drift = max rate_lo (min rate_hi (fl_sub 1 (fl_div (fl_of_int drift) rateWindowMS)))"

definition rate_thousandths :: "i64 \<Rightarrow> int" where
  "rate_thousandths drift = fl_round (fl_mul (clamped_rate drift) 1000)"

lemma correction_rate_eq: "correction_rate drift = fl (of_int (rate_thousandths drift) / 1000)"
  by (simp add: correction_rate_def rate_thousandths_def clamped_rate_def Let_def fl_div_def)

lemma clamped_bounds: "rate_lo \<le> clamped_rate d" "clamped_rate d \<le> rate_hi"
  by (simp_all add: clamped_rate_def rate_limits)

lemma fl_mul_1000_bounds:
  assumes "rate_lo \<le> x" "x \<le> rate_hi"
  shows "1899 / 2 \<le> fl_mul x 1000" "fl_mul x 1000 \<le> 4201 / 4"
proof -
  have lo: "1899 / 2 \<le> x * 1000" and hi: "x * 1000 \<le> 4201 / 4"
    using assms by (simp_all add: rate_limits)
  have "is_double (1899 / 2)" by (rule is_doubleI [of _ 1899 "-1"]) (simp_all add: pow2_def)
  with lo show "1899 / 2 \<le> fl_mul x 1000" unfolding fl_mul_def by (intro fl_ge_double)
  have "is_double (4201 / 4)" by (rule is_doubleI [of _ 4201 "-2"]) (simp_all add: pow2_def)
  with hi show "fl_mul x 1000 \<le> 4201 / 4" unfolding fl_mul_def by (intro fl_le_double)
qed

lemma rate_thousandths_bounds: "950 \<le> rate_thousandths d" "rate_thousandths d \<le> 1050"
proof -
  let ?x = "fl_mul (clamped_rate d) 1000"
  have b: "1899 / 2 \<le> ?x" "?x \<le> 4201 / 4"
    using fl_mul_1000_bounds clamped_bounds by blast+
  then have r: "rate_thousandths d = \<lfloor>?x + 1 / 2\<rfloor>"
    by (simp add: rate_thousandths_def fl_round_def)
  show "950 \<le> rate_thousandths d" "rate_thousandths d \<le> 1050"
    using b unfolding r by linarith+
qed

lemma clamped_direction:
  "0 \<le> d \<Longrightarrow> clamped_rate d \<le> 1" "d \<le> 0 \<Longrightarrow> 1 \<le> clamped_rate d"
proof -
  show "clamped_rate d \<le> 1" if "0 \<le> d"
  proof -
    have "0 \<le> fl_div (fl_of_int d) rateWindowMS"
      using that by (simp add: fl_div_def fl_of_int_def rateWindowMS_def fl_nonneg)
    then have "fl_sub 1 (fl_div (fl_of_int d) rateWindowMS) \<le> 1" by (simp add: fl_sub_def fl_le_1)
    then show ?thesis by (simp add: clamped_rate_def rate_limits min_le_iff_disj)
  qed
  show "1 \<le> clamped_rate d" if "d \<le> 0"
  proof -
    have "fl_div (fl_of_int d) rateWindowMS \<le> 0"
      using that by (simp add: fl_div_def fl_of_int_def rateWindowMS_def fl_nonpos)
    then have "1 \<le> fl_sub 1 (fl_div (fl_of_int d) rateWindowMS)" by (simp add: fl_sub_def fl_ge_1)
    then show ?thesis by (simp add: clamped_rate_def rate_limits le_max_iff_disj)
  qed
qed

lemma thousandths_direction:
  "0 \<le> d \<Longrightarrow> rate_thousandths d \<le> 1000" "d \<le> 0 \<Longrightarrow> 1000 \<le> rate_thousandths d"
proof -
  let ?x = "fl_mul (clamped_rate d) 1000"
  have pos: "0 \<le> ?x" using fl_mul_1000_bounds [OF clamped_bounds [of d]] by linarith
  then have r: "rate_thousandths d = \<lfloor>?x + 1 / 2\<rfloor>"
    by (simp add: rate_thousandths_def fl_round_def)
  have th: "is_double (1000 :: rat)" using is_double_int [of 1000] by simp
  show "rate_thousandths d \<le> 1000" if "0 \<le> d"
  proof -
    have "?x \<le> 1000" using clamped_direction(1) [OF that] th by (simp add: fl_mul_def fl_le_double)
    then show ?thesis unfolding r by linarith
  qed
  show "1000 \<le> rate_thousandths d" if "d \<le> 0"
  proof -
    have "1000 \<le> ?x" using clamped_direction(2) [OF that] th by (simp add: fl_mul_def fl_ge_double)
    then show ?thesis unfolding r by linarith
  qed
qed

lemma correction_rate_bounds:
  "fl (19 / 20) \<le> correction_rate d \<and> correction_rate d \<le> fl (21 / 20)"
proof -
  have "is_double rate_lo" "is_double rate_hi"
    by (rule is_doubleI [of _ 4278419646001971 "-52"], simp_all add: rate_limits pow2_def)
       (rule is_doubleI [of _ 4728779608739021 "-52"], simp_all add: rate_limits pow2_def)
  moreover have "rate_lo \<le> of_int (rate_thousandths d) / 1000" "of_int (rate_thousandths d) / 1000 \<le> (rate_hi :: rat)"
  proof -
    have "(950 :: rat) \<le> of_int (rate_thousandths d)" "of_int (rate_thousandths d) \<le> (1050 :: rat)"
      using rate_thousandths_bounds [of d] by linarith+
    then show "rate_lo \<le> of_int (rate_thousandths d) / 1000" "of_int (rate_thousandths d) / 1000 \<le> rate_hi"
      by (simp_all add: rate_limits)
  qed
  ultimately show ?thesis
    by (simp add: correction_rate_eq fl_ge_double fl_le_double flip: rate_lo_def rate_hi_def)
qed

section \<open>Correction of one member\<close>

definition timeline :: "room \<Rightarrow> bool \<times> i64 \<times> gtime \<times> int" where
  "timeline room = (r_Playing room, r_PositionMS room, r_Clock room, r_Seq room)"

lemma inc_fields [simp]:
  "timeline (inc_seeks room) = timeline room" "timeline (inc_rates room) = timeline room"
  "r_Members (inc_seeks room) = r_Members room" "r_Members (inc_rates room) = r_Members room"
  "r_Seq (inc_seeks room) = r_Seq room" "r_Seq (inc_rates room) = r_Seq room"
  "r_Playing (inc_seeks room) = r_Playing room" "r_Playing (inc_rates room) = r_Playing room"
  by (simp_all add: inc_seeks_def inc_rates_def timeline_def)

text \<open>Only the statistics of the room and the correction fields of the member are written.\<close>

lemma correct_room:
  "fst (correctLocked hard room m now) \<in> {room, inc_seeks room, inc_rates room}"
  by (simp add: correctLocked_def Let_def)

lemma correct_member:
  "\<exists>d mo ra ls. fst (snd (correctLocked hard room m now)) =
     m\<lparr>m_DriftMS := d, m_Mode := mo, m_Rate := ra, m_LastSeek := ls\<rparr> \<and> ls \<in> {m_LastSeek m, now}"
proof -
  have upd: "m = m\<lparr>m_DriftMS := m_DriftMS m, m_Mode := m_Mode m, m_Rate := m_Rate m, m_LastSeek := m_LastSeek m\<rparr>"
    by simp
  show ?thesis
    by (cases m) (auto simp: correctLocked_def Let_def)
qed

definition drift_now :: "room \<Rightarrow> member \<Rightarrow> gtime \<Rightarrow> i64" where
  "drift_now room m now = wrap64 (projected (m_rep m) now - expectedAt room now)"

lemma correct_message:
  assumes "correctLocked hard room m now = (room', m', Some msg)"
  obtains s where "msg = SyncMsg s" "sy_target_ms s = expectedAt room now" "sy_seq s = r_Seq room"
    "sy_drift_ms s = drift_now room m now"
    "sy_action s = ''seek'' \<and> sy_rate s = 1 \<and> hard < abs64 (drift_now room m now) \<and>
       seekCooldown \<le> time_sub now (m_LastSeek m) \<and> m_LastSeek m' = now \<or>
     sy_action s = ''rate'' \<and> r_Playing room \<and> sy_rate s = correction_rate (drift_now room m now) \<and>
       syncExitMS < abs64 (drift_now room m now) \<and> abs64 (drift_now room m now) \<le> hard \<and>
       m_LastSeek m' = m_LastSeek m \<or>
     sy_action s = ''ok'' \<and> r_Playing room \<and> sy_rate s = 1 \<and>
       abs64 (drift_now room m now) \<le> syncTargetMS \<and> m_LastSeek m' = m_LastSeek m"
  using assms
  by (auto simp: correctLocked_def Let_def syncMsg_def drift_now_def syncExitMS_def syncTargetMS_def
      split: if_splits)

lemma correct_message_seek:
  assumes "correctLocked hard room m now = (room', m', Some msg)"
  shows "\<exists>s. msg = SyncMsg s \<and>
    (sy_action s = ''seek'' \<and> seekCooldown \<le> time_sub now (m_LastSeek m) \<and> m_LastSeek m' = now \<or>
     sy_action s \<noteq> ''seek'' \<and> m_LastSeek m' = m_LastSeek m)"
  by (rule correct_message [OF assms]) auto

lemma correct_seek_time:
  assumes "correctLocked hard room m now = (room', m', out)"
  shows "m_LastSeek m' = m_LastSeek m \<or> m_LastSeek m' = now \<and> seekCooldown \<le> time_sub now (m_LastSeek m)"
  using assms by (auto simp: correctLocked_def Let_def split: if_splits)

text \<open>The times at which a stream of position reports of one member makes the hub send a seek.
  Between two reports the room may change and the mode may be reset by the host or a realignment.\<close>

fun seek_times :: "i64 \<Rightarrow> member \<Rightarrow> (room \<times> string \<times> report \<times> gtime) list \<Rightarrow> gtime list" where
  "seek_times hard m [] = []"
| "seek_times hard m ((room, mode, rep, now) # es) =
     (case correctLocked hard room (m\<lparr>m_Mode := mode, m_rep := rep\<rparr>) now of
        (_, m', out) \<Rightarrow>
          (case out of Some (SyncMsg s) \<Rightarrow> if sy_action s = ''seek'' then [now] else [] | _ \<Rightarrow> [])
          @ seek_times hard m' es)"

lemma seek_times_spaced:
  "successively (\<lambda>t u. seekCooldown \<le> time_sub u t) (m_LastSeek m # seek_times hard m es)"
proof (induction hard m es rule: seek_times.induct)
  case (1 hard m)
  then show ?case by simp
next
  case (2 hard m room mode rep now es)
  let ?m = "m\<lparr>m_Mode := mode, m_rep := rep\<rparr>"
  obtain room' m' out where c: "correctLocked hard room ?m now = (room', m', out)" by (cases "correctLocked hard room ?m now") auto
  from 2 c have ih: "successively (\<lambda>t u. seekCooldown \<le> time_sub u t) (m_LastSeek m' # seek_times hard m' es)"
    by simp
  show ?case
  proof (cases out)
    case None
    have "m_LastSeek m' = m_LastSeek m"
      using c None by (auto simp: correctLocked_def Let_def split: if_splits)
    with ih c None show ?thesis by simp
  next
    case (Some msg)
    with c have "correctLocked hard room ?m now = (room', m', Some msg)" by simp
    from correct_message_seek [OF this] obtain s where "msg = SyncMsg s"
      and "sy_action s = ''seek'' \<and> seekCooldown \<le> time_sub now (m_LastSeek m) \<and> m_LastSeek m' = now \<or>
        sy_action s \<noteq> ''seek'' \<and> m_LastSeek m' = m_LastSeek m"
      by auto
    with ih c Some show ?thesis by auto
  qed
qed

section \<open>Spread and median\<close>

lemma foldl_max: "foldl max (x :: int) xs = Max (set (x # xs))"
proof -
  have "(\<lambda>y s. max s y) = (max :: int \<Rightarrow> int \<Rightarrow> int)" by (simp add: fun_eq_iff max.commute)
  then show ?thesis unfolding Max.set_eq_fold by (simp add: foldl_conv_fold)
qed

lemma foldl_min: "foldl min (x :: int) xs = Min (set (x # xs))"
proof -
  have "(\<lambda>y s. min s y) = (min :: int \<Rightarrow> int \<Rightarrow> int)" by (simp add: fun_eq_iff min.commute)
  then show ?thesis unfolding Min.set_eq_fold by (simp add: foldl_conv_fold)
qed

definition small :: "i64 \<Rightarrow> bool" where
  "small x \<longleftrightarrow> - (2 ^ 62) < x \<and> x < 2 ^ 62"

lemma spread_eq:
  assumes "v \<noteq> []" "\<forall>x \<in> set v. small x"
  shows "spread v = Max (set v) - Min (set v)"
proof -
  have "Max (set v) \<in> set v" "Min (set v) \<in> set v" using assms(1) by simp_all
  with assms(2) have "small (Max (set v))" "small (Min (set v))" by blast+
  then have "in_i64 (Max (set v) - Min (set v))" by (simp add: small_def in_i64_def)
  moreover have "spread v = wrap64 (Max (set v) - Min (set v))"
    using assms(1) by (cases v) (simp_all add: spread_def foldl_max foldl_min)
  ultimately show ?thesis by (simp add: wrap64_id)
qed

lemma quot_2_between: "2 * a \<le> x \<Longrightarrow> x \<le> 2 * b \<Longrightarrow> a \<le> quot x 2 \<and> quot x 2 \<le> b"
  by (cases "0 \<le> x") (simp_all add: quot_nonneg quot_neg, linarith+)

lemma median_between:
  assumes "v \<noteq> []" "\<forall>x \<in> set v. small x"
  shows "Min (set v) \<le> median v \<and> median v \<le> Max (set v)"
proof -
  let ?s = "sort v"
  have nth: "Min (set v) \<le> ?s ! k \<and> ?s ! k \<le> Max (set v) \<and> small (?s ! k)" if "k < length v" for k
  proof -
    have "?s ! k \<in> set v" using that by (metis length_sort nth_mem set_sort)
    with assms show ?thesis by auto
  qed
  have len: "0 < length v" using assms(1) by simp
  show ?thesis
  proof (cases "length v mod 2 = 1")
    case True
    with nth [of "length v div 2"] len show ?thesis by (simp add: median_def)
  next
    case False
    let ?a = "?s ! (length v div 2 - 1)" and ?b = "?s ! (length v div 2)"
    have a: "Min (set v) \<le> ?a \<and> ?a \<le> Max (set v) \<and> small ?a"
      and b: "Min (set v) \<le> ?b \<and> ?b \<le> Max (set v) \<and> small ?b"
      using nth len by (simp_all add: less_imp_diff_less)
    then have "wrap64 (?a + ?b) = ?a + ?b" by (auto intro!: wrap64_id simp: small_def in_i64_def)
    with False have "median v = quot (?a + ?b) 2" by (simp add: median_def Let_def)
    with quot_2_between [of "Min (set v)" "?a + ?b" "Max (set v)"] a b show ?thesis by simp
  qed
qed

lemma median_within_spread:
  assumes "\<forall>x \<in> set v. small x" "x \<in> set v"
  shows "\<bar>x - median v\<bar> \<le> spread v"
proof -
  from assms(2) have v: "v \<noteq> []" by auto
  have "Min (set v) \<le> x" "x \<le> Max (set v)" using assms(2) by simp_all
  with median_between [OF v assms(1)] spread_eq [OF v assms(1)] show ?thesis by linarith
qed

lemma median_perm: "mset v = mset w \<Longrightarrow> median v = median w"
  by (metis median_def properties_for_sort mset_sort sorted_sort)

end
