(* ===== verification/Party_Room.thy ===== *)
theory Party_Room
  imports Party_Sync
begin

text \<open>
  Realignment of a room to its majority, host promotion, and the room invariant \<open>room_ok\<close>
  with its preservation by every operation on one room. The locale \<open>room_operation\<close> is the
  contract the hub relies on when it applies an operation to one of its rooms.
\<close>

section \<open>Realignment\<close>

definition realign_due :: "i64 \<Rightarrow> room \<Rightarrow> gtime \<Rightarrow> bool" where
  "realign_due hard room now \<longleftrightarrow>
     r_Playing room \<and> hostOverride \<le> time_sub now (r_hostActionAt room) \<and>
     quorumMin \<le> length (vote_drifts room now) \<and>
     snd (majority room now) \<noteq> 0 \<and> spread (fst (majority room now)) \<le> hard \<and>
     r_majDir room = snd (majority room now) \<and> majorityHold \<le> time_sub now (r_majSince room)"

lemma realign_True: "snd (realignLocked hard room now) \<longleftrightarrow> realign_due hard room now"
  by (simp add: realignLocked_def realign_due_def Let_def not_le not_less) 

lemma realign_result:
  "realign_due hard room now \<Longrightarrow> realignLocked hard room now = (realigned room now, True)"
  by (simp add: realignLocked_def realign_due_def Let_def)

lemma realign_not_due:
  assumes "\<not> realign_due hard room now"
  shows "\<exists>d s. realignLocked hard room now = (room\<lparr>r_majDir := d, r_majSince := s\<rparr>, False)"
proof -
  let ?v = "\<lambda>d s. (room\<lparr>r_majDir := d, r_majSince := s\<rparr>, False)"
  from assms have "\<not> snd (realignLocked hard room now)" by (simp add: realign_True)
  then have "realignLocked hard room now \<in> {?v 0 (r_majSince room), ?v (r_majDir room) (r_majSince room),
      ?v (snd (majority room now)) now}"
    unfolding realignLocked_def Let_def by (simp split del: if_split) (simp split: if_splits)
  then show ?thesis by blast
qed

lemma realign_cases:
  obtains "realign_due hard room now" "realignLocked hard room now = (realigned room now, True)"
  | d s where "\<not> realign_due hard room now"
      "realignLocked hard room now = (room\<lparr>r_majDir := d, r_majSince := s\<rparr>, False)"
  using realign_result realign_not_due by metis

lemma majority_subset: "set (fst (majority room now)) \<subseteq> set (vote_drifts room now)"
  by (auto simp: majority_def Let_def)

lemma majority_share:
  "snd (majority room now) \<noteq> 0 \<Longrightarrow>
   2 * length (vote_drifts room now) \<le> 3 * length (fst (majority room now)) \<and>
   (\<forall>d \<in> set (fst (majority room now)). syncTargetMS < \<bar>d\<bar>)"
  by (auto simp: majority_def Let_def majorityNum_def majorityDen_def syncTargetMS_def split: if_splits)

lemma vote_drifts_length: "length (vote_drifts room now) = length (voters room now)"
  by (simp add: vote_drifts_def)

lemma expectedAt_at_clock:
  "in_i64 (r_PositionMS room) \<Longrightarrow> r_Clock room = now \<Longrightarrow> expectedAt room now = max 0 (r_PositionMS room)"
  by (simp add: expectedAt_def time_sub_def milliseconds_def quot_def wrap64_id max_def Let_def)

lemma realigned_fields [simp]:
  "r_Clock (realigned room now) = now" "r_Seq (realigned room now) = r_Seq room + 1"
  "r_PositionMS (realigned room now) = wrap64 (expectedAt room now + median (fst (majority room now)))"
  "r_Playing (realigned room now) = r_Playing room" "r_hostActionAt (realigned room now) = now"
  by (simp_all add: realigned_def all_members_def)

text \<open>After a realignment the majority it followed is within the hard limit of the timeline.\<close>

lemma realigned_majority_close:
  assumes due: "realign_due hard room now"
    and small: "\<forall>m \<in> set (voters room now). 0 \<le> projected (m_rep m) now \<and> projected (m_rep m) now < 2 ^ 61"
    and exp: "expectedAt room now < 2 ^ 61"
    and m: "m \<in> set (voters room now)"
      "wrap64 (projected (m_rep m) now - expectedAt room now) \<in> set (fst (majority room now))"
  shows "\<bar>projected (m_rep m) now - expectedAt (realigned room now) now\<bar> \<le> hard"
proof -
  let ?e = "expectedAt room now" and ?g = "fst (majority room now)"
  have e0: "0 \<le> ?e" by (rule expectedAt_nonneg)
  have drift: "wrap64 (projected (m_rep x) now - ?e) = projected (m_rep x) now - ?e"
    if "x \<in> set (voters room now)" for x
    using small that e0 exp by (intro wrap64_id) (auto simp: in_i64_def)
  have g: "- ?e \<le> d \<and> d < 2 ^ 61" if d: "d \<in> set ?g" for d
  proof -
    from d majority_subset obtain x where "x \<in> set (voters room now)" "d = wrap64 (projected (m_rep x) now - ?e)"
      by (fastforce simp: vote_drifts_def)
    with drift small e0 show ?thesis by fastforce
  qed
  have sm: "\<forall>d \<in> set ?g. small d"
  proof
    fix d assume "d \<in> set ?g"
    from g [OF this] exp show "small d" by (simp add: small_def)
  qed
  from m(2) have ne: "?g \<noteq> []" by auto
  have med: "- ?e \<le> median ?g \<and> median ?g < 2 ^ 61"
  proof -
    have "Min (set ?g) \<in> set ?g" "Max (set ?g) \<in> set ?g" using ne by simp_all
    with g median_between [OF ne sm] show ?thesis by fastforce
  qed
  have pos: "expectedAt (realigned room now) now = ?e + median ?g"
  proof -
    have "in_i64 (?e + median ?g)" using med e0 exp by (simp add: in_i64_def)
    then show ?thesis
      using med by (simp add: expectedAt_at_clock wrap64_id)
  qed
  have "\<bar>(projected (m_rep m) now - ?e) - median ?g\<bar> \<le> spread ?g"
    using median_within_spread [OF sm m(2)] drift [OF m(1)] by simp
  moreover have "spread ?g \<le> hard" using due by (simp add: realign_due_def)
  ultimately show ?thesis unfolding pos by linarith
qed

section \<open>Host promotion\<close>

lemma promote_best_Nil [simp]: "promote_best [] = None"
  by (simp add: promote_best_def)

lemma promote_best_snoc:
  "promote_best (ms @ [(k, m)]) =
     (case promote_best ms of None \<Rightarrow> Some m
      | Some b \<Rightarrow> if m_LastSeen m > m_LastSeen b then Some m else Some b)"
  by (simp add: promote_best_def)

lemma promote_best_None [simp]: "promote_best ms = None \<longleftrightarrow> ms = []"
proof (induction ms rule: rev_induct)
  case Nil
  then show ?case by simp
next
  case (snoc km ms)
  then show ?case by (cases km) (simp add: promote_best_snoc split: option.split)
qed

lemma promote_best_Some:
  "promote_best ms = Some b \<Longrightarrow> b \<in> snd ` set ms \<and> (\<forall>m \<in> snd ` set ms. m_LastSeen m \<le> m_LastSeen b)"
proof (induction ms arbitrary: b rule: rev_induct)
  case Nil
  then show ?case by simp
next
  case (snoc km ms)
  obtain k m where km: "km = (k, m)" by (cases km)
  show ?case
  proof (cases "promote_best ms")
    case None
    with snoc.prems km show ?thesis by (simp add: promote_best_snoc)
  next
    case (Some c)
    with snoc.IH have c: "c \<in> snd ` set ms" "\<forall>m \<in> snd ` set ms. m_LastSeen m \<le> m_LastSeen c" by auto
    from snoc.prems km Some have "b = (if m_LastSeen m > m_LastSeen c then m else c)"
      by (simp add: promote_best_snoc split: if_splits)
    with c km show ?thesis by (cases "m_LastSeen m > m_LastSeen c") force+
  qed
qed

section \<open>The room invariant\<close>

definition members_ok :: "room \<Rightarrow> bool" where
  "members_ok room \<longleftrightarrow> distinct (keys (r_Members room)) \<and> (\<forall>(k, m) \<in> set (r_Members room). m_ID m = k)"

text \<open>The host is a member whenever there is one, and nobody when the room is empty.\<close>

definition host_ok :: "room \<Rightarrow> bool" where
  "host_ok room \<longleftrightarrow>
     (if r_Members room = [] then r_HostID room = [] else r_HostID room \<in> set (keys (r_Members room)))"

definition bans_ok :: "room \<Rightarrow> bool" where
  "bans_ok room \<longleftrightarrow> (\<forall>k \<in> set (keys (r_Members room)). \<not> banned room k)"

definition chat_ok :: "room \<Rightarrow> bool" where
  "chat_ok room \<longleftrightarrow> length (r_Chat room) \<le> chatLimit \<and> (\<forall>c \<in> set (r_Chat room). rune_count (cm_Text c) \<le> chatMaxRunes)"

definition room_ok :: "room \<Rightarrow> bool" where
  "room_ok room \<longleftrightarrow> members_ok room \<and> host_ok room \<and> bans_ok room \<and> chat_ok room"

text \<open>Only these fields matter to the invariant.\<close>

lemma room_ok_cong:
  assumes "map (\<lambda>(k, m). (k, m_ID m)) (r_Members a) = map (\<lambda>(k, m). (k, m_ID m)) (r_Members b)"
    and "r_HostID a = r_HostID b" "r_Banned a = r_Banned b" "r_Chat a = r_Chat b"
  shows "room_ok a \<longleftrightarrow> room_ok b"
proof -
  have keys: "keys (r_Members a) = keys (r_Members b)"
    using arg_cong [OF assms(1), of "map fst"] by (simp add: keys_def comp_def case_prod_beta)
  have ids: "(\<forall>(k, m) \<in> set (r_Members x). m_ID m = k) \<longleftrightarrow>
      (\<forall>(k, i) \<in> set (map (\<lambda>(k, m). (k, m_ID m)) (r_Members x)). i = k)" for x :: room
    by auto
  have empty: "r_Members a = [] \<longleftrightarrow> r_Members b = []"
    using keys by (auto simp: keys_def)
  show ?thesis
    unfolding room_ok_def members_ok_def host_ok_def bans_ok_def chat_ok_def banned_def keys ids empty assms ..
qed

lemma room_ok_fields [simp]:
  "room_ok (room\<lparr>r_majDir := d\<rparr>) = room_ok room" "room_ok (room\<lparr>r_majSince := t\<rparr>) = room_ok room"
  "room_ok (room\<lparr>r_Stats := st\<rparr>) = room_ok room" "room_ok (room\<lparr>r_EmptySince := t\<rparr>) = room_ok room"
  "room_ok (room\<lparr>r_Playing := pl\<rparr>) = room_ok room" "room_ok (room\<lparr>r_PositionMS := ps\<rparr>) = room_ok room"
  "room_ok (room\<lparr>r_Clock := t\<rparr>) = room_ok room" "room_ok (room\<lparr>r_Seq := n\<rparr>) = room_ok room"
  "room_ok (room\<lparr>r_hostActionAt := t\<rparr>) = room_ok room" "room_ok (room\<lparr>r_SharedControl := sc\<rparr>) = room_ok room"
  "room_ok (room\<lparr>r_Panel := pa\<rparr>) = room_ok room" "room_ok (room\<lparr>r_Queue := q\<rparr>) = room_ok room"
  "room_ok (room\<lparr>r_Votes := v\<rparr>) = room_ok room" "room_ok (room\<lparr>r_IntermissionUntil := t\<rparr>) = room_ok room"
  "room_ok (room\<lparr>r_OwnerID := o'\<rparr>) = room_ok room"
  by (rule room_ok_cong; simp)+

lemma room_ok_all_members:
  assumes "\<And>m. m_ID (f m) = m_ID m"
  shows "room_ok (all_members f room) = room_ok room"
  by (rule room_ok_cong) (simp_all add: all_members_def comp_def case_prod_beta assms)

lemma members_ok_ID: "members_ok room \<Longrightarrow> lookup_member room k = Some m \<Longrightarrow> m_ID m = k"
  by (auto simp: members_ok_def lookup_member_def dest: map_of_SomeD)

lemma lookup_member_keys: "lookup_member room k = Some m \<Longrightarrow> k \<in> set (keys (r_Members room))"
  by (simp add: lookup_member_def map_of_in_keys)

lemma put_member_simps [simp]:
  "r_HostID (put_member k m room) = r_HostID room" "r_Banned (put_member k m room) = r_Banned room"
  "r_Chat (put_member k m room) = r_Chat room" "r_OwnerID (put_member k m room) = r_OwnerID room"
  "set (keys (r_Members (put_member k m room))) = insert k (set (keys (r_Members room)))"
  "r_Members (put_member k m room) \<noteq> []" "timeline (put_member k m room) = timeline room"
  "lookup_member (put_member k m room) = (lookup_member room)(k \<mapsto> m)"
  by (simp_all add: put_member_def timeline_def lookup_member_def fun_eq_iff)

lemma members_ok_put: "members_ok room \<Longrightarrow> m_ID m = k \<Longrightarrow> members_ok (put_member k m room)"
  by (auto simp: members_ok_def put_member_def set_set_key)

text \<open>Writing a member that is there already.\<close>

lemma room_ok_put:
  assumes "room_ok room" "lookup_member room k = Some m0" "m_ID m = k"
  shows "room_ok (put_member k m room)"
proof -
  have k: "k \<in> set (keys (r_Members room))" using assms(2) by (rule lookup_member_keys)
  then have "insert k (set (keys (r_Members room))) = set (keys (r_Members room))" by auto
  moreover have "r_Members room \<noteq> []" using k by (auto simp: keys_def)
  ultimately show ?thesis
    using assms members_ok_put [of room m k]
    by (auto simp: room_ok_def host_ok_def bans_ok_def chat_ok_def banned_def)
qed

lemma promoteLocked_members [simp]:
  "r_Members (promoteLocked room) = r_Members room" "r_Banned (promoteLocked room) = r_Banned room"
  "r_Chat (promoteLocked room) = r_Chat room" "timeline (promoteLocked room) = timeline room"
  by (simp_all add: promoteLocked_def timeline_def split: option.split)

lemma promote_host_ok: "members_ok room \<Longrightarrow> host_ok (promoteLocked room)"
proof -
  assume ok: "members_ok room"
  show ?thesis
  proof (cases "promote_best (r_Members room)")
    case None
    then show ?thesis by (simp add: promoteLocked_def host_ok_def)
  next
    case (Some b)
    then obtain k where kb: "(k, b) \<in> set (r_Members room)" using promote_best_Some by fastforce
    with ok have "m_ID b = k" by (auto simp: members_ok_def)
    moreover have "k \<in> set (keys (r_Members room))" using kb by (force simp: keys_def)
    moreover have "r_Members room \<noteq> []" using kb by auto
    ultimately show ?thesis using Some by (simp add: promoteLocked_def host_ok_def)
  qed
qed

lemma promote_room_ok: "room_ok room \<Longrightarrow> room_ok (promoteLocked room)"
  using promote_host_ok [of room]
  by (simp add: room_ok_def members_ok_def bans_ok_def chat_ok_def banned_def)

text \<open>The promoted host is the member seen last.\<close>

lemma promote_latest:
  assumes "members_ok room" "r_Members room \<noteq> []"
  shows "\<exists>h. lookup_member (promoteLocked room) (r_HostID (promoteLocked room)) = Some h \<and>
    (\<forall>(k, m) \<in> set (r_Members room). m_LastSeen m \<le> m_LastSeen h)"
proof -
  obtain b where b: "promote_best (r_Members room) = Some b" using assms(2) by (metis not_None_eq promote_best_None)
  from promote_best_Some [OF b] obtain k where kb: "(k, b) \<in> set (r_Members room)"
    and max: "\<forall>m \<in> snd ` set (r_Members room). m_LastSeen m \<le> m_LastSeen b" by auto
  with assms(1) have "m_ID b = k" "map_of (r_Members room) k = Some b"
    by (auto simp: members_ok_def map_of_distinct_iff)
  with b max show ?thesis by (force simp: promoteLocked_def lookup_member_def)
qed

lemma dropLocked_other [simp]:
  "r_Banned (dropLocked k room) = r_Banned room" "r_Chat (dropLocked k room) = r_Chat room"
  "timeline (dropLocked k room) = timeline room"
  "keys (r_Members (dropLocked k room)) = filter (\<lambda>k'. k' \<noteq> k) (keys (r_Members room))"
  "r_Members (dropLocked k room) = del_key k (r_Members room)"
proof -
  have "map_of (r_Members room) k = None \<Longrightarrow> del_key k (r_Members room) = r_Members room"
    by (auto simp: del_key_def map_of_eq_None_iff intro!: filter_True) (force)
  then show "r_Members (dropLocked k room) = del_key k (r_Members room)"
    by (simp add: dropLocked_def lookup_member_def Let_def split: option.split)
  then show "keys (r_Members (dropLocked k room)) = filter (\<lambda>k'. k' \<noteq> k) (keys (r_Members room))"
    by simp
  show "r_Banned (dropLocked k room) = r_Banned room" "r_Chat (dropLocked k room) = r_Chat room"
    by (simp_all add: dropLocked_def Let_def split: option.split)
  have "timeline (room\<lparr>r_Members := ms\<rparr>) = timeline room" for ms by (simp add: timeline_def)
  then show "timeline (dropLocked k room) = timeline room"
    by (simp add: dropLocked_def Let_def split: option.split)
qed

lemma drop_members_ok: "members_ok room \<Longrightarrow> members_ok (dropLocked k room)"
  by (auto simp: members_ok_def set_del_key)

lemma drop_host_ok:
  assumes "members_ok room" "host_ok room"
  shows "host_ok (dropLocked k room)"
proof (cases "lookup_member room k")
  case None
  with assms show ?thesis by (simp add: dropLocked_def)
next
  case (Some m)
  let ?r = "room\<lparr>r_Members := del_key k (r_Members room)\<rparr>"
  have m: "members_ok ?r" using assms(1) by (auto simp: members_ok_def set_del_key)
  show ?thesis
  proof (cases "r_HostID room = k")
    case True
    then show ?thesis using Some promote_host_ok [OF m] by (simp add: dropLocked_def Let_def)
  next
    case False
    have "r_HostID room \<in> set (keys (r_Members room))"
      using assms(2) lookup_member_keys [OF Some] by (auto simp: host_ok_def keys_def split: if_splits)
    with False have h: "r_HostID room \<in> set (keys (del_key k (r_Members room)))" by simp
    then have "del_key k (r_Members room) \<noteq> []" by (auto simp: keys_def)
    with h False Some show ?thesis by (simp add: dropLocked_def host_ok_def Let_def)
  qed
qed

lemma drop_room_ok: "room_ok room \<Longrightarrow> room_ok (dropLocked k room)"
  using drop_host_ok [of room k] drop_members_ok [of room k]
  by (auto simp: room_ok_def bans_ok_def chat_ok_def banned_def)

lemma addMember_ok:
  assumes "members_ok room" "host_ok room"
  shows "members_ok (addMember p now room) \<and> host_ok (addMember p now room)"
proof -
  let ?k = "ID (Some p)"
  let ?r = "room\<lparr>r_EmptySince := 0\<rparr>"
  define m where "m = (case lookup_member ?r ?k of Some m \<Rightarrow> m\<lparr>m_LastSeen := now\<rparr> | None \<Rightarrow> new_member p now)"
  have r: "members_ok ?r" using assms(1) by (simp add: members_ok_def)
  have idm: "m_ID m = ?k"
    using members_ok_ID [OF r] by (auto simp: m_def new_member_def split: option.split)
  have a: "addMember p now room =
      (if r_HostID room = [] \<or> r_OwnerID room \<noteq> [] \<and> ?k = r_OwnerID room
       then (put_member ?k m ?r)\<lparr>r_HostID := ?k\<rparr> else put_member ?k m ?r)"
    by (simp add: addMember_def m_def [symmetric] idm Let_def)
  have "members_ok (put_member ?k m ?r)" using members_ok_put [OF r idm] .
  moreover have "members_ok ((put_member ?k m ?r)\<lparr>r_HostID := h\<rparr>) = members_ok (put_member ?k m ?r)" for h
    by (simp add: members_ok_def)
  moreover have "host_ok ((put_member ?k m ?r)\<lparr>r_HostID := ?k\<rparr>)"
    by (simp add: host_ok_def)
  moreover have "host_ok (put_member ?k m ?r)" if "r_HostID room \<noteq> []"
    using assms(2) that by (auto simp: host_ok_def split: if_splits)
  ultimately show ?thesis by (auto simp: a)
qed

lemma addMember_keys:
  "set (keys (r_Members (addMember p now room))) = insert (ID (Some p)) (set (keys (r_Members room)))"
  "r_Banned (addMember p now room) = r_Banned room" "r_Chat (addMember p now room) = r_Chat room"
  "timeline (addMember p now room) = timeline room" "r_ID (addMember p now room) = r_ID room"
  "r_OwnerID (addMember p now room) = r_OwnerID room"
  "r_InviteCode (addMember p now room) = r_InviteCode room"
  by (simp_all add: addMember_def Let_def timeline_def put_member_def)

lemma addMember_room_ok:
  assumes "room_ok room" "\<not> banned room (ID (Some p))"
  shows "room_ok (addMember p now room)"
  using assms addMember_ok [of room p now]
  by (auto simp: room_ok_def bans_ok_def chat_ok_def banned_def addMember_keys)

lemma realign_room_ok: "room_ok room \<Longrightarrow> room_ok (fst (realignLocked hard room now))"
  by (cases rule: realign_cases [of hard room now])
     (simp_all add: realigned_def room_ok_all_members)

end
