(* ===== verification/Party_Hub.thy ===== *)
theory Party_Hub
  imports Party_Room "HOL-Library.Product_Lexorder"
begin

text \<open>
  The watch-party hub (\<^verbatim>\<open>src/internal/watchtogether/hub.go\<close>, \<^verbatim>\<open>sync.go\<close>, \<^verbatim>\<open>ws.go\<close>,
  \<^verbatim>\<open>cinema.go\<close>, \<^verbatim>\<open>admin.go\<close>, \<^verbatim>\<open>persistence.go\<close>): rooms, invites and tickets, and every operation
  on them. A stretch of code that holds \<^verbatim>\<open>h.mu\<close> is one atomic definition; an operation made of
  several such stretches is their composition, and its stretches have names of their own
  (\<open>Join_lookup\<close>, \<open>Join_commit\<close>, ...), so that interleavings can be stated. A \<^verbatim>\<open>*Room\<close> is the
  ID of its object in the store \<open>h_rooms\<close>; the map \<^verbatim>\<open>h.rooms\<close> is the list \<open>h_live\<close> of the IDs it
  holds, so a pointer to a room that was deleted still reads and writes its object. Sends,
  database writes and closed connections are returned as a list of effects.
\<close>

section \<open>State\<close>

record ticket =
  t_RoomID :: string
  t_PrincipalID :: string
  t_GuestSessionID :: string
  t_Exp :: gtime

record hub =
  h_rooms :: "(string \<times> room) list"
  h_live :: "string list"
  h_invites :: "(string \<times> string) list"
  h_tickets :: "(string \<times> ticket) list"
  h_ticks :: int
  h_hardDriftMS :: i64

record memberRow =
  mr_ID :: string
  mr_Kind :: string
  mr_DisplayName :: string
  mr_GuestSessionID :: string
  mr_Ready :: bool
  mr_LastSeen :: gtime

record roomSnapshot =
  s_ID :: string
  s_InviteCode :: string
  s_ItemKind :: string
  s_ItemID :: string
  s_SharePath :: string
  s_HostID :: string
  s_OwnerID :: string
  s_Panel :: string
  s_Playing :: bool
  s_SharedControl :: bool
  s_PositionMS :: i64
  s_Seq :: int
  s_Clock :: gtime
  s_IntermissionUntil :: gtime
  s_Queue :: "queue_item list"
  s_Banned :: "string list"
  s_Members :: "memberRow list"

datatype effect =
    Broadcast string payload
  | SendTo nat payload
  | CloseConn nat
  | SaveRoom roomSnapshot
  | DeleteRoom string

text \<open>
  What the hub asks of other parts: the media locator, per-item and per-library permission
  and the share gate. A call that fails and one that refuses are both False or None.
\<close>

record party_env =
  e_Locator :: "(string \<Rightarrow> string \<Rightarrow> string option) option"
  e_Permitted :: "(string \<Rightarrow> string \<Rightarrow> string \<Rightarrow> bool) option"
  e_Grants :: "(string \<Rightarrow> string \<Rightarrow> bool) option"
  e_CanStream :: "string \<Rightarrow> string \<Rightarrow> string \<Rightarrow> bool"
  e_ShareToken :: "string \<Rightarrow> string"
  e_DB :: bool

definition driftLimit :: "hub \<Rightarrow> i64" where
  "driftLimit h = (if h_hardDriftMS h > 0 then h_hardDriftMS h else driftMS)"

text \<open>\<^verbatim>\<open>h.rooms[id]\<close>, and reading and writing through a \<^verbatim>\<open>*Room\<close>.\<close>

definition find_room :: "hub \<Rightarrow> string \<Rightarrow> room option" where
  "find_room h rid = (if rid \<in> set (h_live h) then map_of (h_rooms h) rid else None)"

definition deref :: "hub \<Rightarrow> string \<Rightarrow> room option" where
  "deref h rid = map_of (h_rooms h) rid"

definition put_room :: "string \<Rightarrow> room \<Rightarrow> hub \<Rightarrow> hub" where
  "put_room rid room h = h\<lparr>h_rooms := set_key rid room (h_rooms h)\<rparr>"

definition unlink_room :: "string \<Rightarrow> room \<Rightarrow> hub \<Rightarrow> hub" where
  "unlink_room rid room h =
     h\<lparr>h_live := filter (\<lambda>k. k \<noteq> rid) (h_live h), h_invites := del_key (r_InviteCode room) (h_invites h)\<rparr>"

section \<open>Durable rooms\<close>

definition member_row :: "member \<Rightarrow> memberRow" where
  "member_row m = \<lparr>mr_ID = m_ID m, mr_Kind = m_Kind m, mr_DisplayName = m_DisplayName m,
     mr_GuestSessionID = m_GuestSessionID m, mr_Ready = m_Ready m, mr_LastSeen = m_LastSeen m\<rparr>"

definition snapshotLocked :: "room \<Rightarrow> roomSnapshot" where
  "snapshotLocked room =
     \<lparr>s_ID = r_ID room, s_InviteCode = r_InviteCode room, s_ItemKind = r_ItemKind room,
      s_ItemID = r_ItemID room, s_SharePath = r_SharePath room, s_HostID = r_HostID room,
      s_OwnerID = r_OwnerID room, s_Panel = normalPanel (r_Panel room), s_Playing = r_Playing room,
      s_SharedControl = r_SharedControl room, s_PositionMS = r_PositionMS room, s_Seq = r_Seq room,
      s_Clock = r_Clock room, s_IntermissionUntil = r_IntermissionUntil room, s_Queue = r_Queue room,
      s_Banned = sort (keys (r_Banned room)), s_Members = map (member_row \<circ> snd) (r_Members room)\<rparr>"

definition restore_member :: "gtime \<Rightarrow> memberRow \<Rightarrow> member" where
  "restore_member now r =
     \<lparr>m_ID = mr_ID r, m_Kind = mr_Kind r, m_DisplayName = mr_DisplayName r,
      m_GuestSessionID = mr_GuestSessionID r, m_Ready = mr_Ready r,
      m_LastSeen = (if mr_LastSeen r = 0 then now else mr_LastSeen r), m_Conn = None,
      m_DriftMS = 0, m_Mode = [], m_Rate = 0, m_LastSeek = 0, m_rep = no_report\<rparr>"

definition no_stats :: sync_stats where
  "no_stats = \<lparr>st_Reports = 0, st_RateCorrections = 0, st_Seeks = 0, st_Realigns = 0\<rparr>"

text \<open>One row of \<^verbatim>\<open>watch_rooms\<close> with its rows of \<^verbatim>\<open>watch_room_members\<close>, read back.\<close>

definition restore_room :: "gtime \<Rightarrow> roomSnapshot \<Rightarrow> room" where
  "restore_room now s =
     \<lparr>r_ID = s_ID s, r_InviteCode = s_InviteCode s, r_ItemKind = s_ItemKind s, r_ItemID = s_ItemID s,
      r_SharePath = s_SharePath s, r_HostID = s_HostID s,
      r_OwnerID = (if s_OwnerID s = [] then s_HostID s else s_OwnerID s), r_Playing = s_Playing s,
      r_PositionMS = s_PositionMS s, r_Clock = (if s_Clock s = 0 then now else s_Clock s),
      r_Seq = s_Seq s,
      r_Members = foldl (\<lambda>ms r. set_key (mr_ID r) (restore_member now r) ms) [] (s_Members s),
      r_Chat = [], r_Queue = s_Queue s, r_IntermissionUntil = s_IntermissionUntil s, r_Votes = [],
      r_SharedControl = s_SharedControl s, r_Panel = normalPanel (s_Panel s),
      r_Banned = foldl (\<lambda>bs k. set_key k True bs) [] (s_Banned s),
      r_EmptySince = 0, r_Stats = no_stats, r_hostActionAt = 0, r_majDir = 0, r_majSince = 0\<rparr>"

definition empty_hub :: "i64 \<Rightarrow> hub" where
  "empty_hub hard = \<lparr>h_rooms = [], h_live = [], h_invites = [], h_tickets = [], h_ticks = 0, h_hardDriftMS = hard\<rparr>"

definition add_room :: "room \<Rightarrow> hub \<Rightarrow> hub" where
  "add_room room h =
     (let h = put_room (r_ID room) room h
      in h\<lparr>h_live := (if r_ID room \<in> set (h_live h) then h_live h else h_live h @ [r_ID room]),
           h_invites := set_key (r_InviteCode room) (r_ID room) (h_invites h)\<rparr>)"

definition restore :: "gtime \<Rightarrow> roomSnapshot list \<Rightarrow> hub \<Rightarrow> hub" where
  "restore now rows h = foldl (\<lambda>h s. add_room (restore_room now s) h) h rows"

text \<open>
  The tables, one row per room: \<^verbatim>\<open>saveTx\<close> is an upsert that leaves the item of an existing row
  alone and replaces the row's members.
\<close>

definition saveTx :: "roomSnapshot \<Rightarrow> (string \<times> roomSnapshot) list \<Rightarrow> (string \<times> roomSnapshot) list" where
  "saveTx s db =
     (case map_of db (s_ID s) of
        None \<Rightarrow> set_key (s_ID s) s db
      | Some old \<Rightarrow> set_key (s_ID s) (s\<lparr>s_ItemKind := s_ItemKind old, s_ItemID := s_ItemID old\<rparr>) db)"

definition db_effect :: "(string \<times> roomSnapshot) list \<Rightarrow> effect \<Rightarrow> (string \<times> roomSnapshot) list" where
  "db_effect db e = (case e of SaveRoom s \<Rightarrow> saveTx s db | DeleteRoom rid \<Rightarrow> del_key rid db | _ \<Rightarrow> db)"

text \<open>\<^verbatim>\<open>persistRoom\<close>: the snapshot of the object behind the pointer, in a critical section of its own.\<close>

definition persistRoom :: "party_env \<Rightarrow> string \<Rightarrow> hub \<Rightarrow> effect list" where
  "persistRoom env rid h =
     (if e_DB env then (case deref h rid of None \<Rightarrow> [] | Some room \<Rightarrow> [SaveRoom (snapshotLocked room)]) else [])"

definition save :: "party_env \<Rightarrow> roomSnapshot option \<Rightarrow> effect list" where
  "save env s = (if e_DB env then (case s of None \<Rightarrow> [] | Some s \<Rightarrow> [SaveRoom s]) else [])"

definition deleteRoom :: "party_env \<Rightarrow> string \<Rightarrow> effect list" where
  "deleteRoom env rid = (if e_DB env then [DeleteRoom rid] else [])"

text \<open>\<^verbatim>\<open>broadcast\<close>: the connections that receive a payload are looked up when it is sent.\<close>

definition broadcast :: "string \<Rightarrow> payload option \<Rightarrow> effect list" where
  "broadcast rid pl = (case pl of None \<Rightarrow> [] | Some p \<Rightarrow> [Broadcast rid p])"

definition receivers :: "hub \<Rightarrow> string \<Rightarrow> nat list" where
  "receivers h rid =
     (case find_room h rid of None \<Rightarrow> []
      | Some room \<Rightarrow> List.map_filter (\<lambda>(_, m). m_Conn m) (r_Members room))"

section \<open>Client messages\<close>

record clientMsg =
  c_Type :: string
  c_PositionMS :: i64
  c_Text :: string
  c_Emoji :: string
  c_T0 :: i64
  c_AtServerMS :: i64
  c_Playing :: "bool option"
  c_Buffering :: bool
  c_SharedControl :: "bool option"
  c_Panel :: "string option"

definition plain_msg :: "string \<Rightarrow> i64 \<Rightarrow> clientMsg" where
  "plain_msg typ pos =
     \<lparr>c_Type = typ, c_PositionMS = pos, c_Text = [], c_Emoji = [], c_T0 = 0, c_AtServerMS = 0,
      c_Playing = None, c_Buffering = False, c_SharedControl = None, c_Panel = None\<rparr>"

record outbound =
  o_all :: "payload option"
  o_reply :: "payload option"

definition out_none :: outbound where "out_none = \<lparr>o_all = None, o_reply = None\<rparr>"
definition out_all :: "payload \<Rightarrow> outbound" where "out_all p = \<lparr>o_all = Some p, o_reply = None\<rparr>"
definition out_reply :: "payload \<Rightarrow> outbound" where "out_reply p = \<lparr>o_all = None, o_reply = Some p\<rparr>"

definition is_control :: "string \<Rightarrow> bool" where
  "is_control t \<longleftrightarrow> t \<in> {''start'', ''play'', ''pause'', ''seek''}"

definition control_position :: "clientMsg \<Rightarrow> i64" where
  "control_position msg = (if c_PositionMS msg < 0 then 0 else c_PositionMS msg)"

text \<open>The branch of \<^verbatim>\<open>start\<close>, \<^verbatim>\<open>play\<close>, \<^verbatim>\<open>pause\<close> and \<^verbatim>\<open>seek\<close> for a member who holds control.\<close>

definition apply_control :: "clientMsg \<Rightarrow> gtime \<Rightarrow> room \<Rightarrow> room" where
  "apply_control msg now room =
     (let pos = control_position msg;
          room =
            (if c_Type msg = ''start'' \<or> c_Type msg = ''play'' then room\<lparr>r_Playing := True, r_PositionMS := pos\<rparr>
             else if c_Type msg = ''pause'' then
               (let pos = (if pos = 0 then expectedAt room now else pos)
                in room\<lparr>r_Playing := False, r_PositionMS := pos\<rparr>)
             else room\<lparr>r_PositionMS := pos\<rparr>)
      in all_members (\<lambda>m. m\<lparr>m_Mode := []\<rparr>)
           (room\<lparr>r_Clock := now, r_Seq := r_Seq room + 1, r_hostActionAt := now, r_majDir := 0\<rparr>))"

definition apply_settings :: "clientMsg \<Rightarrow> room \<Rightarrow> room" where
  "apply_settings msg room =
     (let room = (case c_SharedControl msg of None \<Rightarrow> room | Some b \<Rightarrow> room\<lparr>r_SharedControl := b\<rparr>);
          room = (case c_Panel msg of None \<Rightarrow> room
                  | Some p \<Rightarrow> if validPanel p then room\<lparr>r_Panel := p\<rparr> else room)
      in room\<lparr>r_Seq := r_Seq room + 1\<rparr>)"

definition report_of :: "clientMsg \<Rightarrow> gtime \<Rightarrow> report" where
  "report_of msg now =
     \<lparr>rep_PosMS = max (c_PositionMS msg) 0, rep_At = reportTime (c_AtServerMS msg) now, rep_Received = now,
      rep_Playing = (c_Playing msg = None \<or> c_Playing msg = Some True), rep_Buffering = c_Buffering msg\<rparr>"

definition chat_text :: "string \<Rightarrow> string" where
  "chat_text text =
     (if rune_count text > chatMaxRunes then concat (map encode_rune (take chatMaxRunes (runes text))) else text)"

definition add_chat :: "chat_msg \<Rightarrow> room \<Rightarrow> room" where
  "add_chat c room =
     (let cs = r_Chat room @ [c]
      in room\<lparr>r_Chat := (if length cs > chatLimit then drop (length cs - chatLimit) cs else cs)\<rparr>)"

definition inc_reports :: "room \<Rightarrow> room" where
  "inc_reports room = room\<lparr>r_Stats := (r_Stats room)\<lparr>st_Reports := st_Reports (r_Stats room) + 1\<rparr>\<rparr>"

text \<open>The switch of \<^verbatim>\<open>handle\<close>, for a member \<open>m\<close> found under \<open>pid\<close>, with \<^verbatim>\<open>LastSeen\<close> already set.\<close>

definition handle_msg :: "i64 \<Rightarrow> string \<Rightarrow> member \<Rightarrow> clientMsg \<Rightarrow> gtime \<Rightarrow> room
    \<Rightarrow> room \<times> outbound \<times> roomSnapshot option" where
  "handle_msg hard pid m msg now room =
     (let t = c_Type msg in
      if t = ''hello'' then (room, out_reply (stateLocked hard room now), None)
      else if t = ''ping'' then (room, out_reply (Pong (c_T0 msg) (unix_milli now)), None)
      else if t = ''ready'' \<or> t = ''unready'' then
        (let room = put_member pid (m\<lparr>m_Ready := (t = ''ready'')\<rparr>) room
         in (room, out_all (stateLocked hard room now), None))
      else if is_control t then
        (if \<not> canControl room pid then (room, out_reply (stateLocked hard room now), None)
         else (let room = apply_control msg now room;
                   st = (state_payload_of hard room now)\<lparr>sp_reason := Some t, sp_by := Some (m_DisplayName m)\<rparr>
               in (room, out_all (StateMsg st), Some (snapshotLocked room))))
      else if t = ''settings'' then
        (let panel_ok = (case c_Panel msg of None \<Rightarrow> False | Some p \<Rightarrow> validPanel p)
         in if pid \<noteq> r_HostID room \<or> (c_SharedControl msg = None \<and> \<not> panel_ok)
            then (room, out_reply (stateLocked hard room now), None)
            else (let room = apply_settings msg room
                  in (room, out_all (stateLocked hard room now), Some (snapshotLocked room))))
      else if t = ''position'' then
        (let (room, m, reply) = correctLocked hard (inc_reports room) (m\<lparr>m_rep := report_of msg now\<rparr>) now
         in (put_member pid m room, \<lparr>o_all = None, o_reply = reply\<rparr>, None))
      else if t = ''chat'' then
        (let text = trimSpace (c_Text msg)
         in if text = [] then (room, out_none, None)
            else (let text = chat_text text
                  in (add_chat \<lparr>cm_From = m_DisplayName m, cm_Text = text, cm_At = now\<rparr> room,
                      out_all (ChatOut (m_DisplayName m) text), None)))
      else if t = ''reaction'' then
        (let emoji = trimSpace (c_Emoji msg)
         in if emoji = [] \<or> rune_count emoji > 8 then (room, out_none, None)
            else (room, out_all (ReactionOut (m_DisplayName m) emoji), None))
      else (room, out_reply (stateLocked hard room now), None))"

definition handle_room :: "i64 \<Rightarrow> string \<Rightarrow> clientMsg \<Rightarrow> gtime \<Rightarrow> room
    \<Rightarrow> (room \<times> outbound \<times> roomSnapshot option) option" where
  "handle_room hard pid msg now room =
     (case lookup_member room pid of
        None \<Rightarrow> None
      | Some m \<Rightarrow>
          (let m = m\<lparr>m_LastSeen := now\<rparr> in Some (handle_msg hard pid m msg now (put_member pid m room))))"

text \<open>\<^verbatim>\<open>handle\<close>: the answer is None where the code returns false.\<close>

definition handle :: "party_env \<Rightarrow> string \<Rightarrow> string \<Rightarrow> clientMsg \<Rightarrow> gtime \<Rightarrow> hub
    \<Rightarrow> hub \<times> outbound option \<times> effect list" where
  "handle env rid pid msg now h =
     (case find_room h rid of
        None \<Rightarrow> (h, None, [])
      | Some room \<Rightarrow>
          (case handle_room (driftLimit h) pid msg now room of
             None \<Rightarrow> (h, None, [])
           | Some (room', out, snap) \<Rightarrow> (put_room rid room' h, Some out, save env snap)))"

text \<open>\<^verbatim>\<open>Apply\<close>: the broadcast if there is one, else the reply.\<close>

definition Apply :: "party_env \<Rightarrow> string \<Rightarrow> string \<Rightarrow> string \<Rightarrow> i64 \<Rightarrow> string \<Rightarrow> string \<Rightarrow> gtime \<Rightarrow> hub
    \<Rightarrow> hub \<times> payload option \<times> bool \<times> effect list" where
  "Apply env rid pid typ pos text emoji now h =
     (case handle env rid pid ((plain_msg typ pos)\<lparr>c_Text := text, c_Emoji := emoji, c_Playing := Some True\<rparr>) now h of
        (h, None, es) \<Rightarrow> (h, None, False, es)
      | (h, Some out, es) \<Rightarrow> (h, (if o_all out \<noteq> None then o_all out else o_reply out), True, es))"

text \<open>\<^verbatim>\<open>Control\<close>: the check and the position are read first, then the message is handled.\<close>

definition Control_check :: "string \<Rightarrow> string \<Rightarrow> gtime \<Rightarrow> hub \<Rightarrow> i64 option" where
  "Control_check rid pid now h =
     (case find_room h rid of
        None \<Rightarrow> None
      | Some room \<Rightarrow>
          if lookup_member room pid \<noteq> None \<and> canControl room pid then Some (expectedAt room now) else None)"

definition Control :: "party_env \<Rightarrow> string \<Rightarrow> string \<Rightarrow> string \<Rightarrow> gtime \<Rightarrow> hub \<Rightarrow> hub \<times> bool \<times> effect list" where
  "Control env rid pid action now h =
     (if action \<noteq> ''play'' \<and> action \<noteq> ''pause'' then (h, False, [])
      else (case Control_check rid pid now h of
              None \<Rightarrow> (h, False, [])
            | Some pos \<Rightarrow>
                (case handle env rid pid (plain_msg action pos) now h of
                   (h, None, es) \<Rightarrow> (h, False, es)
                 | (h, Some out, es) \<Rightarrow> (h, True, es @ broadcast rid (o_all out)))))"

section \<open>Admission\<close>

definition room_has_item :: "room \<Rightarrow> string \<Rightarrow> string \<Rightarrow> bool" where
  "room_has_item room kind iid \<longleftrightarrow>
     (r_ItemKind room = kind \<and> r_ItemID room = iid) \<or>
     list_ex (\<lambda>q. q_ItemKind q = kind \<and> q_ItemID q = iid) (r_Queue room)"

definition PartyAccess :: "string \<Rightarrow> string \<Rightarrow> string \<Rightarrow> hub \<Rightarrow> bool" where
  "PartyAccess pid kind iid h =
     list_ex (\<lambda>rid. case find_room h rid of
         None \<Rightarrow> False
       | Some room \<Rightarrow> lookup_member room pid \<noteq> None \<and> room_has_item room kind iid) (h_live h)"

text \<open>\<^verbatim>\<open>authorize\<close>: True where the code returns a nil error.\<close>

definition authorize :: "party_env \<Rightarrow> hub \<Rightarrow> principal option \<Rightarrow> string \<Rightarrow> string \<Rightarrow> bool" where
  "authorize env h p kind iid =
     (case p of None \<Rightarrow> False
      | Some q \<Rightarrow>
          if IsUser p \<and> p_PartyOnly q then PartyAccess (ID p) kind iid h
          else if IsUser p then
            (case e_Locator env of
               None \<Rightarrow> True
             | Some locate \<Rightarrow>
                 (case locate kind iid of
                    None \<Rightarrow> False
                  | Some lib \<Rightarrow>
                      if (case e_Permitted env of None \<Rightarrow> False | Some ok \<Rightarrow> \<not> ok (p_UserID q) kind iid) then False
                      else if p_IsAdmin q then True
                      else (case e_Grants env of None \<Rightarrow> True | Some can \<Rightarrow> can (p_UserID q) lib)))
          else if IsGuest p then
            (if p_MediaKind q \<noteq> kind \<or> p_MediaID q \<noteq> iid then False
             else e_CanStream env (p_GuestSessionID q) kind iid)
          else False)"

definition new_room :: "party_env \<Rightarrow> principal \<Rightarrow> string \<Rightarrow> string \<Rightarrow> string \<Rightarrow> string \<Rightarrow> gtime \<Rightarrow> room" where
  "new_room env p kind iid rid code now =
     \<lparr>r_ID = rid, r_InviteCode = code, r_ItemKind = kind, r_ItemID = iid,
      r_SharePath =
        (if IsGuest (Some p) then
           (let tok = e_ShareToken env (p_GuestSessionID p)
            in if tok \<noteq> [] then ''/s/'' @ tok @ ''/together/'' @ code else ''/s/'')
         else []),
      r_HostID = ID (Some p), r_OwnerID = ID (Some p), r_Playing = False, r_PositionMS = 0, r_Clock = now,
      r_Seq = 0, r_Members = [], r_Chat = [], r_Queue = [], r_IntermissionUntil = 0, r_Votes = [],
      r_SharedControl = False, r_Panel = [], r_Banned = [], r_EmptySince = 0, r_Stats = no_stats,
      r_hostActionAt = 0, r_majDir = 0, r_majSince = 0\<rparr>"

text \<open>The room's ID (\<^verbatim>\<open>uuid.NewString\<close>) and invite code (\<^verbatim>\<open>randomCode(8)\<close>) are arguments.\<close>

definition Create :: "party_env \<Rightarrow> principal option \<Rightarrow> string \<Rightarrow> string \<Rightarrow> string \<Rightarrow> string \<Rightarrow> gtime \<Rightarrow> hub
    \<Rightarrow> hub \<times> string option \<times> effect list" where
  "Create env p kind iid rid code now h =
     (case p of None \<Rightarrow> (h, None, [])
      | Some q \<Rightarrow>
          if p_PartyOnly q then (h, None, [])
          else if \<not> authorize env h p kind iid then (h, None, [])
          else (let room = addMember q now (new_room env q kind iid rid code now);
                    h = add_room room h
                in (h, Some rid, persistRoom env rid h)))"

definition Join_lookup :: "principal option \<Rightarrow> string \<Rightarrow> hub \<Rightarrow> string option" where
  "Join_lookup p code h =
     (let rid = (case map_of (h_invites h) code of None \<Rightarrow> [] | Some rid \<Rightarrow> rid)
      in case find_room h rid of
           None \<Rightarrow> None
         | Some room \<Rightarrow> if p \<noteq> None \<and> banned room (ID p) then None else Some rid)"

definition admit :: "string \<Rightarrow> principal \<Rightarrow> gtime \<Rightarrow> hub \<Rightarrow> hub" where
  "admit rid q now h = (case deref h rid of None \<Rightarrow> h | Some room \<Rightarrow> put_room rid (addMember q now room) h)"

definition Join :: "party_env \<Rightarrow> principal option \<Rightarrow> string \<Rightarrow> gtime \<Rightarrow> hub
    \<Rightarrow> hub \<times> string option \<times> effect list" where
  "Join env p code now h =
     (case Join_lookup p code h of
        None \<Rightarrow> (h, None, [])
      | Some rid \<Rightarrow>
          (case (p, deref h rid) of
             (Some q, Some room) \<Rightarrow>
               if IsUser p \<and> p_PartyOnly q \<or> authorize env h p (r_ItemKind room) (r_ItemID room)
               then (let h = admit rid q now h in (h, Some rid, persistRoom env rid h))
               else (h, None, [])
           | _ \<Rightarrow> (h, None, [])))"

definition ReclaimOwner_lookup :: "principal \<Rightarrow> string \<Rightarrow> hub \<Rightarrow> bool" where
  "ReclaimOwner_lookup q rid h =
     (case find_room h rid of
        None \<Rightarrow> False
      | Some room \<Rightarrow> r_OwnerID room \<noteq> [] \<and> r_OwnerID room = ID (Some q) \<and> \<not> banned room (ID (Some q)))"

definition ReclaimOwner :: "party_env \<Rightarrow> principal option \<Rightarrow> string \<Rightarrow> gtime \<Rightarrow> hub
    \<Rightarrow> hub \<times> bool \<times> effect list" where
  "ReclaimOwner env p rid now h =
     (case (p, find_room h rid) of
        (Some q, Some room) \<Rightarrow>
          if \<not> IsUser p \<or> p_PartyOnly q then (h, False, [])
          else if \<not> ReclaimOwner_lookup q rid h \<or> \<not> authorize env h p (r_ItemKind room) (r_ItemID room)
          then (h, False, [])
          else (let h = admit rid q now h in (h, True, persistRoom env rid h))
      | _ \<Rightarrow> (h, False, []))"

text \<open>The second critical section of \<^verbatim>\<open>HandOver\<close>: the new owner, and the state to broadcast.\<close>

definition HandOver_commit :: "principal \<Rightarrow> string \<Rightarrow> gtime \<Rightarrow> hub \<Rightarrow> hub \<times> payload option \<times> bool" where
  "HandOver_commit q rid now h =
     (case find_room h rid of
        None \<Rightarrow> (h, None, False)
      | Some room \<Rightarrow>
          (let pid = ID (Some q);
               room = room\<lparr>r_OwnerID := pid\<rparr>
           in if lookup_member room pid \<noteq> None \<and> r_HostID room \<noteq> pid
              then (let room = room\<lparr>r_HostID := pid\<rparr>
                    in (put_room rid room h, Some (stateLocked (driftLimit h) room now), True))
              else (put_room rid room h, None, True)))"

definition HandOver :: "party_env \<Rightarrow> principal option \<Rightarrow> string \<Rightarrow> gtime \<Rightarrow> hub \<Rightarrow> hub \<times> bool \<times> effect list" where
  "HandOver env p rid now h =
     (case (p, find_room h rid) of
        (Some q, Some room) \<Rightarrow>
          if \<not> IsUser p \<or> p_PartyOnly q \<or> banned room (ID p) \<or> \<not> authorize env h p (r_ItemKind room) (r_ItemID room)
          then (h, False, [])
          else (case HandOver_commit q rid now h of
                  (h, _, False) \<Rightarrow> (h, False, [])
                | (h, st, True) \<Rightarrow> (h, True, persistRoom env rid h @ broadcast rid st))
      | _ \<Rightarrow> (h, False, []))"

text \<open>\<^verbatim>\<open>randomCode\<close> on the bytes of the random source.\<close>

definition code_alphabet :: string where
  "code_alphabet = ''ABCDEFGHJKLMNPQRSTUVWXYZ23456789''"

definition randomCode :: "nat list \<Rightarrow> string" where
  "randomCode bs = map (\<lambda>b. code_alphabet ! (b mod length code_alphabet)) bs"

section \<open>Tickets and connections\<close>

text \<open>The ticket's text (\<^verbatim>\<open>randomHex(24)\<close>) is an argument; \<open>None\<close> is a failing random source.\<close>

definition MintTicket :: "party_env \<Rightarrow> principal option \<Rightarrow> string \<Rightarrow> string option \<Rightarrow> gtime \<Rightarrow> hub
    \<Rightarrow> hub \<times> string option" where
  "MintTicket env p rid raw now h =
     (case (p, find_room h rid) of
        (Some q, Some room) \<Rightarrow>
          if banned room (ID p) \<or> \<not> authorize env h p (r_ItemKind room) (r_ItemID room) then (h, None)
          else (case raw of None \<Rightarrow> (h, None)
                | Some tok \<Rightarrow>
                    (h\<lparr>h_tickets := set_key tok
                        \<lparr>t_RoomID = rid, t_PrincipalID = ID p, t_GuestSessionID = p_GuestSessionID q,
                         t_Exp = now + ticketTTL\<rparr> (h_tickets h)\<rparr>, Some tok))
      | _ \<Rightarrow> (h, None))"

definition CheckGate :: "party_env \<Rightarrow> room \<Rightarrow> principal option \<Rightarrow> bool" where
  "CheckGate env room p =
     (case p of None \<Rightarrow> True
      | Some q \<Rightarrow> \<not> IsGuest p \<or> e_CanStream env (p_GuestSessionID q) (r_ItemKind room) (r_ItemID room))"

text \<open>The checks of \<^verbatim>\<open>handleWS\<close> before the upgrade; \<open>origin\<close> is the verdict of \<^verbatim>\<open>AllowOrigin\<close>.\<close>

definition ws_admitted :: "party_env \<Rightarrow> bool \<Rightarrow> principal option \<Rightarrow> string \<Rightarrow> string \<Rightarrow> gtime \<Rightarrow> hub \<Rightarrow> bool" where
  "ws_admitted env origin p rid tok now h =
     (origin \<and>
      (case (map_of (h_tickets h) tok, p, find_room h rid) of
         (Some t, Some q, Some room) \<Rightarrow>
           \<not> now > t_Exp t \<and> t_RoomID t = rid \<and> t_PrincipalID t = ID p \<and> CheckGate env room p
       | _ \<Rightarrow> False))"

definition ws_attach :: "string \<Rightarrow> string \<Rightarrow> nat \<Rightarrow> gtime \<Rightarrow> hub \<Rightarrow> hub" where
  "ws_attach rid pid c now h =
     (case deref h rid of
        None \<Rightarrow> h
      | Some room \<Rightarrow>
          (case lookup_member room pid of
             None \<Rightarrow> h
           | Some m \<Rightarrow> put_room rid (put_member pid (m\<lparr>m_Conn := Some c, m_LastSeen := now\<rparr>) room) h))"

definition Presence_of :: "string \<Rightarrow> gtime \<Rightarrow> hub \<Rightarrow> payload option" where
  "Presence_of rid now h =
     (case find_room h rid of None \<Rightarrow> None | Some room \<Rightarrow> Some (presenceLocked (driftLimit h) room now))"

text \<open>Opening a connection \<open>c\<close>: checks, attachment, greeting.\<close>

definition ws_open :: "party_env \<Rightarrow> bool \<Rightarrow> principal option \<Rightarrow> string \<Rightarrow> string \<Rightarrow> nat \<Rightarrow> gtime \<Rightarrow> hub
    \<Rightarrow> hub \<times> bool \<times> effect list" where
  "ws_open env origin p rid tok c now h =
     (if \<not> ws_admitted env origin p rid tok now h then (h, False, [])
      else (let h = ws_attach rid (ID p) c now h in
            case handle env rid (ID p) (plain_msg ''hello'' 0) now h of
              (h, None, es) \<Rightarrow> (h, True, es)
            | (h, Some out, es) \<Rightarrow>
                (h, True, es @ (case o_reply out of None \<Rightarrow> [] | Some pl \<Rightarrow> [SendTo c pl])
                            @ broadcast rid (Presence_of rid now h))))"

definition ws_close :: "string \<Rightarrow> string \<Rightarrow> nat \<Rightarrow> gtime \<Rightarrow> hub \<Rightarrow> hub \<times> effect list" where
  "ws_close rid pid c now h =
     (let h =
        (case deref h rid of
           None \<Rightarrow> h
         | Some room \<Rightarrow>
             (case lookup_member room pid of
                None \<Rightarrow> h
              | Some m \<Rightarrow> if m_Conn m = Some c then put_room rid (put_member pid (m\<lparr>m_Conn := None\<rparr>) room) h else h))
      in (h, broadcast rid (Presence_of rid now h)))"

section \<open>Removal\<close>

definition drop_guest :: "string \<Rightarrow> room \<Rightarrow> room" where
  "drop_guest gs room =
     foldl (\<lambda>r (mid, m). if m_GuestSessionID m = gs then dropLocked mid r else r) room (r_Members room)"

definition guest_conns :: "string \<Rightarrow> room \<Rightarrow> nat list" where
  "guest_conns gs room =
     List.map_filter (\<lambda>(_, m). if m_GuestSessionID m = gs then m_Conn m else None) (r_Members room)"

definition KickGuest :: "string \<Rightarrow> hub \<Rightarrow> hub \<times> effect list" where
  "KickGuest gs h =
     foldl (\<lambda>(h, es) rid. case find_room h rid of
         None \<Rightarrow> (h, es)
       | Some room \<Rightarrow> (put_room rid (drop_guest gs room) h, es @ map CloseConn (guest_conns gs room)))
       (h, []) (h_live h)"

definition KickRemoved :: string where "KickRemoved = ''removed_by_admin''"
definition KickEnded :: string where "KickEnded = ''party_ended''"

definition kick_room :: "string \<Rightarrow> bool \<Rightarrow> room \<Rightarrow> room" where
  "kick_room mid ban room =
     (let room' = (if ban then room\<lparr>r_Banned := set_key mid True (r_Banned room)\<rparr> else room)
      in case lookup_member room' mid of
           None \<Rightarrow> room'
         | Some m \<Rightarrow> (let r = dropLocked mid room' in r\<lparr>r_Seq := r_Seq r + 1\<rparr>))"

definition kick_farewell :: "string \<Rightarrow> member option \<Rightarrow> effect list" where
  "kick_farewell code m =
     (case m of None \<Rightarrow> []
      | Some m \<Rightarrow> (case m_Conn m of None \<Rightarrow> [] | Some c \<Rightarrow> [SendTo c (Kicked code), CloseConn c]))"

text \<open>False is \<^verbatim>\<open>ErrNotFound\<close>.\<close>

definition Kick :: "party_env \<Rightarrow> string \<Rightarrow> string \<Rightarrow> bool \<Rightarrow> gtime \<Rightarrow> hub \<Rightarrow> hub \<times> bool \<times> effect list" where
  "Kick env rid mid ban now h =
     (case find_room h rid of
        None \<Rightarrow> (h, False, [])
      | Some room \<Rightarrow>
          if lookup_member room mid = None \<and> \<not> ban then (h, False, [])
          else (let room' = kick_room mid ban room
                in (put_room rid room' h, True,
                    kick_farewell KickRemoved (lookup_member room mid)
                    @ save env (Some (snapshotLocked room'))
                    @ broadcast rid (Some (stateLocked (driftLimit h) room' now)))))"

definition EndRoom :: "party_env \<Rightarrow> string \<Rightarrow> hub \<Rightarrow> hub \<times> bool \<times> effect list" where
  "EndRoom env rid h =
     (case find_room h rid of
        None \<Rightarrow> (h, False, [])
      | Some room \<Rightarrow>
          (unlink_room rid room h, True,
           concat (map (\<lambda>(_, m). kick_farewell KickEnded (Some m)) (r_Members room)) @ deleteRoom env rid))"

text \<open>
  One message on an open connection: a guest whose share was revoked is removed, an
  unparsable message (\<open>None\<close>) is skipped, and a sender who is no member is told so. The
  second component says whether the connection stays open. The room is the one found when
  the connection was opened.
\<close>

definition ws_message :: "party_env \<Rightarrow> principal \<Rightarrow> string \<Rightarrow> nat \<Rightarrow> clientMsg option \<Rightarrow> gtime \<Rightarrow> hub
    \<Rightarrow> hub \<times> bool \<times> effect list" where
  "ws_message env q rid c msg now h =
     (case deref h rid of
        None \<Rightarrow> (h, False, [])
      | Some room \<Rightarrow>
          if IsGuest (Some q) \<and> \<not> CheckGate env room (Some q) then
            (let (h, es) = KickGuest (p_GuestSessionID q) h
             in (h, False, SendTo c (Kicked ''share_revoked'') # es))
          else (case msg of
                  None \<Rightarrow> (h, True, [])
                | Some msg \<Rightarrow>
                    (case handle env rid (ID (Some q)) msg now h of
                       (h, None, es) \<Rightarrow> (h, False, es @ [SendTo c (Kicked ''not_member'')])
                     | (h, Some out, es) \<Rightarrow>
                         (h, True, es @ (case o_reply out of None \<Rightarrow> [] | Some pl \<Rightarrow> [SendTo c pl])
                                     @ broadcast rid (o_all out)))))"

section \<open>The tick\<close>

definition connected :: "room \<Rightarrow> bool" where
  "connected room \<longleftrightarrow> list_ex (\<lambda>(_, m). m_Conn m \<noteq> None) (r_Members room)"

definition drop_expired :: "gtime \<Rightarrow> room \<Rightarrow> room" where
  "drop_expired now room =
     foldl (\<lambda>r (mid, m). if time_sub now (m_LastSeen m) > memberLease then dropLocked mid r else r)
       room (r_Members room)"

definition rotate_host :: "gtime \<Rightarrow> room \<Rightarrow> room" where
  "rotate_host now room =
     (if r_HostID room = [] then room
      else (case lookup_member room (r_HostID room) of
              None \<Rightarrow> promoteLocked room
            | Some host \<Rightarrow> if time_sub now (m_LastSeen host) > hostGrace then promoteLocked room else room))"

datatype tick_verdict = Keep | Remove | Realigned payload roomSnapshot | Announce payload

definition tick_room :: "i64 \<Rightarrow> bool \<Rightarrow> gtime \<Rightarrow> room \<Rightarrow> room \<times> tick_verdict" where
  "tick_room hard announce now room =
     (let room = rotate_host now (drop_expired now room) in
      if r_Members room = [] then
        (if r_EmptySince room = 0 then (room\<lparr>r_EmptySince := now\<rparr>, Keep)
         else if time_sub now (r_EmptySince room) > emptyRoomTTL then (room, Remove)
         else (room, Keep))
      else
        (let room = room\<lparr>r_EmptySince := 0\<rparr>
         in case realignLocked hard room now of
              (room, True) \<Rightarrow>
                (room, Realigned (StateMsg ((state_payload_of hard room now)\<lparr>sp_reason := Some ''majority''\<rparr>))
                         (snapshotLocked room))
            | (room, False) \<Rightarrow>
                (room, if announce \<and> connected room then Announce (presenceLocked hard room now) else Keep)))"

record tick_out =
  k_snaps :: "roomSnapshot list"
  k_gone :: "string list"
  k_sends :: "(string \<times> payload) list"

definition tick_one :: "i64 \<Rightarrow> bool \<Rightarrow> gtime \<Rightarrow> hub \<times> tick_out \<Rightarrow> string \<Rightarrow> hub \<times> tick_out" where
  "tick_one hard announce now st rid =
     (let (h, out) = st in
      case find_room h rid of
        None \<Rightarrow> (h, out)
      | Some room \<Rightarrow>
          (case tick_room hard announce now room of
             (room, Keep) \<Rightarrow> (put_room rid room h, out)
           | (room, Remove) \<Rightarrow> (unlink_room rid room (put_room rid room h), out\<lparr>k_gone := k_gone out @ [rid]\<rparr>)
           | (room, Realigned pl s) \<Rightarrow>
               (put_room rid room h, out\<lparr>k_sends := k_sends out @ [(rid, pl)], k_snaps := k_snaps out @ [s]\<rparr>)
           | (room, Announce pl) \<Rightarrow> (put_room rid room h, out\<lparr>k_sends := k_sends out @ [(rid, pl)]\<rparr>)))"

definition tick :: "party_env \<Rightarrow> gtime \<Rightarrow> hub \<Rightarrow> hub \<times> effect list" where
  "tick env now h =
     (let h = h\<lparr>h_ticks := h_ticks h + 1, h_tickets := filter (\<lambda>(_, t). \<not> now > t_Exp t) (h_tickets h)\<rparr>;
          (h', out) = foldl (tick_one (driftLimit h) (h_ticks h mod 2 = 0) now)
             (h, \<lparr>k_snaps = [], k_gone = [], k_sends = []\<rparr>) (h_live h)
      in (h', concat (map (\<lambda>s. save env (Some s)) (k_snaps out)) @ concat (map (deleteRoom env) (k_gone out))
              @ map (\<lambda>(rid, pl). Broadcast rid pl) (k_sends out)))"

section \<open>Cinema: queue, votes, intermission\<close>

datatype 'a reply = Denied | BadRequest | Answer 'a

definition State_of :: "string \<Rightarrow> gtime \<Rightarrow> hub \<Rightarrow> payload option" where
  "State_of rid now h =
     (case find_room h rid of None \<Rightarrow> None | Some room \<Rightarrow> Some (stateLocked (driftLimit h) room now))"

definition publish :: "party_env \<Rightarrow> string \<Rightarrow> gtime \<Rightarrow> hub \<Rightarrow> hub \<times> payload option reply \<times> effect list" where
  "publish env rid now h = (h, Answer (State_of rid now h), persistRoom env rid h @ broadcast rid (State_of rid now h))"

definition hostRoom :: "principal option \<Rightarrow> string \<Rightarrow> hub \<Rightarrow> room option" where
  "hostRoom p rid h =
     (case find_room h rid of
        None \<Rightarrow> None | Some room \<Rightarrow> if p \<noteq> None \<and> ID p = r_HostID room then Some room else None)"

definition memberRoom :: "principal option \<Rightarrow> string \<Rightarrow> hub \<Rightarrow> room option" where
  "memberRoom p rid h =
     (if p = None then None
      else (case find_room h rid of
              None \<Rightarrow> None | Some room \<Rightarrow> if lookup_member room (ID p) \<noteq> None then Some room else None))"

text \<open>Request bodies are decoded already; \<open>None\<close> is a body that does not parse.\<close>

definition handleQueue :: "party_env \<Rightarrow> principal option \<Rightarrow> string \<Rightarrow> queue_item option \<Rightarrow> gtime \<Rightarrow> hub
    \<Rightarrow> hub \<times> payload option reply \<times> effect list" where
  "handleQueue env p rid body now h =
     (case hostRoom p rid h of
        None \<Rightarrow> (h, Denied, [])
      | Some room \<Rightarrow>
          (case body of
             None \<Rightarrow> (h, BadRequest, [])
           | Some item \<Rightarrow>
               if q_ItemKind item = [] \<or> q_ItemID item = [] then (h, BadRequest, [])
               else if \<not> authorize env h p (q_ItemKind item) (q_ItemID item) then (h, Denied, [])
               else publish env rid now
                      (put_room rid (room\<lparr>r_Queue := r_Queue room @ [item], r_Seq := r_Seq room + 1\<rparr>) h)))"

definition add_vote :: "string \<Rightarrow> string \<Rightarrow> room \<Rightarrow> room" where
  "add_vote item pid room =
     (let vs = (case map_of (r_Votes room) item of None \<Rightarrow> [] | Some vs \<Rightarrow> vs)
      in room\<lparr>r_Votes := set_key item (set_key pid True vs) (r_Votes room), r_Seq := r_Seq room + 1\<rparr>)"

definition handleVote :: "party_env \<Rightarrow> principal option \<Rightarrow> string \<Rightarrow> string option \<Rightarrow> gtime \<Rightarrow> hub
    \<Rightarrow> hub \<times> payload option reply \<times> effect list" where
  "handleVote env p rid body now h =
     (case memberRoom p rid h of
        None \<Rightarrow> (h, Denied, [])
      | Some room \<Rightarrow>
          (case body of
             None \<Rightarrow> (h, BadRequest, [])
           | Some item \<Rightarrow>
               if item = [] then (h, BadRequest, [])
               else publish env rid now (put_room rid (add_vote item (ID p) room) h)))"

definition handleIntermission :: "party_env \<Rightarrow> principal option \<Rightarrow> string \<Rightarrow> int option \<Rightarrow> gtime \<Rightarrow> hub
    \<Rightarrow> hub \<times> payload option reply \<times> effect list" where
  "handleIntermission env p rid body now h =
     (case hostRoom p rid h of
        None \<Rightarrow> (h, Denied, [])
      | Some room \<Rightarrow>
          (case body of
             None \<Rightarrow> (h, BadRequest, [])
           | Some secs \<Rightarrow>
               if secs < 0 \<or> secs > 3600 then (h, BadRequest, [])
               else publish env rid now
                      (put_room rid (room\<lparr>r_IntermissionUntil := (if secs = 0 then 0 else now + seconds secs),
                         r_Seq := r_Seq room + 1\<rparr>) h)))"

section \<open>Listings\<close>

definition live_rooms :: "hub \<Rightarrow> room list" where
  "live_rooms h = List.map_filter (find_room h) (h_live h)"

record room_summary =
  rs_ID :: string
  rs_ItemKind :: string
  rs_ItemID :: string
  rs_Members :: nat
  rs_Playing :: bool

definition Rooms :: "hub \<Rightarrow> room_summary list" where
  "Rooms h = map (\<lambda>r. \<lparr>rs_ID = r_ID r, rs_ItemKind = r_ItemKind r, rs_ItemID = r_ItemID r,
       rs_Members = length (r_Members r), rs_Playing = r_Playing r\<rparr>)
     (filter (\<lambda>r. r_Members r \<noteq> []) (live_rooms h))"

record sync_snapshot =
  ss_rooms :: nat
  ss_members :: nat
  ss_connected :: nat
  ss_max_drift_ms :: i64
  ss_target_ms :: i64
  ss_hard_ms :: i64
  ss_stats :: sync_stats
  ss_server_ms :: i64

definition add_stats :: "sync_stats \<Rightarrow> sync_stats \<Rightarrow> sync_stats" where
  "add_stats a b = \<lparr>st_Reports = st_Reports a + st_Reports b,
     st_RateCorrections = st_RateCorrections a + st_RateCorrections b,
     st_Seeks = st_Seeks a + st_Seeks b, st_Realigns = st_Realigns a + st_Realigns b\<rparr>"

definition SyncSnapshot :: "gtime \<Rightarrow> hub \<Rightarrow> sync_snapshot" where
  "SyncSnapshot now h =
     (let rs = live_rooms h; ms = concat (map (\<lambda>r. map snd (r_Members r)) rs)
      in \<lparr>ss_rooms = length rs, ss_members = length ms,
          ss_connected = length (filter (\<lambda>m. m_Conn m \<noteq> None) ms),
          ss_max_drift_ms = foldl (\<lambda>w m. if eligible m now then max w (abs64 (m_DriftMS m)) else w) 0 ms,
          ss_target_ms = syncTargetMS, ss_hard_ms = driftLimit h,
          ss_stats = foldl (\<lambda>s r. add_stats s (r_Stats r)) no_stats rs, ss_server_ms = unix_milli now\<rparr>)"

record admin_member =
  am_ID :: string
  am_Kind :: string
  am_DisplayName :: string
  am_Host :: bool
  am_Owner :: bool
  am_Connected :: bool
  am_Ready :: bool
  am_Buffering :: bool
  am_DriftMS :: i64
  am_LastSeen :: gtime

record admin_room =
  ar_ID :: string
  ar_InviteCode :: string
  ar_ItemKind :: string
  ar_ItemID :: string
  ar_Playing :: bool
  ar_PositionMS :: i64
  ar_SharedControl :: bool
  ar_Panel :: string
  ar_Banned :: nat
  ar_Members :: "admin_member list"

definition admin_room_of :: "gtime \<Rightarrow> room \<Rightarrow> admin_room" where
  "admin_room_of now room =
     \<lparr>ar_ID = r_ID room, ar_InviteCode = r_InviteCode room, ar_ItemKind = r_ItemKind room,
      ar_ItemID = r_ItemID room, ar_Playing = r_Playing room, ar_PositionMS = expectedAt room now,
      ar_SharedControl = r_SharedControl room, ar_Panel = normalPanel (r_Panel room),
      ar_Banned = length (r_Banned room),
      ar_Members = sort_key am_DisplayName (map (\<lambda>(_, m).
        \<lparr>am_ID = m_ID m, am_Kind = m_Kind m, am_DisplayName = m_DisplayName m, am_Host = (m_ID m = r_HostID room),
         am_Owner = (m_ID m = r_OwnerID room), am_Connected = (m_Conn m \<noteq> None), am_Ready = m_Ready m,
         am_Buffering = rep_Buffering (m_rep m), am_DriftMS = m_DriftMS m, am_LastSeen = m_LastSeen m\<rparr>)
        (r_Members room))\<rparr>"

definition AdminRooms :: "gtime \<Rightarrow> hub \<Rightarrow> admin_room list" where
  "AdminRooms now h =
     sort_key (\<lambda>r. (- int (length (ar_Members r)), ar_ID r)) (map (admin_room_of now) (live_rooms h))"

text \<open>What a caller learns from an invite code.\<close>

record invite_view =
  iv_needs_auth :: bool
  iv_needs_share :: bool
  iv_code :: string
  iv_room :: "(string \<times> string \<times> string) option"
  iv_share_path :: "string option"

definition Invite :: "string \<Rightarrow> hub \<Rightarrow> room option" where
  "Invite code h = find_room h (case map_of (h_invites h) code of None \<Rightarrow> [] | Some rid \<Rightarrow> rid)"

definition handleInvite :: "principal option \<Rightarrow> string \<Rightarrow> hub \<Rightarrow> invite_view option" where
  "handleInvite p code h =
     (case Invite code h of
        None \<Rightarrow> None
      | Some room \<Rightarrow> Some
         \<lparr>iv_needs_auth = (r_SharePath room = [] \<and> \<not> IsUser p),
          iv_needs_share = (r_SharePath room \<noteq> [] \<and> \<not> IsGuest p),
          iv_code = r_InviteCode room,
          iv_room = (if IsUser p \<or> IsGuest p then Some (r_ID room, r_ItemKind room, r_ItemID room) else None),
          iv_share_path = (if r_SharePath room \<noteq> [] then Some (r_SharePath room) else None)\<rparr>)"

end
