(* ===== verification/Party_Ops.thy ===== *)
theory Party_Ops
  imports Party_Hub
begin

text \<open>
  What every operation does to one room: it keeps the room invariant, and the room \<open>evolves\<close>:
  its identity stays, bans are never lifted, and the shared timeline changes only together
  with a larger sequence number. The locale \<open>room_operation\<close> states that contract and draws
  its consequences for the hub; each operation of the code is an interpretation of it.
\<close>

section \<open>The contract of an operation on one room\<close>

definition room_evolves :: "room \<Rightarrow> room \<Rightarrow> bool" where
  "room_evolves a b \<longleftrightarrow>
     r_ID b = r_ID a \<and> r_InviteCode b = r_InviteCode a \<and> r_ItemKind b = r_ItemKind a \<and> r_ItemID b = r_ItemID a \<and>
     (\<forall>k. banned a k \<longrightarrow> banned b k) \<and>
     (timeline b = timeline a \<or> r_Seq a < r_Seq b)"

lemma timeline_seq: "timeline b = timeline a \<Longrightarrow> r_Seq b = r_Seq a"
  by (simp add: timeline_def)

lemma room_evolves_refl [simp]: "room_evolves a a"
  by (simp add: room_evolves_def)

lemma room_evolves_trans: "room_evolves a b \<Longrightarrow> room_evolves b c \<Longrightarrow> room_evolves a c"
  by (force simp: room_evolves_def dest: timeline_seq)

lemma room_evolves_seq: "room_evolves a b \<Longrightarrow> r_Seq a \<le> r_Seq b"
  by (auto simp: room_evolves_def dest: timeline_seq)

text \<open>Writes of one field that leave identity, bans and the timeline alone, or move \<^verbatim>\<open>Seq\<close> on.\<close>

lemma room_evolves_fields [simp]:
  "room_evolves a (b\<lparr>r_Members := ms\<rparr>) = room_evolves a b"
  "room_evolves a (b\<lparr>r_HostID := hid\<rparr>) = room_evolves a b"
  "room_evolves a (b\<lparr>r_OwnerID := oid\<rparr>) = room_evolves a b"
  "room_evolves a (b\<lparr>r_Chat := cs\<rparr>) = room_evolves a b"
  "room_evolves a (b\<lparr>r_Stats := st\<rparr>) = room_evolves a b"
  "room_evolves a (b\<lparr>r_EmptySince := t\<rparr>) = room_evolves a b"
  "room_evolves a (b\<lparr>r_majDir := d\<rparr>) = room_evolves a b"
  "room_evolves a (b\<lparr>r_majSince := t\<rparr>) = room_evolves a b"
  "room_evolves a (b\<lparr>r_hostActionAt := t\<rparr>) = room_evolves a b"
  by (auto simp: room_evolves_def timeline_def banned_def)

lemma room_evolves_put [simp]: "room_evolves a (put_member k m b) = room_evolves a b"
  by (simp add: room_evolves_def put_member_def timeline_def banned_def)

lemma room_evolves_all [simp]: "room_evolves a (all_members f b) = room_evolves a b"
  by (simp add: room_evolves_def all_members_def timeline_def banned_def)

lemma promote_evolves: "room_evolves a (promoteLocked a)"
  by (simp add: promoteLocked_def split: option.split)

lemma drop_evolves: "room_evolves a (dropLocked k a)"
  by (auto simp: dropLocked_def Let_def intro: room_evolves_trans [OF _ promote_evolves] split: option.split)

lemma addMember_evolves: "room_evolves a (addMember p now a)"
  by (simp add: addMember_def Let_def)

lemma realign_evolves: "room_evolves a (fst (realignLocked hard a now))"
proof (cases rule: realign_cases [of hard a now])
  case 1
  then show ?thesis by (simp add: room_evolves_def realigned_def all_members_def banned_def)
next
  case (2 d s)
  then show ?thesis by (simp add: room_evolves_def timeline_def banned_def)
qed

lemma correct_evolves: "room_evolves a (fst (correctLocked hard a m now))"
  using correct_room [of hard a m now]
  by (auto simp: inc_seeks_def inc_rates_def)

lemma correct_room_ok: "room_ok (fst (correctLocked hard a m now)) = room_ok a"
  using correct_room [of hard a m now] by (auto simp: inc_seeks_def inc_rates_def)

lemma correct_member_ID: "m_ID (fst (snd (correctLocked hard a m now))) = m_ID m"
  using correct_member [of hard a m now] by auto

lemma correct_members: "r_Members (fst (correctLocked hard a m now)) = r_Members a"
  using correct_room [of hard a m now] by auto

section \<open>Messages\<close>

lemma apply_control_evolves: "room_evolves a (apply_control msg now a)"
  by (simp add: apply_control_def room_evolves_def Let_def all_members_def banned_def)

lemma apply_control_seq: "r_Seq (apply_control msg now a) = r_Seq a + 1"
  by (simp add: apply_control_def all_members_def Let_def)

lemma apply_control_ok: "room_ok (apply_control msg now a) = room_ok a"
  by (simp add: apply_control_def Let_def room_ok_all_members)

lemma apply_settings_evolves: "room_evolves a (apply_settings msg a)"
  by (simp add: apply_settings_def room_evolves_def Let_def banned_def split: option.split)

lemma apply_settings_ok: "room_ok (apply_settings msg a) = room_ok a"
  by (simp add: apply_settings_def Let_def split: option.split)

lemma add_chat_evolves: "room_evolves a (add_chat c a)"
  by (simp add: add_chat_def room_evolves_def timeline_def banned_def Let_def)

lemma rune_count_chat_text: "rune_count (chat_text t) \<le> chatMaxRunes"
  by (simp add: chat_text_def rune_count_def runes_encode)

lemma add_chat_ok:
  assumes "room_ok a" "rune_count (cm_Text c) \<le> chatMaxRunes"
  shows "room_ok (add_chat c a)"
proof -
  have "chat_ok (add_chat c a)"
    using assms by (auto simp: room_ok_def chat_ok_def add_chat_def Let_def chatLimit_def dest!: in_set_dropD)
  moreover have "members_ok (add_chat c a) = members_ok a" "host_ok (add_chat c a) = host_ok a"
      "bans_ok (add_chat c a) = bans_ok a"
    by (simp_all add: members_ok_def host_ok_def bans_ok_def banned_def add_chat_def Let_def)
  ultimately show ?thesis using assms(1) by (simp add: room_ok_def)
qed

lemma inc_reports_evolves: "room_evolves a (inc_reports a)"
  by (simp add: inc_reports_def)

lemma inc_reports_simps [simp]:
  "room_ok (inc_reports a) = room_ok a" "r_Members (inc_reports a) = r_Members a"
  "timeline (inc_reports a) = timeline a"
  by (simp_all add: inc_reports_def timeline_def)

text \<open>The room after a message, by the branch that wrote it.\<close>

lemma handle_msg_room:
  fixes hard pid m msg now a
  defines "r \<equiv> fst (handle_msg hard pid m msg now a)"
  obtains "r = a"
  | b where "r = put_member pid (m\<lparr>m_Ready := b\<rparr>) a"
  | "is_control (c_Type msg)" "canControl a pid" "r = apply_control msg now a"
  | "c_Type msg = ''settings''" "pid = r_HostID a" "r = apply_settings msg a"
  | r' m' out where "correctLocked hard (inc_reports a) (m\<lparr>m_rep := report_of msg now\<rparr>) now = (r', m', out)"
      "r = put_member pid m' r'"
  | t where "r = add_chat \<lparr>cm_From = m_DisplayName m, cm_Text = chat_text t, cm_At = now\<rparr> a"
proof -
  obtain r' m' out where c: "correctLocked hard (inc_reports a) (m\<lparr>m_rep := report_of msg now\<rparr>) now = (r', m', out)"
    by (metis prod_cases3)
  consider "c_Type msg = ''position''" | "is_control (c_Type msg)" "c_Type msg \<noteq> ''position''"
    | "c_Type msg = ''settings''" "\<not> is_control (c_Type msg)"
    | "c_Type msg \<notin> {''position'', ''settings''}" "\<not> is_control (c_Type msg)"
    by blast
  then show ?thesis
  proof cases
    case 1
    with c have "r = put_member pid m' r'" by (simp add: r_def handle_msg_def is_control_def)
    with c show ?thesis by (rule that(5))
  next
    case 2
    then show ?thesis
      using that(1) that(3) by (cases "canControl a pid") (auto simp: r_def handle_msg_def is_control_def Let_def)
  next
    case 3
    then have "r = a \<or> pid = r_HostID a \<and> r = apply_settings msg a"
      by (simp add: r_def handle_msg_def is_control_def Let_def)
    with 3 that(1) that(4) show ?thesis by blast
  next
    case 4
    then have "r = a \<or> (\<exists>b. r = put_member pid (m\<lparr>m_Ready := b\<rparr>) a) \<or>
        (\<exists>t. r = add_chat \<lparr>cm_From = m_DisplayName m, cm_Text = chat_text t, cm_At = now\<rparr> a)"
      by (auto simp: r_def handle_msg_def is_control_def Let_def)
    with that(1) that(2) that(6) show ?thesis by blast
  qed
qed

lemma handle_msg_evolves: "room_evolves a (fst (handle_msg hard pid m msg now a))"
proof (cases rule: handle_msg_room [of hard pid m msg now a])
  case (5 r' m' out)
  then have "room_evolves (inc_reports a) r'"
    using correct_evolves [of "inc_reports a" hard "m\<lparr>m_rep := report_of msg now\<rparr>" now] by simp
  with 5 show ?thesis using room_evolves_trans [OF inc_reports_evolves] by simp
qed (simp_all add: apply_control_evolves apply_settings_evolves add_chat_evolves)

lemma handle_msg_ok:
  assumes ok: "room_ok a" and m: "lookup_member a pid = Some m"
  shows "room_ok (fst (handle_msg hard pid m msg now a))"
proof (cases rule: handle_msg_room [of hard pid m msg now a])
  case (2 b)
  have "m_ID m = pid" using ok m members_ok_ID [of a pid m] by (simp add: room_ok_def)
  with 2 show ?thesis using room_ok_put [OF ok m] by simp
next
  case (5 r' m' out)
  let ?m = "m\<lparr>m_rep := report_of msg now\<rparr>"
  have "m_ID m = pid" using ok m members_ok_ID [of a pid m] by (simp add: room_ok_def)
  then have r': "room_ok r'" "r_Members r' = r_Members a" "m_ID m' = pid"
    using correct_room_ok [of hard "inc_reports a" ?m now] correct_members [of hard "inc_reports a" ?m now]
      correct_member_ID [of hard "inc_reports a" ?m now] 5 ok by simp_all
  then have "lookup_member r' pid = Some m" using m by (simp add: lookup_member_def)
  with r' 5 show ?thesis using room_ok_put [of r' pid m m'] by simp
qed (use ok in \<open>simp_all add: apply_control_ok apply_settings_ok add_chat_ok rune_count_chat_text\<close>)

lemma handle_room_evolves: "handle_room hard pid msg now a = Some (b, out, s) \<Longrightarrow> room_evolves a b"
  using handle_msg_evolves [of "put_member pid m a" for m]
  by (auto simp: handle_room_def Let_def split: option.splits) (metis fst_conv room_evolves_put room_evolves_refl room_evolves_trans)

lemma handle_room_ok:
  assumes "room_ok a" "handle_room hard pid msg now a = Some (b, out, s)"
  shows "room_ok b"
proof -
  obtain m where m: "lookup_member a pid = Some m" using assms(2) by (auto simp: handle_room_def split: option.splits)
  let ?m = "m\<lparr>m_LastSeen := now\<rparr>"
  have "m_ID ?m = pid" using assms(1) m members_ok_ID [of a pid m] by (simp add: room_ok_def)
  then have "room_ok (put_member pid ?m a)" using room_ok_put [OF assms(1) m] by blast
  then have "room_ok (fst (handle_msg hard pid ?m msg now (put_member pid ?m a)))"
    by (rule handle_msg_ok) simp
  with assms(2) m show ?thesis by (simp add: handle_room_def Let_def)
qed

section \<open>Removal, the tick and the cinema operations\<close>

lemma room_ok_banned_out: "room_ok a \<Longrightarrow> banned a k \<Longrightarrow> lookup_member a k = None"
  using lookup_member_keys [of a k] by (cases "lookup_member a k") (auto simp: room_ok_def bans_ok_def)

lemma lookup_drop: "lookup_member (dropLocked k a) = (lookup_member a)(k := None)"
  by (simp add: lookup_member_def fun_eq_iff)

lemma kick_room_evolves: "room_evolves a (kick_room mid ban a)"
proof -
  let ?a = "if ban then a\<lparr>r_Banned := set_key mid True (r_Banned a)\<rparr> else a"
  have a: "room_evolves a ?a" by (simp add: room_evolves_def timeline_def banned_def)
  have "room_evolves b (dropLocked mid b\<lparr>r_Seq := r_Seq (dropLocked mid b) + 1\<rparr>)" for b
    using drop_evolves [of b mid] room_evolves_seq [OF drop_evolves [of b mid]]
    by (auto simp: room_evolves_def banned_def)
  with a show ?thesis
    by (auto simp: kick_room_def Let_def intro: room_evolves_trans split: option.split)
qed

lemma kick_room_ok:
  assumes ok: "room_ok a"
  shows "room_ok (kick_room mid ban a)"
proof -
  let ?a = "if ban then a\<lparr>r_Banned := set_key mid True (r_Banned a)\<rparr> else a"
  have m: "members_ok ?a" "host_ok ?a" "chat_ok ?a"
    using ok by (simp_all add: room_ok_def members_ok_def host_ok_def chat_ok_def)
  have l: "lookup_member ?a = lookup_member a" by (simp add: lookup_member_def fun_eq_iff)
  have b: "bans_ok ?a" if "lookup_member ?a mid = None"
  proof -
    have "mid \<notin> set (keys (r_Members a))"
      using that l by (auto simp: lookup_member_def dest: in_keys_map_of)
    then show ?thesis using ok by (auto simp: room_ok_def bans_ok_def banned_def)
  qed
  show ?thesis
  proof (cases "lookup_member ?a mid")
    case None
    with m b show ?thesis by (simp add: kick_room_def room_ok_def Let_def)
  next
    case (Some x)
    let ?d = "dropLocked mid ?a"
    have hd: "host_ok ?d" using drop_host_ok m by blast
    have bd: "bans_ok ?d" using ok by (auto simp: room_ok_def bans_ok_def banned_def)
    have md: "members_ok ?d" using drop_members_ok [OF m(1)] .
    have cd: "chat_ok ?d" using m(3) by (simp add: chat_ok_def)
    have "kick_room mid ban a = ?d\<lparr>r_Seq := r_Seq ?d + 1\<rparr>"
      using Some by (simp add: kick_room_def Let_def)
    moreover have "room_ok ?d" unfolding room_ok_def using hd bd md cd by blast
    ultimately show ?thesis by (simp only: room_ok_fields)
  qed
qed

lemma kick_room_removes: "lookup_member (kick_room mid ban a) mid = None"
proof -
  have "lookup_member (r\<lparr>r_Seq := n\<rparr>) = lookup_member r" for r n by (simp add: lookup_member_def fun_eq_iff)
  then show ?thesis by (auto simp: kick_room_def Let_def lookup_drop split: option.split)
qed

lemma kick_room_bans: "banned (kick_room mid True a) mid"
  by (auto simp: kick_room_def Let_def banned_def split: option.split)

text \<open>A fold of removals, whatever it picks.\<close>

lemma foldl_drop_evolves:
  "room_evolves a (foldl (\<lambda>r (mid, m). if P m then dropLocked mid r else r) a ms)"
proof (induction ms arbitrary: a)
  case (Cons km ms)
  obtain k m where km: "km = (k, m)" by (cases km)
  have "room_evolves a (if P m then dropLocked k a else a)" by (simp add: drop_evolves)
  with Cons.IH [of "if P m then dropLocked k a else a"] km show ?case
    by (auto intro: room_evolves_trans)
qed simp

lemma foldl_drop_ok:
  "room_ok a \<Longrightarrow> room_ok (foldl (\<lambda>r (mid, m). if P m then dropLocked mid r else r) a ms)"
  by (induction ms arbitrary: a) (auto simp: drop_room_ok)

lemma foldl_drop_members:
  "lookup_member (foldl (\<lambda>r (mid, m). if P m then dropLocked mid r else r) a ms) k =
     (if \<exists>m. (k, m) \<in> set ms \<and> P m then None else lookup_member a k)"
  by (induction ms arbitrary: a) (auto simp: lookup_drop)

lemma foldl_drop_timeline [simp]:
  "timeline (foldl (\<lambda>r (mid, m). if P m then dropLocked mid r else r) a ms) = timeline a"
  by (induction ms arbitrary: a) auto

lemma drop_guest_evolves: "room_evolves a (drop_guest gs a)"
  unfolding drop_guest_def by (rule foldl_drop_evolves)

lemma drop_guest_ok: "room_ok a \<Longrightarrow> room_ok (drop_guest gs a)"
  unfolding drop_guest_def by (rule foldl_drop_ok)

lemma drop_expired_evolves: "room_evolves a (drop_expired now a)"
  unfolding drop_expired_def by (rule foldl_drop_evolves)

lemma drop_expired_ok: "room_ok a \<Longrightarrow> room_ok (drop_expired now a)"
  unfolding drop_expired_def by (rule foldl_drop_ok)

lemma drop_expired_members:
  assumes "members_ok a"
  shows "lookup_member (drop_expired now a) k =
    (case lookup_member a k of None \<Rightarrow> None
     | Some m \<Rightarrow> if time_sub now (m_LastSeen m) > memberLease then None else Some m)"
proof -
  have "(k, m) \<in> set (r_Members a) \<longleftrightarrow> lookup_member a k = Some m" for m
    using assms by (simp add: members_ok_def lookup_member_def map_of_distinct_iff)
  then show ?thesis
    unfolding drop_expired_def foldl_drop_members by (auto split: option.split)
qed

lemma rotate_host_evolves: "room_evolves a (rotate_host now a)"
  by (simp add: rotate_host_def promote_evolves split: option.split)

lemma rotate_host_ok: "room_ok a \<Longrightarrow> room_ok (rotate_host now a)"
  by (simp add: rotate_host_def promote_room_ok split: option.split)

lemma rotate_host_members [simp]:
  "r_Members (rotate_host now a) = r_Members a" "timeline (rotate_host now a) = timeline a"
  by (simp_all add: rotate_host_def split: option.split)

lemma tick_room_evolves: "room_evolves a (fst (tick_room hard announce now a))"
proof -
  let ?b = "rotate_host now (drop_expired now a)"
  have b: "room_evolves a ?b" using drop_expired_evolves rotate_host_evolves room_evolves_trans by blast
  have r: "room_evolves a (fst (realignLocked hard (?b\<lparr>r_EmptySince := 0\<rparr>) now))"
    by (rule room_evolves_trans [OF _ realign_evolves]) (use b in simp)
  show ?thesis
    using b r by (cases "realignLocked hard (?b\<lparr>r_EmptySince := 0\<rparr>) now") (auto simp: tick_room_def Let_def split: bool.splits)
qed

lemma tick_room_ok: "room_ok a \<Longrightarrow> room_ok (fst (tick_room hard announce now a))"
proof -
  assume ok: "room_ok a"
  let ?b = "rotate_host now (drop_expired now a)"
  have b: "room_ok ?b" using ok drop_expired_ok rotate_host_ok by blast
  then have r: "room_ok (fst (realignLocked hard (?b\<lparr>r_EmptySince := 0\<rparr>) now))"
    using realign_room_ok by simp
  show ?thesis
    using b r by (cases "realignLocked hard (?b\<lparr>r_EmptySince := 0\<rparr>) now") (auto simp: tick_room_def Let_def split: bool.splits)
qed

definition add_queue :: "queue_item \<Rightarrow> room \<Rightarrow> room" where
  "add_queue item room = room\<lparr>r_Queue := r_Queue room @ [item], r_Seq := r_Seq room + 1\<rparr>"

definition set_intermission :: "gtime \<Rightarrow> room \<Rightarrow> room" where
  "set_intermission t room = room\<lparr>r_IntermissionUntil := t, r_Seq := r_Seq room + 1\<rparr>"

definition hand_over :: "string \<Rightarrow> room \<Rightarrow> room" where
  "hand_over pid room =
     (let room = room\<lparr>r_OwnerID := pid\<rparr>
      in if lookup_member room pid \<noteq> None \<and> r_HostID room \<noteq> pid then room\<lparr>r_HostID := pid\<rparr> else room)"

lemma hand_over_ok: "room_ok a \<Longrightarrow> room_ok (hand_over pid a)"
proof -
  assume ok: "room_ok a"
  show ?thesis
  proof (cases "lookup_member a pid")
    case None
    then have "lookup_member (a\<lparr>r_OwnerID := pid\<rparr>) pid = None" by (simp add: lookup_member_def)
    with ok show ?thesis by (simp add: hand_over_def Let_def)
  next
    case (Some m)
    have "pid \<in> set (keys (r_Members a))" by (rule lookup_member_keys [OF Some])
    then have "host_ok (a\<lparr>r_OwnerID := pid, r_HostID := pid\<rparr>)" by (auto simp: host_ok_def keys_def)
    moreover have "members_ok (a\<lparr>r_OwnerID := pid, r_HostID := pid\<rparr>)" "bans_ok (a\<lparr>r_OwnerID := pid, r_HostID := pid\<rparr>)"
      "chat_ok (a\<lparr>r_OwnerID := pid, r_HostID := pid\<rparr>)"
      using ok by (simp_all add: room_ok_def members_ok_def bans_ok_def banned_def chat_ok_def)
    ultimately show ?thesis using ok by (simp add: hand_over_def Let_def room_ok_def [of "_\<lparr>r_HostID := _\<rparr>"])
  qed
qed

lemma cinema_evolves:
  "room_evolves a (add_vote item pid a)" "room_evolves a (add_queue q a)"
  "room_evolves a (set_intermission t a)" "room_evolves a (hand_over pid a)"
  by (simp_all add: add_vote_def add_queue_def set_intermission_def hand_over_def room_evolves_def banned_def
      timeline_def Let_def)

lemma cinema_ok:
  "room_ok (add_vote item pid a) = room_ok a" "room_ok (add_queue q a) = room_ok a"
  "room_ok (set_intermission t a) = room_ok a"
  by (simp_all add: add_vote_def add_queue_def set_intermission_def Let_def)

end
