(* ===== verification/Party_Safety.thy ===== *)
theory Party_Safety
  imports Party_Ops
begin

text \<open>
  The hub as a machine: its invariant, the step relation of its operations, and what holds in
  every reachable state. Each operation on one room enters through an interpretation of the
  locale \<open>room_operation\<close>.
\<close>

section \<open>Invariant and evolution of the hub\<close>

definition hub_inv :: "hub \<Rightarrow> bool" where
  "hub_inv h \<longleftrightarrow>
     distinct (h_live h) \<and> set (h_live h) \<subseteq> set (keys (h_rooms h)) \<and> distinct (keys (h_rooms h)) \<and>
     [] \<notin> set (keys (h_rooms h)) \<and>
     distinct (keys (h_invites h)) \<and>
     (\<forall>(rid, room) \<in> set (h_rooms h). r_ID room = rid \<and> room_ok room) \<and>
     (\<forall>(code, rid) \<in> set (h_invites h). \<exists>room \<in> set (map snd (h_rooms h)).
        rid \<in> set (h_live h) \<and> r_ID room = rid \<and> r_InviteCode room = code)"

definition hub_evolves :: "hub \<Rightarrow> hub \<Rightarrow> bool" where
  "hub_evolves h h' \<longleftrightarrow>
     (\<forall>rid a. deref h rid = Some a \<longrightarrow> (\<exists>b. deref h' rid = Some b \<and> room_evolves a b)) \<and>
     (\<forall>rid \<in> set (h_live h'). rid \<in> set (h_live h) \<or> deref h rid = None)"

lemma hub_evolvesI:
  assumes "\<And>rid a. deref h rid = Some a \<Longrightarrow> \<exists>b. deref h' rid = Some b \<and> room_evolves a b"
    and "\<And>rid. rid \<in> set (h_live h') \<Longrightarrow> rid \<in> set (h_live h) \<or> deref h rid = None"
  shows "hub_evolves h h'"
  unfolding hub_evolves_def using assms by simp

lemma hub_evolvesD:
  assumes "hub_evolves h h'" "deref h rid = Some a"
  obtains b where "deref h' rid = Some b" "room_evolves a b"
  using assms unfolding hub_evolves_def by blast

lemma hub_evolves_live: "hub_evolves h h' \<Longrightarrow> rid \<in> set (h_live h') \<Longrightarrow> rid \<in> set (h_live h) \<or> deref h rid = None"
  by (simp add: hub_evolves_def)

lemma hub_invI:
  assumes "distinct (h_live h)" "set (h_live h) \<subseteq> set (keys (h_rooms h))" "distinct (keys (h_rooms h))"
    and "distinct (keys (h_invites h))" "[] \<notin> set (keys (h_rooms h))"
    and "\<And>rid room. (rid, room) \<in> set (h_rooms h) \<Longrightarrow> r_ID room = rid \<and> room_ok room"
    and "\<And>code rid. (code, rid) \<in> set (h_invites h) \<Longrightarrow> \<exists>room \<in> set (map snd (h_rooms h)).
        rid \<in> set (h_live h) \<and> r_ID room = rid \<and> r_InviteCode room = code"
  shows "hub_inv h"
  unfolding hub_inv_def using assms by auto

lemma hub_inv_live_keys: "hub_inv h \<Longrightarrow> set (h_live h) \<subseteq> set (keys (h_rooms h))"
  by (simp add: hub_inv_def)

lemma hub_inv_code:
  assumes "hub_inv h" "(code, rid) \<in> set (h_invites h)"
  shows "\<exists>room \<in> set (map snd (h_rooms h)). rid \<in> set (h_live h) \<and> r_ID room = rid \<and> r_InviteCode room = code"
proof -
  have "\<forall>(code, rid) \<in> set (h_invites h). \<exists>room \<in> set (map snd (h_rooms h)).
      rid \<in> set (h_live h) \<and> r_ID room = rid \<and> r_InviteCode room = code"
    using assms(1) unfolding hub_inv_def by (elim conjE)
  from bspec [OF this assms(2)] show ?thesis by simp
qed

lemma hub_evolves_refl [simp]: "hub_evolves h h"
  by (simp add: hub_evolves_def)

lemma hub_evolves_trans:
  assumes ab: "hub_evolves a b" and bc: "hub_evolves b c"
  shows "hub_evolves a c"
proof (rule hub_evolvesI)
  fix rid x assume "deref a rid = Some x"
  then obtain y z where "deref c rid = Some z" "room_evolves x y" "room_evolves y z"
    by (meson ab bc hub_evolvesD)
  then show "\<exists>z. deref c rid = Some z \<and> room_evolves x z" using room_evolves_trans by blast
next
  fix rid assume l: "rid \<in> set (h_live c)"
  show "rid \<in> set (h_live a) \<or> deref a rid = None"
  proof (cases "deref a rid")
    case (Some x)
    then obtain y where "deref b rid = Some y" by (meson ab hub_evolvesD)
    with hub_evolves_live [OF bc l] hub_evolves_live [OF ab] show ?thesis by auto
  qed simp
qed

lemma find_deref: "find_room h rid = Some room \<Longrightarrow> deref h rid = Some room \<and> rid \<in> set (h_live h)"
  by (simp add: find_room_def deref_def split: if_splits)

lemma deref_put [simp]: "deref (put_room rid room h) k = (if k = rid then Some room else deref h k)"
  by (simp add: deref_def put_room_def)

lemma put_room_simps [simp]:
  "h_live (put_room rid room h) = h_live h" "h_invites (put_room rid room h) = h_invites h"
  "h_tickets (put_room rid room h) = h_tickets h" "h_ticks (put_room rid room h) = h_ticks h"
  "h_hardDriftMS (put_room rid room h) = h_hardDriftMS h" "driftLimit (put_room rid room h) = driftLimit h"
  by (simp_all add: put_room_def driftLimit_def)

lemma find_put [simp]:
  "rid \<in> set (h_live h) \<Longrightarrow>
   find_room (put_room rid room h) k = (if k = rid then Some room else find_room h k)"
  by (simp add: find_room_def put_room_def)

lemma hub_inv_room: "hub_inv h \<Longrightarrow> deref h rid = Some room \<Longrightarrow> r_ID room = rid \<and> room_ok room"
  by (force simp: hub_inv_def deref_def dest: map_of_SomeD)

lemma hub_inv_find: "hub_inv h \<Longrightarrow> find_room h rid = Some room \<Longrightarrow> r_ID room = rid \<and> room_ok room"
  using find_deref hub_inv_room by blast

lemma hub_inv_live: "hub_inv h \<Longrightarrow> rid \<in> set (h_live h) \<Longrightarrow> \<exists>room. find_room h rid = Some room"
  by (auto simp: hub_inv_def find_room_def dest: in_keys_map_of)

lemma hub_inv_invite:
  assumes "hub_inv h" "map_of (h_invites h) code = Some rid"
  shows "\<exists>room. find_room h rid = Some room \<and> r_InviteCode room = code"
proof -
  from assms obtain room where r: "room \<in> set (map snd (h_rooms h))" "rid \<in> set (h_live h)"
      "r_ID room = rid" "r_InviteCode room = code"
    unfolding hub_inv_def by (fastforce dest: map_of_SomeD)
  then obtain k where "(k, room) \<in> set (h_rooms h)" by auto
  moreover from this assms(1) r(3) have "k = rid" by (auto simp: hub_inv_def)
  ultimately have "map_of (h_rooms h) rid = Some room"
    using assms(1) by (simp add: hub_inv_def map_of_distinct_iff)
  with r show ?thesis by (simp add: find_room_def)
qed

lemma hub_inv_empty: "hub_inv (empty_hub hard)"
  by (simp add: hub_inv_def empty_hub_def keys_def)

text \<open>Writing one room that keeps its identity.\<close>

lemma hub_inv_put:
  assumes inv: "hub_inv h" and a: "deref h rid = Some a"
    and b: "room_ok b" "r_ID b = r_ID a" "r_InviteCode b = r_InviteCode a"
  shows "hub_inv (put_room rid b h)"
proof -
  let ?rs = "h_rooms h"
  have d: "distinct (keys ?rs)" using inv by (simp add: hub_inv_def)
  have k: "rid \<in> set (keys ?rs)" using a by (simp add: deref_def map_of_in_keys)
  have ida: "r_ID a = rid" using hub_inv_room [OF inv a] by simp
  have set: "set (set_key rid b ?rs) = insert (rid, b) (set ?rs - {(rid, w) | w. True})"
    by (rule set_set_key [OF d])
  have keep: "\<exists>room \<in> set (map snd (set_key rid b ?rs)). r_ID room = r \<and> r_InviteCode room = code"
    if "room \<in> set (map snd ?rs)" "r_ID room = r" "r_InviteCode room = code" for room r code
  proof (cases "r = rid")
    case True
    from that(1) obtain k' where k': "(k', room) \<in> set ?rs" by auto
    with inv that(2) True have "k' = rid" by (auto simp: hub_inv_def)
    with k' d a have "room = a" by (simp add: deref_def map_of_distinct_iff [symmetric])
    with that b set True show ?thesis by (force simp: set)
  next
    case False
    from that(1) obtain k' where k': "(k', room) \<in> set ?rs" by auto
    with inv that(2) have "k' = r" by (auto simp: hub_inv_def)
    with k' False have "(k', room) \<in> set (set_key rid b ?rs)" by (auto simp: set)
    with that show ?thesis by force
  qed
  show ?thesis
  proof (rule hub_invI)
    show "distinct (keys (h_rooms (put_room rid b h)))" using d by (simp add: put_room_def)
    show "[] \<notin> set (keys (h_rooms (put_room rid b h)))"
      using inv k by (auto simp: put_room_def hub_inv_def)
    show "set (h_live (put_room rid b h)) \<subseteq> set (keys (h_rooms (put_room rid b h)))"
      using inv by (auto simp: put_room_def hub_inv_def)
    show "distinct (h_live (put_room rid b h))" "distinct (keys (h_invites (put_room rid b h)))"
      using inv by (simp_all add: hub_inv_def)
    show "r_ID room = rid' \<and> room_ok room" if "(rid', room) \<in> set (h_rooms (put_room rid b h))" for rid' room
      using that inv b ida by (auto simp: put_room_def set hub_inv_def)
    show "\<exists>room \<in> set (map snd (h_rooms (put_room rid b h))). r \<in> set (h_live (put_room rid b h)) \<and>
        r_ID room = r \<and> r_InviteCode room = code" if "(code, r) \<in> set (h_invites (put_room rid b h))" for code r
    proof -
      from that have "(code, r) \<in> set (h_invites h)" by simp
      from hub_inv_code [OF inv this]
      obtain room where "room \<in> set (map snd ?rs)" "r \<in> set (h_live h)" "r_ID room = r" "r_InviteCode room = code"
        by blast
      with keep [of room r code] show ?thesis by (simp add: put_room_def)
    qed
  qed
qed

lemma hub_evolves_put:
  "deref h rid = Some a \<Longrightarrow> room_evolves a b \<Longrightarrow> hub_evolves h (put_room rid b h)"
  by (auto simp: hub_evolves_def)

section \<open>The contract of room operations\<close>

locale room_operation =
  fixes f :: "room \<Rightarrow> room" and pre :: "room \<Rightarrow> bool"
  assumes op_ok: "room_ok r \<Longrightarrow> pre r \<Longrightarrow> room_ok (f r)"
    and op_evolves: "room_evolves r (f r)"
begin

lemma op_identity: "r_ID (f r) = r_ID r" "r_InviteCode (f r) = r_InviteCode r"
  using op_evolves [of r] by (simp_all add: room_evolves_def)

lemma hub_keeps: "hub_inv h \<Longrightarrow> deref h rid = Some r \<Longrightarrow> pre r \<Longrightarrow> hub_inv (put_room rid (f r) h)"
  using hub_inv_put hub_inv_room op_identity op_ok by blast

lemma hub_moves: "deref h rid = Some r \<Longrightarrow> hub_evolves h (put_room rid (f r) h)"
  using hub_evolves_put op_evolves by blast

end

definition handled :: "i64 \<Rightarrow> string \<Rightarrow> clientMsg \<Rightarrow> gtime \<Rightarrow> room \<Rightarrow> room" where
  "handled hard pid msg now r = (case handle_room hard pid msg now r of None \<Rightarrow> r | Some (b, _, _) \<Rightarrow> b)"

interpretation message: room_operation "handled hard pid msg now" "\<lambda>_. True" for hard pid msg now
  by unfold_locales
    (auto simp: handled_def handle_room_ok handle_room_evolves split: option.split prod.split)

interpretation joining: room_operation "addMember p now" "\<lambda>r. \<not> banned r (ID (Some p))" for p now
  by unfold_locales (auto simp: addMember_room_ok addMember_evolves)

interpretation kicking: room_operation "kick_room mid ban" "\<lambda>_. True" for mid ban
  by unfold_locales (auto simp: kick_room_ok kick_room_evolves)

interpretation guest_drop: room_operation "drop_guest gs" "\<lambda>_. True" for gs
  by unfold_locales (auto simp: drop_guest_ok drop_guest_evolves)

interpretation ticking: room_operation "\<lambda>r. fst (tick_room hard announce now r)" "\<lambda>_. True" for hard announce now
  by unfold_locales (auto simp: tick_room_ok tick_room_evolves)

interpretation voting: room_operation "add_vote item pid" "\<lambda>_. True" for item pid
  by unfold_locales (auto simp: cinema_ok cinema_evolves)

interpretation queueing: room_operation "add_queue q" "\<lambda>_. True" for q
  by unfold_locales (auto simp: cinema_ok cinema_evolves)

interpretation pausing: room_operation "set_intermission t" "\<lambda>_. True" for t
  by unfold_locales (auto simp: cinema_ok cinema_evolves)

interpretation handing: room_operation "hand_over pid" "\<lambda>_. True" for pid
  by unfold_locales (auto simp: hand_over_ok cinema_evolves)

interpretation attaching: room_operation
  "\<lambda>r. case lookup_member r pid of None \<Rightarrow> r
     | Some m \<Rightarrow> put_member pid (m\<lparr>m_Conn := Some c, m_LastSeen := now\<rparr>) r" "\<lambda>_. True" for pid c now
proof unfold_locales
  fix r assume ok: "room_ok r"
  show "room_ok (case lookup_member r pid of None \<Rightarrow> r
     | Some m \<Rightarrow> put_member pid (m\<lparr>m_Conn := Some c, m_LastSeen := now\<rparr>) r)"
    using ok room_ok_put [OF ok] members_ok_ID [of r pid] by (auto simp: room_ok_def split: option.split)
qed (auto split: option.split)

interpretation detaching: room_operation
  "\<lambda>r. case lookup_member r pid of None \<Rightarrow> r
     | Some m \<Rightarrow> if m_Conn m = Some c then put_member pid (m\<lparr>m_Conn := None\<rparr>) r else r" "\<lambda>_. True" for pid c
proof unfold_locales
  fix r assume ok: "room_ok r"
  show "room_ok (case lookup_member r pid of None \<Rightarrow> r
     | Some m \<Rightarrow> if m_Conn m = Some c then put_member pid (m\<lparr>m_Conn := None\<rparr>) r else r)"
    using ok room_ok_put [OF ok] members_ok_ID [of r pid] by (auto simp: room_ok_def split: option.split)
qed (auto split: option.split)

section \<open>Operations that add or remove a room\<close>

lemma unlink_simps [simp]:
  "h_rooms (unlink_room rid room h) = h_rooms h" "deref (unlink_room rid room h) = deref h"
  "h_live (unlink_room rid room h) = filter (\<lambda>k. k \<noteq> rid) (h_live h)"
  by (simp_all add: unlink_room_def deref_def fun_eq_iff)

lemma hub_inv_unlink:
  assumes inv: "hub_inv h" and room: "find_room h rid = Some room"
  shows "hub_inv (unlink_room rid room h)"
proof (rule hub_invI)
  fix code r assume "(code, r) \<in> set (h_invites (unlink_room rid room h))"
  then have c: "(code, r) \<in> set (h_invites h)" "code \<noteq> r_InviteCode room"
    by (auto simp: unlink_room_def set_del_key)
  then have "map_of (h_invites h) code = Some r"
    using inv by (simp add: hub_inv_def map_of_distinct_iff)
  from hub_inv_invite [OF inv this] room c(2) have "r \<noteq> rid" by auto
  with hub_inv_code [OF inv c(1)]
  show "\<exists>x \<in> set (map snd (h_rooms (unlink_room rid room h))).
      r \<in> set (h_live (unlink_room rid room h)) \<and> r_ID x = r \<and> r_InviteCode x = code" by simp
next
  show "distinct (keys (h_invites (unlink_room rid room h)))"
    using inv by (simp add: unlink_room_def hub_inv_def)
qed (use inv in \<open>auto simp: hub_inv_def\<close>)

lemma hub_evolves_unlink: "hub_evolves h (unlink_room rid room h)"
  by (rule hub_evolvesI) auto

lemma hub_inv_add:
  assumes inv: "hub_inv h" and fresh: "r_ID room \<notin> set (keys (h_rooms h))" "r_ID room \<noteq> []"
    and ok: "room_ok room"
  shows "hub_inv (add_room room h)"
proof -
  let ?h = "add_room room h" and ?id = "r_ID room"
  have nl: "?id \<notin> set (h_live h)" using inv fresh by (auto simp: hub_inv_def)
  have d: "distinct (keys (h_rooms h))" "distinct (keys (h_invites h))" using inv by (simp_all add: hub_inv_def)
  have "set (h_rooms h) - {(?id, w) | w. True} = set (h_rooms h)"
    using fresh by (auto simp: keys_def image_iff)
  then have rooms: "set (h_rooms ?h) = insert (?id, room) (set (h_rooms h))"
    using set_set_key [OF d(1), of ?id room] by (simp add: add_room_def put_room_def Let_def)
  have invites: "set (h_invites ?h) = insert (r_InviteCode room, ?id) (set (h_invites h) - {(r_InviteCode room, w) | w. True})"
    using set_set_key [OF d(2)] by (simp add: add_room_def Let_def)
  have live: "h_live ?h = h_live h @ [?id]" using nl by (simp add: add_room_def Let_def)
  show ?thesis
  proof (rule hub_invI)
    show "distinct (h_live ?h)" using inv nl by (simp add: live hub_inv_def)
    show "set (h_live ?h) \<subseteq> set (keys (h_rooms ?h))"
      using hub_inv_live_keys [OF inv] by (auto simp: live) (simp_all add: add_room_def put_room_def Let_def subset_iff)
    show "[] \<notin> set (keys (h_rooms ?h))"
      using inv fresh(2) by (auto simp: hub_inv_def add_room_def put_room_def Let_def)
    show "distinct (keys (h_rooms ?h))" "distinct (keys (h_invites ?h))"
      using d by (simp_all add: add_room_def put_room_def Let_def)
    show "r_ID r = rid \<and> room_ok r" if "(rid, r) \<in> set (h_rooms ?h)" for rid r
      using that inv ok by (auto simp: rooms hub_inv_def)
    show "\<exists>x \<in> set (map snd (h_rooms ?h)). rid \<in> set (h_live ?h) \<and> r_ID x = rid \<and> r_InviteCode x = code"
      if "(code, rid) \<in> set (h_invites ?h)" for code rid
    proof (cases "(code, rid) \<in> set (h_invites h)")
      case True
      from hub_inv_code [OF inv True] show ?thesis by (auto simp: rooms live)
    next
      case False
      with that show ?thesis by (auto simp: invites rooms live)
    qed
  qed
qed

lemma hub_evolves_add:
  assumes "r_ID room \<notin> set (keys (h_rooms h))"
  shows "hub_evolves h (add_room room h)"
proof (rule hub_evolvesI)
  fix rid a assume "deref h rid = Some a"
  moreover from this have "rid \<noteq> r_ID room" using assms by (auto simp: deref_def map_of_in_keys)
  ultimately show "\<exists>b. deref (add_room room h) rid = Some b \<and> room_evolves a b"
    by (simp add: add_room_def deref_def put_room_def Let_def)
next
  fix rid assume "rid \<in> set (h_live (add_room room h))"
  then show "rid \<in> set (h_live h) \<or> deref h rid = None"
    using assms by (cases "deref h rid") (auto simp: add_room_def Let_def deref_def dest: map_of_in_keys split: if_splits)
qed

section \<open>Operations\<close>

definition good :: "hub \<Rightarrow> hub \<Rightarrow> bool" where
  "good h h' \<longleftrightarrow> (hub_inv h \<longrightarrow> hub_inv h') \<and> hub_evolves h h'"

lemma good_refl [simp]: "good h h"
  by (simp add: good_def)

lemma good_trans: "good a b \<Longrightarrow> good b c \<Longrightarrow> good a c"
  by (auto simp: good_def intro: hub_evolves_trans)

lemma hub_cong_good:
  "h_rooms h' = h_rooms h \<Longrightarrow> h_live h' = h_live h \<Longrightarrow> h_invites h' = h_invites h \<Longrightarrow> good h h'"
  by (simp add: good_def hub_inv_def hub_evolves_def deref_def)

context room_operation
begin

lemma op_good: "deref h rid = Some r \<Longrightarrow> (room_ok r \<Longrightarrow> pre r) \<Longrightarrow> good h (put_room rid (f r) h)"
  using hub_keeps hub_moves hub_inv_room by (auto simp: good_def)

end

lemma handle_good: "good h (fst (handle env rid pid msg now h))"
proof (cases "find_room h rid")
  case (Some room)
  then have d: "deref h rid = Some room" by (simp add: find_deref)
  show ?thesis
  proof (cases "handle_room (driftLimit h) pid msg now room")
    case (Some x)
    obtain b out s where "x = (b, out, s)" by (cases x)
    with Some \<open>find_room h rid = _\<close> message.op_good [OF d, of "driftLimit h" pid msg now] show ?thesis
      by (simp add: handle_def handled_def)
  qed (simp add: handle_def Some)
qed (simp add: handle_def)

lemma admit_good:
  assumes "\<forall>room. deref h rid = Some room \<longrightarrow> \<not> banned room (ID (Some q))"
  shows "good h (admit rid q now h)"
  using assms joining.op_good [of h rid _ q now] by (auto simp: admit_def split: option.split)

lemma Create_good:
  assumes fresh: "rid \<notin> set (keys (h_rooms h))" "rid \<noteq> []"
  shows "good h (fst (Create env p kind iid rid code now h))"
proof (cases p)
  case (Some q)
  let ?new = "new_room env q kind iid rid code now"
  let ?r = "addMember q now ?new"
  have id: "r_ID ?r = rid" by (simp add: addMember_keys new_room_def)
  have "members_ok ?new" by (simp add: members_ok_def new_room_def keys_def)
  moreover have "lookup_member ?new x = None" for x by (simp add: lookup_member_def new_room_def)
  ultimately have "members_ok ?r \<and> host_ok ?r"
    by (auto simp: addMember_def Let_def members_ok_put new_room_def new_member_def host_ok_def members_ok_def
        put_member_def set_key_def keys_def lookup_member_def)
  moreover have "bans_ok ?r" "chat_ok ?r"
    by (simp_all add: bans_ok_def chat_ok_def banned_def addMember_keys) (simp_all add: new_room_def)
  ultimately have "room_ok ?r" by (simp add: room_ok_def)
  with hub_inv_add [of h ?r] hub_evolves_add [of ?r h] fresh id have "good h (add_room ?r h)"
    by (simp add: good_def)
  with Some show ?thesis by (simp add: Create_def Let_def)
qed (simp add: Create_def)

lemma Join_lookup_room:
  "Join_lookup (Some q) code h = Some rid \<Longrightarrow> \<exists>room. find_room h rid = Some room \<and> \<not> banned room (ID (Some q))"
  by (auto simp: Join_lookup_def Let_def split: option.splits if_splits)

lemma Join_good: "good h (fst (Join env p code now h))"
proof (cases "Join_lookup p code h")
  case (Some rid)
  show ?thesis
  proof (cases p)
    case (Some q)
    with \<open>Join_lookup p code h = _\<close> obtain room where "find_room h rid = Some room" "\<not> banned room (ID (Some q))"
      using Join_lookup_room by blast
    then have d: "deref h rid = Some room" and "good h (admit rid q now h)"
      using admit_good [of h rid q now] by (auto simp: find_deref)
    with Some \<open>Join_lookup p code h = _\<close> show ?thesis by (simp add: Join_def Let_def)
  qed (simp add: Join_def split: option.split)
qed (simp add: Join_def)

lemma ReclaimOwner_good: "good h (fst (ReclaimOwner env p rid now h))"
proof -
  have "good h (admit rid q now h)" if "find_room h rid = Some room" "ReclaimOwner_lookup q rid h" for q room
    using that by (intro admit_good) (auto simp: ReclaimOwner_lookup_def dest: find_deref)
  then show ?thesis by (auto simp: ReclaimOwner_def Let_def split: option.split)
qed

lemma HandOver_commit_room:
  "fst (HandOver_commit q rid now h) =
     (case find_room h rid of None \<Rightarrow> h | Some room \<Rightarrow> put_room rid (hand_over (ID (Some q)) room) h)"
  by (simp add: HandOver_commit_def hand_over_def Let_def split: option.split)

lemma HandOver_commit_good: "good h (fst (HandOver_commit q rid now h))"
  using handing.op_good [of h rid _ "ID (Some q)"] find_deref
  by (auto simp: HandOver_commit_room split: option.split)

lemma HandOver_good: "good h (fst (HandOver env p rid now h))"
proof -
  have "good h h'" if "HandOver_commit q rid now h = (h', x)" for q h' x
    using HandOver_commit_good [of h q rid now] that by simp
  then show ?thesis by (auto simp: HandOver_def split: option.split prod.split bool.split)
qed

lemma MintTicket_good: "good h (fst (MintTicket env p rid raw now h))"
  by (auto simp: MintTicket_def intro: hub_cong_good split: option.split)

lemma ws_attach_good: "good h (ws_attach rid pid c now h)"
proof (cases "deref h rid")
  case (Some room)
  show ?thesis
  proof (cases "lookup_member room pid")
    case (Some m)
    with attaching.op_good [OF \<open>deref h rid = Some room\<close>, where pid = pid and c = c and now = now] \<open>deref h rid = _\<close> show ?thesis
      by (simp add: ws_attach_def)
  qed (simp add: ws_attach_def Some)
qed (simp add: ws_attach_def)

lemma ws_open_good: "good h (fst (ws_open env origin p rid tok c now h))"
proof -
  let ?h = "ws_attach rid (ID p) c now h"
  have "good h (fst (handle env rid (ID p) (plain_msg ''hello'' 0) now ?h))"
    using ws_attach_good handle_good good_trans by blast
  then show ?thesis
    by (cases "handle env rid (ID p) (plain_msg ''hello'' 0) now ?h")
      (auto simp: ws_open_def Let_def split: option.split)
qed

lemma ws_close_good: "good h (fst (ws_close rid pid c now h))"
proof (cases "deref h rid")
  case (Some room)
  show ?thesis
  proof (cases "lookup_member room pid")
    case (Some m)
    with detaching.op_good [OF \<open>deref h rid = Some room\<close>, where pid = pid and c = c] \<open>deref h rid = _\<close> show ?thesis
      by (cases "m_Conn m = Some c") (simp_all add: ws_close_def Let_def)
  qed (simp add: ws_close_def Some Let_def)
qed (simp add: ws_close_def Let_def)

lemma foldl_good:
  assumes "\<And>h es x. good h (fst (g (h, es) x))"
  shows "good h (fst (foldl g (h, es) xs))"
proof (induction xs arbitrary: h es)
  case (Cons x xs)
  obtain h' es' where g: "g (h, es) x = (h', es')" by (cases "g (h, es) x")
  with assms [of h es x] have "good h h'" by simp
  with Cons.IH [of h' es'] g show ?case using good_trans by auto
qed simp

lemma KickGuest_good: "good h (fst (KickGuest gs h))"
  unfolding KickGuest_def
  by (rule foldl_good) (auto split: option.split dest: find_deref intro: guest_drop.op_good)

lemma Kick_good: "good h (fst (Kick env rid mid ban now h))"
  by (auto simp: Kick_def Let_def split: option.split dest: find_deref intro: kicking.op_good)

lemma EndRoom_good: "good h (fst (EndRoom env rid h))"
  by (auto simp: EndRoom_def good_def hub_inv_unlink hub_evolves_unlink split: option.split)

lemma ws_message_good: "good h (fst (ws_message env q rid c msg now h))"
proof -
  have "good h h'" if "KickGuest gs h = (h', es)" for gs h' es using KickGuest_good [of h gs] that by simp
  moreover have "good h h'" if "handle env rid pid m now h = (h', x)" for pid m h' x
    using handle_good [of h env rid pid m now] that by simp
  ultimately show ?thesis
    by (auto simp: ws_message_def Let_def split: option.split prod.split)
qed

lemma tick_one_good: "good h (fst (tick_one hard announce now (h, out) rid))"
proof (cases "find_room h rid")
  case (Some room)
  then have d: "deref h rid = Some room" and l: "rid \<in> set (h_live h)" by (simp_all add: find_deref)
  obtain r v where t: "tick_room hard announce now room = (r, v)" by (cases "tick_room hard announce now room")
  have "good h (put_room rid r h)" using ticking.op_good [OF d, of hard announce now] t by simp
  moreover have "good (put_room rid r h) (unlink_room rid r (put_room rid r h))"
    using l by (simp add: good_def hub_inv_unlink hub_evolves_unlink)
  ultimately show ?thesis
    using Some t by (cases v) (auto simp: tick_one_def intro: good_trans)
qed (simp add: tick_one_def)

lemma tick_good: "good h (fst (tick env now h))"
proof -
  let ?h = "h\<lparr>h_ticks := h_ticks h + 1, h_tickets := filter (\<lambda>(_, t). \<not> now > t_Exp t) (h_tickets h)\<rparr>"
  let ?f = "tick_one (driftLimit ?h) (h_ticks ?h mod 2 = 0) now"
  let ?o = "\<lparr>k_snaps = [], k_gone = [], k_sends = []\<rparr>"
  have "good h ?h" by (rule hub_cong_good) simp_all
  also have "good ?h (fst (foldl ?f (?h, ?o) (h_live ?h)))" by (rule foldl_good) (rule tick_one_good)
  finally (good_trans) show ?thesis
    by (cases "foldl ?f (?h, ?o) (h_live ?h)") (simp add: tick_def Let_def)
qed

lemma publish_fst [simp]: "fst (publish env rid now h) = h"
  by (simp add: publish_def)

lemma handleQueue_good: "good h (fst (handleQueue env p rid body now h))"
  using queueing.op_good [of h rid] find_deref
  by (auto simp: handleQueue_def hostRoom_def add_queue_def split: option.split if_splits)

lemma handleVote_good: "good h (fst (handleVote env p rid body now h))"
  using voting.op_good [of h rid] find_deref
  by (auto simp: handleVote_def memberRoom_def split: option.split if_splits)

lemma handleIntermission_good: "good h (fst (handleIntermission env p rid body now h))"
  using pausing.op_good [of h rid] find_deref
  by (auto simp: handleIntermission_def hostRoom_def set_intermission_def split: option.split if_splits)

lemma Control_good: "good h (fst (Control env rid pid action now h))"
proof -
  have "good h h'" if "handle env rid pid m now h = (h', x)" for m h' x
    using handle_good [of h env rid pid m now] that by simp
  then show ?thesis by (auto simp: Control_def split: option.split prod.split)
qed

section \<open>Runs\<close>

text \<open>One operation of the hub, run to its end before the next one starts.\<close>

inductive party_step :: "party_env \<Rightarrow> hub \<Rightarrow> hub \<Rightarrow> bool" for env where
  step_handle: "party_step env h (fst (handle env rid pid msg now h))"
| step_control: "party_step env h (fst (Control env rid pid action now h))"
| step_create: "rid \<notin> set (keys (h_rooms h)) \<Longrightarrow> rid \<noteq> [] \<Longrightarrow>
    party_step env h (fst (Create env p kind iid rid code now h))"
| step_join: "party_step env h (fst (Join env p code now h))"
| step_reclaim: "party_step env h (fst (ReclaimOwner env p rid now h))"
| step_hand_over: "party_step env h (fst (HandOver env p rid now h))"
| step_ticket: "party_step env h (fst (MintTicket env p rid raw now h))"
| step_ws_open: "party_step env h (fst (ws_open env origin p rid tok c now h))"
| step_ws_message: "party_step env h (fst (ws_message env q rid c msg' now h))"
| step_ws_close: "party_step env h (fst (ws_close rid pid c now h))"
| step_kick_guest: "party_step env h (fst (KickGuest gs h))"
| step_kick: "party_step env h (fst (Kick env rid mid ban now h))"
| step_end: "party_step env h (fst (EndRoom env rid h))"
| step_tick: "party_step env h (fst (tick env now h))"
| step_queue: "party_step env h (fst (handleQueue env p rid item now h))"
| step_vote: "party_step env h (fst (handleVote env p rid vote now h))"
| step_intermission: "party_step env h (fst (handleIntermission env p rid secs now h))"

text \<open>
  Critical sections in any order: beside whole operations, the second half of a join, a
  reclaim or a handover may run at any time, whatever happened since its first half.
\<close>

inductive section_step :: "party_env \<Rightarrow> hub \<Rightarrow> hub \<Rightarrow> bool" for env where
  whole: "party_step env h h' \<Longrightarrow> section_step env h h'"
| commit_admit: "section_step env h (admit rid q now h)"
| commit_hand_over: "section_step env h (fst (HandOver_commit q rid now h))"

lemmas operation_good = handle_good Control_good Create_good Join_good ReclaimOwner_good HandOver_good
  MintTicket_good ws_open_good ws_message_good ws_close_good KickGuest_good Kick_good EndRoom_good
  tick_good handleQueue_good handleVote_good handleIntermission_good

lemma party_step_good: "party_step env h h' \<Longrightarrow> good h h'"
  by (induction rule: party_step.induct) (simp_all add: operation_good)

lemma admit_evolves: "hub_evolves h (admit rid q now h)"
  using hub_evolves_put [OF _ addMember_evolves] by (auto simp: admit_def split: option.split)

lemma section_step_evolves: "section_step env h h' \<Longrightarrow> hub_evolves h h'"
proof (induction rule: section_step.induct)
  case (whole h h')
  then show ?case using party_step_good by (simp add: good_def)
next
  case (commit_hand_over h q rid now)
  then show ?case using HandOver_commit_good by (simp add: good_def)
qed (rule admit_evolves)

lemma sections_evolve: "(section_step env)\<^sup>*\<^sup>* h h' \<Longrightarrow> hub_evolves h h'"
  by (induction rule: rtranclp_induct) (auto dest: section_step_evolves intro: hub_evolves_trans)

lemma steps_sections: "(party_step env)\<^sup>*\<^sup>* h h' \<Longrightarrow> (section_step env)\<^sup>*\<^sup>* h h'"
  by (induction rule: rtranclp_induct) (auto intro: rtranclp.rtrancl_into_rtrancl whole)

interpretation hub_runs: invariant_relation "party_step env" hub_inv for env
  by unfold_locales (use party_step_good in \<open>auto simp: good_def\<close>)

end
