(* ===== verification/Party_Properties.thy ===== *)
theory Party_Properties
  imports Party_Safety
begin

text \<open>
  The properties of the watch-party hub, each a few steps over the component's lemmas.
\<close>

section \<open>Who moves the timeline\<close>

lemma handle_cases:
  assumes "handle env rid pid msg now h = (h', out, es)" "find_room h rid = Some a" "find_room h' rid = Some b"
  obtains "lookup_member a pid = None" "b = a" "h' = h"
  | m where "lookup_member a pid = Some m"
      "b = fst (handle_msg (driftLimit h) pid (m\<lparr>m_LastSeen := now\<rparr>) msg now (put_member pid (m\<lparr>m_LastSeen := now\<rparr>) a))"
proof (cases "lookup_member a pid")
  case None
  with assms show ?thesis using that(1) by (auto simp: handle_def handle_room_def)
next
  case (Some m)
  let ?m = "m\<lparr>m_LastSeen := now\<rparr>"
  obtain b' o' s where r: "handle_msg (driftLimit h) pid ?m msg now (put_member pid ?m a) = (b', o', s)"
    by (metis prod_cases3)
  with Some assms find_deref [OF assms(2)] have "b = b'" by (auto simp: handle_def handle_room_def Let_def)
  with r Some that(2) show ?thesis by simp
qed

lemma canControl_put [simp]: "canControl (put_member k m a) pid = canControl a pid"
  by (simp add: canControl_def put_member_def)

lemma timeline_add_chat: "timeline (add_chat c a) = timeline a"
  by (simp add: add_chat_def timeline_def Let_def)

text \<open>C1. A message from a client changes the shared timeline of its room (playing, position, clock or
  sequence number) only if its sender is a member who holds control and sends a playback
  command, or is the host and changes the settings.\<close>

theorem timeline_authority:
  assumes "handle env rid pid msg now h = (h', out, es)" "find_room h rid = Some a" "find_room h' rid = Some b"
    and "timeline b \<noteq> timeline a"
  shows "lookup_member a pid \<noteq> None \<and>
    (is_control (c_Type msg) \<and> canControl a pid \<or> c_Type msg = ''settings'' \<and> pid = r_HostID a)"
  using assms(1-3)
proof (cases rule: handle_cases)
  case 1
  with assms(4) show ?thesis by simp
next
  case (2 m)
  let ?m = "m\<lparr>m_LastSeen := now\<rparr>"
  let ?a = "put_member pid ?m a"
  have "is_control (c_Type msg) \<and> canControl a pid \<or> c_Type msg = ''settings'' \<and> pid = r_HostID a"
  proof (cases rule: handle_msg_room [of "driftLimit h" pid ?m msg now ?a])
    case (5 r' m' out)
    then have "timeline r' = timeline ?a"
      using correct_room [of "driftLimit h" "inc_reports ?a" "?m\<lparr>m_rep := report_of msg now\<rparr>" now] by auto
    with 5 2 assms(4) show ?thesis by simp
  qed (use 2 assms(4) in \<open>simp_all add: timeline_add_chat\<close>)
  with 2 show ?thesis by simp
qed

text \<open>C10. A playback command of a member who holds control takes effect at once: at the time it is handled
  the room is at the requested position (a pause at position 0 keeps the projected one), it plays
  unless it was paused, one sequence number has gone by, and every connected member is sent the new
  state, which is written to the database.\<close>

theorem control_takes_effect:
  assumes "find_room h rid = Some a" "lookup_member a pid = Some m" "canControl a pid"
    and "is_control (c_Type msg)" "in_i64 (c_PositionMS msg)"
  shows "\<exists>h' b st. handle env rid pid msg now h =
      (h', Some \<lparr>o_all = Some (StateMsg st), o_reply = None\<rparr>, save env (Some (snapshotLocked b))) \<and>
    find_room h' rid = Some b \<and> r_Seq b = r_Seq a + 1 \<and> r_Clock b = now \<and>
    r_Playing b = (c_Type msg \<in> {''start'', ''play''} \<or> c_Type msg = ''seek'' \<and> r_Playing a) \<and>
    expectedAt b now = (if c_Type msg = ''pause'' \<and> c_PositionMS msg \<le> 0 then expectedAt a now
                        else max 0 (c_PositionMS msg)) \<and>
    sp_seq st = r_Seq b \<and> sp_position_ms st = expectedAt b now \<and> sp_by st = Some (m_DisplayName m)"
proof -
  let ?m = "m\<lparr>m_LastSeen := now\<rparr>"
  let ?a = "put_member pid ?m a"
  let ?b = "apply_control msg now ?a"
  let ?st = "(state_payload_of (driftLimit h) ?b now)\<lparr>sp_reason := Some (c_Type msg), sp_by := Some (m_DisplayName m)\<rparr>"
  have t: "timeline ?a = timeline a" by simp
  then have a: "r_Seq ?a = r_Seq a" "r_Playing ?a = r_Playing a" "expectedAt ?a now = expectedAt a now"
    by (auto simp: timeline_def expectedAt_def)
  have e0: "0 \<le> expectedAt a now" by (rule expectedAt_nonneg)
  have h: "handle env rid pid msg now h =
      (put_room rid ?b h, Some \<lparr>o_all = Some (StateMsg ?st), o_reply = None\<rparr>, save env (Some (snapshotLocked ?b)))"
    using assms(1-4) by (auto simp: handle_def handle_room_def handle_msg_def Let_def is_control_def out_all_def)
  have f: "find_room (put_room rid ?b h) rid = Some ?b" using assms(1) by (simp add: find_deref)
  have p: "r_Playing ?b = (c_Type msg \<in> {''start'', ''play''} \<or> c_Type msg = ''seek'' \<and> r_Playing a)" "r_Clock ?b = now"
    using assms(4) a by (auto simp: apply_control_def all_members_def Let_def is_control_def)
  have pos: "r_PositionMS ?b = (if c_Type msg = ''pause'' \<and> c_PositionMS msg \<le> 0 then expectedAt a now else max 0 (c_PositionMS msg))"
    using assms(4) a by (auto simp: apply_control_def control_position_def all_members_def Let_def is_control_def)
  have "expectedAt ?b now = r_PositionMS ?b"
  proof (cases "r_Playing ?b")
    case True
    then have "\<not> c_Type msg = ''pause''" using p(1) by auto
    then have "in_i64 (r_PositionMS ?b)" "0 \<le> r_PositionMS ?b" using pos assms(5) by (auto simp: in_i64_def)
    then show ?thesis using p(2) by (simp add: expectedAt_at_clock)
  next
    case False
    then show ?thesis using pos e0 by (simp add: expectedAt_paused)
  qed
  with h f p pos a show ?thesis
    by (simp add: apply_control_seq state_payload_of_def)
qed

section \<open>What holds in every reachable state\<close>



text \<open>Where operations do not interleave, a principal banned from a room is never again among its
  members.\<close>

theorem banned_stays_out:
  assumes "hub_inv h" "(party_step env)\<^sup>*\<^sup>* h h'" "find_room h rid = Some a" "banned a mid"
    and "find_room h' rid = Some b"
  shows "banned b mid \<and> lookup_member b mid = None"
proof -
  have inv: "hub_inv h'" using hub_runs.reach_keeps [OF assms(2,1)] .
  have "hub_evolves h h'" using assms(2) steps_sections sections_evolve by blast
  then obtain b' where "deref h' rid = Some b'" "room_evolves a b'"
    using find_deref [OF assms(3)] by (meson hub_evolvesD)
  then have "banned b mid" using find_deref [OF assms(5)] assms(4) by (auto simp: room_evolves_def)
  with hub_inv_find [OF inv assms(5)] room_ok_banned_out show ?thesis by blast
qed

text \<open>C12. The check for a ban and the admission of a join are in different critical sections: when an
  administrator bans the principal between the two, the principal ends up a member of the room
  and banned from it. The same holds of \<^verbatim>\<open>ReclaimOwner\<close>, whose second half is the same.\<close>

theorem join_races_ban:
  assumes "Join_lookup (Some q) code h = Some rid"
  shows "\<exists>room. find_room (admit rid q later (fst (Kick env rid (ID (Some q)) True now h))) rid = Some room \<and>
    banned room (ID (Some q)) \<and> lookup_member room (ID (Some q)) \<noteq> None"
proof -
  from Join_lookup_room [OF assms] obtain a where a: "find_room h rid = Some a" by blast
  let ?k = "kick_room (ID (Some q)) True a"
  have "deref (fst (Kick env rid (ID (Some q)) True now h)) rid = Some ?k"
    using a by (simp add: Kick_def Let_def)
  moreover have "h_live (fst (Kick env rid (ID (Some q)) True now h)) = h_live h"
    using a by (simp add: Kick_def Let_def)
  moreover have "lookup_member (addMember q later ?k) (ID (Some q)) \<noteq> None"
    using addMember_keys(1) [of q later ?k] in_keys_map_of [of "ID (Some q)" "r_Members (addMember q later ?k)"]
    by (auto simp: lookup_member_def)
  moreover have "banned (addMember q later ?k) (ID (Some q))"
    using kick_room_bans [of "ID (Some q)" a] by (simp add: banned_def addMember_keys)
  ultimately show ?thesis using find_deref [OF a] by (simp add: admit_def)
qed

section \<open>Admission\<close>

lemma Join_lookup_find:
  assumes "hub_inv h" "Join_lookup (Some q) code h = Some rid"
  obtains a where "find_room h rid = Some a" "deref h rid = Some a" "rid \<in> set (h_live h)"
    "r_InviteCode a = code" "\<not> banned a (ID (Some q))"
proof -
  from Join_lookup_room [OF assms(2)] obtain a where a: "find_room h rid = Some a" "\<not> banned a (ID (Some q))" by blast
  have "r_InviteCode a = code"
  proof (cases "map_of (h_invites h) code")
    case None
    have "find_room h [] = None"
      using assms(1) by (auto simp: find_room_def hub_inv_def map_of_eq_None_iff keys_def)
    with None assms(2) show ?thesis by (simp add: Join_lookup_def)
  next
    case (Some rid')
    with assms(2) have "rid' = rid" by (auto simp: Join_lookup_def Let_def split: option.splits if_splits)
    with hub_inv_invite [OF assms(1) Some] a show ?thesis by auto
  qed
  with a that find_deref show ?thesis by blast
qed

text \<open>C11. A join that succeeds was made with the invite code of the room it enters, by a principal not
  banned from it who may play its title (a party-only account needs only the code), and makes
  them a member without touching the timeline; a join that fails changes nothing.\<close>

theorem join_sound:
  assumes "hub_inv h" "Join env p code now h = (h', res, es)"
  shows "case res of
      None \<Rightarrow> h' = h \<and> es = []
    | Some rid \<Rightarrow> \<exists>q a b. p = Some q \<and> find_room h rid = Some a \<and> r_InviteCode a = code \<and> \<not> banned a (ID p) \<and>
        (IsUser p \<and> p_PartyOnly q \<or> authorize env h p (r_ItemKind a) (r_ItemID a)) \<and>
        find_room h' rid = Some b \<and> lookup_member b (ID p) \<noteq> None \<and> timeline b = timeline a"
proof (cases res)
  case None
  with assms(2) show ?thesis
    by (auto simp: Join_def Let_def split: option.splits if_splits)
next
  case (Some rid)
  then have rid: "Join_lookup p code h = Some rid"
    using assms(2) by (auto simp: Join_def Let_def split: option.splits if_splits)
  obtain q where q: "p = Some q"
    using assms(2) rid Some by (cases p) (auto simp: Join_def split: option.splits)
  from Join_lookup_find [OF assms(1)] rid q obtain a where a: "find_room h rid = Some a" "deref h rid = Some a"
    "rid \<in> set (h_live h)" "r_InviteCode a = code" "\<not> banned a (ID p)" by metis
  then have r: "IsUser p \<and> p_PartyOnly q \<or> authorize env h p (r_ItemKind a) (r_ItemID a)" "h' = admit rid q now h"
    using assms(2) rid Some q by (auto simp: Join_def Let_def split: if_splits)
  have "find_room h' rid = Some (addMember q now a)" using r(2) a by (simp add: admit_def)
  moreover have "lookup_member (addMember q now a) (ID p) \<noteq> None"
    using addMember_keys(1) [of q now a] in_keys_map_of [of "ID p" "r_Members (addMember q now a)"] q
    by (auto simp: lookup_member_def)
  ultimately show ?thesis using a r q Some by (auto simp: addMember_keys)
qed

lemma case_option_Ex: "(case x of None \<Rightarrow> False | Some y \<Rightarrow> P y) \<longleftrightarrow> (\<exists>y. x = Some y \<and> P y)"
  by (cases x) simp_all

text \<open>Party access, the only access of a party-only account, is exactly membership of a listed room
  whose current title or queue holds the item.\<close>

theorem party_access_exact:
  assumes "hub_inv h"
  shows "PartyAccess pid kind iid h \<longleftrightarrow>
    (\<exists>rid room. find_room h rid = Some room \<and> lookup_member room pid \<noteq> None \<and>
       (r_ItemKind room = kind \<and> r_ItemID room = iid \<or>
        (\<exists>item \<in> set (r_Queue room). q_ItemKind item = kind \<and> q_ItemID item = iid)))"
proof -
  have "PartyAccess pid kind iid h \<longleftrightarrow>
    (\<exists>rid \<in> set (h_live h). \<exists>room. find_room h rid = Some room \<and> lookup_member room pid \<noteq> None \<and> room_has_item room kind iid)"
    by (simp add: PartyAccess_def list_ex_iff case_option_Ex)
  also have "\<dots> \<longleftrightarrow> (\<exists>rid room. find_room h rid = Some room \<and> lookup_member room pid \<noteq> None \<and> room_has_item room kind iid)"
    using find_deref by blast
  finally show ?thesis by (simp add: room_has_item_def list_ex_iff)
qed

text \<open>A websocket is opened only with an unexpired ticket that was minted for this room and this
  principal, from an allowed origin and, for a guest, while the share gate admits them.\<close>

theorem ws_open_needs_ticket:
  assumes "ws_open env origin p rid tok c now h = (h', True, es)"
  shows "\<exists>t room. map_of (h_tickets h) tok = Some t \<and> t_RoomID t = rid \<and> t_PrincipalID t = ID p \<and> now \<le> t_Exp t \<and>
    p \<noteq> None \<and> origin \<and> find_room h rid = Some room \<and>
    (\<forall>q. p = Some q \<and> IsGuest p \<longrightarrow> e_CanStream env (p_GuestSessionID q) (r_ItemKind room) (r_ItemID room))"
proof -
  have "ws_admitted env origin p rid tok now h" using assms by (auto simp: ws_open_def split: if_splits)
  then show ?thesis
    by (auto simp: ws_admitted_def CheckGate_def split: option.splits)
qed

text \<open>A ticket is minted only for a principal who may play the room's title and is not banned from
  the room, and is good for two minutes.\<close>

theorem ticket_minted:
  assumes "MintTicket env p rid raw now h = (h', Some tok)"
  shows "\<exists>q room. p = Some q \<and> find_room h rid = Some room \<and> \<not> banned room (ID p) \<and>
    authorize env h p (r_ItemKind room) (r_ItemID room) \<and>
    map_of (h_tickets h') tok = Some \<lparr>t_RoomID = rid, t_PrincipalID = ID p,
      t_GuestSessionID = p_GuestSessionID q, t_Exp = now + 120 * 1000000000\<rparr>"
  using assms by (auto simp: MintTicket_def split: option.splits if_splits)

section \<open>The tick\<close>

lemma tick_one_find:
  "find_room (fst (tick_one hard announce now (h, out) rid)) k =
     (if k \<noteq> rid then find_room h k
      else case find_room h rid of None \<Rightarrow> None
           | Some a \<Rightarrow> (case tick_room hard announce now a of (r, Remove) \<Rightarrow> None | (r, _) \<Rightarrow> Some r))"
proof (cases "find_room h rid")
  case (Some a)
  then have l: "rid \<in> set (h_live h)" by (simp add: find_deref)
  obtain r v where t: "tick_room hard announce now a = (r, v)" by (cases "tick_room hard announce now a")
  have u: "find_room (unlink_room rid r g) k = (if k = rid then None else find_room g k)" for g
    by (simp add: find_room_def)
  show ?thesis
    using Some t l u [of "put_room rid r h"] by (cases v) (simp_all add: tick_one_def)
qed (simp add: tick_one_def)

lemma ticks_find:
  "distinct rids \<Longrightarrow>
   find_room (fst (foldl (tick_one hard announce now) (h, out) rids)) k =
     (if k \<notin> set rids then find_room h k
      else case find_room h k of None \<Rightarrow> None
           | Some a \<Rightarrow> (case tick_room hard announce now a of (r, Remove) \<Rightarrow> None | (r, _) \<Rightarrow> Some r))"
proof (induction rids arbitrary: h out)
  case (Cons rid rids)
  obtain h1 o1 where 1: "tick_one hard announce now (h, out) rid = (h1, o1)"
    by (cases "tick_one hard announce now (h, out) rid")
  have "find_room h1 x = find_room h x" if "x \<noteq> rid" for x
    using tick_one_find [of hard announce now h out rid x] 1 that by simp
  with Cons 1 tick_one_find [of hard announce now h out rid rid] show ?case
    by (cases "k = rid") simp_all
qed simp

lemma find_cong:
  "h_rooms h' = h_rooms h \<Longrightarrow> h_live h' = h_live h \<Longrightarrow> find_room h' k = find_room h k"
  by (simp add: find_room_def)

lemma tick_find:
  assumes "hub_inv h"
  shows "\<exists>announce. find_room (fst (tick env now h)) rid =
    (case find_room h rid of None \<Rightarrow> None
     | Some a \<Rightarrow> (case tick_room (driftLimit h) announce now a of (r, Remove) \<Rightarrow> None | (r, _) \<Rightarrow> Some r))"
proof -
  let ?h = "h\<lparr>h_ticks := h_ticks h + 1, h_tickets := filter (\<lambda>(_, t). \<not> now > t_Exp t) (h_tickets h)\<rparr>"
  let ?o = "\<lparr>k_snaps = [], k_gone = [], k_sends = []\<rparr>"
  have d: "distinct (h_live ?h)" "driftLimit ?h = driftLimit h" using assms by (simp_all add: hub_inv_def driftLimit_def)
  have f: "find_room ?h k = find_room h k" for k by (rule find_cong) simp_all
  have "fst (tick env now h) = fst (foldl (tick_one (driftLimit h) (h_ticks ?h mod 2 = 0) now) (?h, ?o) (h_live ?h))"
    by (simp add: tick_def Let_def d(2) split: prod.split)
  moreover have "find_room h k = None" if "k \<notin> set (h_live h)" for k using that by (simp add: find_room_def)
  ultimately show ?thesis
    using ticks_find [OF d(1), of "driftLimit h" "h_ticks ?h mod 2 = 0" now ?h ?o rid] f
    by (intro exI [of _ "h_ticks ?h mod 2 = 0"]) auto
qed

text \<open>What is left of a room that a tick keeps: the realignment resets modes only.\<close>

lemma realign_members:
  "r_Members (fst (realignLocked hard r now)) \<in> {r_Members r, r_Members (all_members (\<lambda>m. m\<lparr>m_Mode := []\<rparr>) r)}"
  "r_HostID (fst (realignLocked hard r now)) = r_HostID r"
  by (cases rule: realign_cases [of hard r now]; simp add: realigned_def all_members_def)+

definition last_seen :: "room \<Rightarrow> string \<Rightarrow> gtime option" where
  "last_seen r k = map_option m_LastSeen (lookup_member r k)"

lemma map_of_map_value: "map_of (map (\<lambda>(k, v). (k, f v)) xs) k = map_option f (map_of xs k)"
  by (induction xs) auto

lemma realign_seen: "last_seen (fst (realignLocked hard r now)) k = last_seen r k"
  using realign_members(1) [of hard r now]
  by (auto simp: last_seen_def lookup_member_def all_members_def map_of_map_value option.map_comp comp_def)

lemma tick_room_kept:
  assumes "tick_room hard announce now a = (b, v)" "v \<noteq> Remove"
  shows "last_seen b k = last_seen (rotate_host now (drop_expired now a)) k \<and>
    (r_HostID b = r_HostID (rotate_host now (drop_expired now a)))"
proof -
  let ?r = "rotate_host now (drop_expired now a)"
  have s: "last_seen (r\<lparr>r_EmptySince := t\<rparr>) k = last_seen r k" for r t
    by (simp add: last_seen_def lookup_member_def)
  show ?thesis
    using assms realign_seen [of hard "?r\<lparr>r_EmptySince := 0\<rparr>" now k] s
      realign_members(2) [of hard "?r\<lparr>r_EmptySince := 0\<rparr>" now]
    by (cases "realignLocked hard (?r\<lparr>r_EmptySince := 0\<rparr>) now")
      (auto simp: tick_room_def Let_def split: if_splits bool.splits)
qed

lemma drop_expired_seen:
  assumes "members_ok a"
  shows "last_seen (drop_expired now a) k =
    (case last_seen a k of None \<Rightarrow> None | Some t \<Rightarrow> if time_sub now t > memberLease then None else Some t)"
  by (auto simp: last_seen_def drop_expired_members [OF assms] split: option.split)

lemma rotate_host_seen:
  assumes "members_ok r" "host_ok r" "r_Members r \<noteq> []" "r_HostID r \<noteq> []"
  shows "\<exists>t. last_seen (rotate_host now r) (r_HostID (rotate_host now r)) = Some t \<and>
    (time_sub now t \<le> hostGrace \<or> (\<forall>k u. last_seen r k = Some u \<longrightarrow> u \<le> t))"
proof -
  have "r_HostID r \<in> set (keys (r_Members r))" using assms by (simp add: host_ok_def)
  then obtain m where m: "lookup_member r (r_HostID r) = Some m" using in_keys_map_of by (force simp: lookup_member_def)
  show ?thesis
  proof (cases "time_sub now (m_LastSeen m) \<le> hostGrace")
    case True
    then show ?thesis using m assms(4) by (simp add: rotate_host_def last_seen_def)
  next
    case False
    then have "rotate_host now r = promoteLocked r" using m assms(4) by (simp add: rotate_host_def)
    with promote_latest [OF assms(1,3)] show ?thesis
      by (fastforce simp: last_seen_def lookup_member_def dest: map_of_SomeD)
  qed
qed


text \<open>A tick removes a room only if every member's lease has run out and the room has been empty for
  more than two hours.\<close>

theorem tick_removes_empty:
  assumes "hub_inv h" "find_room h rid = Some a" "find_room (fst (tick env now h)) rid = None"
  shows "(\<forall>k t. last_seen a k = Some t \<longrightarrow> time_sub now t > 45 * 1000000000) \<and>
    r_EmptySince a \<noteq> 0 \<and> time_sub now (r_EmptySince a) > 7200 * 1000000000"
proof -
  obtain ann where "find_room (fst (tick env now h)) rid =
    (case find_room h rid of None \<Rightarrow> None
     | Some a \<Rightarrow> (case tick_room (driftLimit h) ann now a of (r, Remove) \<Rightarrow> None | (r, _) \<Rightarrow> Some r))"
    using tick_find [OF assms(1)] by blast
  with assms(2,3) obtain r where t: "tick_room (driftLimit h) ann now a = (r, Remove)"
    by (auto split: prod.splits tick_verdict.splits)
  have a: "members_ok a" using hub_inv_find [OF assms(1,2)] by (simp add: room_ok_def)
  have es: "r_EmptySince (foldl (\<lambda>r (mid, m). if P m then dropLocked mid r else r) r0 ms) = r_EmptySince r0" for P r0 ms
    by (induction ms arbitrary: r0) (auto simp: dropLocked_def promoteLocked_def Let_def split: option.split)
  have "r_EmptySince (rotate_host now (drop_expired now a)) = r_EmptySince a"
    by (simp add: rotate_host_def promoteLocked_def drop_expired_def es split: option.split)
  moreover have e: "r_Members (drop_expired now a) = []"
    using t by (auto simp: tick_room_def Let_def split: if_splits prod.splits bool.splits)
  ultimately have "r_EmptySince a \<noteq> 0 \<and> time_sub now (r_EmptySince a) > 7200 * 1000000000"
    using t by (auto simp: tick_room_def Let_def split: if_splits)
  moreover have "last_seen (drop_expired now a) k = None" for k using e by (simp add: last_seen_def lookup_member_def)
  then have "time_sub now t > 45 * 1000000000" if "last_seen a k = Some t" for k t
    using that drop_expired_seen [OF a, of now k] by (auto split: if_splits)
  ultimately show ?thesis by blast
qed

section \<open>Synchronisation\<close>



text \<open>Over any stream of position reports of one member, whatever happens to the room in between,
  the seeks the hub sends to that member are at least three seconds apart.\<close>

theorem seeks_spaced:
  "successively (\<lambda>t u. 3 * 1000000000 \<le> time_sub u t) (m_LastSeek m # seek_times hard m reports)"
  using seek_times_spaced [of m hard reports] by simp

section \<open>Restart\<close>

lemma expectedAt_cong:
  "r_Playing a = r_Playing b \<Longrightarrow> r_PositionMS a = r_PositionMS b \<Longrightarrow> r_Clock a = r_Clock b \<Longrightarrow>
   expectedAt a t = expectedAt b t"
  by (simp add: expectedAt_def Let_def)

lemma foldl_set_key_fresh:
  "distinct (map f rs) \<Longrightarrow> set (map f rs) \<inter> set (keys acc) = {} \<Longrightarrow>
   foldl (\<lambda>ms r. set_key (f r) (g r) ms) acc rs = acc @ map (\<lambda>r. (f r, g r)) rs"
proof (induction rs arbitrary: acc)
  case (Cons r rs)
  have "set_key (f r) (g r) acc = acc @ [(f r, g r)]"
    using Cons.prems(2) by (induction acc) (auto simp: set_key_def keys_def)
  with Cons show ?case by (auto simp: keys_def)
qed simp


section \<open>The properties at work\<close>

text \<open>A room created by one user and joined by another.\<close>

definition demo_env :: party_env where
  "demo_env = \<lparr>e_Locator = None, e_Permitted = None, e_Grants = None, e_CanStream = (\<lambda>_ _ _. True),
     e_ShareToken = (\<lambda>_. []), e_DB = True\<rparr>"

definition demo_user :: "string \<Rightarrow> principal" where
  "demo_user name = \<lparr>p_Kind = KindUser, p_UserID = name, p_GuestSessionID = [], p_MediaKind = [], p_MediaID = [],
     p_IsAdmin = False, p_DisplayName = name, p_Username = name, p_CanDownload = False, p_Permissions = [],
     p_PartyOnly = False\<rparr>"

definition demo_new :: hub where
  "demo_new = fst (Create demo_env (Some (demo_user ''ann'')) ''movie'' ''m1'' ''r1'' ''CODE'' 1 (empty_hub 0))"

definition demo_hub :: hub where
  "demo_hub = fst (Join demo_env (Some (demo_user ''bob'')) ''CODE'' 2 demo_new)"

lemma demo_reach: "(party_step demo_env)\<^sup>*\<^sup>* (empty_hub 0) demo_hub"
proof -
  have "party_step demo_env (empty_hub 0) demo_new"
    unfolding demo_new_def by (rule step_create) (simp_all add: empty_hub_def keys_def)
  moreover have "party_step demo_env demo_new demo_hub"
    unfolding demo_hub_def by (rule step_join)
  ultimately show ?thesis by simp
qed

definition demo_room :: room where
  "demo_room = the (find_room demo_hub ''r1'')"

definition demo_play :: "hub \<times> outbound option \<times> effect list" where
  "demo_play = handle demo_env ''r1'' ''ann'' (plain_msg ''play'' 7000) 5 demo_hub"

definition demo_played :: room where
  "demo_played = the (find_room (fst demo_play) ''r1'')"

lemma demo_inv: "hub_inv demo_hub"
  using hub_runs.reach_keeps [OF demo_reach hub_inv_empty] .

lemma demo_inv_new: "hub_inv demo_new"
proof -
  have "party_step demo_env (empty_hub 0) demo_new"
    unfolding demo_new_def by (rule step_create) (simp_all add: empty_hub_def keys_def)
  then show ?thesis using hub_runs.reach_keeps [of demo_env "empty_hub 0" demo_new] hub_inv_empty by blast
qed

lemma demo_find: "find_room demo_hub ''r1'' = Some demo_room" "find_room (fst demo_play) ''r1'' = Some demo_played"
proof -
  have "find_room demo_hub ''r1'' \<noteq> None" by code_simp
  then show "find_room demo_hub ''r1'' = Some demo_room" by (simp add: demo_room_def)
  have "find_room (fst demo_play) ''r1'' \<noteq> None" by code_simp
  then show "find_room (fst demo_play) ''r1'' = Some demo_played" by (simp add: demo_played_def)
qed

theorem timeline_authority_witness:
  "lookup_member demo_room ''ann'' \<noteq> None \<and>
   (is_control ''play'' \<and> canControl demo_room ''ann'' \<or> ''play'' = ''settings'' \<and> ''ann'' = r_HostID demo_room)"
proof -
  have "timeline demo_played \<noteq> timeline demo_room" by code_simp
  moreover have "handle demo_env ''r1'' ''ann'' (plain_msg ''play'' 7000) 5 demo_hub =
      (fst demo_play, fst (snd demo_play), snd (snd demo_play))" by (simp add: demo_play_def)
  ultimately have "lookup_member demo_room ''ann'' \<noteq> None \<and>
    (is_control (c_Type (plain_msg ''play'' 7000)) \<and> canControl demo_room ''ann'' \<or>
     c_Type (plain_msg ''play'' 7000) = ''settings'' \<and> ''ann'' = r_HostID demo_room)"
    using timeline_authority demo_find by blast
  then show ?thesis by (simp add: plain_msg_def)
qed

definition demo_host :: member where
  "demo_host = the (lookup_member demo_room ''ann'')"

theorem control_takes_effect_witness:
  "\<exists>h' b st. handle demo_env ''r1'' ''ann'' (plain_msg ''play'' 7000) 5 demo_hub =
      (h', Some \<lparr>o_all = Some (StateMsg st), o_reply = None\<rparr>, save demo_env (Some (snapshotLocked b))) \<and>
    find_room h' ''r1'' = Some b \<and> r_Playing b \<and> expectedAt b 5 = 7000 \<and> r_Seq b = r_Seq demo_room + 1"
proof -
  have "lookup_member demo_room ''ann'' \<noteq> None" "canControl demo_room ''ann''" by code_simp+
  then have m: "lookup_member demo_room ''ann'' = Some demo_host" "canControl demo_room ''ann''"
    by (simp_all add: demo_host_def)
  have c: "is_control (c_Type (plain_msg ''play'' 7000))" "in_i64 (c_PositionMS (plain_msg ''play'' 7000))" by code_simp+
  from control_takes_effect [OF demo_find(1) m c, of demo_env 5] show ?thesis
    by (fastforce simp: plain_msg_def)
qed



definition demo_banned :: hub where
  "demo_banned = fst (Kick demo_env ''r1'' ''bob'' True 6 demo_hub)"

definition demo_rejoin :: hub where
  "demo_rejoin = fst (Join demo_env (Some (demo_user ''bob'')) ''CODE'' 8 demo_banned)"

definition demo_room_at :: "hub \<Rightarrow> room" where
  "demo_room_at h = the (find_room h ''r1'')"

lemma demo_room_at: "find_room h ''r1'' \<noteq> None \<Longrightarrow> find_room h ''r1'' = Some (demo_room_at h)"
  by (simp add: demo_room_at_def)

theorem banned_stays_out_witness:
  "banned (demo_room_at demo_rejoin) ''bob'' \<and> lookup_member (demo_room_at demo_rejoin) ''bob'' = None"
proof -
  have "hub_inv demo_banned" using demo_inv Kick_good by (simp add: demo_banned_def good_def)
  moreover have "(party_step demo_env)\<^sup>*\<^sup>* demo_banned demo_rejoin"
    unfolding demo_rejoin_def by (intro r_into_rtranclp step_join)
  moreover have "find_room demo_banned ''r1'' = Some (demo_room_at demo_banned)"
    by (rule demo_room_at) code_simp
  moreover have "find_room demo_rejoin ''r1'' = Some (demo_room_at demo_rejoin)"
    by (rule demo_room_at) code_simp
  moreover have "banned (demo_room_at demo_banned) ''bob''" by code_simp
  ultimately show ?thesis using banned_stays_out by blast
qed

theorem join_races_ban_witness:
  "\<exists>room. find_room (admit ''r1'' (demo_user ''bob'') 4 (fst (Kick demo_env ''r1'' (ID (Some (demo_user ''bob''))) True 3 demo_new)))
      ''r1'' = Some room \<and> banned room ''bob'' \<and> lookup_member room ''bob'' \<noteq> None"
proof -
  have "Join_lookup (Some (demo_user ''bob'')) ''CODE'' demo_new = Some ''r1''" by code_simp
  from join_races_ban [OF this, of 4 demo_env 3] show ?thesis
    by (simp add: ID_def IsGuest_def demo_user_def KindUser_def KindGuestShare_def)
qed

theorem join_sound_witness:
  "\<exists>q a b. Some (demo_user ''bob'') = Some q \<and> find_room demo_new ''r1'' = Some a \<and> r_InviteCode a = ''CODE'' \<and>
     find_room demo_hub ''r1'' = Some b \<and> lookup_member b ''bob'' \<noteq> None"
proof -
  have "fst (snd (Join demo_env (Some (demo_user ''bob'')) ''CODE'' 2 demo_new)) = Some ''r1''" by code_simp
  then have "Join demo_env (Some (demo_user ''bob'')) ''CODE'' 2 demo_new =
      (demo_hub, Some ''r1'', snd (snd (Join demo_env (Some (demo_user ''bob'')) ''CODE'' 2 demo_new)))"
    by (simp add: demo_hub_def prod_eq_iff)
  from join_sound [OF demo_inv_new this] show ?thesis
    by (auto simp: ID_def IsGuest_def demo_user_def KindUser_def KindGuestShare_def)
qed

theorem party_access_exact_witness:
  "\<exists>rid room. find_room demo_hub rid = Some room \<and> lookup_member room ''bob'' \<noteq> None"
proof -
  have "PartyAccess ''bob'' ''movie'' ''m1'' demo_hub" by code_simp
  then show ?thesis using party_access_exact [OF demo_inv, of "''bob''" "''movie''" "''m1''"] by blast
qed

definition demo_mint :: hub where
  "demo_mint = fst (MintTicket demo_env (Some (demo_user ''bob'')) ''r1'' (Some ''tok'') 10 demo_hub)"

theorem ticket_minted_witness:
  "\<exists>q room. Some (demo_user ''bob'') = Some q \<and> find_room demo_hub ''r1'' = Some room \<and> \<not> banned room ''bob''"
proof -
  have "snd (MintTicket demo_env (Some (demo_user ''bob'')) ''r1'' (Some ''tok'') 10 demo_hub) = Some ''tok''" by code_simp
  then have "MintTicket demo_env (Some (demo_user ''bob'')) ''r1'' (Some ''tok'') 10 demo_hub = (demo_mint, Some ''tok'')"
    by (simp add: demo_mint_def prod_eq_iff)
  from ticket_minted [OF this] show ?thesis
    by (auto simp: ID_def IsGuest_def demo_user_def KindUser_def KindGuestShare_def)
qed

definition demo_open :: "hub \<times> bool \<times> effect list" where
  "demo_open = ws_open demo_env True (Some (demo_user ''bob'')) ''r1'' ''tok'' 1 11 demo_mint"

theorem ws_open_needs_ticket_witness:
  "\<exists>t room. map_of (h_tickets demo_mint) ''tok'' = Some t \<and> t_RoomID t = ''r1'' \<and> find_room demo_mint ''r1'' = Some room"
proof -
  have "fst (snd demo_open)" by code_simp
  then have "ws_open demo_env True (Some (demo_user ''bob'')) ''r1'' ''tok'' 1 11 demo_mint =
      (fst demo_open, True, snd (snd demo_open))"
    by (simp add: demo_open_def prod_eq_iff)
  from ws_open_needs_ticket [OF this] show ?thesis by blast
qed

definition demo_alive :: hub where
  "demo_alive = fst (handle demo_env ''r1'' ''bob'' (plain_msg ''ping'' 0) (seconds 40) demo_hub)"

definition demo_ticked :: hub where
  "demo_ticked = fst (tick demo_env (seconds 60) demo_alive)"


definition demo_left :: hub where
  "demo_left = fst (tick demo_env (seconds 200) demo_hub)"

theorem tick_removes_empty_witness:
  "r_EmptySince (demo_room_at demo_left) \<noteq> 0 \<and>
   time_sub (seconds 8000) (r_EmptySince (demo_room_at demo_left)) > 7200 * 1000000000"
proof -
  have inv: "hub_inv demo_left" using demo_inv tick_good by (simp add: demo_left_def good_def)
  have f: "find_room demo_left ''r1'' = Some (demo_room_at demo_left)" by (rule demo_room_at) code_simp
  have "find_room (fst (tick demo_env (seconds 8000) demo_left)) ''r1'' = None" by code_simp
  from tick_removes_empty [OF inv f this] show ?thesis by blast
qed

text \<open>Three viewers who all run two seconds ahead of the room.\<close>

definition demo_viewer :: "string \<Rightarrow> i64 \<Rightarrow> member" where
  "demo_viewer k pos = \<lparr>m_ID = k, m_Kind = KindUser, m_DisplayName = k, m_GuestSessionID = [], m_Ready = True,
     m_LastSeen = seconds 100, m_Conn = Some 1, m_DriftMS = 0, m_Mode = [], m_Rate = 1, m_LastSeek = 0,
     m_rep = \<lparr>rep_PosMS = pos, rep_At = seconds 100, rep_Received = seconds 100, rep_Playing = True, rep_Buffering = False\<rparr>\<rparr>"

definition demo_ahead :: room where
  "demo_ahead = demo_room\<lparr>r_Playing := True, r_PositionMS := 5000, r_Clock := seconds 100, r_hostActionAt := seconds 50,
     r_majDir := 1, r_majSince := seconds 96,
     r_Members := [(''ann'', demo_viewer ''ann'' 7000), (''bob'', demo_viewer ''bob'' 7100), (''cy'', demo_viewer ''cy'' 7200)]\<rparr>"


definition demo_corrected :: "room \<times> member \<times> payload option" where
  "demo_corrected = correctLocked 1000 demo_ahead (demo_viewer ''ann'' 5600) (seconds 100)"



end
