(* ===== verification/Routing.thy ===== *)
theory Routing
  imports Float64 "HOL-Library.Multiset" "HOL-Library.Product_Lexorder" "HOL-Library.List_Lexorder" "HOL-Library.Char_ord"
begin

text \<open>
  Placement of playback on worker nodes (\<^verbatim>\<open>src/internal/backend/routing.go\<close>, \<^verbatim>\<open>backend.go\<close>,
  \<^verbatim>\<open>src/internal/mesh/placement.go\<close>): the node table, the router's cache, the choice of
  candidates by priority tier and smooth weighted rotation, health bookkeeping, and the
  reordering of a tier by measured reliability. The node table is an association list by ID;
  network calls enter as their outcomes. Node credentials and endpoint validation are not
  modelled: their verdicts are part of a probe's outcome.
\<close>

section \<open>Nodes\<close>

record node =
  n_ID :: string
  n_Name :: string
  n_Host :: string
  n_Port :: int
  n_Scheme :: string
  n_Role :: string
  n_Region :: string
  n_Capabilities :: string
  n_Priority :: int
  n_Weight :: int
  n_Capacity :: int
  n_Enabled :: bool
  n_Status :: string
  n_LatencyMS :: int
  n_Health :: string
  n_Draining :: bool
  n_Failures :: int
  n_LastError :: string

type_synonym node_table = "(string \<times> node) list"

definition Store_Get :: "string \<Rightarrow> node_table \<Rightarrow> node option" where
  "Store_Get nid t = map_of t nid"

text \<open>\<^verbatim>\<open>ORDER BY priority DESC, name ASC\<close>.\<close>

definition Store_List :: "node_table \<Rightarrow> node list" where
  "Store_List t = sort_key (\<lambda>n. (- n_Priority n, n_Name n)) (map snd t)"

definition update_row :: "string \<Rightarrow> (node \<Rightarrow> node) \<Rightarrow> node_table \<Rightarrow> node_table" where
  "update_row nid f t = map (\<lambda>(k, n). (k, if k = nid then f n else n)) t"

definition RecordFailure :: "string \<Rightarrow> string \<Rightarrow> node_table \<Rightarrow> node_table" where
  "RecordFailure nid msg t =
     update_row nid (\<lambda>n. n\<lparr>n_Failures := n_Failures n + 1, n_LastError := take 300 msg\<rparr>) t"

definition SetHealth :: "string \<Rightarrow> string \<Rightarrow> int \<Rightarrow> string \<Rightarrow> node_table \<Rightarrow> node_table" where
  "SetHealth nid status latency health t =
     update_row nid (\<lambda>n. n\<lparr>n_Status := status, n_LatencyMS := latency, n_Health := health\<rparr>) t"

definition Store_Delete :: "string \<Rightarrow> node_table \<Rightarrow> node_table" where
  "Store_Delete nid t = del_key nid t"

text \<open>\<^verbatim>\<open>Upsert\<close>: \<open>fresh\<close> is a new UUID. The failure history of an existing row stays.\<close>

definition upsert_defaults :: "string \<Rightarrow> node \<Rightarrow> node" where
  "upsert_defaults fresh n =
     (let n = (if trimSpace (n_ID n) = [] then n\<lparr>n_ID := fresh\<rparr> else n);
          n = (if n_Status n = [] then n\<lparr>n_Status := ''unknown''\<rparr> else n);
          n = (if n_Scheme n = [] then n\<lparr>n_Scheme := ''https''\<rparr> else n)
      in if n_Role n = [] then n\<lparr>n_Role := ''media-worker''\<rparr> else n)"

definition Upsert :: "string \<Rightarrow> node \<Rightarrow> node_table \<Rightarrow> node \<times> node_table" where
  "Upsert fresh n t =
     (let n = upsert_defaults fresh n;
          n = (case map_of t (n_ID n) of
                 None \<Rightarrow> n\<lparr>n_Failures := 0, n_LastError := []\<rparr>
               | Some old \<Rightarrow> n\<lparr>n_Failures := n_Failures old, n_LastError := n_LastError old\<rparr>)
      in (n, set_key (n_ID n) n t))"

section \<open>Candidates\<close>

record route_request =
  q_Role :: string
  q_Roles :: "string list"
  q_Capability :: string
  q_Region :: string

definition roleOK :: "route_request \<Rightarrow> string \<Rightarrow> bool" where
  "roleOK q role =
     (if q_Role q \<noteq> [] \<and> role \<noteq> q_Role q then False
      else if q_Roles q = [] then True
      else list_ex (\<lambda>r. r = role) (q_Roles q))"

definition hasCapability :: "string \<Rightarrow> string \<Rightarrow> bool" where
  "hasCapability list wanted =
     (let wanted = trimSpace (toLower wanted)
      in list_ex (\<lambda>item. trimSpace (toLower item) = wanted) (splitOn (CHR '','') list))"

definition routable :: "route_request \<Rightarrow> node \<Rightarrow> bool" where
  "routable q n \<longleftrightarrow>
     \<not> (\<not> n_Enabled n \<or> n_Draining n \<or> n_Status n \<noteq> ''healthy'' \<or> \<not> roleOK q (n_Role n)) \<and>
     \<not> (q_Region q \<noteq> [] \<and> n_Region n \<noteq> q_Region q) \<and>
     \<not> (q_Capability q \<noteq> [] \<and> \<not> hasCapability (n_Capabilities n) (q_Capability q))"

text \<open>The distinct priorities in the order they are met, then sorted from the highest.\<close>

definition tier_priorities :: "node list \<Rightarrow> int list" where
  "tier_priorities ns = rev (sort (foldl (\<lambda>ps n. if n_Priority n \<in> set ps then ps else ps @ [n_Priority n]) [] ns))"

definition tier :: "int \<Rightarrow> node list \<Rightarrow> node list" where
  "tier p ns = filter (\<lambda>n. n_Priority n = p) ns"

definition byWeight :: "node list \<Rightarrow> node list" where
  "byWeight ns = sort_key (\<lambda>n. - n_Weight n) ns"

type_synonym credit = "(string \<times> int) list"

definition credit_of :: "credit \<Rightarrow> string \<Rightarrow> int" where
  "credit_of cur nid = (case map_of cur nid of None \<Rightarrow> 0 | Some c \<Rightarrow> c)"

definition node_weight :: "node \<Rightarrow> int" where
  "node_weight n = (if n_Weight n \<le> 0 then 1 else n_Weight n)"

text \<open>One pass of smooth weighted round robin: the running state of the loop and one iteration.\<close>

record wrr =
  w_cur :: credit
  w_total :: int
  w_best :: int
  w_selected :: nat
  w_index :: nat

definition wrr_step :: "wrr \<Rightarrow> node \<Rightarrow> wrr" where
  "wrr_step s n =
     (let c = credit_of (w_cur s) (n_ID n) + node_weight n;
          s = s\<lparr>w_cur := set_key (n_ID n) c (w_cur s), w_total := w_total s + node_weight n\<rparr>;
          s = (if c > w_best s then s\<lparr>w_best := c, w_selected := w_index s\<rparr> else s)
      in s\<lparr>w_index := w_index s + 1\<rparr>)"

definition weighted :: "node list \<Rightarrow> credit \<Rightarrow> node \<times> credit" where
  "weighted ns cur =
     (let s = foldl wrr_step \<lparr>w_cur = cur, w_total = 0, w_best = - (2 ^ 30), w_selected = 0, w_index = 0\<rparr> ns;
          sel = ns ! w_selected s
      in (sel, set_key (n_ID sel) (credit_of (w_cur s) (n_ID sel) - w_total s) (w_cur s)))"

text \<open>\<open>None\<close> is \<^verbatim>\<open>ErrNoHealthyNode\<close>.\<close>

definition Candidates :: "route_request \<Rightarrow> node list \<Rightarrow> credit \<Rightarrow> node list option \<times> credit" where
  "Candidates q nodes cur =
     (let ok = filter (routable q) nodes
      in case tier_priorities ok of
           [] \<Rightarrow> (None, cur)
         | p # ps \<Rightarrow>
             (let (first, cur) = weighted (tier p ok) cur
              in (Some (first # filter (\<lambda>n. n_ID n \<noteq> n_ID first) (byWeight (tier p ok))
                        @ concat (map (\<lambda>p. byWeight (tier p ok)) ps)), cur)))"

definition Select :: "route_request \<Rightarrow> node list \<Rightarrow> credit \<Rightarrow> node option \<times> credit" where
  "Select q nodes cur =
     (case Candidates q nodes cur of
        (None, cur) \<Rightarrow> (None, cur)
      | (Some ns, cur) \<Rightarrow> (Some (ns ! 0), cur))"

section \<open>The router\<close>

record router =
  rt_cur :: credit
  rt_nodes :: "node list option"
  rt_loaded :: gtime
  rt_fails :: "(string \<times> int) list"

definition new_router :: router where
  "new_router = \<lparr>rt_cur = [], rt_nodes = None, rt_loaded = 0, rt_fails = []\<rparr>"

definition nodeCacheTTL :: duration where "nodeCacheTTL = seconds 2"
definition softFailures :: int where "softFailures = 2"

definition Invalidate :: "router \<Rightarrow> router" where
  "Invalidate r = r\<lparr>rt_loaded := 0\<rparr>"

text \<open>\<^verbatim>\<open>cached\<close>: the answer of \<^verbatim>\<open>Store.List\<close> is an argument, None when the database fails.\<close>

definition cached :: "gtime \<Rightarrow> node list option \<Rightarrow> router \<Rightarrow> router \<times> node list option" where
  "cached now listed r =
     (if time_sub now (rt_loaded r) < nodeCacheTTL \<and> rt_nodes r \<noteq> None then (r, rt_nodes r)
      else (case listed of
              None \<Rightarrow> (r, rt_nodes r)
            | Some ns \<Rightarrow> (r\<lparr>rt_nodes := Some ns, rt_loaded := now\<rparr>, Some ns)))"

definition setCachedStatus :: "string \<Rightarrow> string \<Rightarrow> router \<Rightarrow> router" where
  "setCachedStatus nid status r =
     r\<lparr>rt_nodes := map_option (map (\<lambda>n. if n_ID n = nid then n\<lparr>n_Status := status\<rparr> else n)) (rt_nodes r)\<rparr>"

definition Route :: "route_request \<Rightarrow> gtime \<Rightarrow> node list option \<Rightarrow> router \<Rightarrow> router \<times> node list option" where
  "Route q now listed r =
     (case cached now listed r of
        (r, None) \<Rightarrow> (r, None)
      | (r, Some ns) \<Rightarrow> (case Candidates q ns (rt_cur r) of (out, cur) \<Rightarrow> (r\<lparr>rt_cur := cur\<rparr>, out)))"

definition MarkDown :: "string \<Rightarrow> string \<Rightarrow> router \<Rightarrow> node_table \<Rightarrow> router \<times> node_table" where
  "MarkDown nid msg r t =
     (let r = setCachedStatus nid ''unhealthy'' r;
          r = r\<lparr>rt_fails := set_key nid softFailures (rt_fails r)\<rparr>
      in (r, SetHealth nid ''unhealthy'' 0 msg (RecordFailure nid msg t)))"

definition probeFailed :: "node \<Rightarrow> string \<Rightarrow> bool \<Rightarrow> router \<Rightarrow> node_table \<Rightarrow> router \<times> node_table" where
  "probeFailed n cause hard r t =
     (let msg = trimSpace cause;
          k = credit_of (rt_fails r) (n_ID n) + 1;
          r = r\<lparr>rt_fails := set_key (n_ID n) k (rt_fails r)\<rparr>;
          t = RecordFailure (n_ID n) msg t
      in if hard \<or> k \<ge> softFailures \<or> n_Status n \<noteq> ''healthy''
         then (setCachedStatus (n_ID n) ''unhealthy'' r, SetHealth (n_ID n) ''unhealthy'' 0 msg t)
         else (r, t))"

text \<open>
  What a probe ran into: a bad endpoint, credential or request (a hard failure), a signing
  error (reported, not counted), a transport error (hard when the node could not be dialled),
  or an HTTP answer with its status, its latency and the health text.
\<close>

datatype probe_outcome =
    Unusable string
  | Unsigned
  | Unreachable string bool
  | Answered int string int string

definition Probe :: "string \<Rightarrow> probe_outcome \<Rightarrow> router \<Rightarrow> node_table \<Rightarrow> router \<times> node_table \<times> bool" where
  "Probe nid outcome r t =
     (case Store_Get nid t of
        None \<Rightarrow> (r, t, False)
      | Some n \<Rightarrow>
          (case outcome of
             Unusable msg \<Rightarrow> (let (r, t) = probeFailed n msg True r t in (r, t, False))
           | Unsigned \<Rightarrow> (r, t, False)
           | Unreachable msg dial \<Rightarrow> (let (r, t) = probeFailed n msg dial r t in (r, t, False))
           | Answered code text latency health \<Rightarrow>
               if code < 200 \<or> code \<ge> 300 then
                 (let (r, t) = probeFailed n (''health endpoint returned '' @ text) (code = 401 \<or> code = 403) r t
                  in (r, t, False))
               else
                 (let r = r\<lparr>rt_fails := del_key nid (rt_fails r)\<rparr>
                  in (setCachedStatus nid ''healthy'' r, SetHealth nid ''healthy'' latency health t, True))))"

section \<open>Administration\<close>

definition validNodeRole :: "string \<Rightarrow> bool" where
  "validNodeRole role \<longleftrightarrow> role = ''media-worker'' \<or> role = ''transcode-worker'' \<or> role = ''storage-worker''"

text \<open>\<^verbatim>\<open>net.JoinHostPort\<close> brackets a host that contains a colon.\<close>

definition BaseURL :: "node \<Rightarrow> string" where
  "BaseURL n = n_Scheme n @ ''://'' @ (if CHR '':'' \<in> set (n_Host n) then ''['' @ n_Host n @ '']'' else n_Host n)
     @ '':'' @ int_dec (n_Port n)"

datatype 'a admin_reply = AdminOK 'a | AdminBadRequest | AdminNotFound

text \<open>\<^verbatim>\<open>handleUpsert\<close>: \<open>endpoint_ok\<close> is the verdict of \<^verbatim>\<open>ValidateEndpoint\<close> on the trimmed host.\<close>

definition handleUpsert :: "(string \<Rightarrow> string \<Rightarrow> int \<Rightarrow> bool) \<Rightarrow> string \<Rightarrow> node \<Rightarrow> router \<Rightarrow> node_table
    \<Rightarrow> router \<times> node_table \<times> node admin_reply" where
  "handleUpsert endpoint_ok fresh body r t =
     (if trimSpace (n_Name body) = [] then (r, t, AdminBadRequest)
      else
        (let body = body\<lparr>n_Host := trimSpace (n_Host body)\<rparr>;
             body = (if n_Scheme body = [] then body\<lparr>n_Scheme := ''https''\<rparr> else body)
         in if \<not> endpoint_ok (n_Scheme body) (n_Host body) (n_Port body) then (r, t, AdminBadRequest)
            else
              (let body = (if n_Role body = [] then body\<lparr>n_Role := ''media-worker''\<rparr> else body)
               in if \<not> validNodeRole (n_Role body) \<or> n_Weight body < 0 \<or> n_Capacity body < 0
                  then (r, t, AdminBadRequest)
                  else
                    (let body = body\<lparr>n_Status := ''unknown'', n_LatencyMS := 0, n_Health := []\<rparr>;
                         save = (\<lambda>n. let (n, t) = Upsert fresh n t in (Invalidate r, t, AdminOK n))
                     in if n_ID body = [] then save body
                        else (case Store_Get (n_ID body) t of
                                None \<Rightarrow> (r, t, AdminNotFound)
                              | Some cur \<Rightarrow>
                                  save (if BaseURL cur = BaseURL body
                                        then body\<lparr>n_Status := n_Status cur, n_LatencyMS := n_LatencyMS cur,
                                                  n_Health := n_Health cur\<rparr>
                                        else body))))))"

definition handleDrain :: "string \<Rightarrow> string \<Rightarrow> bool \<Rightarrow> router \<Rightarrow> node_table \<Rightarrow> router \<times> node_table \<times> node admin_reply" where
  "handleDrain fresh nid draining r t =
     (case Store_Get nid t of
        None \<Rightarrow> (r, t, AdminNotFound)
      | Some cur \<Rightarrow>
          (let cur = cur\<lparr>n_Draining := draining\<rparr>; (_, t) = Upsert fresh cur t
           in (Invalidate r, t, AdminOK cur)))"

definition handleDelete :: "string \<Rightarrow> router \<Rightarrow> node_table \<Rightarrow> router \<times> node_table \<times> unit admin_reply" where
  "handleDelete nid r t =
     (if trimSpace nid = [] then (r, t, AdminBadRequest)
      else (Invalidate r, Store_Delete nid t, AdminOK ()))"

section \<open>Reordering a tier by reliability\<close>

record ranked =
  rk_Source :: string
  rk_Score :: rat
  rk_Excluded :: bool
  rk_Override :: string

definition best_score :: "ranked list \<Rightarrow> rat option" where
  "best_score rs =
     foldl (\<lambda>best r. if \<not> rk_Excluded r \<and> rk_Override r = [] \<and> (case best of None \<Rightarrow> True | Some b \<Rightarrow> rk_Score r > b)
                     then Some (rk_Score r) else best) None rs"

definition source_of :: "node \<Rightarrow> string" where
  "source_of n = ''node:'' @ n_ID n"

definition enumerate_ids :: "node list \<Rightarrow> (string \<times> nat) list" where
  "enumerate_ids ns = map (\<lambda>(i, n). (n_ID n, i)) (enumerate 0 ns)"

text \<open>\<^verbatim>\<open>rankTier\<close> on the ranking the reliability tracker returned: the new order, and whether it moved.\<close>

definition rankTier :: "ranked list \<Rightarrow> node list \<Rightarrow> node list \<times> bool" where
  "rankTier ranking ns =
     (let byID = map (\<lambda>n. (source_of n, n)) (rev ns);
          rk = map (\<lambda>r. (rk_Source r, r)) (rev ranking);
          best = best_score ranking;
          near = (\<lambda>r. case best of None \<Rightarrow> True | Some b \<Rightarrow> rk_Score r \<ge> fl_sub b 10);
          preferred = List.map_filter (\<lambda>n. case map_of rk (source_of n) of
              None \<Rightarrow> None
            | Some r \<Rightarrow> if rk_Excluded r then None
                        else if rk_Override r = ''prefer'' then map_of byID (source_of n) else None) ns;
          balanced = List.map_filter (\<lambda>n. case map_of rk (source_of n) of
              None \<Rightarrow> map_of byID (source_of n)
            | Some r \<Rightarrow> if rk_Excluded r \<or> rk_Override r = ''prefer'' \<or> rk_Override r = ''avoid'' then None
                        else if near r then map_of byID (source_of n) else None) ns;
          weaker = List.map_filter (\<lambda>r. if rk_Excluded r \<or> rk_Override r = ''prefer'' \<or> rk_Override r = ''avoid''
              then None else if \<not> near r then map_of byID (rk_Source r) else None) ranking;
          avoided = List.map_filter (\<lambda>r. if rk_Excluded r \<or> rk_Override r = ''prefer'' then None
              else if rk_Override r = ''avoid'' then map_of byID (rk_Source r) else None) ranking;
          out = preferred @ balanced @ weaker @ avoided
      in (out, length out \<noteq> length ns \<or>
               list_ex (\<lambda>(i, n). map_of (rev (enumerate_ids ns)) (n_ID n) \<noteq> Some i) (enumerate 0 out)))"

text \<open>\<^verbatim>\<open>rankCandidates\<close>: runs of equal priority are ranked one by one; \<open>rank\<close> is the tracker's answer.\<close>

function rankCandidates :: "(node list \<Rightarrow> ranked list) \<Rightarrow> node list \<Rightarrow> node list" where
  "rankCandidates rank [] = []"
| "rankCandidates rank (n # ns) =
     (let run = n # takeWhile (\<lambda>m. n_Priority m = n_Priority n) ns
      in fst (rankTier (rank run) run) @ rankCandidates rank (dropWhile (\<lambda>m. n_Priority m = n_Priority n) ns))"
  by pat_completeness auto
termination
  by (relation "measure (length \<circ> snd)") (auto simp: length_dropWhile_le le_imp_less_Suc)

end
