(* ===== verification/Routing_Facts.thy ===== *)
theory Routing_Facts
  imports Routing
begin

text \<open>
  Properties of the router: which nodes are candidates and in which order, the fairness of the
  weighted rotation, how failures take a node out of rotation, and that reordering by
  reliability loses no worker that was not excluded.
\<close>

section \<open>The weighted rotation\<close>

definition weight_in :: "node list \<Rightarrow> string \<Rightarrow> int" where
  "weight_in ns nid = sum_list (map node_weight (filter (\<lambda>n. n_ID n = nid) ns))"

definition total_weight :: "node list \<Rightarrow> int" where
  "total_weight ns = sum_list (map node_weight ns)"

definition wrr_init :: "credit \<Rightarrow> wrr" where
  "wrr_init cur = \<lparr>w_cur = cur, w_total = 0, w_best = - (2 ^ 30), w_selected = 0, w_index = 0\<rparr>"

lemma node_weight_pos: "0 < node_weight n"
  by (simp add: node_weight_def)

lemma total_weight_pos: "ns \<noteq> [] \<Longrightarrow> 0 < total_weight ns"
proof (induction ns)
  case (Cons n ns)
  then show ?case using node_weight_pos [of n] by (cases ns) (simp_all add: total_weight_def)
qed simp

lemma credit_of_set [simp]: "credit_of (set_key k v cur) j = (if j = k then v else credit_of cur j)"
  by (simp add: credit_of_def)

lemma weight_in_distinct:
  "distinct (map n_ID ns) \<Longrightarrow> n \<in> set ns \<Longrightarrow> weight_in ns (n_ID n) = node_weight n"
proof (induction ns)
  case (Cons m ns)
  have "filter (\<lambda>x. n_ID x = n_ID m) ns = []" using Cons.prems(1) by (simp add: filter_empty_conv) (metis image_eqI)
  with Cons show ?case by (cases "n = m") (auto simp: weight_in_def)
qed simp

lemma weight_in_absent: "nid \<notin> n_ID ` set ns \<Longrightarrow> weight_in ns nid = 0"
  by (induction ns) (auto simp: weight_in_def)

lemma wrr_fold:
  assumes "distinct (map n_ID ns)" "ns \<noteq> []"
    and "\<forall>n \<in> set ns. - (2 ^ 30) < credit_of cur (n_ID n) + node_weight n"
  defines "s \<equiv> foldl wrr_step (wrr_init cur) ns"
  shows "w_index s = length ns \<and> w_selected s < length ns \<and> w_total s = total_weight ns \<and>
    (\<forall>j. credit_of (w_cur s) j = credit_of cur j + weight_in ns j) \<and>
    w_best s = credit_of (w_cur s) (n_ID (ns ! w_selected s)) \<and>
    (\<forall>n \<in> set ns. credit_of (w_cur s) (n_ID n) \<le> w_best s)"
  using assms(1-3) unfolding s_def
proof (induction ns rule: rev_induct)
  case Nil
  then show ?case by simp
next
  case (snoc n ns)
  let ?s = "foldl wrr_step (wrr_init cur) ns"
  let ?t = "foldl wrr_step (wrr_init cur) (ns @ [n])"
  have fresh: "n_ID n \<notin> n_ID ` set ns" using snoc.prems(1) by auto
  have wi: "weight_in (ns @ [n]) j = weight_in ns j + (if j = n_ID n then node_weight n else 0)" for j
    by (simp add: weight_in_def)
  show ?case
  proof (cases "ns = []")
    case True
    then show ?thesis
      using snoc.prems(3) by (auto simp: wrr_step_def wrr_init_def Let_def total_weight_def weight_in_def)
  next
    case False
    with snoc have ih: "w_index ?s = length ns" "w_selected ?s < length ns" "w_total ?s = total_weight ns"
      "\<forall>j. credit_of (w_cur ?s) j = credit_of cur j + weight_in ns j"
      "w_best ?s = credit_of (w_cur ?s) (n_ID (ns ! w_selected ?s))"
      "\<forall>n \<in> set ns. credit_of (w_cur ?s) (n_ID n) \<le> w_best ?s" by auto
    let ?c = "credit_of (w_cur ?s) (n_ID n) + node_weight n"
    have t: "?t = (if ?c > w_best ?s
        then ?s\<lparr>w_cur := set_key (n_ID n) ?c (w_cur ?s), w_total := w_total ?s + node_weight n,
                w_best := ?c, w_selected := length ns, w_index := length ns + 1\<rparr>
        else ?s\<lparr>w_cur := set_key (n_ID n) ?c (w_cur ?s), w_total := w_total ?s + node_weight n,
                w_index := length ns + 1\<rparr>)"
      using ih(1) by (simp add: wrr_step_def Let_def)
    have other: "n_ID m \<noteq> n_ID n" if "m \<in> set ns" for m using fresh that by (metis image_eqI)
    have sel: "n_ID (ns ! w_selected ?s) \<noteq> n_ID n" using other ih(2) by simp
    show ?thesis
    proof (cases "?c > w_best ?s")
      case True
      then show ?thesis
        unfolding t using ih other wi fresh weight_in_absent [OF fresh]
        by (fastforce simp: total_weight_def)
    next
      case False
      then show ?thesis
        unfolding t using ih other wi sel weight_in_absent [OF fresh]
        by (simp add: total_weight_def nth_append)
    qed
  qed
qed

text \<open>Credits stay above minus the total weight and sum to zero.\<close>

definition credits_ok :: "node list \<Rightarrow> credit \<Rightarrow> bool" where
  "credits_ok ns cur \<longleftrightarrow>
     sum_list (map (\<lambda>n. credit_of cur (n_ID n)) ns) = 0 \<and>
     (\<forall>n \<in> set ns. - total_weight ns < credit_of cur (n_ID n))"

lemma sum_list_indicator:
  "distinct (map n_ID ns) \<Longrightarrow> m \<in> set ns \<Longrightarrow>
   sum_list (map (\<lambda>n. if n_ID n = n_ID m then (x::int) else 0) ns) = x"
proof (induction ns)
  case (Cons n ns)
  have "sum_list (map (\<lambda>k. if n_ID k = n_ID m then x else 0) ns) = 0" if "n_ID m \<notin> n_ID ` set ns"
    using that by (induction ns) auto
  with Cons show ?case by (cases "n = m") (auto simp: image_iff)
qed simp

lemma max_pos:
  fixes f :: "'a \<Rightarrow> int"
  assumes "0 < sum_list (map f ns)" "\<forall>n \<in> set ns. f n \<le> b"
  shows "0 < b"
proof (rule ccontr)
  assume "\<not> 0 < b"
  then have "\<forall>n \<in> set ns. f n \<le> 0" using assms(2) by force
  then have "sum_list (map f ns) \<le> 0" by (induction ns) auto
  with assms(1) show False by simp
qed

lemma weighted_step:
  assumes d: "distinct (map n_ID ns)" "ns \<noteq> []" and w: "total_weight ns \<le> 2 ^ 30" and ok: "credits_ok ns cur"
  obtains sel cur' where "weighted ns cur = (sel, cur')" "sel \<in> set ns" "credits_ok ns cur'"
    "\<And>n. n \<in> set ns \<Longrightarrow>
      credit_of cur' (n_ID n) = credit_of cur (n_ID n) + node_weight n - (if n = sel then total_weight ns else 0)"
proof -
  let ?s = "foldl wrr_step (wrr_init cur) ns"
  let ?sel = "ns ! w_selected ?s"
  let ?W = "total_weight ns"
  have low: "\<forall>n \<in> set ns. - (2 ^ 30) < credit_of cur (n_ID n) + node_weight n"
  proof
    fix n assume "n \<in> set ns"
    then have "- ?W < credit_of cur (n_ID n)" using ok by (simp add: credits_ok_def)
    with w node_weight_pos [of n] show "- (2 ^ 30) < credit_of cur (n_ID n) + node_weight n" by linarith
  qed
  from wrr_fold [OF d low] have s: "w_selected ?s < length ns" "w_total ?s = ?W"
    "\<And>j. credit_of (w_cur ?s) j = credit_of cur j + weight_in ns j"
    "w_best ?s = credit_of (w_cur ?s) (n_ID ?sel)" "\<And>n. n \<in> set ns \<Longrightarrow> credit_of (w_cur ?s) (n_ID n) \<le> w_best ?s"
    by auto
  have sel: "?sel \<in> set ns" using s(1) by simp
  let ?cur' = "set_key (n_ID ?sel) (credit_of (w_cur ?s) (n_ID ?sel) - ?W) (w_cur ?s)"
  have eq: "weighted ns cur = (?sel, ?cur')"
    using s(2) by (simp add: weighted_def wrr_init_def Let_def)
  have inj: "n_ID n = n_ID ?sel \<longleftrightarrow> n = ?sel" if "n \<in> set ns" for n
    using d(1) that sel by (auto simp: distinct_map dest: inj_onD)
  have c1: "credit_of (w_cur ?s) (n_ID n) = credit_of cur (n_ID n) + node_weight n" if "n \<in> set ns" for n
    using s(3) weight_in_distinct [OF d(1) that] by simp
  have c2: "credit_of ?cur' (n_ID n) = credit_of cur (n_ID n) + node_weight n - (if n = ?sel then ?W else 0)"
    if "n \<in> set ns" for n
    using c1 [OF that] c1 [OF sel] inj [OF that] by simp
  have sum0: "sum_list (map (\<lambda>n. credit_of cur (n_ID n)) ns) = 0" using ok by (simp add: credits_ok_def)
  have sumW: "sum_list (map (\<lambda>n. credit_of cur (n_ID n) + node_weight n) ns) = ?W"
    using sum0 by (simp add: sum_list_addf total_weight_def)
  have Wpos: "0 < ?W" by (rule total_weight_pos [OF d(2)])
  have best: "0 < w_best ?s"
    using max_pos [of "\<lambda>n. credit_of cur (n_ID n) + node_weight n" ns "w_best ?s"] Wpos sumW s(5) c1 by simp
  have "credits_ok ns ?cur'"
    unfolding credits_ok_def
  proof
    have "map (\<lambda>n. credit_of ?cur' (n_ID n)) ns =
        map (\<lambda>n. (credit_of cur (n_ID n) + node_weight n) + (if n_ID n = n_ID ?sel then - ?W else 0)) ns"
      by (rule map_cong [OF refl]) (simp only: c2 inj split: if_split, simp)
    then have "sum_list (map (\<lambda>n. credit_of ?cur' (n_ID n)) ns) =
        sum_list (map (\<lambda>n. credit_of cur (n_ID n) + node_weight n) ns) +
        sum_list (map (\<lambda>n. if n_ID n = n_ID ?sel then - ?W else 0) ns)"
      by (simp only: sum_list_addf)
    then show "sum_list (map (\<lambda>n. credit_of ?cur' (n_ID n)) ns) = 0"
      using sumW sum_list_indicator [OF d(1) sel, of "- ?W"] by linarith
    show "\<forall>n \<in> set ns. - ?W < credit_of ?cur' (n_ID n)"
    proof
      fix n assume n: "n \<in> set ns"
      show "- ?W < credit_of ?cur' (n_ID n)"
      proof (cases "n = ?sel")
        case True
        with best s(4) show ?thesis by simp
      next
        case False
        have "- ?W < credit_of cur (n_ID n)" using ok n by (simp add: credits_ok_def)
        with c2 [OF n] False node_weight_pos [of n] show ?thesis by simp
      qed
    qed
  qed
  from that [OF eq sel this] c2 show ?thesis by blast
qed

text \<open>A sequence of selections from one tier.\<close>

fun rotation :: "nat \<Rightarrow> node list \<Rightarrow> credit \<Rightarrow> node list \<times> credit" where
  "rotation 0 ns cur = ([], cur)"
| "rotation (Suc k) ns cur =
     (let (sel, cur) = weighted ns cur; (sels, cur) = rotation k ns cur in (sel # sels, cur))"

lemma rotation_credits:
  assumes "distinct (map n_ID ns)" "ns \<noteq> []" "total_weight ns \<le> 2 ^ 30" "credits_ok ns cur"
  shows "credits_ok ns (snd (rotation k ns cur)) \<and> set (fst (rotation k ns cur)) \<subseteq> set ns \<and>
    length (fst (rotation k ns cur)) = k \<and>
    (\<forall>n \<in> set ns. credit_of (snd (rotation k ns cur)) (n_ID n) =
       credit_of cur (n_ID n) + int k * node_weight n - int (count_list (fst (rotation k ns cur)) n) * total_weight ns)"
  using assms
proof (induction k arbitrary: cur)
  case 0
  then show ?case by simp
next
  case (Suc k)
  obtain sel cur' where st: "weighted ns cur = (sel, cur')" "sel \<in> set ns" "credits_ok ns cur'"
    "\<And>n. n \<in> set ns \<Longrightarrow>
      credit_of cur' (n_ID n) = credit_of cur (n_ID n) + node_weight n - (if n = sel then total_weight ns else 0)"
    using weighted_step [OF Suc.prems] by blast
  obtain sels cur'' where r: "rotation k ns cur' = (sels, cur'')" by (cases "rotation k ns cur'")
  from Suc.IH [OF Suc.prems(1-3) st(3)] st r show ?case
    by (auto simp: algebra_simps)
qed

lemma sum_indicator_0: "x \<notin> set ns \<Longrightarrow> sum_list (map (\<lambda>n. if n = x then 1 else 0 :: int) ns) = 0"
  by (induction ns) auto

lemma sum_indicator: "distinct ns \<Longrightarrow> x \<in> set ns \<Longrightarrow> sum_list (map (\<lambda>n. if n = x then 1 else 0 :: int) ns) = 1"
proof (induction ns)
  case (Cons n ns)
  then show ?case using sum_indicator_0 [of x ns] by (cases "n = x") auto
qed simp

lemma sum_counts: "set xs \<subseteq> set ns \<Longrightarrow> distinct ns \<Longrightarrow> sum_list (map (\<lambda>n. int (count_list xs n)) ns) = int (length xs)"
proof (induction xs)
  case Nil
  then show ?case by (simp add: sum_list_0)
next
  case (Cons x xs)
  have "sum_list (map (\<lambda>n. if n = x then 1 else 0 :: int) ns) = 1"
    using Cons.prems by (intro sum_indicator) auto
  moreover have "sum_list (map (\<lambda>n. int (count_list (x # xs) n)) ns) =
      sum_list (map (\<lambda>n. int (count_list xs n) + (if n = x then 1 else 0)) ns)"
    by (intro arg_cong [where f = sum_list] map_cong) auto
  ultimately show ?case using Cons by (simp add: sum_list_addf)
qed

lemma sum_list_le_eq:
  fixes f g :: "'a \<Rightarrow> int"
  assumes "\<forall>n \<in> set ns. f n \<le> g n" "sum_list (map f ns) = sum_list (map g ns)" "n \<in> set ns"
  shows "f n = g n"
  using assms
proof (induction ns)
  case (Cons m ns)
  have "sum_list (map f ns) \<le> sum_list (map g ns)" using Cons.prems(1) by (intro sum_list_mono) auto
  with Cons show ?case by (auto simp: )
qed simp

text \<open>C4. Smooth weighted round robin is exact: over as many selections as the tier's total weight, from
  a fresh rotation, every node is selected exactly as often as its weight says (a weight of zero
  or less counts as one), and the rotation is back where it started.\<close>

theorem rotation_fair:
  assumes "distinct (map n_ID ns)" "ns \<noteq> []" "total_weight ns \<le> 2 ^ 30"
    and "\<forall>n \<in> set ns. credit_of cur (n_ID n) = 0" and "n \<in> set ns"
  shows "int (count_list (fst (rotation (nat (total_weight ns)) ns cur)) n) = node_weight n \<and>
    credit_of (snd (rotation (nat (total_weight ns)) ns cur)) (n_ID n) = 0"
proof -
  let ?W = "total_weight ns"
  let ?r = "rotation (nat ?W) ns cur"
  have Wpos: "0 < ?W" by (rule total_weight_pos [OF assms(2)])
  have "map (\<lambda>n. credit_of cur (n_ID n)) ns = map (\<lambda>_. 0) ns" using assms(4) by simp
  then have "sum_list (map (\<lambda>n. credit_of cur (n_ID n)) ns) = 0" by (simp only: map_replicate_const sum_list_replicate mult_zero_right)
  then have "credits_ok ns cur" using Wpos assms(4) by (simp add: credits_ok_def)
  from rotation_credits [OF assms(1-3) this, of "nat ?W"] Wpos assms(4)
  have r: "credits_ok ns (snd ?r)" "set (fst ?r) \<subseteq> set ns" "length (fst ?r) = nat ?W"
    "\<forall>m \<in> set ns. credit_of (snd ?r) (n_ID m) = ?W * node_weight m - int (count_list (fst ?r) m) * ?W"
    by simp_all
  have le: "int (count_list (fst ?r) m) \<le> node_weight m" if m: "m \<in> set ns" for m
  proof -
    have "- ?W < ?W * node_weight m - int (count_list (fst ?r) m) * ?W"
      using r(1,4) m by (auto simp: credits_ok_def)
    then have "int (count_list (fst ?r) m) * ?W < (node_weight m + 1) * ?W" by (simp add: algebra_simps)
    then have "int (count_list (fst ?r) m) < node_weight m + 1" using Wpos by (simp add: mult_less_cancel_right)
    then show ?thesis by simp
  qed
  have "distinct ns" using assms(1) by (simp add: distinct_map)
  then have "sum_list (map (\<lambda>m. int (count_list (fst ?r) m)) ns) = ?W"
    using sum_counts [OF r(2)] r(3) Wpos by simp
  then have c: "int (count_list (fst ?r) n) = node_weight n"
    using sum_list_le_eq [of ns "\<lambda>m. int (count_list (fst ?r) m)" node_weight n] le assms(5)
    by (simp add: total_weight_def)
  with r(4) assms(5) show ?thesis by simp
qed

section \<open>Candidates\<close>

lemma weighted_in:
  assumes "ns \<noteq> []"
  shows "fst (weighted ns cur) \<in> set ns"
proof -
  have "w_index (foldl wrr_step (wrr_init cur) ms) = length ms \<and>
      (w_selected (foldl wrr_step (wrr_init cur) ms) < length ms \<or> w_selected (foldl wrr_step (wrr_init cur) ms) = 0)" for ms
    by (induction ms rule: rev_induct) (auto simp: wrr_init_def wrr_step_def Let_def)
  then have "w_selected (foldl wrr_step (wrr_init cur) ns) < length ns" using assms by (metis length_greater_0_conv)
  then show ?thesis by (simp add: weighted_def wrr_init_def Let_def)
qed

lemma tier_priorities_facts:
  "set (tier_priorities ns) = n_Priority ` set ns" "distinct (tier_priorities ns)"
  "sorted_wrt (\<ge>) (tier_priorities ns)"
proof -
  let ?f = "foldl (\<lambda>ps n. if n_Priority n \<in> set ps then ps else ps @ [n_Priority n]) []"
  have "set (?f ns) = n_Priority ` set ns \<and> distinct (?f ns)"
    by (induction ns rule: rev_induct) auto
  then show "set (tier_priorities ns) = n_Priority ` set ns" "distinct (tier_priorities ns)"
    by (simp_all add: tier_priorities_def)
  show "sorted_wrt (\<ge>) (tier_priorities ns)"
    by (simp add: tier_priorities_def sorted_wrt_rev)
qed

lemma distinct_map_mset: "mset xs = mset ys \<Longrightarrow> distinct (map f xs) = distinct (map f ys)"
  by (rule mset_eq_imp_distinct_iff) simp

lemma same_priority_sorted:
  "\<forall>n \<in> set ns. n_Priority n = p \<Longrightarrow> sorted_wrt (\<lambda>a b. n_Priority a \<ge> n_Priority b) ns"
  by (induction ns) simp_all

lemma mset_byWeight [simp]: "mset (byWeight ns) = mset ns"
  by (simp add: byWeight_def)

lemma set_byWeight [simp]: "set (byWeight ns) = set ns"
  by (simp add: byWeight_def)

lemma mset_tiers:
  "distinct ps \<Longrightarrow>
   mset (concat (map (\<lambda>p. byWeight (tier p ok)) ps)) = mset (filter (\<lambda>n. n_Priority n \<in> set ps) ok)"
proof (induction ps)
  case (Cons p ps)
  have "mset (filter (\<lambda>n. n_Priority n \<in> set (p # ps)) ok) =
      mset (tier p ok) + mset (filter (\<lambda>n. n_Priority n \<in> set ps) ok)"
    using Cons.prems by (induction ok) (auto simp: tier_def)
  with Cons show ?case by simp
qed simp

lemma mset_to_front:
  assumes "distinct (map n_ID ns)" "x \<in> set ns"
  shows "mset (x # filter (\<lambda>n. n_ID n \<noteq> n_ID x) ns) = mset ns"
  using assms
proof (induction ns)
  case (Cons m ns)
  show ?case
  proof (cases "m = x")
    case True
    with Cons.prems have "filter (\<lambda>n. n_ID n \<noteq> n_ID x) ns = ns"
      by (simp add: filter_id_conv) (metis image_eqI)
    with True show ?thesis by simp
  next
    case False
    with Cons.prems have "n_ID m \<noteq> n_ID x" by auto
    with Cons False show ?thesis by simp
  qed
qed simp

lemma tiers_ordered:
  assumes "sorted_wrt (\<ge>) ps"
  shows "sorted_wrt (\<lambda>a b. n_Priority a \<ge> n_Priority b) (concat (map (\<lambda>p. byWeight (tier p ok)) ps))"
  using assms
proof (induction ps)
  case (Cons p ps)
  have "sorted_wrt (\<lambda>a b. n_Priority a \<ge> n_Priority b) (byWeight (tier p ok))"
    by (rule same_priority_sorted [of _ p]) (simp add: tier_def)
  with Cons show ?case by (auto simp: sorted_wrt_append tier_def)
qed simp

text \<open>C5. The candidates for a request are exactly the nodes that are enabled, not draining, healthy and
  fit its role, region and capability, each once, in order of falling priority; there are none
  only if no such node exists.\<close>

theorem candidates_exact:
  assumes "distinct (map n_ID nodes)"
  shows "case fst (Candidates q nodes cur) of
      None \<Rightarrow> (\<forall>n \<in> set nodes. \<not> routable q n)
    | Some out \<Rightarrow> out \<noteq> [] \<and> mset out = mset (filter (routable q) nodes) \<and>
        sorted_wrt (\<lambda>a b. n_Priority a \<ge> n_Priority b) out"
proof -
  let ?ok = "filter (routable q) nodes"
  show ?thesis
  proof (cases "tier_priorities ?ok")
    case Nil
    then have "?ok = []" using tier_priorities_facts(1) [of ?ok] by simp
    then have "\<forall>n \<in> set nodes. \<not> routable q n" by (simp add: filter_empty_conv)
    with Nil show ?thesis by (simp add: Candidates_def)
  next
    case (Cons p ps)
    obtain first cur' where w: "weighted (tier p ?ok) cur = (first, cur')" by (cases "weighted (tier p ?ok) cur")
    have all: "n_Priority ` set ?ok = insert p (set ps)"
      and d: "distinct (p # ps)" and s: "sorted_wrt (\<ge>) (p # ps)"
      using tier_priorities_facts [of ?ok] Cons by simp_all
    then have pin: "p \<in> n_Priority ` set ?ok" by blast
    from pin have "tier p ?ok \<noteq> []" by (auto simp: tier_def filter_empty_conv)
    from weighted_in [OF this, of cur] w have first: "first \<in> set (tier p ?ok)" by simp
    have dt: "distinct (map n_ID (byWeight (tier p ?ok)))"
    proof -
      have "distinct (map n_ID (tier p ?ok))" using assms by (simp add: tier_def distinct_map_filter)
      then show ?thesis using distinct_map_mset [OF mset_byWeight] by blast
    qed
    let ?head = "first # filter (\<lambda>n. n_ID n \<noteq> n_ID first) (byWeight (tier p ?ok))"
    let ?rest = "concat (map (\<lambda>p. byWeight (tier p ?ok)) ps)"
    have out: "fst (Candidates q nodes cur) = Some (?head @ ?rest)"
      using Cons w by (simp add: Candidates_def Let_def)
    have head: "mset ?head = mset (tier p ?ok)" using mset_to_front [OF dt] first by simp
    have "mset (?head @ ?rest) = mset (concat (map (\<lambda>p. byWeight (tier p ?ok)) (p # ps)))"
      using head by simp
    also have "\<dots> = mset (filter (\<lambda>n. n_Priority n \<in> set (p # ps)) ?ok)" using mset_tiers [OF d] .
    also have "filter (\<lambda>n. n_Priority n \<in> set (p # ps)) ?ok = ?ok"
    proof (rule filter_True, rule ballI)
      fix n assume "n \<in> set ?ok"
      then have "n_Priority n \<in> n_Priority ` set ?ok" by (rule imageI)
      with all show "n_Priority n \<in> set (p # ps)" by simp
    qed
    finally have m: "mset (?head @ ?rest) = mset ?ok" .
    have hp: "\<forall>n \<in> set ?head. n_Priority n = p" using first by (auto simp: tier_def)
    have rp: "\<forall>n \<in> set ?rest. n_Priority n \<in> set ps" by (auto simp: tier_def)
    have "sorted_wrt (\<lambda>a b. n_Priority a \<ge> n_Priority b) ?head"
      by (rule same_priority_sorted [OF hp])
    moreover have "sorted_wrt (\<lambda>a b. n_Priority a \<ge> n_Priority b) ?rest" using tiers_ordered s by simp
    ultimately have "sorted_wrt (\<lambda>a b. n_Priority a \<ge> n_Priority b) (?head @ ?rest)"
      using hp rp s unfolding sorted_wrt_append by fastforce
    with out m show ?thesis by simp
  qed
qed

section \<open>Health\<close>

lemma update_row_get:
  "Store_Get k (update_row nid f t) = map_option (\<lambda>n. if k = nid then f n else n) (Store_Get k t)"
  by (induction t) (auto simp: update_row_def Store_Get_def)

lemma update_row_keys [simp]: "keys (update_row nid f t) = keys t"
  by (induction t) (auto simp: update_row_def keys_def)

definition table_ok :: "node_table \<Rightarrow> bool" where
  "table_ok t \<longleftrightarrow> distinct (keys t) \<and> (\<forall>(k, n) \<in> set t. n_ID n = k)"

lemma table_ok_get: "table_ok t \<Longrightarrow> Store_Get nid t = Some n \<Longrightarrow> n_ID n = nid"
  by (auto simp: table_ok_def Store_Get_def dest: map_of_SomeD)

lemma table_ok_entry: "table_ok t \<Longrightarrow> (k, n) \<in> set t \<Longrightarrow> n_ID n = k"
  unfolding table_ok_def by blast

lemma table_ok_ids: "table_ok t \<Longrightarrow> map n_ID (map snd t) = keys t"
  unfolding keys_def map_map by (rule map_cong) (auto simp: table_ok_entry)

lemma table_ok_list: "table_ok t \<Longrightarrow> n \<in> set (Store_List t) \<Longrightarrow> Store_Get (n_ID n) t = Some n"
  by (auto simp: table_ok_def Store_List_def Store_Get_def map_of_distinct_iff)

lemma table_ok_update:
  assumes "table_ok t" "\<And>n. n_ID (f n) = n_ID n"
  shows "table_ok (update_row nid f t)"
proof -
  have "n_ID n = k" if "(k, n) \<in> set (update_row nid f t)" for k n
  proof -
    from that obtain m where m: "(k, m) \<in> set t" "n = (if k = nid then f m else m)"
      by (auto simp: update_row_def)
    then have "n_ID m = k" using assms(1) unfolding table_ok_def by blast
    with m assms(2) show ?thesis by simp
  qed
  then show ?thesis using assms(1) by (auto simp: table_ok_def)
qed

lemma set_cached_status:
  assumes "n \<in> set ns" "rt_nodes (setCachedStatus nid st r) = Some ns" "n_ID n = nid"
  shows "n_Status n = st"
proof -
  from assms(2) obtain ms where "ns = map (\<lambda>n. if n_ID n = nid then n\<lparr>n_Status := st\<rparr> else n) ms"
    by (auto simp: setCachedStatus_def)
  with assms(1) have "n \<in> (\<lambda>n. if n_ID n = nid then n\<lparr>n_Status := st\<rparr> else n) ` set ms" by simp
  then obtain m where "n = (if n_ID m = nid then m\<lparr>n_Status := st\<rparr> else m)" by (rule imageE)
  with assms(3) show ?thesis by (cases "n_ID m = nid") simp_all
qed

text \<open>A node marked down is taken out of rotation at once and stays out: neither the cached node list
  nor a fresh read of the table, nor a database outage, makes it a candidate.\<close>

theorem marked_down_is_out:
  assumes "table_ok t" "MarkDown nid msg r t = (r', t')" "listed = None \<or> listed = Some (Store_List t')"
    and "Route q now listed r' = (r'', Some out)" "\<forall>ns. rt_nodes r = Some ns \<longrightarrow> distinct (map n_ID ns)"
  shows "nid \<notin> n_ID ` set out"
proof -
  have r': "r' = (setCachedStatus nid ''unhealthy'' r)\<lparr>rt_fails := set_key nid softFailures (rt_fails (setCachedStatus nid ''unhealthy'' r))\<rparr>"
    and t': "t' = SetHealth nid ''unhealthy'' 0 msg (RecordFailure nid msg t)"
    using assms(2) by (simp_all add: MarkDown_def Let_def)
  have tok: "table_ok t'" using assms(1) by (simp add: t' SetHealth_def RecordFailure_def table_ok_update)
  obtain ns where ns: "snd (cached now listed r') = Some ns" and out: "fst (Candidates q ns (rt_cur (fst (cached now listed r')))) = Some out"
    using assms(4) by (cases "cached now listed r'"; cases "snd (cached now listed r')") (auto simp: Route_def split: prod.splits)
  have src: "rt_nodes r' = Some ns \<or> ns = Store_List t'"
    using ns assms(3) by (auto simp: cached_def split: if_splits)
  have down: "n_Status n = ''unhealthy''" if n: "n \<in> set ns" "n_ID n = nid" for n
    using src
  proof
    assume "rt_nodes r' = Some ns"
    then have "rt_nodes (setCachedStatus nid ''unhealthy'' r) = Some ns" by (simp add: r')
    from set_cached_status [OF n(1) this n(2)] show ?thesis .
  next
    assume "ns = Store_List t'"
    then have "Store_Get nid t' = Some n" using table_ok_list [OF tok] n by blast
    then show ?thesis by (auto simp: t' SetHealth_def RecordFailure_def update_row_get)
  qed
  have "distinct (map n_ID ns)"
    using src
  proof
    assume "rt_nodes r' = Some ns"
    then obtain ms where "rt_nodes r = Some ms" "ns = map (\<lambda>n. if n_ID n = nid then n\<lparr>n_Status := ''unhealthy''\<rparr> else n) ms"
      by (auto simp: r' setCachedStatus_def)
    moreover have "n_ID (if c then n\<lparr>n_Status := ''unhealthy''\<rparr> else n) = n_ID n" for c and n :: node by simp
    ultimately show ?thesis using assms(5) by (simp add: comp_def)
  next
    assume "ns = Store_List t'"
    moreover have "distinct (map n_ID (map snd t'))"
      unfolding table_ok_ids [OF tok] using tok by (simp add: table_ok_def)
    moreover have "mset (Store_List t') = mset (map snd t')" by (simp add: Store_List_def)
    ultimately show ?thesis using distinct_map_mset by blast
  qed
  from candidates_exact [OF this, of q "rt_cur (fst (cached now listed r'))"] out
  have "mset out = mset (filter (routable q) ns)" by simp
  from mset_eq_setD [OF this] have "set out = {n \<in> set ns. routable q n}" by simp
  with down show ?thesis by (auto simp: routable_def)
qed

lemma credit_of_del [simp]: "credit_of (del_key k cur) j = (if j = k then 0 else credit_of cur j)"
  by (simp add: credit_of_def)

lemma probe_unreachable:
  assumes "table_ok t" "Store_Get nid t = Some n" "Probe nid (Unreachable msg dial) r t = (r', t', ok)"
  shows "\<not> ok \<and> credit_of (rt_fails r') nid = credit_of (rt_fails r) nid + 1 \<and> table_ok t' \<and>
    (\<exists>n'. Store_Get nid t' = Some n' \<and> n_Failures n' = n_Failures n + 1 \<and>
       n_Status n' = (if dial \<or> credit_of (rt_fails r) nid \<ge> 1 \<or> n_Status n \<noteq> ''healthy'' then ''unhealthy'' else ''healthy''))"
proof -
  have id: "n_ID n = nid" by (rule table_ok_get [OF assms(1,2)])
  show ?thesis
    using assms id
    by (auto simp: Probe_def probeFailed_def Let_def softFailures_def RecordFailure_def SetHealth_def update_row_get
        table_ok_update setCachedStatus_def)
qed

text \<open>One timeout leaves a healthy node in rotation, two in a row take it out, and a refused connection
  takes it out at once; a successful probe in between starts the count again and brings a node
  back.\<close>

theorem two_timeouts:
  assumes "table_ok t" "Store_Get nid t = Some n" "n_Status n = ''healthy''" "credit_of (rt_fails r) nid = 0"
    and "Probe nid (Unreachable msg1 dial) r t = (r1, t1, ok1)" "Probe nid (Unreachable msg2 False) r1 t1 = (r2, t2, ok2)"
    and "Probe nid (Answered 200 text latency health) r2 t2 = (r3, t3, ok3)"
  shows "\<exists>n1 n2 n3. Store_Get nid t1 = Some n1 \<and> n_Status n1 = (if dial then ''unhealthy'' else ''healthy'') \<and>
    Store_Get nid t2 = Some n2 \<and> n_Status n2 = ''unhealthy'' \<and>
    Store_Get nid t3 = Some n3 \<and> n_Status n3 = ''healthy'' \<and> credit_of (rt_fails r3) nid = 0 \<and> \<not> ok1 \<and> \<not> ok2 \<and> ok3"
proof -
  from probe_unreachable [OF assms(1,2,5)] assms(3,4) obtain n1 where 1: "Store_Get nid t1 = Some n1"
    "n_Status n1 = (if dial then ''unhealthy'' else ''healthy'')" "credit_of (rt_fails r1) nid = 1" "table_ok t1" "\<not> ok1"
    by auto
  from probe_unreachable [OF 1(4,1) assms(6)] 1 obtain n2 where 2: "Store_Get nid t2 = Some n2"
    "n_Status n2 = ''unhealthy''" "\<not> ok2" by auto
  have "t3 = SetHealth nid ''healthy'' latency health t2" "ok3" "rt_fails r3 = del_key nid (rt_fails r2)"
    using assms(7) 2(1) by (auto simp: Probe_def Let_def setCachedStatus_def)
  with 1 2 show ?thesis by (simp add: SetHealth_def update_row_get)
qed

section \<open>Reordering by reliability\<close>

lemma distinct_map_filter_inj:
  assumes "distinct xs" "\<And>x y z. x \<in> set xs \<Longrightarrow> y \<in> set xs \<Longrightarrow> g x = Some z \<Longrightarrow> g y = Some z \<Longrightarrow> x = y"
  shows "distinct (List.map_filter g xs)"
  using assms
proof (induction xs)
  case (Cons x xs)
  have "z \<notin> set (List.map_filter g xs)" if "g x = Some z" for z
    using Cons.prems that by (fastforce simp: List.map_filter_def)
  with Cons show ?case by (auto simp: List.map_filter_simps split: option.split)
qed (simp add: List.map_filter_simps)

lemma in_map_filter: "y \<in> set (List.map_filter f xs) \<longleftrightarrow> (\<exists>x \<in> set xs. f x = Some y)"
  by (induction xs) (auto simp: List.map_filter_simps split: option.split)

lemma if_Some_iff: "(if P then x else None) = Some y \<longleftrightarrow> P \<and> x = Some y"
  by simp

lemma map_filter_guard: "List.map_filter (\<lambda>x. if P x then Some x else None) xs = filter P xs"
  by (induction xs) (simp_all add: List.map_filter_simps)

definition excluded :: "ranked list \<Rightarrow> node \<Rightarrow> bool" where
  "excluded ranking n \<longleftrightarrow> (\<exists>r \<in> set ranking. rk_Source r = source_of n \<and> rk_Excluded r)"

lemma source_inj [simp]: "source_of a = source_of b \<longleftrightarrow> n_ID a = n_ID b"
  by (simp add: source_of_def)

lemma by_source:
  assumes "distinct (map n_ID ns)"
  shows "map_of (map (\<lambda>n. (source_of n, n)) (rev ns)) s = Some n \<longleftrightarrow> n \<in> set ns \<and> source_of n = s"
proof -
  have "distinct (map fst (map (\<lambda>n. (source_of n, n)) (rev ns)))"
    using assms by (auto simp: distinct_map inj_on_def)
  from map_of_eq_Some_iff [OF this] show ?thesis by auto
qed

lemma rank_lookup:
  assumes "distinct (map rk_Source ranking)"
  shows "map_of (map (\<lambda>r. (rk_Source r, r)) (rev ranking)) s = Some r \<longleftrightarrow> r \<in> set ranking \<and> rk_Source r = s"
proof -
  have "distinct (map fst (map (\<lambda>r. (rk_Source r, r)) (rev ranking)))"
    using assms by (auto simp: distinct_map inj_on_def)
  from map_of_eq_Some_iff [OF this] show ?thesis by auto
qed

lemma rank_lookup_None:
  "map_of (map (\<lambda>r. (rk_Source r, r)) (rev ranking)) s = None \<Longrightarrow> r \<in> set ranking \<Longrightarrow> rk_Source r \<noteq> s"
  by (force simp: map_of_eq_None_iff image_iff)

datatype standing = Dropped | Preferred | Balanced | Weaker | Avoided

definition near_best :: "ranked list \<Rightarrow> ranked \<Rightarrow> bool" where
  "near_best ranking r = (case best_score ranking of None \<Rightarrow> True | Some b \<Rightarrow> rk_Score r \<ge> fl_sub b 10)"

definition standing_of :: "ranked list \<Rightarrow> ranked \<Rightarrow> standing" where
  "standing_of ranking r =
     (if rk_Excluded r then Dropped
      else if rk_Override r = ''prefer'' then Preferred
      else if rk_Override r = ''avoid'' then Avoided
      else if near_best ranking r then Balanced else Weaker)"

definition node_standing :: "ranked list \<Rightarrow> node \<Rightarrow> standing" where
  "node_standing ranking n =
     (case map_of (map (\<lambda>r. (rk_Source r, r)) (rev ranking)) (source_of n) of
        None \<Rightarrow> Balanced | Some r \<Rightarrow> standing_of ranking r)"

lemma rankTier_parts:
  assumes "distinct (map n_ID ns)"
  shows "\<exists>weak avo. fst (rankTier ranking ns) =
    filter (\<lambda>n. node_standing ranking n = Preferred) ns @ filter (\<lambda>n. node_standing ranking n = Balanced) ns @ weak @ avo \<and>
    weak = List.map_filter (\<lambda>r. if standing_of ranking r = Weaker
       then map_of (map (\<lambda>n. (source_of n, n)) (rev ns)) (rk_Source r) else None) ranking \<and>
    avo = List.map_filter (\<lambda>r. if standing_of ranking r = Avoided
       then map_of (map (\<lambda>n. (source_of n, n)) (rev ns)) (rk_Source r) else None) ranking"
proof -
  let ?byID = "map_of (map (\<lambda>n. (source_of n, n)) (rev ns))"
  let ?rk = "map_of (map (\<lambda>r. (rk_Source r, r)) (rev ranking))"
  have self: "?byID (source_of n) = Some n" if "n \<in> set ns" for n
    using by_source [OF assms] that by simp
  have cong: "List.map_filter f ns = filter P ns"
    if "\<And>n. n \<in> set ns \<Longrightarrow> f n = (if P n then Some n else None)" for f P
  proof -
    have "List.map_filter f ns = List.map_filter (\<lambda>n. if P n then Some n else None) ns"
      using that by (induction ns) (auto simp: List.map_filter_simps)
    then show ?thesis by (simp add: map_filter_guard)
  qed
  have near: "(case best_score ranking of None \<Rightarrow> True | Some b \<Rightarrow> rk_Score r \<ge> fl_sub b 10) = near_best ranking r" for r
    by (simp add: near_best_def)
  have pre: "List.map_filter (\<lambda>n. case ?rk (source_of n) of None \<Rightarrow> None
      | Some r \<Rightarrow> if rk_Excluded r then None else if rk_Override r = ''prefer'' then ?byID (source_of n) else None) ns =
      filter (\<lambda>n. node_standing ranking n = Preferred) ns"
    by (rule cong) (auto simp: self node_standing_def standing_of_def split: option.split)
  have bal: "List.map_filter (\<lambda>n. case ?rk (source_of n) of None \<Rightarrow> ?byID (source_of n)
      | Some r \<Rightarrow> if rk_Excluded r \<or> rk_Override r = ''prefer'' \<or> rk_Override r = ''avoid'' then None
                  else if near_best ranking r then ?byID (source_of n) else None) ns =
      filter (\<lambda>n. node_standing ranking n = Balanced) ns"
    by (rule cong) (auto simp: self node_standing_def standing_of_def split: option.split)
  have weak: "(\<lambda>r. if rk_Excluded r \<or> rk_Override r = ''prefer'' \<or> rk_Override r = ''avoid'' then None
      else if \<not> near_best ranking r then ?byID (rk_Source r) else None) =
      (\<lambda>r. if standing_of ranking r = Weaker then ?byID (rk_Source r) else None)"
    by (rule ext) (simp add: standing_of_def)
  have avo: "(\<lambda>r. if rk_Excluded r \<or> rk_Override r = ''prefer'' then None
      else if rk_Override r = ''avoid'' then ?byID (rk_Source r) else None) =
      (\<lambda>r. if standing_of ranking r = Avoided then ?byID (rk_Source r) else None)"
    by (rule ext) (simp add: standing_of_def)
  show ?thesis
    unfolding rankTier_def Let_def near fst_conv pre bal weak avo by blast
qed

lemma ranked_part:
  assumes "distinct (map n_ID ns)" "distinct (map rk_Source ranking)" "st \<noteq> Balanced"
  defines "part \<equiv> List.map_filter (\<lambda>r. if standing_of ranking r = st
       then map_of (map (\<lambda>n. (source_of n, n)) (rev ns)) (rk_Source r) else None) ranking"
  shows "distinct part \<and> set part = {n \<in> set ns. node_standing ranking n = st}"
proof
  have injr: "a = b" if "a \<in> set ranking" "b \<in> set ranking" "rk_Source a = rk_Source b" for a b
    using assms(2) that by (auto simp: distinct_map dest: inj_onD)
  have dr: "distinct ranking" using assms(2) by (simp add: distinct_map)
  show "distinct part"
    unfolding part_def
    by (rule distinct_map_filter_inj [OF dr]) (auto simp: by_source [OF assms(1)] injr split: if_splits)
  have stand: "node_standing ranking n = st \<longleftrightarrow> (\<exists>r \<in> set ranking. rk_Source r = source_of n \<and> standing_of ranking r = st)" for n
  proof (cases "map_of (map (\<lambda>r. (rk_Source r, r)) (rev ranking)) (source_of n)")
    case None
    then show ?thesis using rank_lookup_None [OF None] assms(3) by (auto simp: node_standing_def)
  next
    case (Some r)
    then have "r \<in> set ranking" "rk_Source r = source_of n" using rank_lookup [OF assms(2)] by simp_all
    moreover from this have "s = r" if "s \<in> set ranking" "rk_Source s = source_of n" for s
      using that injr by metis
    ultimately have "(\<exists>r \<in> set ranking. rk_Source r = source_of n \<and> standing_of ranking r = st) \<longleftrightarrow> standing_of ranking r = st"
      by blast
    with Some show ?thesis by (simp add: node_standing_def)
  qed
  have "n \<in> set part \<longleftrightarrow> n \<in> set ns \<and> node_standing ranking n = st" for n
    unfolding part_def in_map_filter stand if_Some_iff by_source [OF assms(1)] by auto
  then show "set part = {n \<in> set ns. node_standing ranking n = st}" by blast
qed

text \<open>Reordering a tier by reliability keeps every worker the administrator did not exclude, each once,
  and drops exactly the excluded ones, whatever the scores are; preferred workers come first.\<close>

theorem rank_keeps_workers:
  assumes "distinct (map n_ID ns)" "distinct (map rk_Source ranking)"
  shows "mset (fst (rankTier ranking ns)) = mset (filter (\<lambda>n. \<not> excluded ranking n) ns) \<and>
    (\<exists>rest. fst (rankTier ranking ns) = filter (\<lambda>n. node_standing ranking n = Preferred) ns @ rest)"
proof -
  let ?f = "\<lambda>st. filter (\<lambda>n. node_standing ranking n = st) ns"
  obtain weak avo where parts: "fst (rankTier ranking ns) = ?f Preferred @ ?f Balanced @ weak @ avo"
    and w: "distinct weak" "set weak = {n \<in> set ns. node_standing ranking n = Weaker}"
    and a: "distinct avo" "set avo = {n \<in> set ns. node_standing ranking n = Avoided}"
    using rankTier_parts [OF assms(1), of ranking] ranked_part [OF assms, of Weaker] ranked_part [OF assms, of Avoided]
    by blast
  have dn: "distinct ns" using assms(1) by (simp add: distinct_map)
  have ex: "excluded ranking n \<longleftrightarrow> node_standing ranking n = Dropped" for n
  proof (cases "map_of (map (\<lambda>r. (rk_Source r, r)) (rev ranking)) (source_of n)")
    case None
    from rank_lookup_None [OF this] None show ?thesis by (auto simp: excluded_def node_standing_def)
  next
    case (Some r)
    then have r: "r \<in> set ranking" "rk_Source r = source_of n" using rank_lookup [OF assms(2)] by simp_all
    have "s = r" if s: "s \<in> set ranking" "rk_Source s = source_of n" for s
    proof -
      have "inj_on rk_Source (set ranking)" using assms(2) by (simp add: distinct_map)
      then show ?thesis by (rule inj_onD) (use s r in simp_all)
    qed
    then have "excluded ranking n \<longleftrightarrow> rk_Excluded r" unfolding excluded_def using r by blast
    with Some show ?thesis by (simp add: node_standing_def standing_of_def)
  qed
  have "distinct (fst (rankTier ranking ns))" unfolding parts using dn w a by auto
  moreover have "set (fst (rankTier ranking ns)) = set (filter (\<lambda>n. \<not> excluded ranking n) ns)"
  proof (rule set_eqI)
    fix n
    show "n \<in> set (fst (rankTier ranking ns)) \<longleftrightarrow> n \<in> set (filter (\<lambda>n. \<not> excluded ranking n) ns)"
      unfolding parts by (cases "node_standing ranking n") (simp_all add: w a ex)
  qed
  ultimately have "mset (fst (rankTier ranking ns)) = mset (filter (\<lambda>n. \<not> excluded ranking n) ns)"
    by (metis distinct_filter dn set_eq_iff_mset_eq_distinct)
  with parts show ?thesis by blast
qed

section \<open>The properties at work\<close>

definition worker :: "string \<Rightarrow> int \<Rightarrow> int \<Rightarrow> node" where
  "worker nid prio w = \<lparr>n_ID = nid, n_Name = nid, n_Host = nid, n_Port = 8080, n_Scheme = ''https'',
     n_Role = ''media-worker'', n_Region = [], n_Capabilities = ''hevc,av1'', n_Priority = prio, n_Weight = w,
     n_Capacity = 4, n_Enabled = True, n_Status = ''healthy'', n_LatencyMS = 3, n_Health = ''ok'',
     n_Draining = False, n_Failures = 0, n_LastError = []\<rparr>"

definition workers :: "node list" where
  "workers = [worker ''a'' 10 5, worker ''b'' 10 1, worker ''c'' 10 1]"

definition worker_table :: node_table where
  "worker_table = map (\<lambda>n. (n_ID n, n)) workers"

definition any_request :: route_request where
  "any_request = \<lparr>q_Role = [], q_Roles = [], q_Capability = [], q_Region = []\<rparr>"

theorem rotation_fair_witness:
  "int (count_list (fst (rotation 7 workers [])) (worker ''a'' 10 5)) = 5"
proof -
  have W: "total_weight workers = 7" by code_simp
  have "distinct (map n_ID workers)" "workers \<noteq> []" "\<forall>n \<in> set workers. credit_of [] (n_ID n) = 0"
    "worker ''a'' 10 5 \<in> set workers" by code_simp+
  moreover have "total_weight workers \<le> 2 ^ 30" by (simp add: W)
  ultimately have "int (count_list (fst (rotation (nat (total_weight workers)) workers [])) (worker ''a'' 10 5)) =
      node_weight (worker ''a'' 10 5)"
    using rotation_fair by blast
  then show ?thesis by (simp add: W worker_def node_weight_def)
qed

theorem candidates_exact_witness:
  "\<exists>out. fst (Candidates any_request workers []) = Some out \<and> mset out = mset workers"
proof -
  have "distinct (map n_ID workers)" by code_simp
  from candidates_exact [OF this, of any_request "[]"]
  have c: "case fst (Candidates any_request workers []) of
      None \<Rightarrow> (\<forall>n \<in> set workers. \<not> routable any_request n)
    | Some out \<Rightarrow> mset out = mset (filter (routable any_request) workers)"
    by (simp split: option.splits)
  have "fst (Candidates any_request workers []) \<noteq> None" "filter (routable any_request) workers = workers" by code_simp+
  with c show ?thesis by auto
qed

definition down :: "router \<times> node_table" where
  "down = MarkDown ''a'' ''connection refused'' new_router worker_table"

theorem marked_down_is_out_witness:
  "''a'' \<notin> n_ID ` set (the (snd (Route any_request 5 (Some (Store_List (snd down))) (fst down))))"
proof -
  have t: "table_ok worker_table"
  proof -
    have "distinct (keys worker_table)" "list_all (\<lambda>(k, n). n_ID n = k) worker_table" by code_simp+
    then show ?thesis by (auto simp: table_ok_def list_all_iff)
  qed
  have d: "MarkDown ''a'' ''connection refused'' new_router worker_table = (fst down, snd down)" by (simp add: down_def)
  let ?r = "Route any_request 5 (Some (Store_List (snd down))) (fst down)"
  have "snd ?r \<noteq> None" by code_simp
  then have r: "?r = (fst ?r, Some (the (snd ?r)))" by (simp add: prod_eq_iff)
  have "\<forall>ns. rt_nodes new_router = Some ns \<longrightarrow> distinct (map n_ID ns)" by (simp add: new_router_def)
  with marked_down_is_out [OF t d _ r] show ?thesis by blast
qed

definition probe1 :: "router \<times> node_table \<times> bool" where
  "probe1 = Probe ''a'' (Unreachable ''timeout'' False) new_router worker_table"

definition probe2 :: "router \<times> node_table \<times> bool" where
  "probe2 = Probe ''a'' (Unreachable ''timeout'' False) (fst probe1) (fst (snd probe1))"

definition probe3 :: "router \<times> node_table \<times> bool" where
  "probe3 = Probe ''a'' (Answered 200 ''OK'' 4 ''ok'') (fst probe2) (fst (snd probe2))"

theorem two_timeouts_witness:
  "\<exists>n1 n2 n3. Store_Get ''a'' (fst (snd probe1)) = Some n1 \<and> n_Status n1 = ''healthy'' \<and>
     Store_Get ''a'' (fst (snd probe2)) = Some n2 \<and> n_Status n2 = ''unhealthy'' \<and>
     Store_Get ''a'' (fst (snd probe3)) = Some n3 \<and> n_Status n3 = ''healthy''"
proof -
  have t: "table_ok worker_table"
  proof -
    have "distinct (keys worker_table)" "list_all (\<lambda>(k, n). n_ID n = k) worker_table" by code_simp+
    then show ?thesis by (auto simp: table_ok_def list_all_iff)
  qed
  have n: "Store_Get ''a'' worker_table = Some (worker ''a'' 10 5)"
    by (simp add: Store_Get_def worker_table_def workers_def worker_def)
  have s: "n_Status (worker ''a'' 10 5) = ''healthy''" "credit_of (rt_fails new_router) ''a'' = 0"
    by (simp_all add: worker_def new_router_def credit_of_def)
  have p: "Probe ''a'' (Unreachable ''timeout'' False) new_router worker_table = (fst probe1, fst (snd probe1), snd (snd probe1))"
    "Probe ''a'' (Unreachable ''timeout'' False) (fst probe1) (fst (snd probe1)) = (fst probe2, fst (snd probe2), snd (snd probe2))"
    "Probe ''a'' (Answered 200 ''OK'' 4 ''ok'') (fst probe2) (fst (snd probe2)) = (fst probe3, fst (snd probe3), snd (snd probe3))"
    by (simp_all add: probe1_def probe2_def probe3_def)
  from two_timeouts [OF t n s p] show ?thesis by auto
qed

definition demo_ranking :: "ranked list" where
  "demo_ranking =
     [\<lparr>rk_Source = ''node:a'', rk_Score = 60, rk_Excluded = False, rk_Override = []\<rparr>,
      \<lparr>rk_Source = ''node:b'', rk_Score = 95, rk_Excluded = False, rk_Override = []\<rparr>,
      \<lparr>rk_Source = ''node:c'', rk_Score = 99, rk_Excluded = True, rk_Override = []\<rparr>]"

theorem rank_keeps_workers_witness:
  "mset (fst (rankTier demo_ranking workers)) = {#worker ''a'' 10 5, worker ''b'' 10 1#}"
proof -
  have "distinct (map n_ID workers)" "distinct (map rk_Source demo_ranking)" by code_simp+
  moreover have "filter (\<lambda>n. \<not> excluded demo_ranking n) workers = [worker ''a'' 10 5, worker ''b'' 10 1]"
    by (simp add: excluded_def demo_ranking_def workers_def worker_def source_of_def)
  ultimately show ?thesis using rank_keeps_workers [of workers demo_ranking] by simp
qed

end
