(* ===== verification/Admission.thy ===== *)
theory Admission
  imports ViewDock_Prelude
begin

text \<open>
  What the server admits (\<^verbatim>\<open>src/internal/bandwidth/limiter.go\<close>, \<^verbatim>\<open>src/internal/auth/ratelimit.go\<close>,
  \<^verbatim>\<open>src/internal/db/breaker.go\<close>): transcode slots, requests in a sliding window, and statements
  while the database is watched. Each operation holds the component's mutex for its whole body,
  so it is one step, except for \<^verbatim>\<open>guard\<close> of the breaker, which reads an atomic flag before it takes
  the mutex: its two halves are separate definitions.
\<close>

section \<open>Transcode slots\<close>

record slot_limiter =
  l_Slots :: int
  l_active :: int

definition DefaultSlots :: int where "DefaultSlots = 2"

definition New :: "int \<Rightarrow> slot_limiter" where
  "New slots = \<lparr>l_Slots = (if slots \<le> 0 then DefaultSlots else slots), l_active = 0\<rparr>"

definition SetSlots :: "int \<Rightarrow> slot_limiter \<Rightarrow> slot_limiter" where
  "SetSlots n l = l\<lparr>l_Slots := (if n \<le> 0 then DefaultSlots else n)\<rparr>"

text \<open>The flag is False for \<^verbatim>\<open>ErrLoad\<close>.\<close>

definition TryAcquire :: "slot_limiter \<Rightarrow> slot_limiter \<times> bool" where
  "TryAcquire l = (if l_active l \<ge> l_Slots l then (l, False) else (l\<lparr>l_active := l_active l + 1\<rparr>, True))"

definition Release :: "slot_limiter \<Rightarrow> slot_limiter" where
  "Release l = (if l_active l > 0 then l\<lparr>l_active := l_active l - 1\<rparr> else l)"

definition ShareHeight :: "string \<Rightarrow> int" where
  "ShareHeight q = (if q = ''1080'' then 1080 else if q = ''720'' then 720 else if q = ''480'' then 480 else 0)"

text \<open>
  The users of a limiter: a session takes a slot when it starts and gives it back once, when it
  ends. The abstract state is the set of sessions that run.
\<close>

datatype slot_event = Start string | Stop string | Resize int

definition slot_step :: "slot_limiter \<times> string list \<Rightarrow> slot_event \<Rightarrow> slot_limiter \<times> string list" where
  "slot_step st e =
     (case (st, e) of
        ((l, live), Start sid) \<Rightarrow>
          (if sid \<in> set live then (l, live)
           else case TryAcquire l of (l, True) \<Rightarrow> (l, sid # live) | (l, False) \<Rightarrow> (l, live))
      | ((l, live), Stop sid) \<Rightarrow>
          (if sid \<in> set live then (Release l, remove1 sid live) else (l, live))
      | ((l, live), Resize n) \<Rightarrow> (SetSlots n l, live))"

definition slots_ok :: "slot_limiter \<times> string list \<Rightarrow> bool" where
  "slots_ok st \<longleftrightarrow> l_active (fst st) = int (length (snd st)) \<and> distinct (snd st) \<and> 0 < l_Slots (fst st)"

lemma slot_step_ok: "slots_ok st \<Longrightarrow> slots_ok (slot_step st e)"
  by (cases st; cases e)
     (auto simp: slots_ok_def slot_step_def TryAcquire_def Release_def SetSlots_def DefaultSlots_def
                 length_remove1 neq_Nil_conv split: if_splits dest: length_pos_if_in_set)

interpretation slots: invariant_machine slot_step slots_ok
  by unfold_locales (rule slot_step_ok)

text \<open>The largest capacity that was ever in force.\<close>

definition slots_after :: "int \<Rightarrow> slot_event list \<Rightarrow> slot_limiter \<times> string list" where
  "slots_after n es = foldl slot_step (New n, []) es"

definition highest_capacity :: "int \<Rightarrow> slot_event list \<Rightarrow> int" where
  "highest_capacity n es =
     foldl (\<lambda>c e. case e of Resize k \<Rightarrow> max c (if k \<le> 0 then DefaultSlots else k) | _ \<Rightarrow> c) (l_Slots (New n)) es"

lemma slots_after_Nil [simp]: "slots_after n [] = (New n, [])"
  by (simp add: slots_after_def)

lemma slots_after_snoc [simp]: "slots_after n (es @ [e]) = slot_step (slots_after n es) e"
  by (simp add: slots_after_def)

lemma slots_after_ok: "slots_ok (slots_after n es)"
  unfolding slots_after_def
  by (rule slots.run_keeps) (simp add: slots_ok_def New_def DefaultSlots_def)

lemma highest_capacity_snoc [simp]:
  "highest_capacity n (es @ [e]) =
     (case e of Resize k \<Rightarrow> max (highest_capacity n es) (if k \<le> 0 then DefaultSlots else k) | _ \<Rightarrow> highest_capacity n es)"
  by (cases e) (simp_all add: highest_capacity_def)

lemma slots_bounded_by_highest:
  "l_Slots (fst (slots_after n es)) \<le> highest_capacity n es \<and>
   int (length (snd (slots_after n es))) \<le> highest_capacity n es"
proof (induction es rule: rev_induct)
  case Nil
  then show ?case by (simp add: highest_capacity_def New_def DefaultSlots_def)
next
  case (snoc e es)
  obtain l live where st: "slots_after n es = (l, live)" by fastforce
  have ok: "slots_ok (l, live)" using slots_after_ok [of n es] st by simp
  show ?case
    using snoc ok
    by (cases e) (auto simp: st slot_step_def slots_ok_def TryAcquire_def Release_def SetSlots_def length_remove1
                       split: if_splits)
qed

text \<open>However sessions start and stop and however the capacity is changed: the slots in use are
  exactly the sessions that run, each holds one, no run ever has more than the largest capacity
  that was in force, and a session is turned away exactly when the running sessions fill the
  capacity of the moment.\<close>

theorem slots_count_sessions:
  assumes run: "slots_after n es = (l, live)"
  shows "l_active l = int (length live) \<and> distinct live \<and> int (length live) \<le> highest_capacity n es \<and>
    (snd (TryAcquire l) \<longleftrightarrow> int (length live) < l_Slots l) \<and>
    (snd (TryAcquire l) \<longrightarrow> Release (fst (TryAcquire l)) = l)"
  using slots_after_ok [of n es] slots_bounded_by_highest [of n es] run
  by (auto simp: slots_ok_def TryAcquire_def Release_def)

theorem slots_count_sessions_witness:
  "slots_after 0 [Start ''a'', Start ''b'', Start ''c'', Resize 1, Stop ''a'', Start ''d''] =
     (\<lparr>l_Slots = 1, l_active = 1\<rparr>, [''b'']) \<and>
   \<not> snd (TryAcquire \<lparr>l_Slots = 1, l_active = 1\<rparr>)"
proof -
  have run: "slots_after 0 [Start ''a'', Start ''b'', Start ''c'', Resize 1, Stop ''a'', Start ''d''] =
     (\<lparr>l_Slots = 1, l_active = 1\<rparr>, [''b''])"
    by code_simp
  from slots_count_sessions [OF run] show ?thesis using run by simp
qed

section \<open>Requests in a sliding window\<close>

text \<open>\<^verbatim>\<open>limiter\<close>: the times of the admitted requests of each key.\<close>

type_synonym hit_table = "(string \<times> gtime list) list"

definition hits_of :: "string \<Rightarrow> hit_table \<Rightarrow> gtime list" where
  "hits_of k hits = (case map_of hits k of None \<Rightarrow> [] | Some ts \<Rightarrow> ts)"

definition allow :: "string \<Rightarrow> int \<Rightarrow> duration \<Rightarrow> gtime \<Rightarrow> hit_table \<Rightarrow> hit_table \<times> bool" where
  "allow k n window now hits =
     (let kept = filter (\<lambda>t. t > now - window) (hits_of k hits)
      in if int (length kept) \<ge> n then (set_key k kept hits, False)
         else (set_key k (kept @ [now]) hits, True))"

text \<open>
  \<^verbatim>\<open>RateLimit\<close>: one table for all the requests of a route, the bound and the window fixed. The
  second component is the abstract history: the times of all the requests admitted for a key.
\<close>

definition limit_step :: "int \<Rightarrow> duration \<Rightarrow> hit_table \<times> (string \<Rightarrow> gtime list) \<Rightarrow> string \<times> gtime
    \<Rightarrow> hit_table \<times> (string \<Rightarrow> gtime list)" where
  "limit_step n window st call =
     (case (st, call) of ((hits, past), (k, now)) \<Rightarrow>
        case allow k n window now hits of (hits, ok) \<Rightarrow>
          (hits, if ok then past(k := past k @ [now]) else past))"

definition limit_run :: "int \<Rightarrow> duration \<Rightarrow> (string \<times> gtime) list \<Rightarrow> hit_table \<times> (string \<Rightarrow> gtime list)" where
  "limit_run n window calls = foldl (limit_step n window) ([], \<lambda>_. []) calls"

definition in_window :: "duration \<Rightarrow> gtime \<Rightarrow> gtime list \<Rightarrow> gtime list" where
  "in_window window now ts = filter (\<lambda>t. now - window < t \<and> t \<le> now) ts"

text \<open>What the table keeps for a key once time \<open>T\<close> has come, and the bound on every window.\<close>

definition limit_ok :: "int \<Rightarrow> duration \<Rightarrow> gtime \<Rightarrow> hit_table \<times> (string \<Rightarrow> gtime list) \<Rightarrow> bool" where
  "limit_ok n window T st \<longleftrightarrow>
     (\<forall>k. (\<forall>t \<in> set (snd st k). t \<le> T) \<and>
          (\<forall>now \<ge> T. filter (\<lambda>t. t > now - window) (hits_of k (fst st)) =
                      filter (\<lambda>t. t > now - window) (snd st k)) \<and>
          (\<forall>now. int (length (in_window window now (snd st k))) \<le> max n 0))"

lemma hits_of_set_key: "hits_of k (set_key k' ts hits) = (if k = k' then ts else hits_of k hits)"
  by (simp add: hits_of_def)

lemma allow_eq:
  "allow k n window now hits =
     (let kept = filter (\<lambda>t. t > now - window) (hits_of k hits); ok = int (length kept) < n
      in (set_key k (if ok then kept @ [now] else kept) hits, ok))"
  by (simp add: allow_def Let_def)

lemma in_window_snoc:
  assumes "\<forall>t \<in> set ts. t \<le> T" "T \<le> now" "int (length (filter (\<lambda>t. t > now - window) ts)) < n"
    "int (length (in_window window now' ts)) \<le> max n 0"
  shows "int (length (in_window window now' (ts @ [now]))) \<le> max n 0"
proof (cases "now \<le> now'")
  case True
  have "length (in_window window now' ts) \<le> length (filter (\<lambda>t. t > now - window) ts)"
    unfolding in_window_def using True
    by (induction ts) auto
  then show ?thesis using assms(3) by (simp add: in_window_def)
next
  case False
  then show ?thesis using assms(4) by (simp add: in_window_def)
qed

lemma limit_step_ok:
  assumes ok: "limit_ok n window T st" and T: "T \<le> now"
  shows "limit_ok n window now (limit_step n window st (k, now))"
proof -
  obtain hits past where st: "st = (hits, past)" by fastforce
  define kept where "kept = filter (\<lambda>t. t > now - window) (hits_of k hits)"
  define go where "go \<longleftrightarrow> int (length kept) < n"
  have kept_eq: "kept = filter (\<lambda>t. t > now - window) (past k)"
    using ok T by (simp add: limit_ok_def st kept_def)
  have refilter: "filter (\<lambda>t. t > now' - window) kept = filter (\<lambda>t. t > now' - window) (past k)"
    if "now \<le> now'" for now'
    unfolding kept_eq filter_filter using that by (intro filter_cong) auto
  have step: "limit_step n window st (k, now) =
      (set_key k (if go then kept @ [now] else kept) hits, if go then past(k := past k @ [now]) else past)"
    by (simp add: limit_step_def st allow_eq kept_def go_def Let_def)
  have past_le: "\<forall>t \<in> set (past k'). t \<le> now" for k' using ok T by (fastforce simp: limit_ok_def st)
  have bound: "int (length (in_window window now' (past k'))) \<le> max n 0" for now' k'
    using ok by (simp add: limit_ok_def st)
  have grown: "int (length (in_window window now' (past k @ [now]))) \<le> max n 0" if go for now'
    using in_window_snoc [of "past k" now now window n now'] past_le bound that by (simp add: go_def kept_eq)
  have table: "filter (\<lambda>t. t > now' - window) (hits_of k' hits) = filter (\<lambda>t. t > now' - window) (past k')"
    if "now \<le> now'" for now' k'
    using ok T that by (simp add: limit_ok_def st)
  show ?thesis
    unfolding step limit_ok_def
    using past_le bound grown table refilter by (auto simp: hits_of_set_key)
qed

lemma limit_run_snoc: "limit_run n window (calls @ [c]) = limit_step n window (limit_run n window calls) c"
  by (simp add: limit_run_def)

lemma limit_run_ok:
  "sorted (map snd calls) \<Longrightarrow> \<forall>c \<in> set calls. snd c \<le> T \<Longrightarrow> limit_ok n window T (limit_run n window calls)"
proof (induction calls arbitrary: T rule: rev_induct)
  case Nil
  then show ?case by (simp add: limit_run_def limit_ok_def hits_of_def in_window_def)
next
  case (snoc c calls)
  obtain k now where c: "c = (k, now)" by fastforce
  have "limit_ok n window now (limit_run n window calls)"
    using snoc.prems by (intro snoc.IH) (auto simp: c sorted_append)
  then have "limit_ok n window now (limit_run n window (calls @ [c]))"
    unfolding limit_run_snoc c by (rule limit_step_ok) simp
  then show ?case using snoc.prems(2) by (fastforce simp: limit_ok_def c)
qed

text \<open>The request limiter is exact: with a clock that does not run backwards, a request is admitted
  exactly when fewer than \<open>n\<close> requests of its key were admitted in the window that ends with it,
  and no window of that length, wherever it lies, contains more than \<open>n\<close> admitted requests of a
  key.\<close>

theorem rate_limit_exact:
  assumes clock: "sorted (map snd calls @ [now])"
  shows "(snd (allow k n window now (fst (limit_run n window calls))) \<longleftrightarrow>
      int (length (in_window window now (snd (limit_run n window calls) k))) < n) \<and>
    (\<forall>t. int (length (in_window window t (snd (limit_run n window (calls @ [(k, now)])) k'))) \<le> max n 0)"
proof -
  have ok: "limit_ok n window now (limit_run n window calls)"
    using clock by (intro limit_run_ok) (auto simp: sorted_append)
  have "in_window window now (snd (limit_run n window calls) k) =
      filter (\<lambda>t. t > now - window) (hits_of k (fst (limit_run n window calls)))"
    using ok by (auto simp: limit_ok_def in_window_def intro!: filter_cong)
  moreover have "limit_ok n window now (limit_run n window (calls @ [(k, now)]))"
    unfolding limit_run_snoc using ok by (rule limit_step_ok) simp
  ultimately show ?thesis by (simp add: allow_eq Let_def limit_ok_def)
qed

theorem rate_limit_exact_witness:
  "\<not> snd (allow ''a'' 2 10 5 (fst (limit_run 2 10 [(''a'', 1), (''b'', 1), (''a'', 3)]))) \<and>
   snd (allow ''a'' 2 10 12 (fst (limit_run 2 10 [(''a'', 1), (''b'', 1), (''a'', 3)])))"
  by (simp add: rate_limit_exact [THEN conjunct1]) code_simp

end
