(* ===== verification/Breaker.thy ===== *)
theory Breaker
  imports ViewDock_Prelude
begin

text \<open>
  The circuit breaker in front of the database (\<^verbatim>\<open>src/internal/db/breaker.go\<close>): the registration of
  statements, tripping and closing, and the loop that watches the database. \<^verbatim>\<open>guard\<close> reads the
  atomic flag \<^verbatim>\<open>open\<close> before it takes the mutex, so its two halves are separate steps; every other
  operation is one step. A context is named by the number of its statement; \<open>b_cancelled\<close> records
  the cancel functions that were called. Driver plumbing (\<^verbatim>\<open>trackedRows\<close>) is not modelled.
\<close>

record breaker =
  b_open :: bool
  b_trips :: int
  b_since :: int
  b_next :: nat
  b_inflight :: "nat list"
  b_cancelled :: "nat list"

definition tripAfterFailed :: int where "tripAfterFailed = 2"

definition newBreaker :: breaker where
  "newBreaker = \<lparr>b_open = False, b_trips = 0, b_since = 0, b_next = 0, b_inflight = [], b_cancelled = []\<rparr>"

text \<open>The two halves of \<^verbatim>\<open>guard\<close>, and the whole of it where nothing comes between them.\<close>

definition guard_check :: "breaker \<Rightarrow> bool" where
  "guard_check b \<longleftrightarrow> \<not> b_open b"

definition guard_register :: "breaker \<Rightarrow> breaker \<times> nat" where
  "guard_register b =
     (let stmt = b_next b + 1 in (b\<lparr>b_next := stmt, b_inflight := b_inflight b @ [stmt]\<rparr>, stmt))"

definition guard :: "breaker \<Rightarrow> breaker \<times> nat option" where
  "guard b = (if \<not> guard_check b then (b, None) else (case guard_register b of (b, stmt) \<Rightarrow> (b, Some stmt)))"

text \<open>The release function that \<^verbatim>\<open>guard\<close> returns; calling a cancel function again does nothing.\<close>

definition release_stmt :: "nat \<Rightarrow> breaker \<Rightarrow> breaker" where
  "release_stmt stmt b =
     b\<lparr>b_inflight := filter (\<lambda>i. i \<noteq> stmt) (b_inflight b), b_cancelled := List.insert stmt (b_cancelled b)\<rparr>"

definition trip :: "int \<Rightarrow> breaker \<Rightarrow> breaker" where
  "trip now b =
     (if b_open b then b
      else b\<lparr>b_open := True, b_trips := b_trips b + 1, b_since := now, b_inflight := [],
             b_cancelled := foldl (\<lambda>c i. List.insert i c) (b_cancelled b) (b_inflight b)\<rparr>)"

definition breset :: "int \<Rightarrow> breaker \<Rightarrow> breaker" where
  "breset now b = (if b_open b then b\<lparr>b_open := False, b_since := now\<rparr> else b)"

record db_health =
  hh_Available :: bool
  hh_Since :: "int option"
  hh_Trips :: int
  hh_Watched :: bool

definition HealthOf :: "breaker option \<Rightarrow> db_health" where
  "HealthOf ob =
     (case ob of
        None \<Rightarrow> \<lparr>hh_Available = True, hh_Since = None, hh_Trips = 0, hh_Watched = False\<rparr>
      | Some b \<Rightarrow> \<lparr>hh_Available = \<not> b_open b, hh_Since = (if b_since b > 0 then Some (b_since b) else None),
                   hh_Trips = b_trips b, hh_Watched = True\<rparr>)"

section \<open>The watcher\<close>

text \<open>
  One turn of the loop of \<^verbatim>\<open>watchHealth\<close>: the count of failed pings, the breaker, and whether the
  loop goes on. \<open>Gone\<close> is a closed pool or a cancelled context.
\<close>

datatype ping = Reached | Unreached | Gone

record watcher =
  w_failed :: int
  w_breaker :: breaker
  w_running :: bool

definition watch_turn :: "ping \<Rightarrow> int \<Rightarrow> watcher \<Rightarrow> watcher" where
  "watch_turn p now w =
     (if \<not> w_running w then w
      else case p of
        Gone \<Rightarrow> w\<lparr>w_running := False\<rparr>
      | Reached \<Rightarrow> w\<lparr>w_failed := 0, w_breaker := breset now (w_breaker w)\<rparr>
      | Unreached \<Rightarrow>
          (let w = w\<lparr>w_failed := w_failed w + 1\<rparr>
           in if w_failed w \<ge> tripAfterFailed then w\<lparr>w_breaker := trip now (w_breaker w)\<rparr> else w))"

text \<open>The events that reach a breaker: a turn of the watcher, a statement that starts or ends.\<close>

datatype db_event = Turn ping int | Begin | Finish nat

definition db_step :: "watcher \<Rightarrow> db_event \<Rightarrow> watcher" where
  "db_step w e =
     (case e of
        Turn p now \<Rightarrow> watch_turn p now w
      | Begin \<Rightarrow> w\<lparr>w_breaker := fst (guard (w_breaker w))\<rparr>
      | Finish stmt \<Rightarrow> w\<lparr>w_breaker := release_stmt stmt (w_breaker w)\<rparr>)"

definition watched :: watcher where
  "watched = \<lparr>w_failed = 0, w_breaker = newBreaker, w_running = True\<rparr>"

text \<open>The failed pings in a row at the end of a history, as long as the watcher runs.\<close>

definition count_failures :: "int \<times> bool \<Rightarrow> db_event \<Rightarrow> int \<times> bool" where
  "count_failures s e =
     (case e of Turn p _ \<Rightarrow>
        (if \<not> snd s then s
         else case p of Gone \<Rightarrow> (fst s, False) | Reached \<Rightarrow> (0, True) | Unreached \<Rightarrow> (fst s + 1, True))
      | _ \<Rightarrow> s)"

definition failures_in_row :: "db_event list \<Rightarrow> int" where
  "failures_in_row es = fst (foldl count_failures (0, True) es)"

section \<open>What the breaker promises when its operations do not overlap\<close>

definition breaker_ok :: "watcher \<Rightarrow> bool" where
  "breaker_ok w \<longleftrightarrow>
     (b_open (w_breaker w) \<longleftrightarrow> w_failed w \<ge> tripAfterFailed) \<and> 0 \<le> w_failed w \<and>
     (b_open (w_breaker w) \<longrightarrow> b_inflight (w_breaker w) = []) \<and>
     {1..b_next (w_breaker w)} \<subseteq> set (b_inflight (w_breaker w)) \<union> set (b_cancelled (w_breaker w)) \<and>
     (\<forall>i \<in> set (b_inflight (w_breaker w)). i \<le> b_next (w_breaker w)) \<and>
     distinct (b_inflight (w_breaker w))"

lemma set_foldl_insert: "set (foldl (\<lambda>c i. List.insert i c) c is) = set c \<union> set is"
  by (induction "is" arbitrary: c) auto

lemma trip_ok_simps [simp]:
  "b_open (trip now b)" "b_next (trip now b) = b_next b"
  "b_open b \<Longrightarrow> trip now b = b"
  "\<not> b_open b \<Longrightarrow> b_inflight (trip now b) = []"
  "\<not> b_open b \<Longrightarrow> set (b_cancelled (trip now b)) = set (b_cancelled b) \<union> set (b_inflight b)"
  by (simp_all add: trip_def set_foldl_insert)

lemma breset_simps [simp]:
  "\<not> b_open (breset now b)" "b_next (breset now b) = b_next b"
  "b_inflight (breset now b) = b_inflight b" "b_cancelled (breset now b) = b_cancelled b"
  by (simp_all add: breset_def)

lemma watch_turn_ok: "breaker_ok w \<Longrightarrow> breaker_ok (watch_turn p now w)"
  by (cases p; cases "b_open (w_breaker w)")
     (auto simp: breaker_ok_def watch_turn_def tripAfterFailed_def Let_def)

lemma guard_ok: "breaker_ok w \<Longrightarrow> breaker_ok (w\<lparr>w_breaker := fst (guard (w_breaker w))\<rparr>)"
  by (force simp: breaker_ok_def guard_def guard_check_def guard_register_def Let_def)

lemma release_ok: "breaker_ok w \<Longrightarrow> breaker_ok (w\<lparr>w_breaker := release_stmt stmt (w_breaker w)\<rparr>)"
  by (auto simp: breaker_ok_def release_stmt_def)

lemma db_step_ok: "breaker_ok w \<Longrightarrow> breaker_ok (db_step w e)"
  by (cases e) (simp_all add: db_step_def watch_turn_ok guard_ok release_ok)

interpretation db: invariant_machine db_step breaker_ok
  by unfold_locales (rule db_step_ok)

lemma failures_counted:
  "foldl count_failures (0, True) es =
     (w_failed (foldl db_step watched es), w_running (foldl db_step watched es))"
  by (induction es rule: rev_induct)
     (auto simp: watched_def count_failures_def db_step_def watch_turn_def Let_def split: db_event.split ping.split)

lemma watched_ok: "breaker_ok (foldl db_step watched es)"
  by (rule db.run_keeps) (simp add: breaker_ok_def watched_def newBreaker_def tripAfterFailed_def)

text \<open>The breaker follows the database: after any history of pings and of statements that start and
  end, it is open exactly when at least two pings in a row have failed, and one success closes it.
  While it is open no statement is in flight, those that were have been cancelled, and a new one
  is refused without contact with the database; while it is closed a new statement is admitted
  under a fresh number.\<close>

theorem breaker_follows_pings:
  assumes w: "w = foldl db_step watched es"
  shows "(b_open (w_breaker w) \<longleftrightarrow> failures_in_row es \<ge> 2) \<and>
    (w_running w \<longrightarrow> \<not> b_open (w_breaker (db_step w (Turn Reached now)))) \<and>
    (if b_open (w_breaker w)
     then b_inflight (w_breaker w) = [] \<and> {1..b_next (w_breaker w)} \<subseteq> set (b_cancelled (w_breaker w)) \<and>
          guard (w_breaker w) = (w_breaker w, None)
     else \<exists>b stmt. guard (w_breaker w) = (b, Some stmt) \<and> stmt \<notin> set (b_inflight (w_breaker w)) \<and>
            b_inflight b = b_inflight (w_breaker w) @ [stmt])"
proof -
  have ok: "breaker_ok w" using watched_ok w by simp
  have "failures_in_row es = w_failed w" using failures_counted [of es] by (simp add: failures_in_row_def w)
  moreover have "b_next (w_breaker w) + 1 \<notin> set (b_inflight (w_breaker w))"
    using ok by (force simp: breaker_ok_def)
  ultimately show ?thesis
    using ok
    by (auto simp: breaker_ok_def tripAfterFailed_def guard_def guard_check_def guard_register_def Let_def
                   db_step_def watch_turn_def)
qed

definition outage :: "db_event list" where
  "outage = [Begin, Turn Unreached 1000, Begin, Turn Unreached 2000, Begin]"

theorem breaker_follows_pings_witness:
  "b_open (w_breaker (foldl db_step watched outage)) \<and>
   b_inflight (w_breaker (foldl db_step watched outage)) = [] \<and>
   guard (w_breaker (foldl db_step watched outage)) = (w_breaker (foldl db_step watched outage), None)"
proof -
  have "failures_in_row outage = 2" by code_simp
  then show ?thesis using breaker_follows_pings [OF refl, of outage 0] by simp
qed

section \<open>The gap in guard\<close>

text \<open>Between the check of the flag and the registration of a statement the breaker may trip. The
  statement is then registered with an open breaker, and nothing of the outage cancels it: however
  many pings fail from then on, it stays in flight until it ends by itself.\<close>

theorem late_statement_not_cancelled:
  assumes "guard_check b" and fresh: "\<forall>i \<in> set (b_inflight b) \<union> set (b_cancelled b). i \<le> b_next b"
    and w: "w_breaker w = fst (guard_register (trip now b))"
  shows "let stmt = snd (guard_register (trip now b));
             later = foldl db_step w (map (Turn Unreached) ts)
         in b_open (w_breaker later) \<and> stmt \<in> set (b_inflight (w_breaker later)) \<and>
            stmt \<notin> set (b_cancelled (w_breaker later))"
proof -
  have open_w: "b_open (w_breaker w)" using w by (simp add: guard_register_def Let_def)
  have "w_breaker (foldl db_step w (map (Turn Unreached) ts)) = w_breaker w"
  proof (induction ts rule: rev_induct)
    case (snoc t us)
    have "w_breaker (db_step v (Turn Unreached t)) = w_breaker v" if "b_open (w_breaker v)" for v
      using that by (simp add: db_step_def watch_turn_def Let_def)
    then show ?case using snoc open_w by simp
  qed simp
  moreover have "b_next b + 1 \<notin> set (b_cancelled (trip now b))"
    using assms(1) fresh by (force simp: guard_check_def)
  ultimately show ?thesis using open_w w by (simp add: Let_def guard_register_def)
qed

theorem late_statement_not_cancelled_witness:
  "1 \<in> set (b_inflight (w_breaker (foldl db_step
      (watched\<lparr>w_failed := 2, w_breaker := fst (guard_register (trip 5 newBreaker))\<rparr>) (map (Turn Unreached) [6, 7]))))"
proof -
  have "guard_check newBreaker" "snd (guard_register (trip 5 newBreaker)) = 1" by code_simp+
  moreover have "\<forall>i \<in> set (b_inflight newBreaker) \<union> set (b_cancelled newBreaker). i \<le> b_next newBreaker"
    by (simp add: newBreaker_def)
  ultimately show ?thesis
    using late_statement_not_cancelled [of newBreaker "watched\<lparr>w_failed := 2, w_breaker := fst (guard_register (trip 5 newBreaker))\<rparr>" 5 "[6, 7]"]
    by (simp add: Let_def)
qed

end
