(* ===== verification/Playlist.thy ===== *)
theory Playlist
  imports Float64
begin

text \<open>
  HLS playlists (\<^verbatim>\<open>src/internal/hls/vod.go\<close>, \<^verbatim>\<open>inspect.go\<close>, \<^verbatim>\<open>playlist.go\<close>): the plan of a movie's
  segments, the playlist written from it, what a client reads back, and the checks on file names.
  Durations are integers of milliseconds; the float64 arithmetic of the playlist (\<open>d / 1000\<close>,
  \<open>sec * 1000\<close>) is rounded as in \<open>Float64\<close>. Not modelled: rewriting URIs with a stream token
  (\<^verbatim>\<open>net/url\<close>) and the files on disk.
\<close>

section \<open>Plans\<close>

record hls_seg =
  sg_Index :: int
  sg_StartMS :: int
  sg_DurationMS :: int

record hls_plan =
  pl_TargetSec :: int
  pl_DurationMS :: int
  pl_Segments :: "hls_seg list"

text \<open>The loop of \<^verbatim>\<open>EqualLengthPlan\<close> from time \<open>t\<close> with \<open>i\<close> segments made.\<close>

function equal_segs :: "int \<Rightarrow> int \<Rightarrow> int \<Rightarrow> nat \<Rightarrow> hls_seg list" where
  "equal_segs step stop t i =
     (if \<not> t < stop then []
      else (let dur = (if t + step > stop then stop - t else step)
            in if dur \<le> 0 then []
               else \<lparr>sg_Index = int i, sg_StartMS = t, sg_DurationMS = dur\<rparr> # equal_segs step stop (t + dur) (i + 1)))"
  by pat_completeness auto
termination
  by (relation "measure (\<lambda>(step, stop, t, i). nat (stop - t))") auto

declare equal_segs.simps [simp del]

definition EqualLengthPlan :: "int \<Rightarrow> int \<Rightarrow> hls_plan" where
  "EqualLengthPlan durationMS targetSec =
     (let targetSec = (if targetSec \<le> 0 then 4 else targetSec)
      in if durationMS \<le> 0 then \<lparr>pl_TargetSec = targetSec, pl_DurationMS = 0, pl_Segments = []\<rparr>
         else \<lparr>pl_TargetSec = targetSec, pl_DurationMS = durationMS,
                pl_Segments = equal_segs (targetSec * 1000) durationMS 0 0\<rparr>)"

text \<open>One turn of the loop of \<^verbatim>\<open>normalizeKeyframes\<close>.\<close>

definition keep_keyframe :: "int \<Rightarrow> int list \<Rightarrow> int \<Rightarrow> int list" where
  "keep_keyframe durationMS out ms =
     (if ms < 0 then out
      else if durationMS > 0 \<and> ms > durationMS then out
      else if ms \<in> set out then out else out @ [ms])"

definition normalizeKeyframes :: "int list \<Rightarrow> int \<Rightarrow> int list" where
  "normalizeKeyframes raw durationMS =
     (let out = sort (foldl (keep_keyframe durationMS) [] raw);
          out = (if out = [] \<or> hd out \<noteq> 0 then 0 # out else out)
      in if durationMS > 0 \<and> last out \<noteq> durationMS then out @ [durationMS] else out)"

definition KeyframesCover :: "int list \<Rightarrow> int \<Rightarrow> bool" where
  "KeyframesCover kfs durationMS =
     (if durationMS \<le> 0 \<or> length kfs < 2 then False
      else durationMS - foldl (\<lambda>m ms. if ms > m then ms else m) 0 kfs \<le> 2000)"

text \<open>The cut after \<open>last\<close>: the first keyframe at or beyond the threshold, else the end.\<close>

definition next_cut :: "int \<Rightarrow> int \<Rightarrow> int list \<Rightarrow> int \<Rightarrow> int" where
  "next_cut target stop pts lst =
     (case List.find (\<lambda>kf. kf > lst \<and> kf \<ge> lst + target) pts of Some kf \<Rightarrow> kf | None \<Rightarrow> stop)"

function keyframe_segs :: "int \<Rightarrow> int \<Rightarrow> int list \<Rightarrow> int \<Rightarrow> nat \<Rightarrow> hls_seg list" where
  "keyframe_segs target stop pts lst i =
     (if \<not> lst < stop then []
      else (let nxt = next_cut target stop pts lst
            in if nxt \<le> lst then []
               else \<lparr>sg_Index = int i, sg_StartMS = lst, sg_DurationMS = nxt - lst\<rparr>
                    # keyframe_segs target stop pts nxt (i + 1)))"
  by pat_completeness auto
termination
  by (relation "measure (\<lambda>(target, stop, pts, lst, i). nat (stop - lst))") auto

declare keyframe_segs.simps [simp del]

definition KeyframePlan :: "int list \<Rightarrow> int \<Rightarrow> int \<Rightarrow> hls_plan" where
  "KeyframePlan kfs durationMS maxSegSec =
     (let maxSegSec = (if maxSegSec \<le> 0 then 4 else maxSegSec);
          none = \<lparr>pl_TargetSec = maxSegSec, pl_DurationMS = durationMS, pl_Segments = []\<rparr>
      in if \<not> KeyframesCover kfs durationMS then none
         else (let pts = normalizeKeyframes kfs durationMS
               in if length pts < 2 \<or> durationMS \<le> 0 then none
                  else none\<lparr>pl_Segments := keyframe_segs (maxSegSec * 1000) durationMS pts 0 0\<rparr>))"

definition StartMSForIndex :: "hls_plan \<Rightarrow> int \<Rightarrow> int" where
  "StartMSForIndex p n =
     (if n < 0 \<or> n \<ge> int (length (pl_Segments p)) then 0 else sg_StartMS (pl_Segments p ! nat n))"

text \<open>\<^verbatim>\<open>sort.Search\<close>: the binary search of the standard library over \<open>i, j\<close>.\<close>

function search_from :: "(nat \<Rightarrow> bool) \<Rightarrow> nat \<Rightarrow> nat \<Rightarrow> nat" where
  "search_from f i j =
     (if i < j then (let h = (i + j) div 2 in if \<not> f h then search_from f (h + 1) j else search_from f i h)
      else i)"
  by pat_completeness auto
termination
  by (relation "measure (\<lambda>(f, i, j). j - i)") auto

declare search_from.simps [simp del]

definition IndexForMS :: "hls_plan \<Rightarrow> int \<Rightarrow> int" where
  "IndexForMS p ms =
     (if pl_Segments p = [] then 0
      else if ms \<le> 0 then 0
      else (let i = search_from (\<lambda>i. sg_StartMS (pl_Segments p ! i) > ms) 0 (length (pl_Segments p))
            in if i = 0 then 0 else int i - 1))"

definition LastIndex :: "hls_plan \<Rightarrow> int" where
  "LastIndex p = (if pl_Segments p = [] then 0 else sg_Index (last (pl_Segments p)))"

definition TargetDuration :: "hls_plan \<Rightarrow> int" where
  "TargetDuration p =
     (let m = foldl (\<lambda>m s. let sec = \<lceil>fl_div (fl_of_int (sg_DurationMS s)) 1000\<rceil> in if sec > m then sec else m)
                (pl_TargetSec p) (pl_Segments p)
      in if m < 1 then 1 else m)"

definition ListedDurationMS :: "hls_plan \<Rightarrow> int" where
  "ListedDurationMS p = foldl (\<lambda>sum s. sum + sg_DurationMS s) 0 (pl_Segments p)"

section \<open>The segments tile the movie\<close>

text \<open>\<open>tiles t i ss e\<close>: numbered from \<open>i\<close>, each segment starts where the one before ends, none is
  empty, the first starts at \<open>t\<close> and the last ends at \<open>e\<close>.\<close>

fun tiles :: "int \<Rightarrow> nat \<Rightarrow> hls_seg list \<Rightarrow> int \<Rightarrow> bool" where
  "tiles t i [] e = (t = e)"
| "tiles t i (s # ss) e =
     (sg_Index s = int i \<and> sg_StartMS s = t \<and> 0 < sg_DurationMS s \<and> tiles (t + sg_DurationMS s) (i + 1) ss e)"

lemma tiles_le: "tiles t i ss e \<Longrightarrow> t \<le> e"
  by (induction ss arbitrary: t i) fastforce+

lemma tiles_nth:
  "tiles t i ss e \<Longrightarrow> n < length ss \<Longrightarrow>
     sg_Index (ss ! n) = int (i + n) \<and> t \<le> sg_StartMS (ss ! n) \<and> 0 < sg_DurationMS (ss ! n) \<and>
     sg_StartMS (ss ! n) + sg_DurationMS (ss ! n) = (if Suc n < length ss then sg_StartMS (ss ! Suc n) else e)"
proof (induction ss arbitrary: t i n)
  case (Cons s ss)
  show ?case
  proof (cases n)
    case 0
    then show ?thesis using Cons.prems by (cases ss) auto
  next
    case (Suc m)
    then show ?thesis using Cons.IH [of "t + sg_DurationMS s" "i + 1" m] Cons.prems by auto
  qed
qed simp

lemma tiles_start_0: "tiles t i ss e \<Longrightarrow> ss \<noteq> [] \<Longrightarrow> sg_StartMS (ss ! 0) = t"
  by (cases ss) auto

lemma tiles_mono:
  assumes "tiles t i ss e" "m \<le> n" "n < length ss"
  shows "sg_StartMS (ss ! m) \<le> sg_StartMS (ss ! n)"
  using assms(2,3)
proof (induction n rule: dec_induct)
  case (step n)
  then show ?case using tiles_nth [OF assms(1), of n] by (simp split: if_splits)
qed simp

lemma tiles_end_le:
  "tiles t i ss e \<Longrightarrow> n < length ss \<Longrightarrow> sg_StartMS (ss ! n) + sg_DurationMS (ss ! n) \<le> e"
proof (induction ss arbitrary: t i n)
  case (Cons s ss)
  then show ?case by (cases n) (auto dest: tiles_le)
qed simp

lemma tiles_sum: "tiles t i ss e \<Longrightarrow> foldl (\<lambda>sum s. sum + sg_DurationMS s) a ss = a + (e - t)"
  by (induction ss arbitrary: t i a) auto

lemma tiles_last: "tiles t i ss e \<Longrightarrow> ss \<noteq> [] \<Longrightarrow> sg_Index (last ss) = int (i + length ss) - 1"
  by (induction ss arbitrary: t i) (auto split: if_splits)

lemma equal_segs_tiles:
  "0 < step \<Longrightarrow> t \<le> stop \<Longrightarrow> tiles t i (equal_segs step stop t i) stop"
proof (induction step stop t i rule: equal_segs.induct)
  case (1 step stop t i)
  then show ?case by (subst equal_segs.simps) (auto simp: Let_def)
qed

lemma equal_segs_lengths:
  "0 < step \<Longrightarrow> s \<in> set (equal_segs step stop t i) \<Longrightarrow>
     sg_DurationMS s = min step (stop - sg_StartMS s)"
proof (induction step stop t i rule: equal_segs.induct)
  case (1 step stop t i)
  from "1.prems" show ?case
    by (subst (asm) equal_segs.simps) (auto simp: Let_def min_def "1.IH" split: if_splits dest: "1.IH")
qed

lemma next_cut_cases:
  obtains kf where "kf \<in> set pts" "kf > lst" "kf \<ge> lst + target" "next_cut target stop pts lst = kf"
  | "\<forall>kf \<in> set pts. \<not> (kf > lst \<and> kf \<ge> lst + target)" "next_cut target stop pts lst = stop"
proof (cases "List.find (\<lambda>kf. kf > lst \<and> kf \<ge> lst + target) pts")
  case None
  then have "\<forall>kf \<in> set pts. \<not> (kf > lst \<and> kf \<ge> lst + target)" by (simp add: find_None_iff)
  with None show thesis using that(2) by (simp add: next_cut_def)
next
  case (Some kf)
  then have "kf \<in> set pts" "kf > lst" "kf \<ge> lst + target" by (auto simp: find_Some_iff)
  with Some show thesis using that(1) by (simp add: next_cut_def)
qed

lemma next_cut_least:
  assumes "sorted pts" "kf \<in> set pts" "kf > lst" "kf \<ge> lst + target"
  shows "next_cut target stop pts lst \<le> kf"
proof (cases "List.find (\<lambda>kf. kf > lst \<and> kf \<ge> lst + target) pts")
  case None
  with assms show ?thesis by (auto simp: find_None_iff)
next
  case (Some k)
  then obtain n where n: "n < length pts" "k = pts ! n" "\<forall>j < n. \<not> (pts ! j > lst \<and> pts ! j \<ge> lst + target)"
    by (auto simp: find_Some_iff)
  from assms(2) obtain m where m: "m < length pts" "kf = pts ! m" by (auto simp: in_set_conv_nth)
  with n(3) assms(3,4) have "n \<le> m" by (meson not_le)
  with assms(1) m n show ?thesis by (simp add: next_cut_def Some sorted_nth_mono)
qed

lemma keyframe_segs_tiles:
  "lst \<le> stop \<Longrightarrow> \<forall>kf \<in> set pts. kf \<le> stop \<Longrightarrow>
     tiles lst i (keyframe_segs target stop pts lst i) stop"
proof (induction target stop pts lst i rule: keyframe_segs.induct)
  case (1 target stop pts lst i)
  show ?case
  proof (cases "lst < stop")
    case True
    have "next_cut target stop pts lst > lst \<and> next_cut target stop pts lst \<le> stop"
      using True "1.prems"(2) by (rule_tac next_cut_cases [of pts lst target stop]) auto
    with True "1.IH" "1.prems" show ?thesis
      by (subst keyframe_segs.simps) (auto simp: Let_def)
  next
    case False
    with "1.prems" show ?thesis by (subst keyframe_segs.simps) simp
  qed
qed

text \<open>Each segment ends at the cut that the muxer makes after its start.\<close>

lemma keyframe_segs_cuts:
  "s \<in> set (keyframe_segs target stop pts lst i) \<Longrightarrow>
     sg_StartMS s + sg_DurationMS s = next_cut target stop pts (sg_StartMS s)"
proof (induction target stop pts lst i rule: keyframe_segs.induct)
  case (1 target stop pts lst i)
  from "1.prems" show ?case
    by (subst (asm) keyframe_segs.simps) (auto simp: Let_def split: if_splits intro: "1.IH")
qed

text \<open>What \<^verbatim>\<open>normalizeKeyframes\<close> keeps.\<close>

lemma keep_keyframe_set:
  "0 < d \<Longrightarrow> set (keep_keyframe d out ms) = set out \<union> {x. x = ms \<and> 0 \<le> x \<and> x \<le> d}"
  by (auto simp: keep_keyframe_def)

lemma normal_fold:
  "0 < d \<Longrightarrow> set (foldl (keep_keyframe d) acc raw) = set acc \<union> {ms \<in> set raw. 0 \<le> ms \<and> ms \<le> d}"
  by (induction raw arbitrary: acc) (auto simp: keep_keyframe_set)

lemma normalizeKeyframes_facts:
  assumes "0 < d"
  shows "set (normalizeKeyframes raw d) = {0, d} \<union> {ms \<in> set raw. 0 \<le> ms \<and> ms \<le> d}"
    "sorted (normalizeKeyframes raw d)"
proof -
  define out where "out = sort (foldl (keep_keyframe d) [] raw)"
  have set: "set out = {ms \<in> set raw. 0 \<le> ms \<and> ms \<le> d}"
    using assms by (simp add: out_def normal_fold)
  have sorted: "sorted out" by (simp add: out_def)
  define out2 where "out2 = (if out = [] \<or> hd out \<noteq> 0 then 0 # out else out)"
  have set2: "set out2 = insert 0 (set out)" by (cases out) (auto simp: out2_def)
  have sorted2: "sorted out2" using sorted set by (auto simp: out2_def)
  have ne: "out2 \<noteq> []" by (auto simp: out2_def)
  have n: "normalizeKeyframes raw d = (if last out2 \<noteq> d then out2 @ [d] else out2)"
    using assms by (simp add: normalizeKeyframes_def Let_def out_def out2_def)
  show "set (normalizeKeyframes raw d) = {0, d} \<union> {ms \<in> set raw. 0 \<le> ms \<and> ms \<le> d}"
    using n set set2 last_in_set [OF ne] by auto
  show "sorted (normalizeKeyframes raw d)"
    using n set set2 sorted2 assms by (auto simp: sorted_append)
qed

text \<open>\<^verbatim>\<open>sort.Search\<close> finds the first index at which a monotone predicate holds.\<close>

lemma search_from_first:
  assumes "\<forall>a b. a \<le> b \<longrightarrow> b < n \<longrightarrow> f a \<longrightarrow> f b" "j \<le> n" "i \<le> j" "\<forall>k < i. \<not> f k" "\<forall>k. j \<le> k \<longrightarrow> k < n \<longrightarrow> f k"
  shows "search_from f i j \<le> n \<and> (\<forall>k < search_from f i j. \<not> f k) \<and>
    (\<forall>k. search_from f i j \<le> k \<longrightarrow> k < n \<longrightarrow> f k)"
  using assms
proof (induction f i j rule: search_from.induct)
  case (1 f i j)
  show ?case
  proof (cases "i < j")
    case False
    then have "search_from f i j = i" by (subst search_from.simps) simp
    with "1.prems" False show ?thesis by simp
  next
    case True
    define h where "h = (i + j) div 2"
    have h: "i \<le> h" "h < j" using True by (auto simp: h_def)
    show ?thesis
    proof (cases "f h")
      case True
      have up: "\<forall>k. h \<le> k \<longrightarrow> k < n \<longrightarrow> f k" using "1.prems"(1) True by blast
      have eq: "search_from f i j = search_from f i h"
        by (subst search_from.simps) (simp add: Let_def True \<open>i < j\<close> flip: h_def)
      have "h \<le> n" using h "1.prems"(2) by simp
      from "1.IH"(2) [OF \<open>i < j\<close> h_def _ "1.prems"(1) this h(1) "1.prems"(4) up] True show ?thesis
        unfolding eq by blast
    next
      case False
      have down: "\<forall>k < h + 1. \<not> f k"
      proof (intro allI impI notI)
        fix k assume "k < h + 1" "f k"
        moreover have "h < n" using h "1.prems"(2) by simp
        ultimately show False using "1.prems"(1) [rule_format, of k h] False by simp
      qed
      have eq: "search_from f i j = search_from f (h + 1) j"
        by (subst search_from.simps) (simp add: Let_def False \<open>i < j\<close> flip: h_def)
      have "h + 1 \<le> j" using h by simp
      from "1.IH"(1) [OF \<open>i < j\<close> h_def False "1.prems"(1,2) this down "1.prems"(5)] show ?thesis
        unfolding eq by blast
    qed
  qed
qed

section \<open>Plans are right\<close>

lemma equal_plan:
  assumes "0 < d"
  shows "tiles 0 0 (pl_Segments (EqualLengthPlan d t)) d"
    "\<forall>s \<in> set (pl_Segments (EqualLengthPlan d t)).
       sg_DurationMS s = min ((if t \<le> 0 then 4 else t) * 1000) (d - sg_StartMS s)"
  using assms equal_segs_tiles [of "(if t \<le> 0 then 4 else t) * 1000" 0 d 0] equal_segs_lengths
  by (auto simp: EqualLengthPlan_def Let_def)

text \<open>The equal-length plan cuts the movie into consecutive segments numbered from 0, with no gap,
  no overlap and no empty segment, from 0 to the end; each is as long as the target, but the last
  is what remains.\<close>

theorem EqualLengthPlan_tiles:
  assumes "0 < d"
  shows "tiles 0 0 (pl_Segments (EqualLengthPlan d t)) d \<and>
    ListedDurationMS (EqualLengthPlan d t) = d \<and>
    (\<forall>s \<in> set (pl_Segments (EqualLengthPlan d t)).
       sg_DurationMS s = min ((if t \<le> 0 then 4 else t) * 1000) (d - sg_StartMS s))"
  using equal_plan [OF assms, of t] tiles_sum [OF equal_plan(1) [OF assms, of t], of 0]
  by (simp add: ListedDurationMS_def)

theorem EqualLengthPlan_tiles_witness:
  "ListedDurationMS (EqualLengthPlan 9000 4) = 9000 \<and> length (pl_Segments (EqualLengthPlan 9000 4)) = 3"
proof -
  have "length (pl_Segments (EqualLengthPlan 9000 4)) = 3" by code_simp
  then show ?thesis using EqualLengthPlan_tiles [of 9000 4] by simp
qed

lemma keyframe_plan_segments:
  assumes "pl_Segments (KeyframePlan kfs d t) \<noteq> []"
  shows "0 < d \<and> KeyframesCover kfs d \<and>
    pl_Segments (KeyframePlan kfs d t) =
      keyframe_segs ((if t \<le> 0 then 4 else t) * 1000) d (normalizeKeyframes kfs d) 0 0"
  using assms by (auto simp: KeyframePlan_def Let_def split: if_splits)

lemma keyframe_plan_cuts:
  assumes seg: "s \<in> set (pl_Segments (KeyframePlan kfs d t))"
  defines "target \<equiv> (if t \<le> 0 then 4 else t) * 1000"
    and "edge \<equiv> sg_StartMS s + sg_DurationMS s"
  shows "tiles 0 0 (pl_Segments (KeyframePlan kfs d t)) d \<and> KeyframesCover kfs d \<and>
    (edge = d \<or> edge \<in> set kfs \<and> target \<le> sg_DurationMS s) \<and>
    (\<forall>kf \<in> set kfs. sg_StartMS s + target \<le> kf \<longrightarrow> kf \<le> d \<longrightarrow> edge \<le> kf)"
proof -
  have "pl_Segments (KeyframePlan kfs d t) \<noteq> []" using seg by auto
  from keyframe_plan_segments [OF this]
  have d: "0 < d" and cover: "KeyframesCover kfs d"
    and eq: "pl_Segments (KeyframePlan kfs d t) = keyframe_segs target d (normalizeKeyframes kfs d) 0 0"
    by (simp_all add: target_def)
  have pts: "set (normalizeKeyframes kfs d) = {0, d} \<union> {ms \<in> set kfs. 0 \<le> ms \<and> ms \<le> d}"
    "sorted (normalizeKeyframes kfs d)"
    using normalizeKeyframes_facts [OF d] by simp_all
  have tiles: "tiles 0 0 (pl_Segments (KeyframePlan kfs d t)) d"
    unfolding eq using d pts by (intro keyframe_segs_tiles) auto
  obtain n where n: "n < length (pl_Segments (KeyframePlan kfs d t))" "s = pl_Segments (KeyframePlan kfs d t) ! n"
    using seg by (auto simp: in_set_conv_nth)
  have start: "0 \<le> sg_StartMS s" using tiles_nth [OF tiles n(1)] n(2) by simp
  have target: "0 < target" by (simp add: target_def)
  have edge: "edge = next_cut target d (normalizeKeyframes kfs d) (sg_StartMS s)"
    using keyframe_segs_cuts [of s target d] seg by (simp add: eq edge_def)
  have "edge = d \<or> edge \<in> set kfs \<and> target \<le> sg_DurationMS s"
    using pts(1) start edge_def unfolding edge
    by (rule_tac next_cut_cases [of "normalizeKeyframes kfs d" "sg_StartMS s" target d]) auto
  moreover have "edge \<le> kf" if "kf \<in> set kfs" "sg_StartMS s + target \<le> kf" "kf \<le> d" for kf
    unfolding edge using that start target pts by (intro next_cut_least) auto
  ultimately show ?thesis using tiles cover by blast
qed

text \<open>A keyframe plan that is not empty also tiles the movie, and it advertises exactly the cuts of
  the muxer: each segment ends at the first keyframe that lies at least the target length after
  its start, or at the end of the movie where there is none. Without keyframes up to two seconds
  before the end the plan is empty.\<close>

theorem KeyframePlan_cuts:
  assumes seg: "s \<in> set (pl_Segments (KeyframePlan kfs d t))"
  defines "target \<equiv> (if t \<le> 0 then 4 else t) * 1000"
    and "edge \<equiv> sg_StartMS s + sg_DurationMS s"
  shows "tiles 0 0 (pl_Segments (KeyframePlan kfs d t)) d \<and> KeyframesCover kfs d \<and>
    (edge = d \<or> edge \<in> set kfs \<and> target \<le> sg_DurationMS s) \<and>
    (\<forall>kf \<in> set kfs. sg_StartMS s + target \<le> kf \<longrightarrow> kf \<le> d \<longrightarrow> edge \<le> kf)"
  using keyframe_plan_cuts [OF seg] unfolding target_def edge_def .

definition demo_keyframes :: "int list" where "demo_keyframes = [0, 3000, 5000, 9000, 11000]"

theorem KeyframePlan_cuts_witness:
  "ListedDurationMS (KeyframePlan demo_keyframes 12000 4) = 12000 \<and>
   5000 \<le> sg_StartMS (pl_Segments (KeyframePlan demo_keyframes 12000 4) ! 1)"
proof -
  have s: "\<lparr>sg_Index = 0, sg_StartMS = 0, sg_DurationMS = 5000\<rparr> \<in> set (pl_Segments (KeyframePlan demo_keyframes 12000 4))"
    and "sg_StartMS (pl_Segments (KeyframePlan demo_keyframes 12000 4) ! 1) = 5000"
    by code_simp+
  with tiles_sum [OF conjunct1 [OF KeyframePlan_cuts [OF s]], of 0] show ?thesis
    by (simp add: ListedDurationMS_def)
qed

lemma index_in_plan:
  assumes tiles: "tiles 0 0 (pl_Segments p) d" and ne: "pl_Segments p \<noteq> []" and ms: "0 \<le> ms"
  shows "0 \<le> IndexForMS p ms \<and> IndexForMS p ms \<le> LastIndex p \<and>
    StartMSForIndex p (IndexForMS p ms) \<le> ms \<and>
    (if ms < d then ms < StartMSForIndex p (IndexForMS p ms) + sg_DurationMS (pl_Segments p ! nat (IndexForMS p ms))
     else IndexForMS p ms = LastIndex p)"
proof -
  let ?ss = "pl_Segments p" and ?f = "\<lambda>i. sg_StartMS (pl_Segments p ! i) > ms"
  define i where "i = search_from ?f 0 (length ?ss)"
  have "\<forall>a b. a \<le> b \<longrightarrow> b < length ?ss \<longrightarrow> ?f a \<longrightarrow> ?f b"
    using tiles_mono [OF tiles] by (meson order_less_le_trans)
  then have "i \<le> length ?ss \<and> (\<forall>k < i. \<not> ?f k) \<and> (\<forall>k. i \<le> k \<longrightarrow> k < length ?ss \<longrightarrow> ?f k)"
    unfolding i_def by (rule search_from_first) auto
  then have i: "i \<le> length ?ss" "\<forall>k < i. \<not> ?f k" "\<forall>k. i \<le> k \<longrightarrow> k < length ?ss \<longrightarrow> ?f k"
    by blast+
  have "\<not> ?f 0" using tiles_start_0 [OF tiles ne] ms by simp
  with i(3) ne have i0: "i \<noteq> 0" by auto
  then obtain k where k: "i = Suc k" by (cases i) auto
  have idx: "IndexForMS p ms = int k"
  proof (cases "ms = 0")
    case True
    have "k = 0"
    proof (rule ccontr)
      assume "k \<noteq> 0"
      then have "1 < i" "1 < length ?ss" using k i(1) by auto
      with i(2) [rule_format, of "Suc 0"] tiles_nth [OF tiles, of 0] tiles_start_0 [OF tiles ne] True ne
      show False by (auto split: if_splits)
    qed
    then show ?thesis using True by (simp add: IndexForMS_def)
  next
    case False
    then show ?thesis using ms ne i0 k by (simp add: IndexForMS_def Let_def i_def)
  qed
  have lst: "LastIndex p = int (length ?ss) - 1" using tiles_last [OF tiles ne] ne by (simp add: LastIndex_def)
  have kl: "k < length ?ss" using i(1) k by simp
  have seg: "sg_StartMS (?ss ! k) \<le> ms" using i(2) k by auto
  have fin: "sg_StartMS (?ss ! k) + sg_DurationMS (?ss ! k) = (if Suc k < length ?ss then sg_StartMS (?ss ! Suc k) else d)"
    using tiles_nth [OF tiles kl] by simp
  have "Suc k < length ?ss \<Longrightarrow> ms < sg_StartMS (?ss ! Suc k)" using i(3) k by simp
  moreover have "Suc k < length ?ss \<Longrightarrow> sg_StartMS (?ss ! Suc k) \<le> d"
    using tiles_end_le [OF tiles, of "Suc k"] tiles_nth [OF tiles, of "Suc k"] by simp
  ultimately show ?thesis
    using seg fin kl lst by (auto simp: idx StartMSForIndex_def split: if_splits)
qed

text \<open>Every playback time lies in the segment that \<^verbatim>\<open>IndexForMS\<close> names: the binary search finds the
  one segment that contains it, the last one beyond the end, and \<^verbatim>\<open>StartMSForIndex\<close> inverts it.\<close>

theorem IndexForMS_finds:
  assumes tiles: "tiles 0 0 (pl_Segments p) d" and ne: "pl_Segments p \<noteq> []" and ms: "0 \<le> ms"
  shows "0 \<le> IndexForMS p ms \<and> IndexForMS p ms \<le> LastIndex p \<and>
    StartMSForIndex p (IndexForMS p ms) \<le> ms \<and>
    (if ms < d then ms < StartMSForIndex p (IndexForMS p ms) + sg_DurationMS (pl_Segments p ! nat (IndexForMS p ms))
     else IndexForMS p ms = LastIndex p)"
  by (rule index_in_plan [OF assms])

theorem IndexForMS_finds_witness:
  "IndexForMS (EqualLengthPlan 9000 4) 8500 = 2 \<and> StartMSForIndex (EqualLengthPlan 9000 4) 2 = 8000"
proof -
  have t: "tiles 0 0 (pl_Segments (EqualLengthPlan 9000 4)) 9000" "pl_Segments (EqualLengthPlan 9000 4) \<noteq> []"
    and i: "IndexForMS (EqualLengthPlan 9000 4) 8500 = 2"
    and s: "StartMSForIndex (EqualLengthPlan 9000 4) 2 = 8000"
    by code_simp+
  from IndexForMS_finds [OF t, of 8500] i s show ?thesis by simp
qed

section \<open>Text\<close>

abbreviation nl :: char where "nl \<equiv> CHR 0x0A"
abbreviation cr :: char where "cr \<equiv> CHR 0x0D"

definition unlines :: "string list \<Rightarrow> string" where
  "unlines ls = concat (map (\<lambda>l. l @ [nl]) ls)"

text \<open>\<^verbatim>\<open>fmt.Sprintf("%.3f", x)\<close>: the exact value of the double, rounded to thousandths.\<close>

definition fmt_3f :: "rat \<Rightarrow> string" where
  "fmt_3f x =
     (let n = nat (rne (\<bar>x\<bar> * 1000))
      in (if x < 0 then ''-'' else []) @ nat_dec (n div 1000) @ ''.'' @
         [digit_char (n div 100 mod 10), digit_char (n div 10 mod 10), digit_char (n mod 10)])"

definition SegName :: "int \<Rightarrow> string" where
  "SegName n = ''seg'' @ int_dec n @ ''.m4s''"

definition ParseSegIndex :: "string \<Rightarrow> int option" where
  "ParseSegIndex name =
     (let base = takeWhile (\<lambda>c. c \<noteq> CHR ''?'') name
      in if \<not> hasPrefix base ''seg'' then None
         else (let rest = trimSuffix (trimSuffix (trimPrefix base ''seg'') ''.m4s'') ''.ts''
               in case atoi rest of None \<Rightarrow> None | Some n \<Rightarrow> if n < 0 then None else Some n))"

definition extinf_text :: "int \<Rightarrow> string" where
  "extinf_text d = ''#EXTINF:'' @ fmt_3f (fl_div (fl_of_int d) 1000) @ '',''"

definition seg_lines :: "hls_seg \<Rightarrow> string list" where
  "seg_lines s = [extinf_text (sg_DurationMS s), SegName (sg_Index s)]"

definition WriteVODPlaylist :: "hls_plan \<Rightarrow> string" where
  "WriteVODPlaylist p = unlines
     ([''#EXTM3U'', ''#EXT-X-VERSION:7'', ''#EXT-X-TARGETDURATION:'' @ int_dec (TargetDuration p),
       ''#EXT-X-MEDIA-SEQUENCE:0'', ''#EXT-X-PLAYLIST-TYPE:VOD'', ''#EXT-X-INDEPENDENT-SEGMENTS'',
       ''#EXT-X-MAP:URI='' @ [CHR 0x22] @ ''init.mp4'' @ [CHR 0x22]]
      @ concat (map seg_lines (pl_Segments p)) @ [''#EXT-X-ENDLIST''])"

text \<open>
  \<^verbatim>\<open>strconv.ParseFloat\<close> on decimal text: an optional sign, digits with an optional point, an
  optional exponent. Hexadecimal, infinite and NaN forms are not modelled.
\<close>

definition is_digit :: "char \<Rightarrow> bool" where
  "is_digit c \<longleftrightarrow> digit_val c \<noteq> None"

definition read_sign :: "string \<Rightarrow> bool \<times> string" where
  "read_sign s = (case s of
       c # r \<Rightarrow> if c = CHR ''-'' then (True, r) else if c = CHR ''+'' then (False, r) else (False, s)
     | [] \<Rightarrow> (False, s))"

definition read_exponent :: "string \<Rightarrow> int option" where
  "read_exponent s = (case s of
       [] \<Rightarrow> Some 0
     | c # r \<Rightarrow> if c \<noteq> CHR ''e'' \<and> c \<noteq> CHR ''E'' then None
                else (case read_sign r of (neg, ds) \<Rightarrow>
                        if ds = [] then None
                        else (case digits_val ds 0 of None \<Rightarrow> None | Some e \<Rightarrow> Some (if neg then - e else e))))"

definition parse_float :: "string \<Rightarrow> rat option" where
  "parse_float s =
     (case read_sign s of (neg, r) \<Rightarrow>
        let ip = takeWhile is_digit r;
            r1 = dropWhile is_digit r;
            point = (r1 \<noteq> [] \<and> hd r1 = CHR ''.'');
            fp = (if point then takeWhile is_digit (tl r1) else []);
            r2 = (if point then dropWhile is_digit (tl r1) else r1)
        in if ip @ fp = [] then None
           else (case (read_exponent r2, digits_val (ip @ fp) 0) of
                   (Some e, Some n) \<Rightarrow>
                     (let e = e - int (length fp);
                          v = (if 0 \<le> e then of_int n * 10 ^ nat e else of_int n / 10 ^ nat (- e))
                      in Some (fl (if neg then - v else v)))
                 | _ \<Rightarrow> None))"

text \<open>The conversion \<^verbatim>\<open>int64(x)\<close> cuts off the fraction.\<close>

definition cut_off :: "rat \<Rightarrow> int" where
  "cut_off x = (if 0 \<le> x then \<lfloor>x\<rfloor> else \<lceil>x\<rceil>)"

definition extinfMS :: "string \<Rightarrow> int" where
  "extinfMS line =
     (let rest = takeWhile (\<lambda>c. c \<noteq> CHR '','') (trimPrefix line ''#EXTINF:'')
      in case parse_float (trimSpace rest) of None \<Rightarrow> 0 | Some sec \<Rightarrow> cut_off (fl_mul sec 1000))"

text \<open>\<^verbatim>\<open>atoi\<close> of \<^verbatim>\<open>inspect.go\<close>: 0 on a syntax error, the nearest bound out of range.\<close>

definition atoi_or_zero :: "string \<Rightarrow> int" where
  "atoi_or_zero s =
     (case read_sign (trimSpace s) of (neg, ds) \<Rightarrow>
        if ds = [] then 0
        else (case digits_val ds 0 of
                None \<Rightarrow> 0
              | Some v \<Rightarrow> max (- (2 ^ 63)) (min (2 ^ 63 - 1) (if neg then - v else v))))"

record hls_snapshot =
  hs_Type :: string
  hs_HasEndlist :: bool
  hs_HasStart :: bool
  hs_Version :: int
  hs_TargetDuration :: int
  hs_MediaSequence :: int
  hs_SegmentCount :: int
  hs_PlaylistDurationMS :: int

definition trimRight_cr :: "string \<Rightarrow> string" where
  "trimRight_cr s = rev (dropWhile (\<lambda>c. c = cr) (rev s))"

definition inspect_line :: "hls_snapshot \<Rightarrow> string \<Rightarrow> hls_snapshot" where
  "inspect_line s raw =
     (let line = trimRight_cr raw
      in if hasPrefix line ''#EXT-X-PLAYLIST-TYPE:'' then s\<lparr>hs_Type := trimSpace (trimPrefix line ''#EXT-X-PLAYLIST-TYPE:'')\<rparr>
         else if line = ''#EXT-X-ENDLIST'' then s\<lparr>hs_HasEndlist := True\<rparr>
         else if hasPrefix line ''#EXT-X-START:'' then s\<lparr>hs_HasStart := True\<rparr>
         else if hasPrefix line ''#EXT-X-VERSION:'' then s\<lparr>hs_Version := atoi_or_zero (trimPrefix line ''#EXT-X-VERSION:'')\<rparr>
         else if hasPrefix line ''#EXT-X-TARGETDURATION:''
              then s\<lparr>hs_TargetDuration := atoi_or_zero (trimPrefix line ''#EXT-X-TARGETDURATION:'')\<rparr>
         else if hasPrefix line ''#EXT-X-MEDIA-SEQUENCE:''
              then s\<lparr>hs_MediaSequence := atoi_or_zero (trimPrefix line ''#EXT-X-MEDIA-SEQUENCE:'')\<rparr>
         else if hasPrefix line ''#EXTINF:''
              then s\<lparr>hs_SegmentCount := hs_SegmentCount s + 1,
                     hs_PlaylistDurationMS := hs_PlaylistDurationMS s + extinfMS line\<rparr>
         else s)"

definition Inspect :: "string \<Rightarrow> hls_snapshot" where
  "Inspect body = foldl inspect_line
     \<lparr>hs_Type = ''LIVE'', hs_HasEndlist = False, hs_HasStart = False, hs_Version = 0, hs_TargetDuration = 0,
      hs_MediaSequence = 0, hs_SegmentCount = 0, hs_PlaylistDurationMS = 0\<rparr> (splitOn nl body)"

definition WithStartAtZero :: "string \<Rightarrow> string" where
  "WithStartAtZero body =
     (if strContains body ''#EXT-X-START:'' then body
      else (let tag = ''#EXT-X-START:TIME-OFFSET=0,PRECISE=YES'';
                lines = splitOn nl body;
                before = takeWhile (\<lambda>l. \<not> hasPrefix (trimRight_cr l) ''#EXTM3U'') lines;
                from_tag = dropWhile (\<lambda>l. \<not> hasPrefix (trimRight_cr l) ''#EXTM3U'') lines
            in case from_tag of
                 [] \<Rightarrow> tag @ [nl] @ body
               | l # ls \<Rightarrow> joinWith [nl] (before @ [l, tag] @ ls)))"

definition HasMedia :: "string \<Rightarrow> bool" where
  "HasMedia body =
     (if \<not> strContains body ''#EXTM3U'' then False
      else if strContains body ''#EXTINF'' then True
      else list_ex (\<lambda>line. let s = trimSpace (trimRight_cr line)
                           in \<not> (s = [] \<or> hasPrefix s ''#'') \<and> (strContains s ''.m4s'' \<or> strContains s ''.ts''))
             (splitOn nl body))"

section \<open>Reading back what was written\<close>

lemma runes_ascii: "\<forall>c \<in> set s. byte c < 128 \<Longrightarrow> runes s = map (\<lambda>c. [c]) s"
  by (induction s) (simp_all add: runes.simps rune_len_def Let_def)

lemma not_space: "33 \<le> byte c \<Longrightarrow> byte c < 128 \<Longrightarrow> \<not> is_space [c]"
  by (auto simp: is_space_def)

lemma trimSpace_plain:
  assumes "\<forall>c \<in> set s. 33 \<le> byte c \<and> byte c < 128"
  shows "trimSpace s = s"
proof -
  have keep: "dropWhile is_space xs = xs" if "\<forall>r \<in> set xs. \<not> is_space r" for xs
    using that by (cases xs) auto
  have runes: "runes s = map (\<lambda>c. [c]) s" using assms by (intro runes_ascii) auto
  then have plain: "\<forall>r \<in> set (runes s). \<not> is_space r" using assms not_space by auto
  then show ?thesis by (simp add: trimSpace_def keep)
qed

lemma is_digit_iff: "is_digit c \<longleftrightarrow> 48 \<le> byte c \<and> byte c \<le> 57"
  by (auto simp: is_digit_def digit_val_def Let_def)

lemma digit_char_digit [simp]: "d < 10 \<Longrightarrow> is_digit (digit_char d)"
  by (simp add: is_digit_iff digit_char_def)

lemma nat_dec_digits: "c \<in> set (nat_dec n) \<Longrightarrow> is_digit c"
proof (induction n rule: nat_dec.induct)
  case (1 n)
  then show ?case by (subst (asm) nat_dec.simps) (auto split: if_splits)
qed

lemma digit_neq [simp]:
  "is_digit c \<Longrightarrow> c \<noteq> CHR ''-''" "is_digit c \<Longrightarrow> c \<noteq> CHR ''+''" "is_digit c \<Longrightarrow> c \<noteq> CHR ''?''"
  "is_digit c \<Longrightarrow> c \<noteq> CHR '',''" "is_digit c \<Longrightarrow> c \<noteq> nl" "is_digit c \<Longrightarrow> c \<noteq> cr"
  "is_digit c \<Longrightarrow> c \<noteq> CHR ''.''" "is_digit c \<Longrightarrow> c \<noteq> CHR ''s''"
  by (auto simp: is_digit_iff)

lemma takeWhile_plain: "\<forall>c \<in> set s. P c \<Longrightarrow> \<not> P d \<Longrightarrow> takeWhile P (s @ d # t) = s"
  by (induction s) auto

lemma dropWhile_plain: "\<forall>c \<in> set s. P c \<Longrightarrow> \<not> P d \<Longrightarrow> dropWhile P (s @ d # t) = d # t"
  by (induction s) auto

lemma read_sign_digit: "s \<noteq> [] \<Longrightarrow> is_digit (hd s) \<Longrightarrow> read_sign s = (False, s)"
  by (cases s) (auto simp: read_sign_def)

lemma int_dec_nonneg: "0 \<le> n \<Longrightarrow> int_dec n = nat_dec (nat n)"
  by (simp add: int_dec_def)

lemma hd_nat_dec [simp]: "is_digit (hd (nat_dec n))"
  using nat_dec_hd_digit [of n] by (auto simp: is_digit_def)

text \<open>Segment names round trip, with any query string: the number that \<^verbatim>\<open>ParseSegIndex\<close> reads from the
  name that \<^verbatim>\<open>SegName\<close> writes is the same number.\<close>

theorem SegName_roundtrip:
  assumes "0 \<le> n" "n < 2 ^ 63" "query = [] \<or> hd query = CHR ''?''"
  shows "ParseSegIndex (SegName n @ query) = Some n"
proof -
  let ?d = "nat_dec (nat n)"
  have digits: "\<forall>c \<in> set ?d. is_digit c" using nat_dec_digits by blast
  have base: "takeWhile (\<lambda>c. c \<noteq> CHR ''?'') (SegName n @ query) = SegName n"
  proof -
    have "\<forall>c \<in> set (SegName n). c \<noteq> CHR ''?''" using digits by (auto simp: SegName_def int_dec_nonneg assms(1))
    then show ?thesis using assms(3) takeWhile_plain [of "SegName n" "\<lambda>c. c \<noteq> CHR ''?''" "hd query" "tl query"]
      by (cases query) auto
  qed
  have "\<not> hasSuffix ?d ''.ts''"
    using digits by (auto simp: hasSuffix_iff) (metis digit_neq(8) in_set_conv_decomp list.set_intros(1) set_ConsD)
  then have "trimSuffix ?d ''.ts'' = ?d" by (simp add: trimSuffix_def)
  moreover have "atoi ?d = Some n" using atoi_int_dec [of n] assms by (simp add: int_dec_nonneg in_i64_def)
  moreover have "trimPrefix (SegName n) ''seg'' = ?d @ ''.m4s''" "hasPrefix (SegName n) ''seg''"
    using assms(1) by (simp_all add: SegName_def int_dec_nonneg trimPrefix_def hasPrefix_def)
  ultimately show ?thesis
    using assms(1) by (simp add: ParseSegIndex_def base Let_def)
qed

theorem SegName_roundtrip_witness: "ParseSegIndex (SegName 37 @ ''?stoken=x'') = Some 37"
  using SegName_roundtrip [of 37 "''?stoken=x''"] by simp

text \<open>The number printed with three decimals is read as the nearest double.\<close>

lemma digits_val_fmt:
  "digits_val (nat_dec (n div 1000) @ [digit_char (n div 100 mod 10), digit_char (n div 10 mod 10), digit_char (n mod 10)]) 0
     = Some (int n)"
proof -
  have d: "n div 10 div 10 = n div 100" "n div 100 div 10 = n div 1000" by (simp_all flip: div_mult2_eq)
  have "10 * (n div 1000) + n div 100 mod 10 = n div 100" using mult_div_mod_eq [of 10 "n div 100"] d by simp
  moreover have "10 * (n div 100) + n div 10 mod 10 = n div 10" using mult_div_mod_eq [of 10 "n div 10"] d by simp
  moreover have "10 * (n div 10) + n mod 10 = n" by simp
  ultimately have "10 * (10 * (10 * (n div 1000) + n div 100 mod 10) + n div 10 mod 10) + n mod 10 = n" by simp
  then have "10 * (10 * (10 * int (n div 1000) + int (n div 100 mod 10)) + int (n div 10 mod 10)) + int (n mod 10) = int n"
    by (metis of_nat_add of_nat_mult of_nat_numeral)
  then show ?thesis
    by (simp only: digits_val_append digits_val_nat_dec digits_val.simps option.case digit_val_char mod_less_divisor zero_less_numeral)
qed

lemma parse_fmt_3f:
  assumes "0 \<le> x"
  shows "parse_float (fmt_3f x) = Some (fl (of_int (rne (x * 1000)) / 1000))"
proof -
  define n where "n = nat (rne (x * 1000))"
  have n: "rne (x * 1000) = int n" using rne_ge [of 0 "x * 1000"] assms by (simp add: n_def)
  let ?ip = "nat_dec (n div 1000)"
  let ?fp = "[digit_char (n div 100 mod 10), digit_char (n div 10 mod 10), digit_char (n mod 10)]"
  have fmt: "fmt_3f x = ?ip @ CHR ''.'' # ?fp" using assms by (simp add: fmt_3f_def Let_def n_def)
  have dig: "\<forall>c \<in> set ?ip. is_digit c" using nat_dec_digits by blast
  have nd: "\<not> is_digit CHR ''.''" by (simp add: is_digit_iff)
  have sign: "read_sign (fmt_3f x) = (False, fmt_3f x)" by (rule read_sign_digit) (simp_all add: fmt)
  have tw: "takeWhile is_digit (fmt_3f x) = ?ip" "dropWhile is_digit (fmt_3f x) = CHR ''.'' # ?fp"
    unfolding fmt using dig nd by (simp_all add: takeWhile_plain dropWhile_plain)
  show ?thesis
    unfolding parse_float_def sign
    by (simp add: tw Let_def read_exponent_def digits_val_fmt n)
qed

lemma fl_thousandth:
  assumes "0 \<le> d" "d \<le> 2 ^ 50"
  shows "\<bar>fl (of_int d / 1000) - of_int d / 1000\<bar> \<le> 1 / 8000"
proof (cases "d = 0")
  case True
  then show ?thesis by (simp add: fl_def)
next
  case False
  define x where "x = (of_int d / 1000 :: rat)"
  have "(of_int d :: rat) \<le> of_int (2 ^ 50)" using assms by (subst of_int_le_iff)
  then have x: "0 < x" "x < 2 ^ 41" using assms False by (auto simp: x_def)
  have "\<not> 41 \<le> binade x - 1"
  proof
    assume "41 \<le> binade x - 1"
    then have "pow2 41 \<le> pow2 (binade x - 1)" by (rule pow2_mono)
    also have "\<dots> \<le> x" using binade_bounds [OF x(1)] by simp
    finally show False using x(2) by (simp add: pow2_def)
  qed
  then have "fl_exp x \<le> - 12" using x(1) by (simp add: fl_exp_def)
  then have "pow2 (fl_exp x) \<le> pow2 (- 12)" by (rule pow2_mono)
  then have "pow2 (fl_exp x) / 2 \<le> 1 / 8000" by (simp add: pow2_def)
  with fl_error [of x] show ?thesis unfolding x_def by linarith
qed

text \<open>What \<^verbatim>\<open>Inspect\<close> reads for a segment of \<open>d\<close> milliseconds.\<close>

definition listed_ms :: "int \<Rightarrow> int" where
  "listed_ms d = cut_off (fl_mul (fl_div (fl_of_int d) 1000) 1000)"

lemma sec_of_ms: "0 \<le> d \<Longrightarrow> d \<le> 2 ^ 50 \<Longrightarrow> fl_div (fl_of_int d) 1000 = fl (of_int d / 1000)"
  by (simp add: fl_div_def fl_of_int_def fl_int)

lemma ms_of_sec:
  assumes "0 \<le> d" "d \<le> 2 ^ 50"
  shows "rne (fl (of_int d / 1000) * 1000) = d" "\<bar>fl (of_int d / 1000) * 1000 - of_int d\<bar> \<le> 1 / 8"
proof -
  let ?y = "fl (of_int d / 1000) * 1000"
  show y: "\<bar>?y - of_int d\<bar> \<le> 1 / 8" using fl_thousandth [OF assms] by linarith
  have "\<bar>of_int (rne ?y) - ?y\<bar> \<le> 1 / 2" by (rule rne_err)
  with y have "of_int (rne ?y) - of_int d < (1 :: rat)" "of_int d - of_int (rne ?y) < (1 :: rat)" by linarith+
  then have "(of_int (rne ?y - d) :: rat) < of_int 1" "(of_int (d - rne ?y) :: rat) < of_int 1" by simp_all
  then show "rne ?y = d" by (simp only: of_int_less_iff)
qed

lemma listed_ms_bounds:
  assumes "0 \<le> d" "d \<le> 2 ^ 50"
  shows "d - 1 \<le> listed_ms d \<and> listed_ms d \<le> d \<and> 0 \<le> listed_ms d"
proof (cases "d = 0")
  case True
  then show ?thesis by (simp add: listed_ms_def fl_of_int_def fl_def fl_div_def fl_mul_def cut_off_def)
next
  case False
  let ?y = "fl (of_int d / 1000) * 1000"
  have y: "of_int (d - 1) \<le> ?y" "?y \<le> of_int (4 * d + 1) * pow2 (- 2)"
    using abs_le_D1 [OF ms_of_sec(2) [OF assms]] abs_le_D2 [OF ms_of_sec(2) [OF assms]]
    by (simp_all add: pow2_def)
  have "is_double (of_int (d - 1))" using assms by (intro is_double_int) simp
  from fl_ge_double [OF this y(1)] have lo: "of_int (d - 1) \<le> fl ?y" .
  have "is_double (of_int (4 * d + 1) * pow2 (- 2))" using assms by (intro is_doubleI [OF refl]) simp_all
  from fl_le_double [OF this y(2)] have hi: "fl ?y < of_int (d + 1)" by (simp add: pow2_def)
  have "0 \<le> fl ?y" using lo False assms(1) by (simp add: order_trans [rotated])
  then have "listed_ms d = \<lfloor>fl ?y\<rfloor>"
    using assms by (simp add: listed_ms_def cut_off_def fl_mul_def sec_of_ms)
  moreover have "d - 1 \<le> \<lfloor>fl ?y\<rfloor>" "\<lfloor>fl ?y\<rfloor> < d + 1"
    using lo hi by (simp_all only: le_floor_iff floor_less_iff)
  ultimately show ?thesis using False assms by linarith
qed

lemma trimRight_plain: "cr \<notin> set s \<Longrightarrow> trimRight_cr s = s"
  by (cases s rule: rev_cases) (auto simp: trimRight_cr_def)

lemma splitOn_line: "d \<notin> set l \<Longrightarrow> splitOn d (l @ d # s) = l # splitOn d s"
  by (induction l) auto

lemma splitOn_unlines: "\<forall>l \<in> set ls. nl \<notin> set l \<Longrightarrow> splitOn nl (unlines ls) = ls @ [[]]"
  by (induction ls) (auto simp: unlines_def splitOn_line)

lemma fmt_3f_chars: "0 \<le> x \<Longrightarrow> c \<in> set (fmt_3f x) \<Longrightarrow> is_digit c \<or> c = CHR ''.''"
  by (auto simp: fmt_3f_def Let_def dest: nat_dec_digits)

lemma fl_sec_nonneg: "0 \<le> d \<Longrightarrow> d \<le> 2 ^ 50 \<Longrightarrow> 0 \<le> fl (of_int d / 1000)"
  using fl_ge_double [of 0 "of_int d / 1000"] is_double_int [of 0] by simp

lemma extinf_line:
  assumes "0 \<le> d" "d \<le> 2 ^ 50"
  shows "extinfMS (extinf_text d) = listed_ms d"
proof -
  let ?x = "fl (of_int d / 1000)"
  have x: "0 \<le> ?x" by (rule fl_sec_nonneg [OF assms])
  have chars: "\<forall>c \<in> set (fmt_3f ?x). 33 \<le> byte c \<and> byte c < 128 \<and> c \<noteq> CHR '',''"
    using fmt_3f_chars [OF x] by (fastforce simp: is_digit_iff)
  have "trimPrefix (''#EXTINF:'' @ fmt_3f ?x @ '','') ''#EXTINF:'' = fmt_3f ?x @ '',''" by (rule trimPrefix_append)
  moreover have "takeWhile (\<lambda>c. c \<noteq> CHR '','') (fmt_3f ?x @ '','') = fmt_3f ?x"
    using chars by (intro takeWhile_plain) auto
  moreover have "trimSpace (fmt_3f ?x) = fmt_3f ?x" using chars by (intro trimSpace_plain) auto
  moreover have "parse_float (fmt_3f ?x) = Some (fl (of_int d / 1000))"
    unfolding parse_fmt_3f [OF x] ms_of_sec(1) [OF assms] ..
  ultimately show ?thesis
    unfolding extinfMS_def extinf_text_def sec_of_ms [OF assms] by (simp add: listed_ms_def sec_of_ms [OF assms] Let_def)
qed

text \<open>The lines of a playlist, one by one.\<close>

lemma control_not_digit [simp]: "\<not> is_digit cr" "\<not> is_digit nl"
  by (simp_all add: is_digit_iff)

lemma digits_no_control: "cr \<notin> set (nat_dec n)" "nl \<notin> set (nat_dec n)"
  using nat_dec_digits by fastforce+

lemma extinf_chars:
  assumes "0 \<le> d" "d \<le> 2 ^ 50"
  shows "cr \<notin> set (extinf_text d)" "nl \<notin> set (extinf_text d)"
  using fmt_3f_chars [OF fl_sec_nonneg [OF assms], of cr] fmt_3f_chars [OF fl_sec_nonneg [OF assms], of nl]
  by (auto simp: sec_of_ms [OF assms] extinf_text_def)

lemma inspect_extinf:
  assumes "0 \<le> d" "d \<le> 2 ^ 50"
  shows "inspect_line s (extinf_text d) =
    s\<lparr>hs_SegmentCount := hs_SegmentCount s + 1, hs_PlaylistDurationMS := hs_PlaylistDurationMS s + listed_ms d\<rparr>"
proof -
  have "cr \<notin> set (extinf_text d)" by (rule extinf_chars [OF assms])
  from trimRight_plain [OF this] have l: "trimRight_cr (extinf_text d) = extinf_text d" .
  show ?thesis unfolding inspect_line_def l Let_def extinf_line [OF assms]
    by (simp add: hasPrefix_def extinf_text_def)
qed

lemma inspect_seg_name: "0 \<le> n \<Longrightarrow> inspect_line s (SegName n) = s"
proof -
  assume n: "0 \<le> n"
  have "cr \<notin> set (SegName n)" using n by (simp add: SegName_def int_dec_nonneg digits_no_control)
  from trimRight_plain [OF this] show ?thesis
    by (simp add: inspect_line_def SegName_def hasPrefix_def)
qed

lemma inspect_target:
  assumes "0 \<le> t" "t < 2 ^ 63"
  shows "inspect_line s (''#EXT-X-TARGETDURATION:'' @ int_dec t) = s\<lparr>hs_TargetDuration := t\<rparr>"
proof -
  let ?l = "''#EXT-X-TARGETDURATION:'' @ int_dec t"
  have digits: "\<forall>c \<in> set (int_dec t). is_digit c" using assms nat_dec_digits by (auto simp: int_dec_nonneg)
  have "cr \<notin> set ?l" using assms by (simp add: int_dec_nonneg digits_no_control)
  from trimRight_plain [OF this] have l: "trimRight_cr ?l = ?l" .
  have "trimSpace (int_dec t) = int_dec t" using digits by (intro trimSpace_plain) (auto simp: is_digit_iff)
  moreover have "read_sign (int_dec t) = (False, int_dec t)"
    using assms by (intro read_sign_digit) (simp_all add: int_dec_nonneg)
  ultimately have "atoi_or_zero (int_dec t) = t"
    using assms by (simp add: atoi_or_zero_def int_dec_nonneg digits_val_nat_dec)
  moreover have "trimPrefix ?l ''#EXT-X-TARGETDURATION:'' = int_dec t" by (rule trimPrefix_append)
  ultimately show ?thesis unfolding inspect_line_def l Let_def by (simp add: hasPrefix_def)
qed

lemma inspect_segments:
  "\<forall>g \<in> set gs. 0 \<le> sg_Index g \<and> 0 \<le> sg_DurationMS g \<and> sg_DurationMS g \<le> 2 ^ 50 \<Longrightarrow>
   foldl inspect_line s (concat (map seg_lines gs)) =
     s\<lparr>hs_SegmentCount := hs_SegmentCount s + int (length gs),
       hs_PlaylistDurationMS := hs_PlaylistDurationMS s + (\<Sum>g\<leftarrow>gs. listed_ms (sg_DurationMS g))\<rparr>"
  by (induction gs arbitrary: s) (simp_all add: seg_lines_def inspect_extinf inspect_seg_name add.assoc)

lemma seg_lines_no_nl:
  "0 \<le> sg_Index g \<Longrightarrow> 0 \<le> sg_DurationMS g \<Longrightarrow> sg_DurationMS g \<le> 2 ^ 50 \<Longrightarrow> l \<in> set (seg_lines g) \<Longrightarrow> nl \<notin> set l"
  by (auto simp: seg_lines_def SegName_def int_dec_nonneg extinf_chars digits_no_control)

lemma target_fold:
  "m \<le> foldl (\<lambda>m s. let sec = f s in if sec > m then sec else m) m ss \<and>
   (\<forall>s \<in> set ss. f s \<le> foldl (\<lambda>m s. let sec = f s in if sec > m then sec else m) (m :: int) ss)"
proof (induction ss arbitrary: m)
  case (Cons s ss)
  from Cons [of "if f s > m then f s else m"] show ?case
    by (simp only: foldl_Cons Let_def) (auto split: if_splits)
qed simp

lemma target_fold_le:
  "m \<le> b \<Longrightarrow> \<forall>s \<in> set ss. f s \<le> b \<Longrightarrow> foldl (\<lambda>m s. let sec = f s in if sec > m then sec else m) m ss \<le> (b :: int)"
  by (induction ss arbitrary: m) (auto simp: Let_def)

text \<open>The playlist round trip: what \<^verbatim>\<open>Inspect\<close> reads in the playlist that \<^verbatim>\<open>WriteVODPlaylist\<close> writes is a
  finished VOD playlist of version 7 from segment 0, with the target duration and the number of
  segments of the plan, and with a duration that falls short of the plan's by at most one
  millisecond for each segment.\<close>

theorem playlist_roundtrip:
  assumes segs: "\<forall>g \<in> set (pl_Segments p). 0 \<le> sg_Index g \<and> 0 \<le> sg_DurationMS g \<and> sg_DurationMS g \<le> 2 ^ 50"
    and target: "TargetDuration p < 2 ^ 63"
  shows "\<exists>total. Inspect (WriteVODPlaylist p) =
      \<lparr>hs_Type = ''VOD'', hs_HasEndlist = True, hs_HasStart = False, hs_Version = 7,
        hs_TargetDuration = TargetDuration p, hs_MediaSequence = 0,
        hs_SegmentCount = int (length (pl_Segments p)), hs_PlaylistDurationMS = total\<rparr> \<and>
    ListedDurationMS p - int (length (pl_Segments p)) \<le> total \<and> total \<le> ListedDurationMS p"
proof -
  let ?t = "TargetDuration p" and ?gs = "pl_Segments p"
  let ?q = "\<Sum>g\<leftarrow>?gs. listed_ms (sg_DurationMS g)"
  have t: "0 \<le> ?t" by (simp add: TargetDuration_def Let_def)
  have nonl: "nl \<notin> set (int_dec ?t)" using t by (simp add: int_dec_nonneg digits_no_control)
  have lines: "splitOn nl (WriteVODPlaylist p) =
      ([''#EXTM3U'', ''#EXT-X-VERSION:7'', ''#EXT-X-TARGETDURATION:'' @ int_dec ?t,
        ''#EXT-X-MEDIA-SEQUENCE:0'', ''#EXT-X-PLAYLIST-TYPE:VOD'', ''#EXT-X-INDEPENDENT-SEGMENTS'',
        ''#EXT-X-MAP:URI='' @ [CHR 0x22] @ ''init.mp4'' @ [CHR 0x22]]
       @ concat (map seg_lines ?gs) @ [''#EXT-X-ENDLIST'']) @ [[]]"
    unfolding WriteVODPlaylist_def
    by (rule splitOn_unlines) (use segs seg_lines_no_nl nonl in fastforce)
  have plain: "inspect_line s ''#EXTM3U'' = s" "inspect_line s ''#EXT-X-VERSION:7'' = s\<lparr>hs_Version := 7\<rparr>"
    "inspect_line s ''#EXT-X-MEDIA-SEQUENCE:0'' = s\<lparr>hs_MediaSequence := 0\<rparr>"
    "inspect_line s ''#EXT-X-PLAYLIST-TYPE:VOD'' = s\<lparr>hs_Type := ''VOD''\<rparr>"
    "inspect_line s ''#EXT-X-INDEPENDENT-SEGMENTS'' = s"
    "inspect_line s (''#EXT-X-MAP:URI='' @ [CHR 0x22] @ ''init.mp4'' @ [CHR 0x22]) = s"
    "inspect_line s ''#EXT-X-ENDLIST'' = s\<lparr>hs_HasEndlist := True\<rparr>" "inspect_line s [] = s" for s
    by (simp_all add: inspect_line_def trimRight_plain hasPrefix_def trimPrefix_def atoi_or_zero_def
          trimSpace_plain read_sign_def digit_val_def Let_def)
  have "Inspect (WriteVODPlaylist p) =
      \<lparr>hs_Type = ''VOD'', hs_HasEndlist = True, hs_HasStart = False, hs_Version = 7, hs_TargetDuration = ?t,
        hs_MediaSequence = 0, hs_SegmentCount = int (length ?gs), hs_PlaylistDurationMS = ?q\<rparr>"
    unfolding Inspect_def lines
    by (simp only: foldl_append foldl_Cons foldl_Nil plain inspect_target [OF t target] inspect_segments [OF segs]) simp
  moreover have "ListedDurationMS p - int (length ?gs) \<le> ?q \<and> ?q \<le> ListedDurationMS p"
  proof -
    have "foldl (\<lambda>sum s. sum + sg_DurationMS s) a gs = a + (\<Sum>g\<leftarrow>gs. sg_DurationMS g)" for a and gs :: "hls_seg list"
      by (induction gs arbitrary: a) auto
    then have l: "ListedDurationMS p = (\<Sum>g\<leftarrow>?gs. sg_DurationMS g)" by (simp add: ListedDurationMS_def)
    have "(\<Sum>g\<leftarrow>gs. sg_DurationMS g) - int (length gs) \<le> (\<Sum>g\<leftarrow>gs. listed_ms (sg_DurationMS g)) \<and>
      (\<Sum>g\<leftarrow>gs. listed_ms (sg_DurationMS g)) \<le> (\<Sum>g\<leftarrow>gs. sg_DurationMS g)"
      if "set gs \<subseteq> set ?gs" for gs :: "hls_seg list"
      using that
    proof (induction gs)
      case (Cons g gs)
      with listed_ms_bounds [of "sg_DurationMS g"] segs show ?case by fastforce
    qed simp
    then show ?thesis unfolding l by blast
  qed
  ultimately show ?thesis by blast
qed

text \<open>The target duration that a playlist announces is at least 1 second and at least as long as each
  of its segments, rounded up to whole seconds, as HLS asks; and for segments no longer than the
  target it is the target.\<close>

theorem TargetDuration_bound:
  assumes d: "\<forall>g \<in> set (pl_Segments p). 0 \<le> sg_DurationMS g \<and> sg_DurationMS g \<le> 2 ^ 50"
  shows "1 \<le> TargetDuration p \<and> (\<forall>g \<in> set (pl_Segments p). sg_DurationMS g \<le> TargetDuration p * 1000) \<and>
    ((\<forall>g \<in> set (pl_Segments p). sg_DurationMS g \<le> pl_TargetSec p * 1000) \<longrightarrow>
       1 \<le> pl_TargetSec p \<longrightarrow> TargetDuration p = pl_TargetSec p)"
proof -
  let ?f = "\<lambda>s. \<lceil>fl_div (fl_of_int (sg_DurationMS s)) 1000\<rceil>"
  define m where "m = foldl (\<lambda>m s. let sec = ?f s in if sec > m then sec else m) (pl_TargetSec p) (pl_Segments p)"
  have T: "TargetDuration p = (if m < 1 then 1 else m)" by (simp add: TargetDuration_def m_def Let_def)
  have f: "?f g = \<lceil>of_int (sg_DurationMS g) / (1000 :: rat)\<rceil>" if "g \<in> set (pl_Segments p)" for g
    using d that by (fastforce simp: sec_of_ms intro!: ceiling_fl_div_1000)
  have ceil: "\<lceil>of_int d / (1000 :: rat)\<rceil> \<le> t \<longleftrightarrow> d \<le> t * 1000" for d t :: int
  proof -
    have "of_int d / (1000 :: rat) \<le> of_int t \<longleftrightarrow> (of_int d :: rat) \<le> of_int (t * 1000)"
      by (simp add: pos_divide_le_eq)
    then show ?thesis by (simp only: ceiling_le_iff of_int_le_iff)
  qed
  from target_fold [of "pl_TargetSec p" ?f "pl_Segments p"]
  have m: "pl_TargetSec p \<le> m" "\<forall>g \<in> set (pl_Segments p). sg_DurationMS g \<le> m * 1000"
    using f ceil unfolding m_def by auto
  have "m \<le> pl_TargetSec p" if "\<forall>g \<in> set (pl_Segments p). sg_DurationMS g \<le> pl_TargetSec p * 1000"
    unfolding m_def using f ceil that by (intro target_fold_le) auto
  then show ?thesis using m T by fastforce
qed

definition demo_plan :: hls_plan where "demo_plan = EqualLengthPlan 9001 4"

lemma demo_plan_segments:
  "pl_Segments demo_plan = [\<lparr>sg_Index = 0, sg_StartMS = 0, sg_DurationMS = 4000\<rparr>,
     \<lparr>sg_Index = 1, sg_StartMS = 4000, sg_DurationMS = 4000\<rparr>, \<lparr>sg_Index = 2, sg_StartMS = 8000, sg_DurationMS = 1001\<rparr>]"
  by code_simp

theorem TargetDuration_bound_witness: "TargetDuration demo_plan = 4"
proof -
  have "\<forall>g \<in> set (pl_Segments demo_plan). 0 \<le> sg_DurationMS g \<and> sg_DurationMS g \<le> 2 ^ 50"
    by (simp add: demo_plan_segments)
  moreover have "pl_TargetSec demo_plan = 4" by code_simp
  ultimately show ?thesis using TargetDuration_bound [of demo_plan] by (simp add: demo_plan_segments)
qed

theorem playlist_roundtrip_witness:
  "hs_SegmentCount (Inspect (WriteVODPlaylist demo_plan)) = 3 \<and>
   8998 \<le> hs_PlaylistDurationMS (Inspect (WriteVODPlaylist demo_plan))"
proof -
  have segs: "\<forall>g \<in> set (pl_Segments demo_plan). 0 \<le> sg_Index g \<and> 0 \<le> sg_DurationMS g \<and> sg_DurationMS g \<le> 2 ^ 50"
    by (simp add: demo_plan_segments)
  have t: "TargetDuration demo_plan < 2 ^ 63" by code_simp
  have l: "ListedDurationMS demo_plan = 9001" by code_simp
  from playlist_roundtrip [OF segs t] show ?thesis by (auto simp: demo_plan_segments l)
qed

text \<open>\<^verbatim>\<open>Inspect\<close> loses a millisecond on some segments: \<open>1.001 * 1000\<close> in floating point is just below
  1001, and the conversion to an integer cuts it to 1000. The duration reported in the header
  \<^verbatim>\<open>X-VD-Playlist-Duration-Ms\<close> of a playlist with this segment is too short.\<close>

theorem Inspect_loses_a_millisecond: "listed_ms 1001 = 1000 \<and> extinfMS ''#EXTINF:1.001,'' = 1000"
  by code_simp

end
