(* ===== verification/Progress.thy ===== *)
theory Progress
  imports ViewDock_Prelude
begin

text \<open>
  Watch progress (\<^verbatim>\<open>src/internal/progress/sqlite.go\<close>, \<^verbatim>\<open>src/internal/playback/checkpoint.go\<close> and the
  conflict check of \<^verbatim>\<open>item_progress.go\<close>): the table of positions and the history, when a title
  counts as finished, where playback resumes, and when a session's position is written. The two
  tables are lists of rows; a statement that fails is a flag of the operation. Titles, restrictions
  and HTTP are arguments or left out.
\<close>

section \<open>The store\<close>

record completion =
  percent :: int
  remaining :: int

definition default_completion :: completion where
  "default_completion = \<lparr>percent = 92, remaining = 180\<rparr>"

definition SetCompletion :: "int \<Rightarrow> int \<Rightarrow> completion \<Rightarrow> completion" where
  "SetCompletion p rem c =
     (let c = (if p \<ge> 50 \<and> p \<le> 100 then c\<lparr>percent := p\<rparr> else c)
      in if rem \<ge> 0 then c\<lparr>remaining := rem\<rparr> else c)"

text \<open>Positions and durations are far below \<open>2 ^ 56\<close>, so the products do not wrap.\<close>

definition completed :: "completion \<Rightarrow> int \<Rightarrow> int \<Rightarrow> bool" where
  "completed c pos dur =
     (if dur \<le> 0 \<or> pos \<le> 0 then False
      else (let left = dur - pos; rem = remaining c * 1000
            in if left \<le> 30000 then True
               else if rem > 0 \<and> dur > 10 * rem \<and> left \<le> rem then True
               else pos * 100 \<ge> dur * percent c))"

definition resumeMS :: "int \<Rightarrow> int \<Rightarrow> bool \<Rightarrow> int" where
  "resumeMS pos dur done =
     (if done then 0 else if pos < 5000 then 0 else if dur > 0 \<and> pos > dur then dur else pos)"

type_synonym prog_key = "string \<times> string \<times> string"

record prog_row =
  pr_MediaFileID :: string
  pr_PositionMS :: int
  pr_DurationMS :: int
  pr_Completed :: bool
  pr_UpdatedAt :: gtime
  pr_Dismissed :: bool

record prog_db =
  pd_progress :: "(prog_key \<times> prog_row) list"
  pd_history :: "(prog_key \<times> int) list"

text \<open>\<^verbatim>\<open>Put\<close>: \<open>ok\<close> is the outcome of the write of the position; the result is False on an error.\<close>

definition Put :: "completion \<Rightarrow> bool \<Rightarrow> gtime \<Rightarrow> prog_key \<Rightarrow> string \<Rightarrow> int \<Rightarrow> int \<Rightarrow> prog_db \<Rightarrow> prog_db \<times> bool" where
  "Put c ok now key mf pos dur db =
     (if fst key = [] then (db, True)
      else (let done = completed c pos dur;
                old = map_of (pd_progress db) key;
                existed = (old \<noteq> None);
                wasDone = (case old of None \<Rightarrow> False | Some r \<Rightarrow> pr_Completed r)
            in if \<not> ok then (db, False)
               else (let db = db\<lparr>pd_progress := set_key key
                        \<lparr>pr_MediaFileID = mf, pr_PositionMS = pos, pr_DurationMS = dur, pr_Completed = done,
                          pr_UpdatedAt = whole_seconds now, pr_Dismissed = False\<rparr> (pd_progress db)\<rparr>
                     in (if \<not> existed \<or> (done \<and> \<not> wasDone) then db\<lparr>pd_history := pd_history db @ [(key, pos)]\<rparr> else db,
                         True))))"

record prog_record =
  rec_Key :: prog_key
  rec_PositionMS :: int
  rec_DurationMS :: int
  rec_Completed :: bool
  rec_UpdatedAt :: gtime
  rec_ResumeMS :: int

definition record_of :: "prog_key \<Rightarrow> prog_row \<Rightarrow> prog_record" where
  "record_of key r = \<lparr>rec_Key = key, rec_PositionMS = pr_PositionMS r, rec_DurationMS = pr_DurationMS r,
     rec_Completed = pr_Completed r, rec_UpdatedAt = pr_UpdatedAt r,
     rec_ResumeMS = resumeMS (pr_PositionMS r) (pr_DurationMS r) (pr_Completed r)\<rparr>"

definition Prog_Get :: "prog_key \<Rightarrow> prog_db \<Rightarrow> prog_record option" where
  "Prog_Get key db = (case map_of (pd_progress db) key of None \<Rightarrow> None | Some r \<Rightarrow> Some (record_of key r))"

text \<open>\<^verbatim>\<open>Continue\<close>; \<open>allowed\<close> is the user's content restriction.\<close>

definition Continue :: "(prog_key \<Rightarrow> bool) \<Rightarrow> string \<Rightarrow> int \<Rightarrow> prog_db \<Rightarrow> prog_record list" where
  "Continue allowed user limit db =
     (let limit = (if limit \<le> 0 then 20 else limit)
      in take (nat limit)
           (map (\<lambda>(k, r). record_of k r)
             (sort_key (\<lambda>(k, r). - pr_UpdatedAt r)
               (filter (\<lambda>(k, r). fst k = user \<and> \<not> pr_Completed r \<and> \<not> pr_Dismissed r \<and>
                                   pr_PositionMS r > 5000 \<and> allowed k) (pd_progress db)))))"

text \<open>
  The check of \<^verbatim>\<open>handleItemProgress\<close>: a position reported later by an offline client is a conflict
  when the server has a newer one more than half a minute away.
\<close>

definition progress_conflict :: "bool \<Rightarrow> gtime option \<Rightarrow> int \<Rightarrow> prog_record option \<Rightarrow> bool" where
  "progress_conflict force clientAt pos cur =
     (case (clientAt, cur) of
        (Some t, Some r) \<Rightarrow> \<not> force \<and> rec_UpdatedAt r > t \<and> \<bar>rec_PositionMS r - pos\<bar> > 30000
      | _ \<Rightarrow> False)"

text \<open>\<open>located\<close> is the verdict of \<^verbatim>\<open>locate\<close>: the caller may play the title.\<close>

definition handleItemProgress :: "completion \<Rightarrow> bool \<Rightarrow> bool \<Rightarrow> gtime \<Rightarrow> prog_key \<Rightarrow> string \<Rightarrow> int \<Rightarrow> int \<Rightarrow> gtime option \<Rightarrow> bool
    \<Rightarrow> prog_db \<Rightarrow> prog_db \<times> int" where
  "handleItemProgress c located ok now key mf pos dur clientAt force db =
     (if fst (snd key) \<notin> {''movie'', ''episode''} \<or> pos < 0 then (db, 400)
      else if \<not> located then (db, 404)
      else if progress_conflict force clientAt pos (Prog_Get key db) then (db, 409)
      else (case Put c ok now key mf pos dur db of (db, True) \<Rightarrow> (db, 200) | (db, False) \<Rightarrow> (db, 503)))"

section \<open>When a session's position is written\<close>

definition checkpointInterval :: duration where "checkpointInterval = seconds 60"
definition checkpointJumpMS :: int where "checkpointJumpMS = 15000"

record checkpoint =
  cp_positionMS :: int
  cp_durationMS :: int
  cp_persistedMS :: int
  cp_persistedAt :: gtime
  cp_reportAt :: gtime
  cp_dirty :: bool

definition no_checkpoint :: checkpoint where
  "no_checkpoint = \<lparr>cp_positionMS = 0, cp_durationMS = 0, cp_persistedMS = 0, cp_persistedAt = 0, cp_reportAt = 0,
     cp_dirty = False\<rparr>"

definition forced_event :: "string \<Rightarrow> bool" where
  "forced_event e \<longleftrightarrow> e \<in> {''pause'', ''seek'', ''ended'', ''stop''}"

definition jumped :: "checkpoint \<Rightarrow> int \<Rightarrow> gtime \<Rightarrow> bool" where
  "jumped cp pos now \<longleftrightarrow>
     cp_reportAt cp \<noteq> 0 \<and>
     \<bar>pos - (cp_positionMS cp + milliseconds (time_sub now (cp_reportAt cp)))\<bar> \<ge> checkpointJumpMS"

definition nearly_done :: "checkpoint \<Rightarrow> int \<Rightarrow> int \<Rightarrow> bool" where
  "nearly_done cp pos dur \<longleftrightarrow>
     dur > 0 \<and> pos \<ge> quot (dur * 9) 10 \<and> cp_persistedMS cp < quot (dur * 9) 10"

definition shouldCheckpoint :: "checkpoint \<Rightarrow> string \<Rightarrow> int \<Rightarrow> int \<Rightarrow> gtime \<Rightarrow> bool" where
  "shouldCheckpoint cp event pos dur now =
     (if forced_event event then True
      else if cp_persistedAt cp = 0 then True
      else if jumped cp pos now then True
      else if nearly_done cp pos dur then True
      else time_sub now (cp_persistedAt cp) \<ge> checkpointInterval)"

text \<open>
  \<^verbatim>\<open>flushProgress\<close> and \<^verbatim>\<open>recordProgress\<close> on the checkpoint of a signed-in user's session; the
  position and the duration to write are the result, \<open>ok\<close> tells whether the write succeeds.
  \<open>sessDur\<close> is the duration of the session.
\<close>

definition flushProgress :: "bool \<Rightarrow> int \<Rightarrow> gtime \<Rightarrow> checkpoint \<Rightarrow> checkpoint \<times> (int \<times> int) option" where
  "flushProgress ok sessDur now cp =
     (if \<not> cp_dirty cp then (cp, None)
      else (let pos = cp_positionMS cp; dur = cp_durationMS cp;
                cp = cp\<lparr>cp_dirty := False, cp_persistedMS := pos, cp_persistedAt := now\<rparr>;
                dur = (if dur \<le> 0 then sessDur else dur)
            in (if ok then cp else cp\<lparr>cp_dirty := True\<rparr>, Some (pos, dur))))"

definition recordProgress :: "bool \<Rightarrow> bool \<Rightarrow> int \<Rightarrow> string \<Rightarrow> int \<Rightarrow> int \<Rightarrow> gtime \<Rightarrow> checkpoint
    \<Rightarrow> checkpoint \<times> (int \<times> int) option" where
  "recordProgress isUser ok sessDur event pos dur now cp =
     (let due = (isUser \<and> shouldCheckpoint cp event pos dur now);
          cp = cp\<lparr>cp_positionMS := pos, cp_durationMS := dur, cp_reportAt := now, cp_dirty := True\<rparr>
      in if due then flushProgress ok sessDur now cp else (cp, None))"

section \<open>Finished and resumed\<close>

lemma completed_mono:
  assumes "completed c pos dur" "pos \<le> pos'"
  shows "completed c pos' dur"
proof -
  have "pos * 100 \<le> pos' * 100" using assms(2) by simp
  with assms show ?thesis by (auto simp: completed_def Let_def split: if_splits)
qed

text \<open>A title stays finished from the point where it first counts as finished to its end, and it is
  finished at its end; playback of a finished title resumes at the beginning, of an unfinished one
  at the position itself, unless the position is in the first five seconds or beyond the end, and
  the resume point is always inside the title.\<close>

theorem finish_and_resume:
  assumes "0 < dur"
  shows "(completed c pos dur \<longrightarrow> pos \<le> pos' \<longrightarrow> completed c pos' dur) \<and> completed c dur dur \<and>
    0 \<le> resumeMS pos dur (completed c pos dur) \<and> resumeMS pos dur (completed c pos dur) \<le> dur \<and>
    (completed c pos dur \<longrightarrow> resumeMS pos dur (completed c pos dur) = 0) \<and>
    (\<not> completed c pos dur \<longrightarrow> 5000 \<le> pos \<longrightarrow> resumeMS pos dur (completed c pos dur) = pos)"
  using assms completed_mono [of c pos dur pos']
  by (auto simp: resumeMS_def completed_def Let_def split: if_splits)

theorem finish_and_resume_witness:
  "resumeMS 60000 7200000 (completed default_completion 60000 7200000) = 60000 \<and>
   completed default_completion 7200000 7200000"
proof -
  have "\<not> completed default_completion 60000 7200000" by code_simp
  with finish_and_resume [of 7200000 default_completion 60000 0] show ?thesis by simp
qed

text \<open>A clip of half a minute or less is finished as soon as it starts, whatever percentage and
  remaining time are configured: the fixed rule of the last 30 seconds has no condition on the
  length, unlike the configurable one, whose comment promises that a short clip is not finished
  as soon as it starts.\<close>

theorem short_clip_finished_at_once:
  assumes "0 < pos" "pos \<le> dur" "dur \<le> 30000"
  shows "completed (SetCompletion p rem c) pos dur \<and> resumeMS pos dur (completed (SetCompletion p rem c) pos dur) = 0"
  using assms by (auto simp: completed_def resumeMS_def)

theorem short_clip_finished_at_once_witness: "completed (SetCompletion 100 0 default_completion) 1 30000"
  using short_clip_finished_at_once [of 1 30000] by simp

section \<open>History\<close>

text \<open>One report of a key: the position and the duration.\<close>

definition put_all :: "completion \<Rightarrow> prog_key \<Rightarrow> (gtime \<times> string \<times> int \<times> int) list \<Rightarrow> prog_db \<Rightarrow> prog_db" where
  "put_all c key reports db =
     foldl (\<lambda>db (now, mf, pos, dur). fst (Put c True now key mf pos dur db)) db reports"

text \<open>How often a list of reports starts a title or passes from unfinished to finished.\<close>

fun finishes :: "bool \<Rightarrow> bool list \<Rightarrow> nat" where
  "finishes was [] = 0"
| "finishes was (d # ds) = (if d \<and> \<not> was then 1 else 0) + finishes d ds"

definition history_of :: "prog_key \<Rightarrow> prog_db \<Rightarrow> nat" where
  "history_of key db = length (filter (\<lambda>(k, _). k = key) (pd_history db))"

lemma put_row:
  assumes "fst key \<noteq> []"
  shows "map_of (pd_progress (fst (Put c True now key mf pos dur db))) key =
    Some \<lparr>pr_MediaFileID = mf, pr_PositionMS = pos, pr_DurationMS = dur, pr_Completed = completed c pos dur,
          pr_UpdatedAt = whole_seconds now, pr_Dismissed = False\<rparr>"
  using assms by (simp add: Put_def Let_def)

lemma put_history:
  assumes "fst key \<noteq> []"
  shows "history_of key (fst (Put c True now key mf pos dur db)) =
    history_of key db + (case map_of (pd_progress db) key of
        None \<Rightarrow> 1 | Some r \<Rightarrow> if completed c pos dur \<and> \<not> pr_Completed r then 1 else 0)"
  using assms by (simp add: Put_def Let_def history_of_def split: option.split)

lemma put_all_history:
  assumes "fst key \<noteq> []" "map_of (pd_progress db) key = Some r"
  shows "history_of key (put_all c key reports db) =
    history_of key db + finishes (pr_Completed r) (map (\<lambda>(_, _, pos, dur). completed c pos dur) reports)"
  using assms(2)
proof (induction reports arbitrary: db r)
  case (Cons x reports)
  obtain now mf pos dur where x: "x = (now, mf, pos, dur)" by (metis prod_cases4)
  let ?db = "fst (Put c True now key mf pos dur db)"
  have "put_all c key (x # reports) db = put_all c key reports ?db" by (simp add: put_all_def x)
  with Cons.IH [OF put_row [OF assms(1)], of c now mf pos dur db] put_history [OF assms(1), of c now mf pos dur db] Cons.prems
  show ?case by (simp add: x)
qed (simp add: put_all_def)

text \<open>The history is neither flooded nor short: reports of one title by one user add an entry for
  the first and one each time the title passes from unfinished to finished, however many reports
  arrive in between, and the row of the title is that of the last report.\<close>

theorem history_counts_starts_and_finishes:
  assumes user: "fst key \<noteq> []" and new: "map_of (pd_progress db) key = None"
  shows "history_of key (put_all c key ((now, mf, pos, dur) # reports) db) =
      history_of key db + 1 + finishes (completed c pos dur) (map (\<lambda>(_, _, pos, dur). completed c pos dur) reports)"
proof -
  let ?db = "fst (Put c True now key mf pos dur db)"
  have "put_all c key ((now, mf, pos, dur) # reports) db = put_all c key reports ?db" by (simp add: put_all_def)
  with put_all_history [OF user put_row [OF user, of c now mf pos dur db], of c reports] put_history [OF user, of c now mf pos dur db] new
  show ?thesis by simp
qed

definition demo_reports :: "(gtime \<times> string \<times> int \<times> int) list" where
  "demo_reports = [(2, ''f'', 100000, 600000), (3, ''f'', 590000, 600000), (4, ''f'', 595000, 600000)]"

theorem history_counts_starts_and_finishes_witness:
  "history_of (''u'', ''movie'', ''m'')
     (put_all default_completion (''u'', ''movie'', ''m'') ((1, ''f'', 10, 600000) # demo_reports)
       \<lparr>pd_progress = [], pd_history = []\<rparr>) = 2"
proof -
  have "finishes (completed default_completion 10 600000)
      (map (\<lambda>(_, _, pos, dur). completed default_completion pos dur) demo_reports) = 1"
    by code_simp
  then show ?thesis
    using history_counts_starts_and_finishes [of "(''u'', ''movie'', ''m'')" "\<lparr>pd_progress = [], pd_history = []\<rparr>"
        default_completion 1 "''f''" 10 600000 demo_reports]
    by (simp add: history_of_def)
qed

section \<open>The budget of writes\<close>

record report_msg =
  rm_event :: string
  rm_pos :: int
  rm_dur :: int
  rm_now :: gtime

definition ordinary :: "checkpoint \<Rightarrow> report_msg \<Rightarrow> bool" where
  "ordinary cp r \<longleftrightarrow> \<not> forced_event (rm_event r) \<and> \<not> jumped cp (rm_pos r) (rm_now r) \<and>
     \<not> nearly_done cp (rm_pos r) (rm_dur r)"

definition record_msg :: "bool \<Rightarrow> int \<Rightarrow> checkpoint \<Rightarrow> report_msg \<Rightarrow> checkpoint \<times> (int \<times> int) option" where
  "record_msg ok sessDur cp r = recordProgress True ok sessDur (rm_event r) (rm_pos r) (rm_dur r) (rm_now r) cp"

text \<open>A run of reports whose writes succeed: the number of writes, and whether all were ordinary.\<close>

fun writes :: "int \<Rightarrow> checkpoint \<Rightarrow> report_msg list \<Rightarrow> nat" where
  "writes sessDur cp [] = 0"
| "writes sessDur cp (r # rs) =
     (case record_msg True sessDur cp r of (cp', w) \<Rightarrow> (if w \<noteq> None then 1 else 0) + writes sessDur cp' rs)"

fun all_ordinary :: "int \<Rightarrow> checkpoint \<Rightarrow> report_msg list \<Rightarrow> bool" where
  "all_ordinary sessDur cp [] = True"
| "all_ordinary sessDur cp (r # rs) =
     (ordinary cp r \<and> all_ordinary sessDur (fst (record_msg True sessDur cp r)) rs)"

lemma record_ordinary:
  assumes "ordinary cp r" "cp_persistedAt cp \<noteq> 0" "cp_persistedAt cp \<le> rm_now r"
  shows "case record_msg True sessDur cp r of (cp', w) \<Rightarrow>
    (if w = None then cp_persistedAt cp' = cp_persistedAt cp
     else cp_persistedAt cp' = rm_now r \<and> cp_persistedAt cp + checkpointInterval \<le> rm_now r)"
  using assms
  by (auto simp: record_msg_def recordProgress_def shouldCheckpoint_def ordinary_def flushProgress_def Let_def
                 checkpointInterval_def time_sub_def seconds_def min_def max_def split: if_splits)

text \<open>The budget of writes: while a title plays on, its reports neither forced by an event nor a jump
  nor the first near the end, two writes of its position are at least a minute apart, so a run of
  reports writes at most once for each full minute it lasts.\<close>

theorem write_budget:
  assumes "cp_persistedAt cp > 0" "sorted (cp_persistedAt cp # map rm_now rs)" "all_ordinary sessDur cp rs"
  shows "int (writes sessDur cp rs) * checkpointInterval \<le> last (cp_persistedAt cp # map rm_now rs) - cp_persistedAt cp"
  using assms
proof (induction rs arbitrary: cp)
  case (Cons r rs)
  obtain cp' w where rec: "record_msg True sessDur cp r = (cp', w)" by fastforce
  have step: "if w = None then cp_persistedAt cp' = cp_persistedAt cp
      else cp_persistedAt cp' = rm_now r \<and> cp_persistedAt cp + checkpointInterval \<le> rm_now r"
    using record_ordinary [of cp r sessDur] Cons.prems rec by auto
  have "sorted (cp_persistedAt cp' # map rm_now rs)" using Cons.prems(2) step by (auto split: if_splits)
  moreover have "cp_persistedAt cp' > 0" using Cons.prems(1,2) step by (auto split: if_splits)
  ultimately have "int (writes sessDur cp' rs) * checkpointInterval
      \<le> last (cp_persistedAt cp' # map rm_now rs) - cp_persistedAt cp'"
    using Cons.prems(3) rec by (intro Cons.IH) auto
  moreover have "last (cp_persistedAt cp' # map rm_now rs) \<le> last (rm_now r # map rm_now rs)"
    using Cons.prems(2) step by (cases rs) (auto split: if_splits)
  ultimately show ?case using step rec by (auto simp: algebra_simps split: if_splits)
qed simp

definition demo_run :: "report_msg list" where
  "demo_run = map (\<lambda>i. \<lparr>rm_event = ''time'', rm_pos = 1000 * i, rm_dur = 7200000, rm_now = seconds (100 + i)\<rparr>) [10, 20, 30, 61, 70]"

definition demo_checkpoint :: checkpoint where
  "demo_checkpoint = \<lparr>cp_positionMS = 0, cp_durationMS = 7200000, cp_persistedMS = 0, cp_persistedAt = seconds 100,
     cp_reportAt = seconds 100, cp_dirty = False\<rparr>"

theorem write_budget_witness: "writes 7200000 demo_checkpoint demo_run \<le> 1"
proof -
  have "all_ordinary 7200000 demo_checkpoint demo_run" "sorted (cp_persistedAt demo_checkpoint # map rm_now demo_run)"
    "last (cp_persistedAt demo_checkpoint # map rm_now demo_run) - cp_persistedAt demo_checkpoint = seconds 70"
    "cp_persistedAt demo_checkpoint > 0"
    by code_simp+
  with write_budget [of demo_checkpoint demo_run 7200000] show ?thesis
    by (simp add: checkpointInterval_def seconds_def)
qed

text \<open>A write that fails is not tried again until the next checkpoint is due: the failed write counts
  as the latest one, so for the next minute of plain playback the position stays unwritten, even
  when the write that failed was the one near the end of the title.\<close>

theorem failed_write_not_retried:
  assumes first: "record_msg False sessDur cp r = (cp', Some w)"
    and plain: "\<not> forced_event (rm_event r')" "\<not> jumped cp' (rm_pos r') (rm_now r')"
    and later: "0 < rm_now r" "rm_now r \<le> rm_now r'" "rm_now r' < rm_now r + checkpointInterval"
    and same: "rm_dur r' = rm_dur r" "quot (rm_dur r * 9) 10 \<le> rm_pos r \<or> rm_pos r' < quot (rm_dur r * 9) 10"
  shows "record_msg ok sessDur cp' r' =
      (cp'\<lparr>cp_positionMS := rm_pos r', cp_durationMS := rm_dur r', cp_reportAt := rm_now r'\<rparr>, None) \<and>
    cp_dirty cp'"
proof -
  have cp': "cp_dirty cp'" "cp_persistedAt cp' = rm_now r" "cp_persistedMS cp' = rm_pos r"
    using first by (auto simp: record_msg_def recordProgress_def flushProgress_def Let_def split: if_splits)
  have "\<not> nearly_done cp' (rm_pos r') (rm_dur r')" using same cp' by (auto simp: nearly_done_def)
  then have "\<not> shouldCheckpoint cp' (rm_event r') (rm_pos r') (rm_dur r') (rm_now r')"
    using plain later cp' by (auto simp: shouldCheckpoint_def time_sub_def checkpointInterval_def seconds_def)
  then show ?thesis using cp' by (simp add: record_msg_def recordProgress_def Let_def)
qed

definition demo_report :: "int \<Rightarrow> report_msg" where
  "demo_report t = \<lparr>rm_event = ''time'', rm_pos = 6480000 + t * 1000, rm_dur = 7200000, rm_now = seconds (7000 + t)\<rparr>"

definition demo_near_end :: checkpoint where
  "demo_near_end = \<lparr>cp_positionMS = 6479000, cp_durationMS = 7200000, cp_persistedMS = 6470000,
     cp_persistedAt = seconds 6990, cp_reportAt = seconds 6999, cp_dirty = True\<rparr>"

theorem failed_write_not_retried_witness:
  "snd (record_msg True 7200000 (fst (record_msg False 7200000 demo_near_end (demo_report 0))) (demo_report 50)) = None"
proof -
  define cp where "cp = fst (record_msg False 7200000 demo_near_end (demo_report 0))"
  have first: "record_msg False 7200000 demo_near_end (demo_report 0) = (cp, Some (6480000, 7200000))"
    unfolding cp_def by code_simp
  have plain: "\<not> forced_event (rm_event (demo_report 50))" "\<not> jumped cp (rm_pos (demo_report 50)) (rm_now (demo_report 50))"
    unfolding cp_def by code_simp+
  have later: "0 < rm_now (demo_report 0)" "rm_now (demo_report 0) \<le> rm_now (demo_report 50)"
    "rm_now (demo_report 50) < rm_now (demo_report 0) + checkpointInterval"
    by code_simp+
  have same: "rm_dur (demo_report 50) = rm_dur (demo_report 0)"
    "quot (rm_dur (demo_report 0) * 9) 10 \<le> rm_pos (demo_report 0) \<or>
     rm_pos (demo_report 50) < quot (rm_dur (demo_report 0) * 9) 10"
    by code_simp+
  from failed_write_not_retried [OF first plain later same, of True] show ?thesis unfolding cp_def by simp
qed

end
