(* ===== verification/Playback_Session.thy ===== *)
theory Playback_Session
  imports Decision Principal Admission Playlist Progress
begin

text \<open>
  A playback session (\<^verbatim>\<open>src/internal/playback/session.go\<close>) and what happens to it while it plays
  on demand (\<^verbatim>\<open>vod.go\<close>): choosing the plan of segments, promoting a remux that cannot honour its
  keyframes, and starting or replacing the generator that writes the segments. The generator
  (an ffmpeg process) is the flag \<open>ps_running\<close> and the segment files are the set \<open>ps_files\<close>;
  whether a start succeeds, the keyframes of the file and writing the playlist are arguments.
  Subtitles, previews and metadata of the session are not modelled.
\<close>

record session_hw =
  sh_hw :: hw_info
  sh_H264NVENC :: bool
  sh_Available :: bool

record psession =
  ps_ID :: string
  ps_Kind :: string
  ps_UserID :: string
  ps_GuestSessionID :: string
  ps_ItemKind :: string
  ps_ItemID :: string
  ps_MediaFileID :: string
  ps_LibraryID :: string
  ps_AbsPath :: string
  ps_Delivery :: string
  ps_Mode :: string
  ps_Reasons :: "string list"
  ps_HLSAttach :: string
  ps_StartMS :: int
  ps_ResumeMS :: int
  ps_DurationMS :: int
  ps_Standby :: "(string \<times> string) option"
  ps_FailoverUsed :: bool
  ps_Decision :: dec_result
  ps_Dir :: string
  ps_Stoken :: string
  ps_StokenExp :: gtime
  ps_SlotHeld :: bool
  ps_Failed :: bool
  ps_FailCode :: string
  ps_Created :: gtime
  ps_LastPing :: gtime
  ps_SeekableFromMS :: int
  ps_Encoder :: string
  ps_EncoderType :: string
  ps_Fallback :: bool
  ps_FallbackReason :: string
  ps_HW :: session_hw
  ps_VOD :: bool
  ps_VODPlan :: hls_plan
  ps_VODPlanKind :: string
  ps_genStartSeg :: int
  ps_GenerationID :: int
  ps_RemoteURL :: string
  ps_Owner :: "principal option"
  ps_checkpoint :: checkpoint
  ps_killed :: bool
  ps_restarting :: bool
  ps_cpuFallback :: bool
  ps_running :: bool
  ps_started :: bool
  ps_files :: "int list"
  ps_initFile :: bool

definition owns :: "psession \<Rightarrow> string \<Rightarrow> string \<Rightarrow> bool" where
  "owns s pKind pID =
     (if ps_Kind s = ''user'' then pKind = ''user'' \<and> pID = ps_UserID s
      else pKind = ''guest_share'' \<and> pID = ps_GuestSessionID s)"

definition snapshotResume :: "psession \<Rightarrow> int" where
  "snapshotResume s = (if ps_ResumeMS s > 0 then ps_ResumeMS s else ps_StartMS s)"

definition fail_session :: "string \<Rightarrow> psession \<Rightarrow> psession" where
  "fail_session code s = s\<lparr>ps_Failed := True, ps_FailCode := code\<rparr>"

definition touch :: "gtime \<Rightarrow> psession \<Rightarrow> psession" where
  "touch now s = s\<lparr>ps_LastPing := now\<rparr>"

section \<open>Choosing the plan\<close>

definition VideoEncoder :: "session_hw \<Rightarrow> string" where
  "VideoEncoder hw =
     (if VAAPI (sh_hw hw) then ''h264_vaapi''
      else if NVENC (sh_hw hw) \<or> sh_H264NVENC hw then ''h264_nvenc'' else ''libx264'')"

definition sessionEncoderType :: "string \<Rightarrow> bool \<Rightarrow> string" where
  "sessionEncoderType enc needVideo = (if needVideo \<and> enc = ''h264_nvenc'' then ''nvidia_nvenc'' else ''cpu'')"

definition useVODOnDemand :: "psession \<Rightarrow> bool" where
  "useVODOnDemand s = (if ps_Delivery s \<noteq> DeliveryHLS then False else ps_HLSAttach s = ''native'')"

datatype vod_error = LoadError | WriteError

text \<open>\<^verbatim>\<open>promoteNativeRemux\<close>; the error is \<^verbatim>\<open>ErrLoad\<close> of the limiter.\<close>

definition promoteNativeRemux :: "psession \<Rightarrow> slot_limiter \<Rightarrow> psession \<times> slot_limiter \<times> vod_error option" where
  "promoteNativeRemux s lm =
     (let dec = PromoteRemuxToVideoXcode (ps_Decision s) (sh_hw (ps_HW s));
          enc = VideoEncoder (ps_HW s);
          enc = (if enc = [] then ''libx264'' else enc);
          s = s\<lparr>ps_Decision := dec, ps_Mode := Mode dec, ps_Reasons := Reasons dec, ps_Encoder := enc,
                ps_EncoderType := sessionEncoderType enc True\<rparr>
      in if \<not> ps_SlotHeld s \<and> NeedsVideoSlot dec
         then (case TryAcquire lm of (lm, False) \<Rightarrow> (s, lm, Some LoadError)
               | (lm, True) \<Rightarrow> (s\<lparr>ps_SlotHeld := True\<rparr>, lm, None))
         else (s, lm, None))"

definition soft_encoder :: "psession \<Rightarrow> bool" where
  "soft_encoder s \<longleftrightarrow> ps_Encoder s = ''libx264'' \<or> (\<not> NVENC (sh_hw (ps_HW s)) \<and> \<not> sh_H264NVENC (ps_HW s))"

text \<open>
  \<^verbatim>\<open>prepareVOD\<close>. \<open>kfs\<close> is what the keyframe scan returns (None on an error), \<open>wrote\<close> whether the
  playlist file could be written.
\<close>

definition install_plan :: "hls_plan \<Rightarrow> string \<Rightarrow> psession \<Rightarrow> psession" where
  "install_plan plan kind s =
     s\<lparr>ps_VOD := True, ps_VODPlan := plan, ps_VODPlanKind := kind, ps_SeekableFromMS := 0,
       ps_genStartSeg := (if ps_StartMS s > 0 then IndexForMS plan (ps_StartMS s) else ps_genStartSeg s)\<rparr>"

definition copy_plan :: "int list option \<Rightarrow> psession \<Rightarrow> hls_plan option" where
  "copy_plan kfs s =
     (case kfs of None \<Rightarrow> None
      | Some ks \<Rightarrow>
         if \<not> KeyframesCover ks (ps_DurationMS s) then None
         else (let plan = KeyframePlan ks (ps_DurationMS s) 4
               in if pl_Segments plan = [] then None else Some plan))"

definition prepareVOD :: "int list option \<Rightarrow> bool \<Rightarrow> psession \<Rightarrow> slot_limiter
    \<Rightarrow> psession \<times> slot_limiter \<times> vod_error option" where
  "prepareVOD kfs wrote s lm =
     (if \<not> useVODOnDemand s then (s, lm, None)
      else if NeedVideoXcode (ps_Decision s) then
        (let plan = EqualLengthPlan (ps_DurationMS s) (if soft_encoder s then 2 else 4)
         in if \<not> wrote then (s, lm, Some WriteError) else (install_plan plan ''equal'' s, lm, None))
      else (case copy_plan kfs s of
              Some plan \<Rightarrow> if \<not> wrote then (s, lm, Some WriteError) else (install_plan plan ''keyframe'' s, lm, None)
            | None \<Rightarrow>
               (case promoteNativeRemux s lm of
                  (s, lm, Some e) \<Rightarrow> (s, lm, Some e)
                | (s, lm, None) \<Rightarrow>
                   (let plan = EqualLengthPlan (ps_DurationMS s) (if soft_encoder s then 2 else 4)
                    in if \<not> wrote then (s, lm, Some WriteError)
                       else (install_plan plan ''promoted_xcode'' s, lm, None)))))"

section \<open>Generating segments\<close>

definition segmentReady :: "psession \<Rightarrow> int \<Rightarrow> bool" where
  "segmentReady s n =
     (if n \<notin> set (ps_files s) then False
      else if n \<ge> LastIndex (ps_VODPlan s) then \<not> ps_running s
      else if n + 1 \<in> set (ps_files s) then True
      else \<not> ps_running s)"

definition ffmpegRunning :: "psession \<Rightarrow> bool" where
  "ffmpegRunning s \<longleftrightarrow> ps_running s \<and> \<not> ps_killed s"

text \<open>\<^verbatim>\<open>highestSegOnDisk\<close>: the end of the unbroken run of files from the generator's first segment.\<close>

function highest_from :: "int list \<Rightarrow> int \<Rightarrow> int \<Rightarrow> int \<Rightarrow> int" where
  "highest_from files i lst best =
     (if i \<le> lst then (if i \<notin> set files then best else highest_from files (i + 1) lst i) else best)"
  by pat_completeness auto
termination
  by (relation "measure (\<lambda>(files, i, lst, best). nat (lst - i + 1))") auto

declare highest_from.simps [simp del]

definition highestSegOnDisk :: "psession \<Rightarrow> int" where
  "highestSegOnDisk s = highest_from (ps_files s) (ps_genStartSeg s) (LastIndex (ps_VODPlan s)) (- 1)"

definition ShouldRestartGen :: "int \<Rightarrow> int \<Rightarrow> int \<Rightarrow> int \<Rightarrow> bool \<Rightarrow> bool \<Rightarrow> bool" where
  "ShouldRestartGen n genStart highest lookahead running onDisk =
     (if onDisk then False
      else if \<not> running then True
      else if n < genStart then True
      else (let lookahead = (if lookahead < 1 then 8 else lookahead)
            in if highest < genStart then n > genStart + lookahead
               else n > highest + lookahead))"

text \<open>
  \<^verbatim>\<open>startPipeline\<close> of the first start and of every restart: \<open>ok\<close> is its outcome. It does not ask
  whether the session was killed.
\<close>

definition startPipeline :: "bool \<Rightarrow> psession \<Rightarrow> psession \<times> bool" where
  "startPipeline ok s =
     (if \<not> ok then (s, False)
      else (let dec = ps_Decision s;
                gpu = (Mode dec \<noteq> ModeRemux \<and> \<not> ps_Fallback s \<and> VideoEncoder (ps_HW s) = ''h264_nvenc'' \<and>
                       \<not> (CopyVideo dec \<and> \<not> NeedBurn dec))
            in (s\<lparr>ps_EncoderType := (if gpu then ''nvidia_nvenc'' else ''cpu''), ps_started := True, ps_running := True,
                  ps_restarting := False\<rparr>, True)))"

definition restartGeneration :: "bool \<Rightarrow> int \<Rightarrow> psession \<Rightarrow> psession \<times> bool" where
  "restartGeneration ok n s =
     (if ps_AbsPath s = [] then (s\<lparr>ps_genStartSeg := n, ps_GenerationID := ps_GenerationID s + 1\<rparr>, True)
      else startPipeline ok (s\<lparr>ps_restarting := True, ps_running := False, ps_genStartSeg := n,
                               ps_GenerationID := ps_GenerationID s + 1\<rparr>))"

definition ensureGenerating :: "bool \<Rightarrow> int \<Rightarrow> psession \<Rightarrow> psession" where
  "ensureGenerating ok n s =
     (if \<not> ShouldRestartGen n (ps_genStartSeg s) (highestSegOnDisk s) 8 (ffmpegRunning s) (segmentReady s n) then s
      else fst (restartGeneration ok n s))"

definition vodStartMS :: "psession \<Rightarrow> int" where
  "vodStartMS s =
     (if \<not> ps_VOD s \<or> pl_Segments (ps_VODPlan s) = [] then ps_StartMS s
      else StartMSForIndex (ps_VODPlan s) (ps_genStartSeg s))"

definition vodStartNumber :: "psession \<Rightarrow> int" where
  "vodStartNumber s = (if \<not> ps_VOD s then 0 else ps_genStartSeg s)"

definition vodInitName :: "psession \<Rightarrow> string" where
  "vodInitName s = (if \<not> ps_VOD s then ''init.mp4'' else if ps_initFile s then ''init.unused.mp4'' else ''init.mp4'')"

section \<open>Waiting for a segment\<close>

datatype wait_result = WReady | WFailed | WCancelled | WTimeout

text \<open>
  What one turn of the loop of \<^verbatim>\<open>waitReady\<close> observes: the two readings of the clock, the state of
  the file, the session and the request, and whether the request ends during the pause.
\<close>

record wait_obs =
  wo_ready :: bool
  wo_failed :: bool
  wo_ctxErr :: bool
  wo_high :: int
  wo_now :: gtime
  wo_check :: gtime
  wo_done :: bool

definition wait_turn :: "wait_obs \<Rightarrow> gtime \<times> int \<Rightarrow> wait_result + gtime \<times> int" where
  "wait_turn ob st =
     (if wo_ready ob then Inl WReady
      else if wo_failed ob then Inl WFailed
      else if wo_ctxErr ob then Inl WCancelled
      else (let (deadline, lastHigh) =
                  (if wo_high ob > snd st then (wo_now ob + seconds 15, wo_high ob) else st)
            in if wo_check ob > deadline then Inl WTimeout
               else if wo_done ob then Inl WCancelled
               else Inr (deadline, lastHigh)))"

text \<open>The loop with \<open>fuel\<close> turns, at turn \<open>i\<close> of the observations; None when the fuel runs out.\<close>

fun wait_from :: "nat \<Rightarrow> (nat \<Rightarrow> wait_obs) \<Rightarrow> nat \<Rightarrow> gtime \<times> int \<Rightarrow> (wait_result \<times> nat) option" where
  "wait_from 0 obs i st = None"
| "wait_from (Suc fuel) obs i st =
     (case wait_turn (obs i) st of Inl r \<Rightarrow> Some (r, i) | Inr st' \<Rightarrow> wait_from fuel obs (i + 1) st')"

definition waitReady :: "nat \<Rightarrow> duration \<Rightarrow> gtime \<Rightarrow> (nat \<Rightarrow> wait_obs) \<Rightarrow> (wait_result \<times> nat) option" where
  "waitReady fuel wait start obs =
     wait_from fuel obs 0 (start + (if wait \<le> 0 then seconds 45 else wait), 0)"

text \<open>\<^verbatim>\<open>ensureSegment\<close>: a segment outside the plan does not exist; otherwise it is made and awaited.\<close>

datatype ensure_result = NoSegment | Served | Awaited "(wait_result \<times> nat) option"

definition ensureSegment :: "nat \<Rightarrow> bool \<Rightarrow> duration \<Rightarrow> gtime \<Rightarrow> (nat \<Rightarrow> wait_obs) \<Rightarrow> int \<Rightarrow> psession
    \<Rightarrow> psession \<times> ensure_result" where
  "ensureSegment fuel ok wait start obs n s =
     (if n < 0 \<or> n > LastIndex (ps_VODPlan s) then (s, NoSegment)
      else if segmentReady s n then (s, Served)
      else (ensureGenerating ok n s, Awaited (waitReady fuel wait start obs)))"

section \<open>What preparing leaves behind\<close>

lemmas playback_defs = install_plan_def soft_encoder_def Let_def

lemma promote_slot:
  assumes "promoteNativeRemux s lm = (s', lm', r)"
  shows "NeedVideoXcode (ps_Decision s') \<and> ps_DurationMS s' = ps_DurationMS s \<and> ps_StartMS s' = ps_StartMS s \<and>
    (r = None \<longrightarrow> ps_SlotHeld s') \<and>
    (r \<noteq> None \<longrightarrow> ps_SlotHeld s' = ps_SlotHeld s) \<and> l_Slots lm' = l_Slots lm \<and>
    l_active lm' - l_active lm = (if ps_SlotHeld s' \<and> \<not> ps_SlotHeld s then 1 else 0)"
  using assms
  by (auto simp: promoteNativeRemux_def TryAcquire_def NeedsVideoSlot_def PromoteRemuxToVideoXcode_def Let_def
           split: if_splits)

text \<open>\<^verbatim>\<open>prepareVOD\<close> moves the limiter exactly as it moves the session's slot, whatever the outcome.\<close>

lemma prepare_slot:
  assumes "prepareVOD kfs wrote s lm = (s', lm', r)"
  shows "l_active lm' - l_active lm = (if ps_SlotHeld s' \<and> \<not> ps_SlotHeld s then 1 else 0) \<and>
    (ps_SlotHeld s \<longrightarrow> ps_SlotHeld s') \<and> l_Slots lm' = l_Slots lm \<and>
    (r = None \<longrightarrow> (NeedVideoXcode (ps_Decision s) \<longrightarrow> ps_SlotHeld s) \<longrightarrow>
       NeedVideoXcode (ps_Decision s') \<longrightarrow> ps_SlotHeld s')"
proof (cases "useVODOnDemand s \<and> \<not> NeedVideoXcode (ps_Decision s) \<and> copy_plan kfs s = None")
  case True
  obtain s1 lm1 e where p: "promoteNativeRemux s lm = (s1, lm1, e)" by (metis prod_cases3)
  from promote_slot [OF p] True assms show ?thesis
    by (auto simp: prepareVOD_def p playback_defs split: if_splits option.splits)
next
  case False
  with assms show ?thesis
    by (auto simp: prepareVOD_def playback_defs split: if_splits option.splits)
qed

lemma prepare_keeps:
  assumes "prepareVOD kfs wrote s lm = (s', lm', r)"
  shows "ps_ID s' = ps_ID s \<and> ps_Kind s' = ps_Kind s \<and> ps_UserID s' = ps_UserID s \<and>
    ps_GuestSessionID s' = ps_GuestSessionID s \<and> ps_ItemKind s' = ps_ItemKind s \<and> ps_ItemID s' = ps_ItemID s"
  using assms
  by (auto simp: prepareVOD_def playback_defs promoteNativeRemux_def TryAcquire_def
           split: if_splits option.splits prod.splits bool.splits)

text \<open>A plan of the copy path is a keyframe plan that covers the movie.\<close>

lemma copy_plan_tiles:
  assumes "copy_plan kfs s = Some plan"
  shows "tiles 0 0 (pl_Segments plan) (ps_DurationMS s) \<and> pl_Segments plan \<noteq> []"
proof -
  obtain ks where ks: "plan = KeyframePlan ks (ps_DurationMS s) 4" "pl_Segments plan \<noteq> []"
    using assms by (auto simp: copy_plan_def Let_def split: option.splits if_splits)
  then obtain g where "g \<in> set (pl_Segments plan)" by (cases "pl_Segments plan") auto
  with keyframe_plan_cuts [of g ks "ps_DurationMS s" 4] ks show ?thesis by simp
qed

lemma equal_plan_nonempty: "0 < d \<Longrightarrow> pl_Segments (EqualLengthPlan d t) \<noteq> []"
  using equal_plan(1) [of d t] by (cases "pl_Segments (EqualLengthPlan d t)") auto

lemma prepare_plan:
  assumes "prepareVOD kfs wrote s lm = (s', lm', None)" "useVODOnDemand s" "0 < ps_DurationMS s"
  shows "\<exists>s0 plan. s' = install_plan plan (ps_VODPlanKind s') s0 \<and> ps_StartMS s0 = ps_StartMS s \<and>
    tiles 0 0 (pl_Segments plan) (ps_DurationMS s) \<and> pl_Segments plan \<noteq> [] \<and>
    (ps_VODPlanKind s' = ''keyframe'' \<longleftrightarrow> \<not> NeedVideoXcode (ps_Decision s')) \<and>
    (ps_VODPlanKind s' = ''keyframe'' \<longrightarrow> copy_plan kfs s = Some plan)"
proof (cases "NeedVideoXcode (ps_Decision s)")
  case True
  then have "s' = install_plan (EqualLengthPlan (ps_DurationMS s) (if soft_encoder s then 2 else 4)) ''equal'' s"
    using assms(1,2) by (auto simp: prepareVOD_def Let_def split: if_splits)
  moreover from this have "ps_VODPlanKind s' = ''equal''" "ps_Decision s' = ps_Decision s" by (simp_all add: install_plan_def)
  ultimately show ?thesis using True equal_plan(1) [OF assms(3)] equal_plan_nonempty [OF assms(3)]
    by (intro exI [of _ s] exI [of _ "EqualLengthPlan (ps_DurationMS s) (if soft_encoder s then 2 else 4)"]) simp
next
  case False
  show ?thesis
  proof (cases "copy_plan kfs s")
    case (Some plan)
    then have "s' = install_plan plan ''keyframe'' s"
      using assms(1,2) False by (auto simp: prepareVOD_def split: if_splits)
    moreover from this have "ps_VODPlanKind s' = ''keyframe''" "ps_Decision s' = ps_Decision s" by (simp_all add: install_plan_def)
    ultimately show ?thesis using False Some copy_plan_tiles [OF Some]
      by (intro exI [of _ s] exI [of _ plan]) auto
  next
    case None
    obtain s1 lm1 e where p: "promoteNativeRemux s lm = (s1, lm1, e)" by (metis prod_cases3)
    from promote_slot [OF p] have d: "ps_DurationMS s1 = ps_DurationMS s" "ps_StartMS s1 = ps_StartMS s"
      "NeedVideoXcode (ps_Decision s1)" by simp_all
    have "s' = install_plan (EqualLengthPlan (ps_DurationMS s1) (if soft_encoder s1 then 2 else 4)) ''promoted_xcode'' s1"
      using assms(1,2) False None by (auto simp: prepareVOD_def p Let_def split: if_splits option.splits)
    moreover from this have "ps_VODPlanKind s' = ''promoted_xcode''" "ps_Decision s' = ps_Decision s1"
      by (simp_all add: install_plan_def)
    ultimately show ?thesis using d equal_plan(1) [OF assms(3)] equal_plan_nonempty [OF assms(3)]
      by (intro exI [of _ s1] exI [of _ "EqualLengthPlan (ps_DurationMS s1) (if soft_encoder s1 then 2 else 4)"]) simp
  qed
qed

text \<open>C20. Preparing a session for playback on demand: the plan tiles the movie from 0 to its end, the
  generator starts at the segment that contains the resume point, the video is copied exactly when
  the plan follows the file's keyframes, a session that has to encode holds a transcode slot, and
  the limiter counts exactly the slot the session took.\<close>

theorem prepareVOD_sound:
  assumes prep: "prepareVOD kfs wrote s lm = (s', lm', None)" and vod: "useVODOnDemand s" and d: "0 < ps_DurationMS s"
    and slot: "NeedVideoXcode (ps_Decision s) \<longrightarrow> ps_SlotHeld s"
    and start: "0 < ps_StartMS s" "ps_StartMS s < ps_DurationMS s"
  shows "ps_VOD s' \<and> tiles 0 0 (pl_Segments (ps_VODPlan s')) (ps_DurationMS s) \<and>
    vodStartMS s' \<le> ps_StartMS s \<and>
    ps_StartMS s < vodStartMS s' + sg_DurationMS (pl_Segments (ps_VODPlan s') ! nat (vodStartNumber s')) \<and>
    (ps_VODPlanKind s' = ''keyframe'' \<longleftrightarrow> \<not> NeedVideoXcode (ps_Decision s')) \<and>
    (NeedVideoXcode (ps_Decision s') \<longrightarrow> ps_SlotHeld s') \<and>
    l_active lm' = l_active lm + (if ps_SlotHeld s' \<and> \<not> ps_SlotHeld s then 1 else 0)"
proof -
  from prepare_plan [OF prep vod d] obtain s0 plan where s': "s' = install_plan plan (ps_VODPlanKind s') s0"
    and s0: "ps_StartMS s0 = ps_StartMS s" and plan: "tiles 0 0 (pl_Segments plan) (ps_DurationMS s)" "pl_Segments plan \<noteq> []"
    and kind: "ps_VODPlanKind s' = ''keyframe'' \<longleftrightarrow> \<not> NeedVideoXcode (ps_Decision s')"
    by blast
  have f: "ps_VOD s'" "ps_VODPlan s' = plan" "ps_genStartSeg s' = IndexForMS plan (ps_StartMS s)"
    by (subst s', simp add: install_plan_def s0 start)+
  have seg: "0 \<le> IndexForMS plan (ps_StartMS s)" "StartMSForIndex plan (IndexForMS plan (ps_StartMS s)) \<le> ps_StartMS s"
    "ps_StartMS s < StartMSForIndex plan (IndexForMS plan (ps_StartMS s))
       + sg_DurationMS (pl_Segments plan ! nat (IndexForMS plan (ps_StartMS s)))"
    using index_in_plan [OF plan, of "ps_StartMS s"] start by auto
  show ?thesis
    using f plan seg kind prepare_slot [OF prep] slot
    by (simp add: vodStartMS_def vodStartNumber_def)
qed

section \<open>A missing segment is being made\<close>

lemma should_restart_iff:
  "ShouldRestartGen n g h 8 running onDisk \<longleftrightarrow>
     \<not> (onDisk \<or> running \<and> g \<le> n \<and> n \<le> max h g + 8)"
  by (auto simp: ShouldRestartGen_def max_def)

lemma restarted:
  fixes s :: psession
  assumes "\<not> ps_killed s" "ps_AbsPath s \<noteq> []"
  shows "ffmpegRunning (fst (restartGeneration True n s)) \<and> ps_genStartSeg (fst (restartGeneration True n s)) = n \<and>
    ps_GenerationID (fst (restartGeneration True n s)) = ps_GenerationID s + 1"
  using assms by (simp add: restartGeneration_def startPipeline_def ffmpegRunning_def Let_def)

text \<open>C21. After \<^verbatim>\<open>ensureGenerating\<close> for a segment, with a start that succeeds, either nothing had to be done
  because the segment is ready, or a generator runs that started at or before it and is at most
  eight segments behind it, so whoever waits for it waits for a run that will reach it. The
  generator is replaced, under a new generation number, only if none of this held before.\<close>

theorem ensureGenerating_reaches:
  fixes s :: psession and n :: int
  assumes "\<not> ps_killed s" "ps_AbsPath s \<noteq> []"
  defines "s' \<equiv> ensureGenerating True n s"
  shows "(segmentReady s' n \<or>
      ffmpegRunning s' \<and> ps_genStartSeg s' \<le> n \<and> n \<le> max (highestSegOnDisk s') (ps_genStartSeg s') + 8) \<and>
    (if segmentReady s n \<or> ffmpegRunning s \<and> ps_genStartSeg s \<le> n \<and> n \<le> max (highestSegOnDisk s) (ps_genStartSeg s) + 8
     then s' = s
     else ps_genStartSeg s' = n \<and> ps_GenerationID s' = ps_GenerationID s + 1)"
proof (cases "ShouldRestartGen n (ps_genStartSeg s) (highestSegOnDisk s) 8 (ffmpegRunning s) (segmentReady s n)")
  case True
  then have "s' = fst (restartGeneration True n s)" by (simp add: s'_def ensureGenerating_def)
  moreover have "n \<le> max m n + 8" for m by (simp add: max_def)
  ultimately show ?thesis using restarted [OF assms(1,2), of n] True by (simp add: should_restart_iff) blast
next
  case False
  then have "s' = s" by (simp add: s'_def ensureGenerating_def)
  with False show ?thesis by (simp add: should_restart_iff)
qed

section \<open>Waiting ends\<close>

text \<open>
  The pause between two turns is at least 150 milliseconds, the clock is read in order, and the
  files of a session end at the last segment \<open>L\<close> of its plan.
\<close>

definition wait_clock :: "(nat \<Rightarrow> wait_obs) \<Rightarrow> bool" where
  "wait_clock obs \<longleftrightarrow>
     (\<forall>i. wo_now (obs i) \<le> wo_check (obs i) \<and> wo_check (obs i) + 150000000 \<le> wo_now (obs (i + 1)))"

lemma wait_turn_Inr:
  assumes "wait_turn ob (d, h) = Inr (d', h')"
  shows "wo_check ob \<le> d' \<and> (if wo_high ob > h then h' = wo_high ob \<and> d' = wo_now ob + seconds 15 else h' = h \<and> d' = d)"
  using assms by (auto simp: wait_turn_def split: if_splits)

lemma wait_from_ends:
  assumes clock: "wait_clock obs" and bound: "\<forall>i. wo_high (obs i) \<le> L"
  shows "\<exists>fuel r. wait_from fuel obs i (d, h) = Some r"
proof (induction "nat (L - h)" arbitrary: i d h rule: less_induct)
  case outer: less
  show ?case
  proof (induction "nat (d - wo_now (obs i) + 1)" arbitrary: i rule: less_induct)
    case inner: less
    show ?case
    proof (cases "wait_turn (obs i) (d, h)")
      case (Inl r)
      then have "wait_from (Suc 0) obs i (d, h) = Some (r, i)" by simp
      then show ?thesis by blast
    next
      case (Inr st)
      obtain d' h' where st: "st = (d', h')" by fastforce
      have turn: "wo_check (obs i) \<le> d'"
        "if wo_high (obs i) > h then h' = wo_high (obs i) \<and> d' = wo_now (obs i) + seconds 15 else h' = h \<and> d' = d"
        using wait_turn_Inr [of "obs i" d h d' h'] Inr st by simp_all
      have next_turn: "\<exists>fuel r. wait_from fuel obs (i + 1) (d', h') = Some r"
      proof (cases "wo_high (obs i) > h")
        case True
        with turn bound have "nat (L - h') < nat (L - h)" by (smt (verit) zless_nat_conj)
        from outer [OF this] show ?thesis .
      next
        case False
        with turn have same: "d' = d" "h' = h" "wo_check (obs i) \<le> d" by simp_all
        have "wo_now (obs i) \<le> wo_check (obs i)" "wo_check (obs i) + 150000000 \<le> wo_now (obs (i + 1))"
          using clock by (simp_all add: wait_clock_def)
        with same have "nat (d - wo_now (obs (i + 1)) + 1) < nat (d - wo_now (obs i) + 1)" by simp
        from inner [OF this] show ?thesis by (simp add: same)
      qed
      then obtain fuel r where "wait_from fuel obs (i + 1) (d', h') = Some r" by blast
      with Inr st have "wait_from (Suc fuel) obs i (d, h) = Some r" by simp
      then show ?thesis by blast
    qed
  qed
qed

lemma wait_from_result:
  assumes "wait_from fuel obs i (d, h) = Some (r, j)" and clock: "wait_clock obs"
    and since: "d \<ge> start + wait \<or> (\<exists>k. k \<le> i \<and> d \<ge> wo_now (obs k) + seconds 15)"
  shows "i \<le> j \<and> (r = WReady \<longleftrightarrow> wo_ready (obs j)) \<and> (r = WFailed \<longrightarrow> wo_failed (obs j)) \<and>
    (r = WCancelled \<longrightarrow> wo_ctxErr (obs j) \<or> wo_done (obs j)) \<and>
    (r = WTimeout \<longrightarrow> wo_check (obs j) > start + wait \<or>
       (\<exists>k \<le> j. wo_check (obs j) > wo_now (obs k) + seconds 15))"
  using assms(1,3)
proof (induction fuel arbitrary: i d h)
  case (Suc fuel)
  show ?case
  proof (cases "wait_turn (obs i) (d, h)")
    case (Inl r')
    with Suc.prems(1) have rj: "r = r'" "j = i" by simp_all
    have "(r' = WReady \<longleftrightarrow> wo_ready (obs i)) \<and> (r' = WFailed \<longrightarrow> wo_failed (obs i)) \<and>
        (r' = WCancelled \<longrightarrow> wo_ctxErr (obs i) \<or> wo_done (obs i))"
      using Inl by (auto simp: wait_turn_def split: if_splits)
    moreover have "wo_check (obs i) > d \<or> wo_check (obs i) > wo_now (obs i) + seconds 15" if "r' = WTimeout"
      using Inl that by (auto simp: wait_turn_def split: if_splits)
    ultimately show ?thesis using Suc.prems(2) rj by fastforce
  next
    case (Inr st)
    obtain d' h' where st: "st = (d', h')" by fastforce
    have "d' \<ge> start + wait \<or> (\<exists>k. k \<le> i + 1 \<and> d' \<ge> wo_now (obs k) + seconds 15)"
      using wait_turn_Inr [of "obs i" d h d' h'] Inr st Suc.prems(2)
      by (auto split: if_splits intro: le_SucI exI [of _ i])
    from Suc.IH [of "i + 1" d' h', OF _ this] Suc.prems(1) Inr st show ?thesis by simp
  qed
qed simp

text \<open>Whoever waits for a segment gets an answer: whatever the generator does and however long the
  movie, the loop of \<^verbatim>\<open>waitReady\<close> ends after finitely many turns. It answers that the segment is ready
  exactly when it is, and it times out only after the whole waiting time, or 15 seconds after an
  earlier turn at which the generator made progress.\<close>

theorem waitReady_ends:
  assumes clock: "wait_clock obs" and files: "\<forall>i. wo_high (obs i) \<le> L" and wait: "0 < wait"
  shows "\<exists>fuel r j. waitReady fuel wait start obs = Some (r, j) \<and> (r = WReady \<longleftrightarrow> wo_ready (obs j)) \<and>
    (r = WTimeout \<longrightarrow> wo_check (obs j) > start + wait \<or>
       (\<exists>k \<le> j. wo_check (obs j) > wo_now (obs k) + seconds 15))"
proof -
  obtain fuel r j where run: "wait_from fuel obs 0 (start + wait, 0) = Some (r, j)"
    using wait_from_ends [OF clock files, of 0 "start + wait" 0] by fastforce
  from wait_from_result [OF run clock, of start wait] run wait show ?thesis
    by (intro exI [of _ fuel] exI [of _ r] exI [of _ j]) (simp add: waitReady_def)
qed

end
