(* ===== verification/Playback.thy ===== *)
theory Playback
  imports Playback_Session
begin

text \<open>
  The playback service (\<^verbatim>\<open>src/internal/playback/create.go\<close>, \<^verbatim>\<open>registry.go\<close>, \<^verbatim>\<open>remote.go\<close>,
  \<^verbatim>\<open>handlers.go\<close>, \<^verbatim>\<open>api.go\<close>): who may play a file, how a session is created, superseded, expired
  and killed, how a request is matched to a session, and what happens when its encoder exits.
  The registry is an association list by session ID; a transcode slot is taken from the limiter of
  \<open>Admission\<close>, the decision is \<open>Decide\<close> of \<open>Decision\<close>, the plan comes from \<open>Playback_Session\<close>.
  Answers of the catalogue, the share gate, the database, ffprobe and the file system are fields of
  the environment. JSON, metadata of the session, subtitles and logging are not modelled.
\<close>

section \<open>State and effects\<close>

record playback =
  pa_Lim :: slot_limiter
  pa_Reg :: "(string \<times> psession) list"
  pa_HW :: session_hw

datatype pb_effect =
    PutProgress string string string string int int
  | GateRelease string
  | CacheRemove string
  | StopRemote string

datatype response = Fail int string | Session string

text \<open>What a call needs of the outside: the clock, and whether the progress write of a session succeeds.\<close>

record pb_env =
  pe_now :: gtime
  pe_Progress :: bool
  pe_put_ok :: "string \<Rightarrow> bool"

definition stokenTTL :: duration where "stokenTTL = seconds 1200"
definition defaultLease :: duration where "defaultLease = seconds 45"
definition RemoteLease :: duration where "RemoteLease = seconds 300"

section \<open>Killing a session\<close>

text \<open>\<^verbatim>\<open>flushProgress\<close> of a session: only a signed-in user's position is stored.\<close>

definition flush_session :: "pb_env \<Rightarrow> psession \<Rightarrow> psession \<times> pb_effect list" where
  "flush_session env s =
     (if \<not> pe_Progress env \<or> ps_Kind s \<noteq> ''user'' \<or> ps_UserID s = [] then (s, [])
      else (case flushProgress (pe_put_ok env (ps_ID s)) (ps_DurationMS s) (pe_now env) (ps_checkpoint s) of
              (cp, None) \<Rightarrow> (s, [])
            | (cp, Some (pos, dur)) \<Rightarrow>
                (s\<lparr>ps_checkpoint := cp\<rparr>,
                 [PutProgress (ps_UserID s) (ps_ItemKind s) (ps_ItemID s) (ps_MediaFileID s) pos dur])))"

definition kill_mark :: "psession \<Rightarrow> psession" where
  "kill_mark s = s\<lparr>ps_killed := True, ps_running := False\<rparr>"

text \<open>The slot: read of the flag, release, write of the flag. Nothing locks the three together.\<close>

definition kill_slot :: "psession \<Rightarrow> slot_limiter \<Rightarrow> psession \<times> slot_limiter" where
  "kill_slot s lm = (if ps_SlotHeld s then (s\<lparr>ps_SlotHeld := False\<rparr>, Release lm) else (s, lm))"

definition kill_effects :: "psession \<Rightarrow> pb_effect list" where
  "kill_effects s =
     (if ps_GuestSessionID s \<noteq> [] then [GateRelease (ps_GuestSessionID s)] else []) @
     (if ps_Dir s \<noteq> [] then [CacheRemove (ps_ID s)] else []) @
     (if ps_RemoteURL s \<noteq> [] then [StopRemote (ps_ID s)] else [])"

definition kill :: "pb_env \<Rightarrow> psession \<Rightarrow> slot_limiter \<Rightarrow> psession \<times> slot_limiter \<times> pb_effect list" where
  "kill env s lm =
     (case flush_session env s of (s, es) \<Rightarrow>
        case kill_slot (kill_mark s) lm of (s, lm) \<Rightarrow> (s, lm, es @ kill_effects s))"

text \<open>\<^verbatim>\<open>Reg.Delete\<close> and \<^verbatim>\<open>kill\<close>.\<close>

definition remove_session :: "pb_env \<Rightarrow> playback \<times> pb_effect list \<Rightarrow> string \<Rightarrow> playback \<times> pb_effect list" where
  "remove_session env st sid =
     (case st of (api, es) \<Rightarrow>
        case map_of (pa_Reg api) sid of
          None \<Rightarrow> (api, es)
        | Some s \<Rightarrow>
            (case kill env s (pa_Lim api) of (_, lm, es') \<Rightarrow>
               (api\<lparr>pa_Reg := del_key sid (pa_Reg api), pa_Lim := lm\<rparr>, es @ es')))"

definition supersedePlayback :: "pb_env \<Rightarrow> principal \<Rightarrow> string \<Rightarrow> string \<Rightarrow> string \<Rightarrow> playback
    \<Rightarrow> playback \<times> pb_effect list" where
  "supersedePlayback env p itemKind itemID replaceID api =
     (let mine = (\<lambda>s. owns s (p_Kind p) (ID (Some p)));
          st = (if replaceID = [] then (api, [])
                else (case map_of (pa_Reg api) replaceID of
                        None \<Rightarrow> (api, [])
                      | Some s \<Rightarrow> if mine s then remove_session env (api, []) replaceID else (api, [])));
          old = filter (\<lambda>(sid, s). mine s \<and> ps_ItemKind s = itemKind \<and> ps_ItemID s = itemID) (pa_Reg (fst st))
      in foldl (remove_session env) st (map fst old))"

definition stale :: "gtime \<Rightarrow> duration \<Rightarrow> psession \<Rightarrow> bool" where
  "stale now lease s =
     (if ps_RemoteURL s \<noteq> [] then ps_LastPing s < now - max lease RemoteLease else ps_LastPing s < now - lease)"

definition Expire :: "pb_env \<Rightarrow> duration \<Rightarrow> playback \<Rightarrow> playback \<times> pb_effect list" where
  "Expire env lease api =
     (if lease \<le> 0 then (api, [])
      else foldl (remove_session env) (api, [])
             (map fst (filter (\<lambda>(sid, s). stale (pe_now env) lease s) (pa_Reg api))))"

definition Close :: "pb_env \<Rightarrow> playback \<Rightarrow> playback \<times> pb_effect list" where
  "Close env api = foldl (remove_session env) (api, []) (map fst (pa_Reg api))"

section \<open>Who may play\<close>

record located =
  lf_ID :: string
  lf_LibraryID :: string
  lf_AbsPath :: string
  lf_ItemKind :: string
  lf_ItemID :: string
  lf_DurationMS :: int
  lf_Container :: string
  lf_VideoCodec :: string
  lf_AudioCodec :: string
  lf_Width :: int
  lf_Height :: int
  lf_Size :: int
  lf_Copy :: bool

datatype gate_answer = GateOK | GateBusy | GateDenied

record locate_env =
  le_AllowStream :: "string \<Rightarrow> string \<Rightarrow> string \<Rightarrow> gate_answer"
  le_Locator :: bool
  le_LocateFile :: "string \<Rightarrow> located option"
  le_LocateItem :: "string \<Rightarrow> string \<Rightarrow> located option"
  le_DB :: bool
  le_PlaybackPermitted :: "string \<Rightarrow> string \<Rightarrow> bool"
  le_partyGranted :: bool
  le_partyAccess :: "string \<Rightarrow> string \<Rightarrow> string \<Rightarrow> bool"
  le_Grants :: bool
  le_CanRead :: "string \<Rightarrow> string \<Rightarrow> bool"

datatype locate_error = Hidden | Busy | NoLocator

definition locate :: "locate_env \<Rightarrow> principal \<Rightarrow> string \<Rightarrow> string \<Rightarrow> string \<Rightarrow> locate_error + located" where
  "locate le p itemKind itemID mediaFileID =
     (let guest = IsGuest (Some p);
          gate = (if \<not> guest then GateOK
                  else if p_MediaKind p \<noteq> itemKind \<or> p_MediaID p \<noteq> itemID then GateDenied
                  else le_AllowStream le (p_GuestSessionID p) itemKind itemID)
      in if gate = GateDenied then Inl Hidden
         else if gate = GateBusy then Inl Busy
         else if \<not> le_Locator le then Inl NoLocator
         else (case (if mediaFileID \<noteq> [] then le_LocateFile le mediaFileID else le_LocateItem le itemKind itemID) of
                 None \<Rightarrow> Inl Hidden
               | Some loc \<Rightarrow>
                   if (lf_ItemKind loc \<noteq> [] \<and> lf_ItemKind loc \<noteq> itemKind \<or> lf_ItemID loc \<noteq> [] \<and> lf_ItemID loc \<noteq> itemID)
                      \<and> \<not> guest then Inl Hidden
                   else if IsUser (Some p) \<and> le_DB le \<and> \<not> le_PlaybackPermitted le (p_UserID p) (lf_ID loc) then Inl Hidden
                   else if IsUser (Some p) \<and> p_PartyOnly p \<and> \<not> le_partyGranted le then
                     (if \<not> le_partyAccess le (ID (Some p)) itemKind itemID then Inl Hidden else Inr loc)
                   else if IsUser (Some p) \<and> le_Grants le \<and> \<not> p_IsAdmin p \<and> \<not> le_CanRead le (p_UserID p) (lf_LibraryID loc)
                        then Inl Hidden
                   else Inr loc))"

definition writeHidden :: "locate_error \<Rightarrow> response" where
  "writeHidden e = (case e of Busy \<Rightarrow> Fail 429 ''share_busy'' | NoLocator \<Rightarrow> Fail 503 ''locator''
                            | Hidden \<Rightarrow> Fail 404 ''not_found'')"

section \<open>Requests to a session\<close>

text \<open>\<^verbatim>\<open>authorized\<close>: \<open>tok\<close> is the token of the request, \<open>safe\<close> whether its method is safe.\<close>

definition authorized :: "principal option \<Rightarrow> string \<Rightarrow> bool \<Rightarrow> gtime \<Rightarrow> psession \<Rightarrow> bool \<times> psession" where
  "authorized p tok safe now s =
     (if (case p of None \<Rightarrow> False | Some q \<Rightarrow> owns s (p_Kind q) (ID p) \<and> (tok = [] \<or> safe)) then (True, s)
      else if tok = [] \<or> ps_Stoken s = [] then (False, s)
      else (let ok = (tok = ps_Stoken s \<and> now < ps_StokenExp s)
            in (ok, if ok then s\<lparr>ps_StokenExp := now + stokenTTL\<rparr> else s)))"

datatype live_answer = LiveGone string int | LiveNotFound | Live psession

definition live :: "principal option \<Rightarrow> string \<Rightarrow> bool \<Rightarrow> gtime \<Rightarrow> string \<Rightarrow> playback \<Rightarrow> playback \<times> live_answer" where
  "live p tok safe now sid api =
     (case map_of (pa_Reg api) sid of
        None \<Rightarrow> (api, LiveGone ''SESSION_GONE'' 0)
      | Some s \<Rightarrow>
          if ps_Failed s then (api, LiveGone (ps_FailCode s) (snapshotResume s))
          else (case authorized p tok safe now s of
                  (True, s) \<Rightarrow> (let s = touch now s in (api\<lparr>pa_Reg := set_key sid s (pa_Reg api)\<rparr>, Live s))
                | (False, s) \<Rightarrow> (api, LiveNotFound)))"

definition actor :: "principal option \<Rightarrow> psession \<Rightarrow> principal option" where
  "actor p s = (case p of Some q \<Rightarrow> if owns s (p_Kind q) (ID p) then p else ps_Owner s | None \<Rightarrow> ps_Owner s)"

definition handleDelete_session :: "pb_env \<Rightarrow> principal option \<Rightarrow> string \<Rightarrow> bool \<Rightarrow> string \<Rightarrow> playback
    \<Rightarrow> playback \<times> int \<times> pb_effect list" where
  "handleDelete_session env p tok safe sid api =
     (case map_of (pa_Reg api) sid of
        None \<Rightarrow> (api, 204, [])
      | Some s \<Rightarrow>
          (case authorized p tok safe (pe_now env) s of
             (False, _) \<Rightarrow> (api, 404, [])
           | (True, s) \<Rightarrow>
               (case remove_session env (api\<lparr>pa_Reg := set_key sid s (pa_Reg api)\<rparr>, []) sid of
                  (api, es) \<Rightarrow> (api, 204, es))))"

definition handleProgress :: "pb_env \<Rightarrow> principal option \<Rightarrow> string \<Rightarrow> bool \<Rightarrow> string \<Rightarrow> string \<Rightarrow> int \<Rightarrow> int \<Rightarrow> playback
    \<Rightarrow> playback \<times> int \<times> pb_effect list" where
  "handleProgress env p tok safe sid event pos dur api =
     (case live p tok safe (pe_now env) sid api of
        (api, LiveGone _ _) \<Rightarrow> (api, 410, [])
      | (api, LiveNotFound) \<Rightarrow> (api, 404, [])
      | (api, Live s) \<Rightarrow>
          (let dur = (if dur \<le> 0 then ps_DurationMS s else dur);
               pos = (if pos < 0 then 0 else pos);
               pos = (if event = ''stop'' \<and> pos < 1000 \<and> ps_ResumeMS s > 5000 then ps_ResumeMS s else pos);
               s = s\<lparr>ps_ResumeMS := pos\<rparr>
           in if IsUser (actor p s) then
                (case recordProgress (ps_Kind s = ''user'' \<and> ps_UserID s \<noteq> [] \<and> pe_Progress env) (pe_put_ok env (ps_ID s))
                        (ps_DurationMS s) event pos dur (pe_now env) (ps_checkpoint s) of
                   (cp, w) \<Rightarrow>
                     (api\<lparr>pa_Reg := set_key sid (s\<lparr>ps_checkpoint := cp\<rparr>) (pa_Reg api)\<rparr>, 200,
                      (case w of None \<Rightarrow> []
                       | Some (pos, dur) \<Rightarrow>
                           [PutProgress (ps_UserID s) (ps_ItemKind s) (ps_ItemID s) (ps_MediaFileID s) pos dur])))
              else (api\<lparr>pa_Reg := set_key sid s (pa_Reg api)\<rparr>, 200, [])))"

end
