(* ===== verification/Playback_Create.thy ===== *)
theory Playback_Create
  imports Playback
begin

text \<open>
  Creating a session (\<^verbatim>\<open>createLocal\<close>, \<^verbatim>\<open>createRemote\<close>, \<^verbatim>\<open>langTracks\<close>, \<^verbatim>\<open>validTracks\<close> of
  \<^verbatim>\<open>src/internal/playback/create.go\<close> and \<^verbatim>\<open>remote.go\<close>) and the exit of its encoder
  (\<^verbatim>\<open>waitFFmpeg\<close>, \<^verbatim>\<open>fallbackCPU\<close>, \<^verbatim>\<open>failover\<close>). The request body is a decoded record (None is invalid
  JSON); every answer from outside is a field of the environment.
\<close>

section \<open>Tracks\<close>

record create_body =
  cb_ItemKind :: string
  cb_ItemID :: string
  cb_MediaFileID :: string
  cb_StartMS :: "int option"
  cb_Quality :: string
  cb_AudioIndex :: int
  cb_SubtitleIndex :: "int option"
  cb_Client :: profile
  cb_ReplaceSessionID :: string
  cb_Source :: string
  cb_audioChosen :: bool
  cb_subChosen :: bool
  cb_audioLang :: string
  cb_subLang :: string
  cb_subMode :: string

definition lang_alias :: "(string \<times> string) list" where
  "lang_alias = [(''ger'', ''de''), (''deu'', ''de''), (''dut'', ''nl''), (''nld'', ''nl''), (''chi'', ''zh''), (''zho'', ''zh''),
     (''jpn'', ''ja''), (''kor'', ''ko''), (''spa'', ''es''), (''por'', ''pt''), (''swe'', ''sv''), (''ara'', ''ar''),
     (''fre'', ''fr''), (''fra'', ''fr''), (''ita'', ''it''), (''rus'', ''ru''), (''eng'', ''en''), (''hin'', ''hi'')]"

definition langCode :: "string \<Rightarrow> string" where
  "langCode s =
     (let s = toLower (trimSpace s)
      in case map_of lang_alias s of Some a \<Rightarrow> a | None \<Rightarrow> if length s > 2 then take 2 s else s)"

text \<open>\<^verbatim>\<open>applyProfileDefaults\<close>: the preferences row and the tracks remembered for the title (audio, subtitle).\<close>

record profile_prefs =
  pp_quality :: string
  pp_source :: string
  pp_audio_lang :: string
  pp_subtitle_lang :: string
  pp_subtitle_mode :: string

definition applyProfileDefaults :: "(profile_prefs option \<times> int \<times> int) option \<Rightarrow> principal \<Rightarrow> bool \<Rightarrow> bool
    \<Rightarrow> create_body \<Rightarrow> create_body" where
  "applyProfileDefaults db p audioPresent subPresent b =
     (case db of
        None \<Rightarrow> b
      | Some (row, audio, sub) \<Rightarrow>
          if \<not> IsUser (Some p) \<or> p_UserID p = [] then b
          else (let (q, src, al, sl, sm) = (case row of
                       None \<Rightarrow> ([], [], cb_audioLang b, cb_subLang b, cb_subMode b)
                     | Some r \<Rightarrow> (pp_quality r, pp_source r, pp_audio_lang r, pp_subtitle_lang r, pp_subtitle_mode r));
                    b = b\<lparr>cb_audioLang := al, cb_subLang := sl, cb_subMode := sm,
                          cb_audioChosen := audioPresent, cb_subChosen := subPresent\<rparr>;
                    b = (if cb_Quality b = [] \<and> q \<noteq> ''auto'' then b\<lparr>cb_Quality := q\<rparr> else b);
                    b = (if cb_Source b = [] \<and> src = ''remote'' then b\<lparr>cb_Source := ''remote''\<rparr> else b);
                    b = (if \<not> cb_audioChosen b \<and> audio \<ge> 0 then b\<lparr>cb_AudioIndex := audio, cb_audioChosen := True\<rparr> else b)
                in if \<not> cb_subChosen b \<and> sub \<ge> - 1
                   then (if sub \<ge> 0 then b\<lparr>cb_SubtitleIndex := Some sub, cb_subChosen := True\<rparr> else b\<lparr>cb_subChosen := True\<rparr>)
                   else b))"

definition first_audio :: "string \<Rightarrow> media_info \<Rightarrow> stream option" where
  "first_audio want info = List.find (\<lambda>s. Kind s = ''audio'' \<and> langCode (Language s) = want) (Streams info)"

definition first_sub :: "string \<Rightarrow> bool \<Rightarrow> media_info \<Rightarrow> stream option" where
  "first_sub want forcedOnly info =
     List.find (\<lambda>s. Kind s = ''subtitle'' \<and> langCode (Language s) = want \<and> (\<not> forcedOnly \<or> Forced s)) (Streams info)"

definition langTracks :: "media_info \<Rightarrow> create_body \<Rightarrow> create_body" where
  "langTracks info b =
     (let b = (if \<not> cb_audioChosen b \<and> cb_audioLang b \<noteq> []
               then (case first_audio (langCode (cb_audioLang b)) info of
                       None \<Rightarrow> b | Some s \<Rightarrow> b\<lparr>cb_AudioIndex := Index s\<rparr>)
               else b)
      in if cb_subChosen b \<or> cb_SubtitleIndex b \<noteq> None \<or> cb_subMode b = ''off'' \<or> cb_subLang b = [] then b
         else (case first_sub (langCode (cb_subLang b)) True info of
                 Some s \<Rightarrow> b\<lparr>cb_SubtitleIndex := Some (Index s)\<rparr>
               | None \<Rightarrow>
                  if cb_subMode b \<noteq> ''always'' then b
                  else (case first_sub (langCode (cb_subLang b)) False info of
                          Some s \<Rightarrow> b\<lparr>cb_SubtitleIndex := Some (Index s)\<rparr> | None \<Rightarrow> b)))"

definition has_track :: "media_info \<Rightarrow> int \<Rightarrow> string \<Rightarrow> bool" where
  "has_track info i kind = list_ex (\<lambda>s. Index s = i \<and> Kind s = kind) (Streams info)"

definition validTracks :: "media_info \<Rightarrow> int \<Rightarrow> int option \<Rightarrow> int \<times> int option" where
  "validTracks info audio sub =
     ((if audio > 0 \<and> \<not> has_track info audio ''audio'' then 0 else audio),
      (case sub of None \<Rightarrow> None | Some i \<Rightarrow> if \<not> has_track info i ''subtitle'' then None else Some i))"

section \<open>Creating a session\<close>

text \<open>
  What \<^verbatim>\<open>Sources.Resolve\<close> answers: that the title is missing, another error, nothing (play
  locally), or a stream; and what \<^verbatim>\<open>createRemote\<close> makes of it: local playback, the title is hidden
  from the viewer, no source can play it now, or the stream.
\<close>

record remote_stream =
  rs_Source :: string
  rs_Delivery :: string
  rs_URL :: string
  rs_DurationMS :: int

datatype resolve_answer = ResolveMissing | ResolveError | ResolveLocal | ResolveStream remote_stream

datatype remote_outcome = RemoteNone | RemoteHidden | RemoteUnavailable | RemoteStream remote_stream

record create_env = pb_env +
  ce_id :: string
  ce_token :: "string option"
  ce_UA :: string
  ce_LAN :: bool
  ce_guestQuality :: "string \<Rightarrow> string"
  ce_RemoteBitrate :: int
  ce_defaults :: "(profile_prefs option \<times> int \<times> int) option"
  ce_audioPresent :: bool
  ce_subPresent :: bool
  ce_Sources :: bool
  ce_Resolve :: "string \<Rightarrow> string \<Rightarrow> string \<Rightarrow> string \<Rightarrow> bool \<Rightarrow> resolve_answer"
  ce_onDisk :: "string \<Rightarrow> bool"
  ce_ItemRating :: "string \<Rightarrow> string \<Rightarrow> string option"
  ce_ItemPermitted :: "string \<Rightarrow> string \<Rightarrow> string \<Rightarrow> bool"
  ce_loc :: locate_env
  ce_standby :: "located option"
  ce_probe :: "string \<Rightarrow> media_info option"
  ce_resume :: "string \<Rightarrow> string \<Rightarrow> string \<Rightarrow> int option"
  ce_dir :: "string option"
  ce_keyframes :: "int list option"
  ce_wrote :: bool
  ce_pipeline :: bool

definition env_of :: "create_env \<Rightarrow> pb_env" where
  "env_of e = \<lparr>pe_now = pe_now e, pe_Progress = pe_Progress e, pe_put_ok = pe_put_ok e\<rparr>"

definition no_plan :: hls_plan where
  "no_plan = \<lparr>pl_TargetSec = 0, pl_DurationMS = 0, pl_Segments = []\<rparr>"

definition no_decision :: dec_result where
  "no_decision = \<lparr>Mode = [], Delivery = [], res_HLSAttach = [], Reasons = [], res_Height = 0, NeedVideoXcode = False,
     NeedAudioXcode = False, NeedBurn = False, CopyVideo = False, CopyAudio = False, HEVCRemuxTag = False, Refuse = [],
     SubAction = [], Playback = [], Video = no_action, Audio = no_action, res_Container = no_action, res_Hardware = []\<rparr>"

text \<open>The fields a new session has in both cases; the others are zero values.\<close>

definition base_session :: "create_env \<Rightarrow> principal \<Rightarrow> create_body \<Rightarrow> int \<Rightarrow> session_hw \<Rightarrow> psession" where
  "base_session e p b start hw =
     \<lparr>ps_ID = ce_id e, ps_Kind = p_Kind p, ps_UserID = p_UserID p, ps_GuestSessionID = [], ps_ItemKind = cb_ItemKind b,
      ps_ItemID = cb_ItemID b, ps_MediaFileID = [], ps_LibraryID = [], ps_AbsPath = [], ps_Delivery = [], ps_Mode = [],
      ps_Reasons = [], ps_HLSAttach = [], ps_StartMS = start, ps_ResumeMS = start, ps_DurationMS = 0, ps_Standby = None,
      ps_FailoverUsed = False, ps_Decision = no_decision, ps_Dir = [], ps_Stoken = [], ps_StokenExp = 0, ps_SlotHeld = False,
      ps_Failed = False, ps_FailCode = [], ps_Created = pe_now e, ps_LastPing = pe_now e, ps_SeekableFromMS = start,
      ps_Encoder = [], ps_EncoderType = [], ps_Fallback = False, ps_FallbackReason = [], ps_HW = hw, ps_VOD = False,
      ps_VODPlan = no_plan, ps_VODPlanKind = [], ps_genStartSeg = 0, ps_GenerationID = 0, ps_RemoteURL = [],
      ps_Owner = Some p, ps_checkpoint = no_checkpoint, ps_killed = False, ps_restarting = False, ps_cpuFallback = False,
      ps_running = False, ps_started = False, ps_files = [], ps_initFile = False\<rparr>"

definition start_position :: "create_env \<Rightarrow> principal \<Rightarrow> create_body \<Rightarrow> int" where
  "start_position e p b =
     (case cb_StartMS b of
        Some ms \<Rightarrow> if ms > 0 then ms else 0
      | None \<Rightarrow> if IsUser (Some p) \<and> pe_Progress e
                then (case ce_resume e (p_UserID p) (cb_ItemKind b) (cb_ItemID b) of Some r \<Rightarrow> r | None \<Rightarrow> 0)
                else 0)"

definition put_session :: "psession \<Rightarrow> playback \<Rightarrow> playback" where
  "put_session s api = api\<lparr>pa_Reg := set_key (ps_ID s) s (pa_Reg api)\<rparr>"

definition createRemote :: "create_env \<Rightarrow> principal \<Rightarrow> create_body \<Rightarrow> remote_stream \<Rightarrow> playback
    \<Rightarrow> response \<times> playback \<times> pb_effect list" where
  "createRemote e p b r api =
     (case supersedePlayback (env_of e) p (cb_ItemKind b) (cb_ItemID b) (cb_ReplaceSessionID b) api of (api, es) \<Rightarrow>
        let s = (base_session e p b (start_position e p b) (pa_HW api))
                  \<lparr>ps_Delivery := rs_Delivery r, ps_Mode := ''remote'', ps_DurationMS := rs_DurationMS r,
                   ps_Decision := no_decision\<lparr>Delivery := rs_Delivery r, Mode := ''remote'', Playback := ''remote''\<rparr>,
                   ps_RemoteURL := rs_URL r\<rparr>
        in (Session (ce_id e), put_session s api, es))"

definition probe :: "create_env \<Rightarrow> located \<Rightarrow> media_info" where
  "probe e loc =
     (case ce_probe e (lf_AbsPath loc) of
        Some i \<Rightarrow> i
      | None \<Rightarrow> \<lparr>DurationMS = lf_DurationMS loc, Container = lf_Container loc, Size = lf_Size loc,
                 VideoCodec = lf_VideoCodec loc, AudioCodec = lf_AudioCodec loc, InfoWidth = lf_Width loc,
                 InfoHeight = lf_Height loc, InfoBitDepth = 0, InfoHDR = [], Streams = []\<rparr>)"

definition local_session :: "create_env \<Rightarrow> principal \<Rightarrow> create_body \<Rightarrow> located \<Rightarrow> media_info \<Rightarrow> dec_result \<Rightarrow> string
    \<Rightarrow> session_hw \<Rightarrow> psession" where
  "local_session e p b loc info dec tok hw =
     (let enc = (if \<not> NeedVideoXcode dec then ''copy'' else VideoEncoder hw)
      in (base_session e p b (start_position e p b) hw)
           \<lparr>ps_GuestSessionID := p_GuestSessionID p, ps_Stoken := tok, ps_StokenExp := pe_now e + stokenTTL,
            ps_MediaFileID := lf_ID loc, ps_LibraryID := lf_LibraryID loc, ps_AbsPath := lf_AbsPath loc,
            ps_Delivery := Delivery dec, ps_Mode := Mode dec, ps_Reasons := Reasons dec, ps_HLSAttach := res_HLSAttach dec,
            ps_DurationMS := (if DurationMS info = 0 then lf_DurationMS loc else DurationMS info),
            ps_Standby := (case ce_standby e of None \<Rightarrow> None | Some f \<Rightarrow> Some (lf_ID f, lf_AbsPath f)),
            ps_Decision := dec, ps_SlotHeld := NeedsVideoSlot dec,
            ps_Encoder := enc, ps_EncoderType := sessionEncoderType enc (NeedVideoXcode dec)\<rparr>)"

definition give_back :: "bool \<Rightarrow> slot_limiter \<Rightarrow> slot_limiter" where
  "give_back held lm = (if held then Release lm else lm)"

text \<open>The last part: the cache directory, the plan and the encoder, then the registry.\<close>

definition start_session :: "create_env \<Rightarrow> psession \<Rightarrow> playback \<Rightarrow> response \<times> playback \<times> pb_effect list" where
  "start_session e s api =
     (if ps_Delivery s \<noteq> DeliveryHLS then (Session (ps_ID s), put_session s api, [])
      else (case ce_dir e of
              None \<Rightarrow> (Fail 500 ''cache'', api\<lparr>pa_Lim := give_back (ps_SlotHeld s) (pa_Lim api)\<rparr>, [])
            | Some dir \<Rightarrow>
                (case prepareVOD (ce_keyframes e) (ce_wrote e) (s\<lparr>ps_Dir := dir\<rparr>) (pa_Lim api) of
                   (s, lm, Some err) \<Rightarrow>
                     (Fail 500 ''cache'', api\<lparr>pa_Lim := give_back (ps_SlotHeld s) lm\<rparr>, [CacheRemove (ps_ID s)])
                 | (s, lm, None) \<Rightarrow>
                     (case startPipeline (ce_pipeline e) s of
                        (s, False) \<Rightarrow>
                          (Fail 500 ''ffmpeg'', api\<lparr>pa_Lim := give_back (ps_SlotHeld s) lm\<rparr>, [CacheRemove (ps_ID s)])
                      | (s, True) \<Rightarrow> (Session (ps_ID s), put_session s (api\<lparr>pa_Lim := lm\<rparr>), [])))))"

definition session_decision :: "create_env \<Rightarrow> principal \<Rightarrow> create_body \<Rightarrow> located \<Rightarrow> session_hw \<Rightarrow> create_body \<times> dec_result" where
  "session_decision e p b loc hw =
     (let info = probe e loc;
          b = langTracks info b;
          (audio, sub) = validTracks info (cb_AudioIndex b) (cb_SubtitleIndex b);
          b = b\<lparr>cb_AudioIndex := audio, cb_SubtitleIndex := sub\<rparr>;
          shareH = (if IsGuest (Some p) \<and> le_DB (ce_loc e) then ShareHeight (ce_guestQuality e (p_GuestSessionID p)) else 0)
      in (b, Decide \<lparr>Info = Some info, Client = cb_Client b, Quality = cb_Quality b, LAN = ce_LAN e, ShareMaxH = shareH,
                     RemoteBitrate = ce_RemoteBitrate e, AudioIndex = audio, SubtitleIndex = sub, HW = sh_hw hw,
                     Original = lf_Copy loc\<rparr>))"

definition create_located :: "create_env \<Rightarrow> principal \<Rightarrow> create_body \<Rightarrow> located \<Rightarrow> playback
    \<Rightarrow> response \<times> playback \<times> pb_effect list" where
  "create_located e p b loc api =
     (if lf_AbsPath loc = [] then (Fail 503 ''source_unavailable'', api, [])
      else (case session_decision e p b loc (pa_HW api) of (b, dec) \<Rightarrow>
        if Refuse dec \<noteq> [] then (Fail 409 (Refuse dec), api, [])
        else (case supersedePlayback (env_of e) p (cb_ItemKind b) (cb_ItemID b) (cb_ReplaceSessionID b) api of (api, es) \<Rightarrow>
          case (if NeedsVideoSlot dec then TryAcquire (pa_Lim api) else (pa_Lim api, True)) of
            (lm, False) \<Rightarrow> (Fail 429 ''LOAD_429'', api, es)
          | (lm, True) \<Rightarrow>
              (case ce_token e of
                 None \<Rightarrow> (Fail 500 ''token'', api\<lparr>pa_Lim := give_back (NeedsVideoSlot dec) lm\<rparr>, es)
               | Some tok \<Rightarrow>
                   (case start_session e (local_session e p b loc (probe e loc) dec tok (pa_HW api)) (api\<lparr>pa_Lim := lm\<rparr>) of
                      (r, api, es') \<Rightarrow> (r, api, es @ es'))))))"

text \<open>
  The first part of \<^verbatim>\<open>createRemote\<close>: whether an external source plays the item. The same account
  checks as for a local file come first.
\<close>

definition remoteAllowed :: "create_env \<Rightarrow> principal \<Rightarrow> string \<Rightarrow> string \<Rightarrow> bool" where
  "remoteAllowed e p itemKind itemID =
     (if \<not> le_DB (ce_loc e) then False
      else (case ce_ItemRating e itemKind itemID of
              None \<Rightarrow> False
            | Some libID \<Rightarrow>
                if \<not> ce_ItemPermitted e (p_UserID p) itemKind itemID then False
                else if p_PartyOnly p \<and> \<not> le_partyGranted (ce_loc e) then le_partyAccess (ce_loc e) (ID (Some p)) itemKind itemID
                else p_IsAdmin p \<or> \<not> le_Grants (ce_loc e) \<or> le_CanRead (ce_loc e) (p_UserID p) libID))"

definition remote_choice :: "create_env \<Rightarrow> principal \<Rightarrow> create_body \<Rightarrow> remote_outcome" where
  "remote_choice e p b =
     (if \<not> ce_Sources e \<or> \<not> IsUser (Some p) \<or> cb_MediaFileID b \<noteq> [] then RemoteNone
      else (let hasLocal = le_Locator (ce_loc e) \<and>
                  (case le_LocateItem (ce_loc e) (cb_ItemKind b) (cb_ItemID b) of
                     None \<Rightarrow> False | Some loc \<Rightarrow> lf_AbsPath loc \<noteq> [] \<and> ce_onDisk e (lf_AbsPath loc))
            in if \<not> remoteAllowed e p (cb_ItemKind b) (cb_ItemID b) then RemoteHidden
               else (case ce_Resolve e (cb_ItemKind b) (cb_ItemID b) (cb_Source b) (cb_Quality b) hasLocal of
                       ResolveError \<Rightarrow> if hasLocal then RemoteNone else RemoteUnavailable
                     | ResolveMissing \<Rightarrow> RemoteHidden
                     | ResolveLocal \<Rightarrow> RemoteNone
                     | ResolveStream r \<Rightarrow> RemoteStream r)))"

definition createLocal :: "create_env \<Rightarrow> principal option \<Rightarrow> create_body option \<Rightarrow> playback
    \<Rightarrow> response \<times> playback \<times> pb_effect list" where
  "createLocal e p body api =
     (case p of
        None \<Rightarrow> (Fail 401 ''unauthorized'', api, [])
      | Some q \<Rightarrow>
         (case body of
            None \<Rightarrow> (Fail 400 ''bad_request'', api, [])
          | Some b \<Rightarrow>
              if cb_ItemKind b = [] \<or> cb_ItemID b = [] then (Fail 400 ''bad_request'', api, [])
              else (let b = b\<lparr>cb_Client := WithUA (cb_Client b) (ce_UA e)\<rparr>;
                        b = applyProfileDefaults (ce_defaults e) q (ce_audioPresent e) (ce_subPresent e) b
                    in case remote_choice e q b of
                         RemoteHidden \<Rightarrow> (writeHidden Hidden, api, [])
                       | RemoteUnavailable \<Rightarrow> (Fail 503 ''source_unavailable'', api, [])
                       | RemoteStream r \<Rightarrow> createRemote e q b r api
                       | RemoteNone \<Rightarrow>
                           (case locate (ce_loc e) q (cb_ItemKind b) (cb_ItemID b) (cb_MediaFileID b) of
                              Inl err \<Rightarrow> (writeHidden err, api, [])
                            | Inr loc \<Rightarrow> create_located e q b loc api))))"

section \<open>The encoder exits\<close>

text \<open>
  \<^verbatim>\<open>waitFFmpeg\<close> for an exit with an error of the current process: \<open>deviceFailed\<close> is the verdict on
  its messages, \<open>okCPU\<close> and \<open>okStandby\<close> the outcomes of the two restarts.
\<close>

definition no_gpu :: "session_hw \<Rightarrow> session_hw" where
  "no_gpu hw = hw\<lparr>sh_hw := (sh_hw hw)\<lparr>VAAPI := False, NVENC := False\<rparr>, sh_H264NVENC := False, sh_Available := False\<rparr>"

definition fallbackReason :: "string \<Rightarrow> string" where
  "fallbackReason stderr =
     (let s = trimSpace stderr
      in if s = [] then HWFallbackCPU else if length s > 400 then drop (length s - 400) s else s)"

definition DeviceFailed :: "string \<Rightarrow> bool" where
  "DeviceFailed stderr =
     list_ex (strContains (toLower stderr))
       [''device creation failed'', ''no device available'', ''device setup failed'', ''cannot load libcuda'',
        ''no nvenc capable devices'', ''cannot load libnvidia-encode'', ''no capable devices found'', ''createbitstreambuffer'']"

definition fallbackCPU :: "bool \<Rightarrow> string \<Rightarrow> psession \<Rightarrow> psession \<times> bool" where
  "fallbackCPU ok stderr s =
     (if \<not> DeviceFailed stderr then (s, False)
      else if ps_cpuFallback s then (s, False)
      else (let reasons = ps_Reasons s @ [HWFallbackCPU];
                s = s\<lparr>ps_cpuFallback := True, ps_HW := no_gpu (ps_HW s), ps_Encoder := ''libx264'', ps_EncoderType := ''cpu'',
                      ps_Fallback := True, ps_FallbackReason := fallbackReason stderr, ps_Reasons := reasons,
                      ps_Decision := (ps_Decision s)\<lparr>Reasons := reasons\<rparr>\<rparr>
            in startPipeline ok s))"

definition failover :: "bool \<Rightarrow> psession \<Rightarrow> psession \<times> bool" where
  "failover ok s =
     (case ps_Standby s of
        None \<Rightarrow> (s, False)
      | Some (fid, path) \<Rightarrow>
          if ps_FailoverUsed s \<or> ps_killed s then (s, False)
          else (let resume = (if ps_ResumeMS s \<le> 0 then ps_StartMS s else ps_ResumeMS s);
                    s = s\<lparr>ps_FailoverUsed := True, ps_restarting := True, ps_AbsPath := path, ps_MediaFileID := fid,
                          ps_Standby := None, ps_StartMS := resume, ps_ResumeMS := resume\<rparr>
                in case startPipeline ok s of
                     (s, True) \<Rightarrow> (s, True)
                   | (s, False) \<Rightarrow> (s\<lparr>ps_restarting := False\<rparr>, False)))"

definition encoder_exit :: "bool \<Rightarrow> bool \<Rightarrow> string \<Rightarrow> psession \<Rightarrow> psession" where
  "encoder_exit okCPU okStandby stderr s =
     (if \<not> ps_running s then s
      else (let s = s\<lparr>ps_running := False\<rparr>
            in if ps_killed s \<or> ps_restarting s then s
               else (case fallbackCPU okCPU stderr s of
                       (s, True) \<Rightarrow> s
                     | (s, False) \<Rightarrow>
                         (case failover okStandby s of
                            (s, True) \<Rightarrow> s
                          | (s, False) \<Rightarrow> fail_session ''FFMPEG_EXIT'' s))))"

end
