(* ===== verification/Playback_Safety.thy ===== *)
theory Playback_Safety
  imports Playback_Create
begin

text \<open>
  What the playback service keeps true: transcode slots and sessions, one session per viewer and
  title, who gets to a file, and what an exit of the encoder leads to; and two gaps that open when
  requests overlap. \<open>pb_step\<close> is the service as a machine whose steps are its operations; it is an
  instance of the \<open>invariant_machine\<close> interface.
\<close>

section \<open>The invariant\<close>

definition held :: "(string \<times> psession) list \<Rightarrow> nat" where
  "held reg = length (filter (\<lambda>(_, s). ps_SlotHeld s) reg)"

definition owner :: "psession \<Rightarrow> string \<times> string" where
  "owner s = (if ps_Kind s = ''user'' then (''user'', ps_UserID s) else (''guest_share'', ps_GuestSessionID s))"

definition viewing :: "psession \<Rightarrow> (string \<times> string) \<times> string \<times> string" where
  "viewing s = (owner s, ps_ItemKind s, ps_ItemID s)"

definition slots_balanced :: "playback \<Rightarrow> bool" where
  "slots_balanced api \<longleftrightarrow>
     l_active (pa_Lim api) = int (held (pa_Reg api)) \<and> 0 < l_Slots (pa_Lim api)"

definition session_ok :: "string \<Rightarrow> psession \<Rightarrow> bool" where
  "session_ok sid s \<longleftrightarrow> ps_ID s = sid \<and> (NeedVideoXcode (ps_Decision s) \<longrightarrow> ps_SlotHeld s)"

definition playback_ok :: "playback \<Rightarrow> bool" where
  "playback_ok api \<longleftrightarrow> slots_balanced api \<and> distinct (keys (pa_Reg api)) \<and>
     (\<forall>(sid, s) \<in> set (pa_Reg api). session_ok sid s) \<and>
     distinct (map (\<lambda>(_, s). viewing s) (pa_Reg api))"

lemma owns_owner: "owns s k i \<longleftrightarrow> owner s = (k, i)"
  by (auto simp: owns_def owner_def)

lemma playback_okI:
  "slots_balanced api \<Longrightarrow> distinct (keys (pa_Reg api)) \<Longrightarrow> \<forall>(sid, s) \<in> set (pa_Reg api). session_ok sid s \<Longrightarrow>
   distinct (map (\<lambda>(_, s). viewing s) (pa_Reg api)) \<Longrightarrow> playback_ok api"
  by (simp add: playback_ok_def)

lemma playback_okD:
  assumes "playback_ok api"
  shows "slots_balanced api" "distinct (keys (pa_Reg api))" "\<forall>(sid, s) \<in> set (pa_Reg api). session_ok sid s"
    "distinct (map (\<lambda>(_, s). viewing s) (pa_Reg api))"
  using assms by (simp_all add: playback_ok_def)

subsection \<open>Removing and replacing entries of the registry\<close>

lemma held_Nil [simp]: "held [] = 0"
  by (simp add: held_def)

lemma held_Cons [simp]: "held ((k, s) # reg) = (if ps_SlotHeld s then 1 else 0) + held reg"
  by (simp add: held_def)

lemma del_key_Cons [simp]: "del_key k ((k', v) # m) = (if k' = k then del_key k m else (k', v) # del_key k m)"
  by (auto simp: del_key_def)

lemma del_key_absent: "k \<notin> set (keys m) \<Longrightarrow> del_key k m = m"
  by (induction m) (auto simp: keys_def del_key_def)

lemma held_del:
  "distinct (keys reg) \<Longrightarrow> map_of reg k = Some s \<Longrightarrow>
     held (del_key k reg) + (if ps_SlotHeld s then 1 else 0) = held reg"
  by (induction reg) (auto simp: keys_def del_key_absent)

lemma held_pos: "map_of reg k = Some s \<Longrightarrow> ps_SlotHeld s \<Longrightarrow> 0 < held reg"
  by (induction reg) (auto split: if_splits)

lemma viewing_del: "distinct (map (\<lambda>(_, s). viewing s) reg) \<Longrightarrow> distinct (map (\<lambda>(_, s). viewing s) (del_key k reg))"
  unfolding del_key_def by (rule distinct_map_filter)

lemma set_key_same: "map_of m k = Some v \<Longrightarrow> map fst (set_key k w m) = map fst m"
  by (induction m) (auto simp: set_key_def split: if_splits)

lemma set_key_list:
  "distinct (keys m) \<Longrightarrow> map_of m k = Some v \<Longrightarrow> set_key k w m = map (\<lambda>(k', x). (k', if k' = k then w else x)) m"
proof (induction m)
  case (Cons a m)
  obtain k' x where a: "a = (k', x)" by fastforce
  have "map (\<lambda>(k', x). (k', if k' = k then w else x)) m = m" if "k \<notin> set (keys m)"
    using that by (induction m) (auto simp: keys_def)
  with Cons show ?case by (auto simp: a set_key_def keys_def)
qed simp

lemma set_key_new: "map_of m k = None \<Longrightarrow> set_key k v m = m @ [(k, v)]"
  by (induction m) (auto simp: set_key_def split: if_splits)

lemma held_append [simp]: "held (r @ r') = held r + held r'"
  by (simp add: held_def)

text \<open>A session replaced by one with the same identity, viewer, title and slot keeps the invariant.\<close>

lemma replace_ok:
  assumes ok: "playback_ok api" and s: "map_of (pa_Reg api) sid = Some s"
    and same: "ps_ID s' = ps_ID s" "viewing s' = viewing s" "ps_SlotHeld s' = ps_SlotHeld s"
      "NeedVideoXcode (ps_Decision s') = NeedVideoXcode (ps_Decision s)"
  shows "playback_ok (api\<lparr>pa_Reg := set_key sid s' (pa_Reg api)\<rparr>)"
proof -
  let ?r = "pa_Reg api"
  let ?f = "\<lambda>(k', x). (k', if k' = sid then s' else x)"
  have d: "distinct (keys ?r)" using ok by (simp add: playback_ok_def)
  have eq: "set_key sid s' ?r = map ?f ?r" using set_key_list [OF d s] .
  have val: "x = s" if "(sid, x) \<in> set ?r" for x
    using s d that by (metis map_of_distinct_iff option.inject)
  have "held (map ?f ?r) = held ?r"
    using val same(3) unfolding held_def filter_map length_map
    by (intro arg_cong [where f = length] filter_cong) (auto split: if_splits)
  moreover have "map (\<lambda>(_, s). viewing s) (map ?f ?r) = map (\<lambda>(_, s). viewing s) ?r"
    using val same(2) by auto
  moreover have "\<forall>(k, x) \<in> set (map ?f ?r). session_ok k x"
    using playback_okD(3) [OF ok] val same by (fastforce simp: session_ok_def)
  moreover have "keys (map ?f ?r) = keys ?r" by (auto simp: keys_def)
  ultimately show ?thesis
    using playback_okD [OF ok] d unfolding playback_ok_def slots_balanced_def
    by (simp add: eq del: map_map map_eq_conv set_map)
qed

lemma kill_limiter:
  "kill env s lm = (s', lm', es) \<Longrightarrow> lm' = (if ps_SlotHeld s then Release lm else lm)"
  by (auto simp: kill_def flush_session_def kill_slot_def kill_mark_def split: prod.splits if_splits option.splits)

lemma remove_session_eq:
  "fst (remove_session env (api, es) sid) =
     (case map_of (pa_Reg api) sid of None \<Rightarrow> api
      | Some s \<Rightarrow> api\<lparr>pa_Reg := del_key sid (pa_Reg api),
                      pa_Lim := (if ps_SlotHeld s then Release (pa_Lim api) else pa_Lim api)\<rparr>)"
  by (auto simp: remove_session_def dest: kill_limiter split: option.splits prod.splits)

lemma remove_session_ok:
  assumes ok: "playback_ok (fst st)"
  shows "playback_ok (fst (remove_session env st sid))"
proof -
  obtain api es where st: "st = (api, es)" by fastforce
  show ?thesis
  proof (cases "map_of (pa_Reg api) sid")
    case None
    then show ?thesis using ok by (simp add: st remove_session_eq)
  next
    case (Some s)
    have d: "distinct (keys (pa_Reg api))" and bal: "slots_balanced api" using ok st by (simp_all add: playback_ok_def)
    have h: "held (del_key sid (pa_Reg api)) + (if ps_SlotHeld s then 1 else 0) = held (pa_Reg api)"
      using held_del [OF d Some] .
    show ?thesis
    proof (rule playback_okI)
      show "slots_balanced (fst (remove_session env st sid))"
        using h bal by (auto simp: st remove_session_eq Some slots_balanced_def Release_def split: if_splits)
      show "distinct (keys (pa_Reg (fst (remove_session env st sid))))"
        using d by (simp add: st remove_session_eq Some)
      show "\<forall>(k, x) \<in> set (pa_Reg (fst (remove_session env st sid))). session_ok k x"
        using playback_okD(3) [OF ok] by (auto simp: st remove_session_eq Some set_del_key)
      show "distinct (map (\<lambda>(_, s). viewing s) (pa_Reg (fst (remove_session env st sid))))"
        using playback_okD(4) [OF ok] by (simp add: st remove_session_eq Some viewing_del)
    qed
  qed
qed

lemma remove_all_ok: "playback_ok (fst st) \<Longrightarrow> playback_ok (fst (foldl (remove_session env) st sids))"
proof (induction sids arbitrary: st)
  case (Cons sid sids)
  from Cons.IH [OF remove_session_ok [OF Cons.prems]] show ?case by simp
qed simp

lemma remove_session_reg: "pa_Reg (fst (remove_session env st sid)) = del_key sid (pa_Reg (fst st))"
  by (cases st) (auto simp: remove_session_eq del_key_absent has_key_iff [symmetric] has_key_def split: option.splits)

lemma del_key_filter: "del_key k m = filter (\<lambda>(k', v). k' \<noteq> k) m"
  by (simp add: del_key_def)

lemma remove_all_reg:
  "pa_Reg (fst (foldl (remove_session env) st sids)) = filter (\<lambda>(k, s). k \<notin> set sids) (pa_Reg (fst st))"
proof (induction sids arbitrary: st)
  case (Cons sid sids)
  show ?case
    by (simp add: Cons.IH remove_session_reg del_key_filter) (rule filter_cong, auto)
qed simp

section \<open>Creating keeps the invariant\<close>

lemma supersede_ok: "playback_ok api \<Longrightarrow> playback_ok (fst (supersedePlayback env p k i r api))"
  by (auto simp: supersedePlayback_def Let_def intro!: remove_all_ok remove_session_ok split: option.splits)

lemma supersede_gone:
  assumes d: "distinct (keys (pa_Reg api))"
  shows "\<forall>(sid, s) \<in> set (pa_Reg (fst (supersedePlayback env p k i r api))).
    viewing s \<noteq> ((p_Kind p, ID (Some p)), k, i) \<and> (sid, s) \<in> set (pa_Reg api)"
proof -
  let ?mine = "\<lambda>s. owns s (p_Kind p) (ID (Some p))"
  define st where "st = (if r = [] then (api, []) else (case map_of (pa_Reg api) r of
      None \<Rightarrow> (api, []) | Some s \<Rightarrow> if ?mine s then remove_session env (api, []) r else (api, [])))"
  have sub: "set (pa_Reg (fst st)) \<subseteq> set (pa_Reg api)"
    by (auto simp: st_def remove_session_reg del_key_def split: option.splits)
  have eq: "pa_Reg (fst (supersedePlayback env p k i r api)) = filter (\<lambda>(sid, s). sid \<notin> set (map fst
      (filter (\<lambda>(sid, s). ?mine s \<and> ps_ItemKind s = k \<and> ps_ItemID s = i) (pa_Reg (fst st))))) (pa_Reg (fst st))"
    unfolding supersedePlayback_def Let_def st_def [symmetric] by (rule remove_all_reg)
  show ?thesis
    unfolding eq using sub by (auto simp: viewing_def owns_owner image_iff)
qed

text \<open>Adding a session under a new ID, for a viewer who views the title nowhere else.\<close>

lemma put_session_ok:
  assumes reg: "distinct (keys (pa_Reg api))" "\<forall>(sid, s) \<in> set (pa_Reg api). session_ok sid s"
      "distinct (map (\<lambda>(_, s). viewing s) (pa_Reg api))" "0 < l_Slots (pa_Lim api)"
    and lm: "l_active (pa_Lim api) = int (held (pa_Reg api)) + (if ps_SlotHeld s then 1 else 0)"
    and s: "map_of (pa_Reg api) (ps_ID s) = None" "NeedVideoXcode (ps_Decision s) \<longrightarrow> ps_SlotHeld s"
      "\<forall>(sid, t) \<in> set (pa_Reg api). viewing t \<noteq> viewing s"
  shows "playback_ok (put_session s api)"
proof -
  have "ps_ID s \<notin> set (keys (pa_Reg api))" using s(1) by (metis has_key_def has_key_iff)
  then show ?thesis
    using reg lm s(2,3)
    by (auto simp: playback_ok_def slots_balanced_def put_session_def set_key_new [OF s(1)] session_ok_def keys_def)
qed

lemma owner_principal:
  assumes "IsUser (Some p) \<or> IsGuest (Some p)"
    "ps_Kind s = p_Kind p" "ps_UserID s = p_UserID p" "IsUser (Some p) \<or> ps_GuestSessionID s = p_GuestSessionID p"
  shows "owner s = (p_Kind p, ID (Some p))"
  using assms by (auto simp: owner_def IsUser_def IsGuest_def ID_def KindUser_def KindGuestShare_def)

lemma local_session_fields:
  "ps_ID (local_session e p b loc info dec tok hw) = ce_id e \<and> ps_Kind (local_session e p b loc info dec tok hw) = p_Kind p \<and>
   ps_UserID (local_session e p b loc info dec tok hw) = p_UserID p \<and>
   ps_GuestSessionID (local_session e p b loc info dec tok hw) = p_GuestSessionID p \<and>
   ps_ItemKind (local_session e p b loc info dec tok hw) = cb_ItemKind b \<and>
   ps_ItemID (local_session e p b loc info dec tok hw) = cb_ItemID b \<and>
   ps_Decision (local_session e p b loc info dec tok hw) = dec \<and>
   ps_SlotHeld (local_session e p b loc info dec tok hw) = NeedsVideoSlot dec"
  by (simp add: local_session_def base_session_def Let_def)

lemma langTracks_item: "cb_ItemKind (langTracks info b) = cb_ItemKind b" "cb_ItemID (langTracks info b) = cb_ItemID b"
  by (auto simp: langTracks_def Let_def split: option.split)

lemma defaults_item:
  "cb_ItemKind (applyProfileDefaults db p a s b) = cb_ItemKind b" "cb_ItemID (applyProfileDefaults db p a s b) = cb_ItemID b"
  by (auto simp: applyProfileDefaults_def Let_def split: option.split prod.split)

lemma startPipeline_fields:
  "startPipeline ok s = (s', r) \<Longrightarrow>
     ps_ID s' = ps_ID s \<and> viewing s' = viewing s \<and> ps_SlotHeld s' = ps_SlotHeld s \<and> ps_Decision s' = ps_Decision s"
  by (auto simp: startPipeline_def viewing_def owner_def Let_def split: if_splits)

text \<open>
  What is true just before a session starts: the registry is in order, the session's slot, if it
  has one, is already counted, and its viewer views the title nowhere else.
\<close>

definition starting :: "psession \<Rightarrow> playback \<Rightarrow> bool" where
  "starting s api \<longleftrightarrow>
     distinct (keys (pa_Reg api)) \<and> (\<forall>(sid, s) \<in> set (pa_Reg api). session_ok sid s) \<and>
     distinct (map (\<lambda>(_, s). viewing s) (pa_Reg api)) \<and> 0 < l_Slots (pa_Lim api) \<and>
     l_active (pa_Lim api) = int (held (pa_Reg api)) + (if ps_SlotHeld s then 1 else 0) \<and>
     map_of (pa_Reg api) (ps_ID s) = None \<and> (NeedVideoXcode (ps_Decision s) \<longrightarrow> ps_SlotHeld s) \<and>
     (\<forall>(sid, t) \<in> set (pa_Reg api). viewing t \<noteq> viewing s)"

lemma starting_put: "starting s api \<Longrightarrow> playback_ok (put_session s api)"
  unfolding starting_def by (rule put_session_ok) auto

lemma starting_give_back:
  assumes "starting s api"
  shows "playback_ok (api\<lparr>pa_Lim := give_back (ps_SlotHeld s) (pa_Lim api)\<rparr>) \<and>
    l_active (give_back (ps_SlotHeld s) (pa_Lim api)) = int (held (pa_Reg api))"
  using assms by (auto simp: starting_def playback_ok_def slots_balanced_def give_back_def Release_def)

lemma prepare_starting:
  assumes st: "starting s api" and prep: "prepareVOD kfs wrote (s\<lparr>ps_Dir := dir\<rparr>) (pa_Lim api) = (s', lm, r)"
  shows "l_active lm = int (held (pa_Reg api)) + (if ps_SlotHeld s' then 1 else 0)" "0 < l_Slots lm"
    "r = None \<Longrightarrow> starting s' (api\<lparr>pa_Lim := lm\<rparr>)"
proof -
  from prepare_slot [OF prep] prepare_keeps [OF prep]
  have slot: "l_active lm - l_active (pa_Lim api) = (if ps_SlotHeld s' \<and> \<not> ps_SlotHeld s then 1 else 0)"
      "ps_SlotHeld s \<longrightarrow> ps_SlotHeld s'" "l_Slots lm = l_Slots (pa_Lim api)"
      "r = None \<longrightarrow> (NeedVideoXcode (ps_Decision s) \<longrightarrow> ps_SlotHeld s) \<longrightarrow>
         NeedVideoXcode (ps_Decision s') \<longrightarrow> ps_SlotHeld s'"
    and same: "ps_ID s' = ps_ID s" "viewing s' = viewing s"
    by (simp_all add: viewing_def owner_def)
  show act: "l_active lm = int (held (pa_Reg api)) + (if ps_SlotHeld s' then 1 else 0)" and "0 < l_Slots lm"
    using slot st by (auto simp: starting_def split: if_splits)
  then show "r = None \<Longrightarrow> starting s' (api\<lparr>pa_Lim := lm\<rparr>)"
    using st slot(4) same by (simp add: starting_def)
qed

text \<open>A start that fails gives its slot back, one that succeeds registers the session.\<close>

lemma start_session_ok:
  assumes st: "starting s api" and run: "start_session e s api = (r, api', es)"
  shows "playback_ok api' \<and>
    (case r of Fail c _ \<Rightarrow> c = 500 \<and> pa_Reg api' = pa_Reg api
     | Session sid \<Rightarrow> sid = ps_ID s \<and> has_key sid (pa_Reg api'))"
proof (cases "ps_Delivery s \<noteq> DeliveryHLS \<or> ce_dir e = None")
  case True
  then show ?thesis
    using run starting_put [OF st] starting_give_back [OF st]
    by (auto simp: start_session_def put_session_def has_key_def split: if_splits)
next
  case False
  then obtain dir where dir: "ce_dir e = Some dir" "ps_Delivery s = DeliveryHLS" by auto
  obtain s' lm res where prep: "prepareVOD (ce_keyframes e) (ce_wrote e) (s\<lparr>ps_Dir := dir\<rparr>) (pa_Lim api) = (s', lm, res)"
    by (metis prod_cases3)
  have give: "playback_ok (api\<lparr>pa_Lim := give_back (ps_SlotHeld s') lm\<rparr>) \<and>
      l_active (give_back (ps_SlotHeld s') lm) = int (held (pa_Reg api))"
    using prepare_starting(1,2) [OF st prep] st
    by (auto simp: starting_def playback_ok_def slots_balanced_def give_back_def Release_def split: if_splits)
  have id: "ps_ID s' = ps_ID s" using prepare_keeps [OF prep] by simp
  show ?thesis
  proof (cases res)
    case (Some err)
    then show ?thesis using run give dir prep by (auto simp: start_session_def)
  next
    case None
    from prepare_starting(3) [OF st prep None] have st': "starting s' (api\<lparr>pa_Lim := lm\<rparr>)" .
    obtain s2 ok where pipe: "startPipeline (ce_pipeline e) s' = (s2, ok)" by fastforce
    from startPipeline_fields [OF pipe] have f: "ps_ID s2 = ps_ID s'" "viewing s2 = viewing s'"
      "ps_SlotHeld s2 = ps_SlotHeld s'" "ps_Decision s2 = ps_Decision s'" by simp_all
    then have st2: "starting s2 (api\<lparr>pa_Lim := lm\<rparr>)" using st' by (simp add: starting_def)
    show ?thesis
    proof (cases ok)
      case True
      then show ?thesis using run dir prep None pipe starting_put [OF st2] f id
        by (auto simp: start_session_def put_session_def has_key_def)
    next
      case False
      then show ?thesis using run dir prep None pipe give f by (auto simp: start_session_def)
    qed
  qed
qed

text \<open>After the viewer's sessions of the title are gone, a new one may start.\<close>

lemma superseded_starting:
  assumes ok: "playback_ok api" and fresh: "map_of (pa_Reg api) (ps_ID s) = None"
    and s: "viewing s = ((p_Kind p, ID (Some p)), k, i)" "NeedVideoXcode (ps_Decision s) \<longrightarrow> ps_SlotHeld s"
    and api': "api' = fst (supersedePlayback env p k i r api)"
    and lm: "l_active lm = l_active (pa_Lim api') + (if ps_SlotHeld s then 1 else 0)" "0 < l_Slots lm"
  shows "starting s (api'\<lparr>pa_Lim := lm\<rparr>)"
proof -
  have ok': "playback_ok api'" unfolding api' by (rule supersede_ok [OF ok])
  have gone: "\<forall>(sid, t) \<in> set (pa_Reg api'). viewing t \<noteq> viewing s \<and> (sid, t) \<in> set (pa_Reg api)"
    unfolding api' using supersede_gone [OF playback_okD(2) [OF ok], of env p k i r] s(1) by simp
  have "ps_ID s \<notin> set (keys (pa_Reg api))" using fresh by (metis has_key_def has_key_iff)
  then have "ps_ID s \<notin> set (keys (pa_Reg api'))" using gone by (force simp: keys_def)
  then have "map_of (pa_Reg api') (ps_ID s) = None" by (metis has_key_def has_key_iff)
  then show ?thesis
    using playback_okD [OF ok'] gone lm s(2) by (auto simp: starting_def slots_balanced_def)
qed

text \<open>
  What a creation that does not return a session may have done: nothing but end sessions, and it
  says that the slots are full only when they are.
\<close>

definition create_result :: "playback \<Rightarrow> string \<Rightarrow> response \<Rightarrow> playback \<Rightarrow> bool" where
  "create_result api sid r api' \<longleftrightarrow>
     playback_ok api' \<and>
     (case r of
        Fail c m \<Rightarrow> set (pa_Reg api') \<subseteq> set (pa_Reg api) \<and>
                    (c = 429 \<longrightarrow> m = ''LOAD_429'' \<longrightarrow> l_Slots (pa_Lim api') \<le> l_active (pa_Lim api'))
      | Session s \<Rightarrow> s = sid \<and> has_key sid (pa_Reg api'))"

lemma supersede_sub:
  "playback_ok api \<Longrightarrow> set (pa_Reg (fst (supersedePlayback env p k i r api))) \<subseteq> set (pa_Reg api)"
  using supersede_gone [OF playback_okD(2), of api env p k i r] by auto

lemma create_located_ok:
  assumes ok: "playback_ok api" and fresh: "map_of (pa_Reg api) (ce_id e) = None"
    and p: "IsUser (Some p) \<or> IsGuest (Some p)"
    and run: "create_located e p b loc api = (r, api', es)"
  shows "create_result api (ce_id e) r api'"
proof -
  obtain b2 dec where dec: "session_decision e p b loc (pa_HW api) = (b2, dec)" by fastforce
  have item: "cb_ItemKind b2 = cb_ItemKind b" "cb_ItemID b2 = cb_ItemID b"
    using dec by (auto simp: session_decision_def Let_def langTracks_item split: prod.splits)
  obtain api1 es1 where sup: "supersedePlayback (env_of e) p (cb_ItemKind b2) (cb_ItemID b2) (cb_ReplaceSessionID b2) api = (api1, es1)"
    by fastforce
  let ?s = "\<lambda>tok. local_session e p b2 loc (probe e loc) dec tok (pa_HW api1)"
  obtain lm got where acq: "(if NeedsVideoSlot dec then TryAcquire (pa_Lim api1) else (pa_Lim api1, True)) = (lm, got)"
    by fastforce
  have ok1: "playback_ok api1" and sub: "set (pa_Reg api1) \<subseteq> set (pa_Reg api)"
    using supersede_ok [OF ok] supersede_sub [OF ok] sup by (metis fst_conv)+
  have lm: "l_active lm = l_active (pa_Lim api1) + (if NeedsVideoSlot dec then 1 else 0)" "0 < l_Slots lm" if got
    using acq that ok1 by (auto simp: TryAcquire_def playback_ok_def slots_balanced_def split: if_splits)
  have start: "starting (?s tok) (api1\<lparr>pa_Lim := lm\<rparr>)" if got for tok
  proof (rule superseded_starting [OF ok, where p = p and k = "cb_ItemKind b2" and i = "cb_ItemID b2"])
    show "map_of (pa_Reg api) (ps_ID (?s tok)) = None" using fresh by (simp add: local_session_fields)
    show "viewing (?s tok) = ((p_Kind p, ID (Some p)), cb_ItemKind b2, cb_ItemID b2)"
      using owner_principal [OF p, of "?s tok"] by (simp add: viewing_def local_session_fields)
    show "NeedVideoXcode (ps_Decision (?s tok)) \<longrightarrow> ps_SlotHeld (?s tok)"
      by (simp add: local_session_fields NeedsVideoSlot_def)
    show "api1 = fst (supersedePlayback (env_of e) p (cb_ItemKind b2) (cb_ItemID b2) (cb_ReplaceSessionID b2) api)"
      by (simp add: sup)
    show "l_active lm = l_active (pa_Lim api1) + (if ps_SlotHeld (?s tok) then 1 else 0)" "0 < l_Slots lm"
      using lm that by (simp_all add: local_session_fields)
  qed
  consider "lf_AbsPath loc = [] \<or> Refuse dec \<noteq> []" | "lf_AbsPath loc \<noteq> []" "Refuse dec = []" "\<not> got"
    | "lf_AbsPath loc \<noteq> []" "Refuse dec = []" got "ce_token e = None"
    | tok where "lf_AbsPath loc \<noteq> []" "Refuse dec = []" got "ce_token e = Some tok" by fastforce
  then show ?thesis
  proof cases
    case 1
    then have "\<exists>c m. r = Fail c m \<and> c \<noteq> 429 \<and> api' = api"
      using run by (cases "lf_AbsPath loc = []") (auto simp: create_located_def dec)
    then show ?thesis using ok by (auto simp: create_result_def)
  next
    case 2
    then have "(r, api', es) = (Fail 429 ''LOAD_429'', api1, es1)" using run by (simp add: create_located_def dec sup acq)
    moreover have "l_Slots (pa_Lim api1) \<le> l_active (pa_Lim api1)"
      using 2 acq by (auto simp: TryAcquire_def split: if_splits)
    ultimately show ?thesis using ok1 sub by (simp add: create_result_def)
  next
    case 3
    then have "(r, api', es) = (Fail 500 ''token'', api1\<lparr>pa_Lim := give_back (NeedsVideoSlot dec) lm\<rparr>, es1)"
      using run by (simp add: create_located_def dec sup acq)
    then show ?thesis using starting_give_back [OF start [OF 3(3), of "[]"]] sub
      by (simp add: create_result_def local_session_fields)
  next
    case 4
    obtain r2 api2 es2 where st: "start_session e (?s tok) (api1\<lparr>pa_Lim := lm\<rparr>) = (r2, api2, es2)" by (metis prod_cases3)
    have "(r, api') = (r2, api2)" using run 4 st by (simp add: create_located_def dec sup acq)
    then show ?thesis using start_session_ok [OF start [OF 4(3)] st] sub
      by (auto simp: create_result_def local_session_fields split: response.splits)
  qed
qed

lemma create_remote_ok:
  assumes ok: "playback_ok api" and fresh: "map_of (pa_Reg api) (ce_id e) = None" and p: "IsUser (Some p)"
    and run: "createRemote e p b rs api = (r, api', es)"
  shows "create_result api (ce_id e) r api'"
proof -
  obtain api1 es1 where sup: "supersedePlayback (env_of e) p (cb_ItemKind b) (cb_ItemID b) (cb_ReplaceSessionID b) api = (api1, es1)"
    by fastforce
  define s where "s = (base_session e p b (start_position e p b) (pa_HW api1))
      \<lparr>ps_Delivery := rs_Delivery rs, ps_Mode := ''remote'', ps_DurationMS := rs_DurationMS rs,
       ps_Decision := no_decision\<lparr>Delivery := rs_Delivery rs, Mode := ''remote'', Playback := ''remote''\<rparr>,
       ps_RemoteURL := rs_URL rs\<rparr>"
  have f: "ps_ID s = ce_id e" "ps_Kind s = p_Kind p" "ps_UserID s = p_UserID p" "ps_ItemKind s = cb_ItemKind b"
    "ps_ItemID s = cb_ItemID b" "\<not> ps_SlotHeld s" "\<not> NeedVideoXcode (ps_Decision s)"
    by (simp_all add: s_def base_session_def no_decision_def)
  have res: "r = Session (ce_id e)" "api' = put_session s api1"
    using run by (simp_all add: createRemote_def sup Let_def s_def [symmetric])
  have "starting s (api1\<lparr>pa_Lim := pa_Lim api1\<rparr>)"
  proof (rule superseded_starting [OF ok, where p = p and k = "cb_ItemKind b" and i = "cb_ItemID b"])
    show "viewing s = ((p_Kind p, ID (Some p)), cb_ItemKind b, cb_ItemID b)"
      using owner_principal [of p s] p f by (simp add: viewing_def)
    show "api1 = fst (supersedePlayback (env_of e) p (cb_ItemKind b) (cb_ItemID b) (cb_ReplaceSessionID b) api)"
      by (simp add: sup)
    have "playback_ok api1" using supersede_ok [OF ok] sup by (metis fst_conv)
    then show "0 < l_Slots (pa_Lim api1)" by (simp add: playback_ok_def slots_balanced_def)
  qed (simp_all add: f fresh)
  then have "playback_ok (put_session s api1)" by (simp add: starting_put)
  then show ?thesis using res f by (simp add: create_result_def put_session_def has_key_def)
qed

lemma createLocal_ok:
  assumes ok: "playback_ok api" and fresh: "map_of (pa_Reg api) (ce_id e) = None"
    and p: "\<forall>q. p = Some q \<longrightarrow> IsUser (Some q) \<or> IsGuest (Some q)"
    and run: "createLocal e p body api = (r, api', es)"
  shows "create_result api (ce_id e) r api'"
proof -
  have same: "create_result api (ce_id e) (Fail c m) api" if "c \<noteq> 429 \<or> m \<noteq> ''LOAD_429''" for c m
    using ok that by (auto simp: create_result_def)
  show ?thesis
  proof (cases "\<exists>q b. p = Some q \<and> body = Some b \<and> \<not> (cb_ItemKind b = [] \<or> cb_ItemID b = [])")
    case False
    then show ?thesis using run same by (auto simp: createLocal_def split: option.splits if_splits)
  next
    case True
    then obtain q b0 where q: "p = Some q" and b0: "body = Some b0" "\<not> (cb_ItemKind b0 = [] \<or> cb_ItemID b0 = [])" by blast
    define b where "b = applyProfileDefaults (ce_defaults e) q (ce_audioPresent e) (ce_subPresent e)
      (b0\<lparr>cb_Client := WithUA (cb_Client b0) (ce_UA e)\<rparr>)"
    have eq: "createLocal e p body api =
        (case remote_choice e q b of
           RemoteHidden \<Rightarrow> (writeHidden Hidden, api, []) | RemoteUnavailable \<Rightarrow> (Fail 503 ''source_unavailable'', api, [])
         | RemoteStream rs \<Rightarrow> createRemote e q b rs api
         | RemoteNone \<Rightarrow> (case locate (ce_loc e) q (cb_ItemKind b) (cb_ItemID b) (cb_MediaFileID b) of
               Inl err \<Rightarrow> (writeHidden err, api, []) | Inr loc \<Rightarrow> create_located e q b loc api))"
      unfolding createLocal_def q b_def Let_def b0(1) using b0(2) by simp
    show ?thesis
    proof (cases "remote_choice e q b")
      case (RemoteStream rs)
      then have "IsUser (Some q)" by (auto simp: remote_choice_def split: if_splits)
      from create_remote_ok [OF ok fresh this] RemoteStream run show ?thesis by (simp add: eq)
    next
      case RemoteNone
      show ?thesis
      proof (cases "locate (ce_loc e) q (cb_ItemKind b) (cb_ItemID b) (cb_MediaFileID b)")
        case (Inl err)
        then show ?thesis using run RemoteNone same by (cases err) (auto simp: eq writeHidden_def)
      next
        case (Inr loc)
        then have "create_located e q b loc api = (r, api', es)" using run RemoteNone by (simp add: eq)
        from create_located_ok [OF ok fresh _ this] p q show ?thesis by blast
      qed
    qed (use run same in \<open>auto simp: eq writeHidden_def\<close>)
  qed
qed

section \<open>The service as a machine\<close>

text \<open>Operations on one session that leave its identity, viewer, title, slot and need of an encoder alone.\<close>

definition same_play :: "psession \<Rightarrow> psession \<Rightarrow> bool" where
  "same_play s s' \<longleftrightarrow> ps_ID s' = ps_ID s \<and> viewing s' = viewing s \<and> ps_SlotHeld s' = ps_SlotHeld s \<and>
     NeedVideoXcode (ps_Decision s') = NeedVideoXcode (ps_Decision s)"

lemma same_play_refl [simp]: "same_play s s"
  by (simp add: same_play_def)

lemma same_play_trans: "same_play r s \<Longrightarrow> same_play s t \<Longrightarrow> same_play r t"
  by (simp add: same_play_def)

lemmas same_play_defs = same_play_def viewing_def owner_def

lemma startPipeline_same: "same_play s (fst (startPipeline ok s))"
  by (simp add: startPipeline_def same_play_defs Let_def)

lemma restart_same: "same_play s (fst (restartGeneration ok n s))"
  by (simp add: restartGeneration_def startPipeline_def same_play_defs Let_def)

lemma ensure_same: "same_play s (ensureGenerating ok n s)"
  by (simp add: ensureGenerating_def restart_same)

lemma touch_same: "same_play s (touch now s)"
  by (simp add: touch_def same_play_defs)

lemma authorized_same: "authorized p tok safe now s = (ok, s') \<Longrightarrow> same_play s s'"
  by (auto simp: authorized_def same_play_defs Let_def split: if_splits option.splits)

lemma fallback_same: "same_play s (fst (fallbackCPU ok err s))"
  by (simp add: fallbackCPU_def startPipeline_def same_play_defs Let_def)

lemma failover_same: "same_play s (fst (failover ok s))"
  by (auto simp: failover_def startPipeline_def same_play_defs Let_def split: option.splits)

lemma fail_same: "same_play s (fail_session c s)" "same_play s (s\<lparr>ps_running := r\<rparr>)"
  by (simp_all add: fail_session_def same_play_defs)

lemma encoder_exit_same: "same_play s (encoder_exit okCPU okStandby err s)"
proof -
  let ?s = "s\<lparr>ps_running := False\<rparr>"
  obtain s1 b1 where f: "fallbackCPU okCPU err ?s = (s1, b1)" by fastforce
  obtain s2 b2 where g: "failover okStandby s1 = (s2, b2)" by fastforce
  have "same_play ?s s1" "same_play s1 s2" using fallback_same [of ?s okCPU err] failover_same [of s1 okStandby] f g by simp_all
  then have "same_play s s1" "same_play s s2" "same_play s (fail_session ''FFMPEG_EXIT'' s2)"
    using fail_same by (blast intro: same_play_trans)+
  then show ?thesis
    using f g by (auto simp: encoder_exit_def Let_def fail_same(2) split: bool.split)
qed

datatype pb_event =
    CreateSession create_env "principal option" "create_body option"
  | DeleteSession pb_env "principal option" string bool string
  | Report pb_env "principal option" string bool string string int int
  | Fetch "principal option" string gtime string bool int
  | EncoderExit string bool bool string
  | ExpireTick pb_env duration
  | CloseAll pb_env
  | SetSlotCount int

text \<open>
  What the router guarantees of a creation: the caller is a user or a guest, and the session's ID
  (a fresh ULID) is not in use.
\<close>

definition may_create :: "create_env \<Rightarrow> principal option \<Rightarrow> playback \<Rightarrow> bool" where
  "may_create e p api \<longleftrightarrow> map_of (pa_Reg api) (ce_id e) = None \<and> (p = None \<or> IsUser p \<or> IsGuest p)"

text \<open>A request for a segment: the session must be live, then the segment is being made.\<close>

definition fetch :: "principal option \<Rightarrow> string \<Rightarrow> gtime \<Rightarrow> string \<Rightarrow> bool \<Rightarrow> int \<Rightarrow> playback \<Rightarrow> playback" where
  "fetch p tok now sid ok n api =
     (case live p tok True now sid api of
        (api, Live s) \<Rightarrow>
          (if n < 0 \<or> n > LastIndex (ps_VODPlan s) \<or> segmentReady s n then api
           else api\<lparr>pa_Reg := set_key sid (ensureGenerating ok n s) (pa_Reg api)\<rparr>)
      | (api, _) \<Rightarrow> api)"

definition exit_step :: "string \<Rightarrow> bool \<Rightarrow> bool \<Rightarrow> string \<Rightarrow> playback \<Rightarrow> playback" where
  "exit_step sid okCPU okStandby err api =
     (case map_of (pa_Reg api) sid of
        None \<Rightarrow> api
      | Some s \<Rightarrow>
          (let s' = encoder_exit okCPU okStandby err s
           in api\<lparr>pa_Reg := set_key sid s' (pa_Reg api),
                  pa_HW := (if ps_cpuFallback s' \<and> \<not> ps_cpuFallback s then ps_HW s' else pa_HW api)\<rparr>))"

definition pb_step :: "playback \<Rightarrow> pb_event \<Rightarrow> playback" where
  "pb_step api ev =
     (case ev of
        CreateSession e p b \<Rightarrow> if may_create e p api then fst (snd (createLocal e p b api)) else api
      | DeleteSession env p tok safe sid \<Rightarrow> fst (handleDelete_session env p tok safe sid api)
      | Report env p tok safe sid event pos dur \<Rightarrow> fst (handleProgress env p tok safe sid event pos dur api)
      | Fetch p tok now sid ok n \<Rightarrow> fetch p tok now sid ok n api
      | EncoderExit sid okCPU okStandby err \<Rightarrow> exit_step sid okCPU okStandby err api
      | ExpireTick env lease \<Rightarrow> fst (Expire env lease api)
      | CloseAll env \<Rightarrow> fst (Close env api)
      | SetSlotCount n \<Rightarrow> api\<lparr>pa_Lim := SetSlots n (pa_Lim api)\<rparr>)"

definition new_playback :: "int \<Rightarrow> session_hw \<Rightarrow> playback" where
  "new_playback slots hw = \<lparr>pa_Lim = New slots, pa_Reg = [], pa_HW = hw\<rparr>"

lemma new_playback_ok: "playback_ok (new_playback n hw)"
  by (simp add: new_playback_def playback_ok_def slots_balanced_def New_def DefaultSlots_def keys_def)

lemma replace_same:
  "playback_ok api \<Longrightarrow> map_of (pa_Reg api) sid = Some s \<Longrightarrow> same_play s s' \<Longrightarrow>
     playback_ok (api\<lparr>pa_Reg := set_key sid s' (pa_Reg api)\<rparr>)"
  using replace_ok by (auto simp: same_play_def)

lemma live_cases:
  assumes "live p tok safe now sid api = (api', r)"
  shows "api' = api \<and> (\<forall>s. r \<noteq> Live s) \<or>
    (\<exists>s s'. map_of (pa_Reg api) sid = Some s \<and> same_play s s' \<and> r = Live s' \<and>
       api' = api\<lparr>pa_Reg := set_key sid s' (pa_Reg api)\<rparr>)"
  using assms
  by (auto simp: live_def Let_def split: option.splits if_splits prod.splits bool.splits
           dest!: authorized_same intro: same_play_trans [OF _ touch_same])

text \<open>An operation that finds the session live and then replaces it by one that plays the same.\<close>

lemma live_replace:
  assumes ok: "playback_ok api" and run: "live p tok safe now sid api = (api', Live s')" and same: "same_play s' t"
  shows "playback_ok (api'\<lparr>pa_Reg := set_key sid t (pa_Reg api')\<rparr>)"
proof -
  from live_cases [OF run] obtain s where s: "map_of (pa_Reg api) sid = Some s" "same_play s s'"
    and api': "api' = api\<lparr>pa_Reg := set_key sid s' (pa_Reg api)\<rparr>" by auto
  have "playback_ok api'" unfolding api' by (rule replace_same [OF ok s])
  moreover have "map_of (pa_Reg api') sid = Some s'" by (simp add: api')
  ultimately show ?thesis by (rule replace_same [OF _ _ same])
qed

lemma live_ok: "playback_ok api \<Longrightarrow> live p tok safe now sid api = (api', r) \<Longrightarrow> playback_ok api'"
  using live_cases [of p tok safe now sid api api' r] by (auto intro: replace_same)

lemma fetch_ok:
  assumes ok: "playback_ok api"
  shows "playback_ok (fetch p tok now sid b n api)"
proof -
  obtain api' r where run: "live p tok True now sid api = (api', r)" by fastforce
  show ?thesis
    using live_ok [OF ok run] run live_replace [OF ok _ ensure_same]
    by (cases r) (auto simp: fetch_def)
qed

lemma progress_ok:
  assumes ok: "playback_ok api"
  shows "playback_ok (fst (handleProgress env p tok safe sid event pos dur api))"
proof -
  obtain api' r where run: "live p tok safe (pe_now env) sid api = (api', r)" by fastforce
  show ?thesis
  proof (cases r)
    case (Live s)
    have upd: "playback_ok (api'\<lparr>pa_Reg := set_key sid t (pa_Reg api')\<rparr>)" if "same_play s t" for t
      by (rule live_replace [OF ok run [unfolded Live] that])
    show ?thesis using run Live
      by (auto simp: handleProgress_def Let_def same_play_defs intro!: upd split: prod.split)
  qed (use run live_ok [OF ok run] in \<open>simp_all add: handleProgress_def\<close>)
qed

lemma delete_ok:
  assumes ok: "playback_ok api"
  shows "playback_ok (fst (handleDelete_session env p tok safe sid api))"
proof (cases "map_of (pa_Reg api) sid")
  case None
  then show ?thesis using ok by (simp add: handleDelete_session_def)
next
  case (Some s)
  obtain b s' where auth: "authorized p tok safe (pe_now env) s = (b, s')" by fastforce
  have "playback_ok (api\<lparr>pa_Reg := set_key sid s' (pa_Reg api)\<rparr>)"
    by (rule replace_same [OF ok Some authorized_same [OF auth]])
  then have "playback_ok (fst (remove_session env (api\<lparr>pa_Reg := set_key sid s' (pa_Reg api)\<rparr>, []) sid))"
    by (intro remove_session_ok) simp
  then show ?thesis using Some auth ok
    by (cases b) (auto simp: handleDelete_session_def split: prod.split)
qed

lemma exit_ok:
  assumes ok: "playback_ok api"
  shows "playback_ok (exit_step sid okCPU okStandby err api)"
proof (cases "map_of (pa_Reg api) sid")
  case (Some s)
  have "playback_ok (api\<lparr>pa_Reg := set_key sid (encoder_exit okCPU okStandby err s) (pa_Reg api)\<rparr>)"
    by (rule replace_same [OF ok Some encoder_exit_same])
  then show ?thesis using Some by (simp add: exit_step_def Let_def playback_ok_def slots_balanced_def)
qed (simp add: exit_step_def ok)

lemma pb_step_ok: "playback_ok api \<Longrightarrow> playback_ok (pb_step api ev)"
proof (induction ev)
  case (CreateSession e p b)
  obtain r api' es where run: "createLocal e p b api = (r, api', es)" by (metis prod_cases3)
  show ?case
  proof (cases "may_create e p api")
    case True
    then have "create_result api (ce_id e) r api'"
      using createLocal_ok [OF CreateSession _ _ run] by (auto simp: may_create_def)
    then show ?thesis using run True by (simp add: pb_step_def create_result_def)
  qed (simp add: pb_step_def CreateSession)
next
  case (SetSlotCount n)
  then show ?case
    by (auto simp: pb_step_def playback_ok_def slots_balanced_def SetSlots_def DefaultSlots_def)
qed (auto simp: pb_step_def fetch_ok progress_ok delete_ok exit_ok Expire_def Close_def intro!: remove_all_ok)

interpretation playing: invariant_machine pb_step playback_ok
  by unfold_locales (rule pb_step_ok)

end
