(* ===== verification/Playback_Properties.thy ===== *)
theory Playback_Properties
  imports Playback_Safety Party_Hub
begin

text \<open>
  The properties of the playback service that rest on \<open>Playback_Safety\<close>, each with a concrete run:
  slots and sessions, creations that fail, who gets to a file and to a session, what the exits of
  an encoder lead to, and what happens when two requests end the same session at once.
\<close>

section \<open>Slots and sessions\<close>

text \<open>C15. Whatever creations, deletions, reports, fetches, encoder exits, expiries and changes of the number of
  slots a server has seen, the limiter counts exactly the sessions that hold a slot, every session
  whose video is encoded holds one, each session is registered under its own ID, and a viewer has
  at most one session of a title.\<close>

theorem sessions_hold_slots:
  assumes run: "api = foldl pb_step (new_playback n hw) evs" and s: "map_of (pa_Reg api) sid = Some s"
  shows "l_active (pa_Lim api) = int (length (filter (\<lambda>(_, s). ps_SlotHeld s) (pa_Reg api))) \<and>
    (NeedVideoXcode (ps_Decision s) \<longrightarrow> ps_SlotHeld s) \<and> ps_ID s = sid \<and>
    (map_of (pa_Reg api) sid' = Some s' \<and> viewing s' = viewing s \<longrightarrow> sid' = sid)"
proof -
  have ok: "playback_ok api" unfolding run by (rule playing.run_keeps [OF new_playback_ok])
  have "(sid, s) \<in> set (pa_Reg api)" using s by (rule map_of_SomeD)
  then have "session_ok sid s" using playback_okD(3) [OF ok] by blast
  moreover have "sid' = sid" if "map_of (pa_Reg api) sid' = Some s'" "viewing s' = viewing s"
    using playback_okD(4) [OF ok] map_of_SomeD [OF s] map_of_SomeD [OF that(1)] that(2)
    by (force simp: distinct_map inj_on_def)
  ultimately show ?thesis
    using playback_okD(1) [OF ok] by (auto simp: session_ok_def slots_balanced_def held_def)
qed

text \<open>C16. A creation that fails leaves no session and no slot behind: it registers nothing, every slot
  still counted belongs to a session, and the answer that the server is at capacity is given only
  when every slot is taken.\<close>

theorem create_failure_clean:
  assumes ok: "playback_ok api" and may: "may_create e p api"
    and run: "createLocal e p body api = (Fail code msg, api', es)"
  shows "set (pa_Reg api') \<subseteq> set (pa_Reg api) \<and> slots_balanced api' \<and>
    (code = 429 \<and> msg = ''LOAD_429'' \<longrightarrow> l_Slots (pa_Lim api') \<le> int (held (pa_Reg api')))"
proof -
  have "create_result api (ce_id e) (Fail code msg) api'"
    using createLocal_ok [OF ok _ _ run] may by (auto simp: may_create_def)
  then show ?thesis by (auto simp: create_result_def playback_ok_def slots_balanced_def)
qed

section \<open>Who gets to a file\<close>

lemma party_access_room:
  "PartyAccess pid kind iid h \<Longrightarrow>
     \<exists>rid room. find_room h rid = Some room \<and> lookup_member room pid \<noteq> None \<and> room_has_item room kind iid"
  by (fastforce simp: PartyAccess_def list_ex_iff split: option.splits)


text \<open>C18. A guest of a share may name the file to play, and for a guest the file is not compared with
  the item: with a share of one title, and the ID of a file of any other title, the server hands
  out that other file. For a user the same request is refused.\<close>

theorem guest_plays_unshared_file:
  assumes guest: "IsGuest (Some p)" "p_MediaKind p = kind" "p_MediaID p = iid"
      "le_AllowStream le (p_GuestSessionID p) kind iid = GateOK"
    and srv: "le_Locator le" and chosen: "mediaFileID \<noteq> []" "le_LocateFile le mediaFileID = Some f"
      "lf_ItemID f \<noteq> iid" "lf_ItemID f \<noteq> []"
  shows "locate le p kind iid mediaFileID = Inr f \<and>
    (IsUser (Some q) \<longrightarrow> locate le q kind iid mediaFileID = Inl Hidden)"
  using assms user_not_guest [of "Some p"] user_not_guest [of "Some q"] by (auto simp: locate_def Let_def)

text \<open>A request reaches a session exactly if its caller is the session's viewer and either sends no
  stream token or only reads, or if it carries the session's token while that has not expired; the
  second prolongs the token by 20 minutes, and nothing else about the session changes.\<close>

theorem authorized_exact:
  "authorized p tok safe now s =
     (let viewer = (case p of None \<Rightarrow> False | Some q \<Rightarrow> owner s = (p_Kind q, ID p)) \<and> (tok = [] \<or> safe);
          token = tok \<noteq> [] \<and> tok = ps_Stoken s \<and> now < ps_StokenExp s
      in (viewer \<or> token, if token \<and> \<not> viewer then s\<lparr>ps_StokenExp := now + seconds 1200\<rparr> else s))"
  by (cases p; cases "tok = []"; cases "ps_Stoken s = []"; simp add: authorized_def Let_def owns_owner stokenTTL_def; blast)

section \<open>Exits of the encoder\<close>

definition exits :: "(bool \<times> bool \<times> string) list \<Rightarrow> psession \<Rightarrow> psession" where
  "exits xs s = foldl (\<lambda>s (okCPU, okStandby, err). encoder_exit okCPU okStandby err s) s xs"

definition restarts_left :: "psession \<Rightarrow> nat" where
  "restarts_left s = (if ps_cpuFallback s then 0 else 1) + (if ps_Standby s = None \<or> ps_FailoverUsed s then 0 else 1)"

lemma fallback_cases:
  assumes "fallbackCPU ok err s = (t, b)"
  shows "ps_killed t = ps_killed s \<and> ps_Standby t = ps_Standby s \<and> ps_FailoverUsed t = ps_FailoverUsed s \<and>
    (if b then \<not> ps_cpuFallback s \<and> ps_cpuFallback t \<and> ps_running t \<and> \<not> ps_restarting t
     else ps_running t = ps_running s \<and> ps_restarting t = ps_restarting s)"
  using assms by (simp add: fallbackCPU_def startPipeline_def Let_def split: if_splits) auto

lemma failover_cases:
  assumes "failover ok s = (t, b)"
  shows "ps_killed t = ps_killed s \<and> ps_cpuFallback t = ps_cpuFallback s \<and>
    (if b then ps_Standby s \<noteq> None \<and> \<not> ps_FailoverUsed s \<and> ps_FailoverUsed t \<and> ps_running t \<and> \<not> ps_restarting t
     else ps_running t = ps_running s \<and> (\<not> ps_restarting s \<longrightarrow> \<not> ps_restarting t))"
  using assms
  by (cases "ps_Standby s") (auto simp: failover_def startPipeline_def Let_def split: if_splits prod.splits)

lemma fallback_keeps: "fallbackCPU ok err s = (t, b) \<Longrightarrow> ps_cpuFallback s \<Longrightarrow> ps_cpuFallback t"
  by (simp add: fallbackCPU_def split: if_splits)

lemma exit_progress:
  assumes "ps_running s" "\<not> ps_killed s" "\<not> ps_restarting s" "t = encoder_exit okCPU okStandby err s"
  shows "\<not> ps_killed t \<and> \<not> ps_restarting t \<and>
    (ps_running t \<and> restarts_left t < restarts_left s \<or> \<not> ps_running t \<and> ps_Failed t \<and> ps_FailCode t = ''FFMPEG_EXIT'')"
proof -
  obtain s1 b1 where f: "fallbackCPU okCPU err (s\<lparr>ps_running := False\<rparr>) = (s1, b1)" by fastforce
  obtain s2 b2 where g: "failover okStandby s1 = (s2, b2)" by fastforce
  have t: "t = (if b1 then s1 else if b2 then s2 else fail_session ''FFMPEG_EXIT'' s2)"
    using assms f g by (simp add: encoder_exit_def Let_def split: bool.splits)
  show ?thesis
    using fallback_cases [OF f] failover_cases [OF g] fallback_keeps [OF f] assms(2,3)
    unfolding t restarts_left_def by (cases b1; cases b2) (auto simp: fail_session_def)
qed

lemma exit_idle: "\<not> ps_running s \<Longrightarrow> exits xs s = s"
  by (induction xs) (auto simp: exits_def encoder_exit_def)

text \<open>C19. An encoder that keeps dying is not restarted for ever: once it has exited with an error more often
  than there are restarts left (one without the graphics card, one from the standby copy of the
  file, so at most two), the session is failed with FFMPEG_EXIT and nothing runs.\<close>

theorem encoder_exits_end:
  assumes "ps_running s" "\<not> ps_killed s" "\<not> ps_restarting s" "restarts_left s < length xs"
  shows "ps_Failed (exits xs s) \<and> ps_FailCode (exits xs s) = ''FFMPEG_EXIT'' \<and> \<not> ps_running (exits xs s) \<and> restarts_left s \<le> 2"
  using assms
proof (induction xs arbitrary: s)
  case (Cons x xs)
  obtain a b err where x: "x = (a, b, err)" by (metis prod_cases3)
  define t where "t = encoder_exit a b err s"
  have step: "exits (x # xs) s = exits xs t" by (simp add: exits_def x t_def)
  have two: "restarts_left s \<le> 2" by (simp add: restarts_left_def)
  from exit_progress [OF Cons.prems(1-3) t_def] show ?case
    unfolding step using Cons.IH [of t] Cons.prems(4) exit_idle [of t xs] two by auto
qed simp

section \<open>Two requests end the same session\<close>

text \<open>
  \<^verbatim>\<open>kill\<close> reads the flag \<^verbatim>\<open>SlotHeld\<close>, gives the slot back and clears the flag with no lock around the
  three. \<open>handleDelete_session\<close> calls it whether or not its \<^verbatim>\<open>Reg.Delete\<close> found the session. Two calls of it
  on one session are two threads of three steps each; a thread's local state is the flag it read.
\<close>

datatype kill_pc = AtRead | AtRelease | AtClear | Finished

record kill_state =
  ks_held :: bool
  ks_lim :: slot_limiter
  ks_pc :: "nat \<Rightarrow> kill_pc"

definition kill_turn :: "nat \<Rightarrow> kill_state \<Rightarrow> kill_state" where
  "kill_turn i st =
     (case ks_pc st i of
        AtRead \<Rightarrow> st\<lparr>ks_pc := (ks_pc st)(i := if ks_held st then AtRelease else Finished)\<rparr>
      | AtRelease \<Rightarrow> st\<lparr>ks_lim := Release (ks_lim st), ks_pc := (ks_pc st)(i := AtClear)\<rparr>
      | AtClear \<Rightarrow> st\<lparr>ks_held := False, ks_pc := (ks_pc st)(i := Finished)\<rparr>
      | Finished \<Rightarrow> st)"

definition kills :: "nat list \<Rightarrow> psession \<Rightarrow> slot_limiter \<Rightarrow> kill_state" where
  "kills sched s lm =
     foldl (\<lambda>st i. kill_turn i st) \<lparr>ks_held = ps_SlotHeld s, ks_lim = lm, ks_pc = (\<lambda>_. AtRead)\<rparr> sched"

text \<open>One after the other the calls are \<open>kill_slot\<close>, which gives back one slot and then none.\<close>

lemma kills_one: "ks_lim (kills [0, 0, 0] s lm) = snd (kill_slot s lm)"
  by (simp add: kills_def kill_turn_def kill_slot_def)

lemma kills_in_turn: "ks_lim (kills [0, 0, 0, 1, 1, 1] s lm) = snd (kill_slot s lm)"
  by (simp add: kills_def kill_turn_def kill_slot_def)

text \<open>Two overlapping requests that end one session can give back two slots: if both read the flag
  before either clears it, the limiter then counts one session too few, and the next transcode is
  admitted although the sessions that still run hold every slot.\<close>

theorem double_end_frees_two_slots:
  assumes ok: "playback_ok api" and s: "map_of (pa_Reg api) sid = Some s" "ps_SlotHeld s"
    and other: "map_of (pa_Reg api) sid2 = Some s2" "ps_SlotHeld s2" "sid2 \<noteq> sid"
    and full: "l_active (pa_Lim api) = l_Slots (pa_Lim api)"
  defines "st \<equiv> kills [0, 1, 0, 1, 0, 1] s (pa_Lim api)"
    and "left \<equiv> del_key sid (pa_Reg api)"
  shows "ks_pc st 0 = Finished \<and> ks_pc st 1 = Finished \<and>
    l_active (ks_lim st) = int (held left) - 1 \<and>
    l_active (ks_lim (kills [0, 0, 0, 1, 1, 1] s (pa_Lim api))) = int (held left) \<and>
    snd (TryAcquire (ks_lim st)) \<and> snd (TryAcquire (fst (TryAcquire (ks_lim st))))"
proof -
  have d: "distinct (keys (pa_Reg api))" and act: "l_active (pa_Lim api) = int (held (pa_Reg api))"
    using playback_okD [OF ok] by (simp_all add: slots_balanced_def)
  have left: "held left + 1 = held (pa_Reg api)" using held_del [OF d s(1)] s(2) by (simp add: left_def)
  have "map_of left sid2 = Some s2" using other by (simp add: left_def)
  then have "0 < held left" using other(2) by (rule held_pos)
  then show ?thesis
    using left act full s(2)
    by (auto simp: st_def kills_def kill_turn_def Release_def TryAcquire_def)
qed

section \<open>Two viewers on a server with two slots\<close>

definition pb_demo_viewer :: "string \<Rightarrow> principal" where
  "pb_demo_viewer name = \<lparr>p_Kind = KindUser, p_UserID = name, p_GuestSessionID = [], p_MediaKind = [], p_MediaID = [],
     p_IsAdmin = False, p_DisplayName = name, p_Username = name, p_CanDownload = False, p_Permissions = [],
     p_PartyOnly = False\<rparr>"

definition pb_demo_file :: "string \<Rightarrow> located" where
  "pb_demo_file iid = \<lparr>lf_ID = ''f'', lf_LibraryID = ''lib'', lf_AbsPath = ''/m.mkv'', lf_ItemKind = ''movie'', lf_ItemID = iid,
     lf_DurationMS = 60000, lf_Container = ''mkv'', lf_VideoCodec = ''h264'', lf_AudioCodec = ''aac'', lf_Width = 1280,
     lf_Height = 720, lf_Size = 1000000, lf_Copy = False\<rparr>"

definition pb_demo_locate :: locate_env where
  "pb_demo_locate = \<lparr>le_AllowStream = (\<lambda>_ _ _. GateOK), le_Locator = True, le_LocateFile = (\<lambda>_. Some (pb_demo_file ''m2'')),
     le_LocateItem = (\<lambda>_ iid. Some (pb_demo_file iid)), le_DB = True, le_PlaybackPermitted = (\<lambda>_ _. True), le_partyGranted = False,
     le_partyAccess = (\<lambda>pid k i. PartyAccess pid k i (empty_hub 0)), le_Grants = True, le_CanRead = (\<lambda>u l. l = ''lib'')\<rparr>"

definition pb_demo_env :: "string \<Rightarrow> create_env" where
  "pb_demo_env sid = \<lparr>pe_now = seconds 100, pe_Progress = True, pe_put_ok = (\<lambda>_. True), ce_id = sid, ce_token = Some ''tok'',
     ce_UA = [], ce_LAN = True, ce_guestQuality = (\<lambda>_. []), ce_RemoteBitrate = 0, ce_defaults = None, ce_audioPresent = False,
     ce_subPresent = False, ce_Sources = False,
     ce_Resolve = (\<lambda>_ _ _ _ _. ResolveLocal), ce_onDisk = (\<lambda>_. True), ce_ItemRating = (\<lambda>_ _. Some ''lib''),
     ce_ItemPermitted = (\<lambda>_ _ _. True), ce_loc = pb_demo_locate, ce_standby = Some (pb_demo_file ''m1''),
     ce_probe = (\<lambda>_. Some (wit_info ''mkv'' 720)), ce_resume = (\<lambda>_ _ _. Some 30000), ce_dir = Some ''/c'',
     ce_keyframes = Some [0, 4000, 9000, 15000, 21000, 30000, 40000, 50000], ce_wrote = True, ce_pipeline = True\<rparr>"

definition pb_demo_body :: "string \<Rightarrow> create_body" where
  "pb_demo_body quality = \<lparr>cb_ItemKind = ''movie'', cb_ItemID = ''m1'', cb_MediaFileID = [], cb_StartMS = None, cb_Quality = quality,
     cb_AudioIndex = 0, cb_SubtitleIndex = None, cb_Client = empty_profile\<lparr>HLSNative := Some True\<rparr>, cb_ReplaceSessionID = [],
     cb_Source = [], cb_audioChosen = False, cb_subChosen = False, cb_audioLang = [], cb_subLang = [], cb_subMode = []\<rparr>"

definition pb_demo_hw :: session_hw where
  "pb_demo_hw = \<lparr>sh_hw = \<lparr>VAAPI = False, NVENC = True, ZScale = True\<rparr>, sh_H264NVENC = True, sh_Available = True\<rparr>"

definition pb_demo_create :: "string \<Rightarrow> string \<Rightarrow> string \<Rightarrow> pb_event" where
  "pb_demo_create sid name quality = CreateSession (pb_demo_env sid) (Some (pb_demo_viewer name)) (Some (pb_demo_body quality))"

definition pb_demo_one :: playback where
  "pb_demo_one = foldl pb_step (new_playback 1 pb_demo_hw) [pb_demo_create ''s1'' ''ann'' ''480'']"



definition pb_demo_dec :: "string \<Rightarrow> dec_result" where
  "pb_demo_dec quality = Decide \<lparr>Info = Some (wit_info ''mkv'' 720), Client = empty_profile\<lparr>HLSNative := Some True\<rparr>,
     Quality = quality, LAN = True, ShareMaxH = 0, RemoteBitrate = 0, AudioIndex = 0, SubtitleIndex = None,
     HW = sh_hw pb_demo_hw, Original = False\<rparr>"

lemma pb_demo_decision:
  "session_decision (pb_demo_env sid) (pb_demo_viewer name) (pb_demo_body q) (pb_demo_file ''m1'') pb_demo_hw = (pb_demo_body q, pb_demo_dec q)"
  by (simp add: session_decision_def langTracks_def validTracks_def probe_def pb_demo_env_def pb_demo_body_def pb_demo_viewer_def
      pb_demo_file_def pb_demo_dec_def Let_def IsGuest_def KindUser_def KindGuestShare_def)

lemma pb_demo_480: "NeedVideoXcode (pb_demo_dec ''480'')" "Refuse (pb_demo_dec ''480'') = []" "Delivery (pb_demo_dec ''480'') = DeliveryHLS"
   "res_HLSAttach (pb_demo_dec ''480'') = ''native''"
  by code_simp+

lemma pb_demo_locate_file:
  "locate pb_demo_locate (pb_demo_viewer name) ''movie'' iid [] = Inr (pb_demo_file iid)"
  by (simp add: locate_def pb_demo_locate_def pb_demo_viewer_def pb_demo_file_def IsGuest_def KindUser_def KindGuestShare_def Let_def)

lemma pb_demo_ua: "WithUA (empty_profile\<lparr>HLSNative := Some True\<rparr>) [] = (empty_profile\<lparr>HLSNative := Some True\<rparr>)"
  by (simp add: WithUA_def)

lemma pb_demo_create_located: "createLocal (pb_demo_env sid) (Some (pb_demo_viewer name)) (Some (pb_demo_body q)) api =
  create_located (pb_demo_env sid) (pb_demo_viewer name) (pb_demo_body q) (pb_demo_file ''m1'') api"
proof -
  have "ce_loc (pb_demo_env sid) = pb_demo_locate" "remote_choice (pb_demo_env sid) p b = RemoteNone" for p b
    by (simp_all add: pb_demo_env_def remote_choice_def)
  then show ?thesis
    by (simp add: createLocal_def applyProfileDefaults_def pb_demo_env_def pb_demo_body_def pb_demo_ua pb_demo_locate_file)
qed


definition pb_demo_fresh :: "string \<Rightarrow> string \<Rightarrow> psession" where
  "pb_demo_fresh sid name = (local_session (pb_demo_env sid) (pb_demo_viewer name) (pb_demo_body ''480'') (pb_demo_file ''m1'')
     (wit_info ''mkv'' 720) (pb_demo_dec ''480'') ''tok'' pb_demo_hw)\<lparr>ps_Dir := ''/c''\<rparr>"

definition pb_demo_session :: "string \<Rightarrow> string \<Rightarrow> psession" where
  "pb_demo_session sid name = fst (startPipeline True (install_plan (EqualLengthPlan 60000 4) ''equal'' (pb_demo_fresh sid name)))"

lemma pb_demo_session_fields:
  "ps_ID (pb_demo_session sid name) = sid" "ps_Kind (pb_demo_session sid name) = ''user''" "ps_UserID (pb_demo_session sid name) = name"
  "ps_ItemKind (pb_demo_session sid name) = ''movie''" "ps_ItemID (pb_demo_session sid name) = ''m1''"
  "ps_SlotHeld (pb_demo_session sid name)" "ps_Decision (pb_demo_session sid name) = pb_demo_dec ''480''"
  by (simp_all add: pb_demo_session_def pb_demo_fresh_def startPipeline_def install_plan_def local_session_def base_session_def Let_def
      pb_demo_env_def pb_demo_viewer_def KindUser_def pb_demo_body_def NeedsVideoSlot_def pb_demo_480)

lemma pb_demo_starts:
  "start_session (pb_demo_env sid) (local_session (pb_demo_env sid) (pb_demo_viewer name) (pb_demo_body ''480'') (pb_demo_file ''m1'')
     (probe (pb_demo_env sid) (pb_demo_file ''m1'')) (pb_demo_dec ''480'') ''tok'' pb_demo_hw) api =
   (Session sid, put_session (pb_demo_session sid name) api, [])"
  by (simp add: start_session_def pb_demo_session_def pb_demo_fresh_def prepareVOD_def useVODOnDemand_def soft_encoder_def startPipeline_def
      install_plan_def local_session_def base_session_def probe_def VideoEncoder_def pb_demo_hw_def Let_def pb_demo_480
      pb_demo_env_def pb_demo_file_def wit_info_def)

lemma pb_demo_opens:
  assumes hw: "pa_HW api = pb_demo_hw"
    and none: "filter (\<lambda>(sid, s). owns s ''user'' name \<and> ps_ItemKind s = ''movie'' \<and> ps_ItemID s = ''m1'') (pa_Reg api) = []"
  shows "createLocal (pb_demo_env sid) (Some (pb_demo_viewer name)) (Some (pb_demo_body ''480'')) api =
    (if l_active (pa_Lim api) < l_Slots (pa_Lim api)
     then (Session sid, put_session (pb_demo_session sid name)
            (api\<lparr>pa_Lim := (pa_Lim api)\<lparr>l_active := l_active (pa_Lim api) + 1\<rparr>\<rparr>), [])
     else (Fail 429 ''LOAD_429'', api, []))"
proof -
  have sup: "supersedePlayback (env_of (pb_demo_env sid)) (pb_demo_viewer name) ''movie'' ''m1'' [] api = (api, [])"
    using none by (simp add: supersedePlayback_def Let_def pb_demo_viewer_def KindUser_def ID_def IsGuest_def KindGuestShare_def)
  have body: "cb_ItemKind (pb_demo_body ''480'') = ''movie''" "cb_ItemID (pb_demo_body ''480'') = ''m1''"
    "cb_ReplaceSessionID (pb_demo_body ''480'') = []" by (simp_all add: pb_demo_body_def)
  have tok: "ce_token (pb_demo_env sid) = Some ''tok''" "lf_AbsPath (pb_demo_file ''m1'') \<noteq> []" by (simp_all add: pb_demo_env_def pb_demo_file_def)
  show ?thesis
    unfolding pb_demo_create_located create_located_def hw pb_demo_decision
    using pb_demo_starts by (simp add: body sup tok hw pb_demo_480 NeedsVideoSlot_def TryAcquire_def)
qed

definition pb_demo_two :: playback where
  "pb_demo_two = foldl pb_step (new_playback 2 pb_demo_hw) [pb_demo_create ''s1'' ''ann'' ''480'', pb_demo_create ''s2'' ''bob'' ''480'']"

lemma pb_demo_two_eq: "pb_demo_two = \<lparr>pa_Lim = \<lparr>l_Slots = 2, l_active = 2\<rparr>,
   pa_Reg = [(''s1'', pb_demo_session ''s1'' ''ann''), (''s2'', pb_demo_session ''s2'' ''bob'')], pa_HW = pb_demo_hw\<rparr>"
proof -
  have user: "IsUser (Some (pb_demo_viewer name))" if "name \<noteq> []" for name
    using that by (simp add: IsUser_def pb_demo_viewer_def)
  have sid: "ce_id (pb_demo_env sid) = sid" for sid by (simp add: pb_demo_env_def)
  let ?one = "\<lparr>pa_Lim = \<lparr>l_Slots = 2, l_active = 1\<rparr>, pa_Reg = [(''s1'', pb_demo_session ''s1'' ''ann'')], pa_HW = pb_demo_hw\<rparr>"
  have "pb_step (new_playback 2 pb_demo_hw) (pb_demo_create ''s1'' ''ann'' ''480'') = ?one"
    using pb_demo_opens [of "new_playback 2 pb_demo_hw" "''ann''" "''s1''"] user [of "''ann''"]
    by (simp add: pb_step_def pb_demo_create_def may_create_def sid new_playback_def New_def put_session_def pb_demo_session_fields
          set_key_def)
  moreover have "pb_step ?one (pb_demo_create ''s2'' ''bob'' ''480'') = \<lparr>pa_Lim = \<lparr>l_Slots = 2, l_active = 2\<rparr>,
   pa_Reg = [(''s1'', pb_demo_session ''s1'' ''ann''), (''s2'', pb_demo_session ''s2'' ''bob'')], pa_HW = pb_demo_hw\<rparr>"
    using pb_demo_opens [of ?one "''bob''" "''s2''"] user [of "''bob''"]
    by (simp add: pb_step_def pb_demo_create_def may_create_def sid put_session_def pb_demo_session_fields owns_def set_key_def)
  ultimately show ?thesis by (simp add: pb_demo_two_def)
qed

lemma pb_demo_two_ok: "playback_ok pb_demo_two"
  unfolding pb_demo_two_def by (rule playing.run_keeps [OF new_playback_ok])

theorem sessions_hold_slots_witness:
  "l_active (pa_Lim pb_demo_two) = int (length (filter (\<lambda>(_, s). ps_SlotHeld s) (pa_Reg pb_demo_two))) \<and>
   ps_SlotHeld (pb_demo_session ''s1'' ''ann'')"
proof -
  have "map_of (pa_Reg pb_demo_two) ''s1'' = Some (pb_demo_session ''s1'' ''ann'')" by (simp add: pb_demo_two_eq)
  from sessions_hold_slots [OF pb_demo_two_def this] show ?thesis by (simp add: pb_demo_session_fields pb_demo_480)
qed

theorem create_failure_clean_witness:
  "slots_balanced pb_demo_two \<and> l_Slots (pa_Lim pb_demo_two) \<le> int (held (pa_Reg pb_demo_two))"
proof -
  have may: "may_create (pb_demo_env ''s3'') (Some (pb_demo_viewer ''cy'')) pb_demo_two"
    by (simp add: may_create_def pb_demo_two_eq pb_demo_env_def IsUser_def pb_demo_viewer_def)
  have "createLocal (pb_demo_env ''s3'') (Some (pb_demo_viewer ''cy'')) (Some (pb_demo_body ''480'')) pb_demo_two =
      (Fail 429 ''LOAD_429'', pb_demo_two, [])"
    using pb_demo_opens [of pb_demo_two "''cy''" "''s3''"] by (simp add: pb_demo_two_eq pb_demo_session_fields owns_def)
  from create_failure_clean [OF pb_demo_two_ok may this] show ?thesis by simp
qed

theorem double_end_frees_two_slots_witness:
  "l_active (ks_lim (kills [0, 1, 0, 1, 0, 1] (pb_demo_session ''s1'' ''ann'') (pa_Lim pb_demo_two))) = 0 \<and>
   held (del_key ''s1'' (pa_Reg pb_demo_two)) = 1"
proof -
  have "held (del_key ''s1'' (pa_Reg pb_demo_two)) = 1" by (simp add: pb_demo_two_eq pb_demo_session_fields del_key_def)
  moreover have "map_of (pa_Reg pb_demo_two) ''s1'' = Some (pb_demo_session ''s1'' ''ann'')"
    "map_of (pa_Reg pb_demo_two) ''s2'' = Some (pb_demo_session ''s2'' ''bob'')" "l_active (pa_Lim pb_demo_two) = l_Slots (pa_Lim pb_demo_two)"
    by (simp_all add: pb_demo_two_eq)
  ultimately show ?thesis
    using double_end_frees_two_slots [OF pb_demo_two_ok, of "''s1''" "pb_demo_session ''s1'' ''ann''" "''s2''" "pb_demo_session ''s2'' ''bob''"]
    by (simp add: pb_demo_session_fields)
qed


definition pb_demo_guest :: principal where
  "pb_demo_guest = \<lparr>p_Kind = KindGuestShare, p_UserID = [], p_GuestSessionID = ''g1'', p_MediaKind = ''movie'', p_MediaID = ''m1'',
     p_IsAdmin = False, p_DisplayName = ''Guest'', p_Username = [], p_CanDownload = False, p_Permissions = [], p_PartyOnly = False\<rparr>"

theorem guest_plays_unshared_file_witness:
  "locate pb_demo_locate pb_demo_guest ''movie'' ''m1'' ''f'' = Inr (pb_demo_file ''m2'') \<and>
   locate pb_demo_locate (pb_demo_viewer ''ann'') ''movie'' ''m1'' ''f'' = Inl Hidden"
proof -
  have "IsGuest (Some pb_demo_guest)" "IsUser (Some (pb_demo_viewer ''ann''))"
    by (simp_all add: pb_demo_guest_def pb_demo_viewer_def IsGuest_def IsUser_def)
  then show ?thesis
    using guest_plays_unshared_file [of pb_demo_guest "''movie''" "''m1''" pb_demo_locate "''f''" "pb_demo_file ''m2''"
        "pb_demo_viewer ''ann''"]
    by (simp add: pb_demo_guest_def pb_demo_locate_def pb_demo_file_def)
qed

theorem encoder_exits_end_witness:
  "ps_Failed (exits [(True, True, ''device creation failed''), (True, True, []), (True, True, [])] (pb_demo_session ''s1'' ''ann''))"
proof -
  have "ps_running (pb_demo_session ''s1'' ''ann'')" "\<not> ps_killed (pb_demo_session ''s1'' ''ann'')"
    "\<not> ps_restarting (pb_demo_session ''s1'' ''ann'')"
    by (simp_all add: pb_demo_session_def pb_demo_fresh_def startPipeline_def install_plan_def local_session_def base_session_def Let_def)
  moreover have "restarts_left (pb_demo_session ''s1'' ''ann'') < 3" by (simp add: restarts_left_def)
  ultimately show ?thesis using encoder_exits_end [of "pb_demo_session ''s1'' ''ann''"] by simp
qed

section \<open>Concrete runs of a session on demand\<close>

lemma pb_demo_fresh_fields:
  "ps_Delivery (pb_demo_fresh sid name) = DeliveryHLS" "ps_HLSAttach (pb_demo_fresh sid name) = ''native''"
  "ps_DurationMS (pb_demo_fresh sid name) = 60000" "name \<noteq> [] \<Longrightarrow> ps_StartMS (pb_demo_fresh sid name) = 30000"
  "NeedVideoXcode (ps_Decision (pb_demo_fresh sid name))" "ps_SlotHeld (pb_demo_fresh sid name)"
  "\<not> ps_killed (pb_demo_fresh sid name)" "ps_AbsPath (pb_demo_fresh sid name) = ''/m.mkv''"
  "ps_files (pb_demo_fresh sid name) = []" "ps_GenerationID (pb_demo_fresh sid name) = 0"
  "\<not> soft_encoder (pb_demo_fresh sid name)"
  using pb_demo_480
  by (simp_all add: pb_demo_fresh_def local_session_def base_session_def Let_def start_position_def pb_demo_env_def
      pb_demo_body_def pb_demo_viewer_def IsUser_def KindUser_def wit_info_def pb_demo_file_def NeedsVideoSlot_def
      soft_encoder_def VideoEncoder_def pb_demo_hw_def)

theorem prepareVOD_sound_witness:
  "vodStartMS (install_plan (EqualLengthPlan 60000 4) ''equal'' (pb_demo_fresh ''s1'' ''ann'')) \<le> 30000"
proof -
  have "prepareVOD None True (pb_demo_fresh ''s1'' ''ann'') (New 2) =
      (install_plan (EqualLengthPlan 60000 4) ''equal'' (pb_demo_fresh ''s1'' ''ann''), New 2, None)"
    by (simp add: prepareVOD_def useVODOnDemand_def pb_demo_fresh_fields Let_def)
  from prepareVOD_sound [OF this] show ?thesis by (simp add: useVODOnDemand_def pb_demo_fresh_fields)
qed

theorem ensureGenerating_reaches_witness:
  "segmentReady (ensureGenerating True 3 (pb_demo_fresh ''s1'' ''ann'')) 3 \<or>
   ps_genStartSeg (ensureGenerating True 3 (pb_demo_fresh ''s1'' ''ann'')) \<le> 3"
  using ensureGenerating_reaches [of "pb_demo_fresh ''s1'' ''ann''" 3] by (auto simp: pb_demo_fresh_fields)

definition pb_demo_obs :: "nat \<Rightarrow> wait_obs" where
  "pb_demo_obs i = \<lparr>wo_ready = 3 \<le> i, wo_failed = False, wo_ctxErr = False, wo_high = 0, wo_now = seconds (int i),
     wo_check = seconds (int i), wo_done = False\<rparr>"

theorem waitReady_ends_witness: "\<exists>fuel r j. waitReady fuel (seconds 45) 0 pb_demo_obs = Some (r, j)"
proof -
  have "wait_clock pb_demo_obs" by (simp add: wait_clock_def pb_demo_obs_def seconds_def)
  from waitReady_ends [OF this, of 0 "seconds 45" 0] show ?thesis by (auto simp: pb_demo_obs_def seconds_def)
qed

end
