(* ===== verification/Access.thy ===== *)
theory Access
  imports Principal
begin

text \<open>
  Accounts, roles and what they permit (\<^verbatim>\<open>src/internal/auth/rbac.go\<close>, \<^verbatim>\<open>ceiling.go\<close>, \<^verbatim>\<open>grants.go\<close> and
  the operations of \<^verbatim>\<open>service.go\<close> that create, disable and delete accounts). Tables are lists, their
  foreign keys and cascades are written out; a permission is its name. The database answers: its
  outages are the subject of \<open>Breaker\<close>. New IDs are arguments.
\<close>

section \<open>Tables\<close>

record account =
  ac_Username :: string
  ac_DisplayName :: string
  ac_IsAdmin :: bool
  ac_Disabled :: bool
  ac_PINHash :: string
  ac_Temporary :: bool
  ac_ExpiresAt :: gtime
  ac_PartyOnly :: bool
  ac_HasPassword :: bool
  ac_MaxSessions :: int
  ac_CreatedBy :: string
  ac_AgeLimit :: int

record role_row =
  rl_Name :: string
  rl_Description :: string
  rl_IsSystem :: bool

record session_row =
  se_ID :: string
  se_UserID :: string
  se_ExpiresAt :: gtime
  se_LastSeen :: gtime

record auth_db =
  db_users :: "(string \<times> account) list"
  db_roles :: "(string \<times> role_row) list"
  db_permissions :: "string list"
  db_role_perms :: "(string \<times> string) list"
  db_user_roles :: "(string \<times> string) list"
  db_sessions :: "(string \<times> session_row) list"
  db_original :: string
  db_user_grants :: "((string \<times> string) \<times> bool) list"
  db_role_grants :: "((string \<times> string) \<times> bool) list"
  db_libraries :: "string list"
  db_source_libraries :: "string list"

datatype access_error =
    ErrPrivilegeCeiling | ErrAdministratorsManage | ErrLastAdmin | ErrProtectedUser
  | ErrConstraint | ErrNotFound | ErrNameRequired | ErrBuiltIn | ErrOwnAccount

definition RoleAdministrator :: string where "RoleAdministrator = ''sys-administrator''"
definition RoleSuperadmin :: string where "RoleSuperadmin = ''sys-superadmin''"
definition RoleUser :: string where "RoleUser = ''sys-user''"
definition PermAdministratorsManage :: string where "PermAdministratorsManage = ''administrators.manage''"

section \<open>Roles and permissions\<close>

definition rolePerms :: "auth_db \<Rightarrow> string \<Rightarrow> string list" where
  "rolePerms db rid = map snd (filter (\<lambda>(r, p). r = rid) (db_role_perms db))"

definition RoleIDsFor :: "auth_db \<Rightarrow> string \<Rightarrow> string list" where
  "RoleIDsFor db uid = map snd (filter (\<lambda>(u, r). u = uid) (db_user_roles db))"

definition PermissionsFor :: "auth_db \<Rightarrow> string \<Rightarrow> string list" where
  "PermissionsFor db uid = remdups (concat (map (rolePerms db) (RoleIDsFor db uid)))"

definition syncIsAdmin :: "string \<Rightarrow> auth_db \<Rightarrow> auth_db" where
  "syncIsAdmin uid db =
     (case map_of (db_users db) uid of
        None \<Rightarrow> db
      | Some u \<Rightarrow> db\<lparr>db_users := set_key uid (u\<lparr>ac_IsAdmin := PermAdmin \<in> set (PermissionsFor db uid)\<rparr>) (db_users db)\<rparr>)"

definition AssignRole :: "string \<Rightarrow> string \<Rightarrow> auth_db \<Rightarrow> auth_db \<times> access_error option" where
  "AssignRole uid rid db =
     (if \<not> has_key uid (db_users db) \<or> \<not> has_key rid (db_roles db) then (db, Some ErrConstraint)
      else (syncIsAdmin uid (db\<lparr>db_user_roles := List.insert (uid, rid) (db_user_roles db)\<rparr>), None))"

definition is_administrator :: "auth_db \<Rightarrow> string \<Rightarrow> account \<Rightarrow> bool" where
  "is_administrator db uid u \<longleftrightarrow> \<not> ac_Disabled u \<and> (ac_IsAdmin u \<or> PermAdmin \<in> set (PermissionsFor db uid))"

definition AdministratorCount :: "auth_db \<Rightarrow> nat" where
  "AdministratorCount db = length (filter (\<lambda>(uid, u). is_administrator db uid u) (db_users db))"

definition userIsAdmin :: "auth_db \<Rightarrow> string \<Rightarrow> bool" where
  "userIsAdmin db uid \<longleftrightarrow>
     (case map_of (db_users db) uid of Some u \<Rightarrow> ac_IsAdmin u | None \<Rightarrow> False) \<or> PermAdmin \<in> set (PermissionsFor db uid)"

definition nonblank :: "string list \<Rightarrow> string list" where
  "nonblank xs = filter (\<lambda>x. x \<noteq> []) (map trimSpace xs)"

definition rolesGrantAdmin :: "auth_db \<Rightarrow> string list \<Rightarrow> bool" where
  "rolesGrantAdmin db ids \<longleftrightarrow> list_ex (\<lambda>rid. PermAdmin \<in> set (rolePerms db rid)) (nonblank ids)"

definition guardLastAdmin :: "auth_db \<Rightarrow> string \<Rightarrow> bool \<Rightarrow> string list option \<Rightarrow> access_error option" where
  "guardLastAdmin db uid nextDisabled nextRoleIDs =
     (if \<not> userIsAdmin db uid then None
      else if \<not> nextDisabled \<and> (case nextRoleIDs of None \<Rightarrow> True | Some ids \<Rightarrow> rolesGrantAdmin db ids) then None
      else if AdministratorCount db \<le> 1 then Some ErrLastAdmin else None)"

text \<open>\<^verbatim>\<open>SetUserRoles\<close>: the original administrator keeps the Superadmin role whatever is asked for.\<close>

definition keep_superadmin :: "auth_db \<Rightarrow> string \<Rightarrow> string list \<Rightarrow> string list" where
  "keep_superadmin db uid ids =
     (if db_original db = uid \<and> \<not> list_ex (\<lambda>i. trimSpace i = RoleSuperadmin) ids then ids @ [RoleSuperadmin] else ids)"

definition SetUserRoles :: "string \<Rightarrow> string list \<Rightarrow> auth_db \<Rightarrow> auth_db \<times> access_error option" where
  "SetUserRoles uid roleIDs db =
     (let ids = keep_superadmin db uid roleIDs
      in case guardLastAdmin db uid False (Some ids) of
           Some e \<Rightarrow> (db, Some e)
         | None \<Rightarrow>
             if nonblank ids \<noteq> [] \<and> (\<not> has_key uid (db_users db) \<or> list_ex (\<lambda>r. \<not> has_key r (db_roles db)) (nonblank ids))
             then (db, Some ErrConstraint)
             else (syncIsAdmin uid (db\<lparr>db_user_roles := filter (\<lambda>(u, r). u \<noteq> uid) (db_user_roles db) @
                                      map (Pair uid) (remdups (nonblank ids))\<rparr>), None))"

definition replaceRolePerms :: "string \<Rightarrow> string list \<Rightarrow> bool \<Rightarrow> auth_db \<Rightarrow> auth_db" where
  "replaceRolePerms rid perms allowAdmin db =
     db\<lparr>db_role_perms := filter (\<lambda>(r, p). r \<noteq> rid) (db_role_perms db) @
          map (Pair rid) (remdups (filter (\<lambda>p. (p \<noteq> PermAdmin \<or> allowAdmin) \<and> p \<in> set (db_permissions db)) (nonblank perms)))\<rparr>"

text \<open>The names of roles, and of accounts below, are unique without regard to case.\<close>

definition CreateRole :: "string \<Rightarrow> string \<Rightarrow> string \<Rightarrow> string list \<Rightarrow> auth_db \<Rightarrow> auth_db \<times> access_error option" where
  "CreateRole rid nm desc perms db =
     (let nm = trimSpace nm
      in if nm = [] then (db, Some ErrNameRequired)
         else if has_key rid (db_roles db) \<or> list_ex (\<lambda>(r, row). toLower (rl_Name row) = toLower nm) (db_roles db)
         then (db, Some ErrConstraint)
         else (replaceRolePerms rid perms False
                 (db\<lparr>db_roles := db_roles db @
                       [(rid, \<lparr>rl_Name = nm, rl_Description = trimSpace desc, rl_IsSystem = False\<rparr>)]\<rparr>), None))"

definition UpdateRole :: "string \<Rightarrow> string \<Rightarrow> string list option \<Rightarrow> auth_db \<Rightarrow> auth_db \<times> access_error option" where
  "UpdateRole rid desc perms db =
     (case map_of (db_roles db) rid of
        None \<Rightarrow> (db, Some ErrNotFound)
      | Some row \<Rightarrow>
          (let db = db\<lparr>db_roles := set_key rid (row\<lparr>rl_Description := trimSpace desc\<rparr>) (db_roles db)\<rparr>
           in case perms of
                None \<Rightarrow> (db, None)
              | Some ps \<Rightarrow> if rl_IsSystem row then (db, Some ErrBuiltIn) else (replaceRolePerms rid ps False db, None)))"

definition DeleteRole :: "string \<Rightarrow> auth_db \<Rightarrow> auth_db \<times> access_error option" where
  "DeleteRole rid db =
     (case map_of (db_roles db) rid of
        None \<Rightarrow> (db, Some ErrNotFound)
      | Some row \<Rightarrow>
          if rl_IsSystem row then (db, Some ErrBuiltIn)
          else (db\<lparr>db_roles := del_key rid (db_roles db),
                   db_role_perms := filter (\<lambda>(r, p). r \<noteq> rid) (db_role_perms db),
                   db_user_roles := filter (\<lambda>(u, r). r \<noteq> rid) (db_user_roles db),
                   db_role_grants := filter (\<lambda>((r, l), d). r \<noteq> rid) (db_role_grants db)\<rparr>, None))"

fun AddRoleMembers :: "string \<Rightarrow> string list \<Rightarrow> auth_db \<Rightarrow> auth_db \<times> access_error option" where
  "AddRoleMembers rid [] db = (db, None)"
| "AddRoleMembers rid (uid # uids) db =
     (if trimSpace uid = [] then AddRoleMembers rid uids db
      else (case AssignRole (trimSpace uid) rid db of
              (db, Some e) \<Rightarrow> (db, Some e)
            | (db, None) \<Rightarrow> AddRoleMembers rid uids db))"

definition RemoveRoleMember :: "string \<Rightarrow> string \<Rightarrow> auth_db \<Rightarrow> auth_db \<times> access_error option" where
  "RemoveRoleMember rid uid db = SetUserRoles uid (filter (\<lambda>r. r \<noteq> rid) (RoleIDsFor db uid)) db"

section \<open>The ceiling\<close>

definition CanManageAdministrators :: "principal option \<Rightarrow> bool" where
  "CanManageAdministrators p \<longleftrightarrow> p \<noteq> None \<and> HasPerm p PermAdministratorsManage"

definition RoleIsPrivileged :: "auth_db \<Rightarrow> string \<Rightarrow> bool" where
  "RoleIsPrivileged db rid \<longleftrightarrow>
     rid = RoleAdministrator \<or> rid = RoleSuperadmin \<or>
     list_ex (\<lambda>p. p = PermAdmin \<or> p = PermAdministratorsManage) (rolePerms db rid)"

definition IsSuperadmin :: "auth_db \<Rightarrow> string \<Rightarrow> bool" where
  "IsSuperadmin db uid \<longleftrightarrow> trimSpace uid \<noteq> [] \<and> (db_original db = uid \<or> RoleSuperadmin \<in> set (RoleIDsFor db uid))"

fun AssertCanGrantPermissions :: "principal option \<Rightarrow> string list \<Rightarrow> access_error option" where
  "AssertCanGrantPermissions actor [] = (if actor = None \<or> \<not> IsUser actor then Some ErrPrivilegeCeiling else None)"
| "AssertCanGrantPermissions actor (p # ps) =
     (if actor = None \<or> \<not> IsUser actor then Some ErrPrivilegeCeiling
      else if trimSpace p = [] then AssertCanGrantPermissions actor ps
      else if (trimSpace p = PermAdmin \<or> trimSpace p = PermAdministratorsManage) \<and> \<not> CanManageAdministrators actor
      then Some ErrAdministratorsManage
      else if \<not> HasPerm actor (trimSpace p) then Some ErrPrivilegeCeiling
      else AssertCanGrantPermissions actor ps)"

definition AssertCanModifyUser :: "auth_db \<Rightarrow> principal option \<Rightarrow> string \<Rightarrow> access_error option" where
  "AssertCanModifyUser db actor target =
     (case actor of
        None \<Rightarrow> Some ErrPrivilegeCeiling
      | Some a \<Rightarrow>
          if \<not> IsUser actor then Some ErrPrivilegeCeiling
          else if target = [] \<or> target = p_UserID a then None
          else if IsSuperadmin db target \<and> \<not> IsSuperadmin db (p_UserID a) then Some ErrProtectedUser
          else if userIsAdmin db target \<and> \<not> CanManageAdministrators actor then Some ErrAdministratorsManage
          else None)"

fun can_assign_each :: "auth_db \<Rightarrow> principal \<Rightarrow> string list \<Rightarrow> access_error option" where
  "can_assign_each db a [] = None"
| "can_assign_each db a (rid # rids) =
     (if trimSpace rid = [] then can_assign_each db a rids
      else if trimSpace rid = RoleSuperadmin \<and> \<not> IsSuperadmin db (p_UserID a) then Some ErrProtectedUser
      else if RoleIsPrivileged db (trimSpace rid) \<and> \<not> CanManageAdministrators (Some a) then Some ErrAdministratorsManage
      else (case AssertCanGrantPermissions (Some a) (rolePerms db (trimSpace rid)) of
              Some e \<Rightarrow> Some e
            | None \<Rightarrow> can_assign_each db a rids))"

definition AssertCanAssignRoles :: "auth_db \<Rightarrow> principal option \<Rightarrow> string \<Rightarrow> string list \<Rightarrow> access_error option" where
  "AssertCanAssignRoles db actor target ids =
     (case actor of
        None \<Rightarrow> Some ErrPrivilegeCeiling
      | Some a \<Rightarrow>
          if \<not> IsUser actor then Some ErrPrivilegeCeiling
          else if target \<noteq> [] \<and> target \<noteq> p_UserID a \<and> userIsAdmin db target \<and> \<not> CanManageAdministrators actor
          then Some ErrAdministratorsManage
          else (case can_assign_each db a ids of
                  Some e \<Rightarrow> Some e
                | None \<Rightarrow> if rolesGrantAdmin db ids \<and> \<not> CanManageAdministrators actor
                          then Some ErrAdministratorsManage else None))"

definition SetUserRolesAs :: "principal option \<Rightarrow> string \<Rightarrow> string list \<Rightarrow> auth_db \<Rightarrow> auth_db \<times> access_error option" where
  "SetUserRolesAs actor uid ids db =
     (case AssertCanAssignRoles db actor uid ids of Some e \<Rightarrow> (db, Some e) | None \<Rightarrow> SetUserRoles uid ids db)"

fun AddRoleMembersAs :: "principal option \<Rightarrow> string \<Rightarrow> string list \<Rightarrow> auth_db \<Rightarrow> auth_db \<times> access_error option" where
  "AddRoleMembersAs actor rid [] db = (db, None)"
| "AddRoleMembersAs actor rid (uid # uids) db =
     (if trimSpace uid = [] then AddRoleMembersAs actor rid uids db
      else (case AssertCanAssignRoles db actor (trimSpace uid) [rid] of
              Some e \<Rightarrow> (db, Some e)
            | None \<Rightarrow>
                (case AssignRole (trimSpace uid) rid db of
                   (db, Some e) \<Rightarrow> (db, Some e)
                 | (db, None) \<Rightarrow> AddRoleMembersAs actor rid uids db)))"

definition RemoveRoleMemberAs :: "principal option \<Rightarrow> string \<Rightarrow> string \<Rightarrow> auth_db \<Rightarrow> auth_db \<times> access_error option" where
  "RemoveRoleMemberAs actor rid uid db =
     (case AssertCanModifyUser db actor uid of
        Some e \<Rightarrow> (db, Some e)
      | None \<Rightarrow> if RoleIsPrivileged db rid \<and> \<not> CanManageAdministrators actor then (db, Some ErrAdministratorsManage)
                else RemoveRoleMember rid uid db)"

definition CeilingHTTPStatus :: "access_error \<Rightarrow> int" where
  "CeilingHTTPStatus e =
     (if e \<in> {ErrAdministratorsManage, ErrPrivilegeCeiling, ErrProtectedUser} then 403
      else if e = ErrLastAdmin then 409 else 400)"

section \<open>Accounts\<close>

definition new_account :: "string \<Rightarrow> string \<Rightarrow> bool \<Rightarrow> account" where
  "new_account username display admin =
     \<lparr>ac_Username = username, ac_DisplayName = (if display = [] then username else display), ac_IsAdmin = admin,
      ac_Disabled = False, ac_PINHash = [], ac_Temporary = False, ac_ExpiresAt = 0, ac_PartyOnly = False,
      ac_HasPassword = True, ac_MaxSessions = 0, ac_CreatedBy = [], ac_AgeLimit = 0\<rparr>"

text \<open>\<^verbatim>\<open>CreateUser\<close> when local accounts are allowed; the length of the password is checked first.\<close>

definition CreateUser :: "string \<Rightarrow> string \<Rightarrow> nat \<Rightarrow> string \<Rightarrow> bool \<Rightarrow> auth_db \<Rightarrow> auth_db \<times> access_error option" where
  "CreateUser uid username passwordLen display admin db =
     (let username = trimSpace username
      in if username = [] \<or> passwordLen < 8 then (db, Some ErrNameRequired)
         else if has_key uid (db_users db) \<or> list_ex (\<lambda>(u, row). toLower (ac_Username row) = toLower username) (db_users db)
         then (db, Some ErrConstraint)
         else (fst (AssignRole uid (if admin then RoleAdministrator else RoleUser)
                 (db\<lparr>db_users := db_users db @ [(uid, new_account username display admin)]\<rparr>)), None))"

definition CreateAdmin :: "string \<Rightarrow> string \<Rightarrow> nat \<Rightarrow> string \<Rightarrow> auth_db \<Rightarrow> auth_db \<times> access_error option" where
  "CreateAdmin uid username passwordLen display db =
     (let username = trimSpace username
      in if db_users db \<noteq> [] then (db, Some ErrConstraint)
         else if username = [] \<or> passwordLen < 8 then (db, Some ErrNameRequired)
         else (let db = db\<lparr>db_users := [(uid, new_account username display True)]\<rparr>;
                   db = fst (AssignRole uid RoleAdministrator db);
                   db = fst (AssignRole uid RoleSuperadmin db)
               in (db\<lparr>db_original := (if trimSpace uid = [] then db_original db else trimSpace uid)\<rparr>, None)))"

definition DeleteAllForUser :: "string \<Rightarrow> auth_db \<Rightarrow> auth_db" where
  "DeleteAllForUser uid db = db\<lparr>db_sessions := filter (\<lambda>(tok, row). se_UserID row \<noteq> uid) (db_sessions db)\<rparr>"

definition SetDisabled :: "principal option \<Rightarrow> string \<Rightarrow> bool \<Rightarrow> auth_db \<Rightarrow> auth_db \<times> access_error option" where
  "SetDisabled actor uid disabled db =
     (if (case actor of Some a \<Rightarrow> p_UserID a = uid \<and> disabled | None \<Rightarrow> False) then (db, Some ErrOwnAccount)
      else if disabled \<and> IsSuperadmin db uid then (db, Some ErrProtectedUser)
      else (case (if actor \<noteq> None then AssertCanModifyUser db actor uid else None) of
              Some e \<Rightarrow> (db, Some e)
            | None \<Rightarrow>
                (case (if disabled then guardLastAdmin db uid True None else None) of
                   Some e \<Rightarrow> (db, Some e)
                 | None \<Rightarrow>
                     (let db = (case map_of (db_users db) uid of
                                  None \<Rightarrow> db
                                | Some u \<Rightarrow> db\<lparr>db_users := set_key uid (u\<lparr>ac_Disabled := disabled\<rparr>) (db_users db)\<rparr>)
                      in (if disabled then DeleteAllForUser uid db else db, None)))))"

definition DeleteUser :: "principal option \<Rightarrow> string \<Rightarrow> auth_db \<Rightarrow> auth_db \<times> access_error option" where
  "DeleteUser actor uid db =
     (if (case actor of Some a \<Rightarrow> p_UserID a = uid | None \<Rightarrow> False) then (db, Some ErrOwnAccount)
      else if IsSuperadmin db uid then (db, Some ErrProtectedUser)
      else (case AssertCanModifyUser db actor uid of
              Some e \<Rightarrow> (db, Some e)
            | None \<Rightarrow>
                (case guardLastAdmin db uid True None of
                   Some e \<Rightarrow> (db, Some e)
                 | None \<Rightarrow>
                     ((DeleteAllForUser uid db)
                        \<lparr>db_users := del_key uid (db_users db),
                         db_user_roles := filter (\<lambda>(u, r). u \<noteq> uid) (db_user_roles db),
                         db_user_grants := filter (\<lambda>((u, l), d). u \<noteq> uid) (db_user_grants db)\<rparr>, None))))"

section \<open>Library grants\<close>

definition grants_admin :: "auth_db \<Rightarrow> string \<Rightarrow> bool" where
  "grants_admin db uid = (case map_of (db_users db) uid of Some u \<Rightarrow> ac_IsAdmin u | None \<Rightarrow> False)"

definition CanRead :: "auth_db \<Rightarrow> string \<Rightarrow> string \<Rightarrow> bool" where
  "CanRead db uid lib =
     (if grants_admin db uid then True
      else has_key (uid, lib) (db_user_grants db) \<or>
           list_ex (\<lambda>rid. has_key (rid, lib) (db_role_grants db)) (RoleIDsFor db uid) \<or>
           lib \<in> set (db_source_libraries db))"

definition CanDownload :: "auth_db \<Rightarrow> string \<Rightarrow> string \<Rightarrow> bool" where
  "CanDownload db uid lib =
     (if grants_admin db uid then True
      else ((uid, lib), True) \<in> set (db_user_grants db) \<or>
           list_ex (\<lambda>rid. ((rid, lib), True) \<in> set (db_role_grants db)) (RoleIDsFor db uid))"

definition GrantedLibraryIDs :: "auth_db \<Rightarrow> string \<Rightarrow> string list" where
  "GrantedLibraryIDs db uid =
     (if grants_admin db uid then db_libraries db
      else remdups (map (\<lambda>((u, l), d). l) (filter (\<lambda>((u, l), d). u = uid) (db_user_grants db)) @
                    map (\<lambda>((r, l), d). l) (filter (\<lambda>((r, l), d). r \<in> set (RoleIDsFor db uid)) (db_role_grants db)) @
                    db_source_libraries db))"

definition Grant_Set :: "string \<Rightarrow> string \<Rightarrow> bool \<Rightarrow> auth_db \<Rightarrow> auth_db \<times> access_error option" where
  "Grant_Set uid lib download db =
     (if \<not> has_key uid (db_users db) \<or> lib \<notin> set (db_libraries db) then (db, Some ErrConstraint)
      else (db\<lparr>db_user_grants := set_key (uid, lib) download (db_user_grants db)\<rparr>, None))"

definition Grant_Delete :: "string \<Rightarrow> string \<Rightarrow> auth_db \<Rightarrow> auth_db" where
  "Grant_Delete uid lib db = db\<lparr>db_user_grants := del_key (uid, lib) (db_user_grants db)\<rparr>"

definition Grant_SetRole :: "string \<Rightarrow> string \<Rightarrow> bool \<Rightarrow> auth_db \<Rightarrow> auth_db \<times> access_error option" where
  "Grant_SetRole rid lib download db =
     (if \<not> has_key rid (db_roles db) \<or> lib \<notin> set (db_libraries db) then (db, Some ErrConstraint)
      else (db\<lparr>db_role_grants := set_key (rid, lib) download (db_role_grants db)\<rparr>, None))"

definition Grant_DeleteRole :: "string \<Rightarrow> string \<Rightarrow> auth_db \<Rightarrow> auth_db" where
  "Grant_DeleteRole rid lib db = db\<lparr>db_role_grants := del_key (rid, lib) (db_role_grants db)\<rparr>"

end
