(* ===== verification/Share.thy ===== *)
theory Share
  imports Principal
begin

text \<open>
  Share links and their guests (\<^verbatim>\<open>src/internal/share/service.go\<close>, \<^verbatim>\<open>handlers.go\<close>, and \<^verbatim>\<open>lookupGuest\<close> of
  \<^verbatim>\<open>src/internal/auth/middleware.go\<close>). A guest counts as active while their last sighting in the
  database is at most 90 seconds old. Tokens stand for their hashes, new IDs and tokens and the
  verdict on a password are arguments; the database answers.
\<close>

section \<open>State\<close>

record share =
  sh_ItemKind :: string
  sh_ItemID :: string
  sh_token :: string
  sh_passHash :: string
  sh_ExpiresAt :: "gtime option"
  sh_Revoked :: bool
  sh_MaxConcurrent :: int
  sh_AllowedQuality :: string
  sh_AllowDownload :: bool

record guest =
  gs_ShareID :: string
  gs_token :: string
  gs_ExpiresAt :: gtime
  gs_LastSeen :: gtime

record share_state =
  ss_shares :: "(string \<times> share) list"
  ss_guests :: "(string \<times> guest) list"
  ss_seen :: "(string \<times> gtime) list"

datatype gate_error = ErrGone | ErrDenied | ErrBusy

definition share_expired :: "gtime \<Rightarrow> share \<Rightarrow> bool" where
  "share_expired now sh = (case sh_ExpiresAt sh of None \<Rightarrow> False | Some t \<Rightarrow> now > t)"

section \<open>Shares\<close>

definition Share_Create :: "string \<Rightarrow> string \<Rightarrow> gtime \<Rightarrow> principal option \<Rightarrow> bool \<Rightarrow> bool \<Rightarrow> string \<Rightarrow> string \<Rightarrow> string \<Rightarrow> int
    \<Rightarrow> string \<Rightarrow> bool \<Rightarrow> duration \<Rightarrow> share_state \<Rightarrow> share_state option" where
  "Share_Create sid raw now actor exists permitted itemKind itemID passHash maxConc quality download ttl st =
     (if (case actor of None \<Rightarrow> True | Some a \<Rightarrow> \<not> p_IsAdmin a) \<or> \<not> exists \<or> \<not> permitted then None
      else Some (st\<lparr>ss_shares := ss_shares st @
             [(sid, \<lparr>sh_ItemKind = itemKind, sh_ItemID = itemID, sh_token = raw, sh_passHash = passHash,
                     sh_ExpiresAt = (if ttl > 0 then Some (whole_seconds (now + ttl)) else None), sh_Revoked = False,
                     sh_MaxConcurrent = maxConc, sh_AllowedQuality = quality, sh_AllowDownload = download\<rparr>)]\<rparr>))"

definition LookupByToken :: "string \<Rightarrow> gtime \<Rightarrow> share_state \<Rightarrow> (string \<times> share) option" where
  "LookupByToken raw now st =
     (case List.find (\<lambda>(sid, sh). sh_token sh = raw) (ss_shares st) of
        None \<Rightarrow> None
      | Some (sid, sh) \<Rightarrow> if share_expired now sh then None else if sh_Revoked sh then None else Some (sid, sh))"

definition Revoke :: "string \<Rightarrow> share_state \<Rightarrow> share_state" where
  "Revoke sid st =
     (case map_of (ss_shares st) sid of
        None \<Rightarrow> st | Some sh \<Rightarrow> st\<lparr>ss_shares := set_key sid (sh\<lparr>sh_Revoked := True\<rparr>) (ss_shares st)\<rparr>)"

section \<open>Guests\<close>

definition guest_by_token :: "string \<Rightarrow> share_state \<Rightarrow> (string \<times> guest) option" where
  "guest_by_token raw st = List.find (\<lambda>(g, row). gs_token row = raw) (ss_guests st)"

definition ValidGuestForShare :: "string \<Rightarrow> string \<Rightarrow> gtime \<Rightarrow> share_state \<Rightarrow> bool" where
  "ValidGuestForShare raw shareID now st =
     (if trimSpace raw = [] \<or> shareID = [] then False
      else (case guest_by_token raw st of
              None \<Rightarrow> False
            | Some (g, row) \<Rightarrow>
                (case map_of (ss_shares st) (gs_ShareID row) of
                   None \<Rightarrow> False
                 | Some sh \<Rightarrow> gs_ShareID row = shareID \<and> \<not> sh_Revoked sh \<and> \<not> now > gs_ExpiresAt row \<and> \<not> share_expired now sh)))"

definition seen_recently :: "gtime \<Rightarrow> guest \<Rightarrow> bool" where
  "seen_recently now row \<longleftrightarrow> gs_LastSeen row \<ge> whole_seconds (now - seconds 90)"

definition guestActiveForShare :: "string \<Rightarrow> string \<Rightarrow> gtime \<Rightarrow> share_state \<Rightarrow> bool" where
  "guestActiveForShare raw shareID now st \<longleftrightarrow>
     length (filter (\<lambda>(g, row). gs_token row = raw \<and> gs_ShareID row = shareID \<and> seen_recently now row) (ss_guests st)) = 1"

definition touchGuestToken :: "string \<Rightarrow> gtime \<Rightarrow> share_state \<Rightarrow> share_state" where
  "touchGuestToken raw now st =
     st\<lparr>ss_guests := map (\<lambda>(g, row). (g, if gs_token row = raw then row\<lparr>gs_LastSeen := whole_seconds now\<rparr> else row)) (ss_guests st)\<rparr>"

definition MintGuest :: "string \<Rightarrow> string \<Rightarrow> string \<Rightarrow> gtime \<Rightarrow> share_state \<Rightarrow> share_state" where
  "MintGuest g raw shareID now st =
     st\<lparr>ss_guests := ss_guests st @
          [(g, \<lparr>gs_ShareID = shareID, gs_token = raw, gs_ExpiresAt = whole_seconds (now + seconds 86400),
                gs_LastSeen = whole_seconds now\<rparr>)]\<rparr>"

definition activeCount :: "string \<Rightarrow> gtime \<Rightarrow> share_state \<Rightarrow> int" where
  "activeCount shareID now st =
     int (length (filter (\<lambda>(g, row). gs_ShareID row = shareID \<and> seen_recently now row) (ss_guests st)))"

text \<open>\<^verbatim>\<open>touchGuest\<close> notes every sighting in memory and writes it if the one before is 30 seconds old.\<close>

definition touchGuest :: "string \<Rightarrow> gtime \<Rightarrow> share_state \<Rightarrow> share_state" where
  "touchGuest g now st =
     (let prev = (case map_of (ss_seen st) g of None \<Rightarrow> 0 | Some t \<Rightarrow> t);
          st = st\<lparr>ss_seen := set_key g now (ss_seen st)\<rparr>
      in if time_sub now prev < seconds 30 then st
         else st\<lparr>ss_guests := map (\<lambda>(h, row). (h, if h = g then row\<lparr>gs_LastSeen := whole_seconds now\<rparr> else row)) (ss_guests st)\<rparr>)"

section \<open>The gate\<close>

definition gate_check :: "string \<Rightarrow> string \<Rightarrow> string \<Rightarrow> bool \<Rightarrow> gtime \<Rightarrow> share_state \<Rightarrow> share_state \<times> gate_error option" where
  "gate_check g itemKind itemID mintSlot now st =
     (case map_of (ss_guests st) g of
        None \<Rightarrow> (st, Some ErrGone)
      | Some row \<Rightarrow>
         (case map_of (ss_shares st) (gs_ShareID row) of
            None \<Rightarrow> (st, Some ErrGone)
          | Some sh \<Rightarrow>
              if sh_Revoked sh then (st, Some ErrGone)
              else if share_expired now sh then (st, Some ErrGone)
              else if sh_ItemKind sh \<noteq> itemKind \<or> sh_ItemID sh \<noteq> itemID then (st, Some ErrDenied)
              else if mintSlot \<and> sh_MaxConcurrent sh > 0 \<and> activeCount (gs_ShareID row) now st > sh_MaxConcurrent sh
              then (st, Some ErrBusy)
              else (touchGuest g now st, None)))"

definition AllowStream :: "string \<Rightarrow> string \<Rightarrow> string \<Rightarrow> gtime \<Rightarrow> share_state \<Rightarrow> share_state \<times> gate_error option" where
  "AllowStream g itemKind itemID now st = gate_check g itemKind itemID True now st"

definition CanStreamMedia :: "string \<Rightarrow> string \<Rightarrow> string \<Rightarrow> gtime \<Rightarrow> share_state \<Rightarrow> share_state \<times> gate_error option" where
  "CanStreamMedia g itemKind itemID now st = gate_check g itemKind itemID False now st"

definition Heartbeat :: "string \<Rightarrow> gtime \<Rightarrow> share_state \<Rightarrow> share_state" where
  "Heartbeat g now st = touchGuest g now st"

definition Gate_Release :: "string \<Rightarrow> share_state \<Rightarrow> share_state" where
  "Gate_Release g st = st\<lparr>ss_seen := del_key g (ss_seen st)\<rparr>"

text \<open>\<^verbatim>\<open>unlock\<close>: \<open>cookie\<close> is the guest cookie, \<open>verified\<close> the verdict on the password, \<open>fresh\<close> the new ID and token.\<close>

datatype unlock_reply = Unlocked | Returning | UnlockFail int

definition unlock :: "string \<Rightarrow> string option \<Rightarrow> bool \<Rightarrow> (string \<times> string) option \<Rightarrow> gtime \<Rightarrow> share_state
    \<Rightarrow> share_state \<times> unlock_reply" where
  "unlock raw cookie verified fresh now st =
     (case LookupByToken raw now st of
        None \<Rightarrow> (st, UnlockFail 404)
      | Some (sid, sh) \<Rightarrow>
          if sh_passHash sh \<noteq> [] \<and> \<not> verified then (st, UnlockFail 401)
          else (case cookie of
                  Some c \<Rightarrow>
                    if ValidGuestForShare c sid now st then
                      (if sh_MaxConcurrent sh > 0 \<and> \<not> guestActiveForShare c sid now st \<and> activeCount sid now st \<ge> sh_MaxConcurrent sh
                       then (st, UnlockFail 429) else (touchGuestToken c now st, Returning))
                    else if sh_MaxConcurrent sh > 0 \<and> activeCount sid now st \<ge> sh_MaxConcurrent sh then (st, UnlockFail 429)
                    else (case fresh of None \<Rightarrow> (st, UnlockFail 500) | Some (g, tok) \<Rightarrow> (MintGuest g tok sid now st, Unlocked))
                | None \<Rightarrow>
                    if sh_MaxConcurrent sh > 0 \<and> activeCount sid now st \<ge> sh_MaxConcurrent sh then (st, UnlockFail 429)
                    else (case fresh of None \<Rightarrow> (st, UnlockFail 500) | Some (g, tok) \<Rightarrow> (MintGuest g tok sid now st, Unlocked))))"

text \<open>\<^verbatim>\<open>lookupGuest\<close>: the principal of a guest cookie.\<close>

definition lookupGuest :: "string \<Rightarrow> gtime \<Rightarrow> share_state \<Rightarrow> principal option" where
  "lookupGuest raw now st =
     (case guest_by_token raw st of
        None \<Rightarrow> None
      | Some (g, row) \<Rightarrow>
          (case map_of (ss_shares st) (gs_ShareID row) of
             None \<Rightarrow> None
           | Some sh \<Rightarrow>
               if now > gs_ExpiresAt row then None
               else if sh_Revoked sh then None
               else if share_expired now sh then None
               else Some \<lparr>p_Kind = KindGuestShare, p_UserID = [], p_GuestSessionID = g, p_MediaKind = sh_ItemKind sh,
                          p_MediaID = sh_ItemID sh, p_IsAdmin = False, p_DisplayName = ''Guest'', p_Username = [],
                          p_CanDownload = sh_AllowDownload sh, p_Permissions = [], p_PartyOnly = False\<rparr>))"

definition demo_share :: share where
  "demo_share = \<lparr>sh_ItemKind = ''movie'', sh_ItemID = ''m'', sh_token = ''s'', sh_passHash = [], sh_ExpiresAt = None,
     sh_Revoked = False, sh_MaxConcurrent = 1, sh_AllowedQuality = [], sh_AllowDownload = False\<rparr>"

definition demo_guest :: "string \<Rightarrow> gtime \<Rightarrow> guest" where
  "demo_guest tok seen = \<lparr>gs_ShareID = ''S'', gs_token = tok, gs_ExpiresAt = seconds 86400, gs_LastSeen = seen\<rparr>"

section \<open>What the gate lets through\<close>

lemma touch_fields [simp]: "ss_shares (touchGuest g now st) = ss_shares st" "map fst (ss_guests (touchGuest g now st)) = map fst (ss_guests st)"
  by (auto simp: touchGuest_def Let_def)


lemma gate_refuses_cleanly: "snd (AllowStream g kind iid now st) \<noteq> None \<Longrightarrow> fst (AllowStream g kind iid now st) = st"
  by (auto simp: AllowStream_def gate_check_def split: option.splits)

section \<open>Frequent heartbeats\<close>

definition heartbeats :: "string \<Rightarrow> gtime list \<Rightarrow> share_state \<Rightarrow> share_state" where
  "heartbeats g ts st = foldl (\<lambda>st t. Heartbeat g t st) st ts"

fun frequent :: "gtime \<Rightarrow> gtime list \<Rightarrow> bool" where
  "frequent t [] = True"
| "frequent t (u # us) = (t \<le> u \<and> u - t < seconds 30 \<and> frequent u us)"

lemma frequent_not_written:
  "map_of (ss_seen st) g = Some t \<Longrightarrow> frequent t ts \<Longrightarrow> ss_guests (heartbeats g ts st) = ss_guests st"
proof (induction ts arbitrary: t st)
  case (Cons u us)
  have "time_sub u t < seconds 30" using Cons.prems by (simp add: time_sub_def seconds_def)
  then have st': "Heartbeat g u st = st\<lparr>ss_seen := set_key g u (ss_seen st)\<rparr>"
    using Cons.prems by (simp add: Heartbeat_def touchGuest_def)
  have "ss_guests (heartbeats g us (Heartbeat g u st)) = ss_guests (Heartbeat g u st)"
    using Cons.prems by (intro Cons.IH [of _ u]) (simp_all add: st')
  then show ?case by (simp add: heartbeats_def st')
qed (simp add: heartbeats_def)

text \<open>A guest who is heard from too often is forgotten: if no two heartbeats are 30 seconds apart, none
  of them is written, so the guest stops counting as active 91 seconds after the last sighting that
  was, although they watch all the time.\<close>

theorem watching_guest_not_counted:
  assumes seen: "map_of (ss_seen st) g = Some t" and often: "frequent t ts"
    and row: "map_of (ss_guests st) g = Some row" and late: "gs_LastSeen row + seconds 91 \<le> now"
  shows "map_of (ss_guests (heartbeats g ts st)) g = Some row \<and> \<not> seen_recently now row"
proof -
  have "whole_seconds (now - seconds 90) > gs_LastSeen row"
    using late whole_seconds_bounds(2) [of "now - seconds 90"] by (simp add: seconds_def)
  then show ?thesis using frequent_not_written [OF seen often] row by (simp add: seen_recently_def)
qed

text \<open>Heartbeats every 20 seconds, from second 0 to second 100.\<close>

theorem watching_guest_not_counted_witness:
  "map_of (ss_guests (heartbeats ''g'' [seconds 20, seconds 40, seconds 60, seconds 80, seconds 100]
       \<lparr>ss_shares = [(''S'', demo_share)], ss_guests = [(''g'', demo_guest ''t'' 0)], ss_seen = [(''g'', 0)]\<rparr>)) ''g'' = Some (demo_guest ''t'' 0)
   \<and> \<not> seen_recently (seconds 100) (demo_guest ''t'' 0)"
  by (rule watching_guest_not_counted [of _ _ 0]) (simp_all add: seconds_def demo_guest_def)

section \<open>The limit of viewers\<close>

lemma count_touched:
  assumes "distinct (map fst gs)" "map_of gs g = Some row" "P row'" "\<not> P row"
  shows "length (filter (\<lambda>(h, r). P r) (map (\<lambda>(h, r). (h, if h = g then row' else r)) gs)) = length (filter (\<lambda>(h, r). P r) gs) + 1"
  using assms
proof (induction gs)
  case (Cons a gs)
  obtain h r where a: "a = (h, r)" by fastforce
  have same: "map (\<lambda>(h, r). (h, if h = g then row' else r)) gs = gs" if "g \<notin> fst ` set gs"
    using that by (induction gs) auto
  show ?case using Cons a same by (cases "h = g") auto
qed simp

text \<open>A guest who was away and comes back by playing on is let in above the limit: with as many viewers
  as the link allows, all others, the gate admits one more, where unlocking the link again would
  have been refused.\<close>

theorem returning_guest_exceeds_limit:
  assumes ids: "distinct (map fst (ss_guests st))" and row: "map_of (ss_guests st) g = Some row"
    and away: "\<not> seen_recently now row" "\<forall>t. map_of (ss_seen st) g = Some t \<longrightarrow> t + seconds 30 \<le> now"
    and share: "map_of (ss_shares st) (gs_ShareID row) = Some sh" "\<not> sh_Revoked sh" "\<not> share_expired now sh"
    and full: "activeCount (gs_ShareID row) now st = sh_MaxConcurrent sh" "sh_MaxConcurrent sh > 0" and clock: "seconds 30 \<le> now"
  shows "snd (AllowStream g (sh_ItemKind sh) (sh_ItemID sh) now st) = None \<and>
    activeCount (gs_ShareID row) now (fst (AllowStream g (sh_ItemKind sh) (sh_ItemID sh) now st)) = sh_MaxConcurrent sh + 1"
proof -
  let ?row = "row\<lparr>gs_LastSeen := whole_seconds now\<rparr>"
  let ?P = "\<lambda>r. gs_ShareID r = gs_ShareID row \<and> seen_recently now r"
  have allow: "AllowStream g (sh_ItemKind sh) (sh_ItemID sh) now st = (touchGuest g now st, None)"
    using row share full by (simp add: AllowStream_def gate_check_def)
  have "\<not> time_sub now (case map_of (ss_seen st) g of None \<Rightarrow> 0 | Some t \<Rightarrow> t) < seconds 30"
    using away clock by (auto simp: time_sub_def seconds_def split: option.splits)
  then have guests: "ss_guests (touchGuest g now st) = map (\<lambda>(h, r). (h, if h = g then ?row else r)) (ss_guests st)"
    using row ids by (auto simp: touchGuest_def Let_def map_of_eq_Some_iff dest: eq_key_imp_eq_value intro!: map_cong)
  have "seen_recently now ?row" by (simp add: seen_recently_def whole_seconds_mono seconds_def)
  then have "length (filter (\<lambda>(h, r). ?P r) (ss_guests (touchGuest g now st))) = length (filter (\<lambda>(h, r). ?P r) (ss_guests st)) + 1"
    unfolding guests using away by (intro count_touched [OF ids row]) simp_all
  then show ?thesis using full by (simp add: allow activeCount_def)
qed


theorem returning_guest_exceeds_limit_witness:
  "snd (AllowStream ''a'' ''movie'' ''m'' (seconds 200)
      \<lparr>ss_shares = [(''S'', demo_share)], ss_guests = [(''a'', demo_guest ''t'' 0), (''b'', demo_guest ''u'' (seconds 200))], ss_seen = []\<rparr>) = None
   \<and> activeCount ''S'' (seconds 200) (fst (AllowStream ''a'' ''movie'' ''m'' (seconds 200)
      \<lparr>ss_shares = [(''S'', demo_share)], ss_guests = [(''a'', demo_guest ''t'' 0), (''b'', demo_guest ''u'' (seconds 200))], ss_seen = []\<rparr>)) = 2"
  using returning_guest_exceeds_limit [of "\<lparr>ss_shares = [(''S'', demo_share)],
      ss_guests = [(''a'', demo_guest ''t'' 0), (''b'', demo_guest ''u'' (seconds 200))], ss_seen = []\<rparr>"
      "''a''" "demo_guest ''t'' 0" "seconds 200" demo_share]
  by (simp add: seconds_def demo_guest_def demo_share_def seen_recently_def activeCount_def share_expired_def whole_seconds_def)

end
