(* ===== verification/Identity.thy ===== *)
theory Identity
  imports Access Share
begin

text \<open>
  Who is calling (\<^verbatim>\<open>src/internal/auth/middleware.go\<close>, \<^verbatim>\<open>principal_cache.go\<close>, \<^verbatim>\<open>csrf.go\<close>, \<^verbatim>\<open>apikeys.go\<close>,
  \<^verbatim>\<open>src/internal/session/store.go\<close>). A caller is a signed-in user, an API key or the guest of a share link.
  A token stands for its hash. The principal cache is keyed by the token and carries the generation
  it was filled in. \<open>up\<close> says whether the database answers; the state of a database that does not
  answer is unchanged.
\<close>

section \<open>State\<close>

record caller =
  cl_p :: principal
  cl_SessionID :: string
  cl_PINLocked :: bool
  cl_APIKey :: bool
  cl_Temporary :: bool

record api_key =
  ak_Name :: string
  ak_token :: string
  ak_Scopes :: "string list"
  ak_CreatedBy :: string
  ak_Revoked :: bool

record identity =
  id_db :: auth_db
  id_keys :: "(string \<times> api_key) list"
  id_shares :: share_state
  id_cache :: "(string \<times> caller \<times> gtime \<times> int) list"
  id_gen :: int
  id_setupDone :: bool
  id_setupFlag :: bool

record http_req =
  rq_Method :: string
  rq_Path :: string
  rq_Authorization :: string
  rq_Cookies :: "(string \<times> string) list"
  rq_CSRFHeader :: string
  rq_CSRFForm :: string
  rq_STok :: string

definition SessionCookie :: string where "SessionCookie = ''vd_session''"
definition GuestCookie :: string where "GuestCookie = ''vd_guest''"
definition CSRFCookie :: string where "CSRFCookie = ''vd_csrf''"
definition APIKeyPrefix :: string where "APIKeyPrefix = ''vd_''"
definition PINIdle :: duration where "PINIdle = seconds 900"
definition AbsoluteTTL :: duration where "AbsoluteTTL = seconds 1209600"
definition principalTTL :: duration where "principalTTL = seconds 5"
definition principalStaleTTL :: duration where "principalStaleTTL = seconds 900"
definition principalMax :: nat where "principalMax = 5000"

section \<open>Sessions\<close>

definition Session_Create :: "string \<Rightarrow> string \<Rightarrow> string \<Rightarrow> gtime \<Rightarrow> auth_db \<Rightarrow> auth_db \<times> gtime" where
  "Session_Create sid raw uid now db =
     (db\<lparr>db_sessions := db_sessions db @
           [(raw, \<lparr>se_ID = sid, se_UserID = uid, se_ExpiresAt = whole_seconds (now + AbsoluteTTL), se_LastSeen = whole_seconds now\<rparr>)]\<rparr>,
      now + AbsoluteTTL)"

definition Session_Lookup :: "string \<Rightarrow> gtime \<Rightarrow> auth_db \<Rightarrow> session_row option" where
  "Session_Lookup raw now db =
     (case map_of (db_sessions db) raw of
        None \<Rightarrow> None | Some row \<Rightarrow> if now > se_ExpiresAt row then None else Some row)"

definition Session_Touch :: "string \<Rightarrow> gtime \<Rightarrow> auth_db \<Rightarrow> auth_db" where
  "Session_Touch sid now db =
     db\<lparr>db_sessions := map (\<lambda>(tok, row). (tok, if se_ID row = sid then row\<lparr>se_LastSeen := whole_seconds now\<rparr> else row)) (db_sessions db)\<rparr>"

definition Session_Delete :: "string \<Rightarrow> auth_db \<Rightarrow> auth_db" where
  "Session_Delete raw db = db\<lparr>db_sessions := del_key raw (db_sessions db)\<rparr>"

definition CountForUser :: "string \<Rightarrow> gtime \<Rightarrow> auth_db \<Rightarrow> int" where
  "CountForUser uid now db =
     int (length (filter (\<lambda>(tok, row). se_UserID row = uid \<and> se_ExpiresAt row > whole_seconds now) (db_sessions db)))"

definition DeleteID :: "string \<Rightarrow> string \<Rightarrow> auth_db \<Rightarrow> auth_db" where
  "DeleteID uid sid db =
     db\<lparr>db_sessions := filter (\<lambda>(tok, row). \<not> (se_ID row = sid \<and> se_UserID row = uid)) (db_sessions db)\<rparr>"

section \<open>API keys\<close>

definition PermLogsRead :: string where "PermLogsRead = ''logs.read''"
definition PermStreamsInspect :: string where "PermStreamsInspect = ''streams.inspect''"

definition knownAPIKeyScope :: "string \<Rightarrow> bool" where
  "knownAPIKeyScope name \<longleftrightarrow> name \<in> {''admin'', ''logs.read'', ''streams.inspect''}"

fun normalize_scopes :: "string list \<Rightarrow> string list \<Rightarrow> string list option" where
  "normalize_scopes seen [] = Some []"
| "normalize_scopes seen (raw # rest) =
     (let s = trimSpace raw
      in if s = [] then normalize_scopes seen rest
         else if \<not> knownAPIKeyScope s then None
         else if s \<in> set seen then normalize_scopes seen rest
         else map_option (Cons s) (normalize_scopes (s # seen) rest))"

definition normalizeAPIKeyScopes :: "string list \<Rightarrow> string list option" where
  "normalizeAPIKeyScopes xs = (case normalize_scopes [] xs of None \<Rightarrow> None | Some [] \<Rightarrow> None | Some out \<Rightarrow> Some out)"

fun scopesToPerms :: "string list \<Rightarrow> string list" where
  "scopesToPerms [] = []"
| "scopesToPerms (sc # rest) =
     (if sc = ''logs.read'' then PermLogsRead # scopesToPerms rest
      else if sc = ''streams.inspect'' then PermStreamsInspect # scopesToPerms rest
      else if sc = ''admin'' then PermAdmin # scopesToPerms rest
      else scopesToPerms rest)"

definition key_caller :: "string \<Rightarrow> api_key \<Rightarrow> caller" where
  "key_caller kid k =
     \<lparr>cl_p = \<lparr>p_Kind = KindUser, p_UserID = ak_CreatedBy k, p_GuestSessionID = [], p_MediaKind = [], p_MediaID = [],
               p_IsAdmin = (''admin'' \<in> set (ak_Scopes k)), p_DisplayName = ''API key: '' @ ak_Name k, p_Username = ''apikey'',
               p_CanDownload = False,
               p_Permissions = scopesToPerms (ak_Scopes k) @ map (\<lambda>_. PermAdmin) (filter (\<lambda>sc. sc = ''admin'') (ak_Scopes k)),
               p_PartyOnly = False\<rparr>,
      cl_SessionID = ''apikey:'' @ kid, cl_PINLocked = False, cl_APIKey = True, cl_Temporary = False\<rparr>"

definition lookupAPIKey :: "string \<Rightarrow> identity \<Rightarrow> caller option" where
  "lookupAPIKey raw s =
     (if \<not> hasPrefix raw APIKeyPrefix then None
      else (case List.find (\<lambda>(kid, k). ak_token k = raw) (id_keys s) of
              None \<Rightarrow> None
            | Some (kid, k) \<Rightarrow> if ak_Revoked k then None else Some (key_caller kid k)))"

section \<open>The principal cache\<close>

definition cache_get :: "string \<Rightarrow> duration \<Rightarrow> gtime \<Rightarrow> identity \<Rightarrow> caller option" where
  "cache_get tok maxAge now s =
     (case map_of (id_cache s) tok of
        None \<Rightarrow> None
      | Some (c, t, g) \<Rightarrow>
          if time_sub now t > maxAge then None
          else if maxAge = principalTTL \<and> g \<noteq> id_gen s then None
          else Some c)"

definition cache_put :: "string \<Rightarrow> caller \<Rightarrow> gtime \<Rightarrow> identity \<Rightarrow> identity" where
  "cache_put tok c now s =
     (let es = id_cache s;
          es = (if length es \<ge> principalMax
                then (let kept = filter (\<lambda>(k, c, t, g). \<not> t < now - principalStaleTTL) es
                      in if length kept \<ge> principalMax then [] else kept)
                else es)
      in s\<lparr>id_cache := set_key tok (c, now, id_gen s) es\<rparr>)"

definition InvalidatePrincipals :: "identity \<Rightarrow> identity" where
  "InvalidatePrincipals s = s\<lparr>id_gen := id_gen s + 1, id_cache := []\<rparr>"

section \<open>Requests\<close>

definition SafeMethod :: "string \<Rightarrow> bool" where
  "SafeMethod m \<longleftrightarrow> m \<in> {''GET'', ''HEAD'', ''OPTIONS''}"

definition mutatesIdentity :: "http_req \<Rightarrow> bool" where
  "mutatesIdentity r \<longleftrightarrow> \<not> SafeMethod (rq_Method r) \<and>
     list_ex (hasPrefix (rq_Path r)) [''/api/v1/auth'', ''/api/v1/me'', ''/api/v1/users'', ''/api/v1/admin'', ''/api/v1/invites'',
       ''/api/v1/household'', ''/api/v1/setup'', ''/api/v1/guests'']"

definition cookieOrBearer :: "http_req \<Rightarrow> string \<Rightarrow> string" where
  "cookieOrBearer r name =
     (if hasPrefix (toLower (rq_Authorization r)) ''bearer '' then trimSpace (drop 7 (rq_Authorization r))
      else (case map_of (rq_Cookies r) name of Some v \<Rightarrow> v | None \<Rightarrow> []))"

definition GuestAllowlisted :: "string \<Rightarrow> bool" where
  "GuestAllowlisted path \<longleftrightarrow>
     hasPrefix path ''/api/v1/share/'' \<or> hasPrefix path ''/api/v1/playback/'' \<or>
     hasPrefix path ''/api/v1/watch-together/'' \<or> hasPrefix path ''/hls/''"

definition CheckCSRF :: "http_req \<Rightarrow> bool" where
  "CheckCSRF r =
     (if SafeMethod (rq_Method r) then True
      else (case map_of (rq_Cookies r) CSRFCookie of
              None \<Rightarrow> False
            | Some v \<Rightarrow> if v = [] then False
                        else v = (if rq_CSRFHeader r = [] then rq_CSRFForm r else rq_CSRFHeader r)))"

section \<open>Identification\<close>

definition TemporaryExpired :: "gtime \<Rightarrow> account \<Rightarrow> bool" where
  "TemporaryExpired now u \<longleftrightarrow> ac_Temporary u \<and> ac_ExpiresAt u \<noteq> 0 \<and> now > ac_ExpiresAt u"

definition user_principal :: "auth_db \<Rightarrow> string \<Rightarrow> account \<Rightarrow> principal" where
  "user_principal db uid u =
     \<lparr>p_Kind = KindUser, p_UserID = uid, p_GuestSessionID = [], p_MediaKind = [], p_MediaID = [],
      p_IsAdmin = (ac_IsAdmin u \<or> PermAdmin \<in> set (PermissionsFor db uid)), p_DisplayName = ac_DisplayName u,
      p_Username = ac_Username u, p_CanDownload = False, p_Permissions = PermissionsFor db uid, p_PartyOnly = ac_PartyOnly u\<rparr>"

definition load_caller :: "string \<Rightarrow> gtime \<Rightarrow> auth_db \<Rightarrow> (session_row \<times> account) option" where
  "load_caller tok now db =
     (case Session_Lookup tok now db of
        None \<Rightarrow> None
      | Some row \<Rightarrow> (case map_of (db_users db) (se_UserID row) of
                       None \<Rightarrow> None | Some u \<Rightarrow> if ac_Disabled u then None else Some (row, u)))"

definition session_caller :: "gtime \<Rightarrow> auth_db \<Rightarrow> session_row \<Rightarrow> account \<Rightarrow> caller" where
  "session_caller now db row u =
     \<lparr>cl_p = user_principal db (se_UserID row) u, cl_SessionID = se_ID row,
      cl_PINLocked = (ac_PINHash u \<noteq> [] \<and> time_sub now (se_LastSeen row) > PINIdle),
      cl_APIKey = False, cl_Temporary = ac_Temporary u\<rparr>"

text \<open>How the request goes on: with a caller, perhaps under \<^verbatim>\<open>serveIdentity\<close>, or with an error.\<close>

datatype verdict = Serve "caller option" bool | Fail int

definition guest_verdict :: "bool \<Rightarrow> http_req \<Rightarrow> gtime \<Rightarrow> identity \<Rightarrow> verdict" where
  "guest_verdict up r now s =
     (let tok = cookieOrBearer r GuestCookie
      in Serve (if tok = [] \<or> \<not> up then None
                else map_option (\<lambda>p. \<lparr>cl_p = p, cl_SessionID = [], cl_PINLocked = False, cl_APIKey = False, cl_Temporary = False\<rparr>)
                       (lookupGuest tok now (id_shares s))) False)"

definition databaseUnavailable :: "http_req \<Rightarrow> string \<Rightarrow> gtime \<Rightarrow> identity \<Rightarrow> verdict" where
  "databaseUnavailable r tok now s =
     (case cache_get tok principalStaleTTL now s of
        Some c \<Rightarrow> Serve (Some c) False
      | None \<Rightarrow> if rq_STok r \<noteq> [] \<or> \<not> hasPrefix (rq_Path r) ''/api/'' then Serve None False else Fail 503)"

definition identify :: "bool \<Rightarrow> http_req \<Rightarrow> gtime \<Rightarrow> identity \<Rightarrow> identity \<times> verdict" where
  "identify up r now s =
     (let tok = cookieOrBearer r SessionCookie
      in if tok = [] then (s, guest_verdict up r now s)
         else (case (if hasPrefix tok APIKeyPrefix \<and> up then lookupAPIKey tok s else None) of
                 Some c \<Rightarrow> (s, Serve (Some c) False)
               | None \<Rightarrow>
                   (case cache_get tok principalTTL now s of
                      Some c \<Rightarrow> (s, Serve (Some c) True)
                    | None \<Rightarrow>
                        if \<not> up then (s, databaseUnavailable r tok now s)
                        else (case load_caller tok now (id_db s) of
                                None \<Rightarrow> (s, guest_verdict up r now s)
                              | Some (row, u) \<Rightarrow>
                                  (let c = session_caller now (id_db s) row u;
                                       s = (if time_sub now (se_LastSeen row) > seconds 45
                                            then s\<lparr>id_db := Session_Touch (se_ID row) now (id_db s)\<rparr> else s);
                                       s = (if \<not> cl_PINLocked c \<and> \<not> TemporaryExpired now u then cache_put tok c now s else s)
                                   in if TemporaryExpired now u then (s, Serve None False) else (s, Serve (Some c) True))))))"

section \<open>Guards\<close>

text \<open>A guard answers with the status that ends the request, or lets it pass.\<close>

definition RequireUser :: "string \<Rightarrow> caller option \<Rightarrow> int option" where
  "RequireUser path c =
     (if \<not> IsUser (map_option cl_p c) then Some 401
      else if (case c of Some q \<Rightarrow> cl_PINLocked q | None \<Rightarrow> False) \<and>
              \<not> hasPrefix path '' /api/v1/me/pin'' \<and> \<not> hasPrefix path ''/api/v1/me/pin'' then Some 423
      else None)"

definition RequirePerm :: "string \<Rightarrow> caller option \<Rightarrow> int option" where
  "RequirePerm name c =
     (if \<not> IsUser (map_option cl_p c) then Some 401
      else if (case c of Some q \<Rightarrow> cl_PINLocked q | None \<Rightarrow> False) then Some 423
      else if \<not> HasPerm (map_option cl_p c) name then Some 403
      else None)"

definition RequireUserOrGuest :: "string \<Rightarrow> caller option \<Rightarrow> int option" where
  "RequireUserOrGuest path c =
     (case c of
        None \<Rightarrow> Some 401
      | Some q \<Rightarrow>
          if IsGuest (Some (cl_p q)) \<and> \<not> GuestAllowlisted path then Some 403
          else if IsUser (Some (cl_p q)) \<and> cl_PINLocked q then Some 423
          else None)"

definition setup_open :: "string \<Rightarrow> bool" where
  "setup_open path \<longleftrightarrow>
     hasPrefix path ''/api/v1/setup'' \<or> hasPrefix path ''/api/v1/auth/discord'' \<or>
     path \<in> {''/api/v1/system'', ''/healthz'', ''/readyz'', ''/api/v1/auth/csrf'', ''/api/v1/auth/login'',
              ''/api/v1/client-logs'', ''/api/v1/invites/accept''}"

definition setupState :: "bool \<Rightarrow> identity \<Rightarrow> identity \<times> bool option" where
  "setupState up s =
     (if id_setupDone s then (s, Some True)
      else if \<not> up then (s, None)
      else if id_setupFlag s then (s\<lparr>id_setupDone := True\<rparr>, Some True)
      else (s, Some False))"

definition SetupGate :: "bool \<Rightarrow> string \<Rightarrow> caller option \<Rightarrow> identity \<Rightarrow> identity \<times> int option" where
  "SetupGate up path c s =
     (if setup_open path then (s, None)
      else if hasPrefix path ''/api/''
      then (case setupState up s of
              (s, None) \<Rightarrow> (s, if c \<noteq> None then None else Some 503)
            | (s, Some done) \<Rightarrow> (s, if done then None else Some 503))
      else (s, None))"

definition CSRF :: "http_req \<Rightarrow> caller option \<Rightarrow> int option" where
  "CSRF r c =
     (if SafeMethod (rq_Method r) then None
      else if (case c of Some q \<Rightarrow> cl_APIKey q | None \<Rightarrow> False) then None
      else if \<not> CheckCSRF r then Some 403 else None)"

end
