(* ===== verification/Identity_Handlers.thy ===== *)
theory Identity_Handlers
  imports Identity
begin

text \<open>
  The handlers that change accounts, sessions, roles, keys and temporary guests
  (\<^verbatim>\<open>src/internal/auth/handlers.go\<close>, \<^verbatim>\<open>rbac_handlers.go\<close>, \<^verbatim>\<open>apikeys.go\<close>, the sign-in and PIN operations
  of \<^verbatim>\<open>service.go\<close>, \<^verbatim>\<open>src/internal/users/users.go\<close> and \<^verbatim>\<open>guests.go\<close>), and \<open>respond\<close>, the whole way of a
  request: identification, setup gate, CSRF check, guard, handler, and the invalidation of the cache.
  Verdicts on passwords, new IDs and tokens are arguments; bodies decode.
\<close>

section \<open>Signing in\<close>

datatype login_error = ErrInvalidCredentials | ErrDisabled | ErrLocalLoginDisabled | ErrSessionLimit

definition ByUsername :: "string \<Rightarrow> auth_db \<Rightarrow> (string \<times> account) option" where
  "ByUsername nm db = List.find (\<lambda>(uid, u). toLower (ac_Username u) = toLower nm) (db_users db)"

definition Login :: "string \<Rightarrow> bool \<Rightarrow> bool \<Rightarrow> string \<Rightarrow> string \<Rightarrow> gtime \<Rightarrow> auth_db \<Rightarrow> auth_db \<times> (login_error + gtime)" where
  "Login nm verified localAllowed sid raw now db =
     (case ByUsername nm db of
        None \<Rightarrow> (db, Inl ErrInvalidCredentials)
      | Some (uid, u) \<Rightarrow>
          if ac_Disabled u \<or> TemporaryExpired now u then (db, Inl ErrDisabled)
          else if \<not> ac_Temporary u \<and> \<not> localAllowed then (db, Inl ErrLocalLoginDisabled)
          else if \<not> verified then (db, Inl ErrInvalidCredentials)
          else if ac_MaxSessions u > 0 \<and> CountForUser uid now db \<ge> ac_MaxSessions u then (db, Inl ErrSessionLimit)
          else (let (db, exp) = Session_Create sid raw uid now db
                in (db, Inr (if ac_Temporary u \<and> ac_ExpiresAt u \<noteq> 0 \<and> exp > ac_ExpiresAt u then ac_ExpiresAt u else exp))))"

definition login_status :: "login_error + gtime \<Rightarrow> int" where
  "login_status r =
     (case r of Inr exp \<Rightarrow> 200
      | Inl e \<Rightarrow> if e = ErrLocalLoginDisabled then 403 else if e = ErrSessionLimit then 429 else 401)"

section \<open>One's own account\<close>

definition ChangePassword :: "string \<Rightarrow> bool \<Rightarrow> nat \<Rightarrow> auth_db \<Rightarrow> auth_db \<times> bool" where
  "ChangePassword uid verified nextLen db =
     (case map_of (db_users db) uid of
        None \<Rightarrow> (db, False)
      | Some u \<Rightarrow>
          if ac_HasPassword u \<and> \<not> verified then (db, False)
          else if nextLen < 8 then (db, False)
          else (DeleteAllForUser uid (db\<lparr>db_users := set_key uid (u\<lparr>ac_HasPassword := True\<rparr>) (db_users db)\<rparr>), True))"

definition update_account :: "string \<Rightarrow> (account \<Rightarrow> account) \<Rightarrow> auth_db \<Rightarrow> auth_db" where
  "update_account uid f db =
     (case map_of (db_users db) uid of None \<Rightarrow> db | Some u \<Rightarrow> db\<lparr>db_users := set_key uid (f u) (db_users db)\<rparr>)"

definition SetPIN :: "string \<Rightarrow> string \<Rightarrow> string \<Rightarrow> auth_db \<Rightarrow> auth_db \<times> bool" where
  "SetPIN uid pin hash db =
     (if length pin < 4 \<or> length pin > 8 then (db, False)
      else if list_ex (\<lambda>c. digit_val c = None) pin then (db, False)
      else (update_account uid (\<lambda>u. u\<lparr>ac_PINHash := hash\<rparr>) db, True))"

definition ClearPIN :: "string \<Rightarrow> auth_db \<Rightarrow> auth_db" where
  "ClearPIN uid db = update_account uid (\<lambda>u. u\<lparr>ac_PINHash := []\<rparr>) db"

definition VerifyPIN :: "string \<Rightarrow> bool \<Rightarrow> auth_db \<Rightarrow> bool" where
  "VerifyPIN uid verified db \<longleftrightarrow>
     (case map_of (db_users db) uid of None \<Rightarrow> False | Some u \<Rightarrow> ac_PINHash u \<noteq> [] \<and> verified)"

definition handleUnlockPIN :: "string \<Rightarrow> bool \<Rightarrow> http_req \<Rightarrow> gtime \<Rightarrow> auth_db \<Rightarrow> auth_db \<times> int" where
  "handleUnlockPIN uid verified r now db =
     (if \<not> VerifyPIN uid verified db then (db, 401)
      else (let tok = cookieOrBearer r SessionCookie
            in if tok = [] then (db, 200)
               else (case Session_Lookup tok now db of
                       None \<Rightarrow> (db, 200) | Some row \<Rightarrow> (Session_Touch (se_ID row) now db, 200))))"

definition UpdateDisplayName :: "string \<Rightarrow> string \<Rightarrow> auth_db \<Rightarrow> auth_db \<times> bool" where
  "UpdateDisplayName uid display db =
     (if trimSpace display = [] then (db, False)
      else (update_account uid (\<lambda>u. u\<lparr>ac_DisplayName := trimSpace display\<rparr>) db, True))"

definition SetPassword :: "string \<Rightarrow> nat \<Rightarrow> auth_db \<Rightarrow> auth_db \<times> bool" where
  "SetPassword uid nextLen db =
     (if nextLen < 8 then (db, False) else (update_account uid (\<lambda>u. u\<lparr>ac_HasPassword := True\<rparr>) db, True))"

section \<open>Accounts of others\<close>

record user_patch =
  up_DisplayName :: "string option"
  up_Disabled :: "bool option"
  up_RoleIDs :: "string list option"
  up_Password :: "nat option"
  up_AgeLimit :: "int option"

text \<open>\<open>then_field\<close> continues with the next field of the body unless this one failed.\<close>

definition then_field :: "auth_db \<times> int option \<Rightarrow> (auth_db \<Rightarrow> auth_db \<times> int option) \<Rightarrow> auth_db \<times> int option" where
  "then_field x f = (case x of (db, Some st) \<Rightarrow> (db, Some st) | (db, None) \<Rightarrow> f db)"

definition patch_user :: "principal option \<Rightarrow> string \<Rightarrow> user_patch \<Rightarrow> auth_db \<Rightarrow> auth_db \<times> int" where
  "patch_user p uid body db =
     (case
        then_field (then_field (then_field (then_field (then_field
          (db, if (case up_AgeLimit body of Some a \<Rightarrow> a < 0 \<or> a > 21 | None \<Rightarrow> False) then Some 400
               else map_option CeilingHTTPStatus (AssertCanModifyUser db p uid))
          (\<lambda>db. case up_AgeLimit body of None \<Rightarrow> (db, None)
                | Some a \<Rightarrow> if has_key uid (db_users db) then (update_account uid (\<lambda>u. u\<lparr>ac_AgeLimit := a\<rparr>) db, None) else (db, Some 404)))
          (\<lambda>db. case up_DisplayName body of None \<Rightarrow> (db, None)
                | Some d \<Rightarrow> (case UpdateDisplayName uid d db of (db, ok) \<Rightarrow> (db, if ok then None else Some 400))))
          (\<lambda>db. case up_Disabled body of None \<Rightarrow> (db, None)
                | Some b \<Rightarrow> (case SetDisabled p uid b db of (db, e) \<Rightarrow> (db, map_option CeilingHTTPStatus e))))
          (\<lambda>db. case up_RoleIDs body of None \<Rightarrow> (db, None)
                | Some ids \<Rightarrow> (case SetUserRolesAs p uid ids db of (db, e) \<Rightarrow> (db, map_option CeilingHTTPStatus e))))
          (\<lambda>db. case up_Password body of None \<Rightarrow> (db, None)
                | Some n \<Rightarrow> if n = 0 then (db, None)
                            else (case SetPassword uid n db of (db, ok) \<Rightarrow> (db, if ok then None else Some 400)))
      of (db, Some st) \<Rightarrow> (db, st) | (db, None) \<Rightarrow> (db, if has_key uid (db_users db) then 200 else 404))"

definition create_user :: "principal option \<Rightarrow> bool \<Rightarrow> string \<Rightarrow> string \<Rightarrow> nat \<Rightarrow> string \<Rightarrow> bool \<Rightarrow> string list \<Rightarrow> auth_db \<Rightarrow> auth_db \<times> int" where
  "create_user actor localAllowed uid username passwordLen display admin roleIDs db =
     (if admin \<and> \<not> CanManageAdministrators actor then (db, 403)
      else (case AssertCanAssignRoles db actor []
                   ((if roleIDs = [] \<and> \<not> admin then [RoleUser] else roleIDs) @ (if admin then [RoleAdministrator] else [])) of
              Some e \<Rightarrow> (db, CeilingHTTPStatus e)
            | None \<Rightarrow>
                if \<not> localAllowed then (db, 403)
                else (case CreateUser uid username passwordLen display admin db of
                        (db, Some e) \<Rightarrow> (db, if e = ErrConstraint then 409 else 400)
                      | (db, None) \<Rightarrow>
                          if roleIDs = [] then (db, 201)
                          else (case SetUserRolesAs actor uid roleIDs db of
                                  (db, Some e) \<Rightarrow> (db, CeilingHTTPStatus e) | (db, None) \<Rightarrow> (db, 201)))))"

section \<open>Temporary guests\<close>

definition canIssueGuests :: "caller option \<Rightarrow> bool \<Rightarrow> bool \<times> bool" where
  "canIssueGuests c owns =
     (case c of
        None \<Rightarrow> (False, False)
      | Some q \<Rightarrow> if cl_Temporary q then (False, False)
                  else if p_IsAdmin (cl_p q) \<or> HasPerm (Some (cl_p q)) ''users.manage'' then (True, True)
                  else (False, owns))"

definition guestHourLimit :: "int \<Rightarrow> int" where
  "guestHourLimit v = (if v > 0 \<and> v \<le> 24 * 30 then v else 24 * 30)"

fun grant_all :: "string \<Rightarrow> string list \<Rightarrow> auth_db \<Rightarrow> auth_db \<times> bool" where
  "grant_all uid [] db = (db, True)"
| "grant_all uid (lib # libs) db =
     (if trimSpace lib = [] then grant_all uid libs db
      else (case Grant_Set uid lib False db of (db, Some e) \<Rightarrow> (db, False) | (db, None) \<Rightarrow> grant_all uid libs db))"

text \<open>\<^verbatim>\<open>createGuest\<close>: \<open>owns\<close> says whether the caller owns a household, \<open>suffix\<close> is the random end of a made-up name.\<close>

definition create_guest :: "caller option \<Rightarrow> bool \<Rightarrow> int \<Rightarrow> string \<Rightarrow> string \<Rightarrow> string \<Rightarrow> string \<Rightarrow> int \<Rightarrow> int \<Rightarrow> bool \<Rightarrow> string list
    \<Rightarrow> gtime \<Rightarrow> auth_db \<Rightarrow> auth_db \<times> int" where
  "create_guest c owns hourLimit uid suffix username display hours maxSessions partyOnly libs now db =
     (let (admin, owner) = canIssueGuests c owns
      in if \<not> admin \<and> \<not> owner then (db, 403)
         else if hours \<le> 0 \<or> hours > guestHourLimit hourLimit then (db, 400)
         else if maxSessions < 0 \<or> maxSessions > 10 then (db, 400)
         else (let username = (if trimSpace username = [] then ''guest-'' @ toLower suffix else trimSpace username);
                   display = (if trimSpace display = [] then username else trimSpace display)
               in if has_key uid (db_users db) \<or> list_ex (\<lambda>(v, row). toLower (ac_Username row) = toLower username) (db_users db)
                  then (db, 409)
                  else (case grant_all uid (if admin then libs else [])
                               (db\<lparr>db_users := db_users db @
                                  [(uid, (new_account username display False)
                                           \<lparr>ac_Temporary := True, ac_ExpiresAt := whole_seconds (now + seconds (3600 * hours)),
                                            ac_MaxSessions := (if maxSessions = 0 then 2 else maxSessions),
                                            ac_PartyOnly := (if admin then partyOnly else True),
                                            ac_CreatedBy := (case c of Some q \<Rightarrow> p_UserID (cl_p q) | None \<Rightarrow> [])\<rparr>)]\<rparr>) of
                          (db, ok) \<Rightarrow> (db, if ok then 201 else 400))))"

definition drop_account :: "string \<Rightarrow> auth_db \<Rightarrow> auth_db" where
  "drop_account uid db =
     db\<lparr>db_users := del_key uid (db_users db),
        db_user_roles := filter (\<lambda>(u, r). u \<noteq> uid) (db_user_roles db),
        db_user_grants := filter (\<lambda>((u, l), d). u \<noteq> uid) (db_user_grants db)\<rparr>"

definition revoke_guest :: "caller option \<Rightarrow> bool \<Rightarrow> string \<Rightarrow> auth_db \<Rightarrow> auth_db \<times> int" where
  "revoke_guest c owns uid db =
     (let (admin, owner) = canIssueGuests c owns
      in if \<not> admin \<and> \<not> owner then (db, 403)
         else (case map_of (db_users db) uid of
                 None \<Rightarrow> (db, 404)
               | Some u \<Rightarrow>
                   if \<not> ac_Temporary u \<or> (\<not> admin \<and> ac_CreatedBy u \<noteq> (case c of Some q \<Rightarrow> p_UserID (cl_p q) | None \<Rightarrow> [])) then (db, 404)
                   else (drop_account uid (DeleteAllForUser uid db), 200)))"

fun disable_each :: "string list \<Rightarrow> auth_db \<Rightarrow> auth_db" where
  "disable_each [] db = db"
| "disable_each (uid # uids) db =
     disable_each uids (DeleteAllForUser uid (update_account uid (\<lambda>u. u\<lparr>ac_Disabled := True\<rparr>) db))"

definition expired_guests :: "gtime \<Rightarrow> auth_db \<Rightarrow> string list" where
  "expired_guests now db =
     map fst (filter (\<lambda>(uid, u). ac_Temporary u \<and> \<not> ac_Disabled u \<and> ac_ExpiresAt u \<noteq> 0 \<and> ac_ExpiresAt u < whole_seconds now) (db_users db))"

definition SweepExpiredGuests :: "gtime \<Rightarrow> identity \<Rightarrow> identity \<times> nat" where
  "SweepExpiredGuests now s =
     (let ids = expired_guests now (id_db s);
          s = s\<lparr>id_db := disable_each ids (id_db s)\<rparr>
      in (if ids \<noteq> [] then InvalidatePrincipals s else s, length ids))"

section \<open>Actions\<close>

text \<open>One constructor per route; the arguments are the parameters of the URL and the body.\<close>

datatype action =
    ActMe
  | ActPrefs
  | ActLogin string bool bool string string
  | ActLogout
  | ActLogoutAll
  | ActPassword bool nat
  | ActSetPIN string string
  | ActClearPIN
  | ActUnlockPIN bool
  | ActDeleteSession string
  | ActPatchMe "string option"
  | ActCreateUser bool string string nat string bool "string list"
  | ActPatchUser string user_patch
  | ActRemoveUser string
  | ActCreateRole string string string "string list"
  | ActPatchRole string "string option" "string list option"
  | ActDeleteRole string
  | ActAddMembers string "string list"
  | ActRemoveMember string string
  | ActCreateKey string string string "string list"
  | ActRevokeKey string
  | ActCreateGuest bool int string string string string int int bool "string list"
  | ActRevokeGuest bool string

fun action_method :: "action \<Rightarrow> string" where
  "action_method ActMe = ''GET''"
| "action_method ActPrefs = ''GET''"
| "action_method (ActPatchMe _) = ''PATCH''"
| "action_method (ActPatchUser _ _) = ''PATCH''"
| "action_method (ActPatchRole _ _ _) = ''PATCH''"
| "action_method ActClearPIN = ''DELETE''"
| "action_method (ActDeleteSession _) = ''DELETE''"
| "action_method (ActRemoveUser _) = ''DELETE''"
| "action_method (ActDeleteRole _) = ''DELETE''"
| "action_method (ActRemoveMember _ _) = ''DELETE''"
| "action_method (ActRevokeKey _) = ''DELETE''"
| "action_method (ActRevokeGuest _ _) = ''DELETE''"
| "action_method _ = ''POST''"

fun action_path :: "action \<Rightarrow> string" where
  "action_path ActMe = ''/api/v1/me''"
| "action_path ActPrefs = ''/api/v1/me/preferences''"
| "action_path (ActLogin _ _ _ _ _) = ''/api/v1/auth/login''"
| "action_path ActLogout = ''/api/v1/auth/logout''"
| "action_path ActLogoutAll = ''/api/v1/auth/logout-all''"
| "action_path (ActPassword _ _) = ''/api/v1/me/password''"
| "action_path (ActSetPIN _ _) = ''/api/v1/me/pin''"
| "action_path ActClearPIN = ''/api/v1/me/pin''"
| "action_path (ActUnlockPIN _) = ''/api/v1/me/pin/unlock''"
| "action_path (ActDeleteSession sid) = ''/api/v1/me/sessions/'' @ sid"
| "action_path (ActPatchMe _) = ''/api/v1/me''"
| "action_path (ActCreateUser _ _ _ _ _ _ _) = ''/api/v1/users''"
| "action_path (ActPatchUser uid _) = ''/api/v1/users/'' @ uid"
| "action_path (ActRemoveUser uid) = ''/api/v1/users/'' @ uid"
| "action_path (ActCreateRole _ _ _ _) = ''/api/v1/admin/roles''"
| "action_path (ActPatchRole rid _ _) = ''/api/v1/admin/roles/'' @ rid"
| "action_path (ActDeleteRole rid) = ''/api/v1/admin/roles/'' @ rid"
| "action_path (ActAddMembers rid _) = ''/api/v1/admin/roles/'' @ rid @ ''/members''"
| "action_path (ActRemoveMember rid uid) = ''/api/v1/admin/roles/'' @ rid @ ''/members/'' @ uid"
| "action_path (ActCreateKey _ _ _ _) = ''/api/v1/admin/api-keys''"
| "action_path (ActRevokeKey kid) = ''/api/v1/admin/api-keys/'' @ kid"
| "action_path (ActCreateGuest _ _ _ _ _ _ _ _ _ _) = ''/api/v1/guests''"
| "action_path (ActRevokeGuest _ uid) = ''/api/v1/guests/'' @ uid"

definition guarded :: "int option \<Rightarrow> identity \<Rightarrow> identity \<times> int \<Rightarrow> identity \<times> int" where
  "guarded g s x = (case g of Some st \<Rightarrow> (s, st) | None \<Rightarrow> x)"

definition on_db :: "identity \<Rightarrow> auth_db \<times> int \<Rightarrow> identity \<times> int" where
  "on_db s x = (case x of (db, st) \<Rightarrow> (s\<lparr>id_db := db\<rparr>, st))"

definition with_status :: "int \<Rightarrow> (access_error \<Rightarrow> int) \<Rightarrow> auth_db \<times> access_error option \<Rightarrow> auth_db \<times> int" where
  "with_status okst f x = (case x of (db, Some e) \<Rightarrow> (db, f e) | (db, None) \<Rightarrow> (db, okst))"

definition caller_ID :: "caller option \<Rightarrow> string" where
  "caller_ID c = (case c of None \<Rightarrow> [] | Some q \<Rightarrow> p_UserID (cl_p q))"

definition create_key :: "string \<Rightarrow> string \<Rightarrow> string \<Rightarrow> string list \<Rightarrow> caller option \<Rightarrow> identity \<Rightarrow> identity \<times> int" where
  "create_key kid secret nm scopes c s =
     (if trimSpace nm = [] then (s, 400)
      else (case normalizeAPIKeyScopes scopes of
              None \<Rightarrow> (s, 400)
            | Some sc \<Rightarrow> (s\<lparr>id_keys := id_keys s @ [(kid, \<lparr>ak_Name = trimSpace nm, ak_token = APIKeyPrefix @ secret, ak_Scopes = sc,
                                                       ak_CreatedBy = caller_ID c, ak_Revoked = False\<rparr>)]\<rparr>, 201)))"

definition revoke_key :: "string \<Rightarrow> identity \<Rightarrow> identity \<times> int" where
  "revoke_key kid s =
     (case map_of (id_keys s) kid of
        None \<Rightarrow> (s, 404)
      | Some k \<Rightarrow> if ak_Revoked k then (s, 404) else (s\<lparr>id_keys := set_key kid (k\<lparr>ak_Revoked := True\<rparr>) (id_keys s)\<rparr>, 204))"

definition create_role :: "string \<Rightarrow> string \<Rightarrow> string \<Rightarrow> string list \<Rightarrow> principal option \<Rightarrow> auth_db \<Rightarrow> auth_db \<times> int" where
  "create_role rid nm desc perms p db =
     (case AssertCanGrantPermissions p perms of
        Some e \<Rightarrow> (db, CeilingHTTPStatus e)
      | None \<Rightarrow> with_status 201 (\<lambda>_. 400) (CreateRole rid nm desc perms db))"

definition patch_role :: "string \<Rightarrow> string option \<Rightarrow> string list option \<Rightarrow> principal option \<Rightarrow> auth_db \<Rightarrow> auth_db \<times> int" where
  "patch_role rid desc perms p db =
     (case map_of (db_roles db) rid of
        None \<Rightarrow> (db, 404)
      | Some row \<Rightarrow>
          (case (case perms of None \<Rightarrow> None | Some ps \<Rightarrow> AssertCanGrantPermissions p ps) of
             Some e \<Rightarrow> (db, CeilingHTTPStatus e)
           | None \<Rightarrow> with_status 200 (\<lambda>_. 400)
                      (UpdateRole rid (case desc of None \<Rightarrow> rl_Description row | Some d \<Rightarrow> d) perms db)))"

definition handleLogin :: "string \<Rightarrow> bool \<Rightarrow> bool \<Rightarrow> string \<Rightarrow> string \<Rightarrow> gtime \<Rightarrow> auth_db \<Rightarrow> auth_db \<times> int" where
  "handleLogin nm verified localAllowed sid raw now db =
     (case Login nm verified localAllowed sid raw now db of (db, res) \<Rightarrow> (db, login_status res))"

definition handleLogout :: "http_req \<Rightarrow> auth_db \<Rightarrow> auth_db \<times> int" where
  "handleLogout r db =
     (case map_of (rq_Cookies r) SessionCookie of Some v \<Rightarrow> (Session_Delete v db, 200) | None \<Rightarrow> (db, 200))"

definition handleLogoutAll :: "string \<Rightarrow> auth_db \<Rightarrow> auth_db \<times> int" where
  "handleLogoutAll uid db = (DeleteAllForUser uid db, 200)"

definition handleMe :: "string \<Rightarrow> auth_db \<Rightarrow> auth_db \<times> int" where
  "handleMe uid db = (db, if has_key uid (db_users db) then 200 else 401)"

definition handlePassword :: "string \<Rightarrow> bool \<Rightarrow> nat \<Rightarrow> auth_db \<Rightarrow> auth_db \<times> int" where
  "handlePassword uid verified nextLen db =
     (case ChangePassword uid verified nextLen db of (db, ok) \<Rightarrow> (db, if ok then 200 else 400))"

definition handleSetPIN :: "string \<Rightarrow> string \<Rightarrow> string \<Rightarrow> auth_db \<Rightarrow> auth_db \<times> int" where
  "handleSetPIN uid pin hash db = (case SetPIN uid pin hash db of (db, ok) \<Rightarrow> (db, if ok then 200 else 400))"

definition handleClearPIN :: "string \<Rightarrow> auth_db \<Rightarrow> auth_db \<times> int" where
  "handleClearPIN uid db = (ClearPIN uid db, 200)"

definition handleDeleteSession :: "caller option \<Rightarrow> string \<Rightarrow> auth_db \<Rightarrow> auth_db \<times> int" where
  "handleDeleteSession c sid db =
     (if sid = (case c of Some q \<Rightarrow> cl_SessionID q | None \<Rightarrow> []) then (db, 400) else (DeleteID (caller_ID c) sid db, 200))"

definition handlePatchMe :: "string \<Rightarrow> string option \<Rightarrow> auth_db \<Rightarrow> auth_db \<times> int" where
  "handlePatchMe uid display db =
     (case (case display of None \<Rightarrow> (db, True) | Some d \<Rightarrow> UpdateDisplayName uid d db) of
        (db, ok) \<Rightarrow> (db, if \<not> ok then 400 else if has_key uid (db_users db) then 200 else 401))"

definition handleDeleteRole :: "string \<Rightarrow> auth_db \<Rightarrow> auth_db \<times> int" where
  "handleDeleteRole rid db = with_status 200 (\<lambda>_. 400) (DeleteRole rid db)"

definition handleAddMembers :: "principal option \<Rightarrow> string \<Rightarrow> string list \<Rightarrow> auth_db \<Rightarrow> auth_db \<times> int" where
  "handleAddMembers p rid uids db = with_status 200 CeilingHTTPStatus (AddRoleMembersAs p rid uids db)"

definition handleRemoveMember :: "principal option \<Rightarrow> string \<Rightarrow> string \<Rightarrow> auth_db \<Rightarrow> auth_db \<times> int" where
  "handleRemoveMember p rid uid db = with_status 200 CeilingHTTPStatus (RemoveRoleMemberAs p rid uid db)"

definition remove_user :: "principal option \<Rightarrow> string \<Rightarrow> auth_db \<Rightarrow> auth_db \<times> int" where
  "remove_user p uid db = with_status 200 CeilingHTTPStatus (DeleteUser p uid db)"

fun handle_action :: "action \<Rightarrow> http_req \<Rightarrow> caller option \<Rightarrow> gtime \<Rightarrow> identity \<Rightarrow> identity \<times> int" where
  "handle_action ActMe r c now s = guarded (RequireUser (rq_Path r) c) s (on_db s (handleMe (caller_ID c) (id_db s)))"
| "handle_action ActPrefs r c now s = guarded (RequireUser (rq_Path r) c) s (s, 200)"
| "handle_action (ActLogin nm verified localAllowed sid raw) r c now s =
     on_db s (handleLogin nm verified localAllowed sid raw now (id_db s))"
| "handle_action ActLogout r c now s = on_db s (handleLogout r (id_db s))"
| "handle_action ActLogoutAll r c now s =
     guarded (RequireUser (rq_Path r) c) s (on_db s (handleLogoutAll (caller_ID c) (id_db s)))"
| "handle_action (ActPassword verified nextLen) r c now s =
     guarded (RequireUser (rq_Path r) c) s (on_db s (handlePassword (caller_ID c) verified nextLen (id_db s)))"
| "handle_action (ActSetPIN pin hash) r c now s =
     guarded (RequireUser (rq_Path r) c) s (on_db s (handleSetPIN (caller_ID c) pin hash (id_db s)))"
| "handle_action ActClearPIN r c now s =
     guarded (RequireUser (rq_Path r) c) s (on_db s (handleClearPIN (caller_ID c) (id_db s)))"
| "handle_action (ActUnlockPIN verified) r c now s =
     guarded (RequireUser (rq_Path r) c) s (on_db s (handleUnlockPIN (caller_ID c) verified r now (id_db s)))"
| "handle_action (ActDeleteSession sid) r c now s =
     guarded (RequireUser (rq_Path r) c) s (on_db s (handleDeleteSession c sid (id_db s)))"
| "handle_action (ActPatchMe display) r c now s =
     guarded (RequireUser (rq_Path r) c) s (on_db s (handlePatchMe (caller_ID c) display (id_db s)))"
| "handle_action (ActCreateUser localAllowed uid username passwordLen display admin roleIDs) r c now s =
     guarded (RequirePerm ''users.manage'' c) s
       (on_db s (create_user (map_option cl_p c) localAllowed uid username passwordLen display admin roleIDs (id_db s)))"
| "handle_action (ActPatchUser uid body) r c now s =
     guarded (RequirePerm ''users.manage'' c) s (on_db s (patch_user (map_option cl_p c) uid body (id_db s)))"
| "handle_action (ActRemoveUser uid) r c now s =
     guarded (RequirePerm ''users.manage'' c) s (on_db s (remove_user (map_option cl_p c) uid (id_db s)))"
| "handle_action (ActCreateRole rid nm desc perms) r c now s =
     guarded (RequirePerm ''roles.manage'' c) s (on_db s (create_role rid nm desc perms (map_option cl_p c) (id_db s)))"
| "handle_action (ActPatchRole rid desc perms) r c now s =
     guarded (RequirePerm ''roles.manage'' c) s (on_db s (patch_role rid desc perms (map_option cl_p c) (id_db s)))"
| "handle_action (ActDeleteRole rid) r c now s =
     guarded (RequirePerm ''roles.manage'' c) s (on_db s (handleDeleteRole rid (id_db s)))"
| "handle_action (ActAddMembers rid uids) r c now s =
     guarded (RequirePerm ''roles.manage'' c) s (on_db s (handleAddMembers (map_option cl_p c) rid uids (id_db s)))"
| "handle_action (ActRemoveMember rid uid) r c now s =
     guarded (RequirePerm ''roles.manage'' c) s (on_db s (handleRemoveMember (map_option cl_p c) rid uid (id_db s)))"
| "handle_action (ActCreateKey kid secret nm scopes) r c now s =
     guarded (RequirePerm PermAdmin c) s (create_key kid secret nm scopes c s)"
| "handle_action (ActRevokeKey kid) r c now s = guarded (RequirePerm PermAdmin c) s (revoke_key kid s)"
| "handle_action (ActCreateGuest owns hourLimit uid suffix username display hours maxSessions partyOnly libs) r c now s =
     guarded (RequireUser (rq_Path r) c) s
       (on_db s (create_guest c owns hourLimit uid suffix username display hours maxSessions partyOnly libs now (id_db s)))"
| "handle_action (ActRevokeGuest owns uid) r c now s =
     guarded (RequireUser (rq_Path r) c) s (on_db s (revoke_guest c owns uid (id_db s)))"

section \<open>The whole way of a request\<close>

definition serve_inner :: "action \<Rightarrow> http_req \<Rightarrow> caller option \<Rightarrow> gtime \<Rightarrow> identity \<Rightarrow> identity \<times> int" where
  "serve_inner act r c now s =
     (case SetupGate True (rq_Path r) c s of
        (s, Some st) \<Rightarrow> (s, st)
      | (s, None) \<Rightarrow> (case CSRF r c of Some st \<Rightarrow> (s, st) | None \<Rightarrow> handle_action act r c now s))"

definition respond :: "action \<Rightarrow> http_req \<Rightarrow> gtime \<Rightarrow> identity \<Rightarrow> identity \<times> int" where
  "respond act r now s =
     (case identify True r now s of
        (s, Fail st) \<Rightarrow> (s, st)
      | (s, Serve c cached) \<Rightarrow>
          (case serve_inner act r c now s of
             (s, st) \<Rightarrow> (if cached \<and> mutatesIdentity r \<and> st < 400 then InvalidatePrincipals s else s, st)))"

end
