(* ===== verification/Access_Safety.thy ===== *)
theory Access_Safety
  imports Access
begin

text \<open>
  What administration keeps true: there is always an enabled administrator, the original one keeps
  every right, only built-in roles carry the administrator's permission, and nobody hands out more
  than they have. \<open>acc_step\<close> is the administration as a machine, an instance of the
  \<open>invariant_machine\<close> interface.
\<close>

section \<open>The invariant\<close>

definition admin_perm :: "auth_db \<Rightarrow> string \<Rightarrow> bool" where
  "admin_perm db uid \<longleftrightarrow> (\<exists>r. (uid, r) \<in> set (db_user_roles db) \<and> (r, PermAdmin) \<in> set (db_role_perms db))"

definition tables_ok :: "auth_db \<Rightarrow> bool" where
  "tables_ok db \<longleftrightarrow> distinct (keys (db_users db)) \<and> distinct (keys (db_roles db)) \<and>
     (\<forall>(u, r) \<in> set (db_user_roles db). has_key u (db_users db) \<and> has_key r (db_roles db)) \<and>
     (\<forall>(r, p) \<in> set (db_role_perms db). p = PermAdmin \<longrightarrow> (\<exists>row. map_of (db_roles db) r = Some row \<and> rl_IsSystem row)) \<and>
     (\<forall>r \<in> {RoleSuperadmin, RoleAdministrator}. (r, PermAdmin) \<in> set (db_role_perms db) \<and> has_key r (db_roles db))"

definition flags_ok :: "auth_db \<Rightarrow> bool" where
  "flags_ok db \<longleftrightarrow> (\<forall>(uid, u) \<in> set (db_users db). ac_IsAdmin u = admin_perm db uid)"

definition some_admin :: "auth_db \<Rightarrow> bool" where
  "some_admin db \<longleftrightarrow> (\<exists>(uid, u) \<in> set (db_users db). \<not> ac_Disabled u \<and> admin_perm db uid)"

definition original_ok :: "auth_db \<Rightarrow> bool" where
  "original_ok db \<longleftrightarrow> (trimSpace (db_original db) \<noteq> [] \<longrightarrow>
     (\<exists>u. map_of (db_users db) (db_original db) = Some u \<and> \<not> ac_Disabled u) \<and>
     (db_original db, RoleSuperadmin) \<in> set (db_user_roles db))"

definition acc_ok :: "auth_db \<Rightarrow> bool" where
  "acc_ok db \<longleftrightarrow> tables_ok db \<and> flags_ok db \<and> some_admin db \<and> original_ok db"

lemma acc_okD:
  assumes "acc_ok db"
  shows "tables_ok db" "flags_ok db" "some_admin db" "original_ok db"
  using assms by (simp_all add: acc_ok_def)

lemma perm_admin_iff: "PermAdmin \<in> set (PermissionsFor db uid) \<longleftrightarrow> admin_perm db uid"
  by (force simp: PermissionsFor_def RoleIDsFor_def rolePerms_def admin_perm_def)

lemma administrator_iff:
  "flags_ok db \<Longrightarrow> (uid, u) \<in> set (db_users db) \<Longrightarrow> is_administrator db uid u \<longleftrightarrow> \<not> ac_Disabled u \<and> admin_perm db uid"
  by (auto simp: is_administrator_def perm_admin_iff flags_ok_def)

lemma user_is_admin_iff:
  "acc_ok db \<Longrightarrow> userIsAdmin db uid \<longleftrightarrow> admin_perm db uid"
  by (auto simp: userIsAdmin_def perm_admin_iff acc_ok_def flags_ok_def split: option.splits dest!: map_of_SomeD)

lemma some_admin_count: "flags_ok db \<Longrightarrow> some_admin db \<longleftrightarrow> 1 \<le> AdministratorCount db"
proof -
  assume f: "flags_ok db"
  have "1 \<le> AdministratorCount db \<longleftrightarrow> (\<exists>(uid, u) \<in> set (db_users db). is_administrator db uid u)"
    by (auto simp: AdministratorCount_def Suc_le_eq filter_empty_conv)
  then show ?thesis using administrator_iff [OF f] by (auto simp: some_admin_def)
qed

text \<open>If at least two administrators are counted, one is left without any given account.\<close>

lemma another_admin:
  assumes ok: "acc_ok db" and two: "\<not> AdministratorCount db \<le> 1"
  shows "\<exists>(v, w) \<in> set (db_users db). v \<noteq> uid \<and> \<not> ac_Disabled w \<and> admin_perm db v"
proof (rule ccontr)
  let ?as = "filter (\<lambda>(v, u). is_administrator db v u) (db_users db)"
  assume none: "\<not> ?thesis"
  have "distinct (map fst ?as)"
    using acc_okD(1) [OF ok] by (simp add: tables_ok_def keys_def distinct_map_filter)
  moreover have "set (map fst ?as) \<subseteq> {uid}"
    using none administrator_iff [OF acc_okD(2) [OF ok]] by fastforce
  ultimately have "length (map fst ?as) \<le> card {uid}" by (metis distinct_card card_mono finite.emptyI finite.insertI)
  then show False using two by (simp add: AdministratorCount_def)
qed

section \<open>Operations on the roles of one account\<close>

lemma sync_fields [simp]:
  "db_roles (syncIsAdmin uid db) = db_roles db" "db_role_perms (syncIsAdmin uid db) = db_role_perms db"
  "db_user_roles (syncIsAdmin uid db) = db_user_roles db" "db_original (syncIsAdmin uid db) = db_original db"
  "db_permissions (syncIsAdmin uid db) = db_permissions db"
  by (auto simp: syncIsAdmin_def split: option.splits)

lemma admin_perm_cong:
  "db_user_roles db' = db_user_roles db \<Longrightarrow> db_role_perms db' = db_role_perms db \<Longrightarrow> admin_perm db' uid = admin_perm db uid"
  by (simp add: admin_perm_def)

lemma sync_keys [simp]: "set (keys (db_users (syncIsAdmin uid db))) = set (keys (db_users db))"
  by (auto simp: syncIsAdmin_def map_of_in_keys split: option.splits)

lemma sync_has_key [simp]: "has_key v (db_users (syncIsAdmin uid db)) = has_key v (db_users db)"
  by (simp add: has_key_iff)

lemma sync_user:
  assumes d: "distinct (keys (db_users db))" and v: "(v, w) \<in> set (db_users (syncIsAdmin uid db))"
  shows "\<exists>w0. (v, w0) \<in> set (db_users db) \<and> ac_Disabled w = ac_Disabled w0 \<and>
    ac_IsAdmin w = (if v = uid then admin_perm db uid else ac_IsAdmin w0)"
proof (cases "map_of (db_users db) uid")
  case None
  then have "v \<noteq> uid" using v weak_map_of_SomeI [of uid w "db_users db"] by (auto simp: syncIsAdmin_def)
  then show ?thesis using v None by (auto simp: syncIsAdmin_def)
next
  case (Some u)
  then show ?thesis using v d by (auto simp: syncIsAdmin_def perm_admin_iff set_set_key dest: map_of_SomeD)
qed

lemma sync_user_back:
  assumes "distinct (keys (db_users db))" "(v, w0) \<in> set (db_users db)"
  shows "\<exists>w. (v, w) \<in> set (db_users (syncIsAdmin uid db)) \<and> ac_Disabled w = ac_Disabled w0"
proof (cases "v = uid")
  case True
  then have "map_of (db_users db) uid = Some w0" using assms by (simp add: map_of_distinct_iff)
  then show ?thesis using assms True by (auto simp: syncIsAdmin_def set_set_key)
next
  case False
  then show ?thesis using assms by (auto simp: syncIsAdmin_def set_set_key split: option.splits)
qed

lemma roles_change_ok:
  assumes t: "tables_ok db" and f: "\<And>v w. (v, w) \<in> set (db_users db) \<Longrightarrow> v \<noteq> uid \<Longrightarrow> ac_IsAdmin w = admin_perm db v"
    and o: "original_ok db" and db1: "db1 = db\<lparr>db_user_roles := ur\<rparr>"
    and others: "\<And>u r. u \<noteq> uid \<Longrightarrow> (u, r) \<in> set ur \<longleftrightarrow> (u, r) \<in> set (db_user_roles db)"
    and own: "\<And>r. (uid, r) \<in> set ur \<Longrightarrow> has_key uid (db_users db) \<and> has_key r (db_roles db)"
    and orig: "db_original db = uid \<Longrightarrow> trimSpace uid \<noteq> [] \<Longrightarrow> (uid, RoleSuperadmin) \<in> set ur"
    and admin: "some_admin db1"
  shows "acc_ok (syncIsAdmin uid db1)"
proof -
  have d: "distinct (keys (db_users db1))" using t by (simp add: db1 tables_ok_def)
  have perm: "admin_perm (syncIsAdmin uid db1) v = admin_perm db1 v" for v by (rule admin_perm_cong) simp_all
  have same: "admin_perm db1 v = admin_perm db v" if "v \<noteq> uid" for v
    using others that by (auto simp: admin_perm_def db1)
  have "tables_ok (syncIsAdmin uid db1)"
  proof -
    have "distinct (keys (db_users (syncIsAdmin uid db1)))" using d by (auto simp: syncIsAdmin_def split: option.split)
    moreover have "has_key u (db_users db) \<and> has_key r (db_roles db)" if "(u, r) \<in> set ur" for u r
      using that others [of u r] own [of r] t by (cases "u = uid") (auto simp: tables_ok_def)
    ultimately show ?thesis using t by (auto simp: tables_ok_def db1)
  qed
  moreover have "flags_ok (syncIsAdmin uid db1)"
  proof -
    have "ac_IsAdmin w = admin_perm db1 v" if "(v, w) \<in> set (db_users (syncIsAdmin uid db1))" for v w
    proof -
      from sync_user [OF d that] obtain w0 where "(v, w0) \<in> set (db_users db)"
        "ac_IsAdmin w = (if v = uid then admin_perm db1 uid else ac_IsAdmin w0)" by (auto simp: db1)
      then show ?thesis using same f by (auto split: if_splits)
    qed
    then show ?thesis by (auto simp: flags_ok_def perm)
  qed
  moreover have "some_admin (syncIsAdmin uid db1)"
    using admin sync_user_back [OF d] by (fastforce simp: some_admin_def perm)
  moreover have "original_ok (syncIsAdmin uid db1)"
  proof -
    have "\<exists>u. map_of (db_users (syncIsAdmin uid db1)) (db_original db) = Some u \<and> \<not> ac_Disabled u"
      if "trimSpace (db_original db) \<noteq> []"
      using that o by (auto simp: original_ok_def syncIsAdmin_def db1 split: option.splits)
    moreover have "(db_original db, RoleSuperadmin) \<in> set ur" if "trimSpace (db_original db) \<noteq> []"
      using that o others [of "db_original db" RoleSuperadmin] orig by (auto simp: original_ok_def)
    ultimately show ?thesis by (simp add: original_ok_def db1)
  qed
  ultimately show ?thesis by (simp add: acc_ok_def)
qed

lemma roles_change:
  assumes ok: "acc_ok db" and "db1 = db\<lparr>db_user_roles := ur\<rparr>"
    and "\<And>u r. u \<noteq> uid \<Longrightarrow> (u, r) \<in> set ur \<longleftrightarrow> (u, r) \<in> set (db_user_roles db)"
    and "\<And>r. (uid, r) \<in> set ur \<Longrightarrow> has_key uid (db_users db) \<and> has_key r (db_roles db)"
    and "db_original db = uid \<Longrightarrow> trimSpace uid \<noteq> [] \<Longrightarrow> (uid, RoleSuperadmin) \<in> set ur"
    and "some_admin db1"
  shows "acc_ok (syncIsAdmin uid db1)"
  using acc_okD(2) [OF ok] assms(2-)
  by (intro roles_change_ok [OF acc_okD(1) [OF ok] _ acc_okD(4) [OF ok]]) (auto simp: flags_ok_def)

lemma some_adminI: "(v, w) \<in> set (db_users db) \<Longrightarrow> \<not> ac_Disabled w \<Longrightarrow> admin_perm db v \<Longrightarrow> some_admin db"
  by (auto simp: some_admin_def)

lemma assign_ok: "acc_ok db \<Longrightarrow> acc_ok (fst (AssignRole uid rid db))"
proof (cases "\<not> has_key uid (db_users db) \<or> \<not> has_key rid (db_roles db)")
  case False
  assume ok: "acc_ok db"
  let ?ur = "List.insert (uid, rid) (db_user_roles db)"
  have "some_admin (db\<lparr>db_user_roles := ?ur\<rparr>)"
    using acc_okD(3) [OF ok] by (force simp: some_admin_def admin_perm_def)
  with ok False have "acc_ok (syncIsAdmin uid (db\<lparr>db_user_roles := ?ur\<rparr>))"
    by (intro roles_change [OF ok refl]) (auto simp: acc_ok_def original_ok_def tables_ok_def)
  then show ?thesis using False by (simp add: AssignRole_def)
qed (simp add: AssignRole_def)

lemma trim_superadmin: "trimSpace RoleSuperadmin = RoleSuperadmin" "RoleSuperadmin \<noteq> []"
  by code_simp+

lemma keep_superadmin_has: "db_original db = uid \<Longrightarrow> RoleSuperadmin \<in> set (nonblank (keep_superadmin db uid ids))"
  using trim_superadmin by (force simp: keep_superadmin_def nonblank_def list_ex_iff)

lemma grants_admin_iff: "rolesGrantAdmin db ids \<longleftrightarrow> (\<exists>r \<in> set (nonblank ids). (r, PermAdmin) \<in> set (db_role_perms db))"
  by (force simp: rolesGrantAdmin_def list_ex_iff rolePerms_def)

lemma set_roles_ok:
  assumes ok: "acc_ok db"
  shows "acc_ok (fst (SetUserRoles uid roleIDs db))"
proof -
  define ids where "ids = keep_superadmin db uid roleIDs"
  define ur where "ur = filter (\<lambda>(u, r). u \<noteq> uid) (db_user_roles db) @ map (Pair uid) (remdups (nonblank ids))"
  have run: "SetUserRoles uid roleIDs db =
      (case guardLastAdmin db uid False (Some ids) of Some e \<Rightarrow> (db, Some e)
       | None \<Rightarrow>
           if nonblank ids \<noteq> [] \<and> (\<not> has_key uid (db_users db) \<or> list_ex (\<lambda>r. \<not> has_key r (db_roles db)) (nonblank ids))
           then (db, Some ErrConstraint)
           else (syncIsAdmin uid (db\<lparr>db_user_roles := ur\<rparr>), None))"
    by (simp only: SetUserRoles_def Let_def ids_def ur_def)
  show ?thesis
  proof (cases "guardLastAdmin db uid False (Some ids) \<noteq> None \<or>
      nonblank ids \<noteq> [] \<and> (\<not> has_key uid (db_users db) \<or> list_ex (\<lambda>r. \<not> has_key r (db_roles db)) (nonblank ids))")
    case True
    then have "fst (SetUserRoles uid roleIDs db) = db" by (auto simp: run split: option.split)
    then show ?thesis using ok by simp
  next
    case False
    have "some_admin (db\<lparr>db_user_roles := ur\<rparr>)"
    proof -
      obtain v w where v: "(v, w) \<in> set (db_users db)" "\<not> ac_Disabled w" "admin_perm db v"
        "v \<noteq> uid \<or> rolesGrantAdmin db ids"
      proof -
        obtain v w where a: "(v, w) \<in> set (db_users db)" "\<not> ac_Disabled w" "admin_perm db v"
          using acc_okD(3) [OF ok] by (auto simp: some_admin_def)
        show thesis
        proof (cases "v = uid \<and> \<not> rolesGrantAdmin db ids")
          case True
          then have "\<not> AdministratorCount db \<le> 1"
            using False a user_is_admin_iff [OF ok] by (auto simp: guardLastAdmin_def split: if_splits)
          from another_admin [OF ok this] that show thesis by blast
        qed (use a that in blast)
      qed
      have "admin_perm (db\<lparr>db_user_roles := ur\<rparr>) v"
        using v(3,4) by (cases "v = uid") (force simp: admin_perm_def ur_def grants_admin_iff)+
      then show ?thesis by (rule some_adminI [rotated 2]) (use v in auto)
    qed
    then have "acc_ok (syncIsAdmin uid (db\<lparr>db_user_roles := ur\<rparr>))"
      using False keep_superadmin_has [of db uid roleIDs]
      by (intro roles_change [OF ok refl]) (auto simp: ur_def ids_def list_ex_iff)
    then show ?thesis using False by (auto simp: run)
  qed
qed

lemma set_roles_as_ok: "acc_ok db \<Longrightarrow> acc_ok (fst (SetUserRolesAs actor uid ids db))"
  by (auto simp: SetUserRolesAs_def set_roles_ok split: option.split)

lemma add_members_ok: "acc_ok db \<Longrightarrow> acc_ok (fst (AddRoleMembersAs actor rid uids db))"
proof (induction actor rid uids db rule: AddRoleMembersAs.induct)
  case (2 actor rid uid uids db)
  have "acc_ok (fst (AssignRole (trimSpace uid) rid db))" by (rule assign_ok [OF 2(3)])
  with 2 show ?case by (auto split: option.split prod.split)
qed simp

lemma remove_member_ok: "acc_ok db \<Longrightarrow> acc_ok (fst (RemoveRoleMemberAs actor rid uid db))"
  by (auto simp: RemoveRoleMemberAs_def RemoveRoleMember_def set_roles_ok split: option.split)

section \<open>Operations on roles\<close>

text \<open>A change of roles that touches neither accounts nor the permission of an administrator.\<close>

lemma roles_only_ok:
  assumes ok: "acc_ok db" and users: "db_users db' = db_users db" "db_original db' = db_original db"
    and perm: "\<And>r. (r, PermAdmin) \<in> set (db_role_perms db') \<longleftrightarrow> (r, PermAdmin) \<in> set (db_role_perms db)"
    and ur: "\<And>u r. (u, r) \<in> set (db_user_roles db') \<Longrightarrow> (u, r) \<in> set (db_user_roles db) \<and> has_key r (db_roles db')"
      "\<And>u r. (u, r) \<in> set (db_user_roles db) \<Longrightarrow> (r, PermAdmin) \<in> set (db_role_perms db) \<Longrightarrow> (u, r) \<in> set (db_user_roles db')"
    and roles: "distinct (keys (db_roles db'))"
      "\<And>r row. map_of (db_roles db) r = Some row \<Longrightarrow> rl_IsSystem row \<Longrightarrow> \<exists>row'. map_of (db_roles db') r = Some row' \<and> rl_IsSystem row'"
  shows "acc_ok db'"
proof -
  note t = acc_okD(1) [OF ok, unfolded tables_ok_def]
  have admin: "admin_perm db' v = admin_perm db v" for v
    unfolding admin_perm_def using perm ur by blast
  have sys: "\<exists>row. map_of (db_roles db') r = Some row \<and> rl_IsSystem row" if "(r, PermAdmin) \<in> set (db_role_perms db)" for r
    using that t roles(2) by blast
  have builtin: "has_key r (db_roles db')" if "r \<in> {RoleSuperadmin, RoleAdministrator}" for r
    using that t sys [of r] by (auto simp: has_key_def)
  have "\<forall>(u, r) \<in> set (db_user_roles db'). has_key u (db_users db) \<and> has_key r (db_roles db')" using t ur(1) by fastforce
  then have "tables_ok db'"
    using t perm sys builtin roles(1) by (simp add: tables_ok_def users) blast
  moreover have "original_ok db'"
    using acc_okD(4) [OF ok] ur(2) t by (auto simp: original_ok_def users)
  ultimately show ?thesis
    using acc_okD(2,3) [OF ok] by (auto simp: acc_ok_def flags_ok_def some_admin_def users admin)
qed

lemma replace_perms:
  "set (db_role_perms (replaceRolePerms rid ps False db)) =
     {(r, p) \<in> set (db_role_perms db). r \<noteq> rid} \<union> {(rid, p) | p. p \<in> set (nonblank ps) \<and> p \<noteq> PermAdmin \<and> p \<in> set (db_permissions db)}"
  by (auto simp: replaceRolePerms_def)

lemma custom_role:
  "tables_ok db \<Longrightarrow> map_of (db_roles db) rid = Some row \<Longrightarrow> \<not> rl_IsSystem row \<Longrightarrow> (rid, PermAdmin) \<notin> set (db_role_perms db)"
  by (auto simp: tables_ok_def)

lemma create_role_ok: "acc_ok db \<Longrightarrow> acc_ok (fst (CreateRole rid nm desc perms db))"
proof (cases "trimSpace nm = [] \<or> has_key rid (db_roles db) \<or>
    list_ex (\<lambda>(r, row). toLower (rl_Name row) = toLower (trimSpace nm)) (db_roles db)")
  case False
  assume ok: "acc_ok db"
  note t = acc_okD(1) [OF ok, unfolded tables_ok_def]
  let ?db = "db\<lparr>db_roles := db_roles db @ [(rid, \<lparr>rl_Name = trimSpace nm, rl_Description = trimSpace desc, rl_IsSystem = False\<rparr>)]\<rparr>"
  have new: "rid \<notin> set (keys (db_roles db))" using False by (simp add: has_key_iff)
  have "(rid, PermAdmin) \<notin> set (db_role_perms db)" using t new by (fastforce dest: map_of_in_keys)
  with ok t new have "acc_ok (replaceRolePerms rid perms False ?db)"
    by (intro roles_only_ok [OF ok])
       (auto simp: replace_perms replaceRolePerms_def keys_def has_key_iff map_add_def split: option.split)
  then show ?thesis using False by (simp add: CreateRole_def)
qed (auto simp: CreateRole_def Let_def)

lemma describe_role_ok:
  assumes ok: "acc_ok db" and row: "map_of (db_roles db) rid = Some row"
  shows "acc_ok (db\<lparr>db_roles := set_key rid (row\<lparr>rl_Description := d\<rparr>) (db_roles db)\<rparr>)"
  using acc_okD(1) [OF ok] row
  by (intro roles_only_ok [OF ok]) (auto simp: tables_ok_def has_key_iff)

lemma update_role_ok:
  assumes ok: "acc_ok db"
  shows "acc_ok (fst (UpdateRole rid desc perms db))"
proof (cases "map_of (db_roles db) rid")
  case (Some row)
  let ?db = "db\<lparr>db_roles := set_key rid (row\<lparr>rl_Description := trimSpace desc\<rparr>) (db_roles db)\<rparr>"
  have ok1: "acc_ok ?db" by (rule describe_role_ok [OF ok Some])
  have "acc_ok (replaceRolePerms rid ps False ?db)" if "\<not> rl_IsSystem row" for ps
    using that custom_role [OF acc_okD(1) [OF ok1], of rid] acc_okD(1) [OF ok1]
    by (intro roles_only_ok [OF ok1]) (auto simp: replace_perms tables_ok_def replaceRolePerms_def)
  then show ?thesis using Some ok1 by (auto simp: UpdateRole_def Let_def split: option.split)
qed (simp add: UpdateRole_def ok)

lemma delete_role_ok:
  assumes ok: "acc_ok db"
  shows "acc_ok (fst (DeleteRole rid db))"
proof (cases "\<exists>row. map_of (db_roles db) rid = Some row \<and> \<not> rl_IsSystem row")
  case True
  then obtain row where row: "map_of (db_roles db) rid = Some row" "\<not> rl_IsSystem row" by blast
  note t = acc_okD(1) [OF ok, unfolded tables_ok_def]
  have no: "(rid, PermAdmin) \<notin> set (db_role_perms db)" by (rule custom_role [OF acc_okD(1) [OF ok] row])
  have "acc_ok (db\<lparr>db_roles := del_key rid (db_roles db),
                   db_role_perms := filter (\<lambda>(r, p). r \<noteq> rid) (db_role_perms db),
                   db_user_roles := filter (\<lambda>(u, r). r \<noteq> rid) (db_user_roles db),
                   db_role_grants := filter (\<lambda>((r, l), d). r \<noteq> rid) (db_role_grants db)\<rparr>)"
    using t no row by (intro roles_only_ok [OF ok]) (auto simp: has_key_def)
  then show ?thesis using row by (simp add: DeleteRole_def)
qed (use ok in \<open>auto simp: DeleteRole_def split: option.split\<close>)

section \<open>Operations on accounts\<close>

lemma create_user_ok:
  assumes ok: "acc_ok db"
  shows "acc_ok (fst (CreateUser uid username n display admin db))"
proof (cases "trimSpace username = [] \<or> n < 8 \<or> has_key uid (db_users db) \<or>
    list_ex (\<lambda>(u, row). toLower (ac_Username row) = toLower (trimSpace username)) (db_users db)")
  case False
  let ?a = "new_account (trimSpace username) display admin"
  let ?db = "db\<lparr>db_users := db_users db @ [(uid, ?a)]\<rparr>"
  let ?r = "if admin then RoleAdministrator else RoleUser"
  note t = acc_okD(1) [OF ok, unfolded tables_ok_def]
  have new: "uid \<notin> set (keys (db_users db))" using False by (simp add: has_key_iff)
  have perm: "admin_perm (?db\<lparr>db_user_roles := ur\<rparr>) v = admin_perm (db\<lparr>db_user_roles := ur\<rparr>) v" for ur v
    by (simp add: admin_perm_def)
  have none: "\<not> admin_perm db uid" using t new by (auto simp: admin_perm_def has_key_iff)
  have tdb: "tables_ok ?db" using t new by (auto simp: tables_ok_def keys_def has_key_iff)
  have odb: "original_ok ?db" using acc_okD(4) [OF ok] by (auto simp: original_ok_def)
  have fdb: "ac_IsAdmin w = admin_perm ?db v" if "(v, w) \<in> set (db_users ?db)" "v \<noteq> uid" for v w
    using that acc_okD(2) [OF ok] by (auto simp: flags_ok_def admin_perm_def)
  have sdb: "some_admin (?db\<lparr>db_user_roles := ur\<rparr>)" if "set (db_user_roles db) \<subseteq> set ur" for ur
    using that acc_okD(3) [OF ok] by (fastforce simp: some_admin_def admin_perm_def)
  have "acc_ok (fst (AssignRole uid ?r ?db))"
  proof (cases "has_key ?r (db_roles db)")
    case True
    let ?ur = "List.insert (uid, ?r) (db_user_roles db)"
    have "acc_ok (syncIsAdmin uid (?db\<lparr>db_user_roles := ?ur\<rparr>))"
      using True new acc_okD(4) [OF ok] t
      by (intro roles_change_ok [OF tdb fdb odb refl] sdb) (auto simp: has_key_iff keys_def original_ok_def dest: map_of_in_keys)
    then show ?thesis using True by (simp add: AssignRole_def has_key_def)
  next
    case no: False
    then have "\<not> admin" using t by auto
    moreover have absent: "(uid, w) \<notin> set (db_users db)" for w using new by (force simp: keys_def)
    moreover have "ac_IsAdmin w = admin_perm ?db v" if "(v, w) \<in> set (db_users ?db)" for v w
      using that fdb none new calculation
      by (cases "v = uid") (auto simp: new_account_def admin_perm_def)
    ultimately have "acc_ok ?db" using tdb odb sdb [of "db_user_roles db"] by (auto simp: acc_ok_def flags_ok_def)
    then show ?thesis using no by (simp add: AssignRole_def)
  qed
  then show ?thesis using False by (simp add: CreateUser_def Let_def)
qed (auto simp: CreateUser_def Let_def ok)

lemma guard_leaves_admin:
  assumes ok: "acc_ok db" and g: "guardLastAdmin db uid True None = None"
  shows "\<exists>(v, w) \<in> set (db_users db). v \<noteq> uid \<and> \<not> ac_Disabled w \<and> admin_perm db v"
proof (cases "admin_perm db uid")
  case True
  then have "\<not> AdministratorCount db \<le> 1" using g user_is_admin_iff [OF ok] by (auto simp: guardLastAdmin_def split: if_splits)
  then show ?thesis by (rule another_admin [OF ok])
next
  case False
  then show ?thesis using acc_okD(3) [OF ok] by (auto simp: some_admin_def)
qed

lemma sessions_irrelevant [simp]: "acc_ok (db\<lparr>db_sessions := x\<rparr>) = acc_ok db"
  by (simp add: acc_ok_def tables_ok_def flags_ok_def some_admin_def original_ok_def admin_perm_def)

lemma sessions_deleted [simp]: "acc_ok (DeleteAllForUser uid db) = acc_ok db"
  by (simp add: DeleteAllForUser_def)

lemma set_flag_ok:
  assumes ok: "acc_ok db" and u: "map_of (db_users db) uid = Some u"
    and left: "disabled \<Longrightarrow> guardLastAdmin db uid True None = None" and sup: "disabled \<Longrightarrow> \<not> IsSuperadmin db uid"
  shows "acc_ok (db\<lparr>db_users := set_key uid (u\<lparr>ac_Disabled := disabled\<rparr>) (db_users db)\<rparr>)" (is "acc_ok ?db")
proof -
  note t = acc_okD(1) [OF ok, unfolded tables_ok_def]
  have mem: "(v, w) \<in> set (set_key uid (u\<lparr>ac_Disabled := disabled\<rparr>) (db_users db)) \<longleftrightarrow> (if v = uid then w = u\<lparr>ac_Disabled := disabled\<rparr> else (v, w) \<in> set (db_users db))" for v w
    using t by (auto simp: set_set_key)
  have perm: "admin_perm ?db v = admin_perm db v" for v by (simp add: admin_perm_def)
  have "tables_ok ?db" using t by (auto simp: tables_ok_def has_key_iff)
  moreover have "flags_ok ?db"
    using acc_okD(2) [OF ok] map_of_SomeD [OF u] by (auto simp: flags_ok_def perm mem split: if_splits)
  moreover have "some_admin ?db"
  proof -
    obtain v w where v: "(v, w) \<in> set (db_users db)" "\<not> ac_Disabled w" "admin_perm db v" "disabled \<Longrightarrow> v \<noteq> uid"
      using guard_leaves_admin [OF ok left] acc_okD(3) [OF ok] by (cases disabled) (auto simp: some_admin_def)
    show ?thesis
    proof (cases "v = uid")
      case True
      then show ?thesis using v by (intro some_adminI [of uid "u\<lparr>ac_Disabled := disabled\<rparr>"]) (auto simp: mem perm)
    next
      case False
      then show ?thesis using v by (intro some_adminI [of v w]) (auto simp: mem perm)
    qed
  qed
  moreover have "original_ok ?db"
    using acc_okD(4) [OF ok] sup by (auto simp: original_ok_def IsSuperadmin_def)
  ultimately show ?thesis by (simp add: acc_ok_def)
qed

lemma set_disabled_ok:
  assumes ok: "acc_ok db"
  shows "acc_ok (fst (SetDisabled actor uid disabled db))"
proof (cases "map_of (db_users db) uid")
  case None
  then show ?thesis using ok by (auto simp: SetDisabled_def Let_def split: option.split)
next
  case (Some u)
  have "acc_ok (db\<lparr>db_users := set_key uid (u\<lparr>ac_Disabled := disabled\<rparr>) (db_users db)\<rparr>)"
    if "disabled \<Longrightarrow> guardLastAdmin db uid True None = None" "disabled \<Longrightarrow> \<not> IsSuperadmin db uid"
    using set_flag_ok [OF ok Some that] .
  then show ?thesis using ok Some by (auto simp: SetDisabled_def Let_def split: option.split)
qed

lemma delete_user_ok:
  assumes ok: "acc_ok db"
  shows "acc_ok (fst (DeleteUser actor uid db))"
proof (cases "IsSuperadmin db uid \<or> guardLastAdmin db uid True None \<noteq> None")
  case True
  then show ?thesis using ok by (auto simp: DeleteUser_def split: option.split)
next
  case False
  let ?db = "(DeleteAllForUser uid db)\<lparr>db_users := del_key uid (db_users db),
      db_user_roles := filter (\<lambda>(u, r). u \<noteq> uid) (db_user_roles db),
      db_user_grants := filter (\<lambda>((u, l), d). u \<noteq> uid) (db_user_grants db)\<rparr>"
  note t = acc_okD(1) [OF ok, unfolded tables_ok_def]
  have perm: "admin_perm ?db v = admin_perm db v" if "v \<noteq> uid" for v using that by (auto simp: admin_perm_def DeleteAllForUser_def)
  have tables: "db_roles ?db = db_roles db" "db_role_perms ?db = db_role_perms db" "db_original ?db = db_original db"
    by (simp_all add: DeleteAllForUser_def)
  have "tables_ok ?db" using t unfolding tables_ok_def tables by (auto simp: has_key_def)
  moreover have "flags_ok ?db"
    using acc_okD(2) [OF ok] perm by (auto simp: flags_ok_def set_del_key)
  moreover have "some_admin ?db"
    using guard_leaves_admin [OF ok, of uid] False perm by (fastforce simp: some_admin_def set_del_key)
  moreover have "original_ok ?db"
    using acc_okD(4) [OF ok] False unfolding original_ok_def tables by (auto simp: IsSuperadmin_def)
  ultimately show ?thesis using ok by (auto simp: acc_ok_def DeleteUser_def split: option.split)
qed

lemma grants_irrelevant:
  "acc_ok db \<Longrightarrow> acc_ok (fst (Grant_Set u l d db))" "acc_ok db \<Longrightarrow> acc_ok (Grant_Delete u l db)"
  "acc_ok db \<Longrightarrow> acc_ok (fst (Grant_SetRole u l d db))" "acc_ok db \<Longrightarrow> acc_ok (Grant_DeleteRole u l db)"
  by (auto simp: Grant_Set_def Grant_Delete_def Grant_SetRole_def Grant_DeleteRole_def acc_ok_def tables_ok_def
        flags_ok_def some_admin_def original_ok_def admin_perm_def)

section \<open>Administration as a machine\<close>

datatype acc_event =
    AddUser string string nat string bool
  | SetRoles "principal option" string "string list"
  | AddMembers "principal option" string "string list"
  | RemoveMember "principal option" string string
  | NewRole string string string "string list"
  | EditRole string string "string list option"
  | DropRole string
  | DisableUser "principal option" string bool
  | DropUser "principal option" string
  | GrantUser string string bool
  | UngrantUser string string
  | GrantRole string string bool
  | UngrantRole string string

definition acc_step :: "auth_db \<Rightarrow> acc_event \<Rightarrow> auth_db" where
  "acc_step db ev =
     (case ev of
        AddUser uid nm n display admin \<Rightarrow> fst (CreateUser uid nm n display admin db)
      | SetRoles actor uid ids \<Rightarrow> fst (SetUserRolesAs actor uid ids db)
      | AddMembers actor rid uids \<Rightarrow> fst (AddRoleMembersAs actor rid uids db)
      | RemoveMember actor rid uid \<Rightarrow> fst (RemoveRoleMemberAs actor rid uid db)
      | NewRole rid nm desc perms \<Rightarrow> fst (CreateRole rid nm desc perms db)
      | EditRole rid desc perms \<Rightarrow> fst (UpdateRole rid desc perms db)
      | DropRole rid \<Rightarrow> fst (DeleteRole rid db)
      | DisableUser actor uid b \<Rightarrow> fst (SetDisabled actor uid b db)
      | DropUser actor uid \<Rightarrow> fst (DeleteUser actor uid db)
      | GrantUser uid lib d \<Rightarrow> fst (Grant_Set uid lib d db)
      | UngrantUser uid lib \<Rightarrow> Grant_Delete uid lib db
      | GrantRole rid lib d \<Rightarrow> fst (Grant_SetRole rid lib d db)
      | UngrantRole rid lib \<Rightarrow> Grant_DeleteRole rid lib db)"

lemma acc_step_ok: "acc_ok db \<Longrightarrow> acc_ok (acc_step db ev)"
  by (cases ev)
     (simp_all add: acc_step_def create_user_ok set_roles_as_ok add_members_ok remove_member_ok create_role_ok update_role_ok
        delete_role_ok set_disabled_ok delete_user_ok grants_irrelevant)

interpretation administration: invariant_machine acc_step acc_ok
  by unfold_locales (rule acc_step_ok)

end
