(* ===== verification/Identity_Safety.thy ===== *)
theory Identity_Safety
  imports Identity_Handlers Access_Safety
begin

text \<open>
  What the principal cache may answer. \<open>entry_ok\<close> ties an entry to the tables, \<open>coherent\<close> asks it of
  every entry of the current generation, and \<open>id_step\<close> is one request of a signed-in session, one
  sign-in or one sweep. Coherence survives every step: a change either leaves what the entries say
  alone or empties the cache.
\<close>

section \<open>Coherence\<close>

definition entry_ok :: "auth_db \<Rightarrow> string \<Rightarrow> caller \<Rightarrow> bool" where
  "entry_ok db tok c \<longleftrightarrow>
     (\<exists>row u. map_of (db_sessions db) tok = Some row \<and> map_of (db_users db) (se_UserID row) = Some u \<and> \<not> ac_Disabled u \<and>
        cl_p c = user_principal db (se_UserID row) u \<and> cl_SessionID c = se_ID row \<and> \<not> cl_APIKey c \<and> \<not> cl_PINLocked c)"

definition coherent :: "identity \<Rightarrow> bool" where
  "coherent s \<longleftrightarrow> (\<forall>(tok, c, t, g) \<in> set (id_cache s). g = id_gen s \<longrightarrow> entry_ok (id_db s) tok c)"

text \<open>What an entry depends on: the accounts, the roles, and the sessions but for when they were seen.\<close>

definition same_auth :: "auth_db \<Rightarrow> auth_db \<Rightarrow> bool" where
  "same_auth db db' \<longleftrightarrow>
     db_users db' = db_users db \<and> db_role_perms db' = db_role_perms db \<and> db_user_roles db' = db_user_roles db \<and>
     (\<forall>tok row. map_of (db_sessions db) tok = Some row \<longrightarrow>
        (\<exists>row'. map_of (db_sessions db') tok = Some row' \<and> se_ID row' = se_ID row \<and> se_UserID row' = se_UserID row))"

lemma same_auth_refl [simp, intro]: "same_auth db db"
  by (simp add: same_auth_def)

lemma same_auth_trans: "same_auth a b \<Longrightarrow> same_auth b c \<Longrightarrow> same_auth a c"
  unfolding same_auth_def by metis

lemma principal_same: "same_auth db db' \<Longrightarrow> user_principal db' uid u = user_principal db uid u"
  by (simp add: same_auth_def user_principal_def PermissionsFor_def RoleIDsFor_def rolePerms_def [abs_def])

lemma entry_same: "same_auth db db' \<Longrightarrow> entry_ok db tok c \<Longrightarrow> entry_ok db' tok c"
  unfolding entry_ok_def using principal_same [of db db'] by (fastforce simp: same_auth_def)

lemma coherent_same:
  "coherent s \<Longrightarrow> same_auth (id_db s) (id_db s') \<Longrightarrow> id_cache s' = id_cache s \<Longrightarrow> id_gen s' = id_gen s \<Longrightarrow> coherent s'"
  unfolding coherent_def using entry_same by fastforce

lemma coherent_invalidated [simp]: "coherent (InvalidatePrincipals s)"
  by (simp add: InvalidatePrincipals_def coherent_def)

lemma touch_map_of:
  "map_of (db_sessions (Session_Touch sid now db)) tok =
     map_option (\<lambda>row. if se_ID row = sid then row\<lparr>se_LastSeen := whole_seconds now\<rparr> else row) (map_of (db_sessions db) tok)"
  by (simp add: Session_Touch_def map_of_map)

lemma session_touch_same [simp]: "same_auth db (Session_Touch sid now db)"
  unfolding same_auth_def touch_map_of by (simp add: Session_Touch_def)

lemma create_same: "same_auth db (fst (Session_Create sid raw uid now db))"
  by (auto simp: same_auth_def Session_Create_def map_add_Some_iff)

lemma created_same: "Session_Create sid raw uid now db = (db', e) \<Longrightarrow> same_auth db db'"
  using create_same [of db sid raw uid now] by simp

lemma set_key_subset: "set (set_key k v m) \<subseteq> insert (k, v) (set m)"
  unfolding set_key_def by (induction m) auto

lemma put_coherent:
  assumes "coherent s" "entry_ok (id_db s) tok c"
  shows "coherent (cache_put tok c now s)"
proof -
  let ?es = "if length (id_cache s) \<ge> principalMax
     then (let kept = filter (\<lambda>(k, c, t, g). \<not> t < now - principalStaleTTL) (id_cache s) in if length kept \<ge> principalMax then [] else kept)
     else id_cache s"
  have "set ?es \<subseteq> set (id_cache s)" by (auto simp: Let_def)
  then have "set (id_cache (cache_put tok c now s)) \<subseteq> insert (tok, c, now, id_gen s) (set (id_cache s))"
    using set_key_subset [of tok "(c, now, id_gen s)" ?es] by (fastforce simp: cache_put_def Let_def)
  then show ?thesis using assms by (fastforce simp: coherent_def cache_put_def Let_def)
qed

lemma put_fields [simp]: "id_db (cache_put tok c now s) = id_db s" "id_gen (cache_put tok c now s) = id_gen s"
  "id_keys (cache_put tok c now s) = id_keys s" "id_shares (cache_put tok c now s) = id_shares s"
  "id_setupDone (cache_put tok c now s) = id_setupDone s" "id_setupFlag (cache_put tok c now s) = id_setupFlag s"
  by (simp_all add: cache_put_def Let_def)

lemma get_in: "cache_get tok maxAge now s = Some c \<Longrightarrow> \<exists>t g. (tok, c, t, g) \<in> set (id_cache s) \<and> (maxAge = principalTTL \<longrightarrow> g = id_gen s)"
  by (force simp: cache_get_def split: option.splits if_splits dest!: map_of_SomeD)

lemma get_coherent: "coherent s \<Longrightarrow> cache_get tok principalTTL now s = Some c \<Longrightarrow> entry_ok (id_db s) tok c"
  using get_in unfolding coherent_def by fastforce

lemma loaded_entry:
  assumes "load_caller tok now db = Some (row, u)" "same_auth db db'" "\<not> cl_PINLocked (session_caller now db row u)"
  shows "entry_ok db' tok (session_caller now db row u)"
proof (rule entry_same [OF assms(2)])
  show "entry_ok db tok (session_caller now db row u)"
    using assms by (auto simp: entry_ok_def load_caller_def Session_Lookup_def session_caller_def split: option.splits if_splits)
qed

lemma identify_same: "same_auth (id_db s) (id_db (fst (identify up r now s)))"
  by (auto simp: identify_def Let_def split: option.splits)

lemma identify_coherent:
  assumes "coherent s"
  shows "coherent (fst (identify up r now s))"
proof -
  let ?tok = "cookieOrBearer r SessionCookie"
  have "coherent (if \<not> cl_PINLocked (session_caller now (id_db s) row u) \<and> \<not> TemporaryExpired now u
      then cache_put ?tok (session_caller now (id_db s) row u) now s' else s')"
    if l: "load_caller ?tok now (id_db s) = Some (row, u)" and s': "s' = s \<or> s' = s\<lparr>id_db := Session_Touch (se_ID row) now (id_db s)\<rparr>"
    for row u s'
  proof -
    have same: "same_auth (id_db s) (id_db s')" using s' by auto
    have c: "coherent s'" using s' assms coherent_same [OF assms same] by auto
    show ?thesis using c put_coherent [OF c loaded_entry [OF l same]] by simp
  qed
  from this [OF _ disjI1 [OF refl]] this [OF _ disjI2 [OF refl]] show ?thesis
    using assms by (auto simp: identify_def Let_def split: option.splits)
qed

section \<open>Handlers\<close>

definition keeps :: "identity \<Rightarrow> identity \<Rightarrow> bool" where
  "keeps s s' \<longleftrightarrow> same_auth (id_db s) (id_db s') \<and> id_cache s' = id_cache s \<and> id_gen s' = id_gen s"

lemma keeps_refl [simp, intro]: "keeps s s" by (simp add: keeps_def)

lemma keeps_coherent: "coherent s \<Longrightarrow> keeps s s' \<Longrightarrow> coherent s'"
  unfolding keeps_def by (blast intro: coherent_same)

lemma keeps_on_db [simp]: "keeps s (fst (on_db s x)) \<longleftrightarrow> same_auth (id_db s) (fst x)"
  by (cases x) (simp add: on_db_def keeps_def)

lemma on_db_status [simp]: "snd (on_db s x) = snd x"
  by (cases x) (simp add: on_db_def)

lemma ceiling_status [simp]: "\<not> CeilingHTTPStatus e < 400" "400 \<le> CeilingHTTPStatus e"
  by (auto simp: CeilingHTTPStatus_def)

text \<open>The actions that write once: when they fail, nothing has been written. The others write field by
  field or account by account.\<close>

fun single_write :: "action \<Rightarrow> bool" where
  "single_write (ActPatchUser _ _) = False"
| "single_write (ActCreateUser _ _ _ _ _ _ _) = False"
| "single_write (ActAddMembers _ _) = False"
| "single_write (ActCreateGuest _ _ _ _ _ _ _ _ _ _) = False"
| "single_write _ = True"

lemma set_roles_error: "SetUserRoles uid ids db = (db', Some e) \<Longrightarrow> db' = db"
  by (auto simp: SetUserRoles_def Let_def split: option.splits if_splits)

lemma delete_user_error: "DeleteUser actor uid db = (db', Some e) \<Longrightarrow> db' = db"
  by (auto simp: DeleteUser_def split: option.splits if_splits)

lemma remove_member_error: "RemoveRoleMemberAs actor rid uid db = (db', Some e) \<Longrightarrow> db' = db"
  using set_roles_error by (auto simp: RemoveRoleMemberAs_def RemoveRoleMember_def split: option.splits if_splits)

lemma create_role_error: "CreateRole rid nm desc perms db = (db', Some e) \<Longrightarrow> db' = db"
  by (auto simp: CreateRole_def Let_def split: if_splits)

lemma delete_role_error: "DeleteRole rid db = (db', Some e) \<Longrightarrow> db' = db"
  by (auto simp: DeleteRole_def split: option.splits if_splits)

lemma update_role_error: "UpdateRole rid desc perms db = (db', Some e) \<Longrightarrow> same_auth db db'"
  by (auto simp: UpdateRole_def Let_def same_auth_def split: option.splits if_splits)

lemma with_status_fails:
  assumes "snd (with_status okst f x) \<ge> 400" "okst < 400" and "\<And>db' e. x = (db', Some e) \<Longrightarrow> same_auth db db'"
  shows "same_auth db (fst (with_status okst f x))"
proof (cases x)
  case (Pair db' e)
  then show ?thesis using assms by (cases e) (auto simp: with_status_def)
qed

lemmas write_errors = delete_user_error remove_member_error create_role_error delete_role_error set_roles_error

lemma patch_role_fails:
  assumes "snd (patch_role rid desc perms p db) \<ge> 400"
  shows "same_auth db (fst (patch_role rid desc perms p db))"
  using assms by (auto simp: patch_role_def split: option.splits intro!: with_status_fails intro: update_role_error)

lemma create_role_fails:
  assumes "snd (create_role rid nm desc perms p db) \<ge> 400"
  shows "same_auth db (fst (create_role rid nm desc perms p db))"
  using assms by (auto simp: create_role_def split: option.splits intro!: with_status_fails dest: create_role_error)

lemma guarded_fails: "snd (guarded g s x) \<ge> 400 \<Longrightarrow> (snd x \<ge> 400 \<Longrightarrow> keeps s (fst x)) \<Longrightarrow> keeps s (fst (guarded g s x))"
  by (auto simp: guarded_def split: option.splits)

lemma own_account_fails:
  "snd (handlePassword uid v n db) \<ge> 400 \<Longrightarrow> same_auth db (fst (handlePassword uid v n db))"
  "snd (handleSetPIN uid pin hash db) \<ge> 400 \<Longrightarrow> same_auth db (fst (handleSetPIN uid pin hash db))"
  "snd (handleUnlockPIN uid v r now db) \<ge> 400 \<Longrightarrow> same_auth db (fst (handleUnlockPIN uid v r now db))"
  "snd (handleDeleteSession cl sid db) \<ge> 400 \<Longrightarrow> same_auth db (fst (handleDeleteSession cl sid db))"
  "snd (revoke_guest cl owns uid db) \<ge> 400 \<Longrightarrow> same_auth db (fst (revoke_guest cl owns uid db))"
  by (auto simp: handlePassword_def handleSetPIN_def ChangePassword_def SetPIN_def handleUnlockPIN_def handleDeleteSession_def
        revoke_guest_def Let_def split: option.splits if_splits prod.splits)

lemma patch_me_fails:
  assumes "snd (handlePatchMe uid display db) \<ge> 400"
  shows "same_auth db (fst (handlePatchMe uid display db))"
  using assms
  by (auto simp: handlePatchMe_def UpdateDisplayName_def update_account_def has_key_iff map_of_in_keys split: option.splits if_splits)

lemma admin_fails:
  "snd (remove_user p uid db) \<ge> 400 \<Longrightarrow> same_auth db (fst (remove_user p uid db))"
  "snd (handleRemoveMember p rid uid db) \<ge> 400 \<Longrightarrow> same_auth db (fst (handleRemoveMember p rid uid db))"
  "snd (handleDeleteRole rid db) \<ge> 400 \<Longrightarrow> same_auth db (fst (handleDeleteRole rid db))"
  unfolding remove_user_def handleRemoveMember_def handleDeleteRole_def by (auto intro!: with_status_fails dest: write_errors)

lemma login_same: "same_auth db (fst (handleLogin nm v la sid raw now db))"
  by (auto simp: handleLogin_def Login_def Let_def created_same split: option.split prod.split)

lemmas action_fails = own_account_fails patch_me_fails admin_fails patch_role_fails create_role_fails login_same

lemma failing_keeps:
  assumes "single_write act" "snd (handle_action act r c now s) \<ge> 400"
  shows "keeps s (fst (handle_action act r c now s))"
proof (cases act)
  case (ActCreateKey kid secret nm scopes)
  show ?thesis by (auto simp: ActCreateKey guarded_def create_key_def keeps_def split: option.splits)
next
  case (ActRevokeKey kid)
  show ?thesis by (auto simp: ActRevokeKey guarded_def revoke_key_def keeps_def split: option.splits)
next
  case ActLogoutAll
  show ?thesis using assms(2) by (auto simp: ActLogoutAll guarded_def handleLogoutAll_def split: option.splits)
next
  case ActClearPIN
  show ?thesis using assms(2) by (auto simp: ActClearPIN guarded_def handleClearPIN_def split: option.splits)
next
  case ActLogout
  show ?thesis using assms(2) by (auto simp: ActLogout handleLogout_def split: option.splits)
qed (use assms in \<open>auto intro!: guarded_fails simp: action_fails handleMe_def\<close>)

lemma reading_keeps: "action_method act = ''GET'' \<Longrightarrow> keeps s (fst (handle_action act r c now s))"
  by (cases act) (auto simp: guarded_def handleMe_def split: option.splits)

lemma login_keeps: "keeps s (fst (handle_action (ActLogin nm v la sid raw) r c now s))"
  by (simp add: login_same)

lemma gate_keeps: "keeps s (fst (SetupGate up path c s))"
  by (auto simp: SetupGate_def setupState_def keeps_def split: option.splits prod.splits if_splits)

lemma serve_inner_keeps:
  assumes "\<And>s. keeps s (fst (handle_action act r c now s)) \<or> snd (handle_action act r c now s) < 400"
  shows "keeps s (fst (serve_inner act r c now s)) \<or> snd (serve_inner act r c now s) < 400"
proof (cases "SetupGate True (rq_Path r) c s")
  case (Pair s1 st)
  have k: "keeps s s1" using gate_keeps [of s True "rq_Path r" c] Pair by simp
  then have "keeps s s2" if "keeps s1 s2" for s2
    using that same_auth_trans by (fastforce simp: keeps_def)
  then show ?thesis using k Pair assms [of s1]
    by (cases st) (auto simp: serve_inner_def split: option.splits)
qed

section \<open>Steps\<close>

inductive id_step :: "identity \<Rightarrow> identity \<Rightarrow> bool" where
  request: "snd (identify True r now s) = Serve c True \<Longrightarrow> rq_Method r = action_method act \<Longrightarrow> rq_Path r = action_path act \<Longrightarrow>
    respond act r now s = (s', st) \<Longrightarrow> st < 400 \<or> single_write act \<Longrightarrow> id_step s s'"
| look: "action_method act = ''GET'' \<Longrightarrow> respond act r now s = (s', st) \<Longrightarrow> id_step s s'"
| sign_in: "respond (ActLogin nm verified localAllowed sid raw) r now s = (s', st) \<Longrightarrow> id_step s s'"
| sweep: "SweepExpiredGuests now s = (s', n) \<Longrightarrow> id_step s s'"

inductive_cases id_stepE [elim!]: "id_step s s'"

lemma unsafe_actions: "\<not> SafeMethod (action_method act) \<longleftrightarrow> action_method act \<noteq> ''GET''"
  by (cases act) (simp_all add: SafeMethod_def)

lemma paths_mutate: "list_ex (hasPrefix (action_path act)) [''/api/v1/auth'', ''/api/v1/me'', ''/api/v1/users'', ''/api/v1/admin'',
  ''/api/v1/invites'', ''/api/v1/household'', ''/api/v1/setup'', ''/api/v1/guests'']"
  by (cases act) (simp_all add: hasPrefix_def)

lemma respond_coherent:
  assumes c: "coherent s" and run: "respond act r now s = (s', st)"
    and h: "\<And>s c. keeps s (fst (handle_action act r c now s)) \<or> snd (handle_action act r c now s) < 400 \<and> mutatesIdentity r \<and> always"
    and via: "always \<Longrightarrow> \<exists>c. snd (identify True r now s) = Serve c True"
  shows "coherent s'"
proof -
  obtain s1 v where i: "identify True r now s = (s1, v)" by fastforce
  have c1: "coherent s1" using identify_coherent [OF c, of True r now] i by simp
  show ?thesis
  proof (cases v)
    case (Fail n)
    then show ?thesis using run i c1 by (simp add: respond_def)
  next
    case (Serve cl cached)
    obtain s2 st2 where s2: "serve_inner act r cl now s1 = (s2, st2)" by fastforce
    have fin: "s' = (if cached \<and> mutatesIdentity r \<and> st2 < 400 then InvalidatePrincipals s2 else s2)"
      using run i Serve s2 by (auto simp: respond_def)
    show ?thesis
    proof (cases "keeps s1 s2")
      case True
      then show ?thesis using fin keeps_coherent [OF c1 True] by simp
    next
      case False
      then have "st2 < 400" using serve_inner_keeps [of act r cl now s1] h s2 by auto
      moreover have "mutatesIdentity r \<and> always"
      proof (rule ccontr)
        assume "\<not> ?thesis"
        then have "keeps s1 (fst (serve_inner act r cl now s1))"
          using h gate_keeps [of s1 True "rq_Path r" cl] same_auth_trans
          by (fastforce simp: serve_inner_def keeps_def split: prod.splits option.splits)
        then show False using False s2 by simp
      qed
      ultimately show ?thesis using fin via i Serve by auto
    qed
  qed
qed

lemma swept_coherent: "coherent s \<Longrightarrow> coherent (fst (SweepExpiredGuests now s))"
  by (auto simp: SweepExpiredGuests_def Let_def)

lemma id_step_coherent: "id_step s s' \<Longrightarrow> coherent s \<Longrightarrow> coherent s'"
proof (induction rule: id_step.induct)
  case (request r now s c act s' st)
  have via: "\<exists>c. snd (identify True r now s) = Serve c True" using request by blast
  show ?case
  proof (cases "action_method act = ''GET''")
    case True
    then show ?thesis using respond_coherent [OF request.prems request.hyps(4), of False] reading_keeps by blast
  next
    case False
    then have m: "mutatesIdentity r"
      using request unsafe_actions [of act] paths_mutate [of act] by (simp add: mutatesIdentity_def)
    show ?thesis
    proof (cases "single_write act")
      case True
      have "keeps s (fst (handle_action act r c now s)) \<or> snd (handle_action act r c now s) < 400 \<and> mutatesIdentity r \<and> True" for s c
        using failing_keeps [OF True] m by (meson not_le)
      then show ?thesis using respond_coherent [OF request.prems request.hyps(4), of True] via by blast
    next
      case False
      then have "st < 400" using request by simp
      then show ?thesis using request m by (auto simp: respond_def split: prod.splits verdict.splits if_splits)
    qed
  qed
next
  case (look act r now s s' st)
  then show ?case using respond_coherent [OF look.prems look.hyps(2), of False] reading_keeps by blast
next
  case (sign_in nm verified localAllowed sid raw r now s s' st)
  then show ?case using respond_coherent [OF sign_in.prems sign_in.hyps, of False] login_keeps by blast
next
  case (sweep now s s' n)
  then show ?case using swept_coherent [of s now] by simp
qed

interpretation sign_ins: invariant_relation id_step coherent
  by unfold_locales (rule id_step_coherent)

end
