(* ===== verification/Access_Properties.thy ===== *)
theory Access_Properties
  imports Access_Safety
begin

text \<open>
  The properties of accounts, roles and grants: administrators are never lost, nobody grants more
  than they have, and the two answers about a library agree.
\<close>

section \<open>Setting up\<close>

text \<open>A server as the migrations leave it: the built-in roles, and no account.\<close>

definition installed :: "auth_db \<Rightarrow> bool" where
  "installed db \<longleftrightarrow> tables_ok db \<and> db_users db = [] \<and> db_user_roles db = []"

lemma create_admin_ok:
  assumes inst: "installed db" and uid: "trimSpace uid = uid" "uid \<noteq> []"
    and run: "CreateAdmin uid nm n display db = (db1, None)"
  shows "acc_ok db1 \<and> db_original db1 = uid"
proof -
  let ?a = "new_account (trimSpace nm) display True"
  let ?db = "db\<lparr>db_users := [(uid, ?a)]\<rparr>"
  note t = inst [unfolded installed_def tables_ok_def]
  let ?b = "fst (AssignRole uid RoleAdministrator ?db)"
  let ?c = "fst (AssignRole uid RoleSuperadmin ?b)"
  have names: "RoleAdministrator \<noteq> RoleSuperadmin" by (simp add: RoleAdministrator_def RoleSuperadmin_def)
  have b: "?b = ?db\<lparr>db_user_roles := [(uid, RoleAdministrator)]\<rparr>"
    using t by (auto simp: AssignRole_def has_key_def syncIsAdmin_def perm_admin_iff admin_perm_def set_key_def new_account_def)
  have c: "?c = ?db\<lparr>db_user_roles := [(uid, RoleSuperadmin), (uid, RoleAdministrator)]\<rparr>"
    unfolding b using t names
    by (auto simp: AssignRole_def has_key_def syncIsAdmin_def perm_admin_iff admin_perm_def set_key_def new_account_def
          conj_disj_distribR ex_disj_distrib)
  have db1: "db1 = ?c\<lparr>db_original := uid\<rparr>"
    using run uid by (auto simp: CreateAdmin_def Let_def split: if_splits)
  have "acc_ok db1"
    unfolding db1 c using t
    by (auto simp: acc_ok_def tables_ok_def flags_ok_def some_admin_def original_ok_def admin_perm_def keys_def has_key_def
          new_account_def)
  then show ?thesis by (simp add: db1)
qed

lemma replaceRolePerms_original [simp]: "db_original (replaceRolePerms rid ps b db) = db_original db"
  by (simp add: replaceRolePerms_def)

lemma assign_original [simp]: "db_original (fst (AssignRole u r db)) = db_original db"
  by (simp add: AssignRole_def)

lemma add_members_original [simp]: "db_original (fst (AddRoleMembersAs actor rid uids db)) = db_original db"
proof (induction actor rid uids db rule: AddRoleMembersAs.induct)
  case (2 actor rid uid uids db)
  then show ?case using assign_original [of "trimSpace uid" rid db]
    by (cases "AssignRole (trimSpace uid) rid db") (auto split: option.split)
qed simp

lemma set_roles_original [simp]: "db_original (fst (SetUserRoles uid ids db)) = db_original db"
  by (auto simp: SetUserRoles_def Let_def split: option.split)

lemma acc_step_original: "db_original (acc_step db ev) = db_original db"
  by (cases ev)
     (auto simp: acc_step_def CreateUser_def CreateRole_def UpdateRole_def DeleteRole_def SetDisabled_def DeleteUser_def
        DeleteAllForUser_def SetUserRolesAs_def RemoveRoleMemberAs_def RemoveRoleMember_def Let_def Grant_Set_def
        Grant_SetRole_def Grant_Delete_def Grant_DeleteRole_def split: option.split)

lemma acc_run_original: "db_original (foldl acc_step db evs) = db_original db"
  by (induction evs arbitrary: db) (simp_all add: acc_step_original)

text \<open>C22. Whatever administration follows the setup of a server: at least one enabled administrator is left,
  the account that the setup created exists, is enabled, is an administrator and a Superadmin, and
  whether an account is marked as administrator always agrees with its roles.\<close>

theorem administrators_kept:
  assumes inst: "installed db0" and uid: "trimSpace uid = uid" "uid \<noteq> []"
    and created: "CreateAdmin uid nm n display db0 = (db1, None)"
    and run: "db = foldl acc_step db1 evs"
  shows "1 \<le> AdministratorCount db \<and> IsSuperadmin db uid \<and>
    (\<exists>u. map_of (db_users db) uid = Some u \<and> \<not> ac_Disabled u \<and> ac_IsAdmin u) \<and>
    (map_of (db_users db) v = Some w \<longrightarrow> ac_IsAdmin w = (PermAdmin \<in> set (PermissionsFor db v)))"
proof -
  from create_admin_ok [OF inst uid created] have ok1: "acc_ok db1" and orig: "db_original db1 = uid" by simp_all
  have ok: "acc_ok db" unfolding run by (rule administration.run_keeps [OF ok1])
  have o: "db_original db = uid" by (simp add: run acc_run_original orig)
  obtain u where u: "map_of (db_users db) uid = Some u" "\<not> ac_Disabled u" "(uid, RoleSuperadmin) \<in> set (db_user_roles db)"
    using acc_okD(4) [OF ok] uid o by (auto simp: original_ok_def)
  then have "admin_perm db uid" using acc_okD(1) [OF ok] by (auto simp: admin_perm_def tables_ok_def)
  moreover have flag: "ac_IsAdmin w = admin_perm db v" if "map_of (db_users db) v = Some w" for v w
    using acc_okD(2) [OF ok] map_of_SomeD [OF that] by (auto simp: flags_ok_def)
  ultimately show ?thesis
    using u uid o some_admin_count [OF acc_okD(2) [OF ok]] acc_okD(3) [OF ok] flag [OF u(1)] flag
    by (simp add: IsSuperadmin_def perm_admin_iff)
qed

section \<open>The ceiling\<close>

lemma grant_allowed:
  "AssertCanGrantPermissions actor ps = None \<Longrightarrow> p \<in> set ps \<Longrightarrow> trimSpace p \<noteq> [] \<Longrightarrow> HasPerm actor (trimSpace p)"
  by (induction actor ps rule: AssertCanGrantPermissions.induct) (auto split: if_splits)

lemma assign_allowed:
  "can_assign_each db a ids = None \<Longrightarrow> r \<in> set (nonblank ids) \<Longrightarrow> AssertCanGrantPermissions (Some a) (rolePerms db r) = None"
  by (induction ids) (auto simp: nonblank_def split: if_splits option.splits)

lemma permissions_of_roles:
  assumes "SetUserRoles uid ids db = (db', None)" "uid \<noteq> db_original db"
  shows "set (PermissionsFor db' uid) = (\<Union>r \<in> set (nonblank ids). set (rolePerms db r))"
proof -
  have db': "db_user_roles db' = filter (\<lambda>(u, r). u \<noteq> uid) (db_user_roles db) @ map (Pair uid) (remdups (nonblank ids))"
    "db_role_perms db' = db_role_perms db"
    using assms by (auto simp: SetUserRoles_def keep_superadmin_def Let_def split: option.splits if_splits)
  have "set (RoleIDsFor db' uid) = set (nonblank ids)" by (auto simp: RoleIDsFor_def db' image_iff)
  then show ?thesis by (simp add: PermissionsFor_def rolePerms_def db')
qed


section \<open>Libraries\<close>

lemma pair_key: "has_key (a, l) m \<longleftrightarrow> (\<exists>d. ((a, l), d) \<in> set m)"
  by (force simp: has_key_iff keys_def)

text \<open>The list of libraries a user sees and the test that guards each access agree: a library is listed
  exactly if the user may read it, by a grant of their own, by a grant of one of their roles, as an
  enabled external source, or as an administrator; who may download from it may also read it.\<close>

theorem grants_agree:
  assumes "lib \<in> set (db_libraries db)"
  shows "CanRead db uid lib = (lib \<in> set (GrantedLibraryIDs db uid)) \<and>
    (CanDownload db uid lib \<longrightarrow> CanRead db uid lib)"
  using assms
  by (auto simp: CanRead_def CanDownload_def GrantedLibraryIDs_def list_ex_iff pair_key image_iff Bex_def)

section \<open>A concrete server\<close>

definition acc_demo_installed :: auth_db where
  "acc_demo_installed = \<lparr>db_users = [],
     db_roles = [(RoleAdministrator, \<lparr>rl_Name = ''Administrator'', rl_Description = [], rl_IsSystem = True\<rparr>),
                 (RoleSuperadmin, \<lparr>rl_Name = ''Superadmin'', rl_Description = [], rl_IsSystem = True\<rparr>),
                 (RoleUser, \<lparr>rl_Name = ''User'', rl_Description = [], rl_IsSystem = True\<rparr>)],
     db_permissions = [PermAdmin, ''users.manage'', ''media.upload''],
     db_role_perms = [(RoleAdministrator, PermAdmin), (RoleSuperadmin, PermAdmin), (RoleUser, ''media.upload'')],
     db_user_roles = [], db_sessions = [], db_original = [], db_user_grants = [((''bob'', ''films''), True)],
     db_role_grants = [((RoleUser, ''series''), False)], db_libraries = [''films'', ''series''], db_source_libraries = []\<rparr>"

definition acc_demo_actor :: principal where
  "acc_demo_actor = \<lparr>p_Kind = KindUser, p_UserID = ''cy'', p_GuestSessionID = [], p_MediaKind = [], p_MediaID = [],
     p_IsAdmin = False, p_DisplayName = ''Cy'', p_Username = ''cy'', p_CanDownload = False,
     p_Permissions = [''users.manage'', ''media.upload''], p_PartyOnly = False\<rparr>"

definition acc_demo_setup :: auth_db where
  "acc_demo_setup = fst (CreateAdmin ''ann'' ''ann'' 8 [] acc_demo_installed)"

definition acc_demo :: auth_db where
  "acc_demo = foldl acc_step acc_demo_setup [AddUser ''bob'' ''bob'' 9 [] True, AddUser ''dan'' ''dan'' 9 [] False,
     SetRoles (Some acc_demo_actor) ''ann'' [], DisableUser None ''ann'' True, DropUser None ''bob'']"

theorem administrators_kept_witness: "1 \<le> AdministratorCount acc_demo \<and> IsSuperadmin acc_demo ''ann''"
proof -
  have inst: "installed acc_demo_installed"
    by (simp add: installed_def tables_ok_def acc_demo_installed_def keys_def has_key_def RoleAdministrator_def RoleSuperadmin_def
          RoleUser_def PermAdmin_def)
  have name: "trimSpace ''ann'' = ''ann''" by code_simp
  have "snd (CreateAdmin ''ann'' ''ann'' 8 [] acc_demo_installed) = None"
    by (simp add: CreateAdmin_def acc_demo_installed_def name Let_def)
  then have "CreateAdmin ''ann'' ''ann'' 8 [] acc_demo_installed = (acc_demo_setup, None)"
    by (simp add: acc_demo_setup_def prod_eq_iff)
  from administrators_kept [OF inst name _ this acc_demo_def] show ?thesis by simp
qed

definition acc_demo_users :: auth_db where
  "acc_demo_users = foldl acc_step acc_demo_setup [AddUser ''dan'' ''dan'' 9 [] False]"


theorem grants_agree_witness:
  "\<not> CanRead acc_demo_users ''dan'' ''films'' \<and> CanRead acc_demo_users ''dan'' ''series''"
proof -
  have "''films'' \<in> set (db_libraries acc_demo_users)" "''series'' \<in> set (db_libraries acc_demo_users)"
    "''films'' \<notin> set (GrantedLibraryIDs acc_demo_users ''dan'')" "''series'' \<in> set (GrantedLibraryIDs acc_demo_users ''dan'')"
    by code_simp+
  with grants_agree [of "''films''" acc_demo_users "''dan''"] grants_agree [of "''series''" acc_demo_users "''dan''"]
  show ?thesis by simp
qed

end
