(* ===== verification/Identity_Properties.thy ===== *)
theory Identity_Properties
  imports Identity_Safety Access_Properties
begin

text \<open>
  The properties of identification: what the cache answers agrees with the database, where that
  fails, what the PIN protects, what a forged request can do, and what ends an API key.
\<close>

section \<open>The cache\<close>


text \<open>A request that is answered otherwise than by a gate went through its handler.\<close>

lemma identify_up: "\<exists>c b. snd (identify True r t s) = Serve c b"
  by (auto simp: identify_def guest_verdict_def Let_def split: option.splits)

definition gated :: "identity \<Rightarrow> identity \<Rightarrow> bool" where
  "gated s s' \<longleftrightarrow> s' = s \<or> s' = s\<lparr>id_setupDone := True\<rparr>"

lemma gate_gated: "gated s (fst (SetupGate up path c s))"
  by (auto simp: SetupGate_def setupState_def gated_def split: option.splits prod.splits if_splits)

lemma gate_status: "snd (SetupGate up path c s) = Some st \<Longrightarrow> st = 503"
  by (auto simp: SetupGate_def split: prod.splits option.splits if_splits)

lemma CSRF_status: "CSRF r c = Some st \<Longrightarrow> st = 403"
  by (auto simp: CSRF_def split: if_splits)

lemma gatedD: "gated s s' \<Longrightarrow> id_db s' = id_db s \<and> id_cache s' = id_cache s \<and> id_gen s' = id_gen s \<and> id_keys s' = id_keys s"
  by (auto simp: gated_def)

lemma respond_handled:
  assumes "respond act r t s = (s', st)" "st \<noteq> 403" "st \<noteq> 503"
  shows "\<exists>c cached s1 s2 s3. identify True r t s = (s1, Serve c cached) \<and> gated s1 s2 \<and> CSRF r c = None \<and>
    handle_action act r c t s2 = (s3, st) \<and>
    s' = (if cached \<and> mutatesIdentity r \<and> st < 400 then InvalidatePrincipals s3 else s3)"
proof -
  obtain s1 v where i: "identify True r t s = (s1, v)" by fastforce
  then obtain c cached where v: "v = Serve c cached" using identify_up [of r t s] by auto
  obtain s2 g where g: "SetupGate True (rq_Path r) c s1 = (s2, g)" by fastforce
  obtain s3 st3 where x: "serve_inner act r c t s1 = (s3, st3)" by fastforce
  have fin: "st3 = st" "s' = (if cached \<and> mutatesIdentity r \<and> st < 400 then InvalidatePrincipals s3 else s3)"
    using assms(1) i v x by (auto simp: respond_def)
  have "g = None" using g x fin assms gate_status [of True "rq_Path r" c s1] by (cases g) (auto simp: serve_inner_def)
  moreover from this have "CSRF r c = None" using g x fin assms CSRF_status [of r c] by (cases "CSRF r c") (auto simp: serve_inner_def)
  ultimately show ?thesis using i v g x fin gate_gated [of s1 True "rq_Path r" c] by (auto simp: serve_inner_def)
qed

lemma deleted_user_gone:
  assumes "respond (ActRemoveUser uid) r t s = (s', 200)"
  shows "map_of (db_users (id_db s')) uid = None"
proof -
  have gone: "map_of (db_users (fst (DeleteUser a uid db))) uid = None" if "snd (DeleteUser a uid db) = None" for a db
    using that by (auto simp: DeleteUser_def DeleteAllForUser_def split: option.splits if_splits)
  obtain c cached s2 s3 where h: "handle_action (ActRemoveUser uid) r c t s2 = (s3, 200)"
    and s': "s' = (if cached \<and> mutatesIdentity r \<and> (200::int) < 400 then InvalidatePrincipals s3 else s3)"
    using respond_handled [OF assms] by auto
  obtain db e where d: "DeleteUser (map_option cl_p c) uid (id_db s2) = (db, e)" by fastforce
  from h have "e = None \<and> id_db s3 = db"
    by (cases e) (auto simp: d guarded_def on_db_def remove_user_def with_status_def RequirePerm_def CeilingHTTPStatus_def split: option.splits if_splits)
  then show ?thesis using gone [of "map_option cl_p c" "id_db s2"] d s' by (simp add: InvalidatePrincipals_def)
qed

section \<open>Where revocation is late\<close>

lemma put_get:
  "t2 \<le> t3 \<Longrightarrow> t3 \<le> t2 + seconds 5 \<Longrightarrow> cache_get tok principalTTL t3 (cache_put tok c t2 s) = Some c"
  by (simp add: cache_get_def cache_put_def Let_def principalTTL_def seconds_def time_sub_def)

lemma identify_cached:
  assumes "cookieOrBearer r SessionCookie = tok" "tok \<noteq> []" "\<not> hasPrefix tok APIKeyPrefix" "cache_get tok principalTTL t s = Some c"
  shows "identify True r t s = (s, Serve (Some c) True)"
  using assms by (simp add: identify_def)

lemma cache_get_cong:
  "id_cache s' = id_cache s \<and> id_gen s' = id_gen s \<Longrightarrow> cache_get tok maxAge t s' = cache_get tok maxAge t s"
  by (simp add: cache_get_def split: option.split)

lemma handled_cache:
  "id_cache (fst (handle_action act r c t s)) = id_cache s \<and> id_gen (fst (handle_action act r c t s)) = id_gen s"
  by (cases act) (auto simp: guarded_def on_db_def create_key_def revoke_key_def split: option.splits prod.splits)

text \<open>A read that is overtaken revives who was deleted: if a request has loaded its caller and is preempted
  before it stores them, and an administrator deletes that account meanwhile, then the caller is
  stored under the new generation, and for five more seconds every request with that token is served
  as the deleted user.\<close>

theorem late_put_revives_deleted_user:
  assumes read: "load_caller tok t (id_db s) = Some (row, u)" and c: "c = session_caller t (id_db s) row u"
    and removed: "respond (ActRemoveUser (se_UserID row)) r t1 s = (s1, 200)" and put: "s2 = cache_put tok c t2 s1"
    and tok: "cookieOrBearer r3 SessionCookie = tok" "tok \<noteq> []" "\<not> hasPrefix tok APIKeyPrefix" and soon: "t2 \<le> t3" "t3 \<le> t2 + seconds 5"
  shows "identify True r3 t3 s2 = (s2, Serve (Some c) True) \<and> p_UserID (cl_p c) = se_UserID row \<and>
    map_of (db_users (id_db s2)) (se_UserID row) = None"
  using identify_cached [OF tok put_get [OF soon]] deleted_user_gone [OF removed]
  by (simp add: put c session_caller_def user_principal_def)

text \<open>What an API key changes is not revoked at once: the middleware serves keys without the wrapper that
  empties the cache, so a user deleted by a key is still served from the cache.\<close>

theorem key_deletes_user_still_served:
  assumes key: "lookupAPIKey (cookieOrBearer r SessionCookie) s = Some k"
    and removed: "respond (ActRemoveUser uid) r t s = (s1, 200)"
    and cached: "cache_get tok principalTTL t s = Some c" "p_UserID (cl_p c) = uid"
    and tok: "cookieOrBearer r3 SessionCookie = tok" "tok \<noteq> []" "\<not> hasPrefix tok APIKeyPrefix"
  shows "identify True r3 t s1 = (s1, Serve (Some c) True) \<and> map_of (db_users (id_db s1)) (p_UserID (cl_p c)) = None"
proof -
  have "hasPrefix (cookieOrBearer r SessionCookie) APIKeyPrefix" using key by (auto simp: lookupAPIKey_def split: if_splits)
  moreover from this have "cookieOrBearer r SessionCookie \<noteq> []" by (auto simp: hasPrefix_def APIKeyPrefix_def)
  ultimately have i: "identify True r t s = (s, Serve (Some k) False)" using key by (simp add: identify_def)
  obtain c' s2 where g: "gated s s2" and h: "handle_action (ActRemoveUser uid) r c' t s2 = (s1, 200)"
    using respond_handled [OF removed] i by (auto simp del: handle_action.simps)
  have "id_cache s1 = id_cache s \<and> id_gen s1 = id_gen s"
    using handled_cache [of "ActRemoveUser uid" r c' t s2] h gatedD [OF g] by simp
  from cache_get_cong [OF this] have "cache_get tok principalTTL t s1 = Some c" using cached(1) by simp
  then show ?thesis using identify_cached [OF tok] deleted_user_gone [OF removed] cached(2) by simp
qed

text \<open>A change that fails half-way is not revoked at once: an administrator who disables a user and sets too
  short a password in one request gets an error, the user is disabled and their sessions are ended,
  and yet they are still served from the cache.\<close>

theorem half_failed_patch_still_served:
  assumes admin: "identify True r t s = (s, Serve (Some a) b)" "p_UserID (cl_p a) \<noteq> uid"
    and answer: "respond (ActPatchUser uid \<lparr>up_DisplayName = None, up_Disabled = Some True, up_RoleIDs = None,
        up_Password = Some n, up_AgeLimit = None\<rparr>) r t s = (s1, 400)" and short: "0 < n" "n < 8"
    and cached: "cache_get tok principalTTL t s = Some c" "p_UserID (cl_p c) = uid" and user: "map_of (db_users (id_db s)) uid = Some u"
    and tok: "cookieOrBearer r3 SessionCookie = tok" "tok \<noteq> []" "\<not> hasPrefix tok APIKeyPrefix"
  shows "identify True r3 t s1 = (s1, Serve (Some c) True) \<and>
    map_of (db_users (id_db s1)) uid = Some (u\<lparr>ac_Disabled := True\<rparr>) \<and> uid \<notin> se_UserID ` snd ` set (db_sessions (id_db s1))"
proof -
  let ?body = "\<lparr>up_DisplayName = None, up_Disabled = Some True, up_RoleIDs = None, up_Password = Some n, up_AgeLimit = None\<rparr>"
  obtain s2 s3 where g: "gated s s2" and h: "handle_action (ActPatchUser uid ?body) r (Some a) t s2 = (s3, 400)" and s1: "s1 = s3"
    using respond_handled [OF answer] admin by (auto simp del: handle_action.simps)
  have "id_cache s1 = id_cache s \<and> id_gen s1 = id_gen s"
    using handled_cache [of "ActPatchUser uid ?body" r "Some a" t s2] h gatedD [OF g] s1 by simp
  from cache_get_cong [OF this] have served: "cache_get tok principalTTL t s1 = Some c" using cached(1) by simp
  have db2: "id_db s2 = id_db s" using gatedD [OF g] by simp
  obtain db e where d: "SetDisabled (Some (cl_p a)) uid True (id_db s) = (db, e)" by fastforce
  have p: "patch_user (Some (cl_p a)) uid ?body (id_db s) = (id_db s1, 400)"
    using h s1 by (auto simp: guarded_def on_db_def RequirePerm_def db2 split: option.splits if_splits prod.splits)
  have e: "e = None"
  proof (rule ccontr)
    assume "e \<noteq> None"
    then obtain x where "e = Some x" by auto
    then have "CeilingHTTPStatus x = 400" "AssertCanModifyUser (id_db s) (Some (cl_p a)) uid = None"
      using p d by (auto simp: patch_user_def then_field_def AssertCanModifyUser_def CeilingHTTPStatus_def split: option.splits if_splits)
    moreover have "x = ErrOwnAccount \<or> x = ErrProtectedUser \<or> x = ErrLastAdmin \<or> AssertCanModifyUser (id_db s) (Some (cl_p a)) uid = Some x"
      using d \<open>e = Some x\<close> by (auto simp: SetDisabled_def guardLastAdmin_def split: option.splits if_splits)
    moreover have "x \<noteq> ErrOwnAccount"
      using d \<open>e = Some x\<close> admin(2)
      by (auto simp: SetDisabled_def guardLastAdmin_def AssertCanModifyUser_def split: option.splits if_splits)
    ultimately show False by (auto simp: CeilingHTTPStatus_def split: if_splits)
  qed
  have "AssertCanModifyUser (id_db s) (Some (cl_p a)) uid = None"
    using d e by (auto simp: SetDisabled_def split: option.splits if_splits)
  then have "id_db s1 = db"
    using p d e short by (simp add: patch_user_def then_field_def SetPassword_def)
  moreover have "db = DeleteAllForUser uid ((id_db s)\<lparr>db_users := set_key uid (u\<lparr>ac_Disabled := True\<rparr>) (db_users (id_db s))\<rparr>)"
    using d e user by (auto simp: SetDisabled_def split: option.splits if_splits)
  ultimately show ?thesis using identify_cached [OF tok served] by (auto simp: DeleteAllForUser_def)
qed

section \<open>The PIN\<close>

lemma touched_locked:
  assumes "load_caller tok t db = Some (row, u)" "t' \<le> se_ExpiresAt row"
  shows "load_caller tok t' (Session_Touch (se_ID row) t db) = Some (row\<lparr>se_LastSeen := whole_seconds t\<rparr>, u)"
proof -
  have "db_users (Session_Touch (se_ID row) t db) = db_users db" by (simp add: Session_Touch_def)
  then show ?thesis using assms
    by (auto simp: load_caller_def Session_Lookup_def touch_map_of split: option.splits if_splits)
qed

text \<open>The PIN locks a session for one request only: the request that finds the session idle for more than
  fifteen minutes is refused with 423, but it also notes the session as seen, so every further
  request of the next fifteen minutes (less a second) is served without the PIN.\<close>

theorem pin_lock_lasts_one_request:
  assumes session: "load_caller tok t (id_db s) = Some (row, u)" and pin: "ac_PINHash u \<noteq> []" and regular: "\<not> ac_Temporary u"
    and user: "se_UserID row \<noteq> []" and idle: "time_sub t (se_LastSeen row) > PINIdle"
    and uncached: "cache_get tok principalTTL t s = None" "map_of (id_cache s) tok = None" and ready: "id_setupDone s"
    and req: "cookieOrBearer r SessionCookie = tok" "tok \<noteq> []" "\<not> hasPrefix tok APIKeyPrefix" "rq_Method r = ''GET''"
      "rq_Path r = ''/api/v1/me/preferences''"
    and later: "t \<le> t'" "t' \<le> t + seconds 899" "t' \<le> se_ExpiresAt row" and run: "respond ActPrefs r t s = (s', st)"
  shows "st = 423 \<and> snd (respond ActPrefs r t' s') = 200"
proof -
  let ?c = "session_caller t (id_db s) row u"
  let ?s1 = "s\<lparr>id_db := Session_Touch (se_ID row) t (id_db s)\<rparr>"
  let ?row = "row\<lparr>se_LastSeen := whole_seconds t\<rparr>"
  have locked: "cl_PINLocked ?c" using pin idle by (simp add: session_caller_def)
  have "time_sub t (se_LastSeen row) > seconds 45" using idle by (simp add: PINIdle_def seconds_def)
  then have i: "identify True r t s = (?s1, Serve (Some ?c) True)"
    using req uncached session regular locked by (simp add: identify_def Let_def TemporaryExpired_def)
  have get: "SafeMethod (rq_Method r)" using req(4) by (simp add: SafeMethod_def)
  have gate: "SetupGate True (rq_Path r) c s0 = (s0, None)" if "id_setupDone s0" for c s0
    using that by (simp add: SetupGate_def setupState_def)
  have csrf: "CSRF r c = None" for c using get by (simp add: CSRF_def)
  have isuser: "IsUser (Some (cl_p (session_caller t2 db row2 u)))" if "se_UserID row2 \<noteq> []" for t2 db row2
    using that by (simp add: IsUser_def session_caller_def user_principal_def)
  have mut: "\<not> mutatesIdentity r" using get by (simp add: mutatesIdentity_def)
  have guard: "RequireUser (rq_Path r) (Some ?c) = Some 423"
    using isuser [OF user] locked req(5) by (simp add: RequireUser_def hasPrefix_def)
  have first: "s' = ?s1 \<and> st = 423"
    using run by (simp add: respond_def i serve_inner_def gate ready csrf mut guarded_def guard)
  define c2 where "c2 = session_caller t' (id_db ?s1) ?row u"
  have recent: "\<not> time_sub t' (whole_seconds t) > PINIdle"
    using later whole_seconds_bounds [of t] by (simp add: time_sub_def PINIdle_def seconds_def)
  have open2: "\<not> cl_PINLocked c2" using recent by (simp add: session_caller_def c2_def)
  have load2: "load_caller tok t' (id_db ?s1) = Some (?row, u)"
    using touched_locked [OF session later(3)] by simp
  obtain s2 where i2: "identify True r t' ?s1 = (s2, Serve (Some c2) True)" and done2: "id_setupDone s2"
    using req load2 uncached(2) regular open2 ready unfolding c2_def
    by (auto simp: identify_def Let_def TemporaryExpired_def cache_get_def)
  have guard2: "RequireUser (rq_Path r) (Some c2) = None"
    using isuser [of ?row] user open2 by (simp add: RequireUser_def c2_def)
  have "snd (respond ActPrefs r t' ?s1) = 200"
    by (simp add: respond_def i2 serve_inner_def gate done2 csrf mut guarded_def guard2)
  then show ?thesis using first by simp
qed

text \<open>A locked session can take the PIN away: the routes of the PIN are exempt from the lock, and the one
  that removes the PIN does not ask for it.\<close>

theorem locked_session_removes_pin:
  assumes session: "load_caller tok t (id_db s) = Some (row, u)" and pin: "ac_PINHash u \<noteq> []" and regular: "\<not> ac_Temporary u"
    and user: "se_UserID row \<noteq> []" and idle: "time_sub t (se_LastSeen row) > PINIdle"
    and uncached: "cache_get tok principalTTL t s = None" and ready: "id_setupDone s"
    and req: "cookieOrBearer r SessionCookie = tok" "tok \<noteq> []" "\<not> hasPrefix tok APIKeyPrefix" "CheckCSRF r"
      "rq_Path r = ''/api/v1/me/pin''"
    and run: "respond ActClearPIN r t s = (s', st)"
  shows "cl_PINLocked (session_caller t (id_db s) row u) \<and> st = 200 \<and>
    map_of (db_users (id_db s')) (se_UserID row) = Some (u\<lparr>ac_PINHash := []\<rparr>)"
proof -
  let ?c = "session_caller t (id_db s) row u"
  let ?s1 = "s\<lparr>id_db := Session_Touch (se_ID row) t (id_db s)\<rparr>"
  let ?s2 = "?s1\<lparr>id_db := (id_db ?s1)\<lparr>db_users := set_key (se_UserID row) (u\<lparr>ac_PINHash := []\<rparr>) (db_users (id_db ?s1))\<rparr>\<rparr>"
  have locked: "cl_PINLocked ?c" using pin idle by (simp add: session_caller_def)
  have "time_sub t (se_LastSeen row) > seconds 45" using idle by (simp add: PINIdle_def seconds_def)
  then have i: "identify True r t s = (?s1, Serve (Some ?c) True)"
    using req uncached session regular locked by (simp add: identify_def Let_def TemporaryExpired_def)
  have gate: "SetupGate True (rq_Path r) c ?s1 = (?s1, None)" for c
    using ready by (simp add: SetupGate_def setupState_def)
  have csrf: "CSRF r c = None" for c using req(4) by (simp add: CSRF_def)
  have guard: "RequireUser (rq_Path r) (Some ?c) = None"
    using user req(5) by (simp add: RequireUser_def IsUser_def session_caller_def user_principal_def hasPrefix_def)
  have uid: "caller_ID (Some ?c) = se_UserID row" by (simp add: caller_ID_def session_caller_def user_principal_def)
  have "map_of (db_users (id_db ?s1)) (se_UserID row) = Some u"
    using session by (auto simp: load_caller_def Session_Touch_def split: option.splits if_splits)
  then have h: "handle_action ActClearPIN r (Some ?c) t ?s1 = (?s2, 200)"
    by (simp add: guarded_def guard on_db_def handleClearPIN_def ClearPIN_def update_account_def uid)
  have x: "serve_inner ActClearPIN r (Some ?c) t ?s1 = (?s2, 200)"
    unfolding serve_inner_def gate csrf prod.case option.case by (rule h)
  have "respond ActClearPIN r t s = (if mutatesIdentity r then InvalidatePrincipals ?s2 else ?s2, 200)"
    unfolding respond_def i prod.case verdict.case x by simp
  then show ?thesis using run locked by (auto simp: InvalidatePrincipals_def split: if_splits)
qed

section \<open>Forged requests\<close>

lemma identify_touches: "\<exists>sid. id_db (fst (identify True r t s)) = id_db s \<or> id_db (fst (identify True r t s)) = Session_Touch sid t (id_db s)"
  by (auto simp: identify_def Let_def split: option.splits)

lemma identify_keys: "id_keys (fst (identify True r t s)) = id_keys s" "id_shares (fst (identify True r t s)) = id_shares s"
  by (auto simp: identify_def Let_def split: option.splits)

text \<open>C26. A forged request changes nothing: a request that is not a read, bears no valid API key and does not
  repeat the CSRF cookie in its header or form is refused, and all it may change is when the session
  was last seen.\<close>

theorem forged_request_changes_nothing:
  assumes run: "id_step\<^sup>*\<^sup>* s0 s" "id_cache s0 = []" and forged: "\<not> SafeMethod (rq_Method r)" "\<not> CheckCSRF r"
    and nokey: "lookupAPIKey (cookieOrBearer r SessionCookie) s = None" and answer: "respond act r t s = (s', st)"
  shows "st \<in> {403, 503} \<and> (id_db s' = id_db s \<or> (\<exists>sid. id_db s' = Session_Touch sid t (id_db s))) \<and>
    id_keys s' = id_keys s \<and> id_shares s' = id_shares s"
proof -
  have "coherent s0" using run(2) by (simp add: coherent_def)
  then have coh: "coherent s" by (rule sign_ins.reach_keeps [OF run(1)])
  have nk: "\<not> cl_APIKey c" if "snd (identify True r t s) = Serve (Some c) b" for c b
    using that nokey get_coherent [OF coh]
    by (auto simp: identify_def Let_def guest_verdict_def entry_ok_def session_caller_def split: option.splits if_splits)
  obtain s1 c b where i: "identify True r t s = (s1, Serve c b)" using identify_up [of r t s] by (metis prod.collapse)
  have csrf: "CSRF r c = Some 403" using forged nk [of _ b] i by (auto simp: CSRF_def split: option.splits)
  obtain s2 g where g: "SetupGate True (rq_Path r) c s1 = (s2, g)" by fastforce
  have gs: "gated s1 s2" using gate_gated [of s1 True "rq_Path r" c] g by simp
  have "serve_inner act r c t s1 = (s2, 403) \<or> serve_inner act r c t s1 = (s2, 503)"
    using g csrf gate_status [of True "rq_Path r" c s1] by (cases g) (auto simp: serve_inner_def)
  then have fin: "s' = s2 \<and> st \<in> {403, 503}" using answer i by (auto simp: respond_def)
  moreover have "id_db s2 = id_db s1 \<and> id_keys s2 = id_keys s1 \<and> id_shares s2 = id_shares s1"
    using gs by (auto simp: gated_def)
  ultimately show ?thesis using identify_touches [of r t s] identify_keys [of r t s] i by auto
qed

section \<open>API keys\<close>

text \<open>An API key outlives the account that made it: when its creator is deleted, an administrator's key is
  still an administrator, in the name of an account that no longer exists.\<close>

theorem key_outlives_creator:
  assumes key: "lookupAPIKey key s = Some k" and admin: "p_IsAdmin (cl_p k)" "p_UserID (cl_p k) \<noteq> []"
    and removed: "respond (ActRemoveUser (p_UserID (cl_p k))) r t s = (s1, 200)"
  shows "lookupAPIKey key s1 = Some k \<and> RequirePerm PermAdmin (Some k) = None \<and>
    map_of (db_users (id_db s1)) (p_UserID (cl_p k)) = None"
proof -
  obtain c b s2 s3 s4 where i: "identify True r t s = (s2, Serve c b)" and g: "gated s2 s3"
    and h: "handle_action (ActRemoveUser (p_UserID (cl_p k))) r c t s3 = (s4, 200)"
    and s1: "s1 = (if b \<and> mutatesIdentity r \<and> (200::int) < 400 then InvalidatePrincipals s4 else s4)"
    using respond_handled [OF removed] by (auto simp del: handle_action.simps)
  have "id_keys s4 = id_keys s3" using h by (auto simp: guarded_def on_db_def split: option.splits prod.splits)
  then have "id_keys s1 = id_keys s"
    using gatedD [OF g] identify_keys [of r t s] i s1 by (auto simp: InvalidatePrincipals_def)
  then have "lookupAPIKey key s1 = Some k" using key by (auto simp: lookupAPIKey_def split: if_splits)
  moreover have "p_Kind (cl_p k) = KindUser \<and> \<not> cl_PINLocked k"
    using key by (auto simp: lookupAPIKey_def key_caller_def split: option.splits if_splits)
  then have "RequirePerm PermAdmin (Some k) = None"
    using admin by (simp add: RequirePerm_def IsUser_def HasPerm_def)
  ultimately show ?thesis using deleted_user_gone [OF removed] by simp
qed

section \<open>New administrators\<close>

text \<open>A new administrator with roles is none: when an administrator creates an account as administrator and
  names roles for it as well, the named roles replace the administrator's role, so unless one of them
  grants it, the account is no administrator although the answer is success.\<close>

theorem new_administrator_loses_role:
  assumes run: "create_user actor la uid nm n display True roleIDs db = (db', 201)" and roles: "roleIDs \<noteq> []"
    and plain: "\<not> rolesGrantAdmin db roleIDs" and uid: "uid \<noteq> db_original db" and ok: "acc_ok db"
  shows "\<not> userIsAdmin db' uid"
proof -
  obtain db1 where c: "CreateUser uid nm n display True db = (db1, None)" and s: "SetUserRolesAs actor uid roleIDs db1 = (db', None)"
    using run roles ceiling_status
    by (auto simp: create_user_def CeilingHTTPStatus_def split: option.splits prod.splits if_splits)
  have db1: "acc_ok db1" using create_user_ok [OF ok, of uid nm n display True] c by simp
  then have ok': "acc_ok db'" using set_roles_as_ok [OF db1, of actor uid roleIDs] s by simp
  have perms: "db_role_perms db1 = db_role_perms db" "db_original db1 = db_original db"
    using c by (auto simp: CreateUser_def AssignRole_def Let_def split: if_splits)
  have set: "SetUserRoles uid roleIDs db1 = (db', None)" using s by (auto simp: SetUserRolesAs_def split: option.splits)
  have "PermAdmin \<notin> set (PermissionsFor db' uid)"
    using permissions_of_roles [OF set] uid perms plain by (auto simp: rolesGrantAdmin_def list_ex_iff rolePerms_def)
  then show ?thesis using user_is_admin_iff [OF ok'] perm_admin_iff by simp
qed

section \<open>A concrete server\<close>

text \<open>Ann is the administrator, Bob a user with a PIN; both are signed in, and each has made an API key,
  Bob while they were an administrator.\<close>

definition id_demo_db :: auth_db where
  "id_demo_db = \<lparr>
     db_users = [(''ann'', new_account ''ann'' [] True), (''bob'', (new_account ''bob'' [] False)\<lparr>ac_PINHash := ''h''\<rparr>)],
     db_roles = [(RoleAdministrator, \<lparr>rl_Name = ''Administrator'', rl_Description = [], rl_IsSystem = True\<rparr>),
                 (RoleSuperadmin, \<lparr>rl_Name = ''Superadmin'', rl_Description = [], rl_IsSystem = True\<rparr>),
                 (''guests'', \<lparr>rl_Name = ''Guests'', rl_Description = [], rl_IsSystem = False\<rparr>)],
     db_permissions = [PermAdmin],
     db_role_perms = [(RoleAdministrator, PermAdmin), (RoleSuperadmin, PermAdmin)],
     db_user_roles = [(''ann'', RoleAdministrator), (''ann'', RoleSuperadmin)],
     db_sessions = [(''ta'', \<lparr>se_ID = ''sa'', se_UserID = ''ann'', se_ExpiresAt = seconds 9000, se_LastSeen = seconds 1000\<rparr>),
                    (''tb'', \<lparr>se_ID = ''sb'', se_UserID = ''bob'', se_ExpiresAt = seconds 9000, se_LastSeen = seconds 1000\<rparr>)],
     db_original = [], db_user_grants = [], db_role_grants = [], db_libraries = [], db_source_libraries = []\<rparr>"

definition id_demo :: "(string \<times> caller \<times> gtime \<times> int) list \<Rightarrow> identity" where
  "id_demo cache = \<lparr>id_db = id_demo_db,
     id_keys = [(''k'', \<lparr>ak_Name = ''ci'', ak_token = ''vd_1'', ak_Scopes = [''admin''], ak_CreatedBy = ''ann'', ak_Revoked = False\<rparr>),
                (''l'', \<lparr>ak_Name = ''cd'', ak_token = ''vd_2'', ak_Scopes = [''admin''], ak_CreatedBy = ''bob'', ak_Revoked = False\<rparr>)],
     id_shares = \<lparr>ss_shares = [], ss_guests = [], ss_seen = []\<rparr>,
     id_cache = cache, id_gen = 0, id_setupDone = True, id_setupFlag = True\<rparr>"

definition demo_req :: "string \<Rightarrow> string \<Rightarrow> string \<Rightarrow> string \<Rightarrow> http_req" where
  "demo_req m path tok csrf = \<lparr>rq_Method = m, rq_Path = path, rq_Authorization = [],
     rq_Cookies = [(''vd_session'', tok), (''vd_csrf'', ''x'')], rq_CSRFHeader = csrf, rq_CSRFForm = [], rq_STok = []\<rparr>"

definition demo_key_req :: "string \<Rightarrow> string \<Rightarrow> string \<Rightarrow> http_req" where
  "demo_key_req m path key = \<lparr>rq_Method = m, rq_Path = path, rq_Authorization = ''Bearer '' @ key,
     rq_Cookies = [], rq_CSRFHeader = [], rq_CSRFForm = [], rq_STok = []\<rparr>"

definition demo_bob :: caller where
  "demo_bob = \<lparr>cl_p = \<lparr>p_Kind = ''user'', p_UserID = ''bob'', p_GuestSessionID = [], p_MediaKind = [], p_MediaID = [], p_IsAdmin = False,
     p_DisplayName = ''bob'', p_Username = ''bob'', p_CanDownload = False, p_Permissions = [], p_PartyOnly = False\<rparr>,
     cl_SessionID = ''sb'', cl_PINLocked = False, cl_APIKey = False, cl_Temporary = False\<rparr>"

definition demo_ann :: caller where
  "demo_ann = \<lparr>cl_p = \<lparr>p_Kind = ''user'', p_UserID = ''ann'', p_GuestSessionID = [], p_MediaKind = [], p_MediaID = [], p_IsAdmin = True,
     p_DisplayName = ''ann'', p_Username = ''ann'', p_CanDownload = False, p_Permissions = [''admin''], p_PartyOnly = False\<rparr>,
     cl_SessionID = ''sa'', cl_PINLocked = False, cl_APIKey = False, cl_Temporary = False\<rparr>"

definition demo_cached :: identity where
  "demo_cached = id_demo [(''ta'', demo_ann, seconds 1001, 0), (''tb'', demo_bob, seconds 1001, 0)]"

lemma demo_cookies [simp]: "cookieOrBearer (demo_req m path tok csrf) SessionCookie = tok" "rq_Method (demo_req m path tok csrf) = m"
  "rq_Path (demo_req m path tok csrf) = path" "CheckCSRF (demo_req ''DELETE'' path tok ''x'')" "CheckCSRF (demo_req ''PATCH'' path tok ''x'')"
  "\<not> CheckCSRF (demo_req ''DELETE'' path tok [])"
  by (simp_all add: demo_req_def cookieOrBearer_def SessionCookie_def hasPrefix_def toLower_def CheckCSRF_def CSRFCookie_def SafeMethod_def)

lemma demo_times [simp]: "time_sub (seconds 1001) (seconds 1000) = seconds 1" "time_sub (seconds 3000) (seconds 1000) = seconds 2000"
  "time_sub (seconds 1001) (seconds 1001) = 0"
  by (simp_all add: time_sub_def seconds_def)

lemma demo_load: "load_caller ''tb'' (seconds t) id_demo_db = Some (\<lparr>se_ID = ''sb'', se_UserID = ''bob'', se_ExpiresAt = seconds 9000, se_LastSeen = seconds 1000\<rparr>,
    (new_account ''bob'' [] False)\<lparr>ac_PINHash := ''h''\<rparr>)" if "t \<le> 9000"
  using that by (simp add: load_caller_def Session_Lookup_def id_demo_db_def new_account_def seconds_def)


text \<open>Ann deletes Bob while a request of Bob's is on its way.\<close>

lemma demo_gate [simp]: "SetupGate True path c (id_demo m) = (id_demo m, None)"
  by (simp add: SetupGate_def setupState_def id_demo_def)

lemma demo_CSRF [simp]: "CSRF (demo_req ''DELETE'' path tok ''x'') c = None" "CSRF (demo_req ''PATCH'' path tok ''x'') c = None"
  by (simp_all add: CSRF_def)

lemma demo_db [simp]: "id_db (id_demo m) = id_demo_db" "id_cache (id_demo m) = m" "id_gen (id_demo m) = 0" "id_setupDone (id_demo m)"
  by (simp_all add: id_demo_def)

lemma demo_identify_ann: "identify True (demo_req m path ''ta'' csrf) (seconds 1001) demo_cached = (demo_cached, Serve (Some demo_ann) True)"
  by (rule identify_cached [of _ "''ta''"])
    (simp_all add: hasPrefix_def APIKeyPrefix_def cache_get_def demo_cached_def principalTTL_def seconds_def)

lemma demo_manager: "RequirePerm ''users.manage'' (Some demo_ann) = None"
  by (simp add: RequirePerm_def demo_ann_def IsUser_def KindUser_def HasPerm_def)

lemmas demo_rules = DeleteUser_def SetDisabled_def demo_ann_def IsSuperadmin_def AssertCanModifyUser_def guardLastAdmin_def userIsAdmin_def
  IsUser_def KindUser_def id_demo_db_def RoleIDsFor_def PermissionsFor_def new_account_def RoleSuperadmin_def RoleAdministrator_def
  rolePerms_def

lemma demo_delete: "snd (DeleteUser (Some (cl_p demo_ann)) ''bob'' id_demo_db) = None"
  by (simp add: demo_rules)

lemma demo_removed: "snd (respond (ActRemoveUser ''bob'') (demo_req ''DELETE'' ''/api/v1/users/bob'' ''ta'' ''x'') (seconds 1001) demo_cached) = 200"
proof -
  have g: "SetupGate True path c demo_cached = (demo_cached, None)" for path c by (simp add: demo_cached_def)
  have d: "id_db demo_cached = id_demo_db" by (simp add: demo_cached_def)
  show ?thesis using demo_delete
    by (cases "DeleteUser (Some (cl_p demo_ann)) ''bob'' id_demo_db")
      (simp add: respond_def demo_identify_ann serve_inner_def g guarded_def demo_manager d remove_user_def with_status_def on_db_def)
qed

theorem late_put_revives_deleted_user_witness:
  "\<exists>s1 s2. respond (ActRemoveUser ''bob'') (demo_req ''DELETE'' ''/api/v1/users/bob'' ''ta'' ''x'') (seconds 1001) demo_cached = (s1, 200) \<and>
    identify True (demo_req ''GET'' ''/api/v1/me'' ''tb'' []) (seconds 1005) s2 = (s2, Serve (Some demo_bob) True) \<and>
    map_of (db_users (id_db s2)) ''bob'' = None"
proof -
  obtain s1 where s1: "respond (ActRemoveUser ''bob'') (demo_req ''DELETE'' ''/api/v1/users/bob'' ''ta'' ''x'') (seconds 1001) demo_cached = (s1, 200)"
    using demo_removed by (metis prod.collapse)
  have bob: "demo_bob = session_caller (seconds 1001) (id_db demo_cached) \<lparr>se_ID = ''sb'', se_UserID = ''bob'', se_ExpiresAt = seconds 9000, se_LastSeen = seconds 1000\<rparr>
      ((new_account ''bob'' [] False)\<lparr>ac_PINHash := ''h''\<rparr>)"
    by (simp add: session_caller_def demo_bob_def user_principal_def KindUser_def new_account_def PINIdle_def seconds_def time_sub_def
        PermissionsFor_def RoleIDsFor_def id_demo_db_def demo_cached_def)
  have load: "load_caller ''tb'' (seconds 1001) (id_db demo_cached) = Some (\<lparr>se_ID = ''sb'', se_UserID = ''bob'', se_ExpiresAt = seconds 9000, se_LastSeen = seconds 1000\<rparr>,
      (new_account ''bob'' [] False)\<lparr>ac_PINHash := ''h''\<rparr>)"
    using demo_load [of 1001] by (simp add: demo_cached_def)
  from late_put_revives_deleted_user [OF load bob _ refl, of "demo_req ''DELETE'' ''/api/v1/users/bob'' ''ta'' ''x''" "seconds 1001" s1
      "demo_req ''GET'' ''/api/v1/me'' ''tb'' []" "seconds 1002" "seconds 1005"] s1
  show ?thesis by (auto simp: hasPrefix_def APIKeyPrefix_def seconds_def)
qed

lemma demo_key [simp]: "lookupAPIKey (cookieOrBearer (demo_key_req m path ''vd_1'') SessionCookie) demo_cached = Some
   \<lparr>cl_p = \<lparr>p_Kind = ''user'', p_UserID = ''ann'', p_GuestSessionID = [], p_MediaKind = [], p_MediaID = [], p_IsAdmin = True,
     p_DisplayName = ''API key: ci'', p_Username = ''apikey'', p_CanDownload = False, p_Permissions = [''admin'', ''admin''], p_PartyOnly = False\<rparr>,
     cl_SessionID = ''apikey:k'', cl_PINLocked = False, cl_APIKey = True, cl_Temporary = False\<rparr>"
proof -
  have "cookieOrBearer (demo_key_req m path ''vd_1'') SessionCookie = ''vd_1''"
    unfolding cookieOrBearer_def demo_key_req_def by (simp add: hasPrefix_def toLower_def) code_simp
  then show ?thesis
    by (simp add: lookupAPIKey_def hasPrefix_def APIKeyPrefix_def demo_cached_def id_demo_def key_caller_def KindUser_def PermAdmin_def)
qed

lemma demo_key_removed:
  "snd (respond (ActRemoveUser ''bob'') (demo_key_req ''DELETE'' ''/api/v1/users/bob'' ''vd_1'') (seconds 1001) demo_cached) = 200"
proof -
  let ?r = "demo_key_req ''DELETE'' ''/api/v1/users/bob'' ''vd_1''"
  obtain k where k: "lookupAPIKey (cookieOrBearer ?r SessionCookie) demo_cached = Some k" "p_Kind (cl_p k) = KindUser"
      "p_UserID (cl_p k) = ''ann''" "p_IsAdmin (cl_p k)" "cl_APIKey k" "\<not> cl_PINLocked k"
    by (simp add: KindUser_def)
  then have pre: "hasPrefix (cookieOrBearer ?r SessionCookie) APIKeyPrefix" by (auto simp: lookupAPIKey_def split: if_splits)
  then have "cookieOrBearer ?r SessionCookie \<noteq> []" by (auto simp: hasPrefix_def APIKeyPrefix_def)
  then have i: "identify True ?r (seconds 1001) demo_cached = (demo_cached, Serve (Some k) False)" using k(1) pre by (simp add: identify_def)
  have g: "SetupGate True path c demo_cached = (demo_cached, None)" for path c by (simp add: demo_cached_def)
  have d: "id_db demo_cached = id_demo_db" by (simp add: demo_cached_def)
  have csrf: "CSRF ?r (Some k) = None" using k by (simp add: CSRF_def)
  have perm: "RequirePerm ''users.manage'' (Some k) = None" using k by (simp add: RequirePerm_def IsUser_def HasPerm_def)
  have "snd (DeleteUser (Some (cl_p k)) ''bob'' id_demo_db) = None"
    using k by (simp add: demo_rules)
  then show ?thesis
    by (cases "DeleteUser (Some (cl_p k)) ''bob'' id_demo_db")
      (simp add: respond_def i serve_inner_def g guarded_def csrf perm d remove_user_def with_status_def on_db_def)
qed

theorem key_deletes_user_still_served_witness:
  "\<exists>s1. respond (ActRemoveUser ''bob'') (demo_key_req ''DELETE'' ''/api/v1/users/bob'' ''vd_1'') (seconds 1001) demo_cached = (s1, 200) \<and>
    identify True (demo_req ''GET'' ''/api/v1/me'' ''tb'' []) (seconds 1001) s1 = (s1, Serve (Some demo_bob) True) \<and>
    map_of (db_users (id_db s1)) ''bob'' = None"
proof -
  let ?r = "demo_key_req ''DELETE'' ''/api/v1/users/bob'' ''vd_1''"
  obtain s1 where s1: "respond (ActRemoveUser ''bob'') ?r (seconds 1001) demo_cached = (s1, 200)"
    using demo_key_removed by (metis prod.collapse)
  have cached: "cache_get ''tb'' principalTTL (seconds 1001) demo_cached = Some demo_bob"
    by (simp add: cache_get_def demo_cached_def principalTTL_def seconds_def)
  have uid: "p_UserID (cl_p demo_bob) = ''bob''" by (simp add: demo_bob_def)
  show ?thesis
    using key_deletes_user_still_served [OF demo_key s1 cached uid, of "demo_req ''GET'' ''/api/v1/me'' ''tb'' []"] s1 uid
    by (auto simp: hasPrefix_def APIKeyPrefix_def)
qed

text \<open>Ann disables Bob and gives them a password of three characters in one request.\<close>

definition demo_body :: user_patch where
  "demo_body = \<lparr>up_DisplayName = None, up_Disabled = Some True, up_RoleIDs = None, up_Password = Some 3, up_AgeLimit = None\<rparr>"

lemma demo_patched: "snd (respond (ActPatchUser ''bob'' demo_body) (demo_req ''PATCH'' ''/api/v1/users/bob'' ''ta'' ''x'') (seconds 1001) demo_cached) = 400"
proof -
  have g: "SetupGate True path c demo_cached = (demo_cached, None)" for path c by (simp add: demo_cached_def)
  have d: "id_db demo_cached = id_demo_db" by (simp add: demo_cached_def)
  have "snd (SetDisabled (Some (cl_p demo_ann)) ''bob'' True id_demo_db) = None" by (simp add: demo_rules)
  moreover have "AssertCanModifyUser id_demo_db (Some (cl_p demo_ann)) ''bob'' = None" by (simp add: demo_rules)
  ultimately have "snd (patch_user (Some (cl_p demo_ann)) ''bob'' demo_body id_demo_db) = 400"
    by (cases "SetDisabled (Some (cl_p demo_ann)) ''bob'' True id_demo_db")
      (simp add: patch_user_def then_field_def demo_body_def SetPassword_def)
  then show ?thesis
    by (cases "patch_user (Some (cl_p demo_ann)) ''bob'' demo_body id_demo_db")
      (simp add: respond_def demo_identify_ann serve_inner_def g guarded_def demo_manager d on_db_def)
qed

theorem half_failed_patch_still_served_witness:
  "\<exists>s1. respond (ActPatchUser ''bob'' demo_body) (demo_req ''PATCH'' ''/api/v1/users/bob'' ''ta'' ''x'') (seconds 1001) demo_cached = (s1, 400) \<and>
    identify True (demo_req ''GET'' ''/api/v1/me'' ''tb'' []) (seconds 1001) s1 = (s1, Serve (Some demo_bob) True) \<and>
    map_option ac_Disabled (map_of (db_users (id_db s1)) ''bob'') = Some True"
proof -
  let ?r = "demo_req ''PATCH'' ''/api/v1/users/bob'' ''ta'' ''x''"
  obtain s1 where s1: "respond (ActPatchUser ''bob'' demo_body) ?r (seconds 1001) demo_cached = (s1, 400)"
    using demo_patched by (metis prod.collapse)
  have cached: "cache_get ''tb'' principalTTL (seconds 1001) demo_cached = Some demo_bob"
    by (simp add: cache_get_def demo_cached_def principalTTL_def seconds_def)
  have uid: "p_UserID (cl_p demo_bob) = ''bob''" "p_UserID (cl_p demo_ann) \<noteq> ''bob''" by (simp_all add: demo_bob_def demo_ann_def)
  have user: "map_of (db_users (id_db demo_cached)) ''bob'' = Some ((new_account ''bob'' [] False)\<lparr>ac_PINHash := ''h''\<rparr>)"
    by (simp add: demo_cached_def id_demo_db_def)
  have "identify True (demo_req ''GET'' ''/api/v1/me'' ''tb'' []) (seconds 1001) s1 = (s1, Serve (Some demo_bob) True) \<and>
      map_of (db_users (id_db s1)) ''bob'' = Some ((new_account ''bob'' [] False)\<lparr>ac_PINHash := ''h'', ac_Disabled := True\<rparr>) \<and>
      ''bob'' \<notin> se_UserID ` snd ` set (db_sessions (id_db s1))"
    by (rule half_failed_patch_still_served [OF demo_identify_ann uid(2) s1 [unfolded demo_body_def] _ _ cached uid(1) user demo_cookies(1)])
      (simp_all add: hasPrefix_def APIKeyPrefix_def)
  then show ?thesis using s1 by (intro exI [of _ s1]) simp
qed

text \<open>Bob comes back after more than half an hour.\<close>

lemma demo_bob_account [simp]: "ac_PINHash ((new_account ''bob'' [] False)\<lparr>ac_PINHash := ''h''\<rparr>) = ''h''"
  "\<not> ac_Temporary ((new_account ''bob'' [] False)\<lparr>ac_PINHash := ''h''\<rparr>)"
  by (simp_all add: new_account_def)

theorem pin_lock_lasts_one_request_witness:
  "\<exists>s' st. respond ActPrefs (demo_req ''GET'' ''/api/v1/me/preferences'' ''tb'' []) (seconds 3000) (id_demo []) = (s', st) \<and> st = 423 \<and>
    snd (respond ActPrefs (demo_req ''GET'' ''/api/v1/me/preferences'' ''tb'' []) (seconds 3001) s') = 200"
proof -
  let ?r = "demo_req ''GET'' ''/api/v1/me/preferences'' ''tb'' []"
  obtain s' st where r: "respond ActPrefs ?r (seconds 3000) (id_demo []) = (s', st)" by fastforce
  have load: "load_caller ''tb'' (seconds 3000) (id_db (id_demo [])) = Some (\<lparr>se_ID = ''sb'', se_UserID = ''bob'', se_ExpiresAt = seconds 9000, se_LastSeen = seconds 1000\<rparr>,
      (new_account ''bob'' [] False)\<lparr>ac_PINHash := ''h''\<rparr>)"
    using demo_load [of 3000] by simp
  have "st = 423 \<and> snd (respond ActPrefs ?r (seconds 3001) s') = 200"
    by (rule pin_lock_lasts_one_request [OF load _ _ _ _ _ _ _ demo_cookies(1) _ _ demo_cookies(2) demo_cookies(3) _ _ _ r])
      (simp_all add: PINIdle_def seconds_def time_sub_def cache_get_def hasPrefix_def APIKeyPrefix_def)
  then show ?thesis using r by blast
qed

theorem locked_session_removes_pin_witness:
  "\<exists>s'. respond ActClearPIN (demo_req ''DELETE'' ''/api/v1/me/pin'' ''tb'' ''x'') (seconds 3000) (id_demo []) = (s', 200) \<and>
    map_option ac_PINHash (map_of (db_users (id_db s')) ''bob'') = Some []"
proof -
  let ?r = "demo_req ''DELETE'' ''/api/v1/me/pin'' ''tb'' ''x''"
  obtain s' st where r: "respond ActClearPIN ?r (seconds 3000) (id_demo []) = (s', st)" by fastforce
  have load: "load_caller ''tb'' (seconds 3000) (id_db (id_demo [])) = Some (\<lparr>se_ID = ''sb'', se_UserID = ''bob'', se_ExpiresAt = seconds 9000, se_LastSeen = seconds 1000\<rparr>,
      (new_account ''bob'' [] False)\<lparr>ac_PINHash := ''h''\<rparr>)"
    using demo_load [of 3000] by simp
  from locked_session_removes_pin [OF load _ _ _ _ _ _ demo_cookies(1) _ _ _ demo_cookies(3) r] r
  show ?thesis by (auto simp: PINIdle_def seconds_def time_sub_def cache_get_def hasPrefix_def APIKeyPrefix_def)
qed

text \<open>A page of another site sends Ann's browser to delete Bob.\<close>

theorem forged_request_changes_nothing_witness:
  "\<exists>s' st. respond (ActRemoveUser ''bob'') (demo_req ''DELETE'' ''/api/v1/users/bob'' ''ta'' []) (seconds 1001) (id_demo []) = (s', st) \<and>
    st \<in> {403, 503} \<and> (id_db s' = id_demo_db \<or> (\<exists>sid. id_db s' = Session_Touch sid (seconds 1001) id_demo_db))"
proof -
  let ?r = "demo_req ''DELETE'' ''/api/v1/users/bob'' ''ta'' []"
  obtain s' st where r: "respond (ActRemoveUser ''bob'') ?r (seconds 1001) (id_demo []) = (s', st)" by fastforce
  have "\<not> SafeMethod (rq_Method ?r)" "lookupAPIKey (cookieOrBearer ?r SessionCookie) (id_demo []) = None"
    by (simp_all add: SafeMethod_def lookupAPIKey_def hasPrefix_def APIKeyPrefix_def)
  from forged_request_changes_nothing [OF rtranclp.rtrancl_refl demo_db(2) this(1) demo_cookies(6) this(2) r] r
  show ?thesis by simp
qed

text \<open>Ann deletes Bob, whose key stays.\<close>

lemma demo_key_bob: "lookupAPIKey ''vd_2'' demo_cached = Some
   \<lparr>cl_p = \<lparr>p_Kind = ''user'', p_UserID = ''bob'', p_GuestSessionID = [], p_MediaKind = [], p_MediaID = [], p_IsAdmin = True,
     p_DisplayName = ''API key: cd'', p_Username = ''apikey'', p_CanDownload = False, p_Permissions = [''admin'', ''admin''], p_PartyOnly = False\<rparr>,
     cl_SessionID = ''apikey:l'', cl_PINLocked = False, cl_APIKey = True, cl_Temporary = False\<rparr>"
  by (simp add: lookupAPIKey_def hasPrefix_def APIKeyPrefix_def demo_cached_def id_demo_def key_caller_def KindUser_def PermAdmin_def)

theorem key_outlives_creator_witness:
  "\<exists>k s1. respond (ActRemoveUser ''bob'') (demo_req ''DELETE'' ''/api/v1/users/bob'' ''ta'' ''x'') (seconds 1001) demo_cached = (s1, 200) \<and>
    lookupAPIKey ''vd_2'' s1 = Some k \<and> RequirePerm PermAdmin (Some k) = None \<and> map_of (db_users (id_db s1)) ''bob'' = None"
proof -
  obtain s1 where s1: "respond (ActRemoveUser ''bob'') (demo_req ''DELETE'' ''/api/v1/users/bob'' ''ta'' ''x'') (seconds 1001) demo_cached = (s1, 200)"
    using demo_removed by (metis prod.collapse)
  from key_outlives_creator [OF demo_key_bob, of "demo_req ''DELETE'' ''/api/v1/users/bob'' ''ta'' ''x''" "seconds 1001" s1] s1
  show ?thesis by auto
qed

text \<open>Ann creates Cy as administrator and member of the guests.\<close>

lemma trim_Nil [simp]: "trimSpace [] = []" by code_simp

lemma demo_acc_ok: "acc_ok id_demo_db"
  by (auto simp: acc_ok_def tables_ok_def flags_ok_def some_admin_def original_ok_def admin_perm_def keys_def has_key_def
      id_demo_db_def new_account_def RoleSuperadmin_def RoleAdministrator_def)

lemma demo_create: "snd (create_user (Some (cl_p demo_ann)) True ''cy'' ''cy'' 8 [] True [''guests''] id_demo_db) = 201"
  by code_simp

theorem new_administrator_loses_role_witness:
  "\<exists>db'. create_user (Some (cl_p demo_ann)) True ''cy'' ''cy'' 8 [] True [''guests''] id_demo_db = (db', 201) \<and> \<not> userIsAdmin db' ''cy''"
proof -
  obtain db' where c: "create_user (Some (cl_p demo_ann)) True ''cy'' ''cy'' 8 [] True [''guests''] id_demo_db = (db', 201)"
    using demo_create by (metis prod.collapse)
  have "\<not> rolesGrantAdmin id_demo_db [''guests'']" by code_simp
  from new_administrator_loses_role [OF c _ this _ demo_acc_ok] c show ?thesis by (simp add: id_demo_db_def)
qed

end
