(* ===== verification/Upload.thy ===== *)
theory Upload
  imports Principal
begin

text \<open>
  Uploads into a library (\<^verbatim>\<open>src/internal/upload/service.go\<close>, \<^verbatim>\<open>names.go\<close>, \<^verbatim>\<open>place.go\<close>). A file is sent in
  chunks to a staging file, checked, moved to a free name of the library and catalogued. The files
  are a map from paths to contents; directories are not in it. \<^verbatim>\<open>WriteAt\<close> is cut where another request
  can come between, and composed again for the requests that run alone. What the file system, the
  prober, the scanner and the database answer are arguments. As elsewhere, lower case is that of
  the ASCII letters.
\<close>

section \<open>State\<close>

record upload =
  ul_LibraryID :: string
  ul_Filename :: string
  ul_Staging :: string
  ul_Size :: i64
  ul_Offset :: i64
  ul_Status :: string
  ul_CreatedBy :: string
  ul_ExpiresAt :: gtime
  ul_UpdatedAt :: gtime
  ul_Error :: string
  ul_MediaFileID :: string
  ul_ItemKind :: string
  ul_ItemID :: string

record upload_state =
  us_rows :: "(string \<times> upload) list"
  us_fs :: "(string \<times> string) list"

record upload_library =
  lb_RootPath :: string
  lb_ContentType :: string
  lb_UploadsEnabled :: bool

datatype upload_error =
    ErrForbidden | ErrTooLarge | ErrNotVideo | ErrUploadsDisabled | ErrLibraryKind | ErrNotWritable | ErrUploadNotFound
  | ErrOwner | ErrClosed | ErrExpired | ErrOffset | ErrSizeMismatch | ErrInvalidMedia | ErrDuplicate | ErrIO

definition MaxSize :: int where "MaxSize = 10 * 2 ^ 30"
definition MaxChunk :: int where "MaxChunk = 16 * 2 ^ 20"
definition sessionTTL :: duration where "sessionTTL = seconds 86400"
definition retainDone :: duration where "retainDone = seconds 604800"
definition statusOpen :: string where "statusOpen = ''open''"
definition statusProc :: string where "statusProc = ''processing''"
definition statusDone :: string where "statusDone = ''complete''"
definition statusFail :: string where "statusFail = ''failed''"
definition statusCancel :: string where "statusCancel = ''cancelled''"

lemmas status_defs = statusOpen_def statusProc_def statusDone_def statusFail_def statusCancel_def

text \<open>The text an upload keeps of its error; the messages of the file system are not modelled.\<close>

definition error_text :: "upload_error \<Rightarrow> string" where
  "error_text e =
     (case e of ErrSizeMismatch \<Rightarrow> ''uploaded size does not match the declared size''
      | ErrInvalidMedia \<Rightarrow> ''file is not a valid video''
      | ErrDuplicate \<Rightarrow> ''could not allocate a unique filename''
      | ErrUploadNotFound \<Rightarrow> ''not found''
      | _ \<Rightarrow> ''input or output error'')"

section \<open>Names\<close>

definition fileExt :: "string \<Rightarrow> string" where
  "fileExt name = (if CHR ''.'' \<in> set name then CHR ''.'' # rev (takeWhile (\<lambda>c. c \<noteq> CHR ''.'') (rev name)) else [])"

definition VideoExtensions :: "string list" where
  "VideoExtensions = [''.mkv'', ''.mp4'', ''.avi'', ''.m4v'', ''.mov'', ''.ts'', ''.m2ts'', ''.wmv'', ''.webm'', ''.mpg'', ''.mpeg'', ''.flv'']"

definition IsVideo :: "string \<Rightarrow> bool" where
  "IsVideo name \<longleftrightarrow> toLower (fileExt name) \<in> set VideoExtensions"

definition is_control :: "string \<Rightarrow> bool" where
  "is_control r = (case map byte r of [b] \<Rightarrow> b < 32 \<or> b = 127 | [b1, b2] \<Rightarrow> b1 = 194 \<and> 128 \<le> b2 \<and> b2 \<le> 159 | _ \<Rightarrow> False)"

definition sanitizeFilename :: "string \<Rightarrow> string" where
  "sanitizeFilename name =
     (let name = map (\<lambda>c. if c = CHR 0x5C then CHR ''/'' else c) (trimSpace name)
      in if name = [] \<or> CHR ''/'' \<in> set name then []
         else if name = ''.'' \<or> name = ''..'' then []
         else if list_ex is_control (runes name) then []
         else (let out = trimSpace (concat (map encode_rune (runes name)))
               in if out = [] \<or> out = ''.'' \<or> out = ''..'' then []
                  else if hasPrefix out ''.'' \<or> toLower out \<in> {''thumbs.db'', ''desktop.ini'', ''.ds_store''} then []
                  else if \<not> IsVideo out then [] else out))"

definition join_path :: "string \<Rightarrow> string \<Rightarrow> string" where
  "join_path root name = (if root = ''/'' then ''/'' @ name else root @ ''/'' @ name)"

definition candidate :: "string \<Rightarrow> nat \<Rightarrow> string" where
  "candidate filename n =
     (if n = 0 then filename
      else trimSuffix filename (fileExt filename) @ '' ('' @ nat_dec (n + 1) @ '')'' @ fileExt filename)"

definition attempts :: "nat list" where "attempts = [0..<1000]"

definition uniqueDest :: "string \<Rightarrow> string \<Rightarrow> (string \<times> string) list \<Rightarrow> (string \<times> string) option" where
  "uniqueDest root filename fs =
     (case List.find (\<lambda>n. \<not> has_key (join_path root (candidate filename n)) fs) attempts of
        None \<Rightarrow> None
      | Some n \<Rightarrow> Some (join_path root (candidate filename n), candidate filename n))"

text \<open>\<^verbatim>\<open>atomicPlace\<close>: \<open>renames\<close> says whether a rename is possible, \<open>copies\<close> whether a copy succeeds. A rename
  replaces the file that is there; a copy that fails removes the destination.\<close>

definition atomicPlace :: "bool \<Rightarrow> bool \<Rightarrow> string \<Rightarrow> string \<Rightarrow> (string \<times> string) list \<Rightarrow> (string \<times> string) list \<times> bool" where
  "atomicPlace renames copies src dest fs =
     (case map_of fs src of
        None \<Rightarrow> (del_key dest fs, False)
      | Some content \<Rightarrow>
          if renames then (set_key dest content (del_key src fs), True)
          else if has_key dest fs then (del_key dest fs, False)
          else if \<not> copies then (del_key dest fs, False)
          else (del_key src (set_key dest content fs), True))"

section \<open>Creating an upload\<close>

definition CanUpload :: "principal option \<Rightarrow> bool" where
  "CanUpload p \<longleftrightarrow> p \<noteq> None \<and> IsUser p \<and> (case p of Some q \<Rightarrow> p_IsAdmin q | None \<Rightarrow> False) \<and> HasPerm p ''media.upload''"

definition mimeOK :: "string \<Rightarrow> bool" where
  "mimeOK mime \<longleftrightarrow>
     (let mime = toLower (trimSpace mime) in mime = [] \<or> mime = ''application/octet-stream'' \<or> hasPrefix mime ''video/'')"

text \<open>\<open>parsed\<close> is the kind the scanner reads from the name.\<close>

definition libraryKindOK :: "string \<Rightarrow> string \<Rightarrow> bool" where
  "libraryKindOK contentType parsed =
     (if contentType = ''movies'' then parsed \<noteq> ''episode''
      else if contentType = ''tv'' then parsed = ''episode'' else True)"

record create_answers =
  ca_lib :: "upload_library option"
  ca_parse :: "string \<Rightarrow> string"
  ca_writable :: bool
  ca_staging :: string
  ca_mkdir :: bool

definition Upload_Create :: "create_answers \<Rightarrow> string \<Rightarrow> principal option \<Rightarrow> string \<Rightarrow> string \<Rightarrow> i64 \<Rightarrow> string \<Rightarrow> gtime \<Rightarrow> upload_state
    \<Rightarrow> upload_state \<times> (upload_error + upload)" where
  "Upload_Create a uid p libraryID filename bytes mime now s =
     (let name = sanitizeFilename filename
      in if \<not> CanUpload p then (s, Inl ErrForbidden)
         else if bytes \<le> 0 \<or> bytes > MaxSize then (s, Inl ErrTooLarge)
         else if name = [] then (s, Inl ErrNotVideo)
         else if \<not> mimeOK mime then (s, Inl ErrNotVideo)
         else (case ca_lib a of
                 None \<Rightarrow> (s, Inl ErrUploadNotFound)
               | Some lib \<Rightarrow>
                   if \<not> lb_UploadsEnabled lib then (s, Inl ErrUploadsDisabled)
                   else if \<not> libraryKindOK (lb_ContentType lib) (ca_parse a name) then (s, Inl ErrLibraryKind)
                   else if \<not> ca_writable a then (s, Inl ErrNotWritable)
                   else if \<not> ca_mkdir a \<or> has_key (join_path (ca_staging a) uid) (us_fs s) \<or> has_key uid (us_rows s) then (s, Inl ErrIO)
                   else (let u = \<lparr>ul_LibraryID = libraryID, ul_Filename = name, ul_Staging = join_path (ca_staging a) uid,
                                  ul_Size = bytes, ul_Offset = 0, ul_Status = statusOpen,
                                  ul_CreatedBy = (case p of Some q \<Rightarrow> p_UserID q | None \<Rightarrow> []),
                                  ul_ExpiresAt = whole_seconds (now + sessionTTL), ul_UpdatedAt = whole_seconds now, ul_Error = [],
                                  ul_MediaFileID = [], ul_ItemKind = [], ul_ItemID = []\<rparr>
                         in (s\<lparr>us_rows := us_rows s @ [(uid, u)], us_fs := us_fs s @ [(ul_Staging u, [])]\<rparr>, Inr u))))"

section \<open>Writing\<close>

definition upload_authorize :: "principal option \<Rightarrow> upload \<Rightarrow> bool \<Rightarrow> upload_error option" where
  "upload_authorize p u write =
     (if \<not> CanUpload p then Some ErrForbidden
      else if write \<and> ul_CreatedBy u \<noteq> [] \<and> ul_CreatedBy u \<noteq> (case p of Some q \<Rightarrow> p_UserID q | None \<Rightarrow> []) then Some ErrOwner
      else None)"

definition upload_expired :: "gtime \<Rightarrow> gtime \<Rightarrow> bool" where
  "upload_expired now e \<longleftrightarrow> now > e"

definition write_check :: "principal option \<Rightarrow> string \<Rightarrow> i64 \<Rightarrow> gtime \<Rightarrow> upload_state \<Rightarrow> upload_error + upload" where
  "write_check p uid off now s =
     (case map_of (us_rows s) uid of
        None \<Rightarrow> Inl ErrUploadNotFound
      | Some u \<Rightarrow>
          (case upload_authorize p u True of
             Some e \<Rightarrow> Inl e
           | None \<Rightarrow>
               if ul_Status u \<noteq> statusOpen then Inl ErrClosed
               else if upload_expired now (ul_ExpiresAt u) then Inl ErrExpired
               else if off \<noteq> ul_Offset u then Inl ErrOffset
               else if ul_Size u - ul_Offset u < 0 then Inl ErrTooLarge
               else Inr u))"

definition write_bytes :: "nat \<Rightarrow> string \<Rightarrow> string \<Rightarrow> string" where
  "write_bytes off d old = (take off old @ replicate (off - length old) (CHR 0x00)) @ d @ drop (off + length d) old"

text \<open>The copy: of the body at most what remains, and at most a chunk; \<open>broken\<close> says that the body or the
  disk failed behind the bytes that arrived.\<close>

definition body_cap :: "upload \<Rightarrow> nat" where
  "body_cap u = nat (min (ul_Size u - ul_Offset u) MaxChunk)"

definition write_copy :: "upload \<Rightarrow> string \<Rightarrow> bool \<Rightarrow> upload_state \<Rightarrow> upload_state \<times> (upload_error + i64)" where
  "write_copy u body broken s =
     (case map_of (us_fs s) (ul_Staging u) of
        None \<Rightarrow> (s, Inl ErrIO)
      | Some old \<Rightarrow>
          (let d = take (body_cap u) body;
               s = s\<lparr>us_fs := set_key (ul_Staging u) (write_bytes (nat (ul_Offset u)) d old) (us_fs s)\<rparr>
           in if broken \<and> length body < body_cap u then (s, Inl ErrIO) else (s, Inr (int (length d)))))"

definition update_upload :: "string \<Rightarrow> (upload \<Rightarrow> upload) \<Rightarrow> upload_state \<Rightarrow> upload_state" where
  "update_upload uid f s =
     (case map_of (us_rows s) uid of None \<Rightarrow> s | Some u \<Rightarrow> s\<lparr>us_rows := set_key uid (f u) (us_rows s)\<rparr>)"

definition write_commit :: "string \<Rightarrow> upload \<Rightarrow> i64 \<Rightarrow> gtime \<Rightarrow> upload_state \<Rightarrow> upload_state \<times> (upload_error + upload)" where
  "write_commit uid u n now s =
     (case map_of (us_rows s) uid of
        None \<Rightarrow> (s, Inl ErrOffset)
      | Some row \<Rightarrow>
          if ul_Offset row \<noteq> ul_Offset u \<or> ul_Status row \<noteq> statusOpen then (s, Inl ErrOffset)
          else (update_upload uid (\<lambda>r. r\<lparr>ul_Offset := ul_Offset u + n, ul_UpdatedAt := whole_seconds now,
                                          ul_ExpiresAt := whole_seconds (now + sessionTTL)\<rparr>) s,
                Inr (u\<lparr>ul_Offset := ul_Offset u + n, ul_ExpiresAt := whole_seconds (now + sessionTTL)\<rparr>)))"

section \<open>Finishing\<close>

record finish_answers =
  fa_sync :: bool
  fa_video :: "bool option"
  fa_lib :: "upload_library option"
  fa_contained :: bool
  fa_renames :: bool
  fa_copies :: bool
  fa_ingest :: bool
  fa_item :: "string \<times> string \<times> string"

definition finalize_check :: "finish_answers \<Rightarrow> string \<Rightarrow> upload \<Rightarrow> gtime \<Rightarrow> upload_state
    \<Rightarrow> upload_state \<times> (upload_error + string \<times> string)" where
  "finalize_check a uid u now s =
     (let s = update_upload uid (\<lambda>r. r\<lparr>ul_Status := statusProc, ul_UpdatedAt := whole_seconds now\<rparr>) s
      in case map_of (us_fs s) (ul_Staging u) of
           None \<Rightarrow> (s, Inl ErrIO)
         | Some content \<Rightarrow>
             if \<not> fa_sync a then (s, Inl ErrIO)
             else if int (length content) \<noteq> ul_Size u then (s, Inl ErrSizeMismatch)
             else if fa_video a = Some False then (s, Inl ErrInvalidMedia)
             else (case fa_lib a of
                     None \<Rightarrow> (s, Inl ErrUploadNotFound)
                   | Some lib \<Rightarrow>
                       (case uniqueDest (lb_RootPath lib) (ul_Filename u) (us_fs s) of
                          None \<Rightarrow> (s, Inl ErrDuplicate)
                        | Some (dest, name) \<Rightarrow> if \<not> fa_contained a then (s, Inl ErrIO) else (s, Inr (dest, name)))))"

definition finalize_place :: "finish_answers \<Rightarrow> upload \<Rightarrow> string \<Rightarrow> upload_state \<Rightarrow> upload_state \<times> upload_error option" where
  "finalize_place a u dest s =
     (case atomicPlace (fa_renames a) (fa_copies a) (ul_Staging u) dest (us_fs s) of
        (fs, ok) \<Rightarrow> (s\<lparr>us_fs := fs\<rparr>, if ok then None else Some ErrIO))"

definition finalize_done :: "finish_answers \<Rightarrow> string \<Rightarrow> string \<Rightarrow> gtime \<Rightarrow> upload_state \<Rightarrow> upload_state \<times> upload_error option" where
  "finalize_done a uid name now s =
     (if \<not> fa_ingest a then (s, Some ErrIO)
      else (case fa_item a of (mediaID, kind, itemID) \<Rightarrow>
              (update_upload uid (\<lambda>r. r\<lparr>ul_Status := statusDone, ul_Filename := name, ul_UpdatedAt := whole_seconds now,
                                         ul_MediaFileID := mediaID, ul_ItemKind := kind, ul_ItemID := itemID, ul_Error := []\<rparr>) s, None)))"

definition finalize :: "finish_answers \<Rightarrow> string \<Rightarrow> upload \<Rightarrow> gtime \<Rightarrow> upload_state \<Rightarrow> upload_state \<times> upload_error option" where
  "finalize a uid u now s =
     (case finalize_check a uid u now s of
        (s, Inl e) \<Rightarrow> (s, Some e)
      | (s, Inr (dest, name)) \<Rightarrow>
          (case finalize_place a u dest s of
             (s, Some e) \<Rightarrow> (s, Some e)
           | (s, None) \<Rightarrow> finalize_done a uid name now s))"

definition upload_fail :: "string \<Rightarrow> string \<Rightarrow> gtime \<Rightarrow> upload_state \<Rightarrow> upload_state" where
  "upload_fail uid msg now s =
     (let s = (case map_of (us_rows s) uid of None \<Rightarrow> s | Some u \<Rightarrow> s\<lparr>us_fs := del_key (ul_Staging u) (us_fs s)\<rparr>)
      in update_upload uid (\<lambda>r. r\<lparr>ul_Status := statusFail, ul_Error := msg, ul_UpdatedAt := whole_seconds now\<rparr>) s)"

definition WriteAt :: "finish_answers \<Rightarrow> principal option \<Rightarrow> string \<Rightarrow> i64 \<Rightarrow> string \<Rightarrow> bool \<Rightarrow> gtime \<Rightarrow> upload_state
    \<Rightarrow> upload_state \<times> (upload_error + upload)" where
  "WriteAt a p uid off body broken now s =
     (case write_check p uid off now s of
        Inl e \<Rightarrow> (s, Inl e)
      | Inr u \<Rightarrow>
          (case write_copy u body broken s of
             (s, Inl e) \<Rightarrow> (s, Inl e)
           | (s, Inr n) \<Rightarrow>
               (case write_commit uid u n now s of
                  (s, Inl e) \<Rightarrow> (s, Inl e)
                | (s, Inr u) \<Rightarrow>
                    if ul_Offset u \<ge> ul_Size u
                    then (case finalize a uid u now s of
                            (s, Some e) \<Rightarrow> (upload_fail uid (error_text e) now s, Inl e)
                          | (s, None) \<Rightarrow> (s, case map_of (us_rows s) uid of None \<Rightarrow> Inl ErrUploadNotFound | Some u \<Rightarrow> Inr u))
                    else (s, Inr u))))"

section \<open>Cancelling and sweeping\<close>

definition Upload_Delete :: "principal option \<Rightarrow> string \<Rightarrow> gtime \<Rightarrow> upload_state \<Rightarrow> upload_state \<times> upload_error option" where
  "Upload_Delete p uid now s =
     (case map_of (us_rows s) uid of
        None \<Rightarrow> (s, Some ErrUploadNotFound)
      | Some u \<Rightarrow>
          (case upload_authorize p u True of
             Some e \<Rightarrow> (s, Some e)
           | None \<Rightarrow> (update_upload uid (\<lambda>r. r\<lparr>ul_Status := statusCancel, ul_UpdatedAt := whole_seconds now\<rparr>)
                        (s\<lparr>us_fs := del_key (ul_Staging u) (us_fs s)\<rparr>), None)))"

definition sweep_one :: "gtime \<Rightarrow> string \<times> upload \<Rightarrow> upload_state \<Rightarrow> upload_state" where
  "sweep_one now e s =
     (case e of (uid, u) \<Rightarrow>
        if ul_Status u = statusOpen \<and> upload_expired now (ul_ExpiresAt u)
        then update_upload uid (\<lambda>r. r\<lparr>ul_Status := statusCancel, ul_Error := ''upload session expired'', ul_UpdatedAt := whole_seconds now\<rparr>)
               (s\<lparr>us_fs := del_key (ul_Staging u) (us_fs s)\<rparr>)
        else if ul_Status u \<in> {statusDone, statusFail, statusCancel} \<and> time_sub now (ul_UpdatedAt u) > retainDone
        then s\<lparr>us_fs := (if ul_Status u \<noteq> statusDone then del_key (ul_Staging u) (us_fs s) else us_fs s),
               us_rows := del_key uid (us_rows s)\<rparr>
        else s)"

definition Upload_Sweep :: "gtime \<Rightarrow> upload_state \<Rightarrow> upload_state" where
  "Upload_Sweep now s = fold (sweep_one now) (us_rows s) s"

text \<open>The answers to the client.\<close>

definition upload_status :: "upload_error \<Rightarrow> int" where
  "upload_status e =
     (if e = ErrUploadNotFound then 404
      else if e \<in> {ErrForbidden, ErrOwner, ErrUploadsDisabled} then 403
      else if e = ErrOffset then 409 else if e = ErrExpired then 410 else 400)"

end
