(* ===== verification/Upload_Properties.thy ===== *)
theory Upload_Properties
  imports Upload
begin

text \<open>
  What uploads guarantee: names that stay inside the library, the bytes that were sent under a name
  that was free, well-formed rows under every interleaving of requests (the machine \<open>um_step\<close>), and
  the interleavings that lose or keep a file against the answer the client got.
\<close>

section \<open>Names\<close>

definition name_ok :: "string \<Rightarrow> bool" where
  "name_ok n \<longleftrightarrow> n \<noteq> [] \<and> CHR ''/'' \<notin> set n \<and> \<not> hasPrefix n ''.''"

lemma ext_split: "trimSuffix n (fileExt n) @ fileExt n = n"
proof (cases "CHR ''.'' \<in> set n")
  case True
  then obtain a b where n: "n = a @ CHR ''.'' # b" "CHR ''.'' \<notin> set b" by (meson split_list_last)
  have "takeWhile (\<lambda>c. c \<noteq> CHR ''.'') (rev b @ CHR ''.'' # rev a) = rev b"
    using n(2) by (subst takeWhile_append2) auto
  then have "n = a @ fileExt n" using n(1) by (simp add: fileExt_def)
  then show ?thesis by (metis trimSuffix_append)
next
  case False
  then show ?thesis by (simp add: fileExt_def trimSuffix_def hasSuffix_def)
qed

lemma ext_prefix: "fileExt n \<noteq> [] \<Longrightarrow> hasPrefix (fileExt n) ''.''"
  by (auto simp: fileExt_def hasPrefix_def split: if_splits)

lemma nat_dec_no_slash: "CHR ''/'' \<notin> set (nat_dec k)"
proof
  assume "CHR ''/'' \<in> set (nat_dec k)"
  then show False
  proof (induction k rule: nat_dec.induct)
    case (1 k)
    have "digit_char (k mod 10) \<noteq> CHR ''/''"
    proof
      assume "digit_char (k mod 10) = CHR ''/''"
      then have "digit_val (CHR ''/'') = Some (int (k mod 10))" by (metis digit_val_char mod_less_divisor zero_less_numeral)
      then show False by (simp add: digit_val_def)
    qed
    then show ?case using 1 by (subst (asm) nat_dec.simps) (auto split: if_splits)
  qed
qed

lemma candidate_ok: "name_ok n \<Longrightarrow> name_ok (candidate n k)"
proof (cases "k = 0")
  case False
  assume ok: "name_ok n"
  let ?stem = "trimSuffix n (fileExt n)"
  have "CHR ''/'' \<notin> set ?stem" "CHR ''/'' \<notin> set (fileExt n)"
    using ok ext_split [of n] by (metis Un_iff name_ok_def set_append)+
  moreover have "?stem \<noteq> []"
  proof
    assume "?stem = []"
    then have "n = fileExt n" using ext_split [of n] by simp
    then show False using ok ext_prefix [of n] by (metis name_ok_def)
  qed
  moreover have "\<not> hasPrefix ?stem ''.''"
    using ok ext_split [of n] by (metis append.assoc hasPrefix_iff name_ok_def)
  ultimately show ?thesis
    using False nat_dec_no_slash by (auto simp: name_ok_def candidate_def hasPrefix_def neq_Nil_conv)
qed (simp add: candidate_def)

lemma chars_of_runes: "\<Union> (set ` set (runes s)) = set s"
  by (metis concat_runes set_concat)

lemma trimSpace_subset: "set (trimSpace s) \<subseteq> set s"
proof -
  have "set (concat (rev (dropWhile is_space (rev (dropWhile is_space (runes s)))))) \<subseteq> \<Union> (set ` set (runes s))"
    by (auto dest!: set_dropWhileD)
  then show ?thesis by (simp add: trimSpace_def chars_of_runes)
qed

lemma encoded_subset: "set (concat (map encode_rune (runes s))) \<subseteq> set s \<union> set replacement"
proof -
  have "set (encode_rune r) \<subseteq> set s \<union> set replacement" if "r \<in> set (runes s)" for r
  proof -
    have "set r \<subseteq> set s" using that chars_of_runes [of s] by auto
    then show ?thesis by (auto simp: encode_rune_def)
  qed
  then show ?thesis by auto
qed

text \<open>A name that is accepted stays in its directory: it is not empty, has no separator, does not begin with
  a dot, has a video extension, and so has every name tried when it is taken.\<close>

theorem sanitized_names_stay:
  assumes "sanitizeFilename raw = name" "name \<noteq> []"
  shows "CHR ''/'' \<notin> set (candidate name n) \<and> candidate name n \<noteq> [] \<and> \<not> hasPrefix (candidate name n) ''.'' \<and> IsVideo name"
proof -
  let ?n = "map (\<lambda>c. if c = CHR 0x5C then CHR ''/'' else c) (trimSpace raw)"
  have name: "name = trimSpace (concat (map encode_rune (runes ?n)))" "\<not> hasPrefix name ''.''" "IsVideo name" "CHR ''/'' \<notin> set ?n"
    using assms by (auto simp: sanitizeFilename_def Let_def split: if_splits)
  have "CHR ''/'' \<notin> set replacement" by code_simp
  then have "CHR ''/'' \<notin> set name" using name trimSpace_subset encoded_subset by blast
  then have "name_ok name" using name assms by (simp add: name_ok_def)
  from candidate_ok [OF this] name(3) show ?thesis by (simp add: name_ok_def)
qed

lemma find_first:
  assumes "List.find P xs = Some x"
  shows "P x" "x \<in> set xs"
  using assms by (auto simp: find_Some_iff)

lemma uniqueDest_free:
  assumes "uniqueDest root n fs = Some (dest, name)"
  shows "map_of fs dest = None" "\<exists>k. name = candidate n k" "dest = join_path root name"
proof -
  let ?P = "\<lambda>k. \<not> has_key (join_path root (candidate n k)) fs"
  obtain k where f: "List.find ?P attempts = Some k"
    using assms by (cases "List.find ?P attempts") (simp_all add: uniqueDest_def)
  then have k: "dest = join_path root (candidate n k)" "name = candidate n k"
    using assms by (auto simp: uniqueDest_def)
  have "\<not> has_key dest fs" using find_first(1) [OF f] k(1) by simp
  then show "map_of fs dest = None" by (simp add: has_key_iff keys_def map_of_eq_None_iff)
  show "\<exists>k. name = candidate n k" "dest = join_path root name" using k by blast+
qed

lemma uniqueDest_cong: "set (keys fs') = set (keys fs) \<Longrightarrow> uniqueDest root n fs' = uniqueDest root n fs"
  by (simp add: uniqueDest_def has_key_iff)

section \<open>The rows\<close>

lemma updated_row:
  "map_of (us_rows (update_upload uid f s)) v = (if v = uid then map_option f (map_of (us_rows s) uid) else map_of (us_rows s) v)"
  by (auto simp: update_upload_def split: option.split)

lemma updated_fs [simp]: "us_fs (update_upload uid f s) = us_fs s"
  by (auto simp: update_upload_def split: option.split)

definition row_ok :: "upload \<Rightarrow> bool" where
  "row_ok u \<longleftrightarrow> 0 < ul_Size u \<and> ul_Size u \<le> MaxSize \<and> 0 \<le> ul_Offset u \<and> ul_Offset u \<le> ul_Size u \<and> name_ok (ul_Filename u) \<and>
     ul_Status u \<in> {statusOpen, statusProc, statusDone, statusFail, statusCancel} \<and>
     (ul_Status u \<in> {statusProc, statusDone} \<longrightarrow> ul_Offset u = ul_Size u)"

section \<open>Interleaved requests\<close>

text \<open>A write holds the lock of its upload from its check to its end; \<open>flight\<close> says how far it is. Requests for
  other uploads, cancellations and sweeps come between.\<close>

datatype flight = Copying upload string bool | Finalizing upload | Placing upload string string | Finishing string

record upload_machine =
  um_s :: upload_state
  um_busy :: "(string \<times> flight) list"

datatype upload_event =
    EvCreate create_answers string "principal option" string string i64 string gtime
  | EvStart "principal option" string i64 string bool gtime
  | EvCopy string gtime
  | EvCheck finish_answers string gtime
  | EvPlace finish_answers string gtime
  | EvFinish finish_answers string gtime
  | EvDelete "principal option" string gtime
  | EvSweep gtime

definition um_failed :: "string \<Rightarrow> upload_error \<Rightarrow> gtime \<Rightarrow> upload_state \<Rightarrow> upload_machine \<Rightarrow> upload_machine" where
  "um_failed uid e now s m = m\<lparr>um_s := upload_fail uid (error_text e) now s, um_busy := del_key uid (um_busy m)\<rparr>"

fun um_step :: "upload_machine \<Rightarrow> upload_event \<Rightarrow> upload_machine" where
  "um_step m (EvCreate a uid p lib name bytes mime now) =
     (if has_key uid (um_busy m) then m else m\<lparr>um_s := fst (Upload_Create a uid p lib name bytes mime now (um_s m))\<rparr>)"
| "um_step m (EvStart p uid off body broken now) =
     (if has_key uid (um_busy m) then m
      else (case write_check p uid off now (um_s m) of
              Inl e \<Rightarrow> m | Inr u \<Rightarrow> m\<lparr>um_busy := set_key uid (Copying u body broken) (um_busy m)\<rparr>))"
| "um_step m (EvCopy uid now) =
     (case map_of (um_busy m) uid of
        Some (Copying u body broken) \<Rightarrow>
          (case write_copy u body broken (um_s m) of
             (s, Inl e) \<Rightarrow> m\<lparr>um_s := s, um_busy := del_key uid (um_busy m)\<rparr>
           | (s, Inr n) \<Rightarrow>
               (case write_commit uid u n now s of
                  (s, Inl e) \<Rightarrow> m\<lparr>um_s := s, um_busy := del_key uid (um_busy m)\<rparr>
                | (s, Inr u) \<Rightarrow> m\<lparr>um_s := s, um_busy := (if ul_Offset u \<ge> ul_Size u then set_key uid (Finalizing u) (um_busy m)
                                                        else del_key uid (um_busy m))\<rparr>))
      | _ \<Rightarrow> m)"
| "um_step m (EvCheck a uid now) =
     (case map_of (um_busy m) uid of
        Some (Finalizing u) \<Rightarrow>
          (case finalize_check a uid u now (um_s m) of
             (s, Inl e) \<Rightarrow> um_failed uid e now s m
           | (s, Inr (dest, name)) \<Rightarrow> m\<lparr>um_s := s, um_busy := set_key uid (Placing u dest name) (um_busy m)\<rparr>)
      | _ \<Rightarrow> m)"
| "um_step m (EvPlace a uid now) =
     (case map_of (um_busy m) uid of
        Some (Placing u dest name) \<Rightarrow>
          (case finalize_place a u dest (um_s m) of
             (s, Some e) \<Rightarrow> um_failed uid e now s m
           | (s, None) \<Rightarrow> m\<lparr>um_s := s, um_busy := set_key uid (Finishing name) (um_busy m)\<rparr>)
      | _ \<Rightarrow> m)"
| "um_step m (EvFinish a uid now) =
     (case map_of (um_busy m) uid of
        Some (Finishing name) \<Rightarrow>
          (case finalize_done a uid name now (um_s m) of
             (s, Some e) \<Rightarrow> um_failed uid e now s m
           | (s, None) \<Rightarrow> m\<lparr>um_s := s, um_busy := del_key uid (um_busy m)\<rparr>)
      | _ \<Rightarrow> m)"
| "um_step m (EvDelete p uid now) = m\<lparr>um_s := fst (Upload_Delete p uid now (um_s m))\<rparr>"
| "um_step m (EvSweep now) = m\<lparr>um_s := Upload_Sweep now (um_s m)\<rparr>"

fun flight_ok :: "upload option \<Rightarrow> flight \<Rightarrow> bool" where
  "flight_ok r (Copying u _ _) = (row_ok u \<and> (\<forall>x. r = Some x \<longrightarrow> ul_Size x = ul_Size u))"
| "flight_ok r (Finalizing u) = (name_ok (ul_Filename u) \<and> (\<forall>x. r = Some x \<longrightarrow> ul_Offset x = ul_Size x))"
| "flight_ok r (Placing u dest name) = (name_ok name \<and> (\<forall>x. r = Some x \<longrightarrow> ul_Offset x = ul_Size x))"
| "flight_ok r (Finishing name) = (name_ok name \<and> (\<forall>x. r = Some x \<longrightarrow> ul_Offset x = ul_Size x))"

definition um_ok :: "upload_machine \<Rightarrow> bool" where
  "um_ok m \<longleftrightarrow> (\<forall>uid u. map_of (us_rows (um_s m)) uid = Some u \<longrightarrow> row_ok u) \<and>
     (\<forall>uid f. map_of (um_busy m) uid = Some f \<longrightarrow> flight_ok (map_of (us_rows (um_s m)) uid) f)"

text \<open>Cancelling, sweeping and failing keep what the flights rely on.\<close>

definition shrinks :: "upload_state \<Rightarrow> upload_state \<Rightarrow> bool" where
  "shrinks s s' \<longleftrightarrow> (\<forall>v x'. map_of (us_rows s') v = Some x' \<longrightarrow>
     (\<exists>x. map_of (us_rows s) v = Some x \<and> ul_Size x' = ul_Size x \<and> ul_Offset x' = ul_Offset x \<and> (row_ok x \<longrightarrow> row_ok x')))"

lemma shrinks_refl [simp]: "shrinks s s" by (simp add: shrinks_def)

lemma shrinks_trans: "shrinks a b \<Longrightarrow> shrinks b c \<Longrightarrow> shrinks a c"
  unfolding shrinks_def by (metis (no_types, lifting))

lemma shrinks_ok:
  assumes "um_ok m" "shrinks (um_s m) s" "\<And>uid f. map_of busy uid = Some f \<Longrightarrow> map_of (um_busy m) uid = Some f"
  shows "um_ok (m\<lparr>um_s := s, um_busy := busy\<rparr>)"
proof -
  have "flight_ok (map_of (us_rows s) uid) f" if f: "map_of busy uid = Some f" for uid f
  proof -
    have old: "flight_ok (map_of (us_rows (um_s m)) uid) f" using assms(1) assms(3) [OF f] by (simp add: um_ok_def)
    show ?thesis using old assms(2) unfolding shrinks_def by (cases f) (fastforce)+
  qed
  moreover have "row_ok u" if "map_of (us_rows s) uid = Some u" for uid u
    using assms(1,2) that unfolding shrinks_def um_ok_def by blast
  ultimately show ?thesis by (simp add: um_ok_def)
qed

lemma shrinks_update:
  assumes "us_rows s' = us_rows s" "\<And>x. row_ok x \<Longrightarrow> row_ok (f x)" "\<And>x. ul_Size (f x) = ul_Size x \<and> ul_Offset (f x) = ul_Offset x"
  shows "shrinks s (update_upload uid f s')"
  using assms by (auto simp: shrinks_def updated_row)

lemma row_ok_status:
  "row_ok x \<Longrightarrow> row_ok (x\<lparr>ul_Status := statusFail, ul_Error := e, ul_UpdatedAt := t\<rparr>)"
  "row_ok x \<Longrightarrow> row_ok (x\<lparr>ul_Status := statusCancel, ul_UpdatedAt := t\<rparr>)"
  "row_ok x \<Longrightarrow> row_ok (x\<lparr>ul_Status := statusCancel, ul_Error := e, ul_UpdatedAt := t\<rparr>)"
  by (auto simp: row_ok_def status_defs)

lemma shrinks_fail: "shrinks s (upload_fail uid msg now s)"
  unfolding upload_fail_def Let_def
  by (rule shrinks_update) (auto simp: row_ok_status split: option.split)

lemma shrinks_delete: "shrinks s (fst (Upload_Delete p uid now s))"
  by (auto simp: Upload_Delete_def row_ok_status intro!: shrinks_update split: option.split)

lemma shrinks_sweep: "shrinks s (Upload_Sweep now s)"
proof -
  have one: "shrinks s' (sweep_one now e s')" for e s'
    by (cases e) (auto simp: sweep_one_def row_ok_status intro!: shrinks_update, auto simp: shrinks_def)
  have "shrinks s' (fold (sweep_one now) es s')" for es s'
    by (induction es arbitrary: s') (auto intro: shrinks_trans one)
  then show ?thesis by (simp add: Upload_Sweep_def)
qed

lemma update_ok:
  assumes "\<And>x. map_of (us_rows s) uid = Some x \<Longrightarrow> row_ok x \<Longrightarrow> row_ok (f x)" "\<And>x. ul_Size (f x) = ul_Size x \<and> ul_Offset (f x) = ul_Offset x"
    and "us_rows s' = us_rows s"
  shows "shrinks s (update_upload uid f s')"
  using assms by (auto simp: shrinks_def updated_row)

lemma busy_ok: "um_ok m \<Longrightarrow> map_of (um_busy m) uid = Some f \<Longrightarrow> flight_ok (map_of (us_rows (um_s m)) uid) f"
  by (simp add: um_ok_def)

lemma busy_set:
  assumes "um_ok m" "shrinks (um_s m) s" "flight_ok (map_of (us_rows s) uid) f"
  shows "um_ok (m\<lparr>um_s := s, um_busy := set_key uid f (um_busy m)\<rparr>)"
proof -
  have "um_ok (m\<lparr>um_s := s, um_busy := um_busy m\<rparr>)" by (rule shrinks_ok [OF assms(1,2)])
  then show ?thesis using assms(3) by (simp add: um_ok_def)
qed

lemma failed_ok:
  assumes "um_ok m" "shrinks (um_s m) s"
  shows "um_ok (um_failed uid e now s m)"
  unfolding um_failed_def
  by (rule shrinks_ok [OF assms(1) shrinks_trans [OF assms(2) shrinks_fail]]) (auto split: if_splits)

lemma del_ok: "um_ok m \<Longrightarrow> shrinks (um_s m) s \<Longrightarrow> um_ok (m\<lparr>um_s := s, um_busy := del_key uid (um_busy m)\<rparr>)"
  by (rule shrinks_ok) (auto split: if_splits)

lemma create_um_ok:
  assumes ok: "um_ok m" and free: "\<not> has_key uid (um_busy m)"
  shows "um_ok (m\<lparr>um_s := fst (Upload_Create a uid p lib name bytes mime now (um_s m))\<rparr>)"
proof (cases "fst (Upload_Create a uid p lib name bytes mime now (um_s m)) = um_s m")
  case False
  then obtain u where u: "us_rows (fst (Upload_Create a uid p lib name bytes mime now (um_s m))) = us_rows (um_s m) @ [(uid, u)]"
    "0 < ul_Size u" "ul_Size u \<le> MaxSize" "ul_Offset u = 0" "ul_Status u = statusOpen" "ul_Filename u = sanitizeFilename name" "ul_Filename u \<noteq> []"
    by (auto simp: Upload_Create_def Let_def split: option.splits if_splits)
  have "name_ok (ul_Filename u)"
    using sanitized_names_stay [of name "ul_Filename u" 0] u by (simp add: candidate_def name_ok_def)
  then have row: "row_ok u" using u by (simp add: row_ok_def status_defs)
  have "map_of (us_rows (um_s m) @ [(uid, u)]) v = (if v = uid \<and> map_of (us_rows (um_s m)) uid = None then Some u else map_of (us_rows (um_s m)) v)" for v
    by (auto simp: map_add_def split: option.split)
  moreover have "map_of (um_busy m) uid = None" using free by (simp add: has_key_iff keys_def map_of_eq_None_iff)
  ultimately show ?thesis using ok row u(1) by (auto simp: um_ok_def split: if_splits)
next
  case True
  then show ?thesis using ok by simp
qed

lemma copy_rows: "us_rows (fst (write_copy u body broken s)) = us_rows s"
  by (auto simp: write_copy_def Let_def split: option.split)

lemma copy_count: "write_copy u body broken s = (s', Inr n) \<Longrightarrow> row_ok u \<Longrightarrow> 0 \<le> n \<and> n \<le> ul_Size u - ul_Offset u"
  by (auto simp: write_copy_def body_cap_def row_ok_def Let_def split: option.splits if_splits)

lemma check_state:
  "fst (finalize_check a uid u now s) = update_upload uid (\<lambda>r. r\<lparr>ul_Status := statusProc, ul_UpdatedAt := whole_seconds now\<rparr>) s"
  unfolding finalize_check_def Let_def by (simp split: option.split prod.split)

lemma check_shrinks:
  assumes "\<And>x. map_of (us_rows s) uid = Some x \<Longrightarrow> ul_Offset x = ul_Size x"
  shows "shrinks s (fst (finalize_check a uid u now s))"
  unfolding check_state
proof (rule update_ok)
  fix x assume "map_of (us_rows s) uid = Some x" "row_ok x"
  then show "row_ok (x\<lparr>ul_Status := statusProc, ul_UpdatedAt := whole_seconds now\<rparr>)"
    using assms [of x] by (simp add: row_ok_def)
qed simp_all

lemma check_name: "finalize_check a uid u now s = (s', Inr (dest, name)) \<Longrightarrow> name_ok (ul_Filename u) \<Longrightarrow> name_ok name"
proof -
  assume c: "finalize_check a uid u now s = (s', Inr (dest, name))" and ok: "name_ok (ul_Filename u)"
  obtain root fs where "uniqueDest root (ul_Filename u) fs = Some (dest, name)"
    using c unfolding finalize_check_def Let_def by (simp split: option.splits if_splits prod.splits)
  from uniqueDest_free(2) [OF this] candidate_ok [OF ok] show ?thesis by auto
qed

lemma shrunk_offset:
  "shrinks s s' \<Longrightarrow> \<forall>x. map_of (us_rows s) uid = Some x \<longrightarrow> ul_Offset x = ul_Size x \<Longrightarrow>
   \<forall>x. map_of (us_rows s') uid = Some x \<longrightarrow> ul_Offset x = ul_Size x"
  unfolding shrinks_def by (metis option.inject)

lemma commit_ok:
  assumes ok: "um_ok m" and rows: "us_rows s = us_rows (um_s m)" and u: "row_ok u" "0 \<le> n" "n \<le> ul_Size u - ul_Offset u"
    and size: "\<forall>x. map_of (us_rows (um_s m)) uid = Some x \<longrightarrow> ul_Size x = ul_Size u"
    and run: "write_commit uid u n now s = (s', r)"
  shows "case r of Inl e \<Rightarrow> s' = s | Inr u' \<Rightarrow> ul_Size u' = ul_Size u \<and> ul_Filename u' = ul_Filename u \<and>
    (ul_Offset u' \<ge> ul_Size u' \<longrightarrow> um_ok (m\<lparr>um_s := s', um_busy := set_key uid (Finalizing u') (um_busy m)\<rparr>)) \<and>
    um_ok (m\<lparr>um_s := s', um_busy := del_key uid (um_busy m)\<rparr>)"
proof (cases r)
  case (Inl e)
  then show ?thesis using run by (auto simp: write_commit_def split: option.splits if_splits)
next
  case (Inr u')
  let ?f = "\<lambda>r. r\<lparr>ul_Offset := ul_Offset u + n, ul_UpdatedAt := whole_seconds now, ul_ExpiresAt := whole_seconds (now + sessionTTL)\<rparr>"
  obtain row where row: "map_of (us_rows (um_s m)) uid = Some row" "ul_Status row = statusOpen" "s' = update_upload uid ?f s"
    "u' = u\<lparr>ul_Offset := ul_Offset u + n, ul_ExpiresAt := whole_seconds (now + sessionTTL)\<rparr>"
    using run Inr rows by (auto simp: write_commit_def split: option.splits if_splits)
  have map: "map_of (us_rows s') v = (if v = uid then Some (?f row) else map_of (us_rows (um_s m)) v)" for v
    unfolding row(3) updated_row rows using row(1) by simp
  have old: "row_ok row" using ok row(1) by (simp add: um_ok_def)
  have sz: "ul_Size row = ul_Size u" using size row(1) by blast
  then have new: "row_ok (?f row)" using old u row(2) by (auto simp: row_ok_def status_defs)
  have rows': "\<forall>v x. map_of (us_rows s') v = Some x \<longrightarrow> row_ok x" using map new ok by (auto simp: um_ok_def)
  have busy: "\<forall>v f. v \<noteq> uid \<longrightarrow> map_of (um_busy m) v = Some f \<longrightarrow> flight_ok (map_of (us_rows s') v) f"
    using ok map by (auto simp: um_ok_def)
  have fin: "flight_ok (map_of (us_rows s') uid) (Finalizing u')" if "ul_Offset u' \<ge> ul_Size u'"
    using that u row(4) map sz by (auto simp: row_ok_def)
  show ?thesis using Inr row(4) rows' busy fin by (auto simp: um_ok_def)
qed

lemma um_step_ok: "um_ok m \<Longrightarrow> um_ok (um_step m ev)"
proof (cases ev)
  case (EvCreate a uid p lib name bytes mime now)
  then show "um_ok m \<Longrightarrow> um_ok (um_step m ev)" using create_um_ok by simp
next
  case (EvStart p uid off body broken now)
  assume ok: "um_ok m"
  have "um_ok (m\<lparr>um_busy := set_key uid (Copying u body broken) (um_busy m)\<rparr>)" if "write_check p uid off now (um_s m) = Inr u" for u
  proof -
    have "map_of (us_rows (um_s m)) uid = Some u" using that by (auto simp: write_check_def split: option.splits if_splits)
    then have "flight_ok (map_of (us_rows (um_s m)) uid) (Copying u body broken)" using ok by (simp add: um_ok_def)
    then show ?thesis using busy_set [OF ok shrinks_refl] by simp
  qed
  then show ?thesis using ok by (simp add: EvStart split: sum.split)
next
  case (EvCopy uid now)
  assume ok: "um_ok m"
  show ?thesis
  proof (cases "\<exists>u body broken. map_of (um_busy m) uid = Some (Copying u body broken)")
    case True
    then obtain u body broken where b: "map_of (um_busy m) uid = Some (Copying u body broken)" by blast
    then have fl: "row_ok u" "\<forall>x. map_of (us_rows (um_s m)) uid = Some x \<longrightarrow> ul_Size x = ul_Size u" using busy_ok [OF ok b] by simp_all
    obtain s r where c: "write_copy u body broken (um_s m) = (s, r)" by fastforce
    have rows: "us_rows s = us_rows (um_s m)" using copy_rows [of u body broken "um_s m"] c by simp
    have same: "shrinks (um_s m) s" using rows by (simp add: shrinks_def)
    show ?thesis
    proof (cases r)
      case (Inl e)
      then show ?thesis using b c del_ok [OF ok same] by (simp add: EvCopy)
    next
      case (Inr n)
      then have n: "0 \<le> n" "n \<le> ul_Size u - ul_Offset u" using copy_count [of u body broken "um_s m" s n] c fl by auto
      obtain s' r' where w: "write_commit uid u n now s = (s', r')" by fastforce
      note k = commit_ok [OF ok rows fl(1) n fl(2) w]
      show ?thesis
      proof (cases r')
        case (Inl e)
        then have "s' = s" using k by simp
        then show ?thesis using b c Inr w Inl del_ok [OF ok same] by (simp add: EvCopy)
      next
        case (Inr u')
        then show ?thesis using b c \<open>r = Inr n\<close> w k by (auto simp: EvCopy)
      qed
    qed
  next
    case False
    then show ?thesis using ok by (auto simp: EvCopy split: option.split flight.split)
  qed
next
  case (EvCheck a uid now)
  assume ok: "um_ok m"
  show ?thesis
  proof (cases "\<exists>u. map_of (um_busy m) uid = Some (Finalizing u)")
    case True
    then obtain u where b: "map_of (um_busy m) uid = Some (Finalizing u)" by blast
    then have fl: "name_ok (ul_Filename u)" "\<forall>x. map_of (us_rows (um_s m)) uid = Some x \<longrightarrow> ul_Offset x = ul_Size x" using busy_ok [OF ok b] by simp_all
    obtain s r where c: "finalize_check a uid u now (um_s m) = (s, r)" by fastforce
    have sh: "shrinks (um_s m) s" using check_shrinks [of "um_s m" uid a u now] fl(2) c by simp
    show ?thesis
    proof (cases r)
      case (Inl e)
      then show ?thesis using b c failed_ok [OF ok sh] by (simp add: EvCheck)
    next
      case (Inr q)
      obtain dest name where q: "q = (dest, name)" by fastforce
      have "name_ok name" using check_name c Inr q fl(1) by blast
      then have "flight_ok (map_of (us_rows s) uid) (Placing u dest name)" using shrunk_offset [OF sh fl(2)] by simp
      then show ?thesis using b c Inr q busy_set [OF ok sh] by (simp add: EvCheck)
    qed
  next
    case False
    then show ?thesis using ok by (auto simp: EvCheck split: option.split flight.split)
  qed
next
  case (EvPlace a uid now)
  assume ok: "um_ok m"
  show ?thesis
  proof (cases "\<exists>u dest name. map_of (um_busy m) uid = Some (Placing u dest name)")
    case True
    then obtain u dest name where b: "map_of (um_busy m) uid = Some (Placing u dest name)" by blast
    then have fl: "flight_ok (map_of (us_rows (um_s m)) uid) (Finishing name)" using busy_ok [OF ok b] by simp
    obtain s r where c: "finalize_place a u dest (um_s m) = (s, r)" by fastforce
    then have rows: "us_rows s = us_rows (um_s m)" by (auto simp: finalize_place_def split: prod.splits)
    then have sh: "shrinks (um_s m) s" by (simp add: shrinks_def)
    show ?thesis using b c failed_ok [OF ok sh] busy_set [OF ok sh] fl rows by (cases r) (auto simp: EvPlace)
  next
    case False
    then show ?thesis using ok by (auto simp: EvPlace split: option.split flight.split)
  qed
next
  case (EvFinish a uid now)
  assume ok: "um_ok m"
  show ?thesis
  proof (cases "\<exists>name. map_of (um_busy m) uid = Some (Finishing name)")
    case True
    then obtain name where b: "map_of (um_busy m) uid = Some (Finishing name)" by blast
    then have fl: "name_ok name" "\<forall>x. map_of (us_rows (um_s m)) uid = Some x \<longrightarrow> ul_Offset x = ul_Size x" using busy_ok [OF ok b] by simp_all
    obtain s r where c: "finalize_done a uid name now (um_s m) = (s, r)" by fastforce
    have sh: "shrinks (um_s m) s"
      using c fl by (auto simp: finalize_done_def row_ok_def status_defs intro!: update_ok split: prod.splits if_splits)
    show ?thesis using b c failed_ok [OF ok sh] del_ok [OF ok sh] by (cases r) (auto simp: EvFinish)
  next
    case False
    then show ?thesis using ok by (auto simp: EvFinish split: option.split flight.split)
  qed
next
  case (EvDelete p uid now)
  assume "um_ok m"
  then show ?thesis using shrinks_ok [OF _ shrinks_delete, of m "um_busy m" p uid now] by (simp add: EvDelete)
next
  case (EvSweep now)
  assume "um_ok m"
  then show ?thesis using shrinks_ok [OF _ shrinks_sweep, of m "um_busy m" now] by (simp add: EvSweep)
qed

interpretation uploading: invariant_machine um_step um_ok
  by unfold_locales (rule um_step_ok)

text \<open>C27. Every row is well-typed, whatever requests interleave: sizes and offsets are within their bounds, the
  status is one of the five, the name stays in its directory, and an upload is only processed and
  complete when every byte of it has arrived.\<close>

theorem uploads_typed:
  assumes "us_rows (um_s m0) = []" "um_busy m0 = []" "map_of (us_rows (um_s (foldl um_step m0 evs))) uid = Some u"
  shows "0 < ul_Size u \<and> ul_Size u \<le> MaxSize \<and> 0 \<le> ul_Offset u \<and> ul_Offset u \<le> ul_Size u \<and>
    ul_Status u \<in> {statusOpen, statusProc, statusDone, statusFail, statusCancel} \<and>
    CHR ''/'' \<notin> set (ul_Filename u) \<and> ul_Filename u \<noteq> [] \<and>
    (ul_Status u \<in> {statusProc, statusDone} \<longrightarrow> ul_Offset u = ul_Size u)"
proof -
  have "um_ok m0" using assms by (simp add: um_ok_def)
  then have "um_ok (foldl um_step m0 evs)" by (rule uploading.run_keeps)
  then have "row_ok u" using assms(3) by (simp add: um_ok_def)
  then show ?thesis by (auto simp: row_ok_def name_ok_def)
qed

section \<open>One upload on its own\<close>

text \<open>C28. Nobody writes without leave: bytes are accepted only from an administrator with the permission, who
  created the upload, while it is open and not expired, and at its current offset; any other request
  is an error and changes nothing.\<close>

theorem write_gate:
  "(\<exists>u. map_of (us_rows s) uid = Some u \<and> CanUpload p \<and> ul_CreatedBy u \<in> {[], ID p} \<and> ul_Status u = statusOpen \<and>
      now \<le> ul_ExpiresAt u \<and> off = ul_Offset u) \<or>
   (\<exists>e. WriteAt a p uid off body broken now s = (s, Inl e))"
proof (cases "write_check p uid off now s")
  case (Inl e)
  then show ?thesis by (simp add: WriteAt_def)
next
  case (Inr u)
  then have u: "map_of (us_rows s) uid = Some u" "upload_authorize p u True = None" "ul_Status u = statusOpen" "now \<le> ul_ExpiresAt u" "off = ul_Offset u"
    by (auto simp: write_check_def upload_expired_def not_less split: option.splits if_splits)
  then have "CanUpload p" and owner: "ul_CreatedBy u = [] \<or> ul_CreatedBy u = (case p of Some q \<Rightarrow> p_UserID q | None \<Rightarrow> [])"
    by (auto simp: upload_authorize_def split: if_splits)
  moreover from this have "ID p = (case p of Some q \<Rightarrow> p_UserID q | None \<Rightarrow> [])"
    using ID_user by (auto simp: CanUpload_def)
  ultimately show ?thesis using u by auto
qed

fun send_chunks :: "finish_answers \<Rightarrow> principal option \<Rightarrow> string \<Rightarrow> i64 \<Rightarrow> (string \<times> gtime) list \<Rightarrow> upload_state \<Rightarrow> upload_state" where
  "send_chunks a p uid off [] s = s"
| "send_chunks a p uid off ((c, t) # cs) s = send_chunks a p uid (off + int (length c)) cs (fst (WriteAt a p uid off c False t s))"

definition sending :: "upload_state \<Rightarrow> upload \<Rightarrow> string \<Rightarrow> string \<Rightarrow> gtime \<Rightarrow> nat \<Rightarrow> upload_state \<Rightarrow> bool" where
  "sending s0 u0 uid data t1 off s \<longleftrightarrow>
     (\<exists>u. map_of (us_rows s) uid = Some u \<and> ul_Size u = int (length data) \<and> ul_Offset u = int off \<and> ul_Status u = statusOpen \<and>
        ul_CreatedBy u = ul_CreatedBy u0 \<and> ul_Staging u = ul_Staging u0 \<and> ul_Filename u = ul_Filename u0 \<and> t1 \<le> ul_ExpiresAt u) \<and>
     map_of (us_fs s) (ul_Staging u0) = Some (take off data) \<and>
     (\<forall>path. path \<noteq> ul_Staging u0 \<longrightarrow> map_of (us_fs s) path = map_of (us_fs s0) path)"

lemma chunk_written:
  assumes s: "sending s0 u0 uid data t1 off s" and p: "upload_authorize p u0 True = None"
    and c: "data = d @ c @ rest" "length d = off" "int (length c) \<le> MaxChunk" and t: "t \<le> t1" "t1 \<le> whole_seconds (t + sessionTTL)"
  shows "\<exists>s1 u. sending s0 u0 uid data t1 (off + length c) s1 \<and> map_of (us_rows s1) uid = Some (u\<lparr>ul_UpdatedAt := whole_seconds t\<rparr>) \<and>
    ul_Offset u = int (off + length c) \<and> ul_Size u = int (length data) \<and> ul_Staging u = ul_Staging u0 \<and> ul_Filename u = ul_Filename u0 \<and>
    WriteAt a p uid (int off) c False t s =
      (if rest = [] then (case finalize a uid u t s1 of
                            (s, Some e) \<Rightarrow> (upload_fail uid (error_text e) t s, Inl e)
                          | (s, None) \<Rightarrow> (s, case map_of (us_rows s) uid of None \<Rightarrow> Inl ErrUploadNotFound | Some u \<Rightarrow> Inr u))
       else (s1, Inr u))"
proof -
  obtain u where u: "map_of (us_rows s) uid = Some u" "ul_Size u = int (length data)" "ul_Offset u = int off" "ul_Status u = statusOpen"
    "ul_CreatedBy u = ul_CreatedBy u0" "ul_Staging u = ul_Staging u0" "ul_Filename u = ul_Filename u0" "t1 \<le> ul_ExpiresAt u"
    using s by (auto simp: sending_def)
  have "upload_authorize p u True = upload_authorize p u0 True" by (simp add: upload_authorize_def u(5))
  then have check: "write_check p uid (int off) t s = Inr u" using u t c(1,2) p by (simp add: write_check_def upload_expired_def)
  have cap: "take (body_cap u) c = c"
    using c(1,2) by (intro take_all) (auto simp: body_cap_def u min_def, use c(3) in linarith)
  have staged: "map_of (us_fs s) (ul_Staging u) = Some (take off data)" using s u(6) by (simp add: sending_def)
  have bytes: "write_bytes off c (take off data) = take (off + length c) data" using c(1,2) by (simp add: write_bytes_def)
  let ?f = "\<lambda>r. r\<lparr>ul_Offset := int off + int (length c), ul_UpdatedAt := whole_seconds t, ul_ExpiresAt := whole_seconds (t + sessionTTL)\<rparr>"
  define su where "su = s\<lparr>us_fs := set_key (ul_Staging u) (take (off + length c) data) (us_fs s)\<rparr>"
  define s1 where "s1 = update_upload uid ?f su"
  define u1 where "u1 = u\<lparr>ul_Offset := int off + int (length c), ul_ExpiresAt := whole_seconds (t + sessionTTL)\<rparr>"
  have copy: "write_copy u c False s = (su, Inr (int (length c)))"
    using staged cap bytes u(3) by (simp add: write_copy_def Let_def su_def)
  have "us_rows su = us_rows s" by (simp add: su_def)
  then have commit: "write_commit uid u (int (length c)) t su = (s1, Inr u1)"
    and row: "map_of (us_rows s1) uid = Some (u1\<lparr>ul_UpdatedAt := whole_seconds t\<rparr>)"
    using u(1,3,4) by (simp_all add: write_commit_def s1_def u1_def updated_row)
  have run: "WriteAt a p uid (int off) c False t s =
      (if ul_Offset u1 \<ge> ul_Size u1 then (case finalize a uid u1 t s1 of
                            (s, Some e) \<Rightarrow> (upload_fail uid (error_text e) t s, Inl e)
                          | (s, None) \<Rightarrow> (s, case map_of (us_rows s) uid of None \<Rightarrow> Inl ErrUploadNotFound | Some u \<Rightarrow> Inr u))
       else (s1, Inr u1))"
    by (simp add: WriteAt_def check copy commit)
  have u1: "ul_Offset u1 = int (off + length c)" "ul_Size u1 = int (length data)" "ul_Staging u1 = ul_Staging u0" "ul_Filename u1 = ul_Filename u0"
    "ul_Status u1 = statusOpen" "ul_CreatedBy u1 = ul_CreatedBy u0" "ul_ExpiresAt u1 = whole_seconds (t + sessionTTL)"
    using u by (simp_all add: u1_def)
  have "us_fs s1 = set_key (ul_Staging u0) (take (off + length c) data) (us_fs s)" using u(6) by (simp add: s1_def su_def)
  then have "sending s0 u0 uid data t1 (off + length c) s1"
    using s row u1 t(2) by (auto simp: sending_def)
  moreover have "ul_Offset u1 \<ge> ul_Size u1 \<longleftrightarrow> rest = []" using u1(1,2) c(1,2) by auto
  ultimately show ?thesis using row u1 run by (intro exI [of _ s1] exI [of _ u1]) simp
qed

lemma finished_upload:
  assumes s: "sending s0 u0 uid data t1 (length data) s1" and u: "ul_Size u = int (length data)" "ul_Staging u = ul_Staging u0" "ul_Filename u = ul_Filename u0"
    and good: "fa_sync a" "fa_video a \<noteq> Some False" "fa_lib a = Some lb" "fa_contained a" "fa_renames a \<or> fa_copies a" "fa_ingest a"
    and dest: "uniqueDest (lb_RootPath lb) (ul_Filename u0) (us_fs s0) = Some (dest, name)" and old: "map_of (us_fs s0) (ul_Staging u0) = Some x"
  shows "\<exists>s2 row. finalize a uid u t s1 = (s2, None) \<and> map_of (us_fs s2) dest = Some data \<and> map_of (us_fs s2) (ul_Staging u0) = None \<and>
    (\<forall>path. path \<noteq> dest \<and> path \<noteq> ul_Staging u0 \<longrightarrow> map_of (us_fs s2) path = map_of (us_fs s0) path) \<and>
    map_of (us_rows s2) uid = Some row \<and> ul_Status row = statusDone \<and> ul_Filename row = name"
proof -
  have staged: "map_of (us_fs s1) (ul_Staging u0) = Some data" and others: "\<And>path. path \<noteq> ul_Staging u0 \<Longrightarrow> map_of (us_fs s1) path = map_of (us_fs s0) path"
    using s by (simp_all add: sending_def)
  have "set (keys (us_fs s1)) = set (keys (us_fs s0))"
  proof -
    have "dom (map_of (us_fs s1)) = dom (map_of (us_fs s0))" using staged others old by (auto simp: dom_def) (metis option.distinct(1))+
    then show ?thesis by (simp add: dom_map_of_conv_image_fst keys_def)
  qed
  then have uq: "uniqueDest (lb_RootPath lb) (ul_Filename u) (us_fs s1) = Some (dest, name)" using uniqueDest_cong dest u(3) by metis
  have free: "map_of (us_fs s1) dest = None" by (rule uniqueDest_free(1) [OF uq])
  then have diff: "dest \<noteq> ul_Staging u0" using staged by auto
  let ?s1 = "update_upload uid (\<lambda>r. r\<lparr>ul_Status := statusProc, ul_UpdatedAt := whole_seconds t\<rparr>) s1"
  have check: "finalize_check a uid u t s1 = (?s1, Inr (dest, name))"
    unfolding finalize_check_def Let_def using staged good uq u by simp
  define fs where "fs = fst (atomicPlace (fa_renames a) (fa_copies a) (ul_Staging u) dest (us_fs s1))"
  have nokey: "\<not> has_key dest (us_fs s1)" using free by (simp add: has_key_iff keys_def map_of_eq_None_iff)
  have place: "finalize_place a u dest ?s1 = (?s1\<lparr>us_fs := fs\<rparr>, None)" "map_of fs = ((map_of (us_fs s1))(dest \<mapsto> data))(ul_Staging u0 := None)"
    using good(5) staged u(2) nokey diff by (auto simp: finalize_place_def atomicPlace_def fs_def fun_upd_twist split: prod.splits)
  obtain m k i where item: "fa_item a = (m, k, i)" by (metis prod_cases3)
  obtain row where row: "map_of (us_rows s1) uid = Some row" using s by (auto simp: sending_def)
  let ?g = "\<lambda>r. r\<lparr>ul_Status := statusDone, ul_Filename := name, ul_UpdatedAt := whole_seconds t, ul_MediaFileID := m, ul_ItemKind := k, ul_ItemID := i, ul_Error := []\<rparr>"
  have fin: "finalize a uid u t s1 = (update_upload uid ?g (?s1\<lparr>us_fs := fs\<rparr>), None)"
    using good(6) item by (simp add: finalize_def check place(1) finalize_done_def)
  have "map_of (us_rows (update_upload uid ?g (?s1\<lparr>us_fs := fs\<rparr>))) uid = map_option ?g (map_of (us_rows ?s1) uid)"
    by (simp add: updated_row)
  also have "\<dots> = Some (?g (row\<lparr>ul_Status := statusProc, ul_UpdatedAt := whole_seconds t\<rparr>))" using row by (simp add: updated_row)
  finally show ?thesis using fin place(2) diff others by auto
qed

text \<open>C29. What is uploaded is what was sent: if the administrator who created an upload sends its bytes in chunks, one
  after the other within a day, and the checks of the finished file succeed, then the library holds
  exactly those bytes under the first free name, the staging file is gone, no other file has changed,
  and the upload is complete.\<close>

theorem upload_roundtrip:
  assumes create: "Upload_Create ca uid p lib raw (int (length data)) mime t0 s = (s0, Inr u0)"
    and chunks: "concat (map fst cs) = data" "\<forall>(c, t) \<in> set cs. int (length c) \<le> MaxChunk \<and> c \<noteq> [] \<and> t0 \<le> t \<and> t \<le> t0 + seconds 86399"
    and good: "fa_sync a" "fa_video a \<noteq> Some False" "fa_lib a = Some lb" "fa_contained a" "fa_renames a \<or> fa_copies a" "fa_ingest a"
    and dest: "uniqueDest (lb_RootPath lb) (ul_Filename u0) (us_fs s0) = Some (dest, name)"
    and sent: "s' = send_chunks a p uid 0 cs s0"
  shows "map_of (us_fs s') dest = Some data \<and> map_of (us_fs s') (ul_Staging u0) = None \<and>
    (\<forall>path. path \<noteq> dest \<and> path \<noteq> ul_Staging u0 \<longrightarrow> map_of (us_fs s') path = map_of (us_fs s) path) \<and>
    (\<exists>row. map_of (us_rows s') uid = Some row \<and> ul_Status row = statusDone \<and> ul_Filename row = name)"
proof -
  have s0: "us_rows s0 = us_rows s @ [(uid, u0)]" "us_fs s0 = us_fs s @ [(ul_Staging u0, [])]" "\<not> has_key uid (us_rows s)" "\<not> has_key (ul_Staging u0) (us_fs s)"
    and u0: "ul_Size u0 = int (length data)" "ul_Offset u0 = 0" "ul_Status u0 = statusOpen" "ul_ExpiresAt u0 = whole_seconds (t0 + sessionTTL)"
      "CanUpload p" "ul_CreatedBy u0 = (case p of Some q \<Rightarrow> p_UserID q | None \<Rightarrow> [])" and pos: "data \<noteq> []"
    using create by (auto simp: Upload_Create_def Let_def split: option.splits if_splits)
  let ?t1 = "t0 + seconds 86399"
  have ttl: "?t1 \<le> whole_seconds (t + sessionTTL)" if "t0 \<le> t" for t
    using that whole_seconds_bounds(2) [of "t + sessionTTL"] by (simp add: sessionTTL_def seconds_def)
  have p: "upload_authorize p u0 True = None" using u0(5,6) by (simp add: upload_authorize_def)
  have none: "map_of (us_rows s) uid = None" "map_of (us_fs s) (ul_Staging u0) = None"
    using s0(3,4) by (simp_all add: has_key_iff keys_def map_of_eq_None_iff)
  have staged0: "map_of (us_fs s0) (ul_Staging u0) = Some []" using none(2) by (simp add: s0 map_add_def)
  have start: "sending s0 u0 uid data ?t1 0 s0"
    using u0 ttl [of t0] none by (auto simp: sending_def s0 map_add_def)
  have run: "\<exists>row. map_of (us_fs (send_chunks a p uid (int off) cs x)) dest = Some data \<and> map_of (us_fs (send_chunks a p uid (int off) cs x)) (ul_Staging u0) = None \<and>
      (\<forall>path. path \<noteq> dest \<and> path \<noteq> ul_Staging u0 \<longrightarrow> map_of (us_fs (send_chunks a p uid (int off) cs x)) path = map_of (us_fs s0) path) \<and>
      map_of (us_rows (send_chunks a p uid (int off) cs x)) uid = Some row \<and> ul_Status row = statusDone \<and> ul_Filename row = name"
    if "sending s0 u0 uid data ?t1 off x" "data = d @ concat (map fst cs)" "length d = off" "cs \<noteq> []"
      "\<forall>(c, t) \<in> set cs. int (length c) \<le> MaxChunk \<and> c \<noteq> [] \<and> t0 \<le> t \<and> t \<le> ?t1" for off x d and cs :: "(string \<times> gtime) list"
    using that
  proof (induction cs arbitrary: off x d)
    case (Cons ct cs)
    obtain c t where ct: "ct = (c, t)" by fastforce
    have c: "int (length c) \<le> MaxChunk" "c \<noteq> []" "t0 \<le> t" "t \<le> ?t1" using Cons.prems(5) ct by auto
    have data: "data = d @ c @ concat (map fst cs)" using Cons.prems(2) ct by simp
    obtain s1 u where w: "sending s0 u0 uid data ?t1 (off + length c) s1" "ul_Size u = int (length data)" "ul_Staging u = ul_Staging u0" "ul_Filename u = ul_Filename u0"
      "WriteAt a p uid (int off) c False t x =
      (if concat (map fst cs) = [] then (case finalize a uid u t s1 of
                            (s, Some e) \<Rightarrow> (upload_fail uid (error_text e) t s, Inl e)
                          | (s, None) \<Rightarrow> (s, case map_of (us_rows s) uid of None \<Rightarrow> Inl ErrUploadNotFound | Some u \<Rightarrow> Inr u))
       else (s1, Inr u))"
      using chunk_written [OF Cons.prems(1) p data Cons.prems(3) c(1,4) ttl [OF c(3)]] by blast
    show ?case
    proof (cases cs)
      case Nil
      then have fin: "sending s0 u0 uid data ?t1 (length data) s1" using w(1) data Cons.prems(3) by simp
      from finished_upload [OF fin w(2-4) good dest staged0, of t] obtain s2 row where f: "finalize a uid u t s1 = (s2, None)" "map_of (us_fs s2) dest = Some data" "map_of (us_fs s2) (ul_Staging u0) = None"
        "\<forall>path. path \<noteq> dest \<and> path \<noteq> ul_Staging u0 \<longrightarrow> map_of (us_fs s2) path = map_of (us_fs s0) path"
        "map_of (us_rows s2) uid = Some row" "ul_Status row = statusDone" "ul_Filename row = name"
        by blast
      then show ?thesis using ct Nil w(5) by auto
    next
      case (Cons ct' cs')
      then have ne: "concat (map fst cs) \<noteq> []" using Cons.prems(5) by auto
      have "sending s0 u0 uid data ?t1 (off + length c) s1" "data = (d @ c) @ concat (map fst cs)" "length (d @ c) = off + length c" "cs \<noteq> []"
        using w(1) data Cons.prems(3) Cons by auto
      note IH = Cons.IH [OF this]
      have "WriteAt a p uid (int off) c False t x = (s1, Inr u)" unfolding w(5) using ne by (rule if_not_P)
      then show ?thesis using IH Cons.prems(5) ct by simp
    qed
  qed simp
  have "cs \<noteq> []" using chunks(1) pos by auto
  from run [OF start, of "[]" cs] this chunks
  obtain row where fin: "map_of (us_fs s') dest = Some data" "map_of (us_fs s') (ul_Staging u0) = None"
    "\<forall>path. path \<noteq> dest \<and> path \<noteq> ul_Staging u0 \<longrightarrow> map_of (us_fs s') path = map_of (us_fs s0) path"
    "map_of (us_rows s') uid = Some row" "ul_Status row = statusDone" "ul_Filename row = name"
    by (auto simp: sent)
  moreover have "map_of (us_fs s0) path = map_of (us_fs s) path" if "path \<noteq> ul_Staging u0" for path
    using that by (auto simp: s0 map_add_def split: option.split)
  ultimately show ?thesis by auto
qed

section \<open>Steps and requests\<close>

lemma not_busy [simp]: "map_of (del_key uid b) uid = None" by simp


section \<open>Interleavings that go wrong\<close>

lemma checkedD:
  assumes "finalize_check a uid u now s = (s1, Inr (dest, name))" "fa_lib a = Some lb"
  shows "us_fs s1 = us_fs s" "\<exists>x. map_of (us_fs s) (ul_Staging u) = Some x" "uniqueDest (lb_RootPath lb) (ul_Filename u) (us_fs s) = Some (dest, name)"
proof -
  show "us_fs s1 = us_fs s" using check_state [of a uid u now s] assms by simp
  show "\<exists>x. map_of (us_fs s) (ul_Staging u) = Some x"
    using assms unfolding finalize_check_def Let_def by (cases "map_of (us_fs s) (ul_Staging u)") simp_all
  show "uniqueDest (lb_RootPath lb) (ul_Filename u) (us_fs s) = Some (dest, name)"
    using assms unfolding finalize_check_def Let_def by (simp split: option.splits if_splits prod.splits)
qed

text \<open>Two uploads of the same name can lose a file: the free name is looked up before the file is moved there,
  under the lock of its own upload only. If two uploads find the same name free, the second move
  replaces the file of the first by a rename, and across file systems fails and removes it.\<close>

theorem same_name_uploads_lose_file:
  assumes f1: "finalize_check a1 id1 u1 t1 s = (s1, Inr (dest, n1))" and f2: "finalize_check a2 id2 u2 t2 s1 = (s2, Inr (dest2, n2))"
    and same: "fa_lib a1 = Some lb" "fa_lib a2 = Some lb" "ul_Filename u2 = ul_Filename u1" "ul_Staging u1 \<noteq> ul_Staging u2"
    and place1: "finalize_place a1 u1 dest s2 = (s3, None)" and place2: "finalize_place a2 u2 dest2 s3 = (s4, r)"
  shows "dest2 = dest \<and> map_of (us_fs s4) (ul_Staging u1) = None \<and>
    map_of (us_fs s4) dest = (if fa_renames a2 then map_of (us_fs s) (ul_Staging u2) else None) \<and>
    r = (if fa_renames a2 then None else Some ErrIO)"
proof -
  note c1 = checkedD [OF f1 same(1)] and c2 = checkedD [OF f2 same(2)]
  have dest2: "dest2 = dest" using c1 c2 same(3) by simp
  have fs: "us_fs s2 = us_fs s" using c1(1) c2(1) by simp
  obtain x1 x2 where st: "map_of (us_fs s) (ul_Staging u1) = Some x1" "map_of (us_fs s) (ul_Staging u2) = Some x2" using c1(1,2) c2(2) by auto
  have free: "map_of (us_fs s) dest = None" by (rule uniqueDest_free(1) [OF c1(3)])
  have diff: "dest \<noteq> ul_Staging u1" "dest \<noteq> ul_Staging u2" using free st by auto
  have m3: "map_of (us_fs s3) = ((map_of (us_fs s))(dest \<mapsto> x1))(ul_Staging u1 := None)"
    using place1 st(1) fs diff by (auto simp: finalize_place_def atomicPlace_def fun_upd_twist split: prod.splits if_splits)
  have key: "has_key dest (us_fs s3)"
  proof -
    have "map_of (us_fs s3) dest = Some x1" using m3 diff by simp
    from map_of_in_keys [OF this] show ?thesis by (simp add: has_key_iff)
  qed
  have st3: "map_of (us_fs s3) (ul_Staging u2) = Some x2" using m3 st(2) diff same(4) by simp
  show ?thesis using place2 st3 key m3 diff same(4) st(2)
    by (auto simp: dest2 finalize_place_def atomicPlace_def split: prod.splits if_splits)
qed

text \<open>A cancelled upload can still complete: cancelling takes no lock and looks at no status, so if it comes
  while the file is being catalogued, the client is told that the upload is cancelled, and then it
  becomes complete.\<close>

theorem cancelled_upload_completes:
  assumes busy: "map_of (um_busy m) uid = Some (Finishing name)" and cancel: "Upload_Delete p uid t (um_s m) = (s1, None)"
    and good: "fa_ingest a" and run: "m1 = um_step m (EvDelete p uid t)" "m2 = um_step m1 (EvFinish a uid t')"
  shows "map_option ul_Status (map_of (us_rows (um_s m1)) uid) = Some statusCancel \<and>
    map_option ul_Status (map_of (us_rows (um_s m2)) uid) = Some statusDone"
proof -
  obtain u where u: "map_of (us_rows (um_s m)) uid = Some u" using cancel by (auto simp: Upload_Delete_def split: option.splits)
  have one: "map_option ul_Status (map_of (us_rows s1) uid) = Some statusCancel"
    using cancel u by (auto simp: Upload_Delete_def updated_row split: option.splits)
  then obtain x where x: "map_of (us_rows s1) uid = Some x" by auto
  obtain k i j where item: "fa_item a = (k, i, j)" by (metis prod_cases3)
  have "map_option ul_Status (map_of (us_rows (um_s m2)) uid) = Some statusDone"
    using busy cancel good x by (simp add: run finalize_done_def item updated_row)
  then show ?thesis using one cancel by (simp add: run)
qed

text \<open>A failed upload can leave its file: when the file has been moved into the library and cataloguing it
  fails, the upload is reported and recorded as failed, and the file stays.\<close>

theorem failed_upload_leaves_file:
  assumes check: "finalize_check a uid u t s = (s1, Inr (dest, name))" "fa_lib a = Some lb" and place: "finalize_place a u dest s1 = (s2, None)"
    and bad: "\<not> fa_ingest a" and row: "map_of (us_rows s) uid = Some x" "ul_Staging x = ul_Staging u" and stored: "map_of (us_fs s) (ul_Staging u) = Some content"
  shows "finalize a uid u t s = (s2, Some ErrIO) \<and> map_of (us_fs (upload_fail uid msg t s2)) dest = Some content \<and>
    map_option ul_Status (map_of (us_rows (upload_fail uid msg t s2)) uid) = Some statusFail"
proof -
  note c = checkedD [OF check]
  have diff: "dest \<noteq> ul_Staging u" using uniqueDest_free(1) [OF c(3)] stored by auto
  have placed: "map_of (us_fs s2) dest = Some content"
    using place stored c(1) diff by (auto simp: finalize_place_def atomicPlace_def split: prod.splits if_splits)
  have "us_rows s1 = us_rows (update_upload uid (\<lambda>r. r\<lparr>ul_Status := statusProc, ul_UpdatedAt := whole_seconds t\<rparr>) s)"
    using check_state [of a uid u t s] check(1) by simp
  then have "map_of (us_rows s1) uid = Some (x\<lparr>ul_Status := statusProc, ul_UpdatedAt := whole_seconds t\<rparr>)"
    using row(1) by (simp add: updated_row)
  moreover have "us_rows s2 = us_rows s1" using place by (auto simp: finalize_place_def split: prod.splits)
  ultimately have row2: "map_of (us_rows s2) uid = Some (x\<lparr>ul_Status := statusProc, ul_UpdatedAt := whole_seconds t\<rparr>)" by simp
  have "finalize a uid u t s = (s2, Some ErrIO)" using check place bad by (simp add: finalize_def finalize_done_def)
  then show ?thesis using row2 placed diff row(2) by (simp add: upload_fail_def Let_def updated_row)
qed

section \<open>A concrete library\<close>

lemma uniqueDest_first:
  assumes "\<not> has_key (join_path root n) fs"
  shows "uniqueDest root n fs = Some (join_path root n, n)"
proof -
  have a: "attempts = 0 # [Suc 0..<1000]" unfolding attempts_def by (rule upt_conv_Cons) simp
  have z: "candidate n 0 = n" by (simp add: candidate_def)
  show ?thesis unfolding uniqueDest_def a find.simps z using assms by (simp only: if_True not_False_eq_True option.case z)
qed

definition up_admin :: principal where
  "up_admin = \<lparr>p_Kind = ''user'', p_UserID = ''ann'', p_GuestSessionID = [], p_MediaKind = [], p_MediaID = [], p_IsAdmin = True,
     p_DisplayName = [], p_Username = ''ann'', p_CanDownload = False, p_Permissions = [], p_PartyOnly = False\<rparr>"

definition up_lib :: upload_library where
  "up_lib = \<lparr>lb_RootPath = ''/m'', lb_ContentType = ''movies'', lb_UploadsEnabled = True\<rparr>"

definition up_answers :: create_answers where
  "up_answers = \<lparr>ca_lib = Some up_lib, ca_parse = (\<lambda>_. ''movie''), ca_writable = True, ca_staging = ''/s'', ca_mkdir = True\<rparr>"

definition up_finish :: "bool \<Rightarrow> bool \<Rightarrow> finish_answers" where
  "up_finish renames ingest = \<lparr>fa_sync = True, fa_video = Some True, fa_lib = Some up_lib, fa_contained = True, fa_renames = renames,
     fa_copies = True, fa_ingest = ingest, fa_item = (''f'', ''movie'', ''i'')\<rparr>"

definition up_row :: "string \<Rightarrow> i64 \<Rightarrow> string \<Rightarrow> upload" where
  "up_row st off status = \<lparr>ul_LibraryID = ''l'', ul_Filename = ''x.mkv'', ul_Staging = st, ul_Size = 3, ul_Offset = off, ul_Status = status,
     ul_CreatedBy = ''ann'', ul_ExpiresAt = seconds 86400, ul_UpdatedAt = 0, ul_Error = [], ul_MediaFileID = [], ul_ItemKind = [], ul_ItemID = []\<rparr>"

lemma up_name: "sanitizeFilename '' x.mkv'' = ''x.mkv''" by code_simp

theorem sanitized_names_stay_witness:
  "sanitizeFilename '' x.mkv'' = ''x.mkv'' \<and> CHR ''/'' \<notin> set (candidate ''x.mkv'' 1) \<and> candidate ''x.mkv'' 1 = ''x (2).mkv''"
proof -
  have "candidate ''x.mkv'' 1 = ''x (2).mkv''" by code_simp
  then show ?thesis using sanitized_names_stay [OF up_name, of 1] up_name by simp
qed

definition up_new :: upload_state where
  "up_new = \<lparr>us_rows = [(''a'', up_row ''/s/a'' 0 ''open'')], us_fs = [(''/s/a'', [])]\<rparr>"

lemma up_created:
  "Upload_Create up_answers ''a'' (Some up_admin) ''l'' '' x.mkv'' 3 [] 0 \<lparr>us_rows = [], us_fs = []\<rparr> = (up_new, Inr (up_row ''/s/a'' 0 ''open''))"
proof -
  have "CanUpload (Some up_admin)" by (simp add: CanUpload_def up_admin_def IsUser_def KindUser_def HasPerm_def)
  moreover have "mimeOK []" by code_simp
  ultimately show ?thesis
    unfolding Upload_Create_def Let_def up_name
    by (simp add: up_answers_def up_lib_def libraryKindOK_def has_key_def keys_def up_new_def up_row_def up_admin_def MaxSize_def
        join_path_def statusOpen_def sessionTTL_def seconds_def whole_seconds_def)
qed

theorem uploads_typed_witness:
  "\<exists>u. map_of (us_rows (um_s (foldl um_step \<lparr>um_s = \<lparr>us_rows = [], us_fs = []\<rparr>, um_busy = []\<rparr>
        [EvCreate up_answers ''a'' (Some up_admin) ''l'' '' x.mkv'' 3 [] 0]))) ''a'' = Some u \<and>
    0 < ul_Size u \<and> ul_Size u \<le> MaxSize \<and> 0 \<le> ul_Offset u \<and> ul_Offset u \<le> ul_Size u \<and> CHR ''/'' \<notin> set (ul_Filename u)"
proof -
  let ?m = "\<lparr>um_s = \<lparr>us_rows = [], us_fs = []\<rparr>, um_busy = []\<rparr> :: upload_machine"
  let ?evs = "[EvCreate up_answers ''a'' (Some up_admin) ''l'' '' x.mkv'' 3 [] 0]"
  have row: "map_of (us_rows (um_s (foldl um_step ?m ?evs))) ''a'' = Some (up_row ''/s/a'' 0 ''open'')"
    by (simp add: up_created has_key_def keys_def) (simp add: up_new_def)
  show ?thesis using uploads_typed [OF _ _ row] row by auto
qed

theorem upload_roundtrip_witness:
  "map_of (us_fs (send_chunks (up_finish True True) (Some up_admin) ''a'' 0 [(''ab'', 0), (''c'', seconds 5)] up_new)) ''/m/x.mkv'' = Some ''abc''"
proof -
  have u: "uniqueDest (lb_RootPath up_lib) (ul_Filename (up_row ''/s/a'' 0 ''open'')) (us_fs up_new) = Some (''/m/x.mkv'', ''x.mkv'')"
    using uniqueDest_first [of "''/m''" "''x.mkv''" "us_fs up_new"] by (simp add: up_lib_def up_row_def join_path_def up_new_def has_key_def keys_def)
  have c: "Upload_Create up_answers ''a'' (Some up_admin) ''l'' '' x.mkv'' (int (length ''abc'')) [] 0 \<lparr>us_rows = [], us_fs = []\<rparr> = (up_new, Inr (up_row ''/s/a'' 0 ''open''))"
    using up_created by simp
  show ?thesis
    using upload_roundtrip [OF c, of "[(''ab'', 0), (''c'', seconds 5)]" "up_finish True True" up_lib "''/m/x.mkv''" "''x.mkv''"] u
    by (simp add: up_finish_def MaxChunk_def seconds_def)
qed

definition up_idle :: upload_machine where
  "up_idle = \<lparr>um_s = up_new, um_busy = []\<rparr>"


text \<open>Two complete staging files \<^verbatim>\<open>a\<close> and \<^verbatim>\<open>b\<close>, both to become \<^verbatim>\<open>x.mkv\<close>.\<close>

definition up_two :: upload_state where
  "up_two = \<lparr>us_rows = [(''a'', up_row ''/s/a'' 3 ''open''), (''b'', up_row ''/s/b'' 3 ''open'')], us_fs = [(''/s/a'', ''abc''), (''/s/b'', ''def'')]\<rparr>"

lemma up_two_checked:
  "us_fs s = us_fs up_two \<Longrightarrow> st \<in> {''/s/a'', ''/s/b''} \<Longrightarrow>
   snd (finalize_check (up_finish r i) uid (up_row st 3 ''open'') 0 s) = Inr (''/m/x.mkv'', ''x.mkv'')"
proof -
  assume fs: "us_fs s = us_fs up_two" and st: "st \<in> {''/s/a'', ''/s/b''}"
  have "uniqueDest ''/m'' ''x.mkv'' (us_fs up_two) = Some (''/m/x.mkv'', ''x.mkv'')"
    using uniqueDest_first [of "''/m''" "''x.mkv''" "us_fs up_two"] by (simp add: join_path_def up_two_def has_key_def keys_def)
  moreover have "\<exists>x. map_of (us_fs up_two) st = Some x \<and> length x = 3" using st by (auto simp: up_two_def)
  ultimately show ?thesis using fs unfolding finalize_check_def Let_def by (auto simp: up_row_def up_finish_def up_lib_def)
qed

theorem same_name_uploads_lose_file_witness:
  "\<exists>s1 s2 s3 s4. finalize_check (up_finish True True) ''a'' (up_row ''/s/a'' 3 ''open'') 0 up_two = (s1, Inr (''/m/x.mkv'', ''x.mkv'')) \<and>
    finalize_check (up_finish True True) ''b'' (up_row ''/s/b'' 3 ''open'') 0 s1 = (s2, Inr (''/m/x.mkv'', ''x.mkv'')) \<and>
    finalize_place (up_finish True True) (up_row ''/s/a'' 3 ''open'') ''/m/x.mkv'' s2 = (s3, None) \<and>
    finalize_place (up_finish True True) (up_row ''/s/b'' 3 ''open'') ''/m/x.mkv'' s3 = (s4, None) \<and>
    map_of (us_fs s4) ''/m/x.mkv'' = Some ''def'' \<and> map_of (us_fs s4) ''/s/a'' = None"
proof -
  let ?a = "up_finish True True" let ?u1 = "up_row ''/s/a'' 3 ''open''" let ?u2 = "up_row ''/s/b'' 3 ''open''" let ?d = "''/m/x.mkv''"
  obtain s1 where f1: "finalize_check ?a ''a'' ?u1 0 up_two = (s1, Inr (?d, ''x.mkv''))"
    using up_two_checked [of up_two "''/s/a''" True True "''a''"] by (metis insertCI prod.collapse)
  have fs1: "us_fs s1 = us_fs up_two" using check_state [of ?a "''a''" ?u1 0 up_two] f1 by simp
  obtain s2 where f2: "finalize_check ?a ''b'' ?u2 0 s1 = (s2, Inr (?d, ''x.mkv''))"
    using up_two_checked [OF fs1, of "''/s/b''" True True "''b''"] by (metis insertCI prod.collapse)
  have fs2: "us_fs s2 = us_fs up_two" using check_state [of ?a "''b''" ?u2 0 s1] f2 fs1 by simp
  obtain s3 where p1: "finalize_place ?a ?u1 ?d s2 = (s3, None)" and fs3: "map_of (us_fs s3) ''/s/b'' = Some ''def''"
    using fs2 by (auto simp: finalize_place_def atomicPlace_def up_finish_def up_row_def up_two_def)
  obtain s4 r where p2: "finalize_place ?a ?u2 ?d s3 = (s4, r)" by fastforce
  have "fa_lib ?a = Some up_lib" "ul_Filename ?u2 = ul_Filename ?u1" "ul_Staging ?u1 \<noteq> ul_Staging ?u2" "fa_renames ?a"
    by (simp_all add: up_finish_def up_row_def)
  from same_name_uploads_lose_file [OF f1 f2 this(1) this(1) this(2,3) p1 p2] this(4) f1 f2 p1 p2
  show ?thesis by (auto simp: up_row_def up_two_def)
qed

text \<open>Ann cancels while her upload is being catalogued.\<close>

theorem cancelled_upload_completes_witness:
  "\<exists>m1 m2. m1 = um_step \<lparr>um_s = \<lparr>us_rows = [(''a'', up_row ''/s/a'' 3 ''processing'')], us_fs = [(''/m/x.mkv'', ''abc'')]\<rparr>, um_busy = [(''a'', Finishing ''x.mkv'')]\<rparr>
        (EvDelete (Some up_admin) ''a'' 0) \<and> m2 = um_step m1 (EvFinish (up_finish True True) ''a'' 0) \<and>
    map_option ul_Status (map_of (us_rows (um_s m1)) ''a'') = Some statusCancel \<and>
    map_option ul_Status (map_of (us_rows (um_s m2)) ''a'') = Some statusDone"
proof -
  let ?m = "\<lparr>um_s = \<lparr>us_rows = [(''a'', up_row ''/s/a'' 3 ''processing'')], us_fs = [(''/m/x.mkv'', ''abc'')]\<rparr>, um_busy = [(''a'', Finishing ''x.mkv'')]\<rparr>"
  have "upload_authorize (Some up_admin) (up_row ''/s/a'' 3 ''processing'') True = None"
    by (simp add: upload_authorize_def CanUpload_def up_admin_def up_row_def IsUser_def KindUser_def HasPerm_def)
  then obtain s1 where d: "Upload_Delete (Some up_admin) ''a'' 0 (um_s ?m) = (s1, None)" by (auto simp: Upload_Delete_def)
  have b: "map_of (um_busy ?m) ''a'' = Some (Finishing ''x.mkv'')" "fa_ingest (up_finish True True)" by (simp_all add: up_finish_def)
  from cancelled_upload_completes [OF b(1) d b(2) refl refl, of 0] show ?thesis by blast
qed

theorem failed_upload_leaves_file_witness:
  "\<exists>s2. finalize (up_finish True False) ''a'' (up_row ''/s/a'' 3 ''open'') 0 up_two = (s2, Some ErrIO) \<and>
    map_of (us_fs (upload_fail ''a'' [] 0 s2)) ''/m/x.mkv'' = Some ''abc'' \<and>
    map_option ul_Status (map_of (us_rows (upload_fail ''a'' [] 0 s2)) ''a'') = Some statusFail"
proof -
  let ?a = "up_finish True False" let ?u = "up_row ''/s/a'' 3 ''open''"
  obtain s1 where f: "finalize_check ?a ''a'' ?u 0 up_two = (s1, Inr (''/m/x.mkv'', ''x.mkv''))"
    using up_two_checked [of up_two "''/s/a''" True False "''a''"] by (metis insertCI prod.collapse)
  have fs: "us_fs s1 = us_fs up_two" using check_state [of ?a "''a''" ?u 0 up_two] f by simp
  obtain s2 where p: "finalize_place ?a ?u ''/m/x.mkv'' s1 = (s2, None)"
    using fs by (auto simp: finalize_place_def atomicPlace_def up_finish_def up_row_def up_two_def)
  have g: "fa_lib ?a = Some up_lib" "\<not> fa_ingest ?a" "map_of (us_rows up_two) ''a'' = Some ?u" "ul_Staging ?u = ul_Staging ?u"
    "map_of (us_fs up_two) (ul_Staging ?u) = Some ''abc''"
    by (simp_all add: up_finish_def up_two_def up_row_def)
  from failed_upload_leaves_file [OF f g(1) p g(2-5), of "[]"] show ?thesis by blast
qed

end
