(* ===== verification/Move_Files.thy ===== *)
theory Move_Files
  imports Upload
begin

text \<open>
  The files behind a library move (\<^verbatim>\<open>src/internal/library/move_fs.go\<close>, \<^verbatim>\<open>MkdirOwned\<close> of
  \<^verbatim>\<open>src/internal/mediafs/mediafs.go\<close>). The disk is a map from paths to files and folders. Every change of
  the disk or of a table is one \<open>write\<close>, and a world may allow only so many of them: the process dies
  then, and what it would have written is lost. So one definition of an operation stands for its whole
  run and for a run cut short anywhere. What the system answers is an argument. The order of the
  entries of a folder is that of the map; progress counters, owners and times of files are left out.
\<close>

section \<open>The disk\<close>

datatype node = DirNode | FileNode string | OtherNode

type_synonym disk = "(string \<times> node) list"

text \<open>\<open>below p q\<close>: \<open>q\<close> is \<open>p\<close> or lies in it.\<close>

definition below :: "string \<Rightarrow> string \<Rightarrow> bool" where
  "below p q \<longleftrightarrow> q = p \<or> hasPrefix q (p @ ''/'')"

definition tree_nodes :: "string \<Rightarrow> disk \<Rightarrow> disk" where
  "tree_nodes p d =
     (let ps = remdups (filter (below p) (keys d))
      in map (\<lambda>q. (q, the (map_of d q))) (filter (\<lambda>q. q = p) ps @ filter (\<lambda>q. q \<noteq> p) ps))"

definition path_exists :: "string \<Rightarrow> disk \<Rightarrow> bool" where
  "path_exists p d = has_key p d"

definition rename_tree :: "string \<Rightarrow> string \<Rightarrow> disk \<Rightarrow> disk" where
  "rename_tree src dst d = map (\<lambda>(q, n). (if below src q then dst @ drop (length src) q else q, n)) d"

definition filepathDir :: "string \<Rightarrow> string" where
  "filepathDir p =
     (if CHR ''/'' \<notin> set p then ''.''
      else (let d = rev (tl (dropWhile (\<lambda>c. c \<noteq> CHR ''/'') (rev p))) in if d = [] then ''/'' else d))"

section \<open>The world and its writes\<close>

record fs_op =
  op_Src :: string
  op_Dst :: string
  op_Dir :: bool

record file_dest =
  fd_ID :: string
  fd_Rel :: string
  fd_Abs :: string

record library =
  lib_ID :: string
  lib_RootPath :: string
  lib_ContentType :: string

record media_row =
  mf_Library :: string
  mf_Rel :: string
  mf_Abs :: string
  mf_Size :: i64
  mf_Availability :: string
  mf_Movie :: string
  mf_Kind :: string
  mf_ExtraKind :: string
  mf_MTime :: string
  mf_Hint :: string
  mf_Confidence :: string

record title_row =
  tr_Library :: string
  tr_Title :: string
  tr_SortTitle :: string
  tr_Year :: "int option"
  tr_TMDB :: "int option"
  tr_Rating :: string
  tr_RatingAge :: "int option"
  tr_RatingSource :: string
  tr_Source :: string
  tr_Unmatched :: bool
  tr_NeedsReview :: bool

record episode_row =
  ep_Series :: string
  ep_Season :: int
  ep_Number :: int

text \<open>The tables: libraries of this server, the folders of all libraries, titles by kind and id, media files (without a
  movie when \<open>mf_Movie\<close> is empty), episodes, seasons as series and number, the episodes of a file, and the titles
  waiting for metadata with the text to look for.\<close>

record catalogue =
  ct_libraries :: "(string \<times> library) list"
  ct_roots :: "string list"
  ct_titles :: "((string \<times> string) \<times> title_row) list"
  ct_media :: "(string \<times> media_row) list"
  ct_episodes :: "(string \<times> episode_row) list"
  ct_links :: "(string \<times> string) list"
  ct_seasons :: "(string \<times> string \<times> int) list"
  ct_queue :: "((string \<times> string) \<times> string \<times> int option) list"

record move_item =
  mi_Job :: string
  mi_Kind :: string
  mi_ItemID :: string
  mi_Dest :: string
  mi_Status :: string
  mi_Reason :: string
  mi_Message :: string
  mi_Target :: string
  mi_Ops :: "fs_op list"
  mi_Files :: "file_dest list"

record move_job =
  mj_Dest :: string
  mj_Status :: string
  mj_Total :: nat
  mj_Moved :: nat
  mj_Skipped :: nat
  mj_Failed :: nat

record move_world =
  mw_left :: "nat option"
  mw_disk :: disk
  mw_items :: "(string \<times> move_item) list"
  mw_jobs :: "(string \<times> move_job) list"
  mw_cat :: catalogue

definition world_write :: "(move_world \<Rightarrow> move_world) \<Rightarrow> move_world \<Rightarrow> move_world" where
  "world_write f w =
     (case mw_left w of
        None \<Rightarrow> f w
      | Some 0 \<Rightarrow> w
      | Some (Suc n) \<Rightarrow> (f w)\<lparr>mw_left := Some n\<rparr>)"

definition disk_write :: "(disk \<Rightarrow> disk) \<Rightarrow> move_world \<Rightarrow> move_world" where
  "disk_write f = world_write (\<lambda>w. w\<lparr>mw_disk := f (mw_disk w)\<rparr>)"

definition alive :: "move_world \<Rightarrow> bool" where
  "alive w \<longleftrightarrow> mw_left w \<noteq> Some 0"

text \<open>What the system answers. \<open>ma_copy\<close> says after how many writes a copy fails, \<open>ma_keep\<close> how many
  entries of a folder cannot be removed.\<close>

datatype rename_answer = Renamed | CrossDevice | RenameFailed
datatype mkdir_answer = MkdirOK | MkdirRefused | MkdirNotOwned

record move_answers =
  ma_rename :: "string \<Rightarrow> string \<Rightarrow> rename_answer"
  ma_copy :: "string \<Rightarrow> nat option"
  ma_keep :: "string \<Rightarrow> nat"
  ma_mkdir :: "string \<Rightarrow> mkdir_answer"
  ma_tx :: bool

datatype move_error = ErrDestinationExists | ErrMoveIO | ErrCopyFailed | ErrNotVerified | Leftover | ErrCatalogue

section \<open>Removing, creating, copying\<close>

definition os_unlink :: "string \<Rightarrow> move_world \<Rightarrow> move_world" where
  "os_unlink p = disk_write (del_key p)"

definition os_remove :: "string \<Rightarrow> move_world \<Rightarrow> move_world" where
  "os_remove p w = (if length (tree_nodes p (mw_disk w)) = 1 then os_unlink p w else w)"

text \<open>\<^verbatim>\<open>os.RemoveAll\<close>: what is in a folder goes before the folder.\<close>

definition removeAll :: "move_answers \<Rightarrow> string \<Rightarrow> move_world \<Rightarrow> move_world \<times> bool" where
  "removeAll a p w =
     (let ps = rev (map fst (tree_nodes p (mw_disk w)));
          k = length ps - ma_keep a p
      in (fold os_unlink (take k ps) w, k = length ps))"

function missing_dirs :: "string \<Rightarrow> disk \<Rightarrow> string list" where
  "missing_dirs p d =
     (if path_exists p d then []
      else p # (if filepathDir p = p then [] else missing_dirs (filepathDir p) d))"
  by pat_completeness auto
termination
proof (relation "measure (\<lambda>(p, d). if p = ''.'' then 0 else Suc (length p))")
  fix p :: string and d :: disk
  assume "filepathDir p \<noteq> p"
  moreover have "length (filepathDir p) < length p" if "CHR ''/'' \<in> set p" "p \<noteq> ''/''"
  proof -
    have "dropWhile (\<lambda>c. c \<noteq> CHR ''/'') (rev p) \<noteq> []" using that by auto
    moreover have "length (dropWhile (\<lambda>c. c \<noteq> CHR ''/'') (rev p)) \<le> length p" by (metis length_dropWhile_le length_rev)
    moreover have "length p \<noteq> 1" using that by (cases p) auto
    ultimately show ?thesis using that by (cases p) (auto simp: filepathDir_def Let_def)
  qed
  moreover have "filepathDir ''/'' = ''/''" by code_simp
  moreover have "filepathDir ''.'' = ''.''" by code_simp
  ultimately show "((filepathDir p, d), (p, d)) \<in> measure (\<lambda>(p, d). if p = ''.'' then 0 else Suc (length p))"
    by (cases "CHR ''/'' \<in> set p"; cases "p = ''/''") (auto simp: filepathDir_def)
qed simp

declare missing_dirs.simps [simp del]

fun make_dirs :: "move_answers \<Rightarrow> string list \<Rightarrow> string list \<Rightarrow> move_world \<Rightarrow> move_world \<times> string list \<times> bool" where
  "make_dirs a [] made w = (w, made, True)"
| "make_dirs a (p # ps) made w =
     (if ma_mkdir a p = MkdirRefused then (w, made, False)
      else (let w = disk_write (\<lambda>d. d @ [(p, DirNode)]) w
            in if ma_mkdir a p = MkdirNotOwned then (w, made @ [p], False)
               else make_dirs a ps (made @ [p]) w))"

definition MkdirOwned :: "move_answers \<Rightarrow> string \<Rightarrow> move_world \<Rightarrow> move_world \<times> string list \<times> bool" where
  "MkdirOwned a dir w = make_dirs a (rev (missing_dirs dir (mw_disk w))) [] w"

definition removeCreated :: "string list \<Rightarrow> move_world \<Rightarrow> move_world" where
  "removeCreated dirs w = fold os_remove (rev dirs) w"

text \<open>Links and special files are refused.\<close>

datatype copy_step = MakeDir string | MakeFile string | FillFile string string | Refuse

definition copy_steps :: "string \<Rightarrow> string \<Rightarrow> disk \<Rightarrow> copy_step list" where
  "copy_steps src dst d =
     concat (map (\<lambda>(q, n). (let t = dst @ drop (length src) q
                            in case n of DirNode \<Rightarrow> [MakeDir t] | FileNode c \<Rightarrow> [MakeFile t, FillFile t c] | OtherNode \<Rightarrow> [Refuse]))
                 (tree_nodes src d))"

definition step_refused :: "copy_step \<Rightarrow> disk \<Rightarrow> bool" where
  "step_refused st d = (case st of MakeDir p \<Rightarrow> path_exists p d | MakeFile p \<Rightarrow> path_exists p d | FillFile p c \<Rightarrow> False | Refuse \<Rightarrow> True)"

definition copy_write :: "copy_step \<Rightarrow> move_world \<Rightarrow> move_world" where
  "copy_write st =
     (case st of MakeDir p \<Rightarrow> disk_write (\<lambda>d. d @ [(p, DirNode)])
      | MakeFile p \<Rightarrow> disk_write (\<lambda>d. d @ [(p, FileNode [])])
      | FillFile p c \<Rightarrow> disk_write (set_key p (FileNode c)) | Refuse \<Rightarrow> id)"

fun run_copy :: "nat option \<Rightarrow> copy_step list \<Rightarrow> move_world \<Rightarrow> move_world \<times> bool" where
  "run_copy k [] w = (w, True)"
| "run_copy k (st # sts) w =
     (if k = Some 0 \<or> step_refused st (mw_disk w) then (w, False)
      else run_copy (map_option (\<lambda>n. n - 1) k) sts (copy_write st w))"

definition copyTree :: "move_answers \<Rightarrow> string \<Rightarrow> string \<Rightarrow> move_world \<Rightarrow> move_world \<times> bool" where
  "copyTree a src dst w =
     (if \<not> path_exists src (mw_disk w) then (w, False)
      else run_copy (ma_copy a dst) (copy_steps src dst (mw_disk w)) w)"

definition verifyCopy :: "string \<Rightarrow> string \<Rightarrow> disk \<Rightarrow> bool" where
  "verifyCopy src dst d =
     (path_exists src d \<and>
      list_all (\<lambda>(q, n). case n of
                  DirNode \<Rightarrow> True
                | FileNode c \<Rightarrow> (case map_of d (dst @ drop (length src) q) of
                                  Some (FileNode c') \<Rightarrow> length c' = length c
                                | _ \<Rightarrow> False)
                | OtherNode \<Rightarrow> (case map_of d (dst @ drop (length src) q) of
                                  Some (FileNode c') \<Rightarrow> c' = []
                                | _ \<Rightarrow> False))
        (tree_nodes src d))"

section \<open>Moving an entry\<close>

definition tmpName :: "string \<Rightarrow> string \<Rightarrow> nat \<Rightarrow> string" where
  "tmpName dst itemID idx = join_path (filepathDir dst) (''.vd-move-'' @ itemID @ ''-'' @ nat_dec idx @ ''.partial'')"

text \<open>\<^verbatim>\<open>moveEntry\<close>. A path that cannot be inspected counts as a failed rename: nothing changes either way.\<close>

definition renameNoReplace :: "move_answers \<Rightarrow> string \<Rightarrow> string \<Rightarrow> move_world \<Rightarrow> move_world \<times> rename_answer" where
  "renameNoReplace a src dst w =
     (if path_exists dst (mw_disk w) \<or> \<not> path_exists src (mw_disk w) then (w, RenameFailed)
      else (case ma_rename a src dst of
              Renamed \<Rightarrow> (disk_write (rename_tree src dst) w, Renamed)
            | r \<Rightarrow> (w, r)))"

definition copy_across :: "move_answers \<Rightarrow> string \<Rightarrow> string \<Rightarrow> string \<Rightarrow> move_world \<Rightarrow> move_world \<times> move_error option" where
  "copy_across a src dst tmp w =
     (let w = fst (removeAll a tmp w)
      in case copyTree a src tmp w of
           (w, False) \<Rightarrow> (fst (removeAll a tmp w), Some ErrCopyFailed)
         | (w, True) \<Rightarrow>
             if \<not> verifyCopy src tmp (mw_disk w) then (fst (removeAll a tmp w), Some ErrNotVerified)
             else (case renameNoReplace a tmp dst w of
                     (w, Renamed) \<Rightarrow> (case removeAll a src w of (w, ok) \<Rightarrow> (w, if ok then None else Some Leftover))
                   | (w, _) \<Rightarrow> (fst (removeAll a tmp w), Some (if path_exists dst (mw_disk w) then ErrDestinationExists else ErrMoveIO))))"

definition moveEntry :: "move_answers \<Rightarrow> string \<Rightarrow> string \<Rightarrow> string \<Rightarrow> move_world \<Rightarrow> move_world \<times> move_error option" where
  "moveEntry a src dst tmp w =
     (if path_exists dst (mw_disk w) then (w, Some ErrDestinationExists)
      else (case renameNoReplace a src dst w of
              (w, Renamed) \<Rightarrow> (w, None)
            | (w, RenameFailed) \<Rightarrow> (w, Some ErrMoveIO)
            | (w, CrossDevice) \<Rightarrow> copy_across a src dst tmp w))"

end
