(* ===== verification/Move_Plan.thy ===== *)
theory Move_Plan
  imports Move_Files "HOL-Library.List_Lexorder" "HOL-Library.Char_ord"
begin

text \<open>
  Planning a move of titles into another library (\<^verbatim>\<open>src/internal/library/move_plan.go\<close>): which files
  belong to a title, whether its folder moves as a whole, which names are free, and why a title cannot
  move. Texts for people are left out. Whether a path is inside a folder after following links, and
  which characters beyond ASCII are letters or digits, are arguments; lower case is that of the ASCII
  letters, and paths are the slash-separated clean ones of Unix.
\<close>

section \<open>Names and paths\<close>

definition KindMovie :: string where "KindMovie = ''movie''"
definition KindSeries :: string where "KindSeries = ''series''"
definition MaxMoveItems :: nat where "MaxMoveItems = 5000"

definition Accepts :: "string \<Rightarrow> string \<Rightarrow> bool" where
  "Accepts contentType itemKind =
     (if itemKind = KindMovie then contentType = ''movies'' \<or> contentType = ''mixed''
      else if itemKind = KindSeries \<or> itemKind = ''season'' \<or> itemKind = ''episode''
      then contentType = ''tv'' \<or> contentType = ''mixed''
      else False)"

definition within :: "string \<Rightarrow> string \<Rightarrow> bool" where
  "within root target \<longleftrightarrow> target \<noteq> root \<and> (root = ''/'' \<or> below root target)"

definition pathDir :: "string \<Rightarrow> string" where
  "pathDir rel = (if CHR ''/'' \<in> set rel then rev (tl (dropWhile (\<lambda>c. c \<noteq> CHR ''/'') (rev rel))) else ''.'')"

definition pathBase :: "string \<Rightarrow> string" where
  "pathBase rel = rev (takeWhile (\<lambda>c. c \<noteq> CHR ''/'') (rev rel))"

definition pathJoin :: "string \<Rightarrow> string \<Rightarrow> string" where
  "pathJoin dir name = (if dir = [] \<or> dir = ''.'' then name else dir @ ''/'' @ name)"

definition pad2 :: "nat \<Rightarrow> string" where
  "pad2 n = (if n < 10 then CHR ''0'' # nat_dec n else nat_dec n)"

definition seasonName :: "int \<Rightarrow> string" where
  "seasonName n = (if n = 0 then ''Specials'' else if n < 0 then ''Season 01'' else ''Season '' @ pad2 (nat n))"

definition titleWithYear :: "string \<Rightarrow> int option \<Rightarrow> string" where
  "titleWithYear title year =
     (case year of Some y \<Rightarrow> if y > 0 then title @ '' ('' @ int_dec y @ '')'' else title | None \<Rightarrow> title)"

text \<open>The two regular expressions, on lower-case text.\<close>

definition is_digit :: "char \<Rightarrow> bool" where
  "is_digit c \<longleftrightarrow> digit_val c \<noteq> None"

definition season_words :: "string list" where
  "season_words = [''season'', ''series'', ''staffel'', ''saison'', ''temporada'', ''stagione'']"

definition word_number :: "string \<Rightarrow> bool" where
  "word_number rest =
     (let ds = dropWhile (\<lambda>c. c \<in> set ''._- '' \<or> byte c \<in> {9, 10, 12, 13}) rest
      in 1 \<le> length ds \<and> length ds \<le> 4 \<and> list_all is_digit ds)"

definition seasonFolder :: "string \<Rightarrow> bool" where
  "seasonFolder name =
     (let s = toLower name
      in list_ex (\<lambda>w. hasPrefix s w \<and> word_number (drop (length w) s)) season_words
         \<or> (hasPrefix s ''s'' \<and> 2 \<le> length s \<and> length s \<le> 4 \<and> list_all is_digit (drop 1 s))
         \<or> s \<in> {''special'', ''specials'', ''extra'', ''extras''})"

definition artworkSuffix :: "string \<Rightarrow> bool" where
  "artworkSuffix rest =
     list_ex (\<lambda>k. list_ex (\<lambda>e. toLower rest = ''-'' @ k @ ''.'' @ e) [''jpg'', ''jpeg'', ''png'', ''webp''])
       [''poster'', ''fanart'', ''thumb'', ''landscape'', ''banner'', ''clearlogo'', ''clearart'', ''backdrop'', ''logo'', ''disc'']"

definition sidecarOf :: "string \<Rightarrow> string \<Rightarrow> bool" where
  "sidecarOf name stem =
     (hasPrefix name stem \<and>
      (let rest = drop (length stem) name in hasPrefix rest ''.'' \<or> artworkSuffix rest))"

text \<open>\<^verbatim>\<open>strings.Fields\<close>, \<^verbatim>\<open>mediafs.FolderName\<close>.\<close>

fun fields_of :: "string list \<Rightarrow> string list \<Rightarrow> string list" where
  "fields_of [] w = (if w = [] then [] else [concat w])"
| "fields_of (r # rs) w =
     (if is_space r then (if w = [] then fields_of rs [] else concat w # fields_of rs [])
      else fields_of rs (w @ [r]))"

definition folder_rune :: "(string \<Rightarrow> bool) \<Rightarrow> string \<Rightarrow> string" where
  "folder_rune letter r =
     (if r \<in> {''/'', [CHR 0x5C], '':'', [CHR 0x00]} then '' ''
      else if is_control r then []
      else if (\<exists>c \<in> set r. r = [c] \<and> (c \<in> set ''-_.,&+![]()'' \<or> c = CHR 0x27 \<or> is_digit c \<or>
                  (97 \<le> byte (ascii_lower c) \<and> byte (ascii_lower c) \<le> 122)))
              \<or> is_space r \<or> (1 < length r \<and> valid_rune r \<and> letter r)
           then r
      else [])"

definition FolderName :: "(string \<Rightarrow> bool) \<Rightarrow> string \<Rightarrow> string" where
  "FolderName letter name =
     (let b = concat (map (folder_rune letter) (runes (trimSpace name)));
          words = filter (\<lambda>w. \<exists>c \<in> set w. c \<noteq> CHR ''.'') (fields_of (runes b) []);
          out = trimSpace (dropWhile (\<lambda>c. c = CHR ''.'') (joinWith '' '' words));
          out = (if length out > 120 then trimSpace (take 120 out) else out)
      in if out = [] \<or> out = ''.'' \<or> out = ''..'' then ''Library'' else out)"

definition IsVideoName :: "string \<Rightarrow> bool" where
  "IsVideoName name \<longleftrightarrow> toLower (fileExt name) \<in> set VideoExtensions"

section \<open>Units\<close>

record unit_file =
  uf_ID :: string
  uf_Rel :: string
  uf_Abs :: string
  uf_Size :: i64
  uf_Availability :: string
  uf_Season :: int

record move_unit =
  mu_Kind :: string
  mu_ID :: string
  mu_Title :: string
  mu_Year :: "int option"
  mu_TMDB :: "int option"
  mu_LibraryID :: string
  mu_Files :: "unit_file list"

record unit_plan =
  up_unit :: move_unit
  up_src :: library
  up_dest :: string
  up_ops :: "fs_op list"
  up_files :: "file_dest list"
  up_target :: string
  up_renamed :: bool
  up_pruneDirs :: "string list"
  up_bytes :: i64

text \<open>\<^verbatim>\<open>loadUnit\<close>: the files of a movie, or of the episodes of a series with the lowest season each holds.\<close>

definition file_seasons :: "catalogue \<Rightarrow> string \<Rightarrow> string \<Rightarrow> int list" where
  "file_seasons ct series fid =
     List.map_filter (\<lambda>(f, e). if f \<noteq> fid then None
        else (case map_of (ct_episodes ct) e of Some ep \<Rightarrow> if ep_Series ep = series then Some (ep_Season ep) else None | None \<Rightarrow> None))
       (ct_links ct)"

definition loadUnit :: "catalogue \<Rightarrow> string \<Rightarrow> string \<Rightarrow> move_unit option" where
  "loadUnit ct kind uid =
     (if kind \<noteq> KindMovie \<and> kind \<noteq> KindSeries then None
      else (case map_of (ct_titles ct) (kind, uid) of
              None \<Rightarrow> None
            | Some t \<Rightarrow>
                (let season = (\<lambda>fid. if kind = KindMovie then -1 else Min (set (file_seasons ct uid fid)));
                     mine = (\<lambda>(fid, m). mf_Library m = tr_Library t \<and>
                              (if kind = KindMovie then mf_Movie m = uid else file_seasons ct uid fid \<noteq> []))
                 in Some \<lparr>mu_Kind = kind, mu_ID = uid, mu_Title = tr_Title t, mu_Year = tr_Year t, mu_TMDB = tr_TMDB t,
                          mu_LibraryID = tr_Library t,
                          mu_Files = map (\<lambda>(fid, m). \<lparr>uf_ID = fid, uf_Rel = mf_Rel m, uf_Abs = mf_Abs m, uf_Size = mf_Size m,
                                                         uf_Availability = mf_Availability m, uf_Season = season fid\<rparr>)
                                       (sort_key (\<lambda>(fid, m). mf_Rel m) (filter mine (ct_media ct)))\<rparr>)))"

definition duplicateIn :: "catalogue \<Rightarrow> move_unit \<Rightarrow> string \<Rightarrow> bool" where
  "duplicateIn ct u libraryID =
     list_ex (\<lambda>((kind, tid), t).
        kind = (if mu_Kind u = KindSeries then KindSeries else KindMovie) \<and> tr_Library t = libraryID \<and> tid \<noteq> mu_ID u \<and>
        ((tr_TMDB t \<noteq> None \<and> tr_TMDB t = mu_TMDB u) \<or> (toLower (tr_Title t) = toLower (mu_Title u) \<and> tr_Year t = mu_Year u)))
       (ct_titles ct)"

definition libraryTitles :: "catalogue \<Rightarrow> string \<Rightarrow> (string \<times> string) list" where
  "libraryTitles ct libraryID =
     concat (map (\<lambda>kind. map fst (sort_key (\<lambda>(k, t). tr_SortTitle t) (sort_key (\<lambda>((k, tid), t). tid)
                    (filter (\<lambda>((k, tid), t). k = kind \<and> tr_Library t = libraryID) (ct_titles ct)))))
       [KindMovie, KindSeries])"

section \<open>Reservations\<close>

text \<open>The names taken in the destination, in lower case: what is catalogued there, what earlier titles of the
  same move have claimed, and every folder above.\<close>

record reservations =
  rs_root :: string
  rs_taken :: "string list"

function mark_path :: "string \<Rightarrow> string list \<Rightarrow> string list" where
  "mark_path rel taken =
     (if rel = ''.'' \<or> rel = [] then taken else mark_path (pathDir rel) (toLower rel # taken))"
  by pat_completeness auto

lemma pathDir_shorter: "CHR ''/'' \<in> set rel \<Longrightarrow> length (pathDir rel) < length rel"
proof -
  assume a: "CHR ''/'' \<in> set rel"
  then have "dropWhile (\<lambda>c. c \<noteq> CHR ''/'') (rev rel) \<noteq> []" by auto
  moreover have "length (dropWhile (\<lambda>c. c \<noteq> CHR ''/'') (rev rel)) \<le> length rel" by (metis length_dropWhile_le length_rev)
  ultimately show ?thesis using a by (cases rel) (auto simp: pathDir_def)
qed

termination mark_path
proof (relation "measure (\<lambda>(rel, t). if rel = ''.'' then 0 else Suc (length rel))", simp, goal_cases)
  case (1 rel taken)
  then show ?case
    using pathDir_shorter [of rel] by (cases "CHR ''/'' \<in> set rel") (auto simp: pathDir_def)
qed

declare mark_path.simps [simp del]

definition mark :: "string \<Rightarrow> reservations \<Rightarrow> reservations" where
  "mark rel r = r\<lparr>rs_taken := mark_path rel (rs_taken r)\<rparr>"

definition busy :: "disk \<Rightarrow> reservations \<Rightarrow> string \<Rightarrow> bool" where
  "busy d r rel \<longleftrightarrow> toLower rel \<in> set (rs_taken r) \<or> path_exists (join_path (rs_root r) rel) d"

definition newReservations :: "catalogue \<Rightarrow> library \<Rightarrow> reservations" where
  "newReservations ct dest =
     fold (\<lambda>(fid, m) r. if mf_Library m = lib_ID dest then mark (mf_Rel m) r else r) (ct_media ct)
       \<lparr>rs_root = lib_RootPath dest, rs_taken = []\<rparr>"

definition claim_numbers :: "nat list" where "claim_numbers = [1..<1000]"

definition claim_name :: "string \<Rightarrow> bool \<Rightarrow> nat \<Rightarrow> string" where
  "claim_name rel dir n =
     (let name = pathBase rel;
          ext = (if dir then [] else fileExt name);
          stem = (if dir then name else trimSuffix name ext)
      in pathJoin (pathDir rel) (if n > 1 then stem @ '' ('' @ nat_dec n @ '')'' @ ext else name))"

definition claim :: "disk \<Rightarrow> string \<Rightarrow> bool \<Rightarrow> reservations \<Rightarrow> string \<times> bool \<times> reservations" where
  "claim d rel dir r =
     (case List.find (\<lambda>n. \<not> busy d r (claim_name rel dir n)) claim_numbers of
        Some n \<Rightarrow> (claim_name rel dir n, n > 1, mark (claim_name rel dir n) r)
      | None \<Rightarrow> (pathJoin (pathDir rel) (pathBase rel), False, r))"

section \<open>A title with a folder of its own\<close>

fun common_parts :: "string list \<Rightarrow> string list \<Rightarrow> string list" where
  "common_parts (a # as) (b # bs) = (if a = b then a # common_parts as bs else [])"
| "common_parts _ _ = []"

definition commonDir :: "unit_file list \<Rightarrow> string" where
  "commonDir files =
     (case files of
        [] \<Rightarrow> ''.''
      | f # fs \<Rightarrow>
          (let parts = foldl (\<lambda>ps g. common_parts ps (splitOn CHR ''/'' (pathDir (uf_Rel g)))) (splitOn CHR ''/'' (pathDir (uf_Rel f))) fs
           in if parts = [] \<or> parts = [''.''] then ''.'' else joinWith ''/'' parts))"

function above_seasons :: "string \<Rightarrow> string" where
  "above_seasons dir = (if dir \<noteq> ''.'' \<and> seasonFolder (pathBase dir) then above_seasons (pathDir dir) else dir)"
  by pat_completeness auto
termination
proof (relation "measure (\<lambda>dir. if dir = ''.'' then 0 else Suc (length dir))", simp, goal_cases)
  case (1 dir)
  have "\<not> seasonFolder []" by code_simp
  moreover have "pathBase [] = []" by (simp add: pathBase_def)
  ultimately have "dir \<noteq> []" using 1 by auto
  then show ?case
    using 1 pathDir_shorter [of dir] by (cases "CHR ''/'' \<in> set dir") (auto simp: pathDir_def)
qed

declare above_seasons.simps [simp del]

definition rel_path :: "string \<Rightarrow> string \<Rightarrow> string" where
  "rel_path root path = drop (if root = ''/'' then 1 else Suc (length root)) path"

definition folderBelongsTo :: "catalogue \<Rightarrow> disk \<Rightarrow> unit_plan \<Rightarrow> string \<Rightarrow> string \<Rightarrow> bool" where
  "folderBelongsTo ct d p srcDir relDir =
     (let mine = map uf_Rel (mu_Files (up_unit p))
      in map_of d srcDir = Some DirNode
         \<and> list_all (\<lambda>r. r \<noteq> srcDir \<and> \<not> within srcDir r) (filter (\<lambda>r. r \<noteq> []) (ct_roots ct))
         \<and> list_all (\<lambda>(fid, m). mf_Library m = lib_ID (up_src p) \<and> hasPrefix (toLower (mf_Rel m)) (toLower relDir @ ''/'')
                        \<longrightarrow> mf_Rel m \<in> set mine) (ct_media ct)
         \<and> list_all (\<lambda>(q, n). n \<noteq> OtherNode \<and>
                        (n = DirNode \<or> \<not> IsVideoName (pathBase q) \<or> rel_path (lib_RootPath (up_src p)) q \<in> set mine))
             (tree_nodes srcDir d))"

definition planFolder :: "catalogue \<Rightarrow> disk \<Rightarrow> unit_plan \<Rightarrow> library \<Rightarrow> reservations \<Rightarrow> (unit_plan \<times> reservations) option" where
  "planFolder ct d p dest r =
     (let dir = commonDir (mu_Files (up_unit p));
          dir = (if mu_Kind (up_unit p) = KindSeries then above_seasons dir else dir);
          srcDir = join_path (lib_RootPath (up_src p)) dir
      in if dir = ''.'' \<or> dir = [] then None
         else if \<not> folderBelongsTo ct d p srcDir dir then None
         else (case claim d (pathBase dir) True r of
                 (name, renamed, r) \<Rightarrow>
                   Some (p\<lparr>up_ops := [\<lparr>op_Src = srcDir, op_Dst = join_path (lib_RootPath dest) name, op_Dir = True\<rparr>],
                           up_target := name, up_renamed := renamed,
                           up_files := map (\<lambda>f. let rel = name @ trimPrefix (uf_Rel f) dir
                                                in \<lparr>fd_ID = uf_ID f, fd_Rel = rel, fd_Abs = join_path (lib_RootPath dest) rel\<rparr>)
                                         (mu_Files (up_unit p))\<rparr>, r)))"

section \<open>File by file\<close>

text \<open>The files next to a video that belong to it and not to a video of a longer name.\<close>

definition dir_entries :: "disk \<Rightarrow> string \<Rightarrow> (string \<times> node) list" where
  "dir_entries d dir = map (\<lambda>(q, n). (pathBase q, n)) (filter (\<lambda>(q, n). q \<noteq> dir \<and> filepathDir q = dir) d)"

definition is_regular :: "node \<Rightarrow> bool" where
  "is_regular n \<longleftrightarrow> (case n of FileNode c \<Rightarrow> True | _ \<Rightarrow> False)"

definition best_stem :: "string \<Rightarrow> string list \<Rightarrow> string \<Rightarrow> string" where
  "best_stem name videos stem = foldl (\<lambda>best v. if length v > length best \<and> sidecarOf name v then v else best) stem videos"

definition sidecars :: "disk \<Rightarrow> string \<Rightarrow> string \<Rightarrow> string list" where
  "sidecars d dir stem =
     (let files = map fst (filter (\<lambda>(name, n). is_regular n) (dir_entries d dir));
          videos = map (\<lambda>name. trimSuffix name (fileExt name)) (filter IsVideoName files)
      in sort (filter (\<lambda>name. \<not> IsVideoName name \<and> \<not> hasPrefix name ''.'' \<and> sidecarOf name stem \<and>
                         best_stem name videos stem = stem) files))"

definition add_pruned :: "unit_plan \<Rightarrow> string \<Rightarrow> string list \<Rightarrow> string list" where
  "add_pruned p srcDir dirs =
     foldl (\<lambda>dirs x. if mu_Kind (up_unit p) \<noteq> KindSeries \<and> x \<noteq> srcDir then dirs
                     else if x \<notin> set dirs \<and> within (lib_RootPath (up_src p)) x then dirs @ [x] else dirs)
       dirs [srcDir, filepathDir srcDir]"

fun plan_sidecars :: "disk \<Rightarrow> library \<Rightarrow> string \<Rightarrow> string \<Rightarrow> string \<Rightarrow> string \<Rightarrow> string list \<Rightarrow> fs_op list \<times> reservations \<Rightarrow> fs_op list \<times> reservations" where
  "plan_sidecars d dest dir srcDir stem newStem [] acc = acc"
| "plan_sidecars d dest dir srcDir stem newStem (side # sides) (ops, r) =
     (let sideDst = pathJoin dir (newStem @ trimPrefix side stem)
      in case claim d sideDst False r of
           (claimed, renamed, r) \<Rightarrow>
             plan_sidecars d dest dir srcDir stem newStem sides
               (if claimed \<noteq> sideDst then ops
                else ops @ [\<lparr>op_Src = join_path srcDir side, op_Dst = join_path (lib_RootPath dest) sideDst, op_Dir = False\<rparr>], r))"

definition plan_file :: "disk \<Rightarrow> library \<Rightarrow> string \<Rightarrow> bool \<Rightarrow> unit_file \<Rightarrow> unit_plan \<times> reservations \<Rightarrow> unit_plan \<times> reservations" where
  "plan_file d dest base loose f acc =
     (case acc of (p, r) \<Rightarrow>
       (let dir = (if mu_Kind (up_unit p) = KindSeries then pathJoin base (seasonName (uf_Season f)) else base);
            srcDir = filepathDir (uf_Abs f);
            fname = pathBase (uf_Abs f);
            ext = fileExt fname;
            stem = trimSuffix fname ext
        in case claim d (pathJoin dir fname) False r of
             (rel, renamed, r) \<Rightarrow>
               (let newStem = trimSuffix (pathBase rel) ext;
                    abs = join_path (lib_RootPath dest) rel
                in case plan_sidecars d dest dir srcDir stem newStem (sidecars d srcDir stem)
                          (up_ops p @ [\<lparr>op_Src = uf_Abs f, op_Dst = abs, op_Dir = False\<rparr>], r) of
                     (ops, r) \<Rightarrow>
                       (p\<lparr>up_renamed := up_renamed p \<or> renamed, up_ops := ops,
                          up_files := up_files p @ [\<lparr>fd_ID = uf_ID f, fd_Rel = rel, fd_Abs = abs\<rparr>],
                          up_target := (if loose \<and> up_target p = [] then rel else up_target p),
                          up_pruneDirs := add_pruned p srcDir (up_pruneDirs p)\<rparr>, r))))"

definition planFiles :: "(string \<Rightarrow> bool) \<Rightarrow> disk \<Rightarrow> unit_plan \<Rightarrow> library \<Rightarrow> reservations \<Rightarrow> unit_plan \<times> reservations" where
  "planFiles letter d p dest r =
     (let u = up_unit p;
          folder = FolderName letter (titleWithYear (mu_Title u) (mu_Year u));
          loose = (mu_Kind u = KindMovie \<and> list_all (\<lambda>f. pathDir (uf_Rel f) = ''.'') (mu_Files u));
          (base, p, r) = (if loose then ([], p, r)
                          else (case claim d folder True r of
                                  (name, renamed, r) \<Rightarrow> (name, p\<lparr>up_target := name, up_renamed := renamed\<rparr>, r)));
          (p, r) = fold (plan_file d dest base loose) (mu_Files u) (p, r)
      in (p\<lparr>up_target := (if up_target p = [] then base else up_target p),
            up_pruneDirs := sort_key (\<lambda>x. - int (length x)) (up_pruneDirs p)\<rparr>, r))"

section \<open>The plan\<close>

datatype move_reason =
  ReasonIncompatible | ReasonSameLibrary | ReasonDuplicate | ReasonRemote | ReasonNotFound | ReasonNoFiles | ReasonMissingFiles | ReasonUnsafePath

text \<open>\<open>inside root path\<close> stands for \<^verbatim>\<open>ContainsPath\<close>, which follows links.\<close>

definition file_refused :: "(string \<Rightarrow> string \<Rightarrow> bool) \<Rightarrow> disk \<Rightarrow> library \<Rightarrow> unit_file \<Rightarrow> move_reason option" where
  "file_refused inside d src f =
     (if \<not> inside (lib_RootPath src) (uf_Abs f) then Some ReasonUnsafePath
      else (case map_of d (uf_Abs f) of
              Some (FileNode c) \<Rightarrow> if uf_Availability f = ''offline'' then Some ReasonMissingFiles else None
            | _ \<Rightarrow> Some ReasonMissingFiles))"

definition file_bytes :: "disk \<Rightarrow> unit_file \<Rightarrow> i64" where
  "file_bytes d f = (case map_of d (uf_Abs f) of Some (FileNode c) \<Rightarrow> int (length c) | _ \<Rightarrow> 0)"

definition op_safe :: "(string \<Rightarrow> string \<Rightarrow> bool) \<Rightarrow> library \<Rightarrow> library \<Rightarrow> fs_op \<Rightarrow> bool" where
  "op_safe inside src dest x \<longleftrightarrow>
     within (lib_RootPath dest) (op_Dst x) \<and> inside (lib_RootPath dest) (op_Dst x) \<and>
     within (lib_RootPath src) (op_Src x) \<and> inside (lib_RootPath src) (op_Src x)"

record plan_item =
  pi_Kind :: string
  pi_ID :: string
  pi_Title :: string
  pi_Source :: string
  pi_Files :: nat
  pi_Bytes :: i64
  pi_Target :: string
  pi_Renamed :: bool
  pi_Reason :: "move_reason option"

definition rejected :: "move_unit \<Rightarrow> move_reason \<Rightarrow> plan_item" where
  "rejected u reason =
     \<lparr>pi_Kind = mu_Kind u, pi_ID = mu_ID u, pi_Title = mu_Title u, pi_Source = mu_LibraryID u, pi_Files = length (mu_Files u),
      pi_Bytes = 0, pi_Target = [], pi_Renamed = False, pi_Reason = Some reason\<rparr>"

definition plan_item_of :: "unit_plan \<Rightarrow> plan_item" where
  "plan_item_of p =
     (let u = up_unit p
      in \<lparr>pi_Kind = mu_Kind u, pi_ID = mu_ID u, pi_Title = mu_Title u, pi_Source = mu_LibraryID u, pi_Files = length (mu_Files u),
          pi_Bytes = up_bytes p, pi_Target = up_target p, pi_Renamed = up_renamed p, pi_Reason = None\<rparr>)"

record plan_answers =
  pa_contained :: "string \<Rightarrow> string \<Rightarrow> bool"
  pa_letter :: "string \<Rightarrow> bool"

definition planUnit :: "plan_answers \<Rightarrow> catalogue \<Rightarrow> disk \<Rightarrow> string \<times> string \<Rightarrow> library \<Rightarrow> reservations
    \<Rightarrow> (plan_item + unit_plan) \<times> reservations" where
  "planUnit a ct d ref dest r =
     (case loadUnit ct (fst ref) (snd ref) of
        None \<Rightarrow> (Inl \<lparr>pi_Kind = fst ref, pi_ID = snd ref, pi_Title = snd ref, pi_Source = [], pi_Files = 0, pi_Bytes = 0,
                      pi_Target = [], pi_Renamed = False, pi_Reason = Some ReasonNotFound\<rparr>, r)
      | Some u \<Rightarrow>
         (case map_of (ct_libraries ct) (mu_LibraryID u) of
            None \<Rightarrow> (Inl (rejected u ReasonRemote), r)
          | Some src \<Rightarrow>
              if lib_ID src = lib_ID dest then (Inl (rejected u ReasonSameLibrary), r)
              else if \<not> Accepts (lib_ContentType dest) (mu_Kind u) then (Inl (rejected u ReasonIncompatible), r)
              else if duplicateIn ct u (lib_ID dest) then (Inl (rejected u ReasonDuplicate), r)
              else if mu_Files u = [] then (Inl (rejected u ReasonNoFiles), r)
              else (case List.map_filter (file_refused (pa_contained a) d src) (mu_Files u) of
                      reason # _ \<Rightarrow> (Inl (rejected u reason), r)
                    | [] \<Rightarrow>
                        (let p = \<lparr>up_unit = u, up_src = src, up_dest = lib_ID dest, up_ops = [], up_files = [], up_target = [],
                                  up_renamed = False, up_pruneDirs = [], up_bytes = sum_list (map (file_bytes d) (mu_Files u))\<rparr>;
                             (p, r) = (case planFolder ct d p dest r of Some x \<Rightarrow> x | None \<Rightarrow> planFiles (pa_letter a) d p dest r)
                         in if list_all (op_safe (pa_contained a) src dest) (up_ops p) then (Inr p, r)
                            else (Inl (rejected u ReasonUnsafePath), r)))))"

datatype plan_error = ErrMoveDestination | ErrMoveNothing | ErrMoveTooMany | ErrLibraryNotFound

record move_request =
  mq_Source :: string
  mq_Dest :: string
  mq_Items :: "(string \<times> string) list"
  mq_All :: bool

fun plan_refs :: "plan_answers \<Rightarrow> catalogue \<Rightarrow> disk \<Rightarrow> library \<Rightarrow> (string \<times> string) list \<Rightarrow> string list
    \<Rightarrow> plan_item list \<times> unit_plan list \<times> reservations \<Rightarrow> plan_item list \<times> unit_plan list \<times> reservations" where
  "plan_refs a ct d dest [] seen acc = acc"
| "plan_refs a ct d dest (ref # refs) seen (bad, plans, r) =
     (let key = fst ref @ ''/'' @ snd ref
      in if key \<in> set seen then plan_refs a ct d dest refs seen (bad, plans, r)
         else (case planUnit a ct d ref dest r of
                 (Inl item, r) \<Rightarrow> plan_refs a ct d dest refs (key # seen) (bad @ [item], plans, r)
               | (Inr p, r) \<Rightarrow> plan_refs a ct d dest refs (key # seen) (bad, plans @ [p], r)))"

record move_plan =
  mp_Destination :: library
  mp_Eligible :: "plan_item list"
  mp_Ineligible :: "plan_item list"
  mp_EligibleBytes :: i64

definition plan_move :: "plan_answers \<Rightarrow> catalogue \<Rightarrow> disk \<Rightarrow> move_request \<Rightarrow> plan_error + move_plan \<times> unit_plan list" where
  "plan_move a ct d req =
     (if trimSpace (mq_Dest req) = [] then Inl ErrMoveDestination
      else (case map_of (ct_libraries ct) (mq_Dest req) of
              None \<Rightarrow> Inl ErrLibraryNotFound
            | Some dest \<Rightarrow>
                if mq_All req \<and> mq_Source req = [] then Inl ErrMoveNothing
                else if mq_All req \<and> map_of (ct_libraries ct) (mq_Source req) = None then Inl ErrLibraryNotFound
                else (let refs = (if mq_All req then libraryTitles ct (mq_Source req) else mq_Items req)
                      in if refs = [] \<and> \<not> mq_All req then Inl ErrMoveNothing
                         else if length refs > MaxMoveItems then Inl ErrMoveTooMany
                         else (case plan_refs a ct d dest refs [] ([], [], newReservations ct dest) of
                                 (bad, plans, r) \<Rightarrow>
                                   Inr (\<lparr>mp_Destination = dest, mp_Eligible = map plan_item_of plans, mp_Ineligible = bad,
                                         mp_EligibleBytes = sum_list (map up_bytes plans)\<rparr>, plans)))))"

end
