(* ===== verification/Move_Job.thy ===== *)
theory Move_Job
  imports Move_Plan
begin

text \<open>
  Carrying out a move, and recovering from a crash (\<^verbatim>\<open>src/internal/library/move_job.go\<close>). The journal is
  a row per title: \<^verbatim>\<open>pending\<close>, \<^verbatim>\<open>moving\<close> while its files move, \<^verbatim>\<open>fs_done\<close> when they have, and \<^verbatim>\<open>moved\<close> when
  the catalogue has followed. The JSON of the operations in a row is the list itself. Progress in
  bytes and times of changes are left out, and messages keep the fixed part of their text.
\<close>

section \<open>The journal\<close>

definition moveItemPending :: string where "moveItemPending = ''pending''"
definition moveItemMoving :: string where "moveItemMoving = ''moving''"
definition moveItemFSDone :: string where "moveItemFSDone = ''fs_done''"
definition moveItemMoved :: string where "moveItemMoved = ''moved''"
definition moveItemSkipped :: string where "moveItemSkipped = ''skipped''"
definition moveItemFailed :: string where "moveItemFailed = ''failed''"
definition moveItemRolledBack :: string where "moveItemRolledBack = ''rolled_back''"

lemmas move_status_defs = moveItemPending_def moveItemMoving_def moveItemFSDone_def moveItemMoved_def
  moveItemSkipped_def moveItemFailed_def moveItemRolledBack_def

definition setItem :: "string \<Rightarrow> string \<Rightarrow> string \<Rightarrow> move_world \<Rightarrow> move_world" where
  "setItem row status msg =
     world_write (\<lambda>w. case map_of (mw_items w) row of
                        None \<Rightarrow> w
                      | Some it \<Rightarrow> w\<lparr>mw_items := set_key row (it\<lparr>mi_Status := status, mi_Message := msg\<rparr>) (mw_items w)\<rparr>)"

definition friendlyMoveErr :: "move_error \<Rightarrow> string" where
  "friendlyMoveErr e =
     (case e of ErrDestinationExists \<Rightarrow> ''something already exists at the destination and was not replaced''
      | ErrMoveIO \<Rightarrow> ''the file system refused''
      | ErrCopyFailed \<Rightarrow> ''copy to the other drive failed''
      | ErrNotVerified \<Rightarrow> ''copy did not verify''
      | Leftover \<Rightarrow> ''moved, but the original could not be removed''
      | ErrCatalogue \<Rightarrow> ''the catalogue could not be updated'')"

section \<open>The catalogue follows the files\<close>

definition repoint :: "string \<Rightarrow> file_dest \<Rightarrow> (string \<times> media_row) list \<Rightarrow> (string \<times> media_row) list" where
  "repoint dest f ms =
     (case map_of ms (fd_ID f) of
        None \<Rightarrow> ms
      | Some m \<Rightarrow> set_key (fd_ID f) (m\<lparr>mf_Library := dest, mf_Rel := fd_Rel f, mf_Abs := fd_Abs f, mf_Availability := ''online''\<rparr>) ms)"

definition moved_catalogue :: "string \<Rightarrow> string \<Rightarrow> file_dest list \<Rightarrow> string \<Rightarrow> catalogue \<Rightarrow> catalogue" where
  "moved_catalogue kind tid files dest ct =
     (let key = (if kind = KindSeries then KindSeries else KindMovie, tid)
      in ct\<lparr>ct_media := fold (repoint dest) files (ct_media ct),
            ct_titles := (case map_of (ct_titles ct) key of
                            None \<Rightarrow> ct_titles ct
                          | Some t \<Rightarrow> set_key key (t\<lparr>tr_Library := dest\<rparr>) (ct_titles ct))\<rparr>)"

definition applyMove :: "move_answers \<Rightarrow> string \<Rightarrow> string \<Rightarrow> file_dest list \<Rightarrow> string \<Rightarrow> move_world \<Rightarrow> move_world \<times> bool" where
  "applyMove a kind tid files dest w =
     (if dest = [] \<or> \<not> ma_tx a then (w, False)
      else (world_write (\<lambda>w. w\<lparr>mw_cat := moved_catalogue kind tid files dest (mw_cat w)\<rparr>) w, True))"

section \<open>Moving one title\<close>

fun move_ops :: "move_answers \<Rightarrow> string \<Rightarrow> nat \<Rightarrow> fs_op list \<Rightarrow> nat list \<times> string list \<times> move_error list \<Rightarrow> move_world
    \<Rightarrow> move_world \<times> (nat list \<times> string list \<times> move_error list) \<times> move_error option" where
  "move_ops a row i [] acc w = (w, acc, None)"
| "move_ops a row i (x # xs) (finished, made, notes) w =
     (case MkdirOwned a (filepathDir (op_Dst x)) w of
        (w, dirs, ok) \<Rightarrow>
          if \<not> ok then (w, (finished, made @ dirs, notes), Some ErrMoveIO)
          else (case moveEntry a (op_Src x) (op_Dst x) (tmpName (op_Dst x) row i) w of
                  (w, None) \<Rightarrow> move_ops a row (Suc i) xs (finished @ [i], made @ dirs, notes) w
                | (w, Some e) \<Rightarrow>
                    if e = Leftover then move_ops a row (Suc i) xs (finished @ [i], made @ dirs, notes @ [e]) w
                    else (w, (finished, made @ dirs, notes), Some e)))"

fun undo_ops :: "move_answers \<Rightarrow> fs_op list \<Rightarrow> string \<Rightarrow> nat list \<Rightarrow> move_world \<Rightarrow> move_world \<times> bool" where
  "undo_ops a ops row [] w = (w, True)"
| "undo_ops a ops row (i # is) w =
     (case moveEntry a (op_Dst (ops ! i)) (op_Src (ops ! i)) (tmpName (op_Src (ops ! i)) (row @ ''-back'') i) w of
        (w, e) \<Rightarrow> (case undo_ops a ops row is w of (w, ok) \<Rightarrow> (w, ok \<and> (e = None \<or> e = Some Leftover))))"

text \<open>The operations that were finished are put back, the last one first.\<close>

definition rollbackOps :: "move_answers \<Rightarrow> fs_op list \<Rightarrow> nat list \<Rightarrow> string \<Rightarrow> move_world \<Rightarrow> move_world \<times> bool" where
  "rollbackOps a ops finished row w = undo_ops a ops row (rev finished) w"

definition undo_unit :: "move_answers \<Rightarrow> fs_op list \<Rightarrow> string \<Rightarrow> nat list \<Rightarrow> string list \<Rightarrow> move_error \<Rightarrow> move_world \<Rightarrow> move_world \<times> string" where
  "undo_unit a ops row finished made cause w =
     (case rollbackOps a ops finished row w of
        (w, False) \<Rightarrow> (setItem row moveItemFailed (friendlyMoveErr cause @ ''; putting the files back also failed. The catalogue still lists the original location.'') w, moveItemFailed)
      | (w, True) \<Rightarrow> (setItem row moveItemFailed (friendlyMoveErr cause @ ''. Nothing was moved.'') (removeCreated made w), moveItemFailed))"

definition prune_one :: "library \<Rightarrow> string \<Rightarrow> move_world \<Rightarrow> move_world" where
  "prune_one src p w = (if p \<noteq> lib_RootPath src \<and> within (lib_RootPath src) p then os_remove p w else w)"

definition executeUnit :: "move_answers \<Rightarrow> string \<Rightarrow> unit_plan \<Rightarrow> move_world \<Rightarrow> move_world \<times> string" where
  "executeUnit a row p w =
     (let w = setItem row moveItemMoving [] w
      in case move_ops a row 0 (up_ops p) ([], [], []) w of
           (w, (finished, made, notes), Some e) \<Rightarrow> undo_unit a (up_ops p) row finished made e w
         | (w, (finished, made, notes), None) \<Rightarrow>
             (case applyMove a (mu_Kind (up_unit p)) (mu_ID (up_unit p)) (up_files p) (up_dest p) (setItem row moveItemFSDone [] w) of
                (w, False) \<Rightarrow> undo_unit a (up_ops p) row finished made ErrCatalogue w
              | (w, True) \<Rightarrow>
                  (setItem row moveItemMoved (joinWith ''; '' (map friendlyMoveErr notes)) (fold (prune_one (up_src p)) (up_pruneDirs p) w),
                   moveItemMoved)))"

section \<open>Recovery\<close>

fun clear_partials :: "move_answers \<Rightarrow> string \<Rightarrow> nat \<Rightarrow> fs_op list \<Rightarrow> move_world \<Rightarrow> move_world \<times> bool list" where
  "clear_partials a row i [] w = (w, [])"
| "clear_partials a row i (x # xs) w =
     (let w = fst (removeAll a (tmpName (op_Dst x) row i) w); here = path_exists (op_Dst x) (mw_disk w)
      in case clear_partials a row (Suc i) xs w of (w, rest) \<Rightarrow> (w, here # rest))"

definition clear_source :: "move_answers \<Rightarrow> string \<Rightarrow> move_world \<Rightarrow> move_world" where
  "clear_source a p w = (if path_exists p (mw_disk w) then fst (removeAll a p w) else w)"

fun put_back :: "move_answers \<Rightarrow> string \<Rightarrow> (nat \<times> fs_op \<times> bool) list \<Rightarrow> move_world \<Rightarrow> move_world \<times> bool" where
  "put_back a row [] w = (w, True)"
| "put_back a row ((i, x, complete) # xs) w =
     (if \<not> complete then put_back a row xs w
      else (case moveEntry a (op_Dst x) (op_Src x) (tmpName (op_Src x) (row @ ''-back'') i) (clear_source a (op_Src x) w) of
              (w, e) \<Rightarrow> (case put_back a row xs w of (w, ok) \<Rightarrow> (w, ok \<and> (e = None \<or> e = Some Leftover)))))"

definition recoverItem :: "move_answers \<Rightarrow> string \<Rightarrow> move_item \<Rightarrow> move_world \<Rightarrow> move_world \<times> string \<times> string" where
  "recoverItem a row it w =
     (let finish = (\<lambda>w. case applyMove a (mi_Kind it) (mi_ItemID it) (mi_Files it) (mi_Dest it) w of
                          (w, True) \<Rightarrow> (w, moveItemMoved, ''Finished after ViewDock restarted.'')
                        | (w, False) \<Rightarrow> (w, moveItemFailed, ''Interrupted after the files moved; the catalogue could not be updated''))
      in if mi_Status it = moveItemFSDone then finish w
         else (case clear_partials a row 0 (mi_Ops it) w of
                 (w, complete) \<Rightarrow>
                   if list_all id complete \<and> mi_Ops it \<noteq> []
                   then finish (fold (\<lambda>x. clear_source a (op_Src x)) (mi_Ops it) w)
                   else (case put_back a row (rev (zip [0..<length (mi_Ops it)] (zip (mi_Ops it) complete))) w of
                           (w, True) \<Rightarrow> (w, moveItemRolledBack, ''Interrupted by a restart; the files were put back where they were.'')
                         | (w, False) \<Rightarrow> (w, moveItemFailed, ''Interrupted mid-move and the files could not all be put back''))))"

text \<open>A row of the journal at startup.\<close>

definition recover_row :: "move_answers \<Rightarrow> string \<times> move_item \<Rightarrow> move_world \<Rightarrow> move_world" where
  "recover_row a e w =
     (case e of (row, it) \<Rightarrow> (case recoverItem a row it w of (w, status, msg) \<Rightarrow> setItem row status msg w))"

definition interrupted :: "move_item \<Rightarrow> bool" where
  "interrupted it \<longleftrightarrow> mi_Status it \<in> {moveItemMoving, moveItemFSDone}"

definition count_items :: "string \<Rightarrow> string set \<Rightarrow> (string \<times> move_item) list \<Rightarrow> nat" where
  "count_items job statuses items = length (filter (\<lambda>(row, it). mi_Job it = job \<and> mi_Status it \<in> statuses) items)"

definition skip_pending :: "move_world \<Rightarrow> move_world" where
  "skip_pending =
     world_write (\<lambda>w. w\<lparr>mw_items := map (\<lambda>(row, it).
        (row, if mi_Status it = moveItemPending \<and> (case map_of (mw_jobs w) (mi_Job it) of Some j \<Rightarrow> mj_Status j = ''running'' | None \<Rightarrow> False)
              then it\<lparr>mi_Status := moveItemSkipped, mi_Reason := ''interrupted'',
                      mi_Message := ''ViewDock restarted before this title was moved. Nothing changed.''\<rparr>
              else it)) (mw_items w)\<rparr>)"

definition close_job :: "string \<Rightarrow> move_world \<Rightarrow> move_world" where
  "close_job job =
     world_write (\<lambda>w. case map_of (mw_jobs w) job of
        None \<Rightarrow> w
      | Some j \<Rightarrow> w\<lparr>mw_jobs := set_key job (j\<lparr>mj_Status := ''interrupted'',
                      mj_Moved := count_items job {moveItemMoved} (mw_items w),
                      mj_Skipped := count_items job {moveItemSkipped} (mw_items w),
                      mj_Failed := count_items job {moveItemFailed, moveItemRolledBack} (mw_items w)\<rparr>) (mw_jobs w)\<rparr>)"

definition RecoverMoves :: "move_answers \<Rightarrow> move_world \<Rightarrow> move_world" where
  "RecoverMoves a w =
     (let todo = filter (\<lambda>(row, it). interrupted it) (mw_items w);
          w = skip_pending (fold (recover_row a) todo w);
          running = map fst (filter (\<lambda>(job, j). mj_Status j = ''running'') (mw_jobs w))
      in fold close_job running w)"

section \<open>Jobs\<close>

definition run_units :: "(nat \<Rightarrow> move_answers) \<Rightarrow> string \<Rightarrow> (nat \<times> string \<times> unit_plan) list \<Rightarrow> nat \<times> nat \<Rightarrow> move_world \<Rightarrow> move_world \<times> nat \<times> nat" where
  "run_units a job units counts w =
     foldl (\<lambda>(w, moved, failed) (i, row, p).
        case executeUnit (a i) row p w of
          (w, status) \<Rightarrow>
            (let (moved, failed) = (if status = moveItemMoved then (Suc moved, failed) else (moved, Suc failed))
             in (world_write (\<lambda>w. case map_of (mw_jobs w) job of
                    None \<Rightarrow> w
                  | Some j \<Rightarrow> w\<lparr>mw_jobs := set_key job (j\<lparr>mj_Moved := moved, mj_Failed := failed\<rparr>) (mw_jobs w)\<rparr>) w, moved, failed)))
       (w, counts) units"

definition runMove :: "(nat \<Rightarrow> move_answers) \<Rightarrow> string \<Rightarrow> (string \<times> unit_plan) list \<Rightarrow> move_world \<Rightarrow> move_world" where
  "runMove a job units w =
     (case run_units a job (zip [0..<length units] units) (0, 0) w of
        (w, moved, failed) \<Rightarrow>
          world_write (\<lambda>w. case map_of (mw_jobs w) job of
              None \<Rightarrow> w
            | Some j \<Rightarrow> w\<lparr>mw_jobs := set_key job (j\<lparr>mj_Status := (if moved = 0 \<and> failed > 0 then ''failed'' else ''done''),
                                                       mj_Moved := moved, mj_Failed := failed\<rparr>) (mw_jobs w)\<rparr>) w)"

definition item_row :: "string \<Rightarrow> string \<Rightarrow> unit_plan \<Rightarrow> move_item" where
  "item_row job dest p =
     \<lparr>mi_Job = job, mi_Kind = mu_Kind (up_unit p), mi_ItemID = mu_ID (up_unit p), mi_Dest = dest, mi_Status = moveItemPending,
      mi_Reason = [], mi_Message = [], mi_Target = up_target p, mi_Ops = up_ops p, mi_Files = up_files p\<rparr>"

definition reason_text :: "move_reason option \<Rightarrow> string" where
  "reason_text r =
     (case r of None \<Rightarrow> [] | Some ReasonIncompatible \<Rightarrow> ''incompatible'' | Some ReasonSameLibrary \<Rightarrow> ''same_library''
      | Some ReasonDuplicate \<Rightarrow> ''duplicate'' | Some ReasonRemote \<Rightarrow> ''remote'' | Some ReasonNotFound \<Rightarrow> ''not_found''
      | Some ReasonNoFiles \<Rightarrow> ''no_files'' | Some ReasonMissingFiles \<Rightarrow> ''missing_files'' | Some ReasonUnsafePath \<Rightarrow> ''unsafe_path'')"

definition skipped_row :: "string \<Rightarrow> string \<Rightarrow> plan_item \<Rightarrow> move_item" where
  "skipped_row job dest it =
     \<lparr>mi_Job = job, mi_Kind = pi_Kind it, mi_ItemID = pi_ID it, mi_Dest = dest, mi_Status = moveItemSkipped,
      mi_Reason = reason_text (pi_Reason it), mi_Message = [], mi_Target = [], mi_Ops = [], mi_Files = []\<rparr>"

text \<open>The new rows of a job are one transaction; \<open>rows\<close> are the fresh ids of its items.\<close>

definition insertJob :: "string \<Rightarrow> move_plan \<Rightarrow> unit_plan list \<Rightarrow> string list \<Rightarrow> move_world \<Rightarrow> move_world" where
  "insertJob job plan units rows =
     (let dest = lib_ID (mp_Destination plan);
          items = map (item_row job dest) units @ map (skipped_row job dest) (mp_Ineligible plan);
          j = \<lparr>mj_Dest = dest, mj_Status = (if units = [] then ''done'' else ''running''), mj_Total = length items,
               mj_Moved = 0, mj_Skipped = length (mp_Ineligible plan), mj_Failed = 0\<rparr>
      in world_write (\<lambda>w. w\<lparr>mw_items := mw_items w @ zip rows items, mw_jobs := mw_jobs w @ [(job, j)]\<rparr>))"

end
