(* ===== verification/Move_Trees.thy ===== *)
theory Move_Trees
  imports Move_Files
begin

text \<open>
  Trees of the disk. \<open>look p d\<close> is the tree at a path, as a map from the rest of a path to its node; every
  change of the disk is described by what it does to the trees at paths none of which is inside
  another, and the operations of a move by the trees they touch.
\<close>

definition sub_path :: "string \<Rightarrow> bool" where
  "sub_path r \<longleftrightarrow> r = [] \<or> hd r = CHR ''/''"

definition look :: "string \<Rightarrow> disk \<Rightarrow> string \<rightharpoonup> node" where
  "look p d = (\<lambda>r. if sub_path r then map_of d (p @ r) else None)"

definition apart :: "string \<Rightarrow> string \<Rightarrow> bool" where
  "apart p q \<longleftrightarrow> \<not> below p q \<and> \<not> below q p"

text \<open>A tree is a tree: below a path that is not there, there is nothing.\<close>

definition rooted :: "string \<Rightarrow> disk \<Rightarrow> bool" where
  "rooted p d \<longleftrightarrow> (look p d [] = None \<longrightarrow> look p d = Map.empty)"

lemma below_iff: "below p q \<longleftrightarrow> (\<exists>r. q = p @ r \<and> sub_path r)"
proof
  assume "below p q"
  then consider "q = p" | s where "q = p @ ''/'' @ s" by (auto simp: below_def hasPrefix_iff)
  then show "\<exists>r. q = p @ r \<and> sub_path r"
  proof cases
    case 1
    then show ?thesis by (intro exI [of _ "[]"]) (simp add: sub_path_def)
  next
    case (2 s)
    then show ?thesis by (intro exI [of _ "''/'' @ s"]) (simp add: sub_path_def)
  qed
next
  assume "\<exists>r. q = p @ r \<and> sub_path r"
  then obtain r where r: "q = p @ r" "sub_path r" by blast
  then show "below p q" by (cases r) (auto simp: below_def hasPrefix_iff sub_path_def)
qed

lemma below_refl [simp]: "below p p" by (simp add: below_def)

lemma below_append [simp]: "below p (p @ r) \<longleftrightarrow> sub_path r"
  by (auto simp: below_iff)

lemma below_trans: "below p q \<Longrightarrow> below q x \<Longrightarrow> below p x"
  by (auto simp: below_iff sub_path_def hd_append)

lemma below_length: "below p q \<Longrightarrow> length p \<le> length q"
  by (auto simp: below_iff)

lemma below_comparable:
  assumes "below p x" "below q x"
  shows "below p q \<or> below q p"
proof -
  obtain r where r: "x = p @ r" "sub_path r" using assms(1) unfolding below_iff by blast
  obtain s where s: "x = q @ s" "sub_path s" using assms(2) unfolding below_iff by blast
  note rs = r(1) s(1) r(2) s(2)
  then have "p @ r = q @ s" by simp
  then obtain u where "p = q @ u \<and> u @ r = s \<or> p @ u = q \<and> r = u @ s" by (auto simp: append_eq_append_conv2)
  then show ?thesis
  proof
    assume u: "p = q @ u \<and> u @ r = s"
    then have "sub_path u" using rs(4) by (cases u) (auto simp: sub_path_def)
    then show ?thesis using u by simp
  next
    assume u: "p @ u = q \<and> r = u @ s"
    then have "sub_path u" using rs(3) by (cases u) (auto simp: sub_path_def)
    then show ?thesis using u by auto
  qed
qed

lemma apart_below: "apart p q \<Longrightarrow> below p x \<Longrightarrow> \<not> below q x"
  using below_comparable by (auto simp: apart_def)

lemma apart_sym: "apart p q \<longleftrightarrow> apart q p"
  by (auto simp: apart_def)

lemma apart_neq: "apart p q \<Longrightarrow> p \<noteq> q"
  by (auto simp: apart_def)

lemma look_Nil: "look p d [] = map_of d p"
  by (simp add: look_def sub_path_def)

lemma exists_look: "path_exists p d \<longleftrightarrow> look p d [] \<noteq> None"
  by (simp add: path_exists_def has_key_def look_Nil)

lemma look_cong: "(\<And>x. below p x \<Longrightarrow> map_of d' x = map_of d x) \<Longrightarrow> look p d' = look p d"
  by (auto simp: look_def fun_eq_iff)

lemma look_empty_iff: "look p d = Map.empty \<longleftrightarrow> (\<forall>x. below p x \<longrightarrow> map_of d x = None)"
  by (auto simp: look_def fun_eq_iff below_iff)

lemma rooted_cong: "look p d' = look p d \<Longrightarrow> rooted p d' = rooted p d"
  by (simp add: rooted_def)

lemma rooted_absent: "rooted p d \<Longrightarrow> \<not> path_exists p d \<Longrightarrow> look p d = Map.empty"
  by (simp add: rooted_def exists_look)

lemma rooted_empty: "look p d = Map.empty \<Longrightarrow> rooted p d"
  by (simp add: rooted_def)

lemma rooted_present: "look p d [] = Some n \<Longrightarrow> rooted p d"
  by (simp add: rooted_def)

section \<open>Renaming\<close>

lemma rename_tree_simps [simp]:
  "rename_tree src dst [] = []"
  "rename_tree src dst ((q, n) # d) = (if below src q then dst @ drop (length src) q else q, n) # rename_tree src dst d"
  by (simp_all add: rename_tree_def)

lemma renamed_below: "below src q \<Longrightarrow> below dst (dst @ drop (length src) q)"
  by (auto simp: below_iff [of src])

lemma map_of_rename_other:
  assumes "\<not> below src x" "\<not> below dst x"
  shows "map_of (rename_tree src dst d) x = map_of d x"
proof (induction d)
  case (Cons e d)
  then show ?case using assms renamed_below by (cases e) (auto split: if_splits)
qed simp

lemma map_of_rename_dst:
  assumes "\<forall>(q, n) \<in> set d. \<not> below dst q" "sub_path r"
  shows "map_of (rename_tree src dst d) (dst @ r) = map_of d (src @ r)"
  using assms(1)
proof (induction d)
  case Nil
  then show ?case by simp
next
  case (Cons e d)
  obtain q n where e: "e = (q, n)" by force
  have IH: "map_of (rename_tree src dst d) (dst @ r) = map_of d (src @ r)" using Cons by simp
  show ?case
  proof (cases "below src q")
    case True
    then obtain s where "q = src @ s" unfolding below_iff by blast
    then show ?thesis using IH e True by simp
  next
    case False
    then have "src @ r \<noteq> q" "dst @ r \<noteq> q" using Cons.prems e assms(2) by auto
    then show ?thesis using IH e False by simp
  qed
qed

lemma map_of_rename_src:
  assumes "apart src dst" "below src x"
  shows "map_of (rename_tree src dst d) x = None"
proof -
  have no: "\<not> below dst x" by (rule apart_below [OF assms])
  show ?thesis
  proof (induction d)
    case (Cons e d)
    then show ?case using no assms(2) renamed_below by (cases e) auto
  qed simp
qed

lemma no_entry_below: "look p d = Map.empty \<Longrightarrow> \<forall>(q, n) \<in> set d. \<not> below p q"
  unfolding look_empty_iff map_of_eq_None_iff by force

lemma look_rename:
  assumes "apart src dst" "look dst d = Map.empty"
  shows "look dst (rename_tree src dst d) = look src d"
    "look src (rename_tree src dst d) = Map.empty"
    "apart q src \<Longrightarrow> apart q dst \<Longrightarrow> look q (rename_tree src dst d) = look q d"
proof -
  show "look dst (rename_tree src dst d) = look src d"
    using map_of_rename_dst [OF no_entry_below [OF assms(2)]] by (auto simp: look_def fun_eq_iff)
  show "look src (rename_tree src dst d) = Map.empty"
    using map_of_rename_src [OF assms(1)] by (auto simp: look_empty_iff)
  show "look q (rename_tree src dst d) = look q d" if "apart q src" "apart q dst"
    using apart_below that map_of_rename_other by (intro look_cong) blast
qed

section \<open>Single nodes\<close>

lemma look_del_other: "\<not> below p x \<Longrightarrow> look p (del_key x d) = look p d"
  by (rule look_cong) auto

lemma look_del: "look p (del_key (p @ r) d) = (look p d)(r := None)"
  by (auto simp: look_def fun_eq_iff)

lemma look_add_other: "\<not> below p x \<Longrightarrow> look p (d @ [(x, n)]) = look p d"
  by (rule look_cong) (auto simp: map_add_def split: option.splits)

lemma look_set_other: "\<not> below p x \<Longrightarrow> look p (set_key x n d) = look p d"
  by (rule look_cong) auto

lemma map_of_add_new: "map_of d x = None \<Longrightarrow> map_of (d @ [(x, n)]) = (map_of d)(x \<mapsto> n)"
  by (auto simp: fun_eq_iff map_add_def split: option.splits)

lemma look_add: "look p d r = None \<Longrightarrow> sub_path r \<Longrightarrow> look p (d @ [(p @ r, n)]) = (look p d)(r \<mapsto> n)"
  by (auto simp: look_def fun_eq_iff map_add_def split: option.splits)

lemma look_set: "sub_path r \<Longrightarrow> look p (set_key (p @ r) n d) = (look p d)(r \<mapsto> n)"
  by (auto simp: look_def fun_eq_iff)

section \<open>The nodes of a tree\<close>

lemma keys_tree_nodes: "map fst (tree_nodes p d) = (let ps = remdups (filter (below p) (keys d)) in filter (\<lambda>q. q = p) ps @ filter (\<lambda>q. q \<noteq> p) ps)"
  by (simp add: tree_nodes_def Let_def comp_def)

lemma set_tree_nodes: "set (map fst (tree_nodes p d)) = {q. below p q \<and> map_of d q \<noteq> None}"
  unfolding keys_tree_nodes Let_def
  by (auto simp: keys_def map_of_eq_None_iff)

lemma distinct_tree_nodes: "distinct (map fst (tree_nodes p d))"
  unfolding keys_tree_nodes Let_def by auto

lemma tree_node: "(q, n) \<in> set (tree_nodes p d) \<Longrightarrow> below p q \<and> map_of d q = Some n"
  by (auto simp: tree_nodes_def Let_def keys_def dest: weak_map_of_SomeI)

lemma map_of_tree_nodes: "map_of (tree_nodes p d) x = (if below p x then map_of d x else None)"
proof (cases "x \<in> set (map fst (tree_nodes p d))")
  case True
  then obtain n where "(x, n) \<in> set (tree_nodes p d)" by auto
  moreover from this have "map_of (tree_nodes p d) x = Some n" using distinct_tree_nodes by (simp add: map_of_eq_Some_iff)
  ultimately show ?thesis using tree_node by fastforce
next
  case False
  then have "map_of (tree_nodes p d) x = None" by (simp add: map_of_eq_None_iff)
  moreover have "\<not> (below p x \<and> map_of d x \<noteq> None)" using False unfolding set_tree_nodes by blast
  ultimately show ?thesis by auto
qed

text \<open>The root comes first.\<close>

lemma filter_single: "distinct xs \<Longrightarrow> p \<in> set xs \<Longrightarrow> filter (\<lambda>q. q = p) xs = [p]"
  by (induction xs) (auto simp: filter_empty_conv)

lemma tree_nodes_root:
  assumes "path_exists p d"
  shows "\<exists>n rest. tree_nodes p d = (p, n) # rest \<and> p \<notin> set (map fst rest)"
proof -
  have "p \<in> set (remdups (filter (below p) (keys d)))" using assms by (simp add: path_exists_def has_key_iff)
  then have "filter (\<lambda>q. q = p) (remdups (filter (below p) (keys d))) = [p]"
    by (intro filter_single) simp_all
  then have "map fst (tree_nodes p d) = p # filter (\<lambda>q. q \<noteq> p) (remdups (filter (below p) (keys d)))"
    unfolding keys_tree_nodes Let_def by simp
  then obtain e rest where e: "tree_nodes p d = e # rest" "fst e = p" "map fst rest = filter (\<lambda>q. q \<noteq> p) (remdups (filter (below p) (keys d)))"
    by (cases "tree_nodes p d") auto
  have no: "p \<notin> set (map fst rest)" unfolding e(3) by simp
  obtain n where "e = (p, n)" using e(2) by (cases e) simp
  then show ?thesis using e(1) no by blast
qed

section \<open>Operations that touch some trees only\<close>

text \<open>\<open>touches ps w w'\<close>: between the two worlds only trees at \<open>ps\<close> have changed, no table has, and nothing at all once
  the process is dead.\<close>

definition same_tables :: "move_world \<Rightarrow> move_world \<Rightarrow> bool" where
  "same_tables w w' \<longleftrightarrow> mw_items w' = mw_items w \<and> mw_jobs w' = mw_jobs w \<and> mw_cat w' = mw_cat w"

definition touches :: "string set \<Rightarrow> move_world \<Rightarrow> move_world \<Rightarrow> bool" where
  "touches ps w w' \<longleftrightarrow> same_tables w w' \<and> (\<not> alive w \<longrightarrow> w' = w) \<and> (mw_left w = None \<longrightarrow> mw_left w' = None) \<and>
     (\<forall>q. (\<forall>p \<in> ps. apart q p) \<longrightarrow> look q (mw_disk w') = look q (mw_disk w))"

lemma touches_refl [simp]: "touches ps w w"
  by (simp add: touches_def same_tables_def)

lemma touches_trans: "touches ps w w' \<Longrightarrow> touches ps w' w'' \<Longrightarrow> touches ps w w''"
  by (auto simp: touches_def same_tables_def)

lemma touches_mono: "touches ps w w' \<Longrightarrow> ps \<subseteq> qs \<Longrightarrow> touches qs w w'"
  by (auto simp: touches_def)

lemma touches_look: "touches ps w w' \<Longrightarrow> (\<And>p. p \<in> ps \<Longrightarrow> apart q p) \<Longrightarrow> look q (mw_disk w') = look q (mw_disk w)"
  by (auto simp: touches_def)

lemma touches_dead: "touches ps w w' \<Longrightarrow> \<not> alive w \<Longrightarrow> w' = w"
  by (simp add: touches_def)

lemma touches_alive: "touches ps w w' \<Longrightarrow> alive w' \<Longrightarrow> alive w"
  by (auto simp: touches_def)

lemma world_write_dead: "\<not> alive w \<Longrightarrow> world_write f w = w"
  by (simp add: world_write_def alive_def)

lemma disk_write_disk: "mw_disk (disk_write f w) = (if alive w then f (mw_disk w) else mw_disk w)"
  by (auto simp: disk_write_def world_write_def alive_def split: option.splits nat.splits)

lemma disk_write_touches:
  "(\<And>q. (\<And>p. p \<in> ps \<Longrightarrow> apart q p) \<Longrightarrow> look q (f (mw_disk w)) = look q (mw_disk w)) \<Longrightarrow> touches ps w (disk_write f w)"
  by (auto simp: touches_def same_tables_def disk_write_disk disk_write_def world_write_dead)
    (auto simp: world_write_def split: option.splits nat.splits)

section \<open>Removing a tree\<close>

lemma unlink_touches: "below p x \<Longrightarrow> touches {p} w (os_unlink x w)"
  unfolding os_unlink_def by (rule disk_write_touches) (meson apart_below look_del_other singletonI)

lemma map_of_del_keys: "map_of (fold del_key xs d) x = (if x \<in> set xs then None else map_of d x)"
  by (induction xs arbitrary: d) auto

lemma unlink_disk: "mw_disk (os_unlink x w) = (if alive w then del_key x (mw_disk w) else mw_disk w)"
  by (simp add: os_unlink_def disk_write_disk)

text \<open>Unlinking a list of paths unlinks some of the first ones, and all of them unless the process dies.\<close>

lemma unlink_prefix:
  "\<exists>m \<le> length xs. mw_disk (fold os_unlink xs w) = fold del_key (take m xs) (mw_disk w) \<and> (alive (fold os_unlink xs w) \<longrightarrow> m = length xs)"
proof (induction xs arbitrary: w)
  case (Cons x xs)
  show ?case
  proof (cases "alive w")
    case True
    obtain m where "m \<le> length xs" "mw_disk (fold os_unlink xs (os_unlink x w)) = fold del_key (take m xs) (mw_disk (os_unlink x w))"
      "alive (fold os_unlink xs (os_unlink x w)) \<longrightarrow> m = length xs" using Cons by blast
    then show ?thesis using True by (intro exI [of _ "Suc m"]) (simp add: unlink_disk)
  next
    case False
    then have "os_unlink y w = w" for y by (simp add: os_unlink_def disk_write_def world_write_dead)
    then have "fold os_unlink (x # xs) w = w" by (induction xs) auto
    then show ?thesis using False by (intro exI [of _ 0]) auto
  qed
qed simp

lemma unlinks_touch: "(\<And>x. x \<in> set xs \<Longrightarrow> below p x) \<Longrightarrow> touches {p} w (fold os_unlink xs w)"
proof (induction xs arbitrary: w)
  case (Cons x xs)
  then have "touches {p} w (os_unlink x w)" "touches {p} (os_unlink x w) (fold os_unlink xs (os_unlink x w))"
    using unlink_touches by auto
  then show ?case using touches_trans by auto
qed simp

lemma removeAll_facts:
  assumes run: "removeAll a p w = (w', ok)"
  shows "touches {p} w w'"
    and "look p (mw_disk w') \<subseteq>\<^sub>m look p (mw_disk w)"
    and "rooted p (mw_disk w) \<Longrightarrow> rooted p (mw_disk w')"
    and "ok \<Longrightarrow> alive w' \<Longrightarrow> look p (mw_disk w') = Map.empty"
    and "ma_keep a p = 0 \<Longrightarrow> ok"
proof -
  let ?d = "mw_disk w" and ?ps = "rev (map fst (tree_nodes p (mw_disk w)))"
  let ?k = "length ?ps - ma_keep a p"
  have w': "w' = fold os_unlink (take ?k ?ps) w" and ok: "ok \<longleftrightarrow> ?k = length ?ps"
    using run by (auto simp: removeAll_def Let_def)
  have all: "set ?ps = {q. below p q \<and> map_of ?d q \<noteq> None}" using set_tree_nodes by simp
  then have below: "below p x" if "x \<in> set (take n (take ?k ?ps))" for x n 
  proof -
    have "x \<in> set ?ps" using that by (blast dest: in_set_takeD)
    then show ?thesis unfolding all by simp
  qed
  from below [of _ "length ?ps"] show "touches {p} w w'" unfolding w' by (intro unlinks_touch) simp
  obtain m where m: "m \<le> length (take ?k ?ps)" "mw_disk w' = fold del_key (take m (take ?k ?ps)) ?d" "alive w' \<longrightarrow> m = length (take ?k ?ps)"
    using unlink_prefix unfolding w' by blast
  let ?gone = "take m (take ?k ?ps)"
  have d': "map_of (mw_disk w') x = (if x \<in> set ?gone then None else map_of ?d x)" for x by (simp add: m(2) map_of_del_keys)
  then show "look p (mw_disk w') \<subseteq>\<^sub>m look p ?d" by (auto simp: map_le_def look_def)
  show "look p (mw_disk w') = Map.empty" if "ok" "alive w'"
  proof -
    have "set ?gone = set ?ps" using that m(1,3) ok by simp
    then show ?thesis using all d' by (auto simp: look_empty_iff)
  qed
  show ok if "ma_keep a p = 0" using that ok by simp
  show "rooted p (mw_disk w')" if "rooted p ?d"
  proof (cases "p \<in> set ?gone")
    case False
    then have "look p (mw_disk w') [] = look p ?d []" using d' by (simp add: look_Nil)
    moreover have "look p (mw_disk w') \<subseteq>\<^sub>m look p ?d" using d' by (auto simp: map_le_def look_def)
    ultimately show ?thesis using that unfolding rooted_def by (auto simp: map_le_def fun_eq_iff)
  next
    case True
    then have "p \<in> set ?ps" by (blast dest: in_set_takeD)
    then have "path_exists p ?d" unfolding all by (simp add: exists_look look_Nil)
    then obtain n rest where "tree_nodes p ?d = (p, n) # rest" "p \<notin> set (map fst rest)" using tree_nodes_root by blast
    then have ps: "?ps = rev (map fst rest) @ [p]" "p \<notin> set (rev (map fst rest))" by auto
    have "length ?ps \<le> min m ?k"
    proof (rule ccontr)
      assume "\<not> length ?ps \<le> min m ?k"
      then have short: "min m ?k < length ?ps" by (simp only: not_le)
      define j where "j = min m ?k"
      have "j < Suc (length rest)" using short arg_cong [OF ps(1), of length] unfolding j_def by (simp only: length_append length_rev length_map list.size)
      then have "j \<le> length (rev (map fst rest))" by simp
      then have "take j ?ps = take j (rev (map fst rest))" unfolding ps(1) by simp
      moreover have "?gone = take j ?ps" by (simp add: j_def)
      ultimately show False using True ps(2) by (metis in_set_takeD)
    qed
    then have "?gone = ?ps" by simp
    then show ?thesis using all d' by (intro rooted_empty) (auto simp: look_empty_iff)
  qed
qed

end
