(* ===== verification/Move_Entry.thy ===== *)
theory Move_Entry
  imports Move_Trees
begin

text \<open>
  What moving an entry does to the trees, whether it ends or is cut short (\<open>moveEntry_facts\<close>): the tree is
  never anywhere but at its old or its new place.
\<close>

section \<open>Copying a tree\<close>

definition step_path :: "copy_step \<Rightarrow> string option" where
  "step_path st = (case st of MakeDir p \<Rightarrow> Some p | MakeFile p \<Rightarrow> Some p | FillFile p c \<Rightarrow> Some p | Refuse \<Rightarrow> None)"

lemma copy_write_touches: "(\<And>p. step_path st = Some p \<Longrightarrow> below tmp p) \<Longrightarrow> touches {tmp} w (copy_write st w)"
  by (cases st) (auto simp: copy_write_def step_path_def intro!: disk_write_touches look_add_other look_set_other dest: apart_below)

lemma copy_write_disk:
  "mw_disk (copy_write (MakeDir p) w) = (if alive w then mw_disk w @ [(p, DirNode)] else mw_disk w)"
  "mw_disk (copy_write (MakeFile p) w) = (if alive w then mw_disk w @ [(p, FileNode [])] else mw_disk w)"
  "mw_disk (copy_write (FillFile p c) w) = (if alive w then set_key p (FileNode c) (mw_disk w) else mw_disk w)"
  by (simp_all add: copy_write_def disk_write_disk)

lemma copy_write_keeps: "map_of (mw_disk w) x \<noteq> None \<Longrightarrow> map_of (mw_disk (copy_write st w)) x \<noteq> None"
  by (cases st) (auto simp: copy_write_def disk_write_disk map_add_def split: option.splits)

lemma run_copy_touches:
  "(\<And>st p. st \<in> set sts \<Longrightarrow> step_path st = Some p \<Longrightarrow> below tmp p) \<Longrightarrow> touches {tmp} w (fst (run_copy k sts w))"
proof (induction k sts w rule: run_copy.induct)
  case (2 k st sts w)
  have "touches {tmp} w (copy_write st w)" using "2.prems" by (intro copy_write_touches) auto
  moreover have "touches {tmp} (copy_write st w) (fst (run_copy (map_option (\<lambda>n. n - 1) k) sts (copy_write st w)))"
    if "\<not> (k = Some 0 \<or> step_refused st (mw_disk w))"
    using 2 that by auto
  ultimately show ?case by (auto intro: touches_trans)
qed simp

lemma run_copy_keeps: "map_of (mw_disk w) x \<noteq> None \<Longrightarrow> map_of (mw_disk (fst (run_copy k sts w))) x \<noteq> None"
proof (induction k sts w rule: run_copy.induct)
  case (2 k st sts w)
  then show ?case using copy_write_keeps [OF "2.prems"] by auto
qed simp

text \<open>A root is created first, so what a copy leaves is a tree.\<close>

lemma run_copy_rooted:
  assumes "rooted tmp (mw_disk w)" "st \<in> {MakeDir tmp, MakeFile tmp, Refuse}"
    and "\<And>s p. s \<in> set sts \<Longrightarrow> step_path s = Some p \<Longrightarrow> below tmp p"
  shows "rooted tmp (mw_disk (fst (run_copy k (st # sts) w)))"
proof (cases "k = Some 0 \<or> step_refused st (mw_disk w)")
  case True
  then show ?thesis using assms by simp
next
  case False
  let ?w1 = "copy_write st w"
  have st: "st = MakeDir tmp \<or> st = MakeFile tmp" using assms(2) False by (auto simp: step_refused_def)
  let ?r = "run_copy (map_option (\<lambda>n. n - 1) k) sts ?w1"
  show ?thesis
  proof (cases "alive w")
    case True
    have "\<exists>n. map_of (mw_disk ?w1) tmp = Some n"
      using st True by (auto simp: copy_write_disk map_add_def split: option.splits)
    then have "map_of (mw_disk (fst ?r)) tmp \<noteq> None" using run_copy_keeps by blast
    then show ?thesis using False by (auto simp: rooted_def look_Nil)
  next
    case dead: False
    have "touches {tmp} w ?w1" using st by (intro copy_write_touches) (auto simp: step_path_def)
    then have "touches {tmp} w (fst ?r)" using run_copy_touches assms(3) touches_trans by blast
    then have "fst ?r = w" using dead by (rule touches_dead)
    then show ?thesis using False assms(1) by simp
  qed
qed

definition node_steps :: "string \<Rightarrow> string \<Rightarrow> string \<times> node \<Rightarrow> copy_step list" where
  "node_steps src dst e =
     (let t = dst @ drop (length src) (fst e)
      in case snd e of DirNode \<Rightarrow> [MakeDir t] | FileNode c \<Rightarrow> [MakeFile t, FillFile t c] | OtherNode \<Rightarrow> [Refuse])"

lemma node_steps_simps [simp]:
  "node_steps src dst (src @ r, DirNode) = [MakeDir (dst @ r)]"
  "node_steps src dst (src @ r, FileNode c) = [MakeFile (dst @ r), FillFile (dst @ r) c]"
  "node_steps src dst (src @ r, OtherNode) = [Refuse]"
  by (simp_all add: node_steps_def Let_def)

lemma node_steps_root: "\<exists>st sts. node_steps src tmp (src, n) = st # sts \<and> st \<in> {MakeDir tmp, MakeFile tmp, Refuse}"
  by (cases n) (auto simp: node_steps_def Let_def)

lemma copy_steps_nodes: "copy_steps src dst d = concat (map (node_steps src dst) (tree_nodes src d))"
  unfolding copy_steps_def by (intro arg_cong [where f = concat] map_cong) (auto simp: node_steps_def Let_def split: node.splits)

lemma node_steps_below: "below src (fst e) \<Longrightarrow> st \<in> set (node_steps src tmp e) \<Longrightarrow> step_path st = Some p \<Longrightarrow> below tmp p"
  using renamed_below [of src "fst e" tmp] by (cases "snd e") (auto simp: node_steps_def step_path_def Let_def)

lemma copy_steps_below: "st \<in> set (copy_steps src tmp d) \<Longrightarrow> step_path st = Some p \<Longrightarrow> below tmp p"
proof -
  assume st: "st \<in> set (copy_steps src tmp d)" "step_path st = Some p"
  then obtain e where e: "e \<in> set (tree_nodes src d)" "st \<in> set (node_steps src tmp e)" by (auto simp: copy_steps_nodes)
  have "below src (fst e)" using e(1) tree_node [of "fst e" "snd e"] by simp
  then show ?thesis using node_steps_below e(2) st(2) by blast
qed

text \<open>A copy that ends has added every node.\<close>

lemma run_copy_adds:
  assumes "run_copy k (concat (map (node_steps src tmp) ns)) w = (w', True)" "alive w'" "\<And>e. e \<in> set ns \<Longrightarrow> below src (fst e)"
  shows "look tmp (mw_disk w') = (\<lambda>r. if look tmp (mw_disk w) r \<noteq> None then look tmp (mw_disk w) r else if sub_path r then map_of ns (src @ r) else None)"
  using assms
proof (induction ns arbitrary: k w)
  case Nil
  then show ?case by (auto simp: fun_eq_iff)
next
  case (Cons e ns)
  obtain r n where e: "e = (src @ r, n)" "sub_path r" using Cons.prems(3) [of e] unfolding below_iff by (cases e) auto
  obtain k1 w1 where w1: "run_copy k1 (concat (map (node_steps src tmp) ns)) w1 = (w', True)"
    and look1: "alive w1 \<Longrightarrow> alive w \<Longrightarrow> look tmp (mw_disk w1) = (look tmp (mw_disk w))(r \<mapsto> n)" "look tmp (mw_disk w) r = None" and old: "touches {tmp} w w1"
  proof (cases n)
    case DirNode
    then have go: "k \<noteq> Some 0" "\<not> path_exists (tmp @ r) (mw_disk w)"
      and run: "run_copy (map_option (\<lambda>n. n - 1) k) (concat (map (node_steps src tmp) ns)) (copy_write (MakeDir (tmp @ r)) w) = (w', True)"
      using Cons.prems(1) e by (auto simp: step_refused_def split: if_splits)
    have none: "look tmp (mw_disk w) r = None" using go(2) e(2) by (simp add: look_def path_exists_def has_key_def)
    have "touches {tmp} w (copy_write (MakeDir (tmp @ r)) w)" using e(2) by (intro copy_write_touches) (auto simp: step_path_def)
    then show ?thesis using that [OF run] none e(2) DirNode by (simp add: copy_write_disk look_add)
  next
    case (FileNode c)
    let ?w1 = "copy_write (MakeFile (tmp @ r)) w"
    have go: "k \<noteq> Some 0" "\<not> path_exists (tmp @ r) (mw_disk w)" "map_option (\<lambda>n. n - 1) k \<noteq> Some 0"
      and run: "run_copy (map_option (\<lambda>n. n - 1) (map_option (\<lambda>n. n - 1) k)) (concat (map (node_steps src tmp) ns)) (copy_write (FillFile (tmp @ r) c) ?w1) = (w', True)"
      using Cons.prems(1) e FileNode by (auto simp: step_refused_def split: if_splits)
    have none: "look tmp (mw_disk w) r = None" using go(2) e(2) by (simp add: look_def path_exists_def has_key_def)
    have t1: "touches {tmp} w ?w1" and t2: "touches {tmp} ?w1 (copy_write (FillFile (tmp @ r) c) ?w1)"
      using e(2) by (auto intro!: copy_write_touches simp: step_path_def)
    show ?thesis using that [OF run] none e(2) FileNode touches_trans [OF t1 t2] touches_alive [OF t2]
      by (auto simp: copy_write_disk look_add look_set)
  next
    case OtherNode
    then show ?thesis using Cons.prems(1) e by (auto simp: step_refused_def split: if_splits)
  qed
  have "touches {tmp} w1 w'"
    using run_copy_touches [of "concat (map (node_steps src tmp) ns)" tmp w1 k1] w1 node_steps_below Cons.prems(3) by fastforce
  then have "alive w1" using Cons.prems(2) touches_alive by blast
  then have look: "look tmp (mw_disk w1) = (look tmp (mw_disk w))(r \<mapsto> n)" using look1(1) old touches_alive by blast
  have "look tmp (mw_disk w') = (\<lambda>r. if look tmp (mw_disk w1) r \<noteq> None then look tmp (mw_disk w1) r else if sub_path r then map_of ns (src @ r) else None)"
    using Cons.IH [OF w1 Cons.prems(2)] Cons.prems(3) by simp
  then show ?case using look look1(2) e by (auto simp: fun_eq_iff)
qed

text \<open>A copy into a free place ends if nothing fails and there is nothing but files and folders.\<close>

lemma copy_write_map: "step_path st = Some p \<Longrightarrow> x \<noteq> p \<Longrightarrow> map_of (mw_disk (copy_write st w)) x = map_of (mw_disk w) x"
  by (cases st) (auto simp: copy_write_def disk_write_disk step_path_def map_add_def split: option.splits)

lemma run_copy_ends:
  assumes "distinct (map fst ns)" "\<And>q n. (q, n) \<in> set ns \<Longrightarrow> below src q \<and> n \<noteq> OtherNode"
    and "\<And>q n. (q, n) \<in> set ns \<Longrightarrow> map_of (mw_disk w) (tmp @ drop (length src) q) = None"
  shows "snd (run_copy None (concat (map (node_steps src tmp) ns)) w)"
  using assms
proof (induction ns arbitrary: w)
  case (Cons e ns)
  obtain r n where e: "e = (src @ r, n)" "sub_path r" using Cons.prems(2) [of "fst e" "snd e"] unfolding below_iff by (cases e) auto
  have free: "map_of (mw_disk w) (tmp @ r) = None" using Cons.prems(3) [of "src @ r" n] e by simp
  have go: "snd (run_copy None (concat (map (node_steps src tmp) ns)) w1)"
    if w1: "\<And>x. x \<noteq> tmp @ r \<Longrightarrow> map_of (mw_disk w1) x = map_of (mw_disk w) x" for w1
  proof (rule Cons.IH)
    show "distinct (map fst ns)" using Cons.prems(1) by simp
    show "below src q \<and> n \<noteq> OtherNode" if q: "(q, n) \<in> set ns" for q n using Cons.prems(2) [of q n] q by auto
    show "map_of (mw_disk w1) (tmp @ drop (length src) q) = None" if q: "(q, n) \<in> set ns" for q n
    proof -
      have "q \<noteq> src @ r" using Cons.prems(1) q e by force
      moreover obtain s where "q = src @ s" using Cons.prems(2) [of q n] q unfolding below_iff by auto
      ultimately show ?thesis using w1 [of "tmp @ s"] Cons.prems(3) [of q n] q by simp
    qed
  qed
  show ?case
  proof (cases n)
    case DirNode
    then show ?thesis using e free go [of "copy_write (MakeDir (tmp @ r)) w"]
      by (simp add: step_refused_def path_exists_def has_key_def copy_write_map step_path_def)
  next
    case (FileNode c)
    then show ?thesis using e free go [of "copy_write (FillFile (tmp @ r) c) (copy_write (MakeFile (tmp @ r)) w)"]
      by (simp add: step_refused_def path_exists_def has_key_def copy_write_map step_path_def)
  next
    case OtherNode
    then show ?thesis using Cons.prems(2) [of "src @ r" n] e by simp
  qed
qed simp

lemma copyTree_facts:
  assumes run: "copyTree a src tmp w = (w', ok)"
  shows "touches {tmp} w w'"
    and "rooted tmp (mw_disk w) \<Longrightarrow> rooted tmp (mw_disk w')"
    and "ok \<Longrightarrow> alive w' \<Longrightarrow> rooted tmp (mw_disk w) \<Longrightarrow> look tmp (mw_disk w') = look src (mw_disk w)"
    and "ma_copy a tmp = None \<Longrightarrow> path_exists src (mw_disk w) \<Longrightarrow> look tmp (mw_disk w) = Map.empty \<Longrightarrow>
      (\<forall>r. look src (mw_disk w) r \<noteq> Some OtherNode) \<Longrightarrow> ok"
proof -
  let ?d = "mw_disk w"
  let ?sts = "concat (map (node_steps src tmp) (tree_nodes src ?d))"
  have below: "below src (fst e)" if "e \<in> set (tree_nodes src ?d)" for e using that tree_node [of "fst e" "snd e"] by simp
  have steps: "below tmp p" if "st \<in> set ?sts" "step_path st = Some p" for st p
    using copy_steps_below [of st src tmp ?d p] that by (simp add: copy_steps_nodes)
  have w': "if path_exists src ?d then run_copy (ma_copy a tmp) ?sts w = (w', ok) else w' = w \<and> \<not> ok"
    using run by (auto simp: copyTree_def copy_steps_nodes)
  show touch: "touches {tmp} w w'"
    using w' run_copy_touches [of ?sts tmp w "ma_copy a tmp"] steps by (cases "path_exists src ?d") auto
  have first: "\<exists>st sts. ?sts = st # sts \<and> st \<in> {MakeDir tmp, MakeFile tmp, Refuse}" if "path_exists src ?d"
  proof -
    obtain n rest where nodes: "tree_nodes src ?d = (src, n) # rest" using tree_nodes_root [of src ?d] \<open>path_exists src ?d\<close> by blast
    obtain st sts where "node_steps src tmp (src, n) = st # sts" "st \<in> {MakeDir tmp, MakeFile tmp, Refuse}" using node_steps_root by blast
    then show ?thesis unfolding nodes by simp
  qed
  show rooted: "rooted tmp (mw_disk w')" if "rooted tmp ?d"
  proof (cases "path_exists src ?d")
    case True
    then obtain st sts where st: "?sts = st # sts" "st \<in> {MakeDir tmp, MakeFile tmp, Refuse}" using first by blast
    have "rooted tmp (mw_disk (fst (run_copy (ma_copy a tmp) (st # sts) w)))"
      by (rule run_copy_rooted [OF that st(2)]) (metis st(1) steps list.set_intros(2))
    then show ?thesis using w' True st(1) by simp
  next
    case False
    then show ?thesis using w' that by simp
  qed
  show "look tmp (mw_disk w') = look src ?d" if "ok" "alive w'" "rooted tmp ?d"
  proof -
    have ex: "path_exists src ?d" using w' that(1) by presburger
    then obtain st sts where st: "?sts = st # sts" "st \<in> {MakeDir tmp, MakeFile tmp, Refuse}" using first by blast
    have "\<not> step_refused st ?d" using w' ex that(1) st(1) by (auto split: if_splits)
    then have "\<not> path_exists tmp ?d" using st(2) by (auto simp: step_refused_def)
    then have empty: "look tmp ?d = Map.empty" using that(3) by (rule rooted_absent [rotated])
    have "run_copy (ma_copy a tmp) ?sts w = (w', True)" using w' ex that(1) by simp
    from run_copy_adds [OF this that(2) below]
    have "look tmp (mw_disk w') = (\<lambda>r. if sub_path r then map_of (tree_nodes src ?d) (src @ r) else None)" by (simp add: empty)
    also have "\<dots> = look src ?d" by (auto simp: look_def map_of_tree_nodes fun_eq_iff)
    finally show ?thesis .
  qed
  show ok if "ma_copy a tmp = None" "path_exists src ?d" "look tmp ?d = Map.empty" "\<forall>r. look src ?d r \<noteq> Some OtherNode"
  proof -
    have "snd (run_copy None ?sts w)"
    proof (rule run_copy_ends)
      show "distinct (map fst (tree_nodes src ?d))" by (rule distinct_tree_nodes)
      fix q n assume q: "(q, n) \<in> set (tree_nodes src ?d)"
      then obtain r where r: "q = src @ r" "sub_path r" "map_of ?d q = Some n" using tree_node unfolding below_iff by blast
      then have "look src ?d r = Some n" by (simp add: look_def)
      then show "below src q \<and> n \<noteq> OtherNode" using r that(4) by auto
      have "below tmp (tmp @ r)" using r(2) by simp
      then show "map_of ?d (tmp @ drop (length src) q) = None" using that(3) r(1) by (simp add: look_empty_iff)
    qed
    then show ?thesis using w' that(1,2) by simp
  qed
qed

lemma copy_verifies:
  assumes "path_exists src d" "look tmp d = look src d" "\<forall>r. look src d r \<noteq> Some OtherNode"
  shows "verifyCopy src tmp d"
proof -
  have "case n of DirNode \<Rightarrow> True | FileNode c \<Rightarrow> (case map_of d (tmp @ drop (length src) q) of Some (FileNode c') \<Rightarrow> length c' = length c | _ \<Rightarrow> False)
          | OtherNode \<Rightarrow> (case map_of d (tmp @ drop (length src) q) of Some (FileNode c') \<Rightarrow> c' = [] | _ \<Rightarrow> False)"
    if q: "(q, n) \<in> set (tree_nodes src d)" for q n
  proof -
    obtain r where r: "q = src @ r" "sub_path r" "map_of d q = Some n" using tree_node [OF q] unfolding below_iff by blast
    then have "look src d r = Some n" by (simp add: look_def)
    moreover from this have "map_of d (tmp @ r) = Some n" using assms(2) r(2) by (metis look_def)
    ultimately show ?thesis using assms(3) r(1) by (cases n) auto
  qed
  then show ?thesis using assms(1) unfolding verifyCopy_def list_all_iff by blast
qed

section \<open>Moving an entry\<close>

text \<open>A tree \<open>T\<close> waits at \<open>src\<close>, or has arrived at \<open>dst\<close>.\<close>

definition waiting :: "(string \<rightharpoonup> node) \<Rightarrow> string \<Rightarrow> string \<Rightarrow> move_world \<Rightarrow> bool" where
  "waiting T src dst w \<longleftrightarrow> look src (mw_disk w) = T \<and> look dst (mw_disk w) = Map.empty"

definition arrived :: "(string \<rightharpoonup> node) \<Rightarrow> string \<Rightarrow> move_world \<Rightarrow> bool" where
  "arrived T dst w \<longleftrightarrow> look dst (mw_disk w) = T"

definition emptied :: "string \<Rightarrow> move_world \<Rightarrow> bool" where
  "emptied src w \<longleftrightarrow> look src (mw_disk w) = Map.empty"

lemma disk_write_rename:
  assumes "apart src dst" "look dst (mw_disk w) = Map.empty"
  shows "touches {src, dst} w (disk_write (rename_tree src dst) w)"
    and "alive w \<Longrightarrow> look dst (mw_disk (disk_write (rename_tree src dst) w)) = look src (mw_disk w)"
    and "alive w \<Longrightarrow> look src (mw_disk (disk_write (rename_tree src dst) w)) = Map.empty"
  using look_rename [OF assms] by (auto simp: disk_write_disk intro!: disk_write_touches)

lemma rename_refused:
  "\<not> (path_exists src (mw_disk w) \<and> ma_rename a src dst = Renamed) \<Longrightarrow> \<exists>r. renameNoReplace a src dst w = (w, r) \<and> r \<noteq> Renamed"
  by (cases "ma_rename a src dst") (auto simp: renameNoReplace_def)

lemma copy_across_facts:
  assumes run: "copy_across a src dst tmp w = (w', e)"
    and apart: "apart src dst" "apart src tmp" "apart dst tmp"
    and rooted: "rooted tmp (mw_disk w)"
    and T: "T [] \<noteq> None" "waiting T src dst w"
  shows "touches {src, dst, tmp} w w'"
    and "rooted src (mw_disk w') \<and> rooted dst (mw_disk w') \<and> rooted tmp (mw_disk w')"
    and "waiting T src dst w' \<or> arrived T dst w'"
    and "alive w' \<Longrightarrow> e = None \<Longrightarrow> arrived T dst w' \<and> emptied src w'"
    and "alive w' \<Longrightarrow> e = Some Leftover \<Longrightarrow> arrived T dst w'"
    and "alive w' \<Longrightarrow> e \<noteq> None \<Longrightarrow> e \<noteq> Some Leftover \<Longrightarrow> waiting T src dst w'"
    and "alive w' \<Longrightarrow> ma_copy a tmp = None \<Longrightarrow> ma_keep a src = 0 \<Longrightarrow> ma_keep a tmp = 0 \<Longrightarrow> ma_rename a tmp dst = Renamed \<Longrightarrow>
      \<forall>r. T r \<noteq> Some OtherNode \<Longrightarrow> e = None"
    and "ma_keep a src = 0 \<Longrightarrow> e \<noteq> Some Leftover"
proof -
  obtain w1 ok1 where r1: "removeAll a tmp w = (w1, ok1)" by fastforce
  note f1 = removeAll_facts [OF r1]
  obtain w2 ok2 where r2: "copyTree a src tmp w1 = (w2, ok2)" by fastforce
  note f2 = copyTree_facts [OF r2]
  have t12: "touches {tmp} w w2" using f1(1) f2(1) by (rule touches_trans)
  have tmp2: "rooted tmp (mw_disk w2)" using f1(3) f2(2) rooted by blast
  have keep: "waiting T src dst x \<and> rooted src (mw_disk x) \<and> rooted dst (mw_disk x)" if "touches {tmp} w x" for x
  proof -
    have "waiting T src dst x" using T(2) touches_look [OF that, of src] touches_look [OF that, of dst] apart by (simp add: waiting_def)
    then show ?thesis using T(1) by (auto simp: waiting_def rooted_def)
  qed
  have srcroot: "path_exists src (mw_disk x)" if "waiting T src dst x" for x using that T(1) by (simp add: waiting_def exists_look)
  obtain w3 ok3 where r3: "removeAll a tmp w2 = (w3, ok3)" by fastforce
  note f3 = removeAll_facts [OF r3]
  have t13: "touches {tmp} w w3" using t12 f3(1) by (rule touches_trans)
  have t3: "touches {src, dst, tmp} w w3" by (rule touches_mono [OF t13]) simp
  have all: "touches {src, dst, tmp} w w' \<and> (rooted src (mw_disk w') \<and> rooted dst (mw_disk w') \<and> rooted tmp (mw_disk w')) \<and>
      (waiting T src dst w' \<or> arrived T dst w') \<and>
      (alive w' \<longrightarrow> (e = None \<longrightarrow> arrived T dst w' \<and> emptied src w') \<and> (e = Some Leftover \<longrightarrow> arrived T dst w') \<and>
         (e \<noteq> None \<and> e \<noteq> Some Leftover \<longrightarrow> waiting T src dst w') \<and>
         (ma_copy a tmp = None \<and> ma_keep a src = 0 \<and> ma_keep a tmp = 0 \<and> ma_rename a tmp dst = Renamed \<and> (\<forall>r. T r \<noteq> Some OtherNode) \<longrightarrow> e = None)) \<and>
      (ma_keep a src = 0 \<longrightarrow> e \<noteq> Some Leftover)"
  proof (cases "ok2 \<and> verifyCopy src tmp (mw_disk w2)")
    case False
    then have w': "w' = w3" "e = Some ErrCopyFailed \<or> e = Some ErrNotVerified"
      using run r1 r2 r3 by (auto simp: copy_across_def split: if_splits bool.splits)
    have fine: "ok2 \<and> verifyCopy src tmp (mw_disk w2)"
      if "alive w3" "ma_copy a tmp = None" "ma_keep a tmp = 0" "\<forall>r. T r \<noteq> Some OtherNode"
    proof -
      have a2: "alive w2" using that(1) f3(1) touches_alive by blast
      then have a1: "alive w1" using f2(1) touches_alive by blast
      have "look tmp (mw_disk w1) = Map.empty" using f1(4) [OF f1(5) [OF that(3)] a1] .
      moreover have wait1: "waiting T src dst w1" using keep f1(1) by blast
      ultimately have "ok2" using f2(4) that(2,4) srcroot by (simp add: waiting_def)
      have wait2: "waiting T src dst w2" using keep t12 by blast
      have "look tmp (mw_disk w2) = look src (mw_disk w2)"
        using f2(3) [OF \<open>ok2\<close> a2] f1(3) rooted wait1 wait2 by (simp add: waiting_def)
      then have "verifyCopy src tmp (mw_disk w2)" using copy_verifies [of src "mw_disk w2" tmp] srcroot [OF wait2] that(4) wait2 by (simp add: waiting_def)
      with \<open>ok2\<close> show ?thesis by blast
    qed
    have no: "\<not> (ma_copy a tmp = None \<and> ma_keep a tmp = 0 \<and> (\<forall>r. T r \<noteq> Some OtherNode))" if "alive w3" using fine that False by blast
    show ?thesis using keep [OF t13] t3 f3(3) [OF tmp2] no w'(2) unfolding w'(1) by auto
  next
    case True
    have wait2: "waiting T src dst w2" using keep t12 by blast
    have ndst: "\<not> path_exists dst (mw_disk w2)" using wait2 by (simp add: waiting_def exists_look)
    show ?thesis
    proof (cases "path_exists tmp (mw_disk w2) \<and> ma_rename a tmp dst = Renamed")
      case False
      then obtain r where "renameNoReplace a tmp dst w2 = (w2, r)" "r \<noteq> Renamed" using rename_refused by blast
      then have w': "w' = w3" "e = Some ErrMoveIO \<or> e = Some ErrDestinationExists"
        using run r1 r2 r3 True by (auto simp: copy_across_def split: if_splits rename_answer.splits)
      have "path_exists tmp (mw_disk w2)" if "alive w3"
      proof -
        have a2: "alive w2" using that f3(1) touches_alive by blast
        have "look tmp (mw_disk w2) = look src (mw_disk w1)" using f2(3) True a2 f1(3) rooted by blast
        moreover have "waiting T src dst w1" using keep f1(1) by blast
        ultimately show ?thesis using T(1) by (simp add: exists_look waiting_def)
      qed
      then have no: "alive w3 \<Longrightarrow> ma_rename a tmp dst \<noteq> Renamed" using False by blast
      show ?thesis using keep [OF t13] t3 f3(3) [OF tmp2] no w'(2) unfolding w'(1) by auto
    next
      case ren: True
      let ?w4 = "disk_write (rename_tree tmp dst) w2"
      have "renameNoReplace a tmp dst w2 = (?w4, Renamed)" using ren ndst by (simp add: renameNoReplace_def)
      moreover obtain ok5 where r5: "removeAll a src ?w4 = (w', ok5)" and e: "e = (if ok5 then None else Some Leftover)"
        using run r1 r2 True calculation by (auto simp: copy_across_def split: prod.splits if_splits)
      note f5 = removeAll_facts [OF r5]
      have sep: "apart tmp dst" using apart(3) by (simp add: apart_sym)
      have empty: "look dst (mw_disk w2) = Map.empty" using wait2 by (simp add: waiting_def)
      note f4 = disk_write_rename [OF sep empty]
      have t: "touches {src, dst, tmp} w w'"
        using touches_trans [OF touches_trans [OF touches_mono [OF t12] touches_mono [OF f4(1)]] touches_mono [OF f5(1)]] by simp
      show ?thesis
      proof (cases "alive w2")
        case False
        then have "?w4 = w2" using f4(1) touches_dead by blast
        then have "w' = w2" using f5(1) False touches_dead by metis
        then show ?thesis using t keep [OF t12] tmp2 False e f5(5) by auto
      next
        case a2: True
        have "look tmp (mw_disk w2) = look src (mw_disk w1)" using f2(3) True a2 f1(3) rooted by blast
        moreover have "waiting T src dst w1" using keep f1(1) by blast
        ultimately have "look tmp (mw_disk w2) = T" by (simp add: waiting_def)
        then have "look dst (mw_disk ?w4) = T" "look tmp (mw_disk ?w4) = Map.empty" using f4(2,3) a2 by auto
        then have arr: "look dst (mw_disk w') = T" "look tmp (mw_disk w') = Map.empty"
          using touches_look [OF f5(1), of dst] touches_look [OF f5(1), of tmp] apart by (auto simp: apart_sym)
        have "apart src p" if "p \<in> {tmp, dst}" for p using that apart by auto
        then have "look src (mw_disk ?w4) = look src (mw_disk w2)" by (rule touches_look [OF f4(1)])
        then have "look src (mw_disk ?w4) = T" using wait2 by (simp add: waiting_def)
        then have "rooted src (mw_disk ?w4)" using T(1) by (auto simp: rooted_def)
        then have "rooted src (mw_disk w')" using f5(3) by blast
        moreover have "rooted dst (mw_disk w')" "rooted tmp (mw_disk w')" using arr T(1) by (auto simp: rooted_def)
        ultimately show ?thesis using t arr e f5(4,5) by (auto simp: arrived_def emptied_def)
      qed
    qed
  qed
  then show "touches {src, dst, tmp} w w'" "rooted src (mw_disk w') \<and> rooted dst (mw_disk w') \<and> rooted tmp (mw_disk w')"
    "waiting T src dst w' \<or> arrived T dst w'" by blast+
  show "alive w' \<Longrightarrow> e = None \<Longrightarrow> arrived T dst w' \<and> emptied src w'" "alive w' \<Longrightarrow> e = Some Leftover \<Longrightarrow> arrived T dst w'"
    "alive w' \<Longrightarrow> e \<noteq> None \<Longrightarrow> e \<noteq> Some Leftover \<Longrightarrow> waiting T src dst w'"
    "alive w' \<Longrightarrow> ma_copy a tmp = None \<Longrightarrow> ma_keep a src = 0 \<Longrightarrow> ma_keep a tmp = 0 \<Longrightarrow> ma_rename a tmp dst = Renamed \<Longrightarrow>
      \<forall>r. T r \<noteq> Some OtherNode \<Longrightarrow> e = None" "ma_keep a src = 0 \<Longrightarrow> e \<noteq> Some Leftover"
    using all by blast+
qed

lemma moveEntry_facts:
  assumes run: "moveEntry a src dst tmp w = (w', e)"
    and apart: "apart src dst" "apart src tmp" "apart dst tmp"
    and rooted: "rooted tmp (mw_disk w)"
    and T: "T [] \<noteq> None" "waiting T src dst w"
  shows "touches {src, dst, tmp} w w'"
    and "rooted src (mw_disk w') \<and> rooted dst (mw_disk w') \<and> rooted tmp (mw_disk w')"
    and "waiting T src dst w' \<or> arrived T dst w'"
    and "alive w' \<Longrightarrow> e = None \<Longrightarrow> arrived T dst w' \<and> emptied src w'"
    and "alive w' \<Longrightarrow> e = Some Leftover \<Longrightarrow> arrived T dst w'"
    and "alive w' \<Longrightarrow> e \<noteq> None \<Longrightarrow> e \<noteq> Some Leftover \<Longrightarrow> waiting T src dst w'"
    and "ma_rename a src dst \<noteq> CrossDevice \<Longrightarrow> e \<noteq> Some Leftover \<and> (waiting T src dst w' \<or> (arrived T dst w' \<and> emptied src w'))"
    and "alive w' \<Longrightarrow> ma_rename a src dst \<noteq> RenameFailed \<Longrightarrow> ma_copy a tmp = None \<Longrightarrow> ma_keep a src = 0 \<Longrightarrow> ma_keep a tmp = 0 \<Longrightarrow>
      ma_rename a tmp dst = Renamed \<Longrightarrow> \<forall>r. T r \<noteq> Some OtherNode \<Longrightarrow> e = None"
    and "ma_rename a src dst = Renamed \<Longrightarrow> e = None"
    and "ma_keep a src = 0 \<Longrightarrow> e \<noteq> Some Leftover"
proof -
  have here: "path_exists src (mw_disk w)" and free: "\<not> path_exists dst (mw_disk w)"
    using T by (auto simp: waiting_def exists_look)
  have empty: "look dst (mw_disk w) = Map.empty" using T(2) by (simp add: waiting_def)
  have roots: "rooted src (mw_disk w) \<and> rooted dst (mw_disk w)" using T by (auto simp: waiting_def rooted_def)
  note f = disk_write_rename [OF apart(1) empty]
  note g = copy_across_facts [OF _ apart rooted T]
  have all: "touches {src, dst, tmp} w w' \<and> (rooted src (mw_disk w') \<and> rooted dst (mw_disk w') \<and> rooted tmp (mw_disk w')) \<and>
      (waiting T src dst w' \<or> arrived T dst w') \<and>
      (alive w' \<longrightarrow> (e = None \<longrightarrow> arrived T dst w' \<and> emptied src w') \<and> (e = Some Leftover \<longrightarrow> arrived T dst w') \<and>
         (e \<noteq> None \<and> e \<noteq> Some Leftover \<longrightarrow> waiting T src dst w')) \<and>
      (ma_rename a src dst \<noteq> CrossDevice \<longrightarrow> e \<noteq> Some Leftover \<and> (waiting T src dst w' \<or> (arrived T dst w' \<and> emptied src w'))) \<and>
      (ma_rename a src dst = Renamed \<longrightarrow> e = None) \<and> (ma_keep a src = 0 \<longrightarrow> e \<noteq> Some Leftover)"
  proof (cases "ma_rename a src dst")
    case Renamed
    then have w': "w' = disk_write (rename_tree src dst) w" "e = None"
      using run here free by (simp_all add: moveEntry_def renameNoReplace_def)
    have t: "touches {src, dst, tmp} w w'" unfolding w' by (rule touches_mono [OF f(1)]) blast
    have "apart tmp p" if "p \<in> {src, dst}" for p using that apart by (auto simp: apart_sym)
    then have "look tmp (mw_disk w') = look tmp (mw_disk w)" using touches_look [OF f(1)] w' by blast
    then have tmp: "rooted tmp (mw_disk w')" using rooted by (simp add: rooted_def)
    show ?thesis
    proof (cases "alive w")
      case True
      have "look dst (mw_disk w') = T" "look src (mw_disk w') = Map.empty" using f(2,3) True w' T(2) by (auto simp: waiting_def)
      then show ?thesis using t tmp T(1) w'(2) by (auto simp: arrived_def emptied_def rooted_def)
    next
      case False
      then have "w' = w" using t touches_dead by blast
      then show ?thesis using False T roots tmp w'(2) by auto
    qed
  next
    case RenameFailed
    then have "w' = w" "e = Some ErrMoveIO" using run here free by (simp_all add: moveEntry_def renameNoReplace_def)
    then show ?thesis using T roots rooted RenameFailed by simp
  next
    case CrossDevice
    then have "copy_across a src dst tmp w = (w', e)" using run here free by (simp add: moveEntry_def renameNoReplace_def)
    from g(1-6) [OF this] g(8) [OF this] show ?thesis using CrossDevice by auto
  qed
  then show "touches {src, dst, tmp} w w'" "rooted src (mw_disk w') \<and> rooted dst (mw_disk w') \<and> rooted tmp (mw_disk w')"
    "waiting T src dst w' \<or> arrived T dst w'" by blast+
  show "alive w' \<Longrightarrow> e = None \<Longrightarrow> arrived T dst w' \<and> emptied src w'" "alive w' \<Longrightarrow> e = Some Leftover \<Longrightarrow> arrived T dst w'"
    "alive w' \<Longrightarrow> e \<noteq> None \<Longrightarrow> e \<noteq> Some Leftover \<Longrightarrow> waiting T src dst w'"
    "ma_rename a src dst \<noteq> CrossDevice \<Longrightarrow> e \<noteq> Some Leftover \<and> (waiting T src dst w' \<or> (arrived T dst w' \<and> emptied src w'))"
    "ma_rename a src dst = Renamed \<Longrightarrow> e = None" "ma_keep a src = 0 \<Longrightarrow> e \<noteq> Some Leftover"
    using all by blast+
  show "e = None" if "alive w'" "ma_rename a src dst \<noteq> RenameFailed" "ma_copy a tmp = None" "ma_keep a src = 0" "ma_keep a tmp = 0"
    "ma_rename a tmp dst = Renamed" "\<forall>r. T r \<noteq> Some OtherNode"
  proof (cases "ma_rename a src dst")
    case CrossDevice
    then have "copy_across a src dst tmp w = (w', e)" using run here free by (simp add: moveEntry_def renameNoReplace_def)
    from g(7) [OF this] show ?thesis using that by simp
  qed (use that all in simp_all)
qed

text \<open>A dead process moves nothing, and one that is never cut short stays so.\<close>

lemma renameNoReplace_dead: "\<not> alive w \<Longrightarrow> fst (renameNoReplace a src dst w) = w"
  by (cases "ma_rename a src dst") (simp_all add: renameNoReplace_def disk_write_def world_write_dead)

lemma removeAll_dead: "\<not> alive w \<Longrightarrow> fst (removeAll a p w) = w"
  using removeAll_facts(1) [of a p w] touches_dead by (metis prod.collapse)

lemma copyTree_dead: "\<not> alive w \<Longrightarrow> fst (copyTree a src tmp w) = w"
  using copyTree_facts(1) [of a src tmp w] touches_dead by (metis prod.collapse)

lemma moveEntry_dead:
  assumes "\<not> alive w"
  shows "fst (moveEntry a src dst tmp w) = w"
proof -
  obtain k1 k2 where "removeAll a tmp w = (w, k1)" "removeAll a src w = (w, k2)" using removeAll_dead [OF assms] by (metis prod.collapse)
  moreover obtain c where "copyTree a src tmp w = (w, c)" using copyTree_dead [OF assms] by (metis prod.collapse)
  moreover obtain e1 e2 where "renameNoReplace a src dst w = (w, e1)" "renameNoReplace a tmp dst w = (w, e2)"
    using renameNoReplace_dead [OF assms] by (metis prod.collapse)
  ultimately show ?thesis by (cases c; cases e1; cases e2) (simp_all add: moveEntry_def copy_across_def)
qed

end
