(* ===== verification/Move_Layout.thy ===== *)
theory Move_Layout
  imports Move_Job Move_Entry
begin

text \<open>
  The paths of a title's operations, with those of their partial copies, and the operations of a move
  that leave all of them alone: making the folders above, and removing them again.
\<close>

section \<open>The paths of a unit\<close>

definition op_paths :: "string \<Rightarrow> nat \<Rightarrow> fs_op \<Rightarrow> string list" where
  "op_paths row i x = [op_Src x, op_Dst x, tmpName (op_Dst x) row i, tmpName (op_Src x) (row @ ''-back'') i]"

fun unit_paths :: "string \<Rightarrow> nat \<Rightarrow> fs_op list \<Rightarrow> string list" where
  "unit_paths row i [] = []"
| "unit_paths row i (x # xs) = op_paths row i x @ unit_paths row (Suc i) xs"

definition real_path :: "string \<Rightarrow> bool" where
  "real_path p \<longleftrightarrow> 2 \<le> length p \<and> hd p = CHR ''/''"

definition laid_out :: "string \<Rightarrow> fs_op list \<Rightarrow> bool" where
  "laid_out row ops \<longleftrightarrow> sorted_wrt apart (unit_paths row 0 ops) \<and> list_all real_path (unit_paths row 0 ops)"

lemma unit_paths_mem: "i < length xs \<Longrightarrow> p \<in> set (op_paths row (k + i) (xs ! i)) \<Longrightarrow> p \<in> set (unit_paths row k xs)"
proof (induction xs arbitrary: i k)
  case (Cons x xs)
  then show ?case by (cases i) auto
qed simp

lemma unit_paths_elim: "p \<in> set (unit_paths row k xs) \<Longrightarrow> \<exists>i < length xs. p \<in> set (op_paths row (k + i) (xs ! i))"
proof (induction xs arbitrary: k)
  case (Cons x xs)
  show ?case
  proof (cases "p \<in> set (op_paths row k x)")
    case True
    then show ?thesis by (intro exI [of _ 0]) simp
  next
    case False
    then obtain i where "i < length xs" "p \<in> set (op_paths row (Suc k + i) (xs ! i))" using Cons.IH [of "Suc k"] Cons.prems False by auto
    then show ?thesis by (intro exI [of _ "Suc i"]) simp
  qed
qed simp

lemma spread_other:
  "sorted_wrt apart (unit_paths row k xs) \<Longrightarrow> i < length xs \<Longrightarrow> j < length xs \<Longrightarrow> i \<noteq> j \<Longrightarrow>
    p \<in> set (op_paths row (k + i) (xs ! i)) \<Longrightarrow> q \<in> set (op_paths row (k + j) (xs ! j)) \<Longrightarrow> apart p q"
proof (induction xs arbitrary: i j k)
  case (Cons x xs)
  have split: "\<forall>a \<in> set (op_paths row k x). \<forall>b \<in> set (unit_paths row (Suc k) xs). apart a b" "sorted_wrt apart (unit_paths row (Suc k) xs)"
    using Cons.prems(1) by (auto simp: sorted_wrt_append)
  consider "i = 0" "0 < j" | "0 < i" "j = 0" | "0 < i" "0 < j" using Cons.prems(4) by linarith
  then show ?case
  proof cases
    case 1
    then have "q \<in> set (unit_paths row (Suc k) xs)" using Cons.prems unit_paths_mem [of "j - 1" xs q row "Suc k"] by (cases j) auto
    then show ?thesis using split(1) 1 Cons.prems(5) by simp
  next
    case 2
    then have "p \<in> set (unit_paths row (Suc k) xs)" using Cons.prems unit_paths_mem [of "i - 1" xs p row "Suc k"] by (cases i) auto
    then show ?thesis using split(1) 2 Cons.prems(6) apart_sym [of p q] by simp
  next
    case 3
    then show ?thesis using Cons.IH [OF split(2), of "i - 1" "j - 1"] Cons.prems by (cases i; cases j) auto
  qed
qed simp

lemma spread_own:
  "sorted_wrt apart (unit_paths row k xs) \<Longrightarrow> i < length xs \<Longrightarrow> sorted_wrt apart (op_paths row (k + i) (xs ! i))"
proof (induction xs arbitrary: i k)
  case (Cons x xs)
  show ?case
  proof (cases i)
    case (Suc j)
    then show ?thesis using Cons.IH [of "Suc k" j] Cons.prems by (simp add: sorted_wrt_append)
  qed (use Cons.prems in \<open>simp add: sorted_wrt_append\<close>)
qed simp

definition unit_path :: "string \<Rightarrow> fs_op list \<Rightarrow> string \<Rightarrow> bool" where
  "unit_path row ops p \<longleftrightarrow> p \<in> set (unit_paths row 0 ops)"

abbreviation Src :: "fs_op list \<Rightarrow> nat \<Rightarrow> string" where "Src ops i \<equiv> op_Src (ops ! i)"
abbreviation Dst :: "fs_op list \<Rightarrow> nat \<Rightarrow> string" where "Dst ops i \<equiv> op_Dst (ops ! i)"
abbreviation Tmp :: "string \<Rightarrow> fs_op list \<Rightarrow> nat \<Rightarrow> string" where "Tmp row ops i \<equiv> tmpName (op_Dst (ops ! i)) row i"
abbreviation Back :: "string \<Rightarrow> fs_op list \<Rightarrow> nat \<Rightarrow> string" where "Back row ops i \<equiv> tmpName (op_Src (ops ! i)) (row @ ''-back'') i"

lemma op_paths_nth: "set (op_paths row i (ops ! i)) = {Src ops i, Dst ops i, Tmp row ops i, Back row ops i}"
  by (auto simp: op_paths_def)

lemma laid_out_own:
  assumes "laid_out row ops" "i < length ops"
  shows "apart (Src ops i) (Dst ops i)" "apart (Src ops i) (Tmp row ops i)" "apart (Dst ops i) (Tmp row ops i)"
    "apart (Src ops i) (Back row ops i)" "apart (Dst ops i) (Back row ops i)" "apart (Tmp row ops i) (Back row ops i)"
    "apart (Dst ops i) (Src ops i)"
  using spread_own [of row 0 ops i] assms by (auto simp: laid_out_def op_paths_def apart_sym)

lemma laid_out_other:
  assumes "laid_out row ops" "i < length ops" "j < length ops" "i \<noteq> j"
    "p \<in> {Src ops i, Dst ops i, Tmp row ops i, Back row ops i}" "q \<in> {Src ops j, Dst ops j, Tmp row ops j, Back row ops j}"
  shows "apart p q"
  using spread_other [of row 0 ops i j p q] assms unfolding laid_out_def op_paths_def by auto

lemma unit_path_op: "i < length ops \<Longrightarrow> p \<in> {Src ops i, Dst ops i, Tmp row ops i, Back row ops i} \<Longrightarrow> unit_path row ops p"
  using unit_paths_mem [of i ops p row 0] by (auto simp: unit_path_def op_paths_def)

lemma unit_path_cases:
  assumes "unit_path row ops p"
  obtains i where "i < length ops" "p \<in> {Src ops i, Dst ops i, Tmp row ops i, Back row ops i}"
  using unit_paths_elim [of p row 0 ops] assms unfolding unit_path_def op_paths_nth [symmetric] by auto

lemma unit_path_real: "laid_out row ops \<Longrightarrow> unit_path row ops p \<Longrightarrow> real_path p"
  by (auto simp: laid_out_def unit_path_def list_all_iff)

lemma unit_path_apart: "laid_out row ops \<Longrightarrow> unit_path row ops p \<Longrightarrow> unit_path row ops q \<Longrightarrow> p = q \<or> apart p q"
proof -
  assume laid: "laid_out row ops" and "unit_path row ops p" "unit_path row ops q"
  then obtain i j where i: "i < length ops" "p \<in> {Src ops i, Dst ops i, Tmp row ops i, Back row ops i}"
    and j: "j < length ops" "q \<in> {Src ops j, Dst ops j, Tmp row ops j, Back row ops j}" by (metis unit_path_cases)
  show "p = q \<or> apart p q"
  proof (cases "i = j")
    case True
    then show ?thesis using laid_out_own [OF laid i(1)] i(2) j(2) by (auto simp: apart_sym)
  next
    case False
    then show ?thesis using laid_out_other [OF laid i(1) j(1) False i(2) j(2)] by simp
  qed
qed

section \<open>What leaves the unit alone\<close>

definition leaves :: "string \<Rightarrow> fs_op list \<Rightarrow> move_world \<Rightarrow> move_world \<Rightarrow> bool" where
  "leaves row ops w w' \<longleftrightarrow> same_tables w w' \<and> (\<not> alive w \<longrightarrow> w' = w) \<and> (mw_left w = None \<longrightarrow> mw_left w' = None) \<and>
     (\<forall>q. unit_path row ops q \<longrightarrow> look q (mw_disk w') = look q (mw_disk w))"

lemma leaves_refl [simp]: "leaves row ops w w" by (simp add: leaves_def same_tables_def)

lemma leaves_trans: "leaves row ops w w' \<Longrightarrow> leaves row ops w' w'' \<Longrightarrow> leaves row ops w w''"
  by (auto simp: leaves_def same_tables_def)

text \<open>Folders above a path are not below a path that is apart from it.\<close>

definition ancestor :: "string \<Rightarrow> string \<Rightarrow> bool" where
  "ancestor d x \<longleftrightarrow> (\<exists>r. x = d @ ''/'' @ r) \<or> d = ''/'' \<or> d = ''.''"

lemma filepathDir_cases: "filepathDir d = ''.'' \<or> filepathDir d = ''/'' \<or> (\<exists>b. d = filepathDir d @ ''/'' @ b)"
proof (cases "CHR ''/'' \<in> set d")
  case True
  define t where "t = takeWhile (\<lambda>c. c \<noteq> CHR ''/'') (rev d)"
  define r where "r = dropWhile (\<lambda>c. c \<noteq> CHR ''/'') (rev d)"
  have "r \<noteq> []" using True by (auto simp: r_def)
  moreover have "r \<noteq> [] \<Longrightarrow> hd r = CHR ''/''" unfolding r_def using hd_dropWhile by blast
  ultimately obtain s where s: "r = CHR ''/'' # s" by (cases r) auto
  have "rev d = t @ r" by (simp add: t_def r_def)
  then have "rev (rev d) = rev (t @ r)" by (rule arg_cong)
  then have d: "d = rev s @ ''/'' @ rev t" by (simp add: s)
  have "filepathDir d = (if s = [] then ''/'' else rev s)" using True s by (simp add: filepathDir_def Let_def r_def [symmetric])
  then show ?thesis using d by auto
qed (simp add: filepathDir_def)

lemma ancestor_up: "ancestor d x \<Longrightarrow> ancestor (filepathDir d) x"
proof -
  assume a: "ancestor d x"
  consider "filepathDir d = ''.'' \<or> filepathDir d = ''/''" | b where "d = filepathDir d @ ''/'' @ b" using filepathDir_cases by blast
  then show ?thesis
  proof cases
    case (2 b)
    have root: "filepathDir ''/'' = ''/''" "filepathDir ''.'' = ''.''" by code_simp+
    show ?thesis
    proof (cases "d = ''/'' \<or> d = ''.''")
      case False
      then obtain r where "x = d @ ''/'' @ r" using a unfolding ancestor_def by blast
      then have "x = filepathDir d @ ''/'' @ (b @ ''/'' @ r)" using 2 by (metis append_assoc)
      then show ?thesis unfolding ancestor_def by blast
    qed (use root in \<open>auto simp: ancestor_def\<close>)
  qed (auto simp: ancestor_def)
qed

lemma ancestor_dir: "ancestor (filepathDir x) x"
  using filepathDir_cases [of x] by (auto simp: ancestor_def)

lemma missing_ancestor: "d \<in> set (missing_dirs p dsk) \<Longrightarrow> ancestor p x \<Longrightarrow> ancestor d x"
proof (induction p dsk rule: missing_dirs.induct)
  case (1 p dsk)
  show ?case using 1 ancestor_up by (subst (asm) (2) missing_dirs.simps) (auto split: if_splits)
qed

lemma ancestor_not_below:
  assumes "ancestor d x" "apart q x \<or> q = x" "real_path q" "real_path x"
  shows "\<not> below q d"
proof
  assume below: "below q d"
  then have len: "length q \<le> length d" by (rule below_length)
  consider r where "x = d @ ''/'' @ r" | "d = ''/'' \<or> d = ''.''" using assms(1) unfolding ancestor_def by blast
  then show False
  proof cases
    case (1 r)
    then have "below d x" by (simp add: sub_path_def)
    then have "below q x" using below by (blast intro: below_trans)
    then have "q = x" using assms(2) by (auto simp: apart_def)
    then show False using 1 len by simp
  next
    case 2
    then show False using len assms(3) by (auto simp: real_path_def)
  qed
qed

lemma disk_write_leaves:
  "(\<And>q. unit_path row ops q \<Longrightarrow> look q (f (mw_disk w)) = look q (mw_disk w)) \<Longrightarrow> leaves row ops w (disk_write f w)"
  by (auto simp: leaves_def same_tables_def disk_write_disk disk_write_def world_write_dead)
    (auto simp: world_write_def split: option.splits nat.splits)

text \<open>A folder above the operations.\<close>

definition outside :: "string \<Rightarrow> fs_op list \<Rightarrow> string \<Rightarrow> bool" where
  "outside row ops d \<longleftrightarrow> (\<forall>q. unit_path row ops q \<longrightarrow> \<not> below q d)"

lemma outside_iff: "outside row ops d \<longleftrightarrow> list_all (\<lambda>q. \<not> below q d) (unit_paths row 0 ops)"
  by (auto simp: outside_def unit_path_def list_all_iff)

lemma unlink_leaves: "outside row ops d \<Longrightarrow> leaves row ops w (os_unlink d w)"
  unfolding os_unlink_def outside_def by (rule disk_write_leaves) (simp add: look_del_other)

lemma os_remove_leaves: "outside row ops d \<Longrightarrow> leaves row ops w (os_remove d w)"
  using unlink_leaves by (simp add: os_remove_def)

lemma folds_leave: "(\<And>x w. x \<in> set xs \<Longrightarrow> leaves row ops w (f x w)) \<Longrightarrow> leaves row ops w (fold f xs w)"
proof (induction xs arbitrary: w)
  case (Cons x xs)
  then show ?case using leaves_trans [of row ops w "f x w"] by simp
qed simp

lemma removeCreated_leaves: "(\<And>d. d \<in> set dirs \<Longrightarrow> outside row ops d) \<Longrightarrow> leaves row ops w (removeCreated dirs w)"
  unfolding removeCreated_def by (intro folds_leave os_remove_leaves) simp

lemma make_dirs_leaves:
  assumes "make_dirs a ps made w = (w', made', ok)" "\<And>d. d \<in> set ps \<Longrightarrow> outside row ops d"
  shows "leaves row ops w w'" "set made' \<subseteq> set made \<union> set ps" "(\<forall>p. ma_mkdir a p = MkdirOK) \<Longrightarrow> ok"
proof -
  have "leaves row ops w w' \<and> set made' \<subseteq> set made \<union> set ps \<and> ((\<forall>p. ma_mkdir a p = MkdirOK) \<longrightarrow> ok)"
    using assms
  proof (induction ps arbitrary: made w)
    case (Cons p ps)
    let ?w1 = "disk_write (\<lambda>d. d @ [(p, DirNode)]) w"
    have l: "leaves row ops w ?w1"
      using Cons.prems(2) [of p] by (intro disk_write_leaves look_add_other) (auto simp: outside_def)
    show ?case
    proof (cases "ma_mkdir a p")
      case MkdirOK
      then have "make_dirs a ps (made @ [p]) ?w1 = (w', made', ok)" using Cons.prems(1) by (simp add: Let_def)
      then have "leaves row ops ?w1 w' \<and> set made' \<subseteq> set (made @ [p]) \<union> set ps \<and> ((\<forall>p. ma_mkdir a p = MkdirOK) \<longrightarrow> ok)"
        using Cons.IH Cons.prems(2) by (metis list.set_intros(2))
      then show ?thesis using l leaves_trans by auto
    next
      case MkdirRefused
      then have "\<not> (\<forall>p. ma_mkdir a p = MkdirOK)" by (metis mkdir_answer.distinct(1))
      then show ?thesis using Cons.prems(1) MkdirRefused by auto
    next
      case MkdirNotOwned
      then have "w' = ?w1" "made' = made @ [p]" "\<not> (\<forall>p. ma_mkdir a p = MkdirOK)" using Cons.prems(1) by (simp_all add: Let_def) (metis mkdir_answer.distinct(3))
      then show ?thesis using l by auto
    qed
  qed simp
  then show "leaves row ops w w'" "set made' \<subseteq> set made \<union> set ps" "(\<forall>p. ma_mkdir a p = MkdirOK) \<Longrightarrow> ok" by blast+
qed

lemma dst_dirs_outside:
  assumes "laid_out row ops" "i < length ops" "d \<in> set (missing_dirs (filepathDir (Dst ops i)) dsk)"
  shows "outside row ops d"
  unfolding outside_def
proof (intro allI impI)
  fix q assume q: "unit_path row ops q"
  have dst: "unit_path row ops (Dst ops i)" using unit_path_op [OF assms(2)] by simp
  have "ancestor d (Dst ops i)" using missing_ancestor [OF assms(3) ancestor_dir] .
  then show "\<not> below q d"
    using unit_path_apart [OF assms(1) q dst] unit_path_real [OF assms(1)] q dst by (intro ancestor_not_below) auto
qed

lemma MkdirOwned_leaves:
  assumes "laid_out row ops" "i < length ops" "MkdirOwned a (filepathDir (Dst ops i)) w = (w', dirs, ok)"
  shows "leaves row ops w w'" "d \<in> set dirs \<Longrightarrow> outside row ops d" "(\<forall>p. ma_mkdir a p = MkdirOK) \<Longrightarrow> ok"
proof -
  have run: "make_dirs a (rev (missing_dirs (filepathDir (Dst ops i)) (mw_disk w))) [] w = (w', dirs, ok)"
    using assms(3) by (simp add: MkdirOwned_def)
  have out: "outside row ops d" if "d \<in> set (rev (missing_dirs (filepathDir (Dst ops i)) (mw_disk w)))" for d
    using dst_dirs_outside [OF assms(1,2)] that by simp
  note f = make_dirs_leaves [OF run out]
  show "leaves row ops w w'" "(\<forall>p. ma_mkdir a p = MkdirOK) \<Longrightarrow> ok" using f(1,3) by auto
  show "outside row ops d" if "d \<in> set dirs" using f(2) out that by auto
qed

end
