(* ===== verification/Move_Crash.thy ===== *)
theory Move_Crash
  imports Move_Layout
begin

text \<open>
  A move that may die at any write. Each operation's tree waits at its source or has arrived, whatever
  happens (\<open>recoverable\<close>); when the process lives, the operations that are done have settled. Putting
  the operations back restores all of them, on one drive also if it is cut short.
\<close>

section \<open>Conditions on the system\<close>

text \<open>Nothing fails: drives may differ, but every call succeeds.\<close>

definition no_failure :: "move_answers \<Rightarrow> bool" where
  "no_failure a \<longleftrightarrow> (\<forall>s t. ma_rename a s t \<noteq> RenameFailed) \<and> (\<forall>t row i. ma_rename a (tmpName t row i) t = Renamed) \<and>
     (\<forall>p. ma_copy a p = None \<and> ma_keep a p = 0 \<and> ma_mkdir a p = MkdirOK) \<and> ma_tx a"

text \<open>Everything is on one drive: calls may fail, but a rename back succeeds and the catalogue can be written.\<close>

definition one_drive :: "move_answers \<Rightarrow> fs_op list \<Rightarrow> bool" where
  "one_drive a ops \<longleftrightarrow> (\<forall>s t. ma_rename a s t \<noteq> CrossDevice) \<and> list_all (\<lambda>x. ma_rename a (op_Dst x) (op_Src x) = Renamed) ops \<and> ma_tx a"

section \<open>The states of a unit\<close>

definition rooted_unit :: "string \<Rightarrow> fs_op list \<Rightarrow> move_world \<Rightarrow> bool" where
  "rooted_unit row ops w \<longleftrightarrow> (\<forall>p. unit_path row ops p \<longrightarrow> rooted p (mw_disk w))"

definition op_waits :: "(nat \<Rightarrow> string \<rightharpoonup> node) \<Rightarrow> fs_op list \<Rightarrow> nat \<Rightarrow> move_world \<Rightarrow> bool" where
  "op_waits T ops i w \<longleftrightarrow> waiting (T i) (Src ops i) (Dst ops i) w"

definition op_arrived :: "(nat \<Rightarrow> string \<rightharpoonup> node) \<Rightarrow> fs_op list \<Rightarrow> nat \<Rightarrow> move_world \<Rightarrow> bool" where
  "op_arrived T ops i w \<longleftrightarrow> arrived (T i) (Dst ops i) w"

definition op_settled :: "(nat \<Rightarrow> string \<rightharpoonup> node) \<Rightarrow> fs_op list \<Rightarrow> nat \<Rightarrow> move_world \<Rightarrow> bool" where
  "op_settled T ops i w \<longleftrightarrow> arrived (T i) (Dst ops i) w \<and> emptied (Src ops i) w"

text \<open>\<open>strict\<close> excludes that a tree has arrived and is still at its source in part.\<close>

definition recoverable :: "bool \<Rightarrow> (nat \<Rightarrow> string \<rightharpoonup> node) \<Rightarrow> string \<Rightarrow> fs_op list \<Rightarrow> move_world \<Rightarrow> bool" where
  "recoverable strict T row ops w \<longleftrightarrow> rooted_unit row ops w \<and>
     (\<forall>i < length ops. op_waits T ops i w \<or> (if strict then op_settled T ops i w else op_arrived T ops i w))"

definition sound_trees :: "(nat \<Rightarrow> string \<rightharpoonup> node) \<Rightarrow> fs_op list \<Rightarrow> bool" where
  "sound_trees T ops \<longleftrightarrow> (\<forall>i < length ops. T i [] \<noteq> None \<and> (\<forall>r. T i r \<noteq> Some OtherNode))"

lemmas op_state_defs = op_waits_def op_arrived_def op_settled_def waiting_def arrived_def emptied_def

lemma op_state_look:
  assumes "look (Src ops i) (mw_disk w') = look (Src ops i) (mw_disk w)" "look (Dst ops i) (mw_disk w') = look (Dst ops i) (mw_disk w)"
  shows "op_waits T ops i w' = op_waits T ops i w" "op_arrived T ops i w' = op_arrived T ops i w" "op_settled T ops i w' = op_settled T ops i w"
  using assms by (simp_all add: op_state_defs)

lemma leaves_states:
  assumes "leaves row ops w w'" "i < length ops"
  shows "op_waits T ops i w' = op_waits T ops i w" "op_arrived T ops i w' = op_arrived T ops i w" "op_settled T ops i w' = op_settled T ops i w"
  using assms unit_path_op [OF assms(2)] by (auto simp: leaves_def intro!: op_state_look)

lemma leaves_rooted: "leaves row ops w w' \<Longrightarrow> rooted_unit row ops w' = rooted_unit row ops w"
  by (auto simp: leaves_def rooted_unit_def rooted_def)

lemma leaves_recoverable: "leaves row ops w w' \<Longrightarrow> recoverable strict T row ops w' = recoverable strict T row ops w"
  using leaves_states leaves_rooted unfolding recoverable_def by metis

text \<open>A step of operation \<open>i\<close>: only its own trees change.\<close>

lemma own_step:
  assumes "laid_out row ops" "i < length ops" "touches ps w w'" "ps \<subseteq> {Src ops i, Dst ops i, Tmp row ops i, Back row ops i}"
  shows "j < length ops \<Longrightarrow> j \<noteq> i \<Longrightarrow> q \<in> {Src ops j, Dst ops j, Tmp row ops j, Back row ops j} \<Longrightarrow> look q (mw_disk w') = look q (mw_disk w)"
    and "q \<in> {Src ops i, Dst ops i, Tmp row ops i, Back row ops i} \<Longrightarrow> q \<notin> ps \<Longrightarrow> look q (mw_disk w') = look q (mw_disk w)"
proof -
  show "look q (mw_disk w') = look q (mw_disk w)" if "j < length ops" "j \<noteq> i" "q \<in> {Src ops j, Dst ops j, Tmp row ops j, Back row ops j}"
  proof (rule touches_look [OF assms(3)])
    fix p assume "p \<in> ps"
    then show "apart q p" using laid_out_other [OF assms(1) that(1) assms(2) that(2,3)] assms(4) by blast
  qed
  show "look q (mw_disk w') = look q (mw_disk w)" if "q \<in> {Src ops i, Dst ops i, Tmp row ops i, Back row ops i}" "q \<notin> ps"
  proof (rule touches_look [OF assms(3)])
    fix p assume "p \<in> ps"
    then show "apart q p"
      using unit_path_apart [OF assms(1) unit_path_op [OF assms(2) that(1)] unit_path_op [OF assms(2), of p row]] assms(4) that(2) by blast
  qed
qed

lemma own_step_states:
  assumes "laid_out row ops" "i < length ops" "touches ps w w'" "ps \<subseteq> {Src ops i, Dst ops i, Tmp row ops i, Back row ops i}"
    and "j < length ops" "j \<noteq> i"
  shows "op_waits T ops j w' = op_waits T ops j w" "op_arrived T ops j w' = op_arrived T ops j w" "op_settled T ops j w' = op_settled T ops j w"
  using own_step(1) [OF assms] by (auto intro!: op_state_look)

lemma own_step_rooted:
  assumes "laid_out row ops" "i < length ops" "touches ps w w'" "ps \<subseteq> {Src ops i, Dst ops i, Tmp row ops i, Back row ops i}"
    and "rooted_unit row ops w" "\<And>p. p \<in> ps \<Longrightarrow> rooted p (mw_disk w')"
  shows "rooted_unit row ops w'"
  unfolding rooted_unit_def
proof (intro allI impI)
  fix p assume p: "unit_path row ops p"
  then obtain j where j: "j < length ops" "p \<in> {Src ops j, Dst ops j, Tmp row ops j, Back row ops j}" by (rule unit_path_cases)
  show "rooted p (mw_disk w')"
  proof (cases "p \<in> ps")
    case False
    then have "look p (mw_disk w') = look p (mw_disk w)"
      using own_step [OF assms(1-4)] j by (cases "j = i") blast+
    then show ?thesis using assms(5) p rooted_cong unfolding rooted_unit_def by blast
  qed (use assms(6) in blast)
qed

section \<open>Moving forward\<close>

definition gentle :: "bool \<Rightarrow> move_answers \<Rightarrow> fs_op list \<Rightarrow> bool" where
  "gentle strict a ops \<longleftrightarrow> (if strict then one_drive a ops else no_failure a)"

text \<open>What an operation may do to the unit, besides what it does when it ends.\<close>

definition safe_step :: "bool \<Rightarrow> (nat \<Rightarrow> string \<rightharpoonup> node) \<Rightarrow> string \<Rightarrow> fs_op list \<Rightarrow> move_world \<Rightarrow> move_world \<Rightarrow> bool" where
  "safe_step strict T row ops w w' \<longleftrightarrow> same_tables w w' \<and> (\<not> alive w \<longrightarrow> w' = w) \<and> (mw_left w = None \<longrightarrow> mw_left w' = None) \<and>
     recoverable strict T row ops w'"

lemma safe_step_trans: "safe_step strict T row ops w w' \<Longrightarrow> safe_step strict T row ops w' w'' \<Longrightarrow> safe_step strict T row ops w w''"
  by (auto simp: safe_step_def same_tables_def)

lemma safe_step_refl: "recoverable strict T row ops w \<Longrightarrow> safe_step strict T row ops w w"
  by (simp add: safe_step_def same_tables_def)

lemma leaves_safe: "leaves row ops w w' \<Longrightarrow> recoverable strict T row ops w \<Longrightarrow> safe_step strict T row ops w w'"
  using leaves_recoverable [of row ops w w' strict T] by (simp add: safe_step_def) (simp add: leaves_def)

lemma safe_alive: "safe_step strict T row ops w w' \<Longrightarrow> alive w' \<Longrightarrow> alive w"
  by (auto simp: safe_step_def)

lemma own_step_safe:
  assumes "laid_out row ops" "i < length ops" "touches ps w w'" "ps \<subseteq> {Src ops i, Dst ops i, Tmp row ops i, Back row ops i}"
    and "recoverable strict T row ops w" "\<And>p. p \<in> ps \<Longrightarrow> rooted p (mw_disk w')"
    and "op_waits T ops i w' \<or> (if strict then op_settled T ops i w' else op_arrived T ops i w')"
  shows "safe_step strict T row ops w w'"
proof -
  have "op_waits T ops j w' \<or> (if strict then op_settled T ops j w' else op_arrived T ops j w')" if "j < length ops" for j
  proof (cases "j = i")
    case False
    have "op_waits T ops j w \<or> (if strict then op_settled T ops j w else op_arrived T ops j w)"
      using assms(5) that unfolding recoverable_def by blast
    then show ?thesis by (simp only: own_step_states [OF assms(1-4) that False])
  next
    case True
    then show ?thesis using assms(7) by (simp only:)
  qed
  moreover have "rooted_unit row ops w'" using own_step_rooted [OF assms(1-4) _ assms(6)] assms(5) by (simp add: recoverable_def)
  ultimately show ?thesis using assms(3) by (auto simp: safe_step_def recoverable_def touches_def)
qed

lemma forward_op:
  assumes laid: "laid_out row ops" and i: "i < length ops" and sound: "sound_trees T ops" and gentle: "gentle strict a ops"
    and rec: "recoverable strict T row ops w" and wait: "op_waits T ops i w"
    and run: "moveEntry a (Src ops i) (Dst ops i) (Tmp row ops i) w = (w', e)"
  shows "safe_step strict T row ops w w'"
    and "alive w' \<Longrightarrow> e = None \<Longrightarrow> op_settled T ops i w'"
    and "alive w' \<Longrightarrow> e \<noteq> None \<Longrightarrow> op_waits T ops i w'"
    and "e \<noteq> Some Leftover"
    and "alive w' \<Longrightarrow> \<not> strict \<Longrightarrow> e = None"
    and "j < length ops \<Longrightarrow> j \<noteq> i \<Longrightarrow> op_waits T ops j w' = op_waits T ops j w \<and> op_settled T ops j w' = op_settled T ops j w"
proof -
  have tmp: "rooted (Tmp row ops i) (mw_disk w)" using rec unit_path_op [OF i, of "Tmp row ops i"] by (simp add: recoverable_def rooted_unit_def)
  note f = moveEntry_facts [OF run laid_out_own(1-3) [OF laid i] tmp, of "T i"]
  have T: "T i [] \<noteq> None" "\<forall>r. T i r \<noteq> Some OtherNode" using sound i by (auto simp: sound_trees_def)
  have w: "waiting (T i) (Src ops i) (Dst ops i) w" using wait by (simp add: op_waits_def)
  have sub: "{Src ops i, Dst ops i, Tmp row ops i} \<subseteq> {Src ops i, Dst ops i, Tmp row ops i, Back row ops i}" by auto
  have here: "op_waits T ops i w' \<or> (if strict then op_settled T ops i w' else op_arrived T ops i w')"
    using f(3) [OF T(1) w] f(7) [OF T(1) w] gentle by (auto simp: gentle_def one_drive_def op_state_defs)
  show "safe_step strict T row ops w w'"
    by (rule own_step_safe [OF laid i f(1) [OF T(1) w] sub rec _ here]) (use f(2) [OF T(1) w] in auto)
  show left: "e \<noteq> Some Leftover"
    using f(7) [OF T(1) w] f(10) [OF T(1) w] gentle by (auto simp: gentle_def one_drive_def no_failure_def split: if_splits)
  show "alive w' \<Longrightarrow> e = None \<Longrightarrow> op_settled T ops i w'" using f(4) [OF T(1) w] by (simp add: op_settled_def)
  show "alive w' \<Longrightarrow> e \<noteq> None \<Longrightarrow> op_waits T ops i w'" using f(6) [OF T(1) w] left by (simp add: op_waits_def)
  show "alive w' \<Longrightarrow> \<not> strict \<Longrightarrow> e = None"
    using f(8) [OF T(1) w] gentle T(2) by (auto simp: gentle_def no_failure_def)
  show "j < length ops \<Longrightarrow> j \<noteq> i \<Longrightarrow> op_waits T ops j w' = op_waits T ops j w \<and> op_settled T ops j w' = op_settled T ops j w"
    using own_step_states [OF laid i f(1) [OF T(1) w] sub] by blast
qed

text \<open>The state while a unit is moved: the first \<open>k\<close> operations have settled, the others wait.\<close>

definition moved_upto :: "(nat \<Rightarrow> string \<rightharpoonup> node) \<Rightarrow> fs_op list \<Rightarrow> nat \<Rightarrow> move_world \<Rightarrow> bool" where
  "moved_upto T ops k w \<longleftrightarrow> (\<forall>j < length ops. if j < k then op_settled T ops j w else op_waits T ops j w)"

lemma leaves_moved: "leaves row ops w w' \<Longrightarrow> moved_upto T ops k w' = moved_upto T ops k w"
  using leaves_states unfolding moved_upto_def by metis

lemma moved_next:
  assumes "i < length ops" "moved_upto T ops i w" "op_settled T ops i w'"
    "\<And>j. j < length ops \<Longrightarrow> j \<noteq> i \<Longrightarrow> op_waits T ops j w' = op_waits T ops j w \<and> op_settled T ops j w' = op_settled T ops j w"
  shows "moved_upto T ops (Suc i) w'"
  unfolding moved_upto_def
proof (intro allI impI)
  fix j assume "j < length ops"
  then show "if j < Suc i then op_settled T ops j w' else op_waits T ops j w'"
    using assms by (cases "j = i") (auto simp: moved_upto_def split: if_splits)
qed

lemma move_ops_dead: "\<not> alive w \<Longrightarrow> laid_out row ops \<Longrightarrow> xs = drop i ops \<Longrightarrow> fst (move_ops a row i xs acc w) = w"
proof (induction xs arbitrary: i acc)
  case (Cons x xs)
  have i: "i < length ops" "x = ops ! i" "xs = drop (Suc i) ops"
    using Cons.prems(3) by (metis drop_eq_Nil leI list.discI, metis nth_via_drop, metis Cons_nth_drop_Suc drop_eq_Nil leI list.discI list.inject)
  obtain fin made remarks where acc: "acc = (fin, made, remarks)" by (cases acc)
  obtain dirs ok where m: "MkdirOwned a (filepathDir (op_Dst x)) w = (w, dirs, ok)"
    using MkdirOwned_leaves(1) [OF Cons.prems(2) i(1), of a w] Cons.prems(1) unfolding i(2) leaves_def by (metis prod.collapse)
  obtain e where e: "moveEntry a (op_Src x) (op_Dst x) (tmpName (op_Dst x) row i) w = (w, e)" using moveEntry_dead [OF Cons.prems(1)] by (metis prod.collapse)
  show ?case using m e acc Cons.IH [OF Cons.prems(1,2) i(3)] by (cases e) simp_all
qed simp

lemma drop_step: "x # xs = drop i ops \<Longrightarrow> i < length ops \<and> x = ops ! i \<and> xs = drop (Suc i) ops"
  by (metis Cons_nth_drop_Suc drop_eq_Nil leI list.discI list.inject)

lemma move_ops_facts:
  assumes laid: "laid_out row ops" and sound: "sound_trees T ops" and gentle: "gentle strict a ops"
  shows "move_ops a row i xs (fin, made, remarks) w = (w', (fin', made', remarks'), e) \<Longrightarrow> xs = drop i ops \<Longrightarrow> i \<le> length ops \<Longrightarrow> fin = [0..<i] \<Longrightarrow>
    recoverable strict T row ops w \<Longrightarrow> (alive w \<Longrightarrow> moved_upto T ops i w) \<Longrightarrow> (\<And>d. d \<in> set made \<Longrightarrow> outside row ops d) \<Longrightarrow>
    safe_step strict T row ops w w' \<and>
    (alive w' \<longrightarrow> (e = None \<longrightarrow> moved_upto T ops (length ops) w') \<and> (\<not> strict \<longrightarrow> e = None) \<and>
       (\<exists>k \<le> length ops. fin' = [0..<k] \<and> moved_upto T ops k w') \<and> (\<forall>d \<in> set made'. outside row ops d))"
proof (induction xs arbitrary: i fin made remarks w)
  case Nil
  then have "i = length ops" by simp
  then show ?case using Nil safe_step_refl by auto
next
  case (Cons x xs)
  have i: "i < length ops" "x = ops ! i" "xs = drop (Suc i) ops" using drop_step [OF Cons.prems(2)] by auto
  show ?case
  proof (cases "alive w")
    case False
    then have "w' = w" using move_ops_dead [OF False laid Cons.prems(2), of a "(fin, made, remarks)"] Cons.prems(1) by simp
    then show ?thesis using False safe_step_refl [OF Cons.prems(5)] by simp
  next
    case True
    have upto: "moved_upto T ops i w" using Cons.prems(6) True .
    obtain w1 dirs ok where m: "MkdirOwned a (filepathDir (op_Dst x)) w = (w1, dirs, ok)" by (metis prod_cases3)
    note l = MkdirOwned_leaves [OF laid i(1) m [unfolded i(2)]]
    have rec1: "recoverable strict T row ops w1" using leaves_recoverable [OF l(1)] Cons.prems(5) by simp
    have upto1: "moved_upto T ops i w1" using leaves_moved [OF l(1)] upto by simp
    have safe1: "safe_step strict T row ops w w1" using leaves_safe l(1) Cons.prems(5) by blast
    have out: "outside row ops d" if "d \<in> set (made @ dirs)" for d using that l(2) Cons.prems(7) by auto
    show ?thesis
    proof (cases ok)
      case False
      then have "w' = w1" "fin' = fin" "made' = made @ dirs" "e \<noteq> None" using Cons.prems(1) m by auto
      moreover have "strict" using False l(3) gentle by (cases strict) (auto simp: gentle_def no_failure_def)
      ultimately show ?thesis using safe1 upto1 out Cons.prems(3,4) by auto
    next
      case ok: True
      obtain w2 e2 where e2: "moveEntry a (op_Src x) (op_Dst x) (tmpName (op_Dst x) row i) w1 = (w2, e2)" by fastforce
      have wait: "op_waits T ops i w1" using upto1 i(1) by (simp add: moved_upto_def)
      note f = forward_op [OF laid i(1) sound gentle rec1 wait e2 [unfolded i(2)]]
      have safe2: "safe_step strict T row ops w w2" using safe1 f(1) by (rule safe_step_trans)
      show ?thesis
      proof (cases e2)
        case None
        then have run: "move_ops a row (Suc i) xs ([0..<Suc i], made @ dirs, remarks) w2 = (w', (fin', made', remarks'), e)"
          using Cons.prems(1,4) m ok e2 by simp
        have "alive w2 \<Longrightarrow> moved_upto T ops (Suc i) w2" using moved_next [OF i(1) upto1] f(2) None f(6) by blast
        moreover have "recoverable strict T row ops w2" using safe2 by (simp add: safe_step_def)
        moreover have "Suc i \<le> length ops" using i(1) by simp
        ultimately show ?thesis using Cons.IH [OF run i(3) _ refl _ _ out] safe_step_trans [OF safe2] by blast
      next
        case (Some c)
        then have res: "w' = w2" "fin' = fin" "made' = made @ dirs" "e \<noteq> None" using Cons.prems(1) m ok e2 f(4) by auto
        have "moved_upto T ops i w2" if "alive w2"
          unfolding moved_upto_def
        proof (intro allI impI)
          fix j assume "j < length ops"
          then show "if j < i then op_settled T ops j w2 else op_waits T ops j w2"
            using f(3) [OF that] Some f(6) [of j] upto1 by (cases "j = i") (auto simp: moved_upto_def split: if_splits)
        qed
        then show ?thesis using res safe2 out Cons.prems(3,4) f(5) Some by auto
      qed
    qed
  qed
qed

section \<open>Putting back\<close>

lemma back_op:
  assumes laid: "laid_out row ops" and i: "i < length ops" and sound: "sound_trees T ops" and ren: "ma_rename a (Dst ops i) (Src ops i) = Renamed"
    and rec: "recoverable True T row ops w" and settled: "op_settled T ops i w"
    and run: "moveEntry a (Dst ops i) (Src ops i) (Back row ops i) w = (w', e)"
  shows "safe_step True T row ops w w'" and "e = None" and "alive w' \<Longrightarrow> op_waits T ops i w'"
    and "j < length ops \<Longrightarrow> j \<noteq> i \<Longrightarrow> op_waits T ops j w' = op_waits T ops j w \<and> op_settled T ops j w' = op_settled T ops j w"
proof -
  have part: "rooted (Back row ops i) (mw_disk w)" using rec unit_path_op [OF i, of "Back row ops i"] by (simp add: recoverable_def rooted_unit_def)
  note f = moveEntry_facts [OF run laid_out_own(7,5,4) [OF laid i] part, of "T i"]
  have T: "T i [] \<noteq> None" using sound i by (auto simp: sound_trees_def)
  have w: "waiting (T i) (Dst ops i) (Src ops i) w" using settled by (simp add: op_state_defs)
  have sub: "{Dst ops i, Src ops i, Back row ops i} \<subseteq> {Src ops i, Dst ops i, Tmp row ops i, Back row ops i}" by auto
  show e: "e = None" by (rule f(9) [OF T w ren])
  have here: "op_waits T ops i w' \<or> (if True then op_settled T ops i w' else op_arrived T ops i w')"
    using f(7) [OF T w] ren by (auto simp: op_state_defs)
  show "safe_step True T row ops w w'"
    by (rule own_step_safe [OF laid i f(1) [OF T w] sub rec _ here]) (use f(2) [OF T w] in auto)
  show "alive w' \<Longrightarrow> op_waits T ops i w'" using f(4) [OF T w] e by (simp add: op_state_defs)
  show "j < length ops \<Longrightarrow> j \<noteq> i \<Longrightarrow> op_waits T ops j w' = op_waits T ops j w \<and> op_settled T ops j w' = op_settled T ops j w"
    using own_step_states [OF laid i f(1) [OF T w] sub] by blast
qed

lemma undo_ops_dead: "\<not> alive w \<Longrightarrow> fst (undo_ops a ops row is w) = w"
proof (induction "is" arbitrary: w)
  case (Cons i "is")
  obtain e where e: "moveEntry a (Dst ops i) (Src ops i) (Back row ops i) w = (w, e)" using moveEntry_dead [OF Cons.prems] by (metis prod.collapse)
  obtain ok where "undo_ops a ops row is w = (w, ok)" using Cons.IH [OF Cons.prems] by (metis prod.collapse)
  then show ?case by (simp add: e)
qed simp

lemma undo_ops_facts:
  assumes laid: "laid_out row ops" and sound: "sound_trees T ops" and one: "one_drive a ops"
  shows "undo_ops a ops row (rev [0..<k]) w = (w', ok) \<Longrightarrow> k \<le> length ops \<Longrightarrow> recoverable True T row ops w \<Longrightarrow> (alive w \<Longrightarrow> moved_upto T ops k w) \<Longrightarrow>
    safe_step True T row ops w w' \<and> (alive w' \<longrightarrow> ok \<and> moved_upto T ops 0 w')"
proof (induction k arbitrary: w ok)
  case 0
  then show ?case using safe_step_refl by auto
next
  case (Suc k)
  show ?case
  proof (cases "alive w")
    case False
    then have "w' = w" using undo_ops_dead [OF False, of a ops row "rev [0..<Suc k]"] Suc.prems(1) by simp
    then show ?thesis using False safe_step_refl [OF Suc.prems(3)] by simp
  next
    case True
    have k: "k < length ops" using Suc.prems(2) by simp
    have upto: "moved_upto T ops (Suc k) w" using Suc.prems(4) True .
    obtain w1 e where e: "moveEntry a (Dst ops k) (Src ops k) (Back row ops k) w = (w1, e)" by fastforce
    have ren: "ma_rename a (Dst ops k) (Src ops k) = Renamed" using one k by (simp add: one_drive_def list_all_length)
    have settled: "op_settled T ops k w" using upto k by (auto simp: moved_upto_def)
    note f = back_op [OF laid k sound ren Suc.prems(3) settled e]
    obtain ok1 where run: "undo_ops a ops row (rev [0..<k]) w1 = (w', ok1)" "ok = ok1"
      using Suc.prems(1) e f(2) by (auto split: prod.splits)
    have "moved_upto T ops k w1" if "alive w1"
      unfolding moved_upto_def
    proof (intro allI impI)
      fix j assume "j < length ops"
      then show "if j < k then op_settled T ops j w1 else op_waits T ops j w1"
        using f(3) [OF that] f(4) [of j] upto by (cases "j = k") (auto simp: moved_upto_def split: if_splits)
    qed
    moreover have "recoverable True T row ops w1" using f(1) by (simp add: safe_step_def)
    ultimately show ?thesis using Suc.IH [OF run(1)] k run(2) safe_step_trans [OF f(1)] by auto
  qed
qed

end
