(* ===== verification/Move_Recovery.thy ===== *)
theory Move_Recovery
  imports Move_Crash
begin

text \<open>
  The journal against the disk (\<open>journal_agrees\<close>): kept by a move that may die at any write, by a recovery
  that may die as well if everything is on one drive, and turned into a final state by a recovery that
  ends.
\<close>

section \<open>Writes to the tables\<close>

lemma setItem_cases:
  assumes "map_of (mw_items w) row = Some it"
  shows "\<not> alive w \<Longrightarrow> setItem row st msg w = w"
    and "alive w \<Longrightarrow> map_of (mw_items (setItem row st msg w)) row = Some (it\<lparr>mi_Status := st, mi_Message := msg\<rparr>)"
    and "mw_disk (setItem row st msg w) = mw_disk w" "mw_cat (setItem row st msg w) = mw_cat w"
    and "mw_left w = None \<Longrightarrow> mw_left (setItem row st msg w) = None"
    and "alive (setItem row st msg w) \<Longrightarrow> alive w"
  using assms by (auto simp: setItem_def world_write_def alive_def split: option.splits nat.splits)

lemma setItem_dead: "\<not> alive w \<Longrightarrow> setItem row st msg w = w"
  by (simp add: setItem_def world_write_dead)

lemma same_disk_states:
  assumes "mw_disk w' = mw_disk w"
  shows "recoverable strict T row ops w' = recoverable strict T row ops w" "moved_upto T ops k w' = moved_upto T ops k w"
  using assms by (auto simp: recoverable_def rooted_unit_def moved_upto_def op_state_defs)

section \<open>The catalogue\<close>

lemma repoint_other: "k \<noteq> fd_ID f \<Longrightarrow> map_of (repoint dest f ms) k = map_of ms k"
  by (auto simp: repoint_def split: option.splits)

lemma repoint_folds_other: "k \<notin> set (map fd_ID fs) \<Longrightarrow> map_of (fold (repoint dest) fs ms) k = map_of ms k"
  by (induction fs arbitrary: ms) (auto simp: repoint_other)

definition repointed :: "string \<Rightarrow> file_dest \<Rightarrow> media_row \<Rightarrow> media_row" where
  "repointed dest f m = m\<lparr>mf_Library := dest, mf_Rel := fd_Rel f, mf_Abs := fd_Abs f, mf_Availability := ''online''\<rparr>"

lemma repoint_own: "map_of (repoint dest f ms) (fd_ID f) = map_option (repointed dest f) (map_of ms (fd_ID f))"
  by (auto simp: repoint_def repointed_def split: option.splits)

lemma repoint_folds_own:
  "distinct (map fd_ID fs) \<Longrightarrow> f \<in> set fs \<Longrightarrow> map_of (fold (repoint dest) fs ms) (fd_ID f) = map_option (repointed dest f) (map_of ms (fd_ID f))"
proof (induction fs arbitrary: ms)
  case (Cons g fs)
  show ?case
  proof (cases "f = g")
    case True
    then show ?thesis using Cons.prems(1) repoint_folds_other [of "fd_ID f" fs] by (simp add: repoint_own)
  next
    case False
    then have "fd_ID f \<in> fd_ID ` set fs" using Cons.prems(2) by simp
    then have "fd_ID f \<noteq> fd_ID g" using Cons.prems(1) by auto
    then show ?thesis using Cons False by (simp add: repoint_other)
  qed
qed simp

lemma repoint_same: "(\<forall>m. map_of ms (fd_ID f) = Some m \<longrightarrow> repointed dest f m = m) \<Longrightarrow> repoint dest f ms = ms"
  by (auto simp: repoint_def repointed_def set_key_def update_triv split: option.splits)

lemma repoint_folds_same:
  "(\<And>f m. f \<in> set fs \<Longrightarrow> map_of ms (fd_ID f) = Some m \<Longrightarrow> repointed dest f m = m) \<Longrightarrow> fold (repoint dest) fs ms = ms"
  by (induction fs) (auto simp: repoint_same)

lemma set_key_again: "set_key k v (set_key k v m) = set_key k v m"
  unfolding set_key_def by (rule update_triv) (simp add: update_conv')

text \<open>Moving the catalogue a second time changes nothing.\<close>

lemma moved_catalogue_idem:
  assumes "distinct (map fd_ID files)"
  shows "moved_catalogue kind tid files dest (moved_catalogue kind tid files dest ct) = moved_catalogue kind tid files dest ct"
proof -
  let ?ms = "fold (repoint dest) files (ct_media ct)"
  have "fold (repoint dest) files ?ms = ?ms"
  proof (rule repoint_folds_same)
    fix f m assume "f \<in> set files" "map_of ?ms (fd_ID f) = Some m"
    then show "repointed dest f m = m" using repoint_folds_own [OF assms, of f dest "ct_media ct"] by (auto simp: repointed_def)
  qed
  then show ?thesis
    by (cases "map_of (ct_titles ct) (if kind = KindSeries then KindSeries else KindMovie, tid)")
      (simp_all add: moved_catalogue_def Let_def set_key_again)
qed

lemma applyMove_facts:
  assumes "dest \<noteq> []" "ma_tx a" "applyMove a kind tid files dest w = (w', ok)"
  shows "ok" "mw_disk w' = mw_disk w" "mw_items w' = mw_items w" "mw_cat w' = (if alive w then moved_catalogue kind tid files dest (mw_cat w) else mw_cat w)"
    "\<not> alive w \<Longrightarrow> w' = w" "mw_left w = None \<Longrightarrow> mw_left w' = None" "alive w' \<Longrightarrow> alive w"
  using assms by (auto simp: applyMove_def world_write_def alive_def split: option.splits nat.splits)

section \<open>The journal agrees with the disk\<close>

definition same_payload :: "move_item \<Rightarrow> move_item \<Rightarrow> bool" where
  "same_payload it0 it \<longleftrightarrow> mi_Kind it = mi_Kind it0 \<and> mi_ItemID it = mi_ItemID it0 \<and> mi_Dest it = mi_Dest it0 \<and> mi_Ops it = mi_Ops it0 \<and> mi_Files it = mi_Files it0"

definition catalogue_after :: "move_item \<Rightarrow> catalogue \<Rightarrow> catalogue" where
  "catalogue_after it ct = moved_catalogue (mi_Kind it) (mi_ItemID it) (mi_Files it) (mi_Dest it) ct"

definition status_agrees :: "(nat \<Rightarrow> string \<rightharpoonup> node) \<Rightarrow> move_item \<Rightarrow> catalogue \<Rightarrow> string \<Rightarrow> move_world \<Rightarrow> bool" where
  "status_agrees T it0 ct st w \<longleftrightarrow>
     (let ops = mi_Ops it0; there = moved_upto T ops (length ops) w; here = moved_upto T ops 0 w
      in if st = moveItemMoving then mw_cat w = ct \<or> (there \<and> mw_cat w = catalogue_after it0 ct)
         else if st = moveItemFSDone then there \<and> (mw_cat w = ct \<or> mw_cat w = catalogue_after it0 ct)
         else if st = moveItemMoved then there \<and> mw_cat w = catalogue_after it0 ct
         else st \<in> {moveItemPending, moveItemFailed, moveItemRolledBack} \<and> here \<and> mw_cat w = ct)"

definition journal_agrees :: "bool \<Rightarrow> (nat \<Rightarrow> string \<rightharpoonup> node) \<Rightarrow> string \<Rightarrow> move_item \<Rightarrow> catalogue \<Rightarrow> move_world \<Rightarrow> bool" where
  "journal_agrees strict T row it0 ct w \<longleftrightarrow> recoverable strict T row (mi_Ops it0) w \<and>
     (\<exists>it. map_of (mw_items w) row = Some it \<and> same_payload it0 it \<and> status_agrees T it0 ct (mi_Status it) w)"

lemma status_distinct [simp]:
  "moveItemMoving \<noteq> moveItemFSDone" "moveItemMoving \<noteq> moveItemMoved" "moveItemFSDone \<noteq> moveItemMoved" "moveItemFSDone \<noteq> moveItemMoving"
  "moveItemMoved \<noteq> moveItemMoving" "moveItemMoved \<noteq> moveItemFSDone"
  "moveItemFailed \<noteq> moveItemMoving" "moveItemFailed \<noteq> moveItemFSDone" "moveItemFailed \<noteq> moveItemMoved"
  "moveItemPending \<noteq> moveItemMoving" "moveItemPending \<noteq> moveItemFSDone" "moveItemPending \<noteq> moveItemMoved"
  "moveItemRolledBack \<noteq> moveItemMoving" "moveItemRolledBack \<noteq> moveItemFSDone" "moveItemRolledBack \<noteq> moveItemMoved"
  by (simp_all add: move_status_defs)

text \<open>Writing a status that is true keeps the agreement.\<close>

lemma journal_set:
  assumes agrees: "journal_agrees strict T row it0 ct w" and new: "alive w \<Longrightarrow> status_agrees T it0 ct st w"
  shows "journal_agrees strict T row it0 ct (setItem row st msg w)"
proof -
  obtain it where it: "map_of (mw_items w) row = Some it" "same_payload it0 it" "status_agrees T it0 ct (mi_Status it) w"
    and rec: "recoverable strict T row (mi_Ops it0) w" using agrees by (auto simp: journal_agrees_def)
  note f = setItem_cases [OF it(1), of st msg]
  have "status_agrees T it0 ct st' (setItem row st msg w) = status_agrees T it0 ct st' w" for st'
    by (simp add: status_agrees_def f(3,4) same_disk_states [OF f(3)])
  moreover have "recoverable strict T row (mi_Ops it0) (setItem row st msg w)" using rec same_disk_states [OF f(3)] by simp
  moreover have "same_payload it0 (it\<lparr>mi_Status := st, mi_Message := msg\<rparr>)" using it(2) by (simp add: same_payload_def)
  ultimately show ?thesis using it f(1,2) new rec by (cases "alive w") (auto simp: journal_agrees_def)
qed

lemma journal_status: "alive w \<Longrightarrow> map_of (mw_items w) row = Some it \<Longrightarrow> \<exists>it'. map_of (mw_items (setItem row st msg w)) row = Some it' \<and> mi_Status it' = st"
  using setItem_cases(2) [of w row it st msg] by fastforce

text \<open>While the journal says \<^verbatim>\<open>moving\<close>, safe steps keep the agreement.\<close>

lemma journal_moving:
  assumes agrees: "journal_agrees strict T row it0 ct w" and safe: "safe_step strict T row (mi_Ops it0) w w'"
    and moving: "alive w \<Longrightarrow> map_option mi_Status (map_of (mw_items w) row) = Some moveItemMoving \<and> mw_cat w = ct"
  shows "journal_agrees strict T row it0 ct w'"
    and "alive w' \<Longrightarrow> map_option mi_Status (map_of (mw_items w') row) = Some moveItemMoving \<and> mw_cat w' = ct"
proof -
  show "journal_agrees strict T row it0 ct w'"
  proof (cases "alive w")
    case True
    then show ?thesis using agrees safe moving by (auto simp: journal_agrees_def safe_step_def same_tables_def status_agrees_def)
  next
    case False
    then have "w' = w" using safe by (simp add: safe_step_def)
    then show ?thesis using agrees by simp
  qed
  show "alive w' \<Longrightarrow> map_option mi_Status (map_of (mw_items w') row) = Some moveItemMoving \<and> mw_cat w' = ct"
    using moving safe_alive [OF safe] safe by (auto simp: safe_step_def same_tables_def)
qed

section \<open>The move\<close>

lemma fold_fixed: "(\<And>x. x \<in> set xs \<Longrightarrow> f x w = w) \<Longrightarrow> fold f xs w = w"
  by (induction xs) auto

lemma os_remove_dead: "\<not> alive w \<Longrightarrow> os_remove d w = w"
  by (simp add: os_remove_def os_unlink_def disk_write_def world_write_dead)

lemma removeCreated_dead: "\<not> alive w \<Longrightarrow> removeCreated made w = w"
  unfolding removeCreated_def by (intro fold_fixed os_remove_dead)

lemma undo_unit_dead: "\<not> alive w \<Longrightarrow> laid_out row ops \<Longrightarrow> fst (undo_unit a ops row fin made e w) = w"
proof -
  assume dead: "\<not> alive w"
  obtain ok where r: "rollbackOps a ops fin row w = (w, ok)" using undo_ops_dead [OF dead] unfolding rollbackOps_def by (metis prod.collapse)
  have "removeCreated made w = w" by (rule removeCreated_dead [OF dead])
  then show ?thesis using r setItem_dead [OF dead] by (cases ok) (simp_all add: undo_unit_def)
qed

lemma undo_unit_agrees:
  assumes laid: "laid_out row (mi_Ops it0)" and sound: "sound_trees T (mi_Ops it0)" and one: "one_drive a (mi_Ops it0)"
    and agrees: "journal_agrees True T row it0 ct w"
    and moving: "alive w \<Longrightarrow> map_option mi_Status (map_of (mw_items w) row) = Some moveItemMoving \<and> mw_cat w = ct"
    and upto: "alive w \<Longrightarrow> \<exists>k \<le> length (mi_Ops it0). fin = [0..<k] \<and> moved_upto T (mi_Ops it0) k w"
    and out: "alive w \<Longrightarrow> \<forall>d \<in> set made. outside row (mi_Ops it0) d"
  shows "journal_agrees True T row it0 ct (fst (undo_unit a (mi_Ops it0) row fin made e w))"
proof (cases "alive w")
  case False
  then show ?thesis using agrees undo_unit_dead [OF False laid] by simp
next
  case True
  let ?ops = "mi_Ops it0"
  obtain k where k: "k \<le> length ?ops" "fin = [0..<k]" "moved_upto T ?ops k w" using upto True by blast
  obtain w1 ok where r: "undo_ops a ?ops row (rev [0..<k]) w = (w1, ok)" by fastforce
  have rec: "recoverable True T row ?ops w" using agrees by (simp add: journal_agrees_def)
  have safe: "safe_step True T row ?ops w w1" and ended: "alive w1 \<longrightarrow> ok \<and> moved_upto T ?ops 0 w1"
    using undo_ops_facts [OF laid sound one r k(1) rec] k(3) by auto
  note m1 = journal_moving [OF agrees safe moving]
  have roll: "rollbackOps a ?ops fin row w = (w1, ok)" using r k(2) by (simp add: rollbackOps_def)
  show ?thesis
  proof (cases "alive w1")
    case False
    have "removeCreated made w1 = w1" by (rule removeCreated_dead [OF False])
    then show ?thesis using m1(1) roll setItem_dead [OF False] by (cases ok) (simp_all add: undo_unit_def)
  next
    case alive1: True
    have ok: "ok" "moved_upto T ?ops 0 w1" using ended alive1 by auto
    let ?w2 = "removeCreated made w1"
    have l: "leaves row ?ops w1 ?w2" using removeCreated_leaves out True by blast
    have safe2: "safe_step True T row ?ops w1 ?w2" using leaves_safe [OF l, of True T] safe unfolding safe_step_def by blast
    note m2 = journal_moving [OF m1(1) safe2 m1(2)]
    have "status_agrees T it0 ct moveItemFailed ?w2" if "alive ?w2"
      using m2(2) that True alive1 leaves_moved [OF l, of T 0] ok(2) by (simp add: status_agrees_def Let_def)
    then show ?thesis using journal_set [OF m2(1), of moveItemFailed] roll ok(1) by (simp add: undo_unit_def)
  qed
qed

lemma prunes_leave: "(\<And>d. d \<in> set ds \<Longrightarrow> outside row ops d) \<Longrightarrow> leaves row ops w (fold (prune_one src) ds w)"
  by (intro folds_leave) (simp add: prune_one_def os_remove_leaves)

text \<open>Once all files have moved.\<close>

lemma journal_finish:
  assumes agrees: "journal_agrees strict T row it0 ct w" and tx: "mi_Dest it0 \<noteq> []" "ma_tx a" and ids: "distinct (map fd_ID (mi_Files it0))"
    and there: "alive w \<Longrightarrow> moved_upto T (mi_Ops it0) (length (mi_Ops it0)) w"
    and cat: "alive w \<Longrightarrow> mw_cat w = ct \<or> mw_cat w = catalogue_after it0 ct"
    and st: "alive w \<Longrightarrow> map_option mi_Status (map_of (mw_items w) row) \<in> {Some moveItemMoving, Some moveItemFSDone}"
    and run: "applyMove a (mi_Kind it0) (mi_ItemID it0) (mi_Files it0) (mi_Dest it0) w = (w', ok)"
  shows "ok" and "journal_agrees strict T row it0 ct w'"
    and "alive w' \<Longrightarrow> moved_upto T (mi_Ops it0) (length (mi_Ops it0)) w' \<and> mw_cat w' = catalogue_after it0 ct"
    and "alive w' \<Longrightarrow> map_of (mw_items w') row = map_of (mw_items w) row"
    and "mw_left w = None \<Longrightarrow> mw_left w' = None" and "alive w' \<Longrightarrow> alive w"
proof -
  note f = applyMove_facts [OF tx run]
  show ok by (rule f(1))
  show "mw_left w = None \<Longrightarrow> mw_left w' = None" "alive w' \<Longrightarrow> alive w" by (fact f(6), fact f(7))
  note d = same_disk_states [OF f(2)]
  have c': "mw_cat w' = catalogue_after it0 ct" if "alive w"
    using cat [OF that] f(4) that moved_catalogue_idem [OF ids] by (auto simp: catalogue_after_def)
  show "journal_agrees strict T row it0 ct w'"
  proof (cases "alive w")
    case True
    obtain it where it: "map_of (mw_items w) row = Some it" "same_payload it0 it" using agrees by (auto simp: journal_agrees_def)
    have "mi_Status it \<in> {moveItemMoving, moveItemFSDone}" using st [OF True] it(1) by auto
    then have "status_agrees T it0 ct (mi_Status it) w'" using c' [OF True] there [OF True] d by (auto simp: status_agrees_def Let_def)
    then show ?thesis using it agrees d f(3) by (auto simp: journal_agrees_def)
  qed (use agrees f(5) in simp)
  show "alive w' \<Longrightarrow> moved_upto T (mi_Ops it0) (length (mi_Ops it0)) w' \<and> mw_cat w' = catalogue_after it0 ct"
    using f(7) there d c' by simp
  show "alive w' \<Longrightarrow> map_of (mw_items w') row = map_of (mw_items w) row" using f(3) by simp
qed

lemma leaves_agrees:
  assumes "leaves row (mi_Ops it0) w w'" "journal_agrees strict T row it0 ct w"
  shows "journal_agrees strict T row it0 ct w'"
proof -
  have "mw_items w' = mw_items w" "mw_cat w' = mw_cat w" using assms(1) by (auto simp: leaves_def same_tables_def)
  moreover from this have "status_agrees T it0 ct st w' = status_agrees T it0 ct st w" for st
    using leaves_moved [OF assms(1)] by (simp add: status_agrees_def)
  ultimately show ?thesis
    using assms(2) leaves_recoverable [OF assms(1)] unfolding journal_agrees_def by simp
qed

lemma executeUnit_agrees:
  assumes laid: "laid_out row (mi_Ops it0)" and sound: "sound_trees T (mi_Ops it0)" and gentle: "gentle strict a (mi_Ops it0)"
    and tx: "mi_Dest it0 \<noteq> []" and ids: "distinct (map fd_ID (mi_Files it0))"
    and p: "up_ops p = mi_Ops it0" "up_files p = mi_Files it0" "up_dest p = mi_Dest it0" "mu_Kind (up_unit p) = mi_Kind it0" "mu_ID (up_unit p) = mi_ItemID it0"
    and prune: "\<And>d. d \<in> set (up_pruneDirs p) \<Longrightarrow> outside row (mi_Ops it0) d"
    and agrees: "journal_agrees strict T row it0 ct w" and here: "moved_upto T (mi_Ops it0) 0 w" and cat: "mw_cat w = ct"
  shows "journal_agrees strict T row it0 ct (fst (executeUnit a row p w))"
proof -
  let ?ops = "mi_Ops it0" and ?n = "length (mi_Ops it0)"
  have tx': "ma_tx a" using gentle by (auto simp: gentle_def one_drive_def no_failure_def split: if_splits)
  define w1 where "w1 = setItem row moveItemMoving [] w"
  have j1: "journal_agrees strict T row it0 ct w1" unfolding w1_def by (rule journal_set [OF agrees]) (simp add: status_agrees_def cat)
  obtain it where it: "map_of (mw_items w) row = Some it" using agrees by (auto simp: journal_agrees_def)
  note s1 = setItem_cases [OF it, of moveItemMoving "[]", folded w1_def]
  have m1: "map_option mi_Status (map_of (mw_items w1) row) = Some moveItemMoving \<and> mw_cat w1 = ct" if "alive w1"
    using s1(2,4) s1(6) [OF that] cat by simp
  have h1: "moved_upto T ?ops 0 w1" using here same_disk_states [OF s1(3)] by simp
  obtain w2 fin made remarks e where r2: "move_ops a row 0 ?ops ([], [], []) w1 = (w2, (fin, made, remarks), e)" by (metis prod_cases3 prod_cases4)
  have rec1: "recoverable strict T row ?ops w1" using j1 by (simp add: journal_agrees_def)
  have f2: "safe_step strict T row ?ops w1 w2 \<and>
    (alive w2 \<longrightarrow> (e = None \<longrightarrow> moved_upto T ?ops ?n w2) \<and> (\<not> strict \<longrightarrow> e = None) \<and>
       (\<exists>k \<le> ?n. fin = [0..<k] \<and> moved_upto T ?ops k w2) \<and> (\<forall>d \<in> set made. outside row ?ops d))"
    using move_ops_facts [OF laid sound gentle r2 _ _ _ rec1] h1 by simp
  have j2: "journal_agrees strict T row it0 ct w2" by (rule journal_moving(1) [OF j1 conjunct1 [OF f2]]) (rule m1)
  have m2: "map_option mi_Status (map_of (mw_items w2) row) = Some moveItemMoving \<and> mw_cat w2 = ct" if "alive w2"
    by (rule journal_moving(2) [OF j1 conjunct1 [OF f2] _ that]) (rule m1)
  show ?thesis
  proof (cases e)
    case (Some c)
    then have res: "fst (executeUnit a row p w) = fst (undo_unit a ?ops row fin made c w2)" using r2 p w1_def by (simp add: executeUnit_def)
    show ?thesis
    proof (cases "alive w2")
      case False
      then show ?thesis using res undo_unit_dead [OF False laid] j2 by simp
    next
      case True
      then have strict: "strict" using f2 Some by auto
      then have "one_drive a ?ops" using gentle by (simp add: gentle_def)
      from undo_unit_agrees [OF laid sound this _ m2] show ?thesis using res f2 strict j2 by auto
    qed
  next
    case None
    define w3 where "w3 = setItem row moveItemFSDone [] w2"
    obtain it2 where it2: "map_of (mw_items w2) row = Some it2" using j2 by (auto simp: journal_agrees_def)
    note s3 = setItem_cases [OF it2, of moveItemFSDone "[]", folded w3_def]
    have j3: "journal_agrees strict T row it0 ct w3"
      unfolding w3_def by (rule journal_set [OF j2]) (use f2 None m2 in \<open>simp add: status_agrees_def Let_def\<close>)
    obtain w4 ok where r4: "applyMove a (mi_Kind it0) (mi_ItemID it0) (mi_Files it0) (mi_Dest it0) w3 = (w4, ok)" by fastforce
    have "alive w3 \<Longrightarrow> moved_upto T ?ops ?n w3" using s3(6) f2 None same_disk_states [OF s3(3)] by simp
    moreover have "alive w3 \<Longrightarrow> mw_cat w3 = ct \<or> mw_cat w3 = catalogue_after it0 ct" using s3(4,6) m2 by simp
    moreover have "alive w3 \<Longrightarrow> map_option mi_Status (map_of (mw_items w3) row) \<in> {Some moveItemMoving, Some moveItemFSDone}" using s3(2,6) by simp
    ultimately have f4: "ok" "journal_agrees strict T row it0 ct w4"
      "alive w4 \<Longrightarrow> moved_upto T ?ops ?n w4 \<and> mw_cat w4 = catalogue_after it0 ct"
      using journal_finish [OF j3 tx tx' ids _ _ _ r4] by blast+
    define w5 where "w5 = fold (prune_one (up_src p)) (up_pruneDirs p) w4"
    have l5: "leaves row ?ops w4 w5" unfolding w5_def by (rule prunes_leave) (rule prune)
    have j5: "journal_agrees strict T row it0 ct w5" using leaves_agrees [OF l5 f4(2)] .
    have "status_agrees T it0 ct moveItemMoved w5" if "alive w5"
    proof -
      have "alive w4" using l5 that by (auto simp: leaves_def)
      then show ?thesis using f4(3) leaves_moved [OF l5, of T ?n] l5 by (simp add: status_agrees_def leaves_def same_tables_def)
    qed
    then have "journal_agrees strict T row it0 ct (setItem row moveItemMoved msg w5)" for msg by (rule journal_set [OF j5])
    then show ?thesis using r2 r4 f4(1) None p w1_def w3_def w5_def by (simp add: executeUnit_def)
  qed
qed

section \<open>Recovery\<close>

text \<open>A recovery may be cut short on one drive; otherwise it must end.\<close>

definition recovers :: "bool \<Rightarrow> move_answers \<Rightarrow> fs_op list \<Rightarrow> move_world \<Rightarrow> bool" where
  "recovers strict a ops w \<longleftrightarrow> gentle strict a ops \<and> (strict \<or> mw_left w = None)"

lemma recovers_safe: "recovers strict a ops w \<Longrightarrow> safe_step strict' T row ops w w' \<Longrightarrow> recovers strict a ops w'"
  by (auto simp: recovers_def safe_step_def)

lemma waits_not_arrived: "sound_trees T ops \<Longrightarrow> i < length ops \<Longrightarrow> op_arrived T ops i w \<Longrightarrow> \<not> op_waits T ops i w"
  by (auto simp: sound_trees_def op_state_defs fun_eq_iff)

lemma op_recoverable: "recoverable strict T row ops w \<Longrightarrow> i < length ops \<Longrightarrow> op_waits T ops i w \<or> (if strict then op_settled T ops i w else op_arrived T ops i w)"
  unfolding recoverable_def by blast

lemma complete_iff:
  assumes "sound_trees T ops" "i < length ops" "recoverable strict T row ops w"
  shows "path_exists (Dst ops i) (mw_disk w) \<longleftrightarrow> \<not> op_waits T ops i w"
proof -
  have T: "T i [] \<noteq> None" using assms(1,2) by (simp add: sound_trees_def)
  have "op_waits T ops i w \<or> op_arrived T ops i w"
    using op_recoverable [OF assms(3,2)] by (auto simp: op_settled_def op_arrived_def split: if_splits)
  then show ?thesis using T unfolding exists_look op_state_defs by (metis (no_types))
qed

lemma clear_partials_facts:
  assumes laid: "laid_out row ops" and sound: "sound_trees T ops"
  shows "clear_partials a row i xs w = (w', complete) \<Longrightarrow> xs = drop i ops \<Longrightarrow> recoverable strict T row ops w \<Longrightarrow>
    safe_step strict T row ops w w' \<and> complete = map (\<lambda>j. \<not> op_waits T ops j w) [i..<length ops] \<and>
    (\<forall>j < length ops. op_waits T ops j w' = op_waits T ops j w \<and> op_arrived T ops j w' = op_arrived T ops j w \<and> op_settled T ops j w' = op_settled T ops j w)"
proof (induction xs arbitrary: i w w' complete)
  case Nil
  then show ?case using safe_step_refl by simp
next
  case (Cons x xs)
  have i: "i < length ops" "x = ops ! i" "xs = drop (Suc i) ops" using drop_step [OF Cons.prems(2)] by auto
  obtain w1 ok where r1: "removeAll a (tmpName (op_Dst x) row i) w = (w1, ok)" by fastforce
  note f = removeAll_facts [OF r1, unfolded i(2)]
  have sub: "{Tmp row ops i} \<subseteq> {Src ops i, Dst ops i, Tmp row ops i, Back row ops i}" by simp
  have same: "op_waits T ops j w1 = op_waits T ops j w \<and> op_arrived T ops j w1 = op_arrived T ops j w \<and> op_settled T ops j w1 = op_settled T ops j w"
    if "j < length ops" for j
  proof (cases "j = i")
    case True
    have "Src ops i \<notin> {Tmp row ops i}" "Dst ops i \<notin> {Tmp row ops i}" using laid_out_own [OF laid i(1)] apart_neq by blast+
    then have "look (Src ops i) (mw_disk w1) = look (Src ops i) (mw_disk w)" "look (Dst ops i) (mw_disk w1) = look (Dst ops i) (mw_disk w)"
      using own_step(2) [OF laid i(1) f(1) sub] by blast+
    then show ?thesis using True op_state_look by blast
  next
    case False
    then show ?thesis using own_step_states [OF laid i(1) f(1) sub that False] by simp
  qed
  have tmp: "rooted (Tmp row ops i) (mw_disk w)"
    using Cons.prems(3) unit_path_op [OF i(1), of "Tmp row ops i"] by (simp add: recoverable_def rooted_unit_def)
  have now: "op_waits T ops i w1 \<or> (if strict then op_settled T ops i w1 else op_arrived T ops i w1)"
    using op_recoverable [OF Cons.prems(3) i(1)] by (simp only: same [OF i(1)])
  have safe: "safe_step strict T row ops w w1"
    by (rule own_step_safe [OF laid i(1) f(1) sub Cons.prems(3) _ now]) (use f(3) [OF tmp] in simp)
  then have rec1: "recoverable strict T row ops w1" by (simp add: safe_step_def)
  obtain rest where run: "clear_partials a row (Suc i) xs w1 = (w', rest)" "complete = path_exists (op_Dst x) (mw_disk w1) # rest"
    using Cons.prems(1) r1 by (auto simp: Let_def split: prod.splits)
  note ih = Cons.IH [OF run(1) i(3) rec1]
  have "path_exists (op_Dst x) (mw_disk w1) \<longleftrightarrow> \<not> op_waits T ops i w" using complete_iff [OF sound i(1) rec1] same [OF i(1)] i(2) by simp
  moreover have "rest = map (\<lambda>j. \<not> op_waits T ops j w) [Suc i..<length ops]" using ih same by auto
  ultimately have "complete = map (\<lambda>j. \<not> op_waits T ops j w) [i..<length ops]" using run(2) i(1) by (simp add: upt_conv_Cons)
  then show ?case using ih safe_step_trans [OF safe] same by auto
qed

text \<open>Clearing the source of a tree that has arrived.\<close>

lemma clear_source_facts:
  assumes laid: "laid_out row ops" and sound: "sound_trees T ops" and i: "i < length ops" and rec: "recoverable strict T row ops w"
    and arr: "alive w \<Longrightarrow> \<not> op_waits T ops i w" and recovers: "recovers strict a ops w" and w': "w' = clear_source a (Src ops i) w"
  shows "safe_step strict T row ops w w'" and "alive w' \<Longrightarrow> op_settled T ops i w'"
    and "j < length ops \<Longrightarrow> j \<noteq> i \<Longrightarrow> op_waits T ops j w' = op_waits T ops j w \<and> op_settled T ops j w' = op_settled T ops j w"
proof -
  obtain w1 ok where r1: "removeAll a (Src ops i) w = (w1, ok)" by fastforce
  note f = removeAll_facts [OF r1]
  have sub: "{Src ops i} \<subseteq> {Src ops i, Dst ops i, Tmp row ops i, Back row ops i}" by simp
  have src: "rooted (Src ops i) (mw_disk w)" using rec unit_path_op [OF i, of "Src ops i"] by (simp add: recoverable_def rooted_unit_def)
  have all: "safe_step strict T row ops w w' \<and> (alive w' \<longrightarrow> op_settled T ops i w') \<and>
    (\<forall>j < length ops. j \<noteq> i \<longrightarrow> op_waits T ops j w' = op_waits T ops j w \<and> op_settled T ops j w' = op_settled T ops j w)"
  proof (cases "alive w")
    case False
    have "w1 = w" using f(1) False touches_dead by blast
    then have "w' = w" using w' r1 by (simp add: clear_source_def)
    then show ?thesis using False safe_step_refl [OF rec] by simp
  next
    case True
    have arrived: "op_waits T ops i w \<or> (if strict then op_settled T ops i w else op_arrived T ops i w)" using rec i by (simp add: recoverable_def)
    then have arrived: "if strict then op_settled T ops i w else op_arrived T ops i w" using arr True by blast
    show ?thesis
    proof (cases "path_exists (Src ops i) (mw_disk w)")
      case False
      then have "w' = w" "emptied (Src ops i) w" using w' rooted_absent [OF src] by (simp_all add: clear_source_def emptied_def)
      then show ?thesis using arrived safe_step_refl [OF rec] by (auto simp: op_settled_def op_arrived_def split: if_splits)
    next
      case there: True
      then have "\<not> op_settled T ops i w" by (auto simp: op_settled_def emptied_def exists_look)
      then have ns: "\<not> strict" "op_arrived T ops i w" using arrived by (auto split: if_splits)
      then have left: "mw_left w = None" and keep: "ma_keep a (Src ops i) = 0" using recovers by (auto simp: recovers_def gentle_def no_failure_def)
      have w1: "w' = w1" using w' there r1 by (simp add: clear_source_def)
      have "mw_left w1 = None" using f(1) left by (simp add: touches_def)
      then have "look (Src ops i) (mw_disk w1) = Map.empty" using f(4) f(5) keep by (simp add: alive_def)
      moreover have "Dst ops i \<notin> {Src ops i}" using apart_neq [OF laid_out_own(1) [OF laid i]] by auto
      then have "look (Dst ops i) (mw_disk w1) = look (Dst ops i) (mw_disk w)" using own_step(2) [OF laid i f(1) sub] by blast
      ultimately have settled: "op_settled T ops i w1" using ns(2) by (simp add: op_state_defs)
      then have now: "op_waits T ops i w1 \<or> (if strict then op_settled T ops i w1 else op_arrived T ops i w1)" by (simp add: op_settled_def op_arrived_def)
      have "safe_step strict T row ops w w1"
        by (rule own_step_safe [OF laid i f(1) sub rec _ now]) (use f(3) [OF src] in simp)
      then show ?thesis using settled own_step_states [OF laid i f(1) sub] unfolding w1 by simp
    qed
  qed
  then show "safe_step strict T row ops w w'" "alive w' \<Longrightarrow> op_settled T ops i w'"
    "j < length ops \<Longrightarrow> j \<noteq> i \<Longrightarrow> op_waits T ops j w' = op_waits T ops j w \<and> op_settled T ops j w' = op_settled T ops j w"
    by blast+
qed

text \<open>Putting one operation back.\<close>

lemma put_back_op:
  assumes laid: "laid_out row ops" and sound: "sound_trees T ops" and i: "i < length ops" and rec: "recoverable strict T row ops w"
    and settled: "op_settled T ops i w" and recovers: "recovers strict a ops w"
    and run: "moveEntry a (Dst ops i) (Src ops i) (Back row ops i) w = (w', e)"
  shows "safe_step strict T row ops w w'" and "e = None" and "alive w' \<Longrightarrow> op_waits T ops i w'"
    and "j < length ops \<Longrightarrow> j \<noteq> i \<Longrightarrow> op_waits T ops j w' = op_waits T ops j w \<and> op_settled T ops j w' = op_settled T ops j w"
proof -
  have all: "safe_step strict T row ops w w' \<and> e = None \<and> (alive w' \<longrightarrow> op_waits T ops i w') \<and>
    (\<forall>j < length ops. j \<noteq> i \<longrightarrow> op_waits T ops j w' = op_waits T ops j w \<and> op_settled T ops j w' = op_settled T ops j w)"
  proof (cases strict)
    case True
    have "ma_rename a (Dst ops i) (Src ops i) = Renamed"
      using recovers True i by (simp add: recovers_def gentle_def one_drive_def list_all_length)
    from back_op [OF laid i sound this rec [unfolded True eqTrueI [OF True]] settled run] show ?thesis using True by simp
  next
    case False
    have nf: "no_failure a" and left: "mw_left w = None" using recovers False by (auto simp: recovers_def gentle_def)
    have part: "rooted (Back row ops i) (mw_disk w)" using rec unit_path_op [OF i, of "Back row ops i"] by (simp add: recoverable_def rooted_unit_def)
    note f = moveEntry_facts [OF run laid_out_own(7,5,4) [OF laid i] part, of "T i"]
    have T: "T i [] \<noteq> None" "\<forall>r. T i r \<noteq> Some OtherNode" using sound i by (auto simp: sound_trees_def)
    have w: "waiting (T i) (Dst ops i) (Src ops i) w" using settled by (simp add: op_state_defs)
    have sub: "{Dst ops i, Src ops i, Back row ops i} \<subseteq> {Src ops i, Dst ops i, Tmp row ops i, Back row ops i}" by auto
    have alive: "alive w'" using f(1) [OF T(1) w] left by (simp add: touches_def alive_def)
    have e: "e = None" by (rule f(8) [OF T(1) w alive]) (use nf T(2) in \<open>auto simp: no_failure_def\<close>)
    have waits: "op_waits T ops i w'" using f(4) [OF T(1) w alive e] by (simp add: op_state_defs)
    have "safe_step strict T row ops w w'"
      by (rule own_step_safe [OF laid i f(1) [OF T(1) w] sub rec]) (use f(2) [OF T(1) w] waits in auto)
    then show ?thesis using e waits own_step_states [OF laid i f(1) [OF T(1) w] sub] by simp
  qed
  then show "safe_step strict T row ops w w'" "e = None" "alive w' \<Longrightarrow> op_waits T ops i w'"
    "j < length ops \<Longrightarrow> j \<noteq> i \<Longrightarrow> op_waits T ops j w' = op_waits T ops j w \<and> op_settled T ops j w' = op_settled T ops j w" by blast+
qed

lemma clear_source_dead: "\<not> alive w \<Longrightarrow> clear_source a p w = w"
  using removeAll_dead by (simp add: clear_source_def)

lemma put_back_dead: "\<not> alive w \<Longrightarrow> fst (put_back a row xs w) = w"
proof (induction a row xs w rule: put_back.induct)
  case (2 a row i x complete xs w)
  obtain e where e: "moveEntry a (op_Dst x) (op_Src x) (tmpName (op_Src x) (row @ ''-back'') i) w = (w, e)"
    using moveEntry_dead [OF 2(3)] by (metis prod.collapse)
  show ?case
  proof (cases complete)
    case True
    then have "fst (put_back a row xs w) = w" using 2(2) [of w e] 2(3) e clear_source_dead [OF 2(3)] by simp
    then obtain ok where "put_back a row xs w = (w, ok)" by (metis prod.collapse)
    then show ?thesis using True e clear_source_dead [OF 2(3)] by simp
  qed (use 2 in simp)
qed simp

lemma put_back_facts:
  assumes laid: "laid_out row ops" and sound: "sound_trees T ops"
  shows "put_back a row (map (\<lambda>i. (i, ops ! i, c i)) xs) w = (w', ok) \<Longrightarrow> distinct xs \<Longrightarrow> set xs \<subseteq> {..<length ops} \<Longrightarrow>
    recoverable strict T row ops w \<Longrightarrow> recovers strict a ops w \<Longrightarrow>
    (alive w \<Longrightarrow> \<forall>i < length ops. if i \<in> set xs then c i = (\<not> op_waits T ops i w) else op_waits T ops i w) \<Longrightarrow>
    safe_step strict T row ops w w' \<and> (alive w' \<longrightarrow> ok \<and> moved_upto T ops 0 w')"
proof (induction xs arbitrary: w ok)
  case Nil
  then show ?case using safe_step_refl by (auto simp: moved_upto_def)
next
  case (Cons i xs)
  have i: "i < length ops" "i \<notin> set xs" "set xs \<subseteq> {..<length ops}" using Cons.prems(2,3) by auto
  show ?case
  proof (cases "alive w")
    case False
    then have "w' = w" using put_back_dead [OF False] Cons.prems(1) by (metis fst_conv)
    then show ?thesis using False safe_step_refl [OF Cons.prems(4)] by simp
  next
    case True
    note st = Cons.prems(6) [OF True]
    have ci: "c i = (\<not> op_waits T ops i w)" using st i(1) by auto
    show ?thesis
    proof (cases "c i")
      case False
      then have "put_back a row (map (\<lambda>i. (i, ops ! i, c i)) xs) w = (w', ok)" using Cons.prems(1) by simp
      moreover have "\<forall>j < length ops. if j \<in> set xs then c j = (\<not> op_waits T ops j w) else op_waits T ops j w"
      proof (intro allI impI)
        fix j assume "j < length ops"
        then show "if j \<in> set xs then c j = (\<not> op_waits T ops j w) else op_waits T ops j w"
          using st ci False by (cases "j = i") auto
      qed
      ultimately show ?thesis using Cons.IH [of w ok] Cons.prems i by simp
    next
      case ci': True
      define w1 where "w1 = clear_source a (Src ops i) w"
      note g = clear_source_facts [OF laid sound i(1) Cons.prems(4) _ Cons.prems(5) w1_def]
      have arr: "alive w \<Longrightarrow> \<not> op_waits T ops i w" using ci ci' by simp
      have safe1: "safe_step strict T row ops w w1" using g(1) [OF arr] by blast
      have rec1: "recoverable strict T row ops w1" using safe1 by (simp add: safe_step_def)
      obtain w2 e where r2: "moveEntry a (Dst ops i) (Src ops i) (Back row ops i) w1 = (w2, e)" by fastforce
      obtain ok1 where run: "put_back a row (map (\<lambda>i. (i, ops ! i, c i)) xs) w2 = (w', ok1)" "ok = (ok1 \<and> (e = None \<or> e = Some Leftover))"
        using Cons.prems(1) ci' r2 w1_def by (auto split: prod.splits)
      show ?thesis
      proof (cases "alive w1")
        case False
        then have "w2 = w1" using moveEntry_dead r2 by (metis fst_conv)
        then have "w' = w1" using put_back_dead [OF False] run(1) by (metis fst_conv)
        then show ?thesis using safe1 False by simp
      next
        case a1: True
        have settled1: "op_settled T ops i w1" using g(2) arr a1 by blast
        note h = put_back_op [OF laid sound i(1) rec1 settled1 recovers_safe [OF Cons.prems(5) safe1] r2]
        have safe2: "safe_step strict T row ops w w2" using safe1 h(1) by (rule safe_step_trans)
        have "\<forall>j < length ops. if j \<in> set xs then c j = (\<not> op_waits T ops j w2) else op_waits T ops j w2" if "alive w2"
        proof (intro allI impI)
          fix j assume j: "j < length ops"
          show "if j \<in> set xs then c j = (\<not> op_waits T ops j w2) else op_waits T ops j w2"
            using h(3) [OF that] h(4) [OF j] g(3) [OF arr j] st j i(2) by (cases "j = i") auto
        qed
        moreover have "recoverable strict T row ops w2" using safe2 by (simp add: safe_step_def)
        moreover have "distinct xs" using Cons.prems(2) by simp
        ultimately have "safe_step strict T row ops w2 w' \<and> (alive w' \<longrightarrow> ok1 \<and> moved_upto T ops 0 w')"
          using Cons.IH [OF run(1) _ i(3) _ recovers_safe [OF Cons.prems(5) safe2]] by blast
        then show ?thesis using run(2) h(2) safe_step_trans [OF safe2] by auto
      qed
    qed
  qed
qed

lemma clear_sources_facts:
  assumes laid: "laid_out row ops" and sound: "sound_trees T ops"
  shows "xs = drop i ops \<Longrightarrow> i \<le> length ops \<Longrightarrow> recoverable strict T row ops w \<Longrightarrow> recovers strict a ops w \<Longrightarrow>
    (alive w \<Longrightarrow> \<forall>j < length ops. \<not> op_waits T ops j w \<and> (j < i \<longrightarrow> op_settled T ops j w)) \<Longrightarrow> w' = fold (\<lambda>x. clear_source a (op_Src x)) xs w \<Longrightarrow>
    safe_step strict T row ops w w' \<and> (alive w' \<longrightarrow> moved_upto T ops (length ops) w')"
proof (induction xs arbitrary: i w)
  case Nil
  then show ?case using safe_step_refl by (auto simp: moved_upto_def)
next
  case (Cons x xs)
  have i: "i < length ops" "x = ops ! i" "xs = drop (Suc i) ops" using drop_step [OF Cons.prems(1)] by auto
  define w1 where "w1 = clear_source a (Src ops i) w"
  have arr: "alive w \<Longrightarrow> \<not> op_waits T ops i w" using Cons.prems(5) i(1) by simp
  note g = clear_source_facts [OF laid sound i(1) Cons.prems(3) _ Cons.prems(4) w1_def]
  have safe: "safe_step strict T row ops w w1" using g(1) [OF arr] by blast
  have "\<forall>j < length ops. \<not> op_waits T ops j w1 \<and> (j < Suc i \<longrightarrow> op_settled T ops j w1)" if a1: "alive w1"
  proof (intro allI impI)
    fix j assume j: "j < length ops"
    have "alive w" by (rule safe_alive [OF safe a1])
    moreover have "\<not> op_waits T ops i w1" using g(2) [OF arr a1] waits_not_arrived [OF sound i(1)] by (auto simp: op_settled_def op_arrived_def)
    ultimately show "\<not> op_waits T ops j w1 \<and> (j < Suc i \<longrightarrow> op_settled T ops j w1)"
      using Cons.prems(5) g(2) [OF arr a1] g(3) [OF arr j] j by (cases "j = i") auto
  qed
  moreover have "recoverable strict T row ops w1" using safe by (simp add: safe_step_def)
  moreover have "w' = fold (\<lambda>x. clear_source a (op_Src x)) xs w1" using Cons.prems(6) i(2) w1_def by simp
  ultimately have "safe_step strict T row ops w1 w' \<and> (alive w' \<longrightarrow> moved_upto T ops (length ops) w')"
    using Cons.IH [OF i(3) _ _ recovers_safe [OF Cons.prems(4) safe]] i(1) by simp
  then show ?case using safe_step_trans [OF safe] by blast
qed

text \<open>The recovery of one row: what it answers is true of the disk and the catalogue.\<close>

lemma recoverItem_facts:
  assumes laid: "laid_out row (mi_Ops it0)" and sound: "sound_trees T (mi_Ops it0)" and dest: "mi_Dest it0 \<noteq> []" and ids: "distinct (map fd_ID (mi_Files it0))"
    and some: "mi_Ops it0 \<noteq> []" and agrees: "journal_agrees strict T row it0 ct w" and it: "map_of (mw_items w) row = Some it" "interrupted it"
    and recovers: "recovers strict a (mi_Ops it0) w" and run: "recoverItem a row it w = (w', st, msg)"
  shows "journal_agrees strict T row it0 ct w'" and "alive w' \<Longrightarrow> st \<in> {moveItemMoved, moveItemRolledBack} \<and> status_agrees T it0 ct st w'"
    and "mw_left w = None \<Longrightarrow> mw_left w' = None"
proof -
  let ?ops = "mi_Ops it0" and ?n = "length (mi_Ops it0)"
  have pay: "mi_Ops it = mi_Ops it0" "mi_Kind it = mi_Kind it0" "mi_ItemID it = mi_ItemID it0" "mi_Files it = mi_Files it0" "mi_Dest it = mi_Dest it0"
    and agr: "status_agrees T it0 ct (mi_Status it) w" and rec: "recoverable strict T row ?ops w"
    using agrees it(1) by (auto simp: journal_agrees_def same_payload_def)
  have tx: "ma_tx a" using recovers by (auto simp: recovers_def gentle_def one_drive_def no_failure_def split: if_splits)
  have finish: "journal_agrees strict T row it0 ct w' \<and> (alive w' \<longrightarrow> st \<in> {moveItemMoved, moveItemRolledBack} \<and> status_agrees T it0 ct st w') \<and> (mw_left w = None \<longrightarrow> mw_left w' = None)"
    if j1: "journal_agrees strict T row it0 ct w1" and l1: "mw_left w = None \<longrightarrow> mw_left w1 = None"
      and there: "alive w1 \<Longrightarrow> moved_upto T ?ops ?n w1" and cat: "alive w1 \<Longrightarrow> mw_cat w1 = ct \<or> mw_cat w1 = catalogue_after it0 ct"
      and row: "alive w1 \<Longrightarrow> map_option mi_Status (map_of (mw_items w1) row) \<in> {Some moveItemMoving, Some moveItemFSDone}"
      and res: "(case applyMove a (mi_Kind it) (mi_ItemID it) (mi_Files it) (mi_Dest it) w1 of
                   (w, True) \<Rightarrow> (w, moveItemMoved, ''Finished after ViewDock restarted.'')
                 | (w, False) \<Rightarrow> (w, moveItemFailed, ''Interrupted after the files moved; the catalogue could not be updated'')) = (w', st, msg)" for w1
  proof -
    obtain w2 ok where r: "applyMove a (mi_Kind it0) (mi_ItemID it0) (mi_Files it0) (mi_Dest it0) w1 = (w2, ok)" by fastforce
    note f = journal_finish [OF j1 dest tx ids there cat row r]
    have "w' = w2" "st = moveItemMoved" using res r f(1) pay by auto
    then show ?thesis using f l1 by (simp add: status_agrees_def Let_def)
  qed
  have all: "journal_agrees strict T row it0 ct w' \<and> (alive w' \<longrightarrow> st \<in> {moveItemMoved, moveItemRolledBack} \<and> status_agrees T it0 ct st w') \<and> (mw_left w = None \<longrightarrow> mw_left w' = None)"
  proof (cases "mi_Status it = moveItemFSDone")
    case True
    show ?thesis
      by (rule finish [of w]) (use agrees agr it True run in \<open>auto simp: status_agrees_def recoverItem_def Let_def\<close>)
  next
    case False
    then have moving: "mi_Status it = moveItemMoving" using it(2) by (simp add: interrupted_def)
    have cat: "mw_cat w = ct \<or> (moved_upto T ?ops ?n w \<and> mw_cat w = catalogue_after it0 ct)" using agr moving by (simp add: status_agrees_def Let_def)
    obtain w1 complete where r1: "clear_partials a row 0 ?ops w = (w1, complete)" by fastforce
    have f1: "safe_step strict T row ?ops w w1" "complete = map (\<lambda>j. \<not> op_waits T ?ops j w) [0..<?n]"
      "\<forall>j < ?n. op_waits T ?ops j w1 = op_waits T ?ops j w \<and> op_arrived T ?ops j w1 = op_arrived T ?ops j w \<and> op_settled T ?ops j w1 = op_settled T ?ops j w"
      using clear_partials_facts [OF laid sound r1 _ rec] by simp_all
    have upto1: "moved_upto T ?ops ?n w1 = moved_upto T ?ops ?n w" using f1(3) by (auto simp: moved_upto_def)
    have rec1: "recoverable strict T row ?ops w1" using f1(1) by (simp add: safe_step_def)
    have rcv1: "recovers strict a ?ops w1" by (rule recovers_safe [OF recovers f1(1)])
    have same: "mw_items x = mw_items w \<and> mw_cat x = mw_cat w" if "safe_step strict T row ?ops w x" for x
      using that by (simp add: safe_step_def same_tables_def)
    have agree: "journal_agrees strict T row it0 ct x" if "safe_step strict T row ?ops w x" "mw_cat w = ct \<or> moved_upto T ?ops ?n x" for x
      using that cat it(1) agrees same [OF that(1)] moving by (auto simp: journal_agrees_def status_agrees_def safe_step_def)
    show ?thesis
    proof (cases "list_all id complete")
      case True
      then have arr: "\<forall>j < ?n. \<not> op_waits T ?ops j w1" using f1(2,3) by (auto simp: list_all_length)
      define w2 where "w2 = fold (\<lambda>x. clear_source a (op_Src x)) ?ops w1"
      have f2: "safe_step strict T row ?ops w1 w2 \<and> (alive w2 \<longrightarrow> moved_upto T ?ops ?n w2)"
        by (rule clear_sources_facts [OF laid sound _ _ rec1 rcv1 _ w2_def, of 0]) (use arr in auto)
      have safe: "safe_step strict T row ?ops w w2" using safe_step_trans [OF f1(1)] f2 by blast
      have unchanged: "alive w2 \<Longrightarrow> mw_cat w2 = ct \<or> mw_cat w2 = catalogue_after it0 ct" using same [OF safe] cat by auto
      have row2: "map_option mi_Status (map_of (mw_items w2) row) \<in> {Some moveItemMoving, Some moveItemFSDone}" using same [OF safe] it(1) moving by simp
      have j2: "journal_agrees strict T row it0 ct w2"
      proof (rule agree [OF safe])
        show "mw_cat w = ct \<or> moved_upto T ?ops ?n w2"
        proof (cases "alive w2")
          case False
          show ?thesis
          proof (cases "moved_upto T ?ops ?n w")
            case True
            then have "moved_upto T ?ops ?n w1" using upto1 by simp
            then have "w2 = w1"
              unfolding w2_def by (intro fold_fixed) (auto simp: moved_upto_def clear_source_def exists_look op_state_defs in_set_conv_nth)
            then show ?thesis using True upto1 by simp
          qed (use cat in blast)
        qed (use f2 in blast)
      qed
      have res: "(case applyMove a (mi_Kind it) (mi_ItemID it) (mi_Files it) (mi_Dest it) w2 of
                   (w, True) \<Rightarrow> (w, moveItemMoved, ''Finished after ViewDock restarted.'')
                 | (w, False) \<Rightarrow> (w, moveItemFailed, ''Interrupted after the files moved; the catalogue could not be updated'')) = (w', st, msg)"
        using run True r1 some pay \<open>mi_Status it \<noteq> moveItemFSDone\<close> by (simp add: recoverItem_def w2_def)
      show ?thesis
        by (rule finish [OF j2 _ _ unchanged _ res]) (use f2 safe row2 in \<open>auto simp: safe_step_def\<close>)
    next
      case False
      have none: "mw_cat w = ct"
      proof (rule ccontr)
        assume "mw_cat w \<noteq> ct"
        then have "moved_upto T ?ops ?n w" using cat by blast
        then have "\<not> op_waits T ?ops j w" if "j < ?n" for j
          using that waits_not_arrived [OF sound that] by (auto simp: moved_upto_def op_settled_def op_arrived_def)
        then have "list_all id complete" unfolding f1(2) by (simp add: list_all_length)
        then show False using False by blast
      qed
      let ?c = "\<lambda>j. \<not> op_waits T ?ops j w"
      have list: "rev (zip [0..<?n] (zip ?ops complete)) = map (\<lambda>j. (j, ?ops ! j, ?c j)) (rev [0..<?n])"
        unfolding f1(2) rev_map [symmetric] by (intro arg_cong [where f = rev] nth_equalityI) auto
      obtain w2 ok where r2: "put_back a row (map (\<lambda>j. (j, ?ops ! j, ?c j)) (rev [0..<?n])) w1 = (w2, ok)" by fastforce
      have f2: "safe_step strict T row ?ops w1 w2 \<and> (alive w2 \<longrightarrow> ok \<and> moved_upto T ?ops 0 w2)"
        by (rule put_back_facts [OF laid sound r2 _ _ rec1 rcv1]) (use f1(3) in auto)
      have safe: "safe_step strict T row ?ops w w2" using safe_step_trans [OF f1(1)] f2 by blast
      have res: "w' = w2" "st = (if ok then moveItemRolledBack else moveItemFailed)"
        using run False r1 r2 list pay \<open>mi_Status it \<noteq> moveItemFSDone\<close> by (auto simp: recoverItem_def split: prod.splits bool.splits)
      have "journal_agrees strict T row it0 ct w2" by (rule agree [OF safe]) (use none in blast)
      moreover have "status_agrees T it0 ct moveItemRolledBack w2" if "alive w2"
        using f2 that same [OF safe] none by (simp add: status_agrees_def Let_def)
      ultimately show ?thesis using res f2 safe by (auto simp: safe_step_def)
    qed
  qed
  then show "journal_agrees strict T row it0 ct w'" "alive w' \<Longrightarrow> st \<in> {moveItemMoved, moveItemRolledBack} \<and> status_agrees T it0 ct st w'"
    "mw_left w = None \<Longrightarrow> mw_left w' = None" by blast+
qed

end
