(* ===== verification/Move_Properties.thy ===== *)
theory Move_Properties
  imports Move_Recovery
begin

text \<open>
  Properties of a move: whenever the process dies, recovery leaves the title in one place, the place that
  the catalogue names (\<open>crash_recovers\<close>); and the runs in which it does not.
\<close>

text \<open>A unit before its move: its sources are there, without links or special files, its other paths free.\<close>

definition unit_ready :: "string \<Rightarrow> fs_op list \<Rightarrow> disk \<Rightarrow> bool" where
  "unit_ready row ops d \<longleftrightarrow> laid_out row ops \<and>
     list_all (\<lambda>x. path_exists (op_Src x) d \<and> list_all (\<lambda>(q, n). n \<noteq> OtherNode) (tree_nodes (op_Src x) d)) ops \<and>
     list_all (\<lambda>p. p \<in> set (map op_Src ops) \<or> tree_nodes p d = []) (unit_paths row 0 ops)"

lemma empty_tree: "tree_nodes p d = [] \<Longrightarrow> look p d = Map.empty"
  using set_tree_nodes [of p d] by (auto simp: look_empty_iff)

lemma unit_ready_facts:
  assumes ready: "unit_ready row ops (mw_disk w)"
  shows "laid_out row ops" "sound_trees (\<lambda>i. look (Src ops i) (mw_disk w)) ops"
    "recoverable True (\<lambda>i. look (Src ops i) (mw_disk w)) row ops w" "moved_upto (\<lambda>i. look (Src ops i) (mw_disk w)) ops 0 w"
proof -
  let ?d = "mw_disk w" and ?T = "\<lambda>i. look (Src ops i) (mw_disk w)"
  show laid: "laid_out row ops" using ready by (simp add: unit_ready_def)
  have src: "path_exists (Src ops i) ?d" "list_all (\<lambda>(q, n). n \<noteq> OtherNode) (tree_nodes (Src ops i) ?d)" if "i < length ops" for i
    using ready that by (auto simp: unit_ready_def list_all_length)
  have empty: "look p ?d = Map.empty" if "unit_path row ops p" "p \<notin> set (map op_Src ops)" for p
    using ready that by (auto simp: unit_ready_def unit_path_def list_all_iff intro: empty_tree)
  have "look (Src ops i) ?d r \<noteq> Some OtherNode" if "i < length ops" for i r
  proof
    assume a: "look (Src ops i) ?d r = Some OtherNode"
    then have "sub_path r" "map_of ?d (Src ops i @ r) = Some OtherNode" by (auto simp: look_def split: if_splits)
    then have "map_of (tree_nodes (Src ops i) ?d) (Src ops i @ r) = Some OtherNode" by (simp add: map_of_tree_nodes)
    then show False using src(2) [OF that] by (auto simp: list_all_iff dest: map_of_SomeD)
  qed
  then show "sound_trees ?T ops" using src(1) by (simp add: sound_trees_def exists_look)
  have dst: "look (Dst ops i) ?d = Map.empty" if i: "i < length ops" for i
  proof (rule empty)
    show dst: "unit_path row ops (Dst ops i)" using unit_path_op [OF i] by simp
    show "Dst ops i \<notin> set (map op_Src ops)"
    proof
      assume "Dst ops i \<in> set (map op_Src ops)"
      then obtain j where j: "j < length ops" "Dst ops i = Src ops j" by (auto simp: in_set_conv_nth)
      then show False using laid_out_own(1) [OF laid i] laid_out_other [OF laid i j(1), of "Dst ops i" "Src ops j"] by (cases "i = j") (auto simp: apart_def)
    qed
  qed
  then show "moved_upto ?T ops 0 w" by (simp add: moved_upto_def op_state_defs)
  have "rooted p ?d" if p: "unit_path row ops p" for p
  proof (cases "p \<in> set (map op_Src ops)")
    case True
    then obtain i where i: "i < length ops" "p = Src ops i" by (auto simp: in_set_conv_nth)
    then have "look p ?d [] \<noteq> None" using src(1) [OF i(1)] by (simp add: exists_look)
    then show ?thesis unfolding rooted_def by blast
  qed (simp add: empty p rooted_empty)
  then show "recoverable True ?T row ops w" using dst by (simp add: recoverable_def rooted_unit_def op_state_defs)
qed

lemma recoverable_weaken: "recoverable strict T row ops w \<Longrightarrow> recoverable False T row ops w"
  by (auto simp: recoverable_def op_settled_def op_arrived_def split: if_splits)

lemma journal_weaken: "journal_agrees strict T row it0 ct w \<Longrightarrow> journal_agrees False T row it0 ct w"
  using recoverable_weaken by (auto simp: journal_agrees_def)

lemma journal_left: "journal_agrees strict T row it0 ct (w\<lparr>mw_left := k\<rparr>) = journal_agrees strict T row it0 ct w"
  by (simp add: journal_agrees_def status_agrees_def recoverable_def rooted_unit_def moved_upto_def op_state_defs)

text \<open>A restart: a world with a new number of writes, and the row recovered if it was interrupted.\<close>

definition restart :: "string \<Rightarrow> move_answers \<times> nat option \<Rightarrow> move_world \<Rightarrow> move_world" where
  "restart row run w =
     (case map_of (mw_items w) row of
        None \<Rightarrow> w
      | Some it \<Rightarrow> if interrupted it then recover_row (fst run) (row, it) (w\<lparr>mw_left := snd run\<rparr>) else w\<lparr>mw_left := snd run\<rparr>)"

lemma restart_agrees:
  assumes laid: "laid_out row (mi_Ops it0)" and sound: "sound_trees T (mi_Ops it0)" and dest: "mi_Dest it0 \<noteq> []" and ids: "distinct (map fd_ID (mi_Files it0))"
    and some: "mi_Ops it0 \<noteq> []" and agrees: "journal_agrees strict T row it0 ct w" and run: "gentle strict (fst run) (mi_Ops it0)" "strict \<or> snd run = None"
  shows "journal_agrees strict T row it0 ct (restart row run w)"
    and "snd run = None \<Longrightarrow> \<exists>it. map_of (mw_items (restart row run w)) row = Some it \<and> \<not> interrupted it"
proof -
  let ?w = "w\<lparr>mw_left := snd run\<rparr>"
  obtain it where it: "map_of (mw_items w) row = Some it" using agrees by (auto simp: journal_agrees_def)
  have all: "journal_agrees strict T row it0 ct (restart row run w) \<and>
    (snd run = None \<longrightarrow> (\<exists>it. map_of (mw_items (restart row run w)) row = Some it \<and> \<not> interrupted it))"
  proof (cases "interrupted it")
    case False
    then show ?thesis using it agrees by (simp add: restart_def journal_left)
  next
    case True
    obtain w1 st msg where r: "recoverItem (fst run) row it ?w = (w1, st, msg)" by (metis prod_cases3)
    have rec: "recovers strict (fst run) (mi_Ops it0) ?w" using run by (simp add: recovers_def)
    have j: "journal_agrees strict T row it0 ct ?w" using agrees by (simp add: journal_left)
    have it': "map_of (mw_items ?w) row = Some it" using it by simp
    note f = recoverItem_facts [OF laid sound dest ids some j it' True rec r]
    have res: "restart row run w = setItem row st msg w1" using it True r by (simp add: restart_def recover_row_def)
    have "\<exists>it. map_of (mw_items (setItem row st msg w1)) row = Some it \<and> \<not> interrupted it" if "snd run = None"
    proof -
      have "mw_left w1 = None" using f(3) that by simp
      then have alive: "alive w1" by (simp add: alive_def)
      obtain it1 where "map_of (mw_items w1) row = Some it1" using f(1) by (auto simp: journal_agrees_def)
      then show ?thesis using setItem_cases(2) [OF _ alive] f(2) [OF alive] by (auto simp: interrupted_def move_status_defs)
    qed
    then show ?thesis using res journal_set [OF f(1)] f(2) by auto
  qed
  then show "journal_agrees strict T row it0 ct (restart row run w)"
    "snd run = None \<Longrightarrow> \<exists>it. map_of (mw_items (restart row run w)) row = Some it \<and> \<not> interrupted it" by blast+
qed

lemma restarts_agree:
  assumes laid: "laid_out row (mi_Ops it0)" and sound: "sound_trees T (mi_Ops it0)" and dest: "mi_Dest it0 \<noteq> []" and ids: "distinct (map fd_ID (mi_Files it0))"
    and some: "mi_Ops it0 \<noteq> []"
  shows "journal_agrees True T row it0 ct w \<Longrightarrow> (\<And>run. run \<in> set runs \<Longrightarrow> one_drive (fst run) (mi_Ops it0)) \<Longrightarrow> journal_agrees True T row it0 ct (fold (restart row) runs w)"
proof (induction runs arbitrary: w)
  case (Cons run runs)
  have "gentle True (fst run) (mi_Ops it0)" using Cons.prems(2) by (simp add: gentle_def)
  then have "journal_agrees True T row it0 ct (restart row run w)" using restart_agrees(1) [OF laid sound dest ids some Cons.prems(1)] by simp
  then show ?case using Cons by simp
qed simp


section \<open>Where it does not hold\<close>

lemma finish_dead: "\<not> alive w \<Longrightarrow> fst (applyMove a kind tid files dest w) = w"
  by (simp add: applyMove_def world_write_dead)

lemma executeUnit_cut:
  assumes laid: "laid_out row (up_ops p)" and one: "mw_left w = Some 1"
  shows "fst (executeUnit a row p w) = setItem row moveItemMoving [] w"
proof -
  let ?w = "setItem row moveItemMoving [] w"
  have dead: "\<not> alive ?w" using one by (auto simp: setItem_def world_write_def alive_def)
  obtain fin made remarks e where r: "move_ops a row 0 (up_ops p) ([], [], []) ?w = (?w, (fin, made, remarks), e)"
    using move_ops_dead [OF dead laid, of "up_ops p" 0 a "([], [], [])"] by (metis drop0 prod.collapse)
  have "fold (prune_one (up_src p)) ds ?w = ?w" for ds by (rule fold_fixed) (simp add: prune_one_def os_remove_dead [OF dead])
  moreover obtain ok where "applyMove a (mu_Kind (up_unit p)) (mu_ID (up_unit p)) (up_files p) (up_dest p) ?w = (?w, ok)"
    using finish_dead [OF dead] by (metis prod.collapse)
  ultimately show ?thesis
    using r undo_unit_dead [OF dead laid] setItem_dead [OF dead] by (cases e; cases ok) (simp_all add: executeUnit_def)
qed

text \<open>C32. A crash at a destination that is taken loses the source. If something is at the destination, the move
  would refuse; but if the process dies after the row says \<^verbatim>\<open>moving\<close>, recovery takes what is there for the
  moved title, removes the source as a leftover and points the catalogue at the foreign file.\<close>

theorem occupied_destination_loses_source:
  assumes p: "up_ops p = [x]" "up_dest p \<noteq> []" and laid: "laid_out row [x]"
    and pending: "map_of (mw_items w) row = Some (item_row job (up_dest p) p)" and dies: "mw_left w = Some 1"
    and taken: "path_exists (op_Dst x) (mw_disk w)" "path_exists (op_Src x) (mw_disk w)" and b: "no_failure b"
    and run: "w' = restart row (b, None) (fst (executeUnit a row p w))"
  shows "look (op_Src x) (mw_disk w') = Map.empty \<and> look (op_Dst x) (mw_disk w') = look (op_Dst x) (mw_disk w) \<and>
    mw_cat w' = moved_catalogue (mu_Kind (up_unit p)) (mu_ID (up_unit p)) (up_files p) (up_dest p) (mw_cat w) \<and>
    map_option mi_Status (map_of (mw_items w') row) = Some moveItemMoved"
proof -
  let ?it = "(item_row job (up_dest p) p)\<lparr>mi_Status := moveItemMoving, mi_Message := []\<rparr>"
  have ap: "apart (op_Src x) (op_Dst x)" "apart (op_Dst x) (tmpName (op_Dst x) row 0)" "apart (op_Src x) (tmpName (op_Dst x) row 0)"
    using laid_out_own [OF laid, of 0] by simp_all
  define w1 where "w1 = setItem row moveItemMoving [] w"
  have alive: "alive w" using dies by (simp add: alive_def)
  have w1: "fst (executeUnit a row p w) = w1" using executeUnit_cut [OF _ dies] laid p(1) by (simp add: w1_def)
  note s = setItem_cases [OF pending, of moveItemMoving "[]", folded w1_def]
  have it: "map_of (mw_items w1) row = Some ?it" using s(2) [OF alive] .
  let ?w = "w1\<lparr>mw_left := None\<rparr>"
  obtain w2 k1 where r2: "removeAll b (tmpName (op_Dst x) row 0) ?w = (w2, k1)" by fastforce
  note f2 = removeAll_facts [OF r2]
  have l2: "mw_left w2 = None" using f2(1) by (simp add: touches_def)
  have d2: "look (op_Dst x) (mw_disk w2) = look (op_Dst x) (mw_disk w)" using touches_look [OF f2(1), of "op_Dst x"] ap(2) s(3) by simp
  have d2': "look (op_Src x) (mw_disk w2) = look (op_Src x) (mw_disk w)" using touches_look [OF f2(1), of "op_Src x"] ap(3) s(3) by simp
  have there: "path_exists (op_Dst x) (mw_disk w2)" "path_exists (op_Src x) (mw_disk w2)" using taken d2 d2' by (simp_all add: exists_look)
  obtain w4 k2 where r4: "removeAll b (op_Src x) w2 = (w4, k2)" by fastforce
  note f4 = removeAll_facts [OF r4]
  have l4: "mw_left w4 = None" using f4(1) l2 by (simp add: touches_def)
  have gone: "look (op_Src x) (mw_disk w4) = Map.empty" using f4(4) f4(5) b l4 by (simp add: no_failure_def alive_def)
  have dst: "look (op_Dst x) (mw_disk w4) = look (op_Dst x) (mw_disk w)" using touches_look [OF f4(1), of "op_Dst x"] ap(1) d2 by (simp add: apart_sym)
  have tables: "mw_items w4 = mw_items w1" "mw_cat w4 = mw_cat w" using f2(1) f4(1) s(4) by (auto simp: touches_def same_tables_def)
  obtain w5 ok where r5: "applyMove b (mu_Kind (up_unit p)) (mu_ID (up_unit p)) (up_files p) (up_dest p) w4 = (w5, ok)" by fastforce
  have "ma_tx b" using b by (simp add: no_failure_def)
  note f5 = applyMove_facts [OF p(2) this r5]
  have it5: "map_of (mw_items w5) row = Some ?it" using f5(3) tables it by simp
  have alive5: "alive w5" using f5(6) l4 by (simp add: alive_def)
  have "w' = setItem row moveItemMoved ''Finished after ViewDock restarted.'' w5"
    using run w1 it r2 r4 r5 there f5(1) p(1)
    by (simp add: restart_def recover_row_def recoverItem_def interrupted_def item_row_def clear_source_def Let_def)
  then show ?thesis
    using setItem_cases [OF it5, of moveItemMoved "''Finished after ViewDock restarted.''"] alive5 f5(2,4) l4 gone dst tables(2)
    by (simp add: alive_def)
qed

text \<open>A crash while the files are put back can leave the catalogue pointing at nothing. When the catalogue cannot
  be written, the row says \<^verbatim>\<open>fs_done\<close> until the files are back; if the process dies in between, recovery
  believes the row and points the catalogue at the destination, where nothing is.\<close>

theorem catalogue_names_empty_place:
  assumes p: "up_ops p = [x]" "up_dest p \<noteq> []" and ready: "unit_ready row [x] (mw_disk w)" and parent: "path_exists (filepathDir (op_Dst x)) (mw_disk w)"
    and pending: "map_of (mw_items w) row = Some (item_row job (up_dest p) p)" and dies: "mw_left w = Some 4"
    and a: "ma_rename a (op_Src x) (op_Dst x) = Renamed" "ma_rename a (op_Dst x) (op_Src x) = Renamed" "\<not> ma_tx a" and b: "no_failure b"
    and run: "w' = restart row (b, None) (fst (executeUnit a row p w))"
  shows "look (op_Src x) (mw_disk w') = look (op_Src x) (mw_disk w) \<and> \<not> path_exists (op_Dst x) (mw_disk w') \<and>
    mw_cat w' = moved_catalogue (mu_Kind (up_unit p)) (mu_ID (up_unit p)) (up_files p) (up_dest p) (mw_cat w) \<and>
    map_option mi_Status (map_of (mw_items w') row) = Some moveItemMoved"
proof -
  note r = unit_ready_facts [OF ready]
  have ap: "apart (op_Src x) (op_Dst x)" "apart (op_Dst x) (op_Src x)" using laid_out_own [OF r(1), of 0] by simp_all
  have src: "path_exists (op_Src x) (mw_disk w)" and dst: "look (op_Dst x) (mw_disk w) = Map.empty"
    using r(2,4) by (auto simp: sound_trees_def exists_look moved_upto_def op_state_defs)
  define w1 where "w1 = setItem row moveItemMoving [] w"
  have alive: "alive w" using dies by (simp add: alive_def)
  note s1 = setItem_cases [OF pending, of moveItemMoving "[]", folded w1_def]
  have l1: "mw_left w1 = Some 3" using dies pending by (simp add: w1_def setItem_def world_write_def)
  have it1: "map_of (mw_items w1) row = Some ((item_row job (up_dest p) p)\<lparr>mi_Status := moveItemMoving, mi_Message := []\<rparr>)" using s1(2) [OF alive] .
  define w2 where "w2 = disk_write (rename_tree (op_Src x) (op_Dst x)) w1"
  have w2: "mw_left w2 = Some 2" "mw_items w2 = mw_items w1" "mw_cat w2 = mw_cat w1" "mw_disk w2 = rename_tree (op_Src x) (op_Dst x) (mw_disk w)"
    using l1 s1(3) by (simp_all add: w2_def disk_write_def world_write_def)
  define w3 where "w3 = setItem row moveItemFSDone [] w2"
  have w3: "mw_left w3 = Some 1" "mw_disk w3 = mw_disk w2" "mw_cat w3 = mw_cat w2"
    "\<exists>it. map_of (mw_items w3) row = Some it \<and> mi_Status it = moveItemFSDone \<and> same_payload (item_row job (up_dest p) p) it"
    using w2 it1 by (simp_all add: w3_def setItem_def world_write_def same_payload_def)
  define w4 where "w4 = disk_write (rename_tree (op_Dst x) (op_Src x)) w3"
  have w4: "mw_left w4 = Some 0" "mw_items w4 = mw_items w3" "mw_cat w4 = mw_cat w3" "mw_disk w4 = rename_tree (op_Dst x) (op_Src x) (mw_disk w3)"
    using w3 by (simp_all add: w4_def disk_write_def world_write_def)
  have t2: "look (op_Dst x) (mw_disk w2) = look (op_Src x) (mw_disk w)" "look (op_Src x) (mw_disk w2) = Map.empty"
    using look_rename(1,2) [OF ap(1) dst] w2(4) by simp_all
  have t4: "look (op_Src x) (mw_disk w4) = look (op_Src x) (mw_disk w)" "look (op_Dst x) (mw_disk w4) = Map.empty"
    using look_rename(1,2) [OF ap(2), of "mw_disk w3"] w3(2) w4(4) t2 by simp_all
  have dead: "\<not> alive w4" using w4(1) by (simp add: alive_def)
  have mk: "MkdirOwned a (filepathDir (op_Dst x)) w1 = (w1, [], True)" using parent s1(3) by (simp add: MkdirOwned_def missing_dirs.simps)
  have there: "\<not> path_exists (op_Dst x) (mw_disk w1)" "path_exists (op_Src x) (mw_disk w1)" using src dst s1(3) by (auto simp: exists_look)
  have m1: "moveEntry a (op_Src x) (op_Dst x) (tmpName (op_Dst x) row 0) w1 = (w2, None)"
    using there a(1) by (simp add: moveEntry_def renameNoReplace_def w2_def)
  have there3: "\<not> path_exists (op_Src x) (mw_disk w3)" "path_exists (op_Dst x) (mw_disk w3)" using src t2 w3(2) by (auto simp: exists_look)
  have m2: "moveEntry a (op_Dst x) (op_Src x) (tmpName (op_Src x) (row @ ''-back'') 0) w3 = (w4, None)"
    using there3 a(2) by (simp add: moveEntry_def renameNoReplace_def w4_def)
  have exec: "fst (executeUnit a row p w) = w4"
    using mk m1 m2 p a(3) setItem_dead [OF dead] removeCreated_dead [OF dead]
    by (simp add: executeUnit_def w1_def [symmetric] w3_def [symmetric] applyMove_def undo_unit_def rollbackOps_def)
  obtain it where it: "map_of (mw_items w4) row = Some it" "mi_Status it = moveItemFSDone" "same_payload (item_row job (up_dest p) p) it"
    using w3(4) w4(2) by auto
  let ?w = "w4\<lparr>mw_left := None\<rparr>"
  obtain w5 ok where r5: "applyMove b (mu_Kind (up_unit p)) (mu_ID (up_unit p)) (up_files p) (up_dest p) ?w = (w5, ok)" by fastforce
  have "ma_tx b" using b by (simp add: no_failure_def)
  note f5 = applyMove_facts [OF p(2) this r5]
  have it5: "map_of (mw_items w5) row = Some it" using f5(3) it by simp
  have w': "w' = setItem row moveItemMoved ''Finished after ViewDock restarted.'' w5"
    using run exec it r5 f5(1) by (simp add: restart_def recover_row_def recoverItem_def interrupted_def same_payload_def item_row_def)
  have "mw_cat w5 = moved_catalogue (mu_Kind (up_unit p)) (mu_ID (up_unit p)) (up_files p) (up_dest p) (mw_cat w)"
    using f5(4) w4(3) w3(3) w2(3) s1(4) by (simp add: alive_def)
  then show ?thesis
    using setItem_cases [OF it5, of moveItemMoved "''Finished after ViewDock restarted.''"] f5(2,6) t4
    by (simp add: w' exists_look alive_def)
qed

section \<open>Concrete runs\<close>

text \<open>The film in \<^verbatim>\<open>/a/m\<close> moves to \<^verbatim>\<open>/b/m\<close>; \<open>left\<close> writes are allowed, and \<open>extra\<close> is what else is on the disk.\<close>

definition mv_answers :: "bool \<Rightarrow> move_answers" where
  "mv_answers tx = \<lparr>ma_rename = (\<lambda>s t. Renamed), ma_copy = (\<lambda>p. None), ma_keep = (\<lambda>p. 0), ma_mkdir = (\<lambda>p. MkdirOK), ma_tx = tx\<rparr>"

definition mv_op :: fs_op where "mv_op = \<lparr>op_Src = ''/a/m'', op_Dst = ''/b/m'', op_Dir = True\<rparr>"

definition mv_plan :: unit_plan where
  "mv_plan = \<lparr>up_unit = \<lparr>mu_Kind = ''movie'', mu_ID = ''7'', mu_Title = ''M'', mu_Year = None, mu_TMDB = None, mu_LibraryID = ''A'', mu_Files = []\<rparr>,
     up_src = \<lparr>lib_ID = ''A'', lib_RootPath = ''/a'', lib_ContentType = ''movies''\<rparr>, up_dest = ''B'', up_ops = [mv_op],
     up_files = [\<lparr>fd_ID = ''f'', fd_Rel = ''m/m.mkv'', fd_Abs = ''/b/m/m.mkv''\<rparr>], up_target = ''m'', up_renamed = False, up_pruneDirs = [], up_bytes = 2\<rparr>"

definition mv_world :: "nat option \<Rightarrow> disk \<Rightarrow> move_world" where
  "mv_world left extra = \<lparr>mw_left = left,
     mw_disk = [(''/a'', DirNode), (''/b'', DirNode), (''/a/m'', DirNode), (''/a/m/m.mkv'', FileNode ''xy'')] @ extra,
     mw_items = [(''r'', item_row ''j'' ''B'' mv_plan)], mw_jobs = [],
     mw_cat = \<lparr>ct_libraries = [], ct_roots = [], ct_titles = [], ct_media = [], ct_episodes = [], ct_links = [], ct_seasons = [], ct_queue = []\<rparr>\<rparr>"

lemmas mv_defs = mv_answers_def mv_op_def mv_plan_def mv_world_def

lemma mv_no_failure: "no_failure (mv_answers True)"
  by (simp add: no_failure_def mv_answers_def)

lemma mv_ready: "unit_ready ''r'' [mv_op] (mw_disk (mv_world left []))"
  unfolding mv_world_def move_world.simps by code_simp

lemma mv_pending: "map_of (mw_items (mv_world left extra)) ''r'' = Some (item_row ''j'' (up_dest mv_plan) mv_plan)"
  by (simp add: mv_world_def) (simp add: mv_plan_def)


theorem occupied_destination_loses_source_witness:
  "look ''/a/m'' (mw_disk (restart ''r'' (mv_answers True, None) (fst (executeUnit (mv_answers True) ''r'' mv_plan (mv_world (Some 1) [(''/b/m'', FileNode ''z'')]))))) = Map.empty \<and>
   map_option mi_Status (map_of (mw_items (restart ''r'' (mv_answers True, None) (fst (executeUnit (mv_answers True) ''r'' mv_plan (mv_world (Some 1) [(''/b/m'', FileNode ''z'')]))))) ''r'') = Some moveItemMoved"
proof -
  have laid: "laid_out ''r'' [mv_op]" using mv_ready unfolding unit_ready_def by blast
  have "path_exists (op_Dst mv_op) (mw_disk (mv_world (Some 1) [(''/b/m'', FileNode ''z'')]))" "path_exists (op_Src mv_op) (mw_disk (mv_world (Some 1) [(''/b/m'', FileNode ''z'')]))"
    by (simp_all add: mv_world_def mv_op_def path_exists_def has_key_def)
  from occupied_destination_loses_source [OF _ _ laid mv_pending _ this mv_no_failure refl, of "mv_answers True"]
  show ?thesis by (simp add: mv_plan_def mv_op_def) (simp add: mv_world_def)
qed

theorem catalogue_names_empty_place_witness:
  "\<not> path_exists ''/b/m'' (mw_disk (restart ''r'' (mv_answers True, None) (fst (executeUnit (mv_answers False) ''r'' mv_plan (mv_world (Some 4) []))))) \<and>
   map_option mi_Status (map_of (mw_items (restart ''r'' (mv_answers True, None) (fst (executeUnit (mv_answers False) ''r'' mv_plan (mv_world (Some 4) []))))) ''r'') = Some moveItemMoved"
proof -
  have "path_exists (filepathDir (op_Dst mv_op)) (mw_disk (mv_world (Some 4) []))"
    unfolding mv_world_def move_world.simps by code_simp
  from catalogue_names_empty_place [OF _ _ mv_ready this mv_pending _ _ _ _ mv_no_failure refl, of "mv_answers False"]
  show ?thesis by (simp add: mv_plan_def mv_op_def mv_answers_def) (simp add: mv_world_def)
qed

end
