(* ===== verification/Household.thy ===== *)
theory Household
  imports Identity_Handlers
begin

text \<open>
  Households (\<^verbatim>\<open>src/internal/users/households.go\<close>, \<^verbatim>\<open>households_admin.go\<close>, the tables of
  \<^verbatim>\<open>src/migrations/0019_households.up.sql\<close>): who lives with whom, in which role, and up to which age a
  member may watch. Tables are lists with their keys, references and cascades written out. New ids,
  hashes of tokens and the clock are arguments, bodies decode, answers are HTTP statuses. Accepting an
  invitation is cut where the code gives up the database between its check and its writes.
\<close>

section \<open>Tables\<close>

record household =
  hh_Name :: string
  hh_Owner :: string

record household_member =
  hm_Role :: string
  hm_AgeLimit :: int
  hm_ExpiresAt :: "gtime option"

record household_invite =
  hi_Household :: string
  hi_TokenHash :: string
  hi_Role :: string
  hi_AgeLimit :: int
  hi_ExpiresAt :: gtime
  hi_UsedBy :: "string option"

record house_db =
  hs_auth :: auth_db
  hs_houses :: "(string \<times> household) list"
  hs_members :: "((string \<times> string) \<times> household_member) list"
  hs_invites :: "(string \<times> household_invite) list"

definition PermUsersManage :: string where "PermUsersManage = ''users.manage''"
definition MaxRatingAge :: int where "MaxRatingAge = 21"

definition household_of :: "string \<Rightarrow> house_db \<Rightarrow> string option" where
  "household_of uid s = map_option (fst \<circ> fst) (List.find (\<lambda>((h, u), m). u = uid) (hs_members s))"

definition ownerHousehold :: "string \<Rightarrow> house_db \<Rightarrow> string option" where
  "ownerHousehold uid s =
     map_option fst (List.find (\<lambda>(h, row). hh_Owner row = uid \<and>
        (case map_of (hs_members s) (h, uid) of Some m \<Rightarrow> hm_Role m = ''owner'' | None \<Rightarrow> False)) (hs_houses s))"

definition validHouseholdRole :: "string \<Rightarrow> string option" where
  "validHouseholdRole role =
     (if role = [] then Some ''member''
      else if role \<in> {''adult'', ''member'', ''child''} then Some role
      else None)"

definition member_at :: "string \<Rightarrow> int \<Rightarrow> gtime option \<Rightarrow> household_member" where
  "member_at role age expires = \<lparr>hm_Role = role, hm_AgeLimit = age, hm_ExpiresAt = expires\<rparr>"

text \<open>The statements that write, with their constraints: they report whether they were carried out.\<close>

definition insert_house :: "string \<Rightarrow> string \<Rightarrow> string \<Rightarrow> house_db \<Rightarrow> house_db \<times> bool" where
  "insert_house hid nm owner s =
     (if has_key hid (hs_houses s) \<or> list_ex (\<lambda>(h, row). hh_Owner row = owner) (hs_houses s)
         \<or> \<not> has_key owner (db_users (hs_auth s)) then (s, False)
      else (s\<lparr>hs_houses := hs_houses s @ [(hid, \<lparr>hh_Name = nm, hh_Owner = owner\<rparr>)]\<rparr>, True))"

definition insert_member :: "string \<Rightarrow> string \<Rightarrow> household_member \<Rightarrow> house_db \<Rightarrow> house_db \<times> bool" where
  "insert_member hid uid m s =
     (if has_key (hid, uid) (hs_members s) \<or> \<not> has_key hid (hs_houses s) \<or> \<not> has_key uid (db_users (hs_auth s)) then (s, False)
      else (s\<lparr>hs_members := hs_members s @ [((hid, uid), m)]\<rparr>, True))"

definition update_member :: "string \<Rightarrow> string \<Rightarrow> (household_member \<Rightarrow> household_member) \<Rightarrow> house_db \<Rightarrow> house_db" where
  "update_member hid uid f s =
     (case map_of (hs_members s) (hid, uid) of
        None \<Rightarrow> s
      | Some m \<Rightarrow> s\<lparr>hs_members := set_key (hid, uid) (f m) (hs_members s)\<rparr>)"

definition delete_member :: "string \<Rightarrow> string \<Rightarrow> house_db \<Rightarrow> house_db" where
  "delete_member hid uid s = s\<lparr>hs_members := del_key (hid, uid) (hs_members s)\<rparr>"

section \<open>What members do\<close>

text \<open>The two inserts are no transaction; \<open>seated\<close> says whether the second is carried out.\<close>

definition createHousehold :: "caller \<Rightarrow> string \<Rightarrow> string \<Rightarrow> bool \<Rightarrow> house_db \<Rightarrow> house_db \<times> int" where
  "createHousehold c nm hid seated s =
     (if cl_Temporary c then (s, 403)
      else if trimSpace nm = [] then (s, 400)
      else if household_of (p_UserID (cl_p c)) s \<noteq> None then (s, 409)
      else (case insert_house hid (trimSpace nm) (p_UserID (cl_p c)) s of
              (s, False) \<Rightarrow> (s, 500)
            | (s, True) \<Rightarrow>
                if \<not> seated then (s, 500)
                else (case insert_member hid (p_UserID (cl_p c)) (member_at ''owner'' 0 None) s of
                        (s, False) \<Rightarrow> (s, 500) | (s, True) \<Rightarrow> (s, 200))))"

definition addHouseholdMember :: "caller \<Rightarrow> string \<Rightarrow> string \<Rightarrow> int \<Rightarrow> house_db \<Rightarrow> house_db \<times> int" where
  "addHouseholdMember c uid role age s =
     (case ownerHousehold (p_UserID (cl_p c)) s of
        None \<Rightarrow> (s, 403)
      | Some hid \<Rightarrow>
          if trimSpace uid = [] then (s, 400)
          else (case validHouseholdRole role of
                  None \<Rightarrow> (s, 400)
                | Some role \<Rightarrow>
                    if age < 0 \<or> age > 21 then (s, 400)
                    else if uid = p_UserID (cl_p c) then (s, 400)
                    else (case household_of uid s of
                            Some h \<Rightarrow>
                              if h \<noteq> hid then (s, 409)
                              else (update_member hid uid
                                      (\<lambda>m. if hm_Role m = ''owner'' then m else m\<lparr>hm_Role := role, hm_AgeLimit := age\<rparr>) s, 200)
                          | None \<Rightarrow>
                              if \<not> p_IsAdmin (cl_p c) \<and> \<not> HasPerm (Some (cl_p c)) PermUsersManage then (s, 403)
                              else (case insert_member hid uid (member_at role age None) s of
                                      (s, ok) \<Rightarrow> (s, if ok then 200 else 400)))))"

definition removeHouseholdMember :: "caller \<Rightarrow> string \<Rightarrow> house_db \<Rightarrow> house_db \<times> int" where
  "removeHouseholdMember c uid s =
     (case ownerHousehold (p_UserID (cl_p c)) s of
        None \<Rightarrow> (s, 403)
      | Some hid \<Rightarrow> if uid = p_UserID (cl_p c) then (s, 400) else (delete_member hid uid s, 200))"

definition issueHouseholdInvite :: "string \<Rightarrow> int \<Rightarrow> string \<Rightarrow> int \<Rightarrow> string \<Rightarrow> string \<Rightarrow> gtime \<Rightarrow> house_db \<Rightarrow> house_db \<times> int" where
  "issueHouseholdInvite hid days role age iid tokenHash now s =
     (let days = (if days \<le> 0 then 7 else days)
      in if days > 30 then (s, 400)
         else (case validHouseholdRole role of
                 None \<Rightarrow> (s, 400)
               | Some role \<Rightarrow>
                   if age < 0 \<or> age > 21 then (s, 400)
                   else if has_key iid (hs_invites s) \<or> list_ex (\<lambda>(i, row). hi_TokenHash row = tokenHash) (hs_invites s)
                           \<or> \<not> has_key hid (hs_houses s) then (s, 500)
                   else (s\<lparr>hs_invites := hs_invites s @
                            [(iid, \<lparr>hi_Household = hid, hi_TokenHash = tokenHash, hi_Role = role, hi_AgeLimit = age,
                                    hi_ExpiresAt = whole_seconds (now + seconds (days * 24 * 3600)), hi_UsedBy = None\<rparr>)]\<rparr>, 201)))"

definition createHouseholdInvite :: "caller \<Rightarrow> int \<Rightarrow> string \<Rightarrow> int \<Rightarrow> string \<Rightarrow> string \<Rightarrow> gtime \<Rightarrow> house_db \<Rightarrow> house_db \<times> int" where
  "createHouseholdInvite c days role age iid tokenHash now s =
     (case ownerHousehold (p_UserID (cl_p c)) s of
        None \<Rightarrow> (s, 403)
      | Some hid \<Rightarrow> issueHouseholdInvite hid days role age iid tokenHash now s)"

text \<open>\<^verbatim>\<open>acceptHouseholdInvite\<close>: the check, and the claim of the invitation with the new membership.\<close>

definition accept_check :: "caller \<Rightarrow> string \<Rightarrow> gtime \<Rightarrow> house_db \<Rightarrow> int + string" where
  "accept_check c tokenHash now s =
     (case List.find (\<lambda>(i, row). hi_TokenHash row = tokenHash \<and> hi_UsedBy row = None) (hs_invites s) of
        None \<Rightarrow> Inl 404
      | Some (iid, row) \<Rightarrow>
          if now > hi_ExpiresAt row then Inl 404
          else if household_of (p_UserID (cl_p c)) s \<noteq> None then Inl 409
          else if cl_Temporary c then Inl 403
          else Inr iid)"

definition use_invite :: "string \<Rightarrow> string option \<Rightarrow> house_db \<Rightarrow> house_db" where
  "use_invite iid by s =
     (case map_of (hs_invites s) iid of
        None \<Rightarrow> s
      | Some row \<Rightarrow> s\<lparr>hs_invites := set_key iid (row\<lparr>hi_UsedBy := by\<rparr>) (hs_invites s)\<rparr>)"

definition accept_commit :: "caller \<Rightarrow> string \<Rightarrow> household_invite \<Rightarrow> house_db \<Rightarrow> house_db \<times> int" where
  "accept_commit c iid row s =
     (if (case map_of (hs_invites s) iid of Some r \<Rightarrow> hi_UsedBy r \<noteq> None | None \<Rightarrow> True) then (s, 404)
      else (case insert_member (hi_Household row) (p_UserID (cl_p c)) (member_at (hi_Role row) (hi_AgeLimit row) None)
                   (use_invite iid (Some (p_UserID (cl_p c))) s) of
              (s, True) \<Rightarrow> (s, 200)
            | (s, False) \<Rightarrow> (use_invite iid None s, 400)))"

definition acceptHouseholdInvite :: "caller \<Rightarrow> string \<Rightarrow> string \<Rightarrow> gtime \<Rightarrow> house_db \<Rightarrow> house_db \<times> int" where
  "acceptHouseholdInvite c tok tokenHash now s =
     (if trimSpace tok = [] then (s, 400)
      else (case accept_check c tokenHash now s of
              Inl st \<Rightarrow> (s, st)
            | Inr iid \<Rightarrow> accept_commit c iid (the (map_of (hs_invites s) iid)) s))"

section \<open>What administrators do\<close>

definition ceiling_status :: "caller \<Rightarrow> string \<Rightarrow> house_db \<Rightarrow> int option" where
  "ceiling_status c uid s = map_option CeilingHTTPStatus (AssertCanModifyUser (hs_auth s) (Some (cl_p c)) uid)"

definition adminCreateHousehold :: "caller \<Rightarrow> string \<Rightarrow> string \<Rightarrow> string \<Rightarrow> house_db \<Rightarrow> house_db \<times> int" where
  "adminCreateHousehold c nm owner hid s =
     (if trimSpace nm = [] \<or> length (trimSpace nm) > 100 \<or> trimSpace owner = [] then (s, 400)
      else (case ceiling_status c owner s of
              Some st \<Rightarrow> (s, st)
            | None \<Rightarrow>
                (case map_of (db_users (hs_auth s)) owner of
                   None \<Rightarrow> (s, 404)
                 | Some u \<Rightarrow>
                     if ac_Temporary u then (s, 400)
                     else if household_of owner s \<noteq> None then (s, 409)
                     else (case insert_house hid (trimSpace nm) owner s of
                             (t, False) \<Rightarrow> (s, 409)
                           | (t, True) \<Rightarrow> (case insert_member hid owner (member_at ''owner'' 0 None) t of
                                            (t, False) \<Rightarrow> (s, 409) | (t, True) \<Rightarrow> (t, 201))))))"

text \<open>\<^verbatim>\<open>adminPatchHousehold\<close>: whether the new owner may own, and the transaction.\<close>

definition owner_candidate :: "caller \<Rightarrow> string \<Rightarrow> household \<Rightarrow> string \<Rightarrow> house_db \<Rightarrow> int option" where
  "owner_candidate c hid h newOwner s =
     (case ceiling_status c (hh_Owner h) s of
        Some st \<Rightarrow> Some st
      | None \<Rightarrow>
          (case ceiling_status c newOwner s of
             Some st \<Rightarrow> Some st
           | None \<Rightarrow>
               (case (map_of (hs_members s) (hid, newOwner), map_of (db_users (hs_auth s)) newOwner) of
                  (Some m, Some u) \<Rightarrow> if ac_Temporary u \<or> hm_ExpiresAt m \<noteq> None then Some 400 else None
                | _ \<Rightarrow> Some 400)))"

definition transfer :: "string \<Rightarrow> household \<Rightarrow> string \<Rightarrow> house_db \<Rightarrow> house_db option" where
  "transfer hid h newOwner s =
     (let s = update_member hid newOwner (\<lambda>m. m\<lparr>hm_Role := ''owner''\<rparr>) (update_member hid (hh_Owner h) (\<lambda>m. m\<lparr>hm_Role := ''adult''\<rparr>) s)
      in if list_ex (\<lambda>(g, row). g \<noteq> hid \<and> hh_Owner row = newOwner) (hs_houses s) then None
         else (case map_of (hs_houses s) hid of
                 None \<Rightarrow> Some s
               | Some row \<Rightarrow> Some (s\<lparr>hs_houses := set_key hid (row\<lparr>hh_Owner := newOwner\<rparr>) (hs_houses s)\<rparr>)))"

definition adminPatchHousehold :: "caller \<Rightarrow> string \<Rightarrow> string option \<Rightarrow> string option \<Rightarrow> house_db \<Rightarrow> house_db \<times> int" where
  "adminPatchHousehold c hid nm owner s =
     (case map_of (hs_houses s) hid of
        None \<Rightarrow> (s, 404)
      | Some h \<Rightarrow>
          if (case nm of Some n \<Rightarrow> trimSpace n = [] \<or> length (trimSpace n) > 100 | None \<Rightarrow> False) then (s, 400)
          else (let wanted = (case owner of Some q \<Rightarrow> if q \<noteq> hh_Owner h then Some (trimSpace q) else None | None \<Rightarrow> None)
                in case (case wanted of Some q \<Rightarrow> owner_candidate c hid h q s | None \<Rightarrow> None) of
                     Some st \<Rightarrow> (s, st)
                   | None \<Rightarrow>
                       (let named = (case nm of
                                       None \<Rightarrow> s
                                     | Some n \<Rightarrow> s\<lparr>hs_houses := set_key hid (h\<lparr>hh_Name := trimSpace n\<rparr>) (hs_houses s)\<rparr>)
                        in case wanted of
                             None \<Rightarrow> (named, 200)
                           | Some q \<Rightarrow> if q = [] then (named, 200)
                                       else (case transfer hid h q named of None \<Rightarrow> (s, 503) | Some t \<Rightarrow> (t, 200)))))"

definition drop_house :: "string \<Rightarrow> house_db \<Rightarrow> house_db" where
  "drop_house hid s =
     s\<lparr>hs_invites := filter (\<lambda>(i, row). hi_Household row \<noteq> hid) (hs_invites s),
       hs_members := filter (\<lambda>((h, u), m). h \<noteq> hid) (hs_members s),
       hs_houses := del_key hid (hs_houses s)\<rparr>"

definition adminDeleteHousehold :: "caller \<Rightarrow> string \<Rightarrow> house_db \<Rightarrow> house_db \<times> int" where
  "adminDeleteHousehold c hid s =
     (case map_of (hs_houses s) hid of
        None \<Rightarrow> (s, 404)
      | Some h \<Rightarrow> (case ceiling_status c (hh_Owner h) s of Some st \<Rightarrow> (s, st) | None \<Rightarrow> (drop_house hid s, 200)))"

definition adminCreateHouseholdInvite :: "string \<Rightarrow> int \<Rightarrow> string \<Rightarrow> int \<Rightarrow> string \<Rightarrow> string \<Rightarrow> gtime \<Rightarrow> house_db \<Rightarrow> house_db \<times> int" where
  "adminCreateHouseholdInvite hid days role age iid tokenHash now s =
     (if has_key hid (hs_houses s) then issueHouseholdInvite hid days role age iid tokenHash now s else (s, 404))"

definition adminPatchHouseholdMember :: "caller \<Rightarrow> string \<Rightarrow> string \<Rightarrow> string option \<Rightarrow> int option \<Rightarrow> house_db \<Rightarrow> house_db \<times> int" where
  "adminPatchHouseholdMember c hid uid role age s =
     (case map_of (hs_members s) (hid, uid) of
        None \<Rightarrow> (s, 404)
      | Some m \<Rightarrow>
          (case ceiling_status c uid s of
             Some st \<Rightarrow> (s, st)
           | None \<Rightarrow>
               if role \<noteq> None \<and> hm_Role m = ''owner'' then (s, 400)
               else (case (case role of None \<Rightarrow> Some (hm_Role m) | Some r \<Rightarrow> validHouseholdRole r) of
                       None \<Rightarrow> (s, 400)
                     | Some next \<Rightarrow>
                         if (case age of Some n \<Rightarrow> n < 0 \<or> n > MaxRatingAge | None \<Rightarrow> False) then (s, 400)
                         else (update_member hid uid
                                 (\<lambda>m. m\<lparr>hm_Role := next, hm_AgeLimit := (case age of Some n \<Rightarrow> n | None \<Rightarrow> hm_AgeLimit m)\<rparr>) s, 200))))"

definition adminMoveHouseholdMember :: "caller \<Rightarrow> string \<Rightarrow> string \<Rightarrow> string \<Rightarrow> house_db \<Rightarrow> house_db \<times> int" where
  "adminMoveHouseholdMember c hid uid target s =
     (if trimSpace target = [] \<or> target = hid then (s, 400)
      else (case map_of (hs_members s) (hid, uid) of
              None \<Rightarrow> (s, 404)
            | Some m \<Rightarrow>
                if hm_Role m = ''owner'' then (s, 409)
                else (case ceiling_status c uid s of
                        Some st \<Rightarrow> (s, st)
                      | None \<Rightarrow>
                          if \<not> has_key target (hs_houses s) then (s, 404)
                          else (case insert_member target uid (member_at (hm_Role m) (hm_AgeLimit m) (hm_ExpiresAt m)) (delete_member hid uid s) of
                                  (t, False) \<Rightarrow> (s, 503) | (t, True) \<Rightarrow> (t, 200)))))"

definition adminRemoveHouseholdMember :: "caller \<Rightarrow> string \<Rightarrow> string \<Rightarrow> house_db \<Rightarrow> house_db \<times> int" where
  "adminRemoveHouseholdMember c hid uid s =
     (case map_of (hs_members s) (hid, uid) of
        None \<Rightarrow> (s, 404)
      | Some m \<Rightarrow>
          if hm_Role m = ''owner'' then (s, 409)
          else (case ceiling_status c uid s of Some st \<Rightarrow> (s, st) | None \<Rightarrow> (delete_member hid uid s, 200)))"

text \<open>Deleting an account takes its household, its membership and the invitations of its household along
  (the references of the tables).\<close>

definition house_cascade :: "string \<Rightarrow> house_db \<Rightarrow> house_db" where
  "house_cascade uid s =
     (let s = fold drop_house (map fst (filter (\<lambda>(h, row). hh_Owner row = uid) (hs_houses s))) s
      in s\<lparr>hs_members := filter (\<lambda>((h, u), m). u \<noteq> uid) (hs_members s)\<rparr>)"

definition house_delete_user :: "caller \<Rightarrow> string \<Rightarrow> house_db \<Rightarrow> house_db \<times> int" where
  "house_delete_user c uid s =
     (case DeleteUser (Some (cl_p c)) uid (hs_auth s) of
        (db, Some e) \<Rightarrow> (s, CeilingHTTPStatus e)
      | (db, None) \<Rightarrow> (house_cascade uid (s\<lparr>hs_auth := db\<rparr>), 200))"

section \<open>The routes\<close>

datatype house_action =
    HouseCreate string string bool
  | HouseAdd string string int
  | HouseRemove string
  | HouseInvite int string int string string
  | HouseAccept string string
  | HouseAdminCreate string string string
  | HouseAdminPatch string "string option" "string option"
  | HouseAdminDelete string
  | HouseAdminInvite string int string int string string
  | HouseAdminPatchMember string string "string option" "int option"
  | HouseAdminMove string string string
  | HouseAdminRemove string string
  | HouseDeleteUser string

fun handle_house :: "house_action \<Rightarrow> caller \<Rightarrow> gtime \<Rightarrow> house_db \<Rightarrow> house_db \<times> int" where
  "handle_house (HouseCreate nm hid seated) c now s = createHousehold c nm hid seated s"
| "handle_house (HouseAdd uid role age) c now s = addHouseholdMember c uid role age s"
| "handle_house (HouseRemove uid) c now s = removeHouseholdMember c uid s"
| "handle_house (HouseInvite days role age iid tok) c now s = createHouseholdInvite c days role age iid tok now s"
| "handle_house (HouseAccept tok tokenHash) c now s = acceptHouseholdInvite c tok tokenHash now s"
| "handle_house (HouseAdminCreate nm owner hid) c now s = adminCreateHousehold c nm owner hid s"
| "handle_house (HouseAdminPatch hid nm owner) c now s = adminPatchHousehold c hid nm owner s"
| "handle_house (HouseAdminDelete hid) c now s = adminDeleteHousehold c hid s"
| "handle_house (HouseAdminInvite hid days role age iid tok) c now s = adminCreateHouseholdInvite hid days role age iid tok now s"
| "handle_house (HouseAdminPatchMember hid uid role age) c now s = adminPatchHouseholdMember c hid uid role age s"
| "handle_house (HouseAdminMove hid uid target) c now s = adminMoveHouseholdMember c hid uid target s"
| "handle_house (HouseAdminRemove hid uid) c now s = adminRemoveHouseholdMember c hid uid s"
| "handle_house (HouseDeleteUser uid) c now s = house_delete_user c uid s"

definition admin_action :: "house_action \<Rightarrow> bool" where
  "admin_action act \<longleftrightarrow>
     (case act of HouseCreate nm hid seated \<Rightarrow> False | HouseAdd uid role age \<Rightarrow> False | HouseRemove uid \<Rightarrow> False
      | HouseInvite days role age iid tok \<Rightarrow> False | HouseAccept tok tokenHash \<Rightarrow> False | _ \<Rightarrow> True)"

definition serve_house :: "house_action \<Rightarrow> string \<Rightarrow> caller option \<Rightarrow> gtime \<Rightarrow> house_db \<Rightarrow> house_db \<times> int" where
  "serve_house act path c now s =
     (case (if admin_action act then RequirePerm PermUsersManage c else RequireUser path c) of
        Some st \<Rightarrow> (s, st)
      | None \<Rightarrow> (case c of None \<Rightarrow> (s, 401) | Some q \<Rightarrow> handle_house act q now s))"

end
