(* ===== verification/Household_Safety.thy ===== *)
theory Household_Safety
  imports Household
begin

text \<open>
  The invariant of households: nobody is a member of two, whoever has the role of owner is the owner, and,
  as long as the database carries out every statement of a new household, every owner is a member. Each
  statement that writes keeps it, so every route does.
\<close>

section \<open>The invariant\<close>

definition known_roles :: "string set" where
  "known_roles = {''owner'', ''adult'', ''member'', ''child''}"

definition member_fits :: "house_db \<Rightarrow> string \<Rightarrow> string \<Rightarrow> household_member \<Rightarrow> bool" where
  "member_fits s h u m \<longleftrightarrow>
     (\<exists>row. map_of (hs_houses s) h = Some row \<and> (hm_Role m = ''owner'' \<longrightarrow> hh_Owner row = u)) \<and>
     has_key u (db_users (hs_auth s)) \<and> hm_Role m \<in> known_roles \<and> 0 \<le> hm_AgeLimit m \<and> hm_AgeLimit m \<le> MaxRatingAge"

definition invite_fits :: "house_db \<Rightarrow> household_invite \<Rightarrow> bool" where
  "invite_fits s row \<longleftrightarrow>
     has_key (hi_Household row) (hs_houses s) \<and> hi_Role row \<in> known_roles - {''owner''} \<and>
     0 \<le> hi_AgeLimit row \<and> hi_AgeLimit row \<le> MaxRatingAge"

definition owner_seated :: "house_db \<Rightarrow> string \<Rightarrow> household \<Rightarrow> bool" where
  "owner_seated s h row \<longleftrightarrow> (\<exists>m. map_of (hs_members s) (h, hh_Owner row) = Some m \<and> hm_Role m = ''owner'')"

definition houses_ok :: "bool \<Rightarrow> house_db \<Rightarrow> bool" where
  "houses_ok sure s \<longleftrightarrow>
     distinct (keys (hs_houses s)) \<and> distinct (keys (hs_members s)) \<and> distinct (keys (hs_invites s)) \<and>
     (\<forall>h row h' row'. map_of (hs_houses s) h = Some row \<longrightarrow> map_of (hs_houses s) h' = Some row' \<longrightarrow> hh_Owner row = hh_Owner row' \<longrightarrow> h = h') \<and>
     (\<forall>h row. map_of (hs_houses s) h = Some row \<longrightarrow> has_key (hh_Owner row) (db_users (hs_auth s)) \<and> (sure \<longrightarrow> owner_seated s h row)) \<and>
     (\<forall>h h' u m m'. map_of (hs_members s) (h, u) = Some m \<longrightarrow> map_of (hs_members s) (h', u) = Some m' \<longrightarrow> h = h') \<and>
     (\<forall>h u m. map_of (hs_members s) (h, u) = Some m \<longrightarrow> member_fits s h u m) \<and>
     (\<forall>i row. map_of (hs_invites s) i = Some row \<longrightarrow> invite_fits s row)"

lemma houses_okD:
  assumes "houses_ok sure s"
  shows "distinct (keys (hs_houses s))" "distinct (keys (hs_members s))" "distinct (keys (hs_invites s))"
    and "map_of (hs_houses s) h = Some row \<Longrightarrow> map_of (hs_houses s) h' = Some row' \<Longrightarrow> hh_Owner row = hh_Owner row' \<Longrightarrow> h = h'"
    and "map_of (hs_houses s) h = Some row \<Longrightarrow> has_key (hh_Owner row) (db_users (hs_auth s))"
    and "map_of (hs_houses s) h = Some row \<Longrightarrow> sure \<Longrightarrow> owner_seated s h row"
    and "map_of (hs_members s) (h, u) = Some m \<Longrightarrow> map_of (hs_members s) (h', u) = Some m' \<Longrightarrow> h = h'"
    and "map_of (hs_members s) (h, u) = Some m \<Longrightarrow> member_fits s h u m"
    and "map_of (hs_invites s) i = Some iv \<Longrightarrow> invite_fits s iv"
  using assms unfolding houses_ok_def by blast+

lemma houses_okI:
  assumes "distinct (keys (hs_houses s))" "distinct (keys (hs_members s))" "distinct (keys (hs_invites s))"
    and "\<And>h row h' row'. map_of (hs_houses s) h = Some row \<Longrightarrow> map_of (hs_houses s) h' = Some row' \<Longrightarrow> hh_Owner row = hh_Owner row' \<Longrightarrow> h = h'"
    and "\<And>h row. map_of (hs_houses s) h = Some row \<Longrightarrow> has_key (hh_Owner row) (db_users (hs_auth s))"
    and "\<And>h row. map_of (hs_houses s) h = Some row \<Longrightarrow> sure \<Longrightarrow> owner_seated s h row"
    and "\<And>h h' u m m'. map_of (hs_members s) (h, u) = Some m \<Longrightarrow> map_of (hs_members s) (h', u) = Some m' \<Longrightarrow> h = h'"
    and "\<And>h u m. map_of (hs_members s) (h, u) = Some m \<Longrightarrow> member_fits s h u m"
    and "\<And>i row. map_of (hs_invites s) i = Some row \<Longrightarrow> invite_fits s row"
  shows "houses_ok sure s"
  using assms unfolding houses_ok_def by blast

lemma keys_append: "keys (xs @ ys) = keys xs @ keys ys"
  by (simp add: keys_def)

lemma map_of_snoc: "map_of (m @ [(k, v)]) x = (case map_of m x of None \<Rightarrow> if x = k then Some v else None | Some w \<Rightarrow> Some w)"
  by (auto simp: map_add_def split: option.splits)

lemma distinct_keys_filter: "distinct (keys m) \<Longrightarrow> distinct (keys (filter P m))"
  by (simp add: keys_def distinct_map_filter)

lemma map_of_filter_pairs: "distinct (keys m) \<Longrightarrow> map_of (filter P m) k = (case map_of m k of Some v \<Rightarrow> if P (k, v) then Some v else None | None \<Rightarrow> None)"
proof (induction m arbitrary: k)
  case (Cons e m)
  obtain k' v where e: "e = (k', v)" by fastforce
  then have "k' \<notin> set (keys m)" "distinct (keys m)" using Cons.prems by (auto simp: keys_def)
  then have "map_of m k' = None" "\<And>x. map_of (filter P m) x = (case map_of m x of Some v \<Rightarrow> if P (x, v) then Some v else None | None \<Rightarrow> None)"
    using Cons.IH by (auto simp: keys_def map_of_eq_None_iff)
  then show ?case using e by auto
qed (simp add: keys_def)

lemma has_key_map: "has_key k m \<longleftrightarrow> map_of m k \<noteq> None"
  by (auto simp: has_key_iff keys_def map_of_eq_None_iff)

lemma household_of_None: "household_of u s = None \<longleftrightarrow> (\<forall>h. map_of (hs_members s) (h, u) = None)"
  by (force simp: household_of_def find_None_iff map_of_eq_None_iff)

lemma household_of_Some:
  assumes "household_of u s = Some h"
  shows "\<exists>m. map_of (hs_members s) (h, u) = Some m"
proof -
  obtain u' m where "List.find (\<lambda>((h, u'), m). u' = u) (hs_members s) = Some ((h, u'), m)"
    using assms by (auto simp: household_of_def split: prod.splits)
  then have "((h, u), m) \<in> set (hs_members s)" by (auto simp: find_Some_iff in_set_conv_nth)
  then show ?thesis by (meson weak_map_of_SomeI)
qed

lemma ownerHousehold_Some:
  assumes "ownerHousehold u s = Some h" "distinct (keys (hs_houses s))"
  shows "\<exists>row m. map_of (hs_houses s) h = Some row \<and> hh_Owner row = u \<and> map_of (hs_members s) (h, u) = Some m \<and> hm_Role m = ''owner''"
proof -
  obtain row where "(h, row) \<in> set (hs_houses s)" "hh_Owner row = u"
    "case map_of (hs_members s) (h, u) of Some m \<Rightarrow> hm_Role m = ''owner'' | None \<Rightarrow> False"
    using assms(1) by (force simp: ownerHousehold_def find_Some_iff in_set_conv_nth)
  moreover from this(1) have "map_of (hs_houses s) h = Some row" using assms(2) by (simp add: keys_def)
  ultimately show ?thesis by (auto split: option.splits)
qed

lemma validHouseholdRole_known: "validHouseholdRole r = Some r' \<Longrightarrow> r' \<in> known_roles - {''owner''}"
  by (auto simp: validHouseholdRole_def known_roles_def split: if_splits)

section \<open>Statements keep it\<close>

lemmas ok_defs = houses_ok_def member_fits_def invite_fits_def owner_seated_def

text \<open>What a change of the memberships alone must show.\<close>

lemma ok_members:
  assumes ok: "houses_ok sure s" and tables: "hs_houses s' = hs_houses s" "hs_invites s' = hs_invites s" "hs_auth s' = hs_auth s"
    and "distinct (keys (hs_members s'))"
    and "\<And>h h' u m m'. map_of (hs_members s') (h, u) = Some m \<Longrightarrow> map_of (hs_members s') (h', u) = Some m' \<Longrightarrow> h = h'"
    and fits: "\<And>h u m. map_of (hs_members s') (h, u) = Some m \<Longrightarrow> member_fits s h u m"
    and seated: "\<And>h row. map_of (hs_houses s) h = Some row \<Longrightarrow> sure \<Longrightarrow> owner_seated s h row \<Longrightarrow> owner_seated s' h row"
  shows "houses_ok sure s'"
proof -
  note d = houses_okD [OF ok]
  have same: "member_fits s' g v n = member_fits s g v n" "invite_fits s' row = invite_fits s row" for g v n row
    by (simp_all add: member_fits_def invite_fits_def tables)
  show ?thesis
  proof (rule houses_okI; (unfold same)?)
    fix h row h' row' assume "map_of (hs_houses s') h = Some row" "map_of (hs_houses s') h' = Some row'" "hh_Owner row = hh_Owner row'"
    then show "h = h'" unfolding tables by (rule d(4))
  next
    fix h row assume "map_of (hs_houses s') h = Some row"
    then show "has_key (hh_Owner row) (db_users (hs_auth s'))" unfolding tables by (rule d(5))
  next
    fix h row assume a: "map_of (hs_houses s') h = Some row" sure
    from a(1) show "owner_seated s' h row" unfolding tables using a(2) by (intro seated d(6))
  next
    fix i row assume "map_of (hs_invites s') i = Some row"
    then show "invite_fits s row" unfolding tables by (rule d(9))
  qed (fact assms(5,6) fits | simp add: d(1-3) tables)+
qed

lemma ok_insert_member:
  assumes ok: "houses_ok sure s" and i: "insert_member h u m s = (s', b)" and free: "\<forall>h. map_of (hs_members s) (h, u) = None"
    and m: "hm_Role m \<in> known_roles" "hm_Role m = ''owner'' \<longrightarrow> (\<exists>row. map_of (hs_houses s) h = Some row \<and> hh_Owner row = u)"
      "0 \<le> hm_AgeLimit m" "hm_AgeLimit m \<le> MaxRatingAge"
  shows "houses_ok sure s'"
proof (cases b)
  case True
  then have s': "s' = s\<lparr>hs_members := hs_members s @ [((h, u), m)]\<rparr>" and fresh: "\<not> has_key (h, u) (hs_members s)" "has_key h (hs_houses s)" "has_key u (db_users (hs_auth s))"
    using i by (auto simp: insert_member_def split: if_splits)
  note d = houses_okD [OF ok]
  have new: "map_of (hs_members s') x = (case map_of (hs_members s) x of None \<Rightarrow> if x = (h, u) then Some m else None | Some w \<Rightarrow> Some w)" for x
    by (simp add: s' map_of_snoc del: map_of_append)
  have cases: "map_of (hs_members s) (g, v) = Some n \<or> (g = h \<and> v = u \<and> n = m)" if "map_of (hs_members s') (g, v) = Some n" for g v n
    using that unfolding new by (auto split: option.splits if_splits)
  show ?thesis
  proof (rule ok_members [OF ok])
    show "distinct (keys (hs_members s'))" using d(2) fresh by (simp add: s' keys_append has_key_iff) (simp add: keys_def)
  next
    fix g g' v n n' assume "map_of (hs_members s') (g, v) = Some n" "map_of (hs_members s') (g', v) = Some n'"
    from cases [OF this(1)] cases [OF this(2)] show "g = g'" using free d(7) by fastforce
  next
    fix g v n assume "map_of (hs_members s') (g, v) = Some n"
    from cases [OF this] show "member_fits s g v n" using d(8) [of g v n] m fresh by (auto simp: member_fits_def has_key_map)
  next
    fix g row assume "owner_seated s g row"
    then show "owner_seated s' g row" unfolding owner_seated_def new by (auto split: option.splits)
  qed (simp_all add: s')
qed (use i ok in \<open>auto simp: insert_member_def split: if_splits\<close>)

lemma ok_update_member:
  assumes ok: "houses_ok sure s"
    and f: "\<And>m. map_of (hs_members s) (h, u) = Some m \<Longrightarrow> member_fits s h u m \<Longrightarrow> member_fits s h u (f m)"
      "\<And>m. sure \<Longrightarrow> map_of (hs_members s) (h, u) = Some m \<Longrightarrow> hm_Role m = ''owner'' \<Longrightarrow> hm_Role (f m) = ''owner''"
  shows "houses_ok sure (update_member h u f s)"
proof (cases "map_of (hs_members s) (h, u)")
  case (Some m)
  note d = houses_okD [OF ok]
  let ?s = "update_member h u f s"
  have s: "?s = s\<lparr>hs_members := set_key (h, u) (f m) (hs_members s)\<rparr>" using Some by (simp add: update_member_def)
  have old: "\<exists>n. map_of (hs_members s) (x, v) = Some n" if "map_of (hs_members ?s) (x, v) = Some n" for x v n
    using that Some by (auto simp: s split: if_splits)
  show ?thesis
  proof (rule ok_members [OF ok])
    show "distinct (keys (hs_members ?s))" using d(2) by (simp add: s)
  next
    fix g g' v n n' assume "map_of (hs_members ?s) (g, v) = Some n" "map_of (hs_members ?s) (g', v) = Some n'"
    from old [OF this(1)] old [OF this(2)] show "g = g'" using d(7) by blast
  next
    fix g v n assume "map_of (hs_members ?s) (g, v) = Some n"
    then show "member_fits s g v n" using f(1) [OF Some d(8) [OF Some]] d(8) [of g v n] by (auto simp: s split: if_splits)
  next
    fix g row assume sure "owner_seated s g row"
    then show "owner_seated ?s g row" using f(2) Some by (auto simp: owner_seated_def s)
  qed (simp_all add: s)
qed (use ok in \<open>simp add: update_member_def\<close>)

lemma ok_delete_member:
  assumes ok: "houses_ok sure s" and m: "\<And>m. map_of (hs_members s) (h, u) = Some m \<Longrightarrow> hm_Role m \<noteq> ''owner''"
  shows "houses_ok sure (delete_member h u s)"
proof -
  note d = houses_okD [OF ok]
  have old: "map_of (hs_members s) x = Some n" if "map_of (hs_members (delete_member h u s)) x = Some n" for x n
    using that by (auto simp: delete_member_def split: if_splits)
  show ?thesis
  proof (rule ok_members [OF ok])
    show "distinct (keys (hs_members (delete_member h u s)))" using d(2) by (simp add: delete_member_def)
  next
    fix g row assume "owner_seated s g row"
    then show "owner_seated (delete_member h u s) g row" using m by (auto simp: owner_seated_def delete_member_def)
  qed (fact d(7) [OF old old] d(8) [OF old] | simp add: delete_member_def)+
qed

lemma ok_invite:
  assumes ok: "houses_ok sure s" and "invite_fits s row" "\<not> has_key i (hs_invites s)"
  shows "houses_ok sure (s\<lparr>hs_invites := hs_invites s @ [(i, row)]\<rparr>)"
  using assms by (simp add: ok_defs keys_append has_key_iff map_of_snoc split: option.splits del: map_of_append) (simp add: keys_def)

lemma ok_use_invite: "houses_ok sure s \<Longrightarrow> houses_ok sure (use_invite i q s)"
  by (simp add: use_invite_def split: option.split) (auto simp: ok_defs)

lemma ok_insert_house:
  assumes ok: "houses_ok sure s" and i: "insert_house h nm u s = (s', True)" and none: "household_of u s = None"
  shows "houses_ok False s'" "insert_member h u (member_at ''owner'' 0 None) s' = (s'', True) \<Longrightarrow> houses_ok sure s''"
    "map_of (hs_houses s') h = Some \<lparr>hh_Name = nm, hh_Owner = u\<rparr>"
proof -
  note d = houses_okD [OF ok]
  have s': "s' = s\<lparr>hs_houses := hs_houses s @ [(h, \<lparr>hh_Name = nm, hh_Owner = u\<rparr>)]\<rparr>"
    and fresh: "\<not> has_key h (hs_houses s)" "has_key u (db_users (hs_auth s))" "list_all (\<lambda>(h, row). hh_Owner row \<noteq> u) (hs_houses s)"
    using i by (auto simp: insert_house_def list_all_iff list_ex_iff split: if_splits)
  have others: "hh_Owner row \<noteq> u" if "map_of (hs_houses s) g = Some row" for g row
    using fresh(3) map_of_SomeD [OF that] by (auto simp: list_all_iff)
  have new: "map_of (hs_houses s') x = (if x = h then Some \<lparr>hh_Name = nm, hh_Owner = u\<rparr> else map_of (hs_houses s) x)" for x
    using fresh(1) by (auto simp: s' has_key_map map_of_snoc simp del: map_of_append split: option.splits)
  then show h: "map_of (hs_houses s') h = Some \<lparr>hh_Name = nm, hh_Owner = u\<rparr>" by simp
  have fits: "member_fits s' g v m" if "member_fits s g v m" for g v m
    using that fresh(1) unfolding member_fits_def new by (auto simp: s' has_key_map)
  have inv: "invite_fits s' row" if "invite_fits s row" for row
    using that fresh(1) unfolding invite_fits_def has_key_map new by auto
  have once: "g = g'" if "map_of (hs_houses s') g = Some row" "map_of (hs_houses s') g' = Some row'" "hh_Owner row = hh_Owner row'" for g g' row row'
    using that others [of g row] others [of g' row'] d(4) [of g row g' row'] unfolding new by (cases "g = h"; cases "g' = h") auto
  have known: "has_key (hh_Owner row) (db_users (hs_auth s'))" if "map_of (hs_houses s') g = Some row" for g row
    using that fresh(2) d(5) [of g row] unfolding new by (auto simp: s' split: if_splits)
  have dist: "distinct (keys (hs_houses s'))" using d(1) fresh(1) by (simp add: s' keys_append has_key_iff) (simp add: keys_def)
  have tables: "hs_members s' = hs_members s" "hs_invites s' = hs_invites s" by (simp_all add: s')
  show weak: "houses_ok False s'"
    by (rule houses_okI) (use once known dist fits inv d(2,3,7,8,9) in \<open>auto simp: tables\<close>)
  assume im: "insert_member h u (member_at ''owner'' 0 None) s' = (s'', True)"
  have free: "\<forall>g. map_of (hs_members s') (g, u) = None" using none by (simp add: household_of_None s')
  have strong: "houses_ok False s''"
    by (rule ok_insert_member [OF weak im free]) (use h in \<open>auto simp: member_at_def known_roles_def MaxRatingAge_def\<close>)
  have s'': "s'' = s'\<lparr>hs_members := hs_members s' @ [((h, u), member_at ''owner'' 0 None)]\<rparr>"
    using im by (auto simp: insert_member_def split: if_splits)
  have "owner_seated s'' g row" if "map_of (hs_houses s'') g = Some row" sure for g row
  proof (cases "g = h")
    case True
    then have "hh_Owner row = u" using that(1) h by (auto simp: s'')
    then show ?thesis using True free by (simp add: owner_seated_def s'' map_of_snoc member_at_def del: map_of_append)
  next
    case False
    then have "owner_seated s g row" using that d(6) [of g row] by (simp add: s'' new)
    then show ?thesis by (auto simp: owner_seated_def s'' map_of_snoc tables simp del: map_of_append)
  qed
  then show "houses_ok sure s''" using strong unfolding houses_ok_def by blast
qed

text \<open>Households and accounts that go, with all that refers to them.\<close>

definition keep_only :: "(string \<Rightarrow> bool) \<Rightarrow> (string \<Rightarrow> bool) \<Rightarrow> house_db \<Rightarrow> house_db" where
  "keep_only P Q s =
     s\<lparr>hs_houses := filter (\<lambda>(h, row). P h) (hs_houses s),
       hs_members := filter (\<lambda>((h, u), m). P h \<and> Q u) (hs_members s),
       hs_invites := filter (\<lambda>(i, row). P (hi_Household row)) (hs_invites s)\<rparr>"

lemma ok_keep_only:
  assumes ok: "houses_ok sure s" and users: "\<And>u. Q u \<Longrightarrow> has_key u (db_users (hs_auth s)) \<Longrightarrow> has_key u (db_users db)"
    and owners: "\<And>h row. map_of (hs_houses s) h = Some row \<Longrightarrow> P h \<Longrightarrow> Q (hh_Owner row)"
  shows "houses_ok sure (keep_only P Q (s\<lparr>hs_auth := db\<rparr>))"
proof -
  note d = houses_okD [OF ok]
  let ?s = "keep_only P Q (s\<lparr>hs_auth := db\<rparr>)"
  have auth: "hs_auth ?s = db" by (simp add: keep_only_def)
  have hs: "map_of (hs_houses ?s) h = Some row \<longleftrightarrow> P h \<and> map_of (hs_houses s) h = Some row" for h row
    using d(1) by (auto simp: keep_only_def map_of_filter_pairs split: option.splits)
  have ms: "map_of (hs_members ?s) (h, u) = Some m \<longleftrightarrow> P h \<and> Q u \<and> map_of (hs_members s) (h, u) = Some m" for h u m
    using d(2) by (auto simp: keep_only_def map_of_filter_pairs split: option.splits)
  have iv: "map_of (hs_invites ?s) i = Some row \<longleftrightarrow> P (hi_Household row) \<and> map_of (hs_invites s) i = Some row" for i row
    using d(3) by (auto simp: keep_only_def map_of_filter_pairs split: option.splits)
  show ?thesis
  proof (rule houses_okI)
    fix h row h' row' assume "map_of (hs_houses ?s) h = Some row" "map_of (hs_houses ?s) h' = Some row'" "hh_Owner row = hh_Owner row'"
    then show "h = h'" unfolding hs using d(4) by blast
  next
    fix h row assume "map_of (hs_houses ?s) h = Some row"
    then show "has_key (hh_Owner row) (db_users (hs_auth ?s))" unfolding hs auth using users owners d(5) by blast
  next
    fix h row assume "map_of (hs_houses ?s) h = Some row" sure
    then show "owner_seated ?s h row" unfolding hs using owners d(6) [of h row] by (auto simp: owner_seated_def ms)
  next
    fix h h' u m m' assume "map_of (hs_members ?s) (h, u) = Some m" "map_of (hs_members ?s) (h', u) = Some m'"
    then show "h = h'" unfolding ms using d(7) by blast
  next
    fix h u m assume "map_of (hs_members ?s) (h, u) = Some m"
    then show "member_fits ?s h u m" unfolding ms using d(8) [of h u m] users by (auto simp: member_fits_def hs auth)
  next
    fix i row assume "map_of (hs_invites ?s) i = Some row"
    then show "invite_fits ?s row" unfolding iv using d(9) [of i row] by (auto simp: invite_fits_def has_key_map hs)
  qed (use d(1-3) in \<open>simp_all add: keep_only_def distinct_keys_filter\<close>)
qed

lemma drop_house_keep: "drop_house h s = keep_only (\<lambda>g. g \<noteq> h) (\<lambda>u. True) s"
  by (simp add: drop_house_def keep_only_def del_key_def)

lemma keep_only_keep_only: "keep_only P Q (keep_only P' Q' s) = keep_only (\<lambda>g. P g \<and> P' g) (\<lambda>u. Q u \<and> Q' u) s"
  by (simp add: keep_only_def split_def conj_ac)

lemma fold_drop_house: "fold drop_house hs s = keep_only (\<lambda>g. g \<notin> set hs) (\<lambda>u. True) s"
  by (induction hs arbitrary: s) (simp_all add: drop_house_keep keep_only_keep_only keep_only_def conj_commute split_def)

lemma house_cascade_keep:
  "house_cascade uid s = keep_only (\<lambda>g. g \<notin> fst ` set (filter (\<lambda>(h, row). hh_Owner row = uid) (hs_houses s))) (\<lambda>u. u \<noteq> uid) s"
  by (simp add: house_cascade_def fold_drop_house keep_only_def split_def conj_commute)

lemma DeleteUser_users: "DeleteUser actor uid db = (db', None) \<Longrightarrow> db_users db' = del_key uid (db_users db)"
  by (auto simp: DeleteUser_def DeleteAllForUser_def split: if_splits option.splits)

lemma ok_delete_user:
  assumes ok: "houses_ok sure s"
  shows "houses_ok sure (fst (house_delete_user c uid s))"
proof (cases "DeleteUser (Some (cl_p c)) uid (hs_auth s)")
  case (Pair db e)
  show ?thesis
  proof (cases e)
    case None
    have users: "db_users db = del_key uid (db_users (hs_auth s))" using DeleteUser_users Pair None by blast
    have "houses_ok sure (house_cascade uid (s\<lparr>hs_auth := db\<rparr>))"
      unfolding house_cascade_keep
    proof (rule ok_keep_only [OF ok])
      fix h row assume "map_of (hs_houses s) h = Some row"
      then have "(h, row) \<in> set (hs_houses s)" by (rule map_of_SomeD)
      then show "h \<notin> fst ` set (filter (\<lambda>(h, row). hh_Owner row = uid) (hs_houses (s\<lparr>hs_auth := db\<rparr>))) \<Longrightarrow> hh_Owner row \<noteq> uid"
        by (force simp: image_iff)
    qed (simp add: users has_key_iff)
    then show ?thesis using Pair None by (simp add: house_delete_user_def)
  qed (use ok Pair in \<open>simp add: house_delete_user_def\<close>)
qed

text \<open>Renaming and handing over.\<close>

lemma ok_house_row:
  assumes ok: "houses_ok False s" and h: "map_of (hs_houses s) h = Some row" and u: "has_key (hh_Owner row') (db_users (hs_auth s))"
    and other: "\<And>g r. g \<noteq> h \<Longrightarrow> map_of (hs_houses s) g = Some r \<Longrightarrow> hh_Owner r \<noteq> hh_Owner row'"
    and roles: "\<And>u m. map_of (hs_members s) (h, u) = Some m \<Longrightarrow> hm_Role m = ''owner'' \<Longrightarrow> u = hh_Owner row'"
    and seated: "\<And>g r. g \<noteq> h \<Longrightarrow> sure \<Longrightarrow> map_of (hs_houses s) g = Some r \<Longrightarrow> owner_seated s g r" "sure \<Longrightarrow> owner_seated s h row'"
  shows "houses_ok sure (s\<lparr>hs_houses := set_key h row' (hs_houses s)\<rparr>)"
proof -
  note d = houses_okD [OF ok]
  let ?s = "s\<lparr>hs_houses := set_key h row' (hs_houses s)\<rparr>"
  have seat: "owner_seated ?s g r = owner_seated s g r" for g r by (simp add: owner_seated_def)
  show ?thesis
  proof (rule houses_okI)
    fix g r g' r' assume a: "map_of (hs_houses ?s) g = Some r" "map_of (hs_houses ?s) g' = Some r'" "hh_Owner r = hh_Owner r'"
    show "g = g'"
      using a other [of g r] other [of g' r'] d(4) [of g r g' r'] by (cases "g = h"; cases "g' = h") auto
  next
    fix g r assume "map_of (hs_houses ?s) g = Some r"
    then show "has_key (hh_Owner r) (db_users (hs_auth ?s))" using u d(5) [of g r] by (cases "g = h") auto
  next
    fix g r assume "map_of (hs_houses ?s) g = Some r" sure
    then show "owner_seated ?s g r" unfolding seat using seated by (cases "g = h") auto
  next
    fix g v m assume a: "map_of (hs_members ?s) (g, v) = Some m"
    then show "member_fits ?s g v m" using d(8) [of g v m] roles [of v m] by (cases "g = h") (auto simp: member_fits_def)
  next
    fix g g' v m m' assume "map_of (hs_members ?s) (g, v) = Some m" "map_of (hs_members ?s) (g', v) = Some m'"
    then show "g = g'" using d(7) by simp
  next
    fix i r assume "map_of (hs_invites ?s) i = Some r"
    then show "invite_fits ?s r" using d(9) [of i r] by (auto simp: invite_fits_def has_key_map)
  qed (use d(1-3) in simp_all)
qed

lemma houses_ok_weaken: "houses_ok sure s \<Longrightarrow> houses_ok False s"
  unfolding houses_ok_def by blast

lemma ok_rename:
  assumes ok: "houses_ok sure s" and h: "map_of (hs_houses s) hid = Some h"
  shows "houses_ok sure (s\<lparr>hs_houses := set_key hid (h\<lparr>hh_Name := n\<rparr>) (hs_houses s)\<rparr>)"
proof (rule ok_house_row [OF houses_ok_weaken [OF ok] h])
  note d = houses_okD [OF ok]
  show "has_key (hh_Owner (h\<lparr>hh_Name := n\<rparr>)) (db_users (hs_auth s))" using d(5) [OF h] by simp
  show "hh_Owner r \<noteq> hh_Owner (h\<lparr>hh_Name := n\<rparr>)" if "g \<noteq> hid" "map_of (hs_houses s) g = Some r" for g r
    using that d(4) [OF that(2) h] by auto
  show "u = hh_Owner (h\<lparr>hh_Name := n\<rparr>)" if "map_of (hs_members s) (hid, u) = Some m" "hm_Role m = ''owner''" for u m
    using that d(8) [OF that(1)] h by (auto simp: member_fits_def)
  show "owner_seated s hid (h\<lparr>hh_Name := n\<rparr>)" if sure using d(6) [OF h that] by (simp add: owner_seated_def)
qed (use houses_okD(6) [OF ok] in blast)

lemma houses_okS: "houses_ok False s \<Longrightarrow> (\<And>h row. map_of (hs_houses s) h = Some row \<Longrightarrow> sure \<Longrightarrow> owner_seated s h row) \<Longrightarrow> houses_ok sure s"
  unfolding houses_ok_def by blast

lemma update_member_houses: "update_member h u f (s\<lparr>hs_houses := x\<rparr>) = (update_member h u f s)\<lparr>hs_houses := x\<rparr>"
  by (simp add: update_member_def split: option.split)

lemma update_member_tables [simp]:
  "hs_houses (update_member h u f s) = hs_houses s" "hs_auth (update_member h u f s) = hs_auth s" "hs_invites (update_member h u f s) = hs_invites s"
  "map_of (hs_members (update_member h u f s)) = (map_of (hs_members s))((h, u) := map_option f (map_of (hs_members s) (h, u)))"
  by (auto simp: update_member_def split: option.split)

lemma ok_transfer:
  assumes ok: "houses_ok sure s" and h: "map_of (hs_houses s) hid = Some row" "hh_Owner row = hh_Owner h"
    and q: "map_of (hs_members s) (hid, q) = Some m" and t: "transfer hid h q s = Some t"
  shows "houses_ok sure t"
proof -
  note d = houses_okD [OF ok]
  let ?adult = "\<lambda>m. m\<lparr>hm_Role := ''adult''\<rparr>" and ?owner = "\<lambda>m. m\<lparr>hm_Role := ''owner''\<rparr>" and ?row = "row\<lparr>hh_Owner := q\<rparr>"
  define s1 where "s1 = update_member hid (hh_Owner h) ?adult s"
  define s2 where "s2 = s1\<lparr>hs_houses := set_key hid ?row (hs_houses s1)\<rparr>"
  have t: "t = update_member hid q ?owner s2" and unique: "list_all (\<lambda>(g, r). g \<noteq> hid \<longrightarrow> hh_Owner r \<noteq> q) (hs_houses s)"
    using t h by (auto simp: transfer_def Let_def s1_def s2_def update_member_houses list_all_iff list_ex_iff split: if_splits)
  have "houses_ok False s1" unfolding s1_def
    by (rule ok_update_member [OF houses_ok_weaken [OF ok]]) (auto simp: member_fits_def known_roles_def)
  then have "houses_ok False s2" unfolding s2_def
  proof (rule ok_house_row [where row = row])
    show "map_of (hs_houses s1) hid = Some row" using h by (simp add: s1_def)
    show "has_key (hh_Owner ?row) (db_users (hs_auth s1))" using d(8) [OF q] by (simp add: member_fits_def s1_def)
    show "hh_Owner r \<noteq> hh_Owner ?row" if "g \<noteq> hid" "map_of (hs_houses s1) g = Some r" for g r
      using unique that map_of_SomeD [of "hs_houses s" g r] by (auto simp: s1_def list_all_iff)
    show "u = hh_Owner ?row" if "map_of (hs_members s1) (hid, u) = Some n" "hm_Role n = ''owner''" for u n
      using that d(8) [of hid u n] h by (auto simp: s1_def member_fits_def split: if_splits)
  qed simp_all
  then have "houses_ok False t" unfolding t
    by (rule ok_update_member) (auto simp: member_fits_def known_roles_def s2_def)
  moreover have "owner_seated t g r" if "map_of (hs_houses t) g = Some r" sure for g r
  proof (cases "g = hid")
    case True
    then have "hh_Owner r = q" using that(1) by (auto simp: t s2_def)
    then show ?thesis using q True by (auto simp: owner_seated_def t s2_def s1_def)
  next
    case False
    then have "owner_seated s g r" using that d(6) by (simp add: t s2_def s1_def)
    then show ?thesis using False by (auto simp: owner_seated_def t s2_def s1_def)
  qed
  ultimately show ?thesis by (rule houses_okS)
qed

section \<open>Routes keep it\<close>

lemma ok_issue: "houses_ok sure s \<Longrightarrow> houses_ok sure (fst (issueHouseholdInvite hid days role age iid tok now s))"
  by (auto simp: issueHouseholdInvite_def Let_def invite_fits_def MaxRatingAge_def dest: validHouseholdRole_known
      intro!: ok_invite split: option.split if_split)

lemma ok_accept_commit:
  assumes ok: "houses_ok sure s" and row: "map_of (hs_invites s) iid = Some row" and free: "household_of (p_UserID (cl_p c)) s = None"
  shows "houses_ok sure (fst (accept_commit c iid row s))"
proof -
  let ?u = "p_UserID (cl_p c)"
  let ?s = "use_invite iid (Some ?u) s"
  have used: "houses_ok sure ?s" by (rule ok_use_invite [OF ok])
  have tables: "hs_members (use_invite i q x) = hs_members x" for i q x by (simp add: use_invite_def split: option.split)
  have "invite_fits s row" using houses_okD(9) [OF ok row] .
  then have role: "hi_Role row \<in> known_roles" "hi_Role row \<noteq> ''owner''" "0 \<le> hi_AgeLimit row" "hi_AgeLimit row \<le> MaxRatingAge"
    by (auto simp: invite_fits_def)
  obtain s' b where i: "insert_member (hi_Household row) ?u (member_at (hi_Role row) (hi_AgeLimit row) None) ?s = (s', b)" by fastforce
  have "houses_ok sure s'"
    by (rule ok_insert_member [OF used i]) (use free role in \<open>auto simp: household_of_None tables member_at_def\<close>)
  then show ?thesis using ok i ok_use_invite by (auto simp: accept_commit_def split: bool.split)
qed

lemma accept_check_sound:
  assumes "accept_check c tok now s = Inr iid" "distinct (keys (hs_invites s))"
  shows "\<exists>row. map_of (hs_invites s) iid = Some row \<and> hi_TokenHash row = tok \<and> hi_UsedBy row = None \<and> now \<le> hi_ExpiresAt row"
    "household_of (p_UserID (cl_p c)) s = None" "\<not> cl_Temporary c"
proof -
  obtain row where f: "List.find (\<lambda>(i, row). hi_TokenHash row = tok \<and> hi_UsedBy row = None) (hs_invites s) = Some (iid, row)"
    "\<not> now > hi_ExpiresAt row" "household_of (p_UserID (cl_p c)) s = None" "\<not> cl_Temporary c"
    using assms(1) by (auto simp: accept_check_def split: option.splits if_splits)
  then have "(iid, row) \<in> set (hs_invites s)" "hi_TokenHash row = tok" "hi_UsedBy row = None"
    by (auto simp: find_Some_iff in_set_conv_nth)
  moreover from this(1) have "map_of (hs_invites s) iid = Some row" using assms(2) by (simp add: keys_def)
  ultimately show "\<exists>row. map_of (hs_invites s) iid = Some row \<and> hi_TokenHash row = tok \<and> hi_UsedBy row = None \<and> now \<le> hi_ExpiresAt row"
    "household_of (p_UserID (cl_p c)) s = None" "\<not> cl_Temporary c" using f by auto
qed

lemma ok_create:
  assumes ok: "houses_ok sure s" and "sure \<longrightarrow> seated"
  shows "houses_ok sure (fst (createHousehold c nm hid seated s))"
proof -
  let ?u = "p_UserID (cl_p c)"
  obtain s' b where i: "insert_house hid (trimSpace nm) ?u s = (s', b)" by fastforce
  show ?thesis
  proof (cases "household_of ?u s = None \<and> b")
    case True
    note n = ok_insert_house [OF ok, of hid "trimSpace nm" ?u s']
    have none: "household_of ?u s = None" using True by simp
    obtain s'' b' where m: "insert_member hid ?u (member_at ''owner'' 0 None) s' = (s'', b')" by fastforce
    have "b'"
      using i m True none by (auto simp: insert_house_def insert_member_def household_of_None has_key_map map_of_snoc simp del: map_of_append split: if_splits)
    then show ?thesis
      using n(1,2) [OF _ none] i m True assms by (cases seated) (auto simp: createHousehold_def)
  next
    case False
    have "s' = s" if "\<not> b" using i that by (auto simp: insert_house_def split: if_splits)
    then show ?thesis using False i ok by (auto simp: createHousehold_def split: bool.split)
  qed
qed

lemma ok_admin_create:
  assumes ok: "houses_ok sure s"
  shows "houses_ok sure (fst (adminCreateHousehold c nm owner hid s))"
proof -
  obtain s' b where i: "insert_house hid (trimSpace nm) owner s = (s', b)" by fastforce
  obtain s'' b' where m: "insert_member hid owner (member_at ''owner'' 0 None) s' = (s'', b')" by fastforce
  have "houses_ok sure s''" if "b" "b'" "household_of owner s = None"
    using ok_insert_house(2) [OF ok, of hid "trimSpace nm" owner s' s''] i m that by simp
  then show ?thesis using ok i m by (auto simp: adminCreateHousehold_def split: option.split bool.split)
qed

lemma ok_add_member:
  assumes ok: "houses_ok sure s"
  shows "houses_ok sure (fst (addHouseholdMember c uid role age s))"
proof (cases "ownerHousehold (p_UserID (cl_p c)) s")
  case (Some hid)
  note d = houses_okD [OF ok]
  have 1: "houses_ok sure (update_member hid uid (\<lambda>m. if hm_Role m = ''owner'' then m else m\<lparr>hm_Role := r, hm_AgeLimit := age\<rparr>) s)"
    if "validHouseholdRole role = Some r" "\<not> (age < 0 \<or> age > 21)" for r
    by (rule ok_update_member [OF ok]) (use that validHouseholdRole_known [OF that(1)] in \<open>auto simp: member_fits_def MaxRatingAge_def\<close>)
  have 2: "houses_ok sure s'"
    if "validHouseholdRole role = Some r" "\<not> (age < 0 \<or> age > 21)" "household_of uid s = None" "insert_member hid uid (member_at r age None) s = (s', b)" for r s' b
    by (rule ok_insert_member [OF ok that(4)]) (use that validHouseholdRole_known [OF that(1)] in \<open>auto simp: household_of_None member_at_def MaxRatingAge_def\<close>)
  show ?thesis
    using ok 1 2 Some by (auto simp: addHouseholdMember_def split: option.split prod.split)
qed (use ok in \<open>simp add: addHouseholdMember_def\<close>)

lemma ok_remove_member:
  assumes ok: "houses_ok sure s"
  shows "houses_ok sure (fst (removeHouseholdMember c uid s))"
proof (cases "ownerHousehold (p_UserID (cl_p c)) s")
  case (Some hid)
  obtain row where "map_of (hs_houses s) hid = Some row" "hh_Owner row = p_UserID (cl_p c)"
    using ownerHousehold_Some [OF Some houses_okD(1) [OF ok]] by blast
  then have "houses_ok sure (delete_member hid uid s)" if "uid \<noteq> p_UserID (cl_p c)"
    by (intro ok_delete_member [OF ok]) (use that houses_okD(8) [OF ok] in \<open>fastforce simp: member_fits_def\<close>)
  then show ?thesis using ok Some by (simp add: removeHouseholdMember_def)
qed (use ok in \<open>simp add: removeHouseholdMember_def\<close>)

lemma ok_admin_patch_member:
  assumes ok: "houses_ok sure s"
  shows "houses_ok sure (fst (adminPatchHouseholdMember c hid uid role age s))"
proof -
  have "houses_ok sure (update_member hid uid (\<lambda>m. m\<lparr>hm_Role := r, hm_AgeLimit := (case age of Some n \<Rightarrow> n | None \<Rightarrow> hm_AgeLimit m)\<rparr>) s)"
    if "map_of (hs_members s) (hid, uid) = Some m" "\<not> (role \<noteq> None \<and> hm_Role m = ''owner'')"
      "(case role of None \<Rightarrow> Some (hm_Role m) | Some r \<Rightarrow> validHouseholdRole r) = Some r" "\<not> (case age of Some n \<Rightarrow> n < 0 \<or> n > MaxRatingAge | None \<Rightarrow> False)"
    for m r
  proof (rule ok_update_member [OF ok])
    have "r \<in> known_roles" "hm_Role m = ''owner'' \<longleftrightarrow> r = ''owner''"
      using that(2,3) validHouseholdRole_known houses_okD(8) [OF ok that(1)] by (auto simp: member_fits_def split: option.splits)
    then show "member_fits s hid uid m' \<Longrightarrow> member_fits s hid uid (m'\<lparr>hm_Role := r, hm_AgeLimit := (case age of Some n \<Rightarrow> n | None \<Rightarrow> hm_AgeLimit m')\<rparr>)"
      "hm_Role m' = ''owner'' \<Longrightarrow> hm_Role (m'\<lparr>hm_Role := r, hm_AgeLimit := (case age of Some n \<Rightarrow> n | None \<Rightarrow> hm_AgeLimit m')\<rparr>) = ''owner''"
      if "map_of (hs_members s) (hid, uid) = Some m'" for m'
      using that \<open>map_of (hs_members s) (hid, uid) = Some m\<close> \<open>\<not> (case age of Some n \<Rightarrow> n < 0 \<or> n > MaxRatingAge | None \<Rightarrow> False)\<close>
      by (auto simp: member_fits_def split: option.splits)
  qed
  then show ?thesis using ok by (auto simp: adminPatchHouseholdMember_def split: option.split)
qed

lemma ok_admin_move:
  assumes ok: "houses_ok sure s"
  shows "houses_ok sure (fst (adminMoveHouseholdMember c hid uid target s))"
proof -
  note d = houses_okD [OF ok]
  have "houses_ok sure t"
    if m: "map_of (hs_members s) (hid, uid) = Some m" "hm_Role m \<noteq> ''owner''"
      and i: "insert_member target uid (member_at (hm_Role m) (hm_AgeLimit m) (hm_ExpiresAt m)) (delete_member hid uid s) = (t, b)" for m t b
  proof (rule ok_insert_member [OF ok_delete_member [OF ok] i])
    show "\<forall>h. map_of (hs_members (delete_member hid uid s)) (h, uid) = None"
      using d(7) [OF m(1)] by (auto simp: delete_member_def) (metis not_None_eq)
  qed (use m d(8) [OF m(1)] in \<open>auto simp: member_at_def member_fits_def\<close>)
  then show ?thesis using ok by (auto simp: adminMoveHouseholdMember_def split: option.split prod.split bool.split)
qed

lemma ok_admin_patch:
  assumes ok: "houses_ok sure s"
  shows "houses_ok sure (fst (adminPatchHousehold c hid nm owner s))"
proof (cases "map_of (hs_houses s) hid")
  case (Some h)
  define named where "named = (case nm of None \<Rightarrow> s | Some n \<Rightarrow> s\<lparr>hs_houses := set_key hid (h\<lparr>hh_Name := trimSpace n\<rparr>) (hs_houses s)\<rparr>)"
  have named: "houses_ok sure named" using ok ok_rename [OF ok Some] by (simp add: named_def split: option.split)
  have row: "\<exists>row. map_of (hs_houses named) hid = Some row \<and> hh_Owner row = hh_Owner h" "hs_members named = hs_members s"
    using Some by (auto simp: named_def split: option.split)
  have "houses_ok sure t" if "owner_candidate c hid h q s = None" "transfer hid h q named = Some t" for q t
    using ok_transfer [OF named] row that by (fastforce simp: owner_candidate_def split: option.splits if_splits)
  then show ?thesis
    using ok named Some by (cases nm) (auto simp: adminPatchHousehold_def Let_def named_def split: option.split)
qed (use ok in \<open>simp add: adminPatchHousehold_def\<close>)

lemma ok_accept:
  assumes ok: "houses_ok sure s"
  shows "houses_ok sure (fst (acceptHouseholdInvite c tok tokenHash now s))"
  using ok accept_check_sound [OF _ houses_okD(3) [OF ok]] ok_accept_commit [OF ok]
  by (fastforce simp: acceptHouseholdInvite_def split: sum.split)

lemma ok_handle:
  assumes ok: "houses_ok sure s" and "\<And>nm hid seated. act = HouseCreate nm hid seated \<Longrightarrow> sure \<longrightarrow> seated"
  shows "houses_ok sure (fst (handle_house act c now s))"
proof (cases act)
  case (HouseInvite days role age iid tok)
  then show ?thesis using ok ok_issue by (simp add: createHouseholdInvite_def split: option.split)
next
  case (HouseAdminDelete hid)
  have "houses_ok sure (drop_house hid s)"
    using ok_keep_only [OF ok, of "\<lambda>u. True" "hs_auth s" "\<lambda>g. g \<noteq> hid"] by (simp add: drop_house_keep)
  then show ?thesis using ok HouseAdminDelete by (simp add: adminDeleteHousehold_def split: option.split)
next
  case (HouseAdminInvite hid days role age iid tok)
  then show ?thesis using ok ok_issue by (simp add: adminCreateHouseholdInvite_def)
next
  case (HouseAdminRemove hid uid)
  have "houses_ok sure (delete_member hid uid s)" if "map_of (hs_members s) (hid, uid) = Some m" "hm_Role m \<noteq> ''owner''" for m
    by (rule ok_delete_member [OF ok]) (use that in simp)
  then show ?thesis using ok HouseAdminRemove by (auto simp: adminRemoveHouseholdMember_def split: option.split)
qed (use assms ok_create [OF ok] ok_add_member [OF ok] ok_remove_member [OF ok] ok_accept [OF ok] ok_admin_create [OF ok] ok_admin_patch [OF ok]
        ok_admin_patch_member [OF ok] ok_admin_move [OF ok] ok_delete_user [OF ok] in simp_all)

section \<open>The machine\<close>

text \<open>A request is an action, a path, a caller and a time. When the database is \<open>sure\<close>, it carries out the second
  statement of a new household.\<close>

definition house_step :: "bool \<Rightarrow> house_db \<Rightarrow> house_action \<times> string \<times> caller option \<times> gtime \<Rightarrow> house_db" where
  "house_step sure s e =
     (case e of (act, path, c, now) \<Rightarrow>
        fst (serve_house (case act of HouseCreate nm hid seated \<Rightarrow> HouseCreate nm hid (seated \<or> sure) | _ \<Rightarrow> act) path c now s))"

lemma ok_serve:
  assumes "houses_ok sure s" and "\<And>nm hid seated. act = HouseCreate nm hid seated \<Longrightarrow> sure \<longrightarrow> seated"
  shows "houses_ok sure (fst (serve_house act path c now s))"
  using ok_handle [OF assms] assms(1) by (simp add: serve_house_def split: option.split)

lemma house_step_ok: "houses_ok sure s \<Longrightarrow> houses_ok sure (house_step sure s e)"
  by (cases e; cases "fst e") (auto simp: house_step_def intro!: ok_serve)

interpretation houses: invariant_machine "house_step sure" "houses_ok sure"
  by unfold_locales (rule house_step_ok)

lemma houses_ok_start: "hs_houses s = [] \<Longrightarrow> hs_members s = [] \<Longrightarrow> hs_invites s = [] \<Longrightarrow> houses_ok sure s"
  by (simp add: houses_ok_def keys_def)

end
