(* ===== verification/Rating.thy ===== *)
theory Rating
  imports Household Move_Files
begin

text \<open>
  Content ratings and who may watch what (\<^verbatim>\<open>src/internal/library/ratings.go\<close>). A rating is the least age of a
  viewer, absent for an unrated title. A viewer is restricted by the limit of the account and by that of the
  household, the lowest of them above zero; \<open>up\<close> says whether the database answers. Certifications are
  mapped to ages by tables. Letters beyond ASCII keep their case.
\<close>

datatype rating_error = ErrUnavailable | ErrInvalidRating | ErrTitleNotFound

section \<open>Restrictions\<close>

record restriction =
  re_MaxAge :: int
  re_UserLimit :: int
  re_HouseholdLimit :: int
  re_BlockUnrated :: bool

definition Restr_Active :: "restriction \<Rightarrow> bool" where
  "Restr_Active r \<longleftrightarrow> re_MaxAge r > 0"

definition Restr_Permits :: "restriction \<Rightarrow> int option \<Rightarrow> bool" where
  "Restr_Permits r age \<longleftrightarrow>
     (if \<not> Restr_Active r then True
      else (case age of None \<Rightarrow> \<not> re_BlockUnrated r | Some a \<Rightarrow> a \<le> re_MaxAge r))"

text \<open>\<^verbatim>\<open>SQLFilter\<close> gives the arguments of a condition on a rating, which the database evaluates in three-valued
  logic: \<^verbatim>\<open>(expr <= ? OR (expr IS NULL AND 1 = ?))\<close>. A row is kept when the condition is true.\<close>

definition SQLFilter :: "restriction \<Rightarrow> (int \<times> int) option" where
  "SQLFilter r = (if \<not> Restr_Active r then None else Some (re_MaxAge r, if re_BlockUnrated r then 0 else 1))"

definition sql_or :: "bool option \<Rightarrow> bool option \<Rightarrow> bool option" where
  "sql_or p q = (if p = Some True \<or> q = Some True then Some True else if p = None \<or> q = None then None else Some False)"

definition sql_keeps :: "(int \<times> int) option \<Rightarrow> int option \<Rightarrow> bool" where
  "sql_keeps f age =
     (case f of
        None \<Rightarrow> True
      | Some (maxAge, allow) \<Rightarrow> sql_or (map_option (\<lambda>a. a \<le> maxAge) age) (Some (age = None \<and> 1 = allow)) = Some True)"

definition lowestPositive :: "int \<Rightarrow> int \<Rightarrow> int" where
  "lowestPositive a b = (if a \<le> 0 then max b 0 else if b \<le> 0 then a else min a b)"

definition household_limit :: "string \<Rightarrow> gtime \<Rightarrow> house_db \<Rightarrow> int" where
  "household_limit uid now s =
     (let ages = List.map_filter (\<lambda>((h, u), m).
            if u = uid \<and> hm_AgeLimit m > 0 \<and> (case hm_ExpiresAt m of None \<Rightarrow> True | Some e \<Rightarrow> e > whole_seconds now)
            then Some (hm_AgeLimit m) else None) (hs_members s)
      in case ages of [] \<Rightarrow> 0 | a # as \<Rightarrow> fold min as a)"

definition RestrictionFor :: "bool \<Rightarrow> bool \<Rightarrow> string \<Rightarrow> gtime \<Rightarrow> house_db \<Rightarrow> rating_error + restriction" where
  "RestrictionFor up block uid now s =
     (let none = \<lparr>re_MaxAge = 0, re_UserLimit = 0, re_HouseholdLimit = 0, re_BlockUnrated = block\<rparr>
      in if uid = [] then Inr none
         else if \<not> up then Inl ErrUnavailable
         else (case map_of (db_users (hs_auth s)) uid of
                 None \<Rightarrow> Inr none
               | Some u \<Rightarrow>
                   (let house = household_limit uid now s
                    in Inr \<lparr>re_MaxAge = lowestPositive (ac_AgeLimit u) house, re_UserLimit = ac_AgeLimit u,
                            re_HouseholdLimit = house, re_BlockUnrated = block\<rparr>)))"

section \<open>Ratings of titles and files\<close>

definition ItemRating :: "bool \<Rightarrow> catalogue \<Rightarrow> string \<Rightarrow> string \<Rightarrow> rating_error + string \<times> int option" where
  "ItemRating up ct kind iid =
     (if kind \<notin> {''movie'', ''series'', ''episode''} then Inl ErrTitleNotFound
      else if \<not> up then Inl ErrUnavailable
      else (case (if kind = ''episode'' then map_option (\<lambda>ep. (''series'', ep_Series ep)) (map_of (ct_episodes ct) iid)
                  else Some (kind, iid)) of
              None \<Rightarrow> Inl ErrTitleNotFound
            | Some key \<Rightarrow> (case map_of (ct_titles ct) key of None \<Rightarrow> Inl ErrTitleNotFound | Some t \<Rightarrow> Inr (tr_Library t, tr_RatingAge t))))"

definition series_ages :: "catalogue \<Rightarrow> string \<Rightarrow> int list" where
  "series_ages ct fid =
     List.map_filter (\<lambda>(f, e).
        if f \<noteq> fid then None
        else (case map_of (ct_episodes ct) e of
                None \<Rightarrow> None
              | Some ep \<Rightarrow> (case map_of (ct_titles ct) (''series'', ep_Series ep) of None \<Rightarrow> None | Some t \<Rightarrow> tr_RatingAge t)))
       (ct_links ct)"

definition fileRating :: "bool \<Rightarrow> catalogue \<Rightarrow> string \<Rightarrow> rating_error + int option" where
  "fileRating up ct fid =
     (if \<not> up then Inl ErrUnavailable
      else (case map_of (ct_media ct) fid of
              None \<Rightarrow> Inl ErrTitleNotFound
            | Some m \<Rightarrow>
                (let movieAge = (case map_of (ct_titles ct) (''movie'', mf_Movie m) of None \<Rightarrow> None | Some t \<Rightarrow> tr_RatingAge t);
                     seriesAge = (case series_ages ct fid of [] \<Rightarrow> None | a # as \<Rightarrow> Some (fold max as a))
                 in Inr (case (movieAge, seriesAge) of
                           (Some a, Some b) \<Rightarrow> Some (max a b) | (Some a, None) \<Rightarrow> Some a | (None, b) \<Rightarrow> b))))"

definition PlaybackPermitted :: "bool \<Rightarrow> bool \<Rightarrow> catalogue \<Rightarrow> gtime \<Rightarrow> house_db \<Rightarrow> string \<Rightarrow> string \<Rightarrow> bool" where
  "PlaybackPermitted up block ct now s uid fid \<longleftrightarrow>
     (case RestrictionFor up block uid now s of
        Inl e \<Rightarrow> False
      | Inr r \<Rightarrow> if \<not> Restr_Active r then True
                 else (case fileRating up ct fid of Inl e \<Rightarrow> False | Inr age \<Rightarrow> Restr_Permits r age))"

definition ItemPermitted :: "bool \<Rightarrow> bool \<Rightarrow> catalogue \<Rightarrow> gtime \<Rightarrow> house_db \<Rightarrow> string \<Rightarrow> string \<Rightarrow> string \<Rightarrow> rating_error + bool" where
  "ItemPermitted up block ct now s uid kind iid =
     (case RestrictionFor up block uid now s of
        Inl e \<Rightarrow> Inl e
      | Inr r \<Rightarrow> if \<not> Restr_Active r then Inr True
                 else (case ItemRating up ct kind iid of Inl e \<Rightarrow> Inl e | Inr (lib, age) \<Rightarrow> Inr (Restr_Permits r age)))"

text \<open>\<open>granted\<close> is the list of libraries in the context of a request, absent when every library may be seen.\<close>

record visibility =
  vi_rest :: restriction
  vi_granted :: "string list option"

definition NewVisibility :: "bool \<Rightarrow> bool \<Rightarrow> string \<Rightarrow> string list option \<Rightarrow> gtime \<Rightarrow> house_db \<Rightarrow> rating_error + visibility" where
  "NewVisibility up block uid granted now s =
     (case RestrictionFor up block uid now s of Inl e \<Rightarrow> Inl e | Inr r \<Rightarrow> Inr \<lparr>vi_rest = r, vi_granted = granted\<rparr>)"

definition Visibility_Item :: "bool \<Rightarrow> catalogue \<Rightarrow> visibility \<Rightarrow> string \<Rightarrow> string \<Rightarrow> rating_error + bool" where
  "Visibility_Item up ct v kind iid =
     (case ItemRating up ct kind iid of
        Inl e \<Rightarrow> if e = ErrTitleNotFound then Inr False else Inl e
      | Inr (lib, age) \<Rightarrow>
          if (case vi_granted v of None \<Rightarrow> False | Some libs \<Rightarrow> lib \<notin> set libs) then Inr False
          else Inr (Restr_Permits (vi_rest v) age))"

definition visible :: "bool \<Rightarrow> bool \<Rightarrow> catalogue \<Rightarrow> string \<Rightarrow> string list option \<Rightarrow> gtime \<Rightarrow> house_db \<Rightarrow> string \<Rightarrow> string \<Rightarrow> rating_error option" where
  "visible up block ct uid granted now s kind iid =
     (if uid = [] \<and> granted = None then None
      else (case ItemRating up ct kind iid of
              Inl e \<Rightarrow> Some e
            | Inr (lib, age) \<Rightarrow>
                if (case granted of None \<Rightarrow> False | Some libs \<Rightarrow> lib \<notin> set libs) then Some ErrTitleNotFound
                else (case RestrictionFor up block uid now s of
                        Inl e \<Rightarrow> Some e
                      | Inr r \<Rightarrow> if \<not> Restr_Permits r age then Some ErrTitleNotFound else None)))"

section \<open>Setting ratings\<close>

definition ratingTable :: "string \<Rightarrow> bool" where
  "ratingTable kind \<longleftrightarrow> kind = ''movie'' \<or> kind = ''series''"

definition update_title :: "bool \<Rightarrow> string \<Rightarrow> string \<Rightarrow> (title_row \<Rightarrow> title_row) \<Rightarrow> catalogue \<Rightarrow> catalogue \<times> rating_error option" where
  "update_title up kind iid f ct =
     (if \<not> up then (ct, Some ErrUnavailable)
      else (case map_of (ct_titles ct) (kind, iid) of
              None \<Rightarrow> (ct, Some ErrTitleNotFound)
            | Some t \<Rightarrow> (ct\<lparr>ct_titles := set_key (kind, iid) (f t) (ct_titles ct)\<rparr>, None)))"

definition SetRating :: "bool \<Rightarrow> string \<Rightarrow> string \<Rightarrow> string \<Rightarrow> int option \<Rightarrow> catalogue \<Rightarrow> catalogue \<times> rating_error option" where
  "SetRating up kind iid rating age ct =
     (if \<not> ratingTable kind then (ct, Some ErrTitleNotFound)
      else if (case age of Some a \<Rightarrow> a < 0 \<or> a > MaxRatingAge | None \<Rightarrow> False) then (ct, Some ErrInvalidRating)
      else update_title up kind iid (\<lambda>t. t\<lparr>tr_Rating := trimSpace rating, tr_RatingAge := age, tr_RatingSource := ''admin''\<rparr>) ct)"

definition ResetRating :: "bool \<Rightarrow> string \<Rightarrow> string \<Rightarrow> catalogue \<Rightarrow> catalogue \<times> rating_error option" where
  "ResetRating up kind iid ct =
     (if \<not> ratingTable kind then (ct, Some ErrTitleNotFound)
      else update_title up kind iid (\<lambda>t. t\<lparr>tr_Rating := [], tr_RatingAge := None, tr_RatingSource := []\<rparr>) ct)"

section \<open>Certifications\<close>

definition ascii_upper :: "char \<Rightarrow> char" where
  "ascii_upper c = (if 97 \<le> byte c \<and> byte c \<le> 122 then char_of (byte c - 32) else c)"

definition toUpper :: "string \<Rightarrow> string" where
  "toUpper s = map ascii_upper s"

definition certAges :: "(string \<times> (string \<times> int) list) list" where
  "certAges =
    [(''US'', [(''G'', 0), (''PG'', 10), (''PG-13'', 13), (''R'', 17), (''NC-17'', 18),
       (''TV-Y'', 0), (''TV-Y7'', 7), (''TV-Y7-FV'', 7), (''TV-G'', 0), (''TV-PG'', 10), (''TV-14'', 14), (''TV-MA'', 17)]),
     (''GB'', [(''U'', 0), (''UC'', 0), (''PG'', 8), (''12A'', 12), (''12'', 12), (''15'', 15), (''18'', 18), (''R18'', 18)]),
     (''AU'', [(''E'', 0), (''G'', 0), (''PG'', 8), (''M'', 15), (''MA15+'', 15), (''MA 15+'', 15), (''AV15+'', 15), (''R18+'', 18),
       (''R 18+'', 18), (''X18+'', 18), (''C'', 0), (''P'', 0)]),
     (''NZ'', [(''G'', 0), (''PG'', 8), (''M'', 16), (''R13'', 13), (''RP13'', 13), (''R15'', 15), (''R16'', 16), (''RP16'', 16),
       (''R18'', 18), (''RP18'', 18), (''R'', 18)]),
     (''CA'', [(''G'', 0), (''PG'', 8), (''14A'', 14), (''18A'', 18), (''R'', 18), (''A'', 18), (''E'', 0), (''C'', 0), (''C8'', 8),
       (''14+'', 14), (''18+'', 18)]),
     (''IE'', [(''G'', 0), (''PG'', 8), (''12A'', 12), (''15A'', 15), (''16'', 16), (''18'', 18)]),
     (''DE'', [(''0'', 0), (''6'', 6), (''12'', 12), (''16'', 16), (''18'', 18)]),
     (''FR'', [(''U'', 0), (''TP'', 0), (''10'', 10), (''12'', 12), (''16'', 16), (''18'', 18)]),
     (''NL'', [(''AL'', 0), (''6'', 6), (''9'', 9), (''12'', 12), (''14'', 14), (''16'', 16), (''18'', 18)]),
     (''BR'', [(''L'', 0), (''10'', 10), (''12'', 12), (''14'', 14), (''16'', 16), (''18'', 18)]),
     (''JP'', [(''G'', 0), (''PG12'', 12), (''R15+'', 15), (''R18+'', 18)])]"

definition unratedCerts :: "string list" where
  "unratedCerts = [''NR'', ''UR'', ''NOT RATED'', ''UNRATED'', ''TBC'']"

definition cert_in :: "string \<Rightarrow> string \<Rightarrow> int option" where
  "cert_in country c = (case map_of certAges country of None \<Rightarrow> None | Some tab \<Rightarrow> map_of tab c)"

fun certDigits :: "string \<Rightarrow> int option" where
  "certDigits [] = None"
| "certDigits (c # cs) =
     (case digit_val c of
        None \<Rightarrow> certDigits cs
      | Some d \<Rightarrow> (case cs of [] \<Rightarrow> Some d | e # es \<Rightarrow> (case digit_val e of None \<Rightarrow> Some d | Some d' \<Rightarrow> Some (10 * d + d'))))"

definition cert_fallback :: "string \<Rightarrow> int option" where
  "cert_fallback c =
     (if c \<in> {''ALL'', ''AL'', ''L'', ''U'', ''G'', ''E'', ''TP''} then Some 0
      else (case certDigits c of Some age \<Rightarrow> if age \<le> MaxRatingAge then Some age else None | None \<Rightarrow> None))"

definition CertificationAge :: "string \<Rightarrow> string \<Rightarrow> int option" where
  "CertificationAge country cert =
     (let c = toUpper (trimSpace cert); country = toUpper (trimSpace country)
      in if c = [] \<or> c \<in> set unratedCerts then None
         else (case cert_in country c of
                 Some age \<Rightarrow> Some age
               | None \<Rightarrow>
                   (case (if country = [] then List.map_filter (\<lambda>code. cert_in code c) [''US'', ''GB'', ''AU'', ''CA'', ''NZ'', ''IE''] else []) of
                      age # _ \<Rightarrow> Some age
                    | [] \<Rightarrow> cert_fallback c)))"

end
