(* ===== verification/Household_Properties.thy ===== *)
theory Household_Properties
  imports Household_Safety Rating Playback
begin

text \<open>
  What households and ratings promise: nobody is in two households, nobody joins one without their
  consent or an administrator, a viewer sees nothing above any of their limits, and the condition given to
  the database agrees with the check in the program. Some theorems state gaps. Concrete households at the end.
\<close>

section \<open>Households\<close>


lemma insert_member_cases:
  "insert_member h v m s = (t, b) \<Longrightarrow>
   \<not> b \<and> t = s \<or> b \<and> hs_invites t = hs_invites s \<and> (\<forall>x. x \<noteq> (h, v) \<longrightarrow> map_of (hs_members t) x = map_of (hs_members s) x) \<and> map_of (hs_members t) (h, v) = Some m"
  by (auto simp: insert_member_def has_key_map map_add_def split: if_splits option.splits)

lemma use_invite_tables: "hs_members (use_invite i q s) = hs_members s" "map_of (hs_invites s) i = Some row \<Longrightarrow> map_of (hs_invites (use_invite i q s)) i = Some (row\<lparr>hi_UsedBy := q\<rparr>)"
  by (simp_all add: use_invite_def split: option.split)

lemma accept_commit_joins:
  assumes "t = fst (accept_commit q iid row s)" "map_of (hs_invites s) iid = Some row" "\<And>h. map_of (hs_members s) (h, u) = None"
    and "map_of (hs_members t) (h, u) \<noteq> None"
  shows "p_UserID (cl_p q) = u \<and> map_of (hs_invites t) iid = Some (row\<lparr>hi_UsedBy := Some u\<rparr>) \<and>
    map_of (hs_members t) (hi_Household row, u) = Some (member_at (hi_Role row) (hi_AgeLimit row) None)"
proof -
  let ?v = "p_UserID (cl_p q)"
  obtain s' b where i: "insert_member (hi_Household row) ?v (member_at (hi_Role row) (hi_AgeLimit row) None) (use_invite iid (Some ?v) s) = (s', b)" by fastforce
  have t: "t = s \<or> b \<and> t = s' \<or> \<not> b \<and> t = use_invite iid None s'"
    using assms(1) i by (simp add: accept_commit_def split: if_splits bool.splits)
  note c = insert_member_cases [OF i]
  have b: "b \<and> t = s'" using t c assms(3) [of h] assms(4) use_invite_tables(1) by fastforce
  have "u = ?v"
  proof (rule ccontr)
    assume "u \<noteq> ?v"
    then have "map_of (hs_members s') (h, u) = map_of (hs_members (use_invite iid (Some ?v) s)) (h, u)" using c b by auto
    then show False using assms(3,4) b by (simp add: use_invite_tables)
  qed
  then show ?thesis using c b use_invite_tables(2) [OF assms(2), of "Some ?v"] by simp
qed

text \<open>C34. Who was in no household and is in one after a request created it, accepted an invitation that was unused and
  unexpired and now says who used it, or the request was made by someone who manages users.\<close>

theorem joins_need_consent:
  assumes ok: "houses_ok sure s" and act: "serve_house act path c now s = (t, st)"
    and out: "household_of u s = None" and joined: "household_of u t \<noteq> None"
  shows "\<exists>q. c = Some q \<and>
    (HasPerm (Some (cl_p q)) ''users.manage'' \<or>
     p_UserID (cl_p q) = u \<and> \<not> cl_Temporary q \<and>
     ((\<exists>nm hid. act = HouseCreate nm hid True) \<or>
      (\<exists>tok th iid row. act = HouseAccept tok th \<and> map_of (hs_invites s) iid = Some row \<and> hi_TokenHash row = th \<and> hi_UsedBy row = None \<and>
         now \<le> hi_ExpiresAt row \<and> map_of (hs_invites t) iid = Some (row\<lparr>hi_UsedBy := Some u\<rparr>) \<and>
         map_of (hs_members t) (hi_Household row, u) = Some (member_at (hi_Role row) (hi_AgeLimit row) None))))"
proof (cases "serve_house act path c now s")
  case (Pair t' st')
  have none: "map_of (hs_members s) (h, u) = None" for h using out by (simp add: household_of_None)
  obtain q where c: "c = Some q" and t: "t = fst (handle_house act q now s)"
    and guard: "(if admin_action act then RequirePerm PermUsersManage c else RequireUser path c) = None"
    using act out joined by (auto simp: serve_house_def split: option.splits if_splits)
  have user: "IsUser (Some (cl_p q))" using guard c by (auto simp: RequirePerm_def RequireUser_def split: if_splits)
  show ?thesis
  proof (cases "HasPerm (Some (cl_p q)) ''users.manage''")
    case False
    then have plain: "\<not> admin_action act" "\<not> p_IsAdmin (cl_p q)"
      using guard c user by (auto simp: RequirePerm_def PermUsersManage_def HasPerm_def split: if_splits)
    have stays: False if "hs_members t = hs_members s \<or> (\<exists>h v. t = delete_member h v s)" using that joined none
      by (auto simp: household_of_None delete_member_def split: if_splits)
    show ?thesis
    proof (cases act)
      case (HouseCreate nm hid seated)
      then show ?thesis
        using t joined none c
        by (cases seated) (auto simp: createHousehold_def insert_house_def household_of_None dest: insert_member_cases split: if_splits prod.splits bool.splits)
    next
      case (HouseAdd uid role age)
      then show ?thesis
        using t joined none plain False
        by (simp add: addHouseholdMember_def PermUsersManage_def household_of_None split: if_splits option.splits)
    next
      case (HouseRemove uid)
      then show ?thesis using t stays by (auto simp: removeHouseholdMember_def split: if_splits option.splits)
    next
      case (HouseInvite days role age iid tok)
      then show ?thesis using t stays by (auto simp: createHouseholdInvite_def issueHouseholdInvite_def Let_def split: if_splits option.splits)
    next
      case (HouseAccept tok th)
      then obtain iid where chk: "accept_check q th now s = Inr iid" and t': "t = fst (accept_commit q iid (the (map_of (hs_invites s) iid)) s)"
        using t joined out by (auto simp: acceptHouseholdInvite_def split: if_splits sum.splits)
      obtain row where row: "map_of (hs_invites s) iid = Some row" "hi_TokenHash row = th" "hi_UsedBy row = None" "now \<le> hi_ExpiresAt row"
        using accept_check_sound(1) [OF chk houses_okD(3) [OF ok]] by blast
      have "p_UserID (cl_p q) = u \<and> map_of (hs_invites t) iid = Some (row\<lparr>hi_UsedBy := Some u\<rparr>) \<and>
          map_of (hs_members t) (hi_Household row, u) = Some (member_at (hi_Role row) (hi_AgeLimit row) None)"
        using t' row(1) joined none accept_commit_joins [of t q iid row s u] by (auto simp: household_of_None)
      then show ?thesis using HouseAccept c row accept_check_sound(3) [OF chk houses_okD(3) [OF ok]] by blast
    qed (use plain in \<open>simp_all add: admin_action_def\<close>)
  qed (use c in simp)
qed

text \<open>A gap: two invitations accepted at the same time put one person into two households, because no key forbids it and
  each request checks before the other writes.\<close>

theorem two_invites_two_households:
  assumes ok: "houses_ok sure s" and check: "accept_check c tok1 now s = Inr i1" "accept_check c tok2 now s = Inr i2"
    and rows: "map_of (hs_invites s) i1 = Some row1" "map_of (hs_invites s) i2 = Some row2" "hi_Household row1 \<noteq> hi_Household row2"
    and u: "has_key (p_UserID (cl_p c)) (db_users (hs_auth s))"
    and first: "(t1, st1) = accept_commit c i1 row1 s" and second: "(t2, st2) = accept_commit c i2 row2 t1"
  shows "st1 = 200 \<and> st2 = 200 \<and> map_of (hs_members t2) (hi_Household row1, p_UserID (cl_p c)) \<noteq> None \<and>
    map_of (hs_members t2) (hi_Household row2, p_UserID (cl_p c)) \<noteq> None \<and> \<not> houses_ok sure t2"
proof -
  let ?u = "p_UserID (cl_p c)"
  note d = houses_okD [OF ok]
  have unused: "hi_UsedBy row1 = None" "hi_UsedBy row2 = None"
    using accept_check_sound(1) [OF check(1) d(3)] accept_check_sound(1) [OF check(2) d(3)] rows by auto
  have none: "map_of (hs_members s) (h, ?u) = None" for h using accept_check_sound(2) [OF check(1) d(3)] by (simp add: household_of_None)
  have houses: "has_key (hi_Household row1) (hs_houses s)" "has_key (hi_Household row2) (hs_houses s)"
    using d(9) [OF rows(1)] d(9) [OF rows(2)] by (simp_all add: invite_fits_def)
  have i: "i1 \<noteq> i2" using rows by auto
  have t1: "st1 = 200" "t1 = (use_invite i1 (Some ?u) s)\<lparr>hs_members := hs_members s @ [((hi_Household row1, ?u), member_at (hi_Role row1) (hi_AgeLimit row1) None)]\<rparr>"
    using first rows unused none houses u by (auto simp: accept_commit_def use_invite_def insert_member_def has_key_map)
  have t2: "st2 = 200" "hs_members t2 = hs_members t1 @ [((hi_Household row2, ?u), member_at (hi_Role row2) (hi_AgeLimit row2) None)]"
    using second t1 rows unused none houses u i
    by (auto simp: accept_commit_def use_invite_def insert_member_def has_key_map map_of_snoc simp del: map_of_append)
  have both: "map_of (hs_members t2) (hi_Household row1, ?u) \<noteq> None" "map_of (hs_members t2) (hi_Household row2, ?u) \<noteq> None"
    using none rows(3) by (simp_all add: t1 t2 map_add_def)
  then have "\<not> houses_ok sure t2" using rows(3) houses_okD(7) by blast
  then show ?thesis using both t1 t2 by simp
qed

text \<open>A gap: when the second insert of a new household fails, its creator owns a household they are not in: they cannot
  manage it, and cannot create another.\<close>

theorem half_created_household:
  assumes "\<not> cl_Temporary c" "trimSpace nm \<noteq> []" "household_of (p_UserID (cl_p c)) s = None" "has_key (p_UserID (cl_p c)) (db_users (hs_auth s))"
    and "\<not> has_key hid (hs_houses s)" and free: "list_all (\<lambda>(h, row). hh_Owner row \<noteq> p_UserID (cl_p c)) (hs_houses s)"
    and t: "(t, st) = createHousehold c nm hid False s" and again: "trimSpace nm' \<noteq> []"
  shows "st = 500 \<and> ownerHousehold (p_UserID (cl_p c)) t = None \<and> createHousehold c nm' hid' seated t = (t, 500)"
proof -
  let ?u = "p_UserID (cl_p c)"
  have none: "map_of (hs_members s) (h, ?u) = None" for h using assms(3) by (simp add: household_of_None)
  have t': "t = s\<lparr>hs_houses := hs_houses s @ [(hid, \<lparr>hh_Name = trimSpace nm, hh_Owner = ?u\<rparr>)]\<rparr>" and st: "st = 500"
    using t assms(1-5) free by (auto simp: createHousehold_def insert_house_def list_ex_iff list_all_iff split: if_splits)
  have "ownerHousehold ?u t = None" using none by (auto simp: ownerHousehold_def t' find_None_iff)
  moreover have "household_of ?u t = None" using none by (simp add: household_of_None t')
  ultimately show ?thesis using st assms(1) again by (auto simp: createHousehold_def insert_house_def t')
qed

section \<open>Ratings\<close>

text \<open>The limits in force for a viewer: that of the account and those of memberships that have not expired.\<close>

definition house_limits :: "string \<Rightarrow> gtime \<Rightarrow> house_db \<Rightarrow> int set" where
  "house_limits uid now s =
     {l. 0 < l \<and> (\<exists>h m. ((h, uid), m) \<in> set (hs_members s) \<and> l = hm_AgeLimit m \<and>
                        (case hm_ExpiresAt m of None \<Rightarrow> True | Some e \<Rightarrow> e > whole_seconds now))}"

definition limits_of :: "string \<Rightarrow> gtime \<Rightarrow> house_db \<Rightarrow> int set" where
  "limits_of uid now s =
     {l. 0 < l \<and> (\<exists>u. map_of (db_users (hs_auth s)) uid = Some u \<and> l = ac_AgeLimit u)} \<union> house_limits uid now s"

lemma fold_min_le: "fold min xs (a::int) \<le> a \<and> (\<forall>x\<in>set xs. fold min xs a \<le> x) \<and> fold min xs a \<in> insert a (set xs)"
  by (induction xs arbitrary: a) (auto, (metis min.coboundedI1 min.coboundedI2 min_def)+)

lemma fold_max_ge: "a \<le> fold max xs (a::int) \<and> (\<forall>x\<in>set xs. x \<le> fold max xs a) \<and> fold max xs a \<in> insert a (set xs)"
  by (induction xs arbitrary: a) (auto, (metis max.coboundedI1 max.coboundedI2 max_def)+)

lemma household_limit_least:
  "household_limit uid now s = 0 \<and> house_limits uid now s = {} \<or>
   household_limit uid now s \<in> house_limits uid now s \<and> (\<forall>l\<in>house_limits uid now s. household_limit uid now s \<le> l)"
proof -
  let ?f = "\<lambda>((h, u), m). if u = uid \<and> hm_AgeLimit m > 0 \<and> (case hm_ExpiresAt m of None \<Rightarrow> True | Some e \<Rightarrow> e > whole_seconds now)
            then Some (hm_AgeLimit m) else None"
  have set: "set (List.map_filter ?f (hs_members s)) = house_limits uid now s"
    by (force simp: List.map_filter_def house_limits_def image_iff split: if_splits)
  show ?thesis
  proof (cases "List.map_filter ?f (hs_members s)")
    case Nil
    then show ?thesis using set by (simp add: household_limit_def Let_def)
  next
    case (Cons a as)
    then have "house_limits uid now s = insert a (set as)" "household_limit uid now s = fold min as a"
      using set by (simp_all add: household_limit_def Let_def)
    then show ?thesis using fold_min_le [of as a] by auto
  qed
qed

lemma restriction_limits:
  assumes "uid \<noteq> []" and r: "RestrictionFor True block uid now s = Inr r" and u: "has_key uid (db_users (hs_auth s))"
  shows "re_BlockUnrated r = block" "Restr_Active r \<longleftrightarrow> limits_of uid now s \<noteq> {}"
    "Restr_Active r \<Longrightarrow> re_MaxAge r \<in> limits_of uid now s \<and> (\<forall>l\<in>limits_of uid now s. re_MaxAge r \<le> l)"
proof -
  obtain acc where acc: "map_of (db_users (hs_auth s)) uid = Some acc" using u by (auto simp: has_key_map)
  have max: "re_MaxAge r = lowestPositive (ac_AgeLimit acc) (household_limit uid now s)" and "re_BlockUnrated r = block"
    using r acc assms(1) by (auto simp: RestrictionFor_def Let_def)
  then show "re_BlockUnrated r = block" by simp
  have all: "limits_of uid now s = (if 0 < ac_AgeLimit acc then insert (ac_AgeLimit acc) (house_limits uid now s) else house_limits uid now s)"
    using acc by (auto simp: limits_of_def)
  have pos: "l \<in> house_limits uid now s \<Longrightarrow> 0 < l" for l by (simp add: house_limits_def)
  show "Restr_Active r \<longleftrightarrow> limits_of uid now s \<noteq> {}"
    using household_limit_least [of uid now s] pos [of "household_limit uid now s"]
    unfolding all Restr_Active_def max lowestPositive_def by (auto split: if_splits)
  show "Restr_Active r \<Longrightarrow> re_MaxAge r \<in> limits_of uid now s \<and> (\<forall>l\<in>limits_of uid now s. re_MaxAge r \<le> l)"
    using household_limit_least [of uid now s] pos [of "household_limit uid now s"]
    unfolding all Restr_Active_def max lowestPositive_def by (fastforce simp: min_def split: if_splits)
qed

text \<open>A gap: an owner who may manage users, but not administrators, can put the original administrator into the
  household and limit what they see, although the ceiling forbids touching that account.\<close>

theorem owner_limits_superadmin:
  assumes owner: "ownerHousehold (p_UserID (cl_p c)) s = Some hid" and perm: "HasPerm (Some (cl_p c)) ''users.manage''"
    and "\<not> IsSuperadmin (hs_auth s) (p_UserID (cl_p c))" and super: "IsSuperadmin (hs_auth s) v" "map_of (db_users (hs_auth s)) v = Some acc"
    and out: "household_of v s = None" and self: "v \<noteq> p_UserID (cl_p c)" and age: "0 < age" "age \<le> 21"
    and dist: "distinct (keys (hs_houses s))" and added: "(t, st) = addHouseholdMember c v ''child'' age s"
  shows "st = 200 \<and> AssertCanModifyUser (hs_auth s) (Some (cl_p c)) v = Some ErrProtectedUser \<and>
    (\<exists>r. RestrictionFor True block v now t = Inr r \<and> 0 < re_MaxAge r \<and> re_MaxAge r \<le> age)"
proof -
  have "trimSpace [] = []" by code_simp
  then have v: "trimSpace v \<noteq> []" "v \<noteq> []" using super by (auto simp: IsSuperadmin_def)
  obtain row where row: "map_of (hs_houses s) hid = Some row" using ownerHousehold_Some [OF owner dist] by blast
  have fresh: "\<not> has_key (hid, v) (hs_members s)" using out by (simp add: household_of_None has_key_map)
  have t: "t = s\<lparr>hs_members := hs_members s @ [((hid, v), member_at ''child'' age None)]\<rparr>" and st: "st = 200"
    using added owner v self age out perm fresh row super
    by (auto simp: addHouseholdMember_def validHouseholdRole_def insert_member_def PermUsersManage_def has_key_map)
  have user: "has_key v (db_users (hs_auth t))" using super by (simp add: t has_key_map)
  obtain r where r: "RestrictionFor True block v now t = Inr r" using v super by (auto simp: RestrictionFor_def t Let_def)
  have "((hid, v), member_at ''child'' age None) \<in> set (hs_members t)" by (simp add: t)
  then have "age \<in> house_limits v now t" using age unfolding house_limits_def by (force simp: member_at_def)
  then have "age \<in> limits_of v now t" by (simp add: limits_of_def)
  then have "Restr_Active r \<and> re_MaxAge r \<le> age" using restriction_limits(2,3) [OF v(2) r user] by blast
  moreover have "AssertCanModifyUser (hs_auth s) (Some (cl_p c)) v = Some ErrProtectedUser"
    using assms(3) super v self HasPerm_user [OF perm] by (simp add: AssertCanModifyUser_def)
  ultimately show ?thesis using st r by (auto simp: Restr_Active_def)
qed

text \<open>A viewer may see exactly the titles rated at most every limit in force for them, and unrated titles when no limit
  is in force or unrated titles are not blocked.\<close>

theorem permits_every_limit:
  assumes "uid \<noteq> []" "has_key uid (db_users (hs_auth s))" "RestrictionFor True block uid now s = Inr r"
  shows "Restr_Permits r age \<longleftrightarrow>
    (case age of Some a \<Rightarrow> (\<forall>l\<in>limits_of uid now s. a \<le> l) | None \<Rightarrow> limits_of uid now s = {} \<or> \<not> block)"
  using restriction_limits [OF assms(1,3,2)] by (auto simp: Restr_Permits_def split: option.split) fastforce+

text \<open>C36. The condition given to the database keeps exactly the titles the check in the program permits.\<close>

theorem sql_filter_agrees: "sql_keeps (SQLFilter r) age \<longleftrightarrow> Restr_Permits r age"
  by (auto simp: sql_keeps_def SQLFilter_def Restr_Permits_def sql_or_def split: option.split)

text \<open>C35. The file a signed-in user is given for playback, when a limit is in force for them, has a title that is rated, or
  unrated titles are not blocked, and no rated title of it is above any of their limits; without the database nothing is given.\<close>

theorem located_within_limits:
  assumes le: "le_DB le" "le_PlaybackPermitted le = PlaybackPermitted up block ct now s"
    and user: "IsUser (Some p)" "has_key (p_UserID p) (db_users (hs_auth s))" and given: "locate le p kind iid mfid = Inr loc"
    and limit: "l \<in> limits_of (p_UserID p) now s"
  shows "up \<and> (\<exists>age. fileRating up ct (lf_ID loc) = Inr age \<and> (case age of Some a \<Rightarrow> a \<le> l | None \<Rightarrow> \<not> block)) \<and>
    (\<forall>a\<in>set (series_ages ct (lf_ID loc)). a \<le> l)"
proof -
  have uid: "p_UserID p \<noteq> []" using user by (simp add: IsUser_def)
  have pp: "PlaybackPermitted up block ct now s (p_UserID p) (lf_ID loc)"
    using given user le user_not_guest [OF user(1)] by (auto simp: locate_def Let_def split: option.splits if_splits)
  then have up: up using uid by (cases up) (auto simp: PlaybackPermitted_def RestrictionFor_def)
  obtain r where r: "RestrictionFor True block (p_UserID p) now s = Inr r" using pp up by (auto simp: PlaybackPermitted_def split: sum.splits)
  note rl = restriction_limits [OF uid r user(2)]
  have active: "Restr_Active r" using rl(2) limit by blast
  obtain age where age: "fileRating up ct (lf_ID loc) = Inr age" "Restr_Permits r age"
    using pp up r active by (auto simp: PlaybackPermitted_def split: sum.splits)
  have lim: "case age of Some a \<Rightarrow> a \<le> l | None \<Rightarrow> \<not> block"
    using age(2) active rl(1) rl(3) [OF active] limit by (fastforce simp: Restr_Permits_def split: option.splits)
  moreover have "a \<le> l" if a: "a \<in> set (series_ages ct (lf_ID loc))" for a
  proof -
    obtain b bs where bs: "series_ages ct (lf_ID loc) = b # bs" using a by (cases "series_ages ct (lf_ID loc)") auto
    then have "a \<le> fold max bs b" using a fold_max_ge [of b bs] by auto
    moreover have "\<exists>c. age = Some c \<and> fold max bs b \<le> c"
      using age(1) up bs by (auto simp: fileRating_def Let_def split: option.splits)
    ultimately show ?thesis using lim by auto
  qed
  ultimately show ?thesis using up age(1) by blast
qed

section \<open>Certifications\<close>

lemma certDigits_bounds: "certDigits c = Some a \<Longrightarrow> 0 \<le> a \<and> a \<le> 99"
  by (induction c rule: certDigits.induct) (auto simp: digit_val_def Let_def split: option.splits if_splits list.splits)

lemma cert_in_bounds:
  assumes "cert_in country c = Some a"
  shows "0 \<le> a \<and> a \<le> MaxRatingAge"
proof -
  have "list_all (\<lambda>(code, tab). list_all (\<lambda>(c, a). 0 \<le> a \<and> a \<le> MaxRatingAge) tab) certAges" by code_simp
  moreover obtain tab where "(country, tab) \<in> set certAges" "(c, a) \<in> set tab"
    using assms by (auto simp: cert_in_def dest: map_of_SomeD split: option.splits)
  ultimately show ?thesis by (auto simp: list_all_iff)
qed

lemma first_cert_bounds:
  assumes "List.map_filter (\<lambda>code. cert_in code c) codes = b # bs"
  shows "0 \<le> b \<and> b \<le> MaxRatingAge"
proof -
  have "b \<in> set (List.map_filter (\<lambda>code. cert_in code c) codes)" using assms by simp
  then show ?thesis by (auto simp: List.map_filter_def cert_in_bounds)
qed

lemma cert_fallback_bounds: "cert_fallback c = Some a \<Longrightarrow> 0 \<le> a \<and> a \<le> MaxRatingAge"
  using certDigits_bounds [of c a] by (simp add: cert_fallback_def MaxRatingAge_def split: if_splits option.splits)

text \<open>A certification is an age from 0 to 21 or unknown, and an administrator can set no other age.\<close>

theorem certification_bounds:
  assumes "CertificationAge country cert = Some a \<or> SetRating up kind iid rating (Some a) ct = (ct', None)"
  shows "0 \<le> a \<and> a \<le> 21"
proof -
  have "0 \<le> a \<and> a \<le> MaxRatingAge" if "CertificationAge country cert = Some a"
  proof -
    define c where "c = toUpper (trimSpace cert)"
    define tried where "tried = List.map_filter (\<lambda>code. cert_in code c) [''US'', ''GB'', ''AU'', ''CA'', ''NZ'', ''IE'']"
    have first: "0 \<le> b \<and> b \<le> MaxRatingAge" if "tried = b # bs" for b bs using that unfolding tried_def by (rule first_cert_bounds)
    show ?thesis
      using that unfolding CertificationAge_def Let_def c_def [symmetric] tried_def [symmetric]
      by (auto dest: cert_in_bounds cert_fallback_bounds first split: if_splits option.splits list.splits)
  qed
  moreover have "0 \<le> a \<and> a \<le> MaxRatingAge" if "SetRating up kind iid rating (Some a) ct = (ct', None)"
    using that by (simp add: SetRating_def split: if_splits)
  ultimately show ?thesis using assms by (auto simp: MaxRatingAge_def)
qed

text \<open>A gap: the systems of other countries are tried when no country is given, but not, as the comment says, when the country
  is unknown: a title rated R there counts as unrated.\<close>

theorem unknown_country_not_tried:
  assumes "map_of certAges (toUpper (trimSpace country)) = None" "toUpper (trimSpace country) \<noteq> []"
    and "toUpper (trimSpace cert) \<noteq> []" "toUpper (trimSpace cert) \<notin> set unratedCerts"
  shows "CertificationAge country cert = cert_fallback (toUpper (trimSpace cert)) \<and> CertificationAge country ''R'' = None \<and> CertificationAge [] ''R'' = Some 17"
proof -
  have "trimSpace ''R'' = ''R''" "toUpper ''R'' = ''R''" "cert_fallback ''R'' = None" "''R'' \<notin> set unratedCerts" by code_simp+
  moreover have "CertificationAge [] ''R'' = Some 17" by code_simp
  ultimately show ?thesis using assms by (simp add: CertificationAge_def Let_def cert_in_def)
qed

section \<open>A concrete household\<close>

text \<open>Ann is the original administrator, Bob creates a household and invites Cy as a child of up to 12 years.\<close>

definition hh_auth :: auth_db where
  "hh_auth = \<lparr>db_users = [(''ann'', new_account ''ann'' [] True), (''bob'', new_account ''bob'' [] False), (''cy'', new_account ''cy'' [] False)],
     db_roles = [], db_permissions = [], db_role_perms = [], db_user_roles = [], db_sessions = [], db_original = ''ann'',
     db_user_grants = [], db_role_grants = [], db_libraries = [], db_source_libraries = []\<rparr>"

definition hh_start :: house_db where
  "hh_start = \<lparr>hs_auth = hh_auth, hs_houses = [], hs_members = [], hs_invites = []\<rparr>"

definition hh_caller :: "string \<Rightarrow> string list \<Rightarrow> caller" where
  "hh_caller uid perms = \<lparr>cl_p = \<lparr>p_Kind = ''user'', p_UserID = uid, p_GuestSessionID = [], p_MediaKind = [], p_MediaID = [], p_IsAdmin = False,
     p_DisplayName = uid, p_Username = uid, p_CanDownload = False, p_Permissions = perms, p_PartyOnly = False\<rparr>,
     cl_SessionID = uid, cl_PINLocked = False, cl_APIKey = False, cl_Temporary = False\<rparr>"

definition hh_invite :: "string \<Rightarrow> string \<Rightarrow> string option \<Rightarrow> household_invite" where
  "hh_invite hid tok by = \<lparr>hi_Household = hid, hi_TokenHash = tok, hi_Role = ''child'', hi_AgeLimit = 12, hi_ExpiresAt = seconds 604800, hi_UsedBy = by\<rparr>"

definition hh_houses :: "(string \<times> household) list" where
  "hh_houses = [(''h'', \<lparr>hh_Name = ''Home'', hh_Owner = ''bob''\<rparr>), (''g'', \<lparr>hh_Name = ''Old'', hh_Owner = ''ann''\<rparr>)]"

definition hh_owners :: "((string \<times> string) \<times> household_member) list" where
  "hh_owners = [((''h'', ''bob''), member_at ''owner'' 0 None), ((''g'', ''ann''), member_at ''owner'' 0 None)]"

definition hh_invited :: house_db where
  "hh_invited = \<lparr>hs_auth = hh_auth, hs_houses = hh_houses, hs_members = hh_owners,
     hs_invites = [(''i'', hh_invite ''h'' ''t'' None), (''j'', hh_invite ''g'' ''u'' None)]\<rparr>"

definition hh_home :: house_db where
  "hh_home = \<lparr>hs_auth = hh_auth, hs_houses = [(''h'', \<lparr>hh_Name = ''Home'', hh_Owner = ''bob''\<rparr>)],
     hs_members = [((''h'', ''bob''), member_at ''owner'' 0 None), ((''h'', ''cy''), member_at ''child'' 12 None)],
     hs_invites = [(''i'', hh_invite ''h'' ''t'' (Some ''cy''))]\<rparr>"

definition hh_run :: "(house_action \<times> string \<times> caller option \<times> gtime) list" where
  "hh_run = [(HouseCreate ''Home'' ''h'' True, ''/'', Some (hh_caller ''bob'' []), 0),
             (HouseInvite 0 ''child'' 12 ''i'' ''t'', ''/'', Some (hh_caller ''bob'' []), 0),
             (HouseAccept ''raw'' ''t'', ''/'', Some (hh_caller ''cy'' []), 5)]"

definition hh_run2 :: "(house_action \<times> string \<times> caller option \<times> gtime) list" where
  "hh_run2 = [(HouseCreate ''Home'' ''h'' True, ''/'', Some (hh_caller ''bob'' []), 0),
             (HouseCreate ''Old'' ''g'' True, ''/'', Some (hh_caller ''ann'' []), 0),
             (HouseInvite 0 ''child'' 12 ''i'' ''t'', ''/'', Some (hh_caller ''bob'' []), 0),
             (HouseInvite 0 ''child'' 12 ''j'' ''u'', ''/'', Some (hh_caller ''ann'' []), 0)]"

lemma hh_runs: "foldl (house_step True) hh_start hh_run = hh_home" "foldl (house_step True) hh_start hh_run2 = hh_invited"
  by code_simp+

lemma hh_ok: "houses_ok True hh_home" "houses_ok True hh_invited"
  using houses.run_keeps [OF houses_ok_start, of hh_start True hh_run] houses.run_keeps [OF houses_ok_start, of hh_start True hh_run2]
  by (simp_all add: hh_runs) (simp_all add: hh_start_def)

lemma hh_checks: "accept_check (hh_caller ''cy'' []) ''t'' 5 hh_invited = Inr ''i''" "accept_check (hh_caller ''cy'' []) ''u'' 5 hh_invited = Inr ''j''"
  by code_simp+

lemma hh_limit: "12 \<in> limits_of ''cy'' 0 hh_home"
  by (auto simp: limits_of_def house_limits_def hh_home_def member_at_def)


theorem joins_need_consent_witness:
  "\<exists>iid row. map_of (hs_invites hh_invited) iid = Some row \<and> hi_TokenHash row = ''t'' \<and> hi_UsedBy row = None \<and>
     map_of (hs_members (fst (serve_house (HouseAccept ''raw'' ''t'') ''/'' (Some (hh_caller ''cy'' [])) 5 hh_invited))) (hi_Household row, ''cy'') =
       Some (member_at (hi_Role row) (hi_AgeLimit row) None)"
proof -
  obtain t st where t: "serve_house (HouseAccept ''raw'' ''t'') ''/'' (Some (hh_caller ''cy'' [])) 5 hh_invited = (t, st)" by fastforce
  have "household_of ''cy'' hh_invited = None" by code_simp
  moreover have "household_of ''cy'' (fst (serve_house (HouseAccept ''raw'' ''t'') ''/'' (Some (hh_caller ''cy'' [])) 5 hh_invited)) \<noteq> None" by code_simp
  then have "household_of ''cy'' t \<noteq> None" by (simp add: t)
  moreover have no: "\<not> HasPerm (Some (cl_p (hh_caller ''cy'' []))) ''users.manage''" by code_simp
  ultimately obtain tok th iid row where "HouseAccept ''raw'' ''t'' = HouseAccept tok th" "map_of (hs_invites hh_invited) iid = Some row"
    "hi_TokenHash row = th" "hi_UsedBy row = None" "map_of (hs_members t) (hi_Household row, ''cy'') = Some (member_at (hi_Role row) (hi_AgeLimit row) None)"
    using joins_need_consent [OF hh_ok(2) t, of "''cy''"] by auto
  then show ?thesis unfolding t by auto
qed

theorem owner_limits_superadmin_witness:
  "snd (addHouseholdMember (hh_caller ''bob'' [''users.manage'']) ''ann'' ''child'' 7 hh_home) = 200 \<and>
   AssertCanModifyUser hh_auth (Some (cl_p (hh_caller ''bob'' [''users.manage'']))) ''ann'' = Some ErrProtectedUser"
proof -
  have acc: "map_of (db_users (hs_auth hh_home)) ''ann'' = Some (new_account ''ann'' [] True)" by code_simp
  have "ownerHousehold (p_UserID (cl_p (hh_caller ''bob'' [''users.manage'']))) hh_home = Some ''h''"
    "HasPerm (Some (cl_p (hh_caller ''bob'' [''users.manage'']))) ''users.manage''"
    "\<not> IsSuperadmin (hs_auth hh_home) (p_UserID (cl_p (hh_caller ''bob'' [''users.manage''])))" "IsSuperadmin (hs_auth hh_home) ''ann''"
    "household_of ''ann'' hh_home = None" "''ann'' \<noteq> p_UserID (cl_p (hh_caller ''bob'' [''users.manage'']))" "distinct (keys (hs_houses hh_home))"
    by code_simp+
  moreover have "hs_auth hh_home = hh_auth" by (simp add: hh_home_def)
  ultimately show ?thesis
    using owner_limits_superadmin [OF _ _ _ _ acc _ _ _ _ _ prod.collapse, of "hh_caller ''bob'' [''users.manage'']" "''h''" 7] by simp
qed

theorem two_invites_two_households_witness:
  "\<not> houses_ok True (fst (accept_commit (hh_caller ''cy'' []) ''j'' (hh_invite ''g'' ''u'' None) (fst (accept_commit (hh_caller ''cy'' []) ''i'' (hh_invite ''h'' ''t'' None) hh_invited))))"
proof -
  have "map_of (hs_invites hh_invited) ''i'' = Some (hh_invite ''h'' ''t'' None)" "map_of (hs_invites hh_invited) ''j'' = Some (hh_invite ''g'' ''u'' None)"
    "hi_Household (hh_invite ''h'' ''t'' None) \<noteq> hi_Household (hh_invite ''g'' ''u'' None)" "has_key (p_UserID (cl_p (hh_caller ''cy'' []))) (db_users (hs_auth hh_invited))"
    by code_simp+
  from two_invites_two_households [OF hh_ok(2) hh_checks this] show ?thesis by (metis prod.collapse)
qed

theorem half_created_household_witness:
  "ownerHousehold ''bob'' (fst (createHousehold (hh_caller ''bob'' []) ''Home'' ''h'' False hh_start)) = None \<and>
   snd (createHousehold (hh_caller ''bob'' []) ''Home'' ''k'' True (fst (createHousehold (hh_caller ''bob'' []) ''Home'' ''h'' False hh_start))) = 500"
proof -
  have "\<not> cl_Temporary (hh_caller ''bob'' [])" "trimSpace ''Home'' \<noteq> []" "household_of (p_UserID (cl_p (hh_caller ''bob'' []))) hh_start = None"
    "has_key (p_UserID (cl_p (hh_caller ''bob'' []))) (db_users (hs_auth hh_start))" "\<not> has_key ''h'' (hs_houses hh_start)"
    "list_all (\<lambda>(h, row). hh_Owner row \<noteq> p_UserID (cl_p (hh_caller ''bob'' []))) (hs_houses hh_start)"
    by code_simp+
  from half_created_household [OF this, of "fst (createHousehold (hh_caller ''bob'' []) ''Home'' ''h'' False hh_start)" _ "''Home''" "''k''" True]
  show ?thesis using \<open>trimSpace ''Home'' \<noteq> []\<close> by (metis hh_caller_def caller.select_convs(1) principal.select_convs(2) prod.collapse snd_conv)
qed

theorem permits_every_limit_witness:
  "\<not> Restr_Permits \<lparr>re_MaxAge = 12, re_UserLimit = 0, re_HouseholdLimit = 12, re_BlockUnrated = True\<rparr> (Some 16)"
proof -
  have "has_key ''cy'' (db_users (hs_auth hh_home))"
    "RestrictionFor True True ''cy'' 0 hh_home = Inr \<lparr>re_MaxAge = 12, re_UserLimit = 0, re_HouseholdLimit = 12, re_BlockUnrated = True\<rparr>"
    by code_simp+
  from permits_every_limit [OF _ this, of "Some 16"] show ?thesis using hh_limit by auto
qed

definition hh_cat :: catalogue where
  "hh_cat = \<lparr>ct_libraries = [], ct_roots = [], ct_titles = [((''series'', ''s''), \<lparr>tr_Library = ''lib'', tr_Title = ''S'', tr_SortTitle = ''s'', tr_Year = None,
       tr_TMDB = None, tr_Rating = ''TV-PG'', tr_RatingAge = Some 10, tr_RatingSource = ''tmdb'', tr_Source = ''tmdb'', tr_Unmatched = False, tr_NeedsReview = False\<rparr>)],
     ct_media = [(''f'', \<lparr>mf_Library = ''lib'', mf_Rel = ''s/1.mkv'', mf_Abs = ''/l/s/1.mkv'', mf_Size = 1, mf_Availability = ''online'', mf_Movie = [], mf_Kind = ''episode'', mf_ExtraKind = [],
        mf_MTime = [], mf_Hint = [], mf_Confidence = ''high''\<rparr>)],
     ct_episodes = [(''e'', \<lparr>ep_Series = ''s'', ep_Season = 1, ep_Number = 1\<rparr>)], ct_links = [(''f'', ''e'')], ct_seasons = [], ct_queue = []\<rparr>"

definition hh_file :: located where
  "hh_file = \<lparr>lf_ID = ''f'', lf_LibraryID = ''lib'', lf_AbsPath = ''/l/s/1.mkv'', lf_ItemKind = ''episode'', lf_ItemID = ''e'', lf_DurationMS = 60000,
     lf_Container = ''mkv'', lf_VideoCodec = ''h264'', lf_AudioCodec = ''aac'', lf_Width = 1280, lf_Height = 720, lf_Size = 1, lf_Copy = False\<rparr>"

definition hh_locate :: locate_env where
  "hh_locate = \<lparr>le_AllowStream = (\<lambda>_ _ _. GateOK), le_Locator = True, le_LocateFile = (\<lambda>_. None), le_LocateItem = (\<lambda>_ _. Some hh_file), le_DB = True,
     le_PlaybackPermitted = PlaybackPermitted True True hh_cat 0 hh_home, le_partyGranted = False, le_partyAccess = (\<lambda>_ _ _. False),
     le_Grants = False, le_CanRead = (\<lambda>_ _. True)\<rparr>"

theorem located_within_limits_witness:
  "\<exists>age. fileRating True hh_cat ''f'' = Inr age \<and> (case age of Some a \<Rightarrow> a \<le> 12 | None \<Rightarrow> False)"
proof -
  have "locate hh_locate (cl_p (hh_caller ''cy'' [])) ''episode'' ''e'' [] = Inr hh_file" "IsUser (Some (cl_p (hh_caller ''cy'' [])))"
    "has_key (p_UserID (cl_p (hh_caller ''cy'' []))) (db_users (hs_auth hh_home))" by code_simp+
  moreover have "lf_ID hh_file = ''f''" "p_UserID (cl_p (hh_caller ''cy'' [])) = ''cy''" by (simp_all add: hh_file_def hh_caller_def)
  ultimately show ?thesis
    using located_within_limits [of hh_locate True True hh_cat 0 hh_home "cl_p (hh_caller ''cy'' [])" "''episode''" "''e''" "[]" hh_file 12] hh_limit
    by (auto simp: hh_locate_def cong: option.case_cong)
qed

theorem certification_bounds_witness: "0 \<le> the (CertificationAge ''DE'' ''FSK 16'') \<and> the (CertificationAge ''DE'' ''FSK 16'') \<le> 21"
proof -
  have "CertificationAge ''DE'' ''FSK 16'' = Some 16" by code_simp
  then show ?thesis using certification_bounds [of "''DE''" "''FSK 16''" 16] by simp
qed

theorem unknown_country_not_tried_witness: "CertificationAge ''XX'' ''R'' = None \<and> CertificationAge [] ''R'' = Some 17"
proof -
  have "map_of certAges (toUpper (trimSpace ''XX'')) = None" "toUpper (trimSpace ''XX'') \<noteq> []"
    "toUpper (trimSpace ''R'') \<noteq> []" "toUpper (trimSpace ''R'') \<notin> set unratedCerts" by code_simp+
  from unknown_country_not_tried [OF this] show ?thesis by blast
qed

end
