(* ===== verification/Scan_Parse.thy ===== *)
theory Scan_Parse
  imports Move_Plan
begin

text \<open>
  What a file name says (\<^verbatim>\<open>src/internal/scan/parser.go\<close>): whether the file is skipped, an extra, an episode or a
  movie, and its title, year, season and numbers. The regular expressions are written out as matchers on runes
  from the left; each prefers the longest run of digits and separators, as theirs do. Letters beyond ASCII keep
  their case.
\<close>

section \<open>Kinds and results\<close>

definition KindEpisode :: string where "KindEpisode = ''episode''"
definition KindExtra :: string where "KindExtra = ''extra''"
definition KindUnknown :: string where "KindUnknown = ''unknown''"
definition ConfHigh :: string where "ConfHigh = ''high''"
definition ConfMedium :: string where "ConfMedium = ''medium''"
definition ConfLow :: string where "ConfLow = ''low''"

record parse_result =
  pr_Kind :: string
  pr_Title :: string
  pr_Year :: int
  pr_Season :: int
  pr_Episodes :: "int list"
  pr_ExtraKind :: string
  pr_Confidence :: string
  pr_NeedsReview :: bool
  pr_Skip :: bool
  pr_Hint :: string

definition no_result :: parse_result where
  "no_result = \<lparr>pr_Kind = [], pr_Title = [], pr_Year = 0, pr_Season = 0, pr_Episodes = [], pr_ExtraKind = [], pr_Confidence = [],
     pr_NeedsReview = False, pr_Skip = False, pr_Hint = []\<rparr>"

definition skipExt :: "string list" where
  "skipExt = [''.part'', ''.!qb'', ''.aria2'', ''.filepart'', ''.tmp'', ''.crdownload'']"

definition skipFolders :: "string list" where
  "skipFolders = [''sample'', ''samples'', ''proof'', ''proofs'', ''@eadir'', ''.ds_store'', ''.viewdock-staging'']"

definition extraFolders :: "(string \<times> string) list" where
  "extraFolders =
    [(''featurettes'', ''featurette''), (''featurette'', ''featurette''), (''extras'', ''extra''), (''extra'', ''extra''),
     (''trailers'', ''trailer''), (''trailer'', ''trailer''), (''interviews'', ''interview''), (''interview'', ''interview''),
     (''behind the scenes'', ''behindthescenes''), (''behind-the-scenes'', ''behindthescenes''), (''behindthescenes'', ''behindthescenes''),
     (''deleted scenes'', ''deleted''), (''deletedscenes'', ''deleted''), (''shorts'', ''short''), (''other'', ''other''),
     (''bonus'', ''extra''), (''bonus disc'', ''extra'')]"

definition qualityTags :: "string list" where
  "qualityTags =
    [''1080p'', ''720p'', ''480p'', ''2160p'', ''576p'', ''360p'', ''4k'', ''uhd'', ''hd'', ''sd'',
     ''bluray'', ''blu-ray'', ''bdrip'', ''brrip'', ''bdmv'', ''webrip'', ''web-dl'', ''webdl'', ''hdtv'', ''hdrip'', ''dvdrip'',
     ''x264'', ''x265'', ''h264'', ''h265'', ''hevc'', ''avc'', ''av1'', ''xvid'',
     ''aac'', ''ac3'', ''dts'', ''truehd'', ''atmos'', ''flac'', ''eac3'',
     ''ddp'', ''ddp5'', ''ddp51'', ''ddplus'', ''dd'', ''dtsma'', ''dtshd'',
     ''hdr'', ''hdr10'', ''hdr10+'', ''dv'', ''dovi'', ''remux'', ''proper'', ''repack'', ''internal'', ''extended'',
     ''remastered'', ''remaster'', ''hybrid'', ''complete'', ''uncut'', ''theatrical'', ''limited'', ''pal'', ''ntsc'',
     ''multi'', ''dubbed'', ''subbed'', ''subs'', ''eng'', ''10bit'', ''8bit'', ''amzn'', ''nf'', ''dsnp'', ''hmax'', ''atvp'',
     ''unrated'', ''directors'', ''criterion'', ''imax'', ''readnfo'', ''nfo'', ''1'']"

definition ShouldSkip :: "string \<Rightarrow> bool" where
  "ShouldSkip rel =
     (let parts = splitOn CHR ''/'' rel; base = last parts; ext = toLower (fileExt base)
      in list_ex (\<lambda>p. toLower p \<in> set skipFolders) parts \<or> ext \<in> set skipExt \<or>
         (strContains (toLower base) ''.part'' \<and> ext \<noteq> ''.mkv'' \<and> ext \<noteq> ''.mp4'' \<and> hasSuffix (toLower base) ''.part'') \<or>
         hasSuffix (toLower base) ''.!qb'')"

section \<open>Matching\<close>

definition digit_rune :: "string \<Rightarrow> int option" where
  "digit_rune r = (case r of [c] \<Rightarrow> digit_val c | _ \<Rightarrow> None)"

definition letter_is :: "string \<Rightarrow> string \<Rightarrow> bool" where
  "letter_is l r \<longleftrightarrow> toLower r = l"

text \<open>At most \<open>n\<close> digits: how many, their value, and what follows.\<close>

fun take_digits :: "nat \<Rightarrow> string list \<Rightarrow> int \<Rightarrow> nat \<times> int \<times> string list" where
  "take_digits 0 rs acc = (0, acc, rs)"
| "take_digits (Suc n) [] acc = (0, acc, [])"
| "take_digits (Suc n) (r # rs) acc =
     (case digit_rune r of
        None \<Rightarrow> (0, acc, r # rs)
      | Some d \<Rightarrow> (case take_digits n rs (10 * acc + d) of (k, v, rest) \<Rightarrow> (Suc k, v, rest)))"

lemma take_digits_shorter: "take_digits n rs acc = (k, v, rest) \<Longrightarrow> length rest + k = length rs"
  by (induction n rs acc arbitrary: k v rest rule: take_digits.induct) (auto split: option.splits prod.splits)

text \<open>One or more times \<^verbatim>\<open>E\<close> with up to three digits.\<close>

function e_numbers :: "string list \<Rightarrow> int list \<times> string list" where
  "e_numbers [] = ([], [])"
| "e_numbers (r # rs) =
     (if \<not> letter_is ''e'' r then ([], r # rs)
      else (case take_digits 3 rs 0 of
              (k, v, rest) \<Rightarrow> if k = 0 then ([], r # rs) else (case e_numbers rest of (ns, rest') \<Rightarrow> (v # ns, rest'))))"
  by pat_completeness auto
termination by (relation "measure length") (auto dest!: take_digits_shorter [OF sym])

text \<open>\<^verbatim>\<open>reTVBlock\<close>, \<^verbatim>\<open>reTVx\<close> and \<^verbatim>\<open>reYearParen\<close> at the head of a text: what they say and what follows. \<open>start\<close> is
  true at the beginning of the whole text.\<close>

definition tv_block :: "bool \<Rightarrow> string list \<Rightarrow> ((int \<times> int list) \<times> string list) option" where
  "tv_block start rs =
     (case rs of
        [] \<Rightarrow> None
      | r # rs \<Rightarrow>
          if \<not> letter_is ''s'' r then None
          else (case take_digits 2 rs 0 of
                  (k, season, rest) \<Rightarrow>
                    if k = 0 then None
                    else (case e_numbers rest of (ns, rest) \<Rightarrow> if ns = [] then None else Some ((season, ns), rest))))"

definition tv_x_numbers :: "string list \<Rightarrow> ((int \<times> int list) \<times> string list) option" where
  "tv_x_numbers rs =
     (case take_digits 2 rs 0 of
        (k, season, rest) \<Rightarrow>
          if k = 0 then None
          else (case rest of
                  [] \<Rightarrow> None
                | x # rest \<Rightarrow>
                    if \<not> letter_is ''x'' x then None
                    else (case take_digits 3 rest 0 of
                            (k, ep, rest) \<Rightarrow>
                              if k = 0 then None
                              else (case rest of
                                      [] \<Rightarrow> Some ((season, [ep]), [])
                                    | r # rest \<Rightarrow> if digit_rune r = None then Some ((season, [ep]), rest) else None))))"

definition tv_x :: "bool \<Rightarrow> string list \<Rightarrow> ((int \<times> int list) \<times> string list) option" where
  "tv_x start rs =
     (case (if start then tv_x_numbers rs else None) of
        Some m \<Rightarrow> Some m
      | None \<Rightarrow> (case rs of [] \<Rightarrow> None | r # rs \<Rightarrow> if digit_rune r = None then tv_x_numbers rs else None))"

definition year_at :: "string list \<Rightarrow> (int \<times> string list) option" where
  "year_at rs =
     (case take_digits 4 rs 0 of
        (k, v, rest) \<Rightarrow> if k = 4 \<and> (v div 100 = 19 \<or> v div 100 = 20) then Some (v, rest) else None)"

lemma year_at_shorter: "year_at rs = Some (y, rest) \<Longrightarrow> length rest + 4 = length rs"
  by (auto simp: year_at_def dest: take_digits_shorter split: prod.splits if_splits)

definition year_paren :: "bool \<Rightarrow> string list \<Rightarrow> (int \<times> string list) option" where
  "year_paren start rs =
     (case rs of
        [] \<Rightarrow> None
      | r # rs \<Rightarrow>
          if r \<noteq> ''('' then None
          else (case year_at rs of
                  None \<Rightarrow> None
                | Some (y, rest) \<Rightarrow> (case rest of [] \<Rightarrow> None | q # rest \<Rightarrow> if q = '')'' then Some (y, rest) else None)))"

text \<open>The first match from the left, with what stands before it; and all matches replaced by a space.\<close>

fun first_match :: "(bool \<Rightarrow> string list \<Rightarrow> ('m \<times> string list) option) \<Rightarrow> bool \<Rightarrow> string list \<Rightarrow> (string list \<times> 'm) option" where
  "first_match p start [] = map_option (\<lambda>(m, _). ([], m)) (p start [])"
| "first_match p start (r # rs) =
     (case p start (r # rs) of
        Some (m, _) \<Rightarrow> Some ([], m)
      | None \<Rightarrow> map_option (\<lambda>(front, m). (r # front, m)) (first_match p False rs))"

fun blank_matches :: "nat \<Rightarrow> (bool \<Rightarrow> string list \<Rightarrow> ('m \<times> string list) option) \<Rightarrow> bool \<Rightarrow> string list \<Rightarrow> string list" where
  "blank_matches 0 p start rs = rs"
| "blank_matches (Suc n) p start rs =
     (case p start rs of
        Some (m, rest) \<Rightarrow> '' '' # blank_matches n p False rest
      | None \<Rightarrow> (case rs of [] \<Rightarrow> [] | r # rs' \<Rightarrow> r # blank_matches n p False rs'))"

definition blank_all :: "(bool \<Rightarrow> string list \<Rightarrow> ('m \<times> string list) option) \<Rightarrow> string list \<Rightarrow> string list" where
  "blank_all p rs = blank_matches (Suc (length rs)) p True rs"

section \<open>Years\<close>

text \<open>The class \<^verbatim>\<open>[\s._-]\<close>, and \<^verbatim>\<open>reResAfter\<close>: a number followed by a times sign and another is a resolution.\<close>

definition sep_rune :: "string \<Rightarrow> bool" where
  "sep_rune r \<longleftrightarrow> map byte r \<in> {[9], [10], [12], [13]} \<or> r \<in> {'' '', ''.'', ''_'', ''-''}"

definition res_after :: "string list \<Rightarrow> bool" where
  "res_after rs =
     (case dropWhile sep_rune rs of
        [] \<Rightarrow> False
      | x # rest \<Rightarrow> (letter_is ''x'' x \<or> map byte x = [195, 151]) \<and> fst (take_digits 3 (dropWhile sep_rune rest) 0) = 3)"

text \<open>\<open>pos\<close> runes came before, the last of them \<open>prev\<close>.\<close>

function years_from :: "nat \<Rightarrow> string \<Rightarrow> string list \<Rightarrow> (int \<times> nat) list" where
  "years_from pos prev [] = []"
| "years_from pos prev (r # rs) =
     (case year_at (r # rs) of
        None \<Rightarrow> years_from (pos + 1) r rs
      | Some (y, rest) \<Rightarrow>
          (if digit_rune prev \<noteq> None \<or> (rest \<noteq> [] \<and> digit_rune (hd rest) \<noteq> None) \<or> res_after rest then []
           else [(y, if prev = ''('' \<or> prev = ''['' then pos - 1 else pos)])
          @ years_from (pos + 4) (rs ! 2) rest)"
  by pat_completeness auto
termination
  by (relation "measure (\<lambda>(_, _, rs). length rs)") (auto dest: year_at_shorter)

definition findYears :: "string \<Rightarrow> (int \<times> nat) list" where
  "findYears name = years_from 0 [] (runes name)"

definition lastYear :: "string \<Rightarrow> int" where
  "lastYear name = (let hits = findYears name in if hits = [] then 0 else fst (last hits))"

definition cutBeforeYear :: "string \<Rightarrow> int \<Rightarrow> string option" where
  "cutBeforeYear name year =
     (let starts = map snd (filter (\<lambda>h. fst h = year) (findYears name))
      in if starts = [] \<or> last starts = 0 then None else Some (concat (take (last starts) (runes name))))"

section \<open>Titles\<close>

definition cut_set :: "string \<Rightarrow> string \<Rightarrow> string" where
  "cut_set cs s = rev (dropWhile (\<lambda>c. c \<in> set cs) (rev (dropWhile (\<lambda>c. c \<in> set cs) s)))"

definition digits_p :: "string \<Rightarrow> bool" where
  "digits_p l \<longleftrightarrow> (length l = 4 \<or> length l = 5) \<and> last l = CHR ''p'' \<and> list_all is_digit (butlast l)"

definition audio_channels :: "string \<Rightarrow> bool" where
  "audio_channels l =
     list_ex (\<lambda>w. hasPrefix l w \<and> dropWhile (\<lambda>c. sep_rune [c]) (drop (length w) l) \<in> {''5.1'', ''7.1''})
       [[], ''ddp'', ''dd'', ''dts'', ''truehd'', ''atmos'', ''aac'', ''ac3'', ''eac3'', ''flac'']"

definition isQualityToken :: "string \<Rightarrow> bool" where
  "isQualityToken f = (let l = toLower (cut_set ''[]()'' f) in l \<in> set qualityTags \<or> digits_p l \<or> audio_channels l)"

function replaceAll :: "string \<Rightarrow> string \<Rightarrow> string \<Rightarrow> string" where
  "replaceAll old new [] = []"
| "replaceAll old new (c # s) =
     (if old \<noteq> [] \<and> hasPrefix (c # s) old then new @ replaceAll old new (drop (length old) (c # s))
      else c # replaceAll old new s)"
  by pat_completeness auto
termination by (relation "measure (\<lambda>(_, _, s). length s)") auto

definition cleanTitle :: "string \<Rightarrow> int \<Rightarrow> string" where
  "cleanTitle raw year =
     (let s = concat (blank_all year_paren (runes raw));
          s = (if year > 0 then replaceAll (int_dec year) '' '' s else s);
          s = concat (blank_all tv_block (runes s));
          s = concat (blank_all tv_x (runes s));
          s = map (\<lambda>c. if c \<in> set ''_.-'' then CHR '' '' else c) s
      in trimSpace (joinWith '' '' (filter (\<lambda>f. \<not> isQualityToken f) (fields_of (runes s) []))))"

definition ascii_letter :: "char \<Rightarrow> bool" where
  "ascii_letter c \<longleftrightarrow> 97 \<le> byte (ascii_lower c) \<and> byte (ascii_lower c) \<le> 122"

definition stripReleaseGroup :: "string \<Rightarrow> string" where
  "stripReleaseGroup name =
     (if CHR ''-'' \<notin> set name then name
      else let group = rev (takeWhile (\<lambda>c. c \<noteq> CHR ''-'') (rev name))
           in if 2 \<le> length group \<and> length group \<le> 41 \<and> ascii_letter (hd group)
                 \<and> list_all (\<lambda>c. ascii_letter c \<or> is_digit c \<or> c \<in> set ''@._'') group
              then take (length name - length group - 1) name else name)"

section \<open>Kinds of files\<close>

definition extra_words :: "string list" where
  "extra_words = [''trailer'', ''behindthescenes'', ''behind-the-scenes'', ''deletedscenes'', ''deleted'', ''featurette'',
                  ''interview'', ''scene'', ''short'', ''other'', ''extra'']"

definition word_ends :: "string \<Rightarrow> bool" where
  "word_ends s \<longleftrightarrow> s = [] \<or> hd s \<in> set ''-_. ''"

text \<open>\<^verbatim>\<open>reExtraFile\<close>: the first word that stands between separators, with or without a final s.\<close>

fun extra_word :: "string \<Rightarrow> string option" where
  "extra_word [] = None"
| "extra_word (c # s) =
     (case (if c \<in> set ''-_. ''
            then find (\<lambda>w. hasPrefix (toLower s) w \<and>
                        (let rest = drop (length w) s in word_ends rest \<or> (hasPrefix (toLower rest) ''s'' \<and> word_ends (tl rest))))
                   extra_words
            else None) of
        Some w \<Rightarrow> Some w
      | None \<Rightarrow> extra_word s)"

definition extra_class :: "string \<Rightarrow> string" where
  "extra_class k =
     (if hasPrefix k ''trailer'' then ''trailer''
      else if strContains k ''behind'' then ''behindthescenes''
      else if hasPrefix k ''deleted'' then ''deleted''
      else if hasPrefix k ''featurette'' then ''featurette''
      else if hasPrefix k ''interview'' then ''interview''
      else if hasPrefix k ''short'' then ''short''
      else if hasPrefix k ''scene'' then ''scene''
      else ''extra'')"

definition extraKind :: "string \<Rightarrow> string \<Rightarrow> string" where
  "extraKind rel name =
     (case find (\<lambda>p. map_of extraFolders (toLower (trimSpace p)) \<noteq> None) (butlast (splitOn CHR ''/'' rel)) of
        Some p \<Rightarrow> the (map_of extraFolders (toLower (trimSpace p)))
      | None \<Rightarrow> (case extra_word name of Some w \<Rightarrow> extra_class (filter (\<lambda>c. c \<noteq> CHR ''-'') w) | None \<Rightarrow> []))"

definition extractENums :: "int list \<Rightarrow> int list" where
  "extractENums ns = rev (remdups (rev (filter (\<lambda>n. n > 0) ns)))"

section \<open>Parsing\<close>

definition parseTV :: "string \<Rightarrow> parse_result option" where
  "parseTV name =
     (let year = lastYear name;
          title = (\<lambda>front. let t = cleanTitle (concat front) year in if t = [] then cleanTitle name year else t)
      in case first_match tv_block True (runes name) of
           Some (front, (season, ns)) \<Rightarrow>
             Some (no_result\<lparr>pr_Kind := KindEpisode, pr_Title := title front, pr_Year := year, pr_Season := season,
                     pr_Episodes := extractENums ns, pr_Confidence := ConfHigh\<rparr>)
         | None \<Rightarrow>
             (case first_match tv_x True (runes name) of
                Some (front, (season, eps)) \<Rightarrow>
                  Some (no_result\<lparr>pr_Kind := KindEpisode, pr_Title := title front, pr_Year := year, pr_Season := season,
                          pr_Episodes := eps, pr_Confidence := ConfMedium\<rparr>)
              | None \<Rightarrow> None))"

definition parseMovie :: "string \<Rightarrow> parse_result option" where
  "parseMovie name =
     (let name = stripReleaseGroup name;
          year = lastYear name;
          raw = (if year > 0 then (case cutBeforeYear name year of Some front \<Rightarrow> front | None \<Rightarrow> name) else name);
          title = cleanTitle raw year
      in if title = [] then None
         else Some (no_result\<lparr>pr_Kind := KindMovie, pr_Title := title, pr_Year := year,
                      pr_Confidence := (if year > 0
                                        then (if first_match year_paren True (runes name) \<noteq> None then ConfHigh else ConfMedium)
                                        else ConfLow)\<rparr>))"

text \<open>\<^verbatim>\<open>reAnimeAbs\<close> behind a prefix: separators, perhaps \<^verbatim>\<open>ep\<close> or \<^verbatim>\<open>episode\<close>, up to four digits, and an end. The
  prefix is the shortest for which that holds; it contains no line feed.\<close>

definition strip_word :: "string \<Rightarrow> string list \<Rightarrow> string list option" where
  "strip_word w rs = (if hasPrefix (toLower (concat (take (length w) rs))) w then Some (drop (length w) rs) else None)"

definition absolute_at :: "string list \<Rightarrow> (int \<times> string) option" where
  "absolute_at rs =
     (if rs = [] \<or> \<not> sep_rune (hd rs) then None
      else (let rs = dropWhile sep_rune rs;
                rs = (case strip_word ''episode'' rs of
                        Some rest \<Rightarrow> dropWhile sep_rune rest
                      | None \<Rightarrow> (case strip_word ''ep'' rs of Some rest \<Rightarrow> dropWhile sep_rune rest | None \<Rightarrow> rs))
            in case take_digits 4 rs 0 of
                 (k, v, rest) \<Rightarrow>
                   if k = 0 then None
                   else if rest = [] \<or> sep_rune (hd rest) \<or> hd rest = ''['' \<or> hd rest = ''('' then Some (v, concat (take k rs))
                   else None))"

fun absolute_from :: "string list \<Rightarrow> (string list \<times> int \<times> string) option" where
  "absolute_from [] = None"
| "absolute_from (r # rs) =
     (if map byte r = [10] then None
      else (case absolute_at rs of
              Some (v, digits) \<Rightarrow> Some ([r], v, digits)
            | None \<Rightarrow> map_option (\<lambda>(front, m). (r # front, m)) (absolute_from rs)))"

definition parseAnimeAbsolute :: "string \<Rightarrow> parse_result option" where
  "parseAnimeAbsolute name =
     (if first_match tv_block True (runes name) \<noteq> None \<or> first_match tv_x True (runes name) \<noteq> None then None
      else (case absolute_from (runes name) of
              None \<Rightarrow> None
            | Some (front, ep, digits) \<Rightarrow>
                (let title = cleanTitle (concat front) 0
                 in if title = [] \<or> ep \<le> 0 then None
                    else if ep \<ge> 1900 \<and> ep \<le> 2100 then None
                    else if isQualityToken digits then None
                    else Some (no_result\<lparr>pr_Kind := KindEpisode, pr_Title := title, pr_Season := 0, pr_Episodes := [ep],
                                 pr_Confidence := ConfLow, pr_NeedsReview := True\<rparr>))))"

definition parseCore :: "string \<Rightarrow> parse_result" where
  "parseCore name =
     (case parseTV name of
        Some r \<Rightarrow> r
      | None \<Rightarrow> (case parseMovie name of
                   Some r \<Rightarrow> r
                 | None \<Rightarrow> no_result\<lparr>pr_Title := cleanTitle name 0, pr_Confidence := ConfLow\<rparr>))"

definition hintMovie :: "parse_result \<Rightarrow> string" where
  "hintMovie r = ''movie:'' @ toLower (pr_Title r) @ '':'' @ int_dec (pr_Year r)"

definition hintTV :: "parse_result \<Rightarrow> string" where
  "hintTV r =
     (let ep = (if pr_Episodes r = [] then 0 else hd (pr_Episodes r))
      in ''tv:'' @ toLower (pr_Title r) @ '':'' @ int_dec (pr_Season r) @ '':'' @ int_dec ep)"

definition Parse :: "string \<Rightarrow> parse_result" where
  "Parse rel =
     (if ShouldSkip rel then no_result\<lparr>pr_Kind := KindUnknown, pr_Skip := True\<rparr>
      else
        (let base = last (splitOn CHR ''/'' rel); name = trimSuffix base (fileExt base); ek = extraKind rel name
         in if ek \<noteq> [] then
              (let r = parseCore name
               in r\<lparr>pr_Kind := KindExtra, pr_ExtraKind := ek,
                     pr_Confidence := (if pr_Confidence r = [] then ConfMedium else pr_Confidence r),
                     pr_Hint := ''extra:'' @ ek @ '':'' @ pr_Title r\<rparr>)
            else (case parseTV name of
                    Some r \<Rightarrow> r\<lparr>pr_Hint := hintTV r\<rparr>
                  | None \<Rightarrow>
                      (case parseAnimeAbsolute name of
                         Some r \<Rightarrow> r\<lparr>pr_Hint := hintTV r\<rparr>
                       | None \<Rightarrow>
                           (case parseMovie name of
                              Some r \<Rightarrow> r\<lparr>pr_Hint := hintMovie r\<rparr>
                            | None \<Rightarrow>
                                (let title = cleanTitle name 0
                                 in no_result\<lparr>pr_Kind := KindUnknown, pr_Title := title, pr_Confidence := ConfLow,
                                      pr_NeedsReview := True, pr_Hint := ''unknown:'' @ title\<rparr>))))))"

end
