(* ===== verification/Scan.thy ===== *)
theory Scan
  imports Scan_Parse
begin

text \<open>
  Cataloguing the files of a library (\<^verbatim>\<open>src/internal/scan/scanner.go\<close>, \<^verbatim>\<open>attach.go\<close>,
  \<^verbatim>\<open>src/internal/media/availability.go\<close>): the walk over the folder, the rows a file gets, the titles, seasons and
  episodes made for it, what a scan says of files it did not meet, single files from uploads and the watcher, and
  files attached by hand. The order of a table stands for the order in which the database meets its rows. Fresh
  identifiers are \<open>uuid\<close> of a counter. A transaction can fail when it is committed and then leaves nothing. The
  search index, times of writing, probing and log lines are left out.
\<close>

section \<open>State\<close>

record scan_state =
  sn_cat :: catalogue
  sn_ids :: nat

record found_file =
  ff_Abs :: string
  ff_Rel :: string
  ff_Size :: i64
  ff_MTime :: string

datatype scan_error = ErrWrongKind | ErrScanMissing | ErrScanRoot | ErrScanCommit | ErrOutside | ErrAttach

definition on_cat :: "(catalogue \<Rightarrow> catalogue) \<Rightarrow> scan_state \<Rightarrow> scan_state" where
  "on_cat f s = s\<lparr>sn_cat := f (sn_cat s)\<rparr>"

definition with_id :: "(nat \<Rightarrow> string) \<Rightarrow> (string \<Rightarrow> catalogue \<Rightarrow> catalogue) \<Rightarrow> scan_state \<Rightarrow> scan_state \<times> string" where
  "with_id uuid f s =
     (let i = uuid (sn_ids s) in (s\<lparr>sn_cat := f i (sn_cat s), sn_ids := Suc (sn_ids s)\<rparr>, i))"

definition update_media :: "string \<Rightarrow> (media_row \<Rightarrow> media_row) \<Rightarrow> catalogue \<Rightarrow> catalogue" where
  "update_media i f ct = ct\<lparr>ct_media := map (\<lambda>(j, m). (j, if j = i then f m else m)) (ct_media ct)\<rparr>"

text \<open>\<^verbatim>\<open>INSERT OR IGNORE\<close> into the tables with a primary key.\<close>

definition add_link :: "string \<times> string \<Rightarrow> catalogue \<Rightarrow> catalogue" where
  "add_link l ct = (if l \<in> set (ct_links ct) then ct else ct\<lparr>ct_links := ct_links ct @ [l]\<rparr>)"

definition add_queued :: "string \<times> string \<Rightarrow> string \<times> int option \<Rightarrow> catalogue \<Rightarrow> catalogue" where
  "add_queued k q ct = (if has_key k (ct_queue ct) then ct else ct\<lparr>ct_queue := ct_queue ct @ [(k, q)]\<rparr>)"

section \<open>Titles\<close>

definition kindFits :: "string \<Rightarrow> string \<Rightarrow> bool" where
  "kindFits contentType kind =
     (if contentType = ''movies'' then kind \<noteq> KindEpisode
      else if contentType = ''tv'' then kind = KindEpisode \<or> kind = KindExtra
      else True)"

definition sortTitle :: "string \<Rightarrow> string" where
  "sortTitle s =
     (let s = toLower (trimSpace s)
      in case find (\<lambda>p. hasPrefix s p) [''the '', ''a '', ''an ''] of
           Some p \<Rightarrow> trimSpace (drop (length p) s) @ '', '' @ trimSpace p
         | None \<Rightarrow> s)"

definition nullYear :: "int \<Rightarrow> int option" where
  "nullYear y = (if y \<le> 0 then None else Some y)"

text \<open>The first title of a kind in a library with the words of \<open>p\<close>; \<open>strict\<close> says whether a result without a year
  asks for a title without one.\<close>

definition find_title :: "string \<Rightarrow> bool \<Rightarrow> string \<Rightarrow> parse_result \<Rightarrow> catalogue \<Rightarrow> string option" where
  "find_title kind strict lib p ct =
     map_option (\<lambda>e. snd (fst e))
       (find (\<lambda>((k, i), t). k = kind \<and> tr_Library t = lib \<and> toLower (tr_Title t) = toLower (pr_Title p) \<and>
                (if pr_Year p > 0 then tr_Year t = Some (pr_Year p) else strict \<longrightarrow> tr_Year t = None))
         (ct_titles ct))"

definition new_title :: "string \<Rightarrow> parse_result \<Rightarrow> title_row" where
  "new_title lib p =
     \<lparr>tr_Library = lib, tr_Title = pr_Title p, tr_SortTitle = sortTitle (pr_Title p), tr_Year = nullYear (pr_Year p),
      tr_TMDB = None, tr_Rating = [], tr_RatingAge = None, tr_RatingSource = [], tr_Source = ''filename'',
      tr_Unmatched = True, tr_NeedsReview = pr_NeedsReview p\<rparr>"

definition add_title :: "string \<Rightarrow> string \<Rightarrow> parse_result \<Rightarrow> string \<Rightarrow> catalogue \<Rightarrow> catalogue" where
  "add_title kind lib p i ct = ct\<lparr>ct_titles := ct_titles ct @ [((kind, i), new_title lib p)]\<rparr>"

definition refreshFilenameMovie :: "string \<Rightarrow> parse_result \<Rightarrow> catalogue \<Rightarrow> catalogue" where
  "refreshFilenameMovie i p ct =
     ct\<lparr>ct_titles := map (\<lambda>(k, t). (k, if k = (KindMovie, i) \<and> tr_Source t = ''filename'' \<and> tr_Unmatched t
            then t\<lparr>tr_Title := pr_Title p, tr_Year := nullYear (pr_Year p), tr_SortTitle := sortTitle (pr_Title p)\<rparr>
            else t)) (ct_titles ct)\<rparr>"

definition ensureMovie :: "(nat \<Rightarrow> string) \<Rightarrow> string \<Rightarrow> parse_result \<Rightarrow> string \<Rightarrow> scan_state \<Rightarrow> scan_state \<times> string" where
  "ensureMovie uuid lib p existingID s =
     (if existingID \<noteq> [] then (on_cat (refreshFilenameMovie existingID p) s, existingID)
      else (case find_title KindMovie True lib p (sn_cat s) of
              Some i \<Rightarrow> (s, i)
            | None \<Rightarrow> with_id uuid (add_title KindMovie lib p) s))"

definition ensure_series :: "(nat \<Rightarrow> string) \<Rightarrow> string \<Rightarrow> parse_result \<Rightarrow> scan_state \<Rightarrow> scan_state \<times> string" where
  "ensure_series uuid lib p s =
     (case find_title KindSeries False lib p (sn_cat s) of
        Some i \<Rightarrow> (s, i)
      | None \<Rightarrow> with_id uuid (add_title KindSeries lib p) s)"

definition ensure_season :: "(nat \<Rightarrow> string) \<Rightarrow> string \<Rightarrow> int \<Rightarrow> scan_state \<Rightarrow> scan_state" where
  "ensure_season uuid series number s =
     (if list_ex (\<lambda>(i, sn). sn = (series, number)) (ct_seasons (sn_cat s)) then s
      else fst (with_id uuid (\<lambda>i ct. ct\<lparr>ct_seasons := ct_seasons ct @ [(i, series, number)]\<rparr>) s))"

definition ensure_episode :: "(nat \<Rightarrow> string) \<Rightarrow> episode_row \<Rightarrow> string \<Rightarrow> scan_state \<Rightarrow> scan_state" where
  "ensure_episode uuid e fileID s =
     (let (s, i) = (case find (\<lambda>(i, e'). e' = e) (ct_episodes (sn_cat s)) of
                      Some (i, _) \<Rightarrow> (s, i)
                    | None \<Rightarrow> with_id uuid (\<lambda>i ct. ct\<lparr>ct_episodes := ct_episodes ct @ [(i, e)]\<rparr>) s)
      in on_cat (add_link (fileID, i)) s)"

definition ensureEpisodes :: "(nat \<Rightarrow> string) \<Rightarrow> string \<Rightarrow> string \<Rightarrow> parse_result \<Rightarrow> scan_state \<Rightarrow> scan_state" where
  "ensureEpisodes uuid lib fileID p s =
     (let (s, series) = ensure_series uuid lib p s;
          s = ensure_season uuid series (pr_Season p) s;
          eps = (if pr_Episodes p = [] then [0] else pr_Episodes p)
      in foldl (\<lambda>s n. ensure_episode uuid \<lparr>ep_Series = series, ep_Season = pr_Season p, ep_Number = n\<rparr> fileID s) s eps)"

text \<open>The movie an extra belongs to: what the nearest folder that is not one of extras is called, if that has a year.\<close>

function extra_parent :: "string \<Rightarrow> parse_result option" where
  "extra_parent dir =
     (if dir = [] \<or> dir = ''.'' then None
      else if map_of extraFolders (toLower (pathBase dir)) \<noteq> None then extra_parent (pathDir dir)
      else (let parent = Parse (pathBase dir @ ''.mkv'')
            in if pr_Title parent \<noteq> [] \<and> pr_Year parent > 0 then Some parent else None))"
  by pat_completeness auto
termination
proof (relation "measure (\<lambda>dir. if dir = ''.'' then 0 else Suc (length dir))", simp, goal_cases)
  case (1 dir)
  then show ?case
    using pathDir_shorter [of dir] by (cases "CHR ''/'' \<in> set dir") (auto simp: pathDir_def)
qed

declare extra_parent.simps [simp del]

definition guessExtraMovie :: "(nat \<Rightarrow> string) \<Rightarrow> string \<Rightarrow> string \<Rightarrow> parse_result \<Rightarrow> scan_state \<Rightarrow> scan_state \<times> string" where
  "guessExtraMovie uuid lib rel p s =
     (case extra_parent (pathDir rel) of
        Some parent \<Rightarrow> ensureMovie uuid lib parent [] s
      | None \<Rightarrow>
          if pr_Title p \<noteq> [] \<and> pr_Year p > 0
          then ensureMovie uuid lib (no_result\<lparr>pr_Title := pr_Title p, pr_Year := pr_Year p, pr_Confidence := pr_Confidence p\<rparr>) [] s
          else (s, []))"

definition enqueueMatch :: "string \<Rightarrow> string \<Rightarrow> parse_result \<Rightarrow> catalogue \<Rightarrow> catalogue" where
  "enqueueMatch kind lib p ct =
     (if pr_ExtraKind p \<noteq> [] \<or> kind = KindExtra then ct
      else (let k = (if kind = KindMovie then KindMovie else if kind = KindEpisode then KindSeries else [])
            in case find_title k False lib p ct of
                 Some i \<Rightarrow> if k = [] \<or> i = [] then ct else add_queued (k, i) (pr_Title p, nullYear (pr_Year p)) ct
               | None \<Rightarrow> ct))"

section \<open>Files\<close>

definition scan_kind :: "parse_result \<Rightarrow> string" where
  "scan_kind p = (if pr_Kind p = KindUnknown \<and> \<not> pr_Skip p then KindMovie else pr_Kind p)"

definition file_at :: "string \<Rightarrow> string \<Rightarrow> catalogue \<Rightarrow> (string \<times> media_row) option" where
  "file_at lib rel ct = find (\<lambda>(i, m). mf_Library m = lib \<and> mf_Rel m = rel) (ct_media ct)"

definition saved_row :: "found_file \<Rightarrow> parse_result \<Rightarrow> string \<Rightarrow> media_row \<Rightarrow> media_row" where
  "saved_row f p kind m =
     m\<lparr>mf_Abs := ff_Abs f, mf_Size := ff_Size f, mf_MTime := ff_MTime f, mf_Kind := kind, mf_ExtraKind := pr_ExtraKind p,
       mf_Hint := pr_Hint p, mf_Confidence := pr_Confidence p, mf_Availability := ''online''\<rparr>"

definition new_row :: "string \<Rightarrow> found_file \<Rightarrow> parse_result \<Rightarrow> string \<Rightarrow> media_row" where
  "new_row lib f p kind =
     \<lparr>mf_Library = lib, mf_Rel = ff_Rel f, mf_Abs = ff_Abs f, mf_Size = ff_Size f, mf_Availability = ''online'', mf_Movie = [],
      mf_Kind = kind, mf_ExtraKind = pr_ExtraKind p, mf_MTime = ff_MTime f, mf_Hint = pr_Hint p, mf_Confidence = pr_Confidence p\<rparr>"

definition save_file :: "(nat \<Rightarrow> string) \<Rightarrow> string \<Rightarrow> found_file \<Rightarrow> parse_result \<Rightarrow> string \<Rightarrow> scan_state \<Rightarrow> scan_state \<times> string" where
  "save_file uuid lib f p kind s =
     (case file_at lib (ff_Rel f) (sn_cat s) of
        None \<Rightarrow> with_id uuid (\<lambda>i ct. ct\<lparr>ct_media := ct_media ct @ [(i, new_row lib f p kind)]\<rparr>) s
      | Some (i, _) \<Rightarrow> (on_cat (update_media i (saved_row f p kind)) s, i))"

definition title_file :: "(nat \<Rightarrow> string) \<Rightarrow> string \<Rightarrow> string \<Rightarrow> string \<Rightarrow> string \<Rightarrow> string \<Rightarrow> string \<Rightarrow> parse_result
    \<Rightarrow> scan_state \<Rightarrow> scan_state" where
  "title_file uuid lib contentType rel fileID existingMovie kind p s =
     (if kind = KindMovie then
        (let (s, movie) = ensureMovie uuid lib p existingMovie s in on_cat (update_media fileID (\<lambda>m. m\<lparr>mf_Movie := movie\<rparr>)) s)
      else if kind = KindEpisode then ensureEpisodes uuid lib fileID p s
      else if kind = KindExtra \<and> contentType \<noteq> ''tv'' then
        (let (s, movie) = guessExtraMovie uuid lib rel p s
         in if movie = [] then s else on_cat (update_media fileID (\<lambda>m. m\<lparr>mf_Movie := movie\<rparr>)) s)
      else s)"

definition upsertFile :: "(nat \<Rightarrow> string) \<Rightarrow> string \<Rightarrow> string \<Rightarrow> found_file \<Rightarrow> scan_state \<Rightarrow> scan_state \<times> (scan_error + nat)" where
  "upsertFile uuid lib contentType f s =
     (let parsed = Parse (ff_Rel f); kind = scan_kind parsed; existing = file_at lib (ff_Rel f) (sn_cat s)
      in if pr_Skip parsed then (s, Inr 0)
         else if existing = None \<and> \<not> kindFits contentType kind then (s, Inl ErrWrongKind)
         else
           (let existingMovie = (case existing of Some (_, m) \<Rightarrow> mf_Movie m | None \<Rightarrow> []);
                (s, fileID) = save_file uuid lib f parsed kind s;
                s = title_file uuid lib contentType (ff_Rel f) fileID existingMovie kind parsed s
            in (on_cat (enqueueMatch kind lib parsed) s, Inr (if existing = None then 1 else 0))))"

section \<open>Availability\<close>

datatype stat_result = Found | Failed (not_exist: bool) (unreach: bool)

definition Online :: string where "Online = ''online''"
definition Offline :: string where "Offline = ''offline''"
definition Missing :: string where "Missing = ''missing''"

definition ClassifyAvailability :: "stat_result \<Rightarrow> string \<Rightarrow> stat_result \<Rightarrow> string" where
  "ClassifyAvailability fileErr libraryRoot rootErr =
     (case fileErr of
        Found \<Rightarrow> Online
      | Failed gone unreachable \<Rightarrow>
          if libraryRoot \<noteq> [] \<and> rootErr \<noteq> Found then Offline
          else if unreachable \<and> \<not> gone then Offline
          else if gone then Missing
          else Offline)"

definition markUnseen :: "(string \<Rightarrow> stat_result) \<Rightarrow> string \<Rightarrow> string \<Rightarrow> string list \<Rightarrow> catalogue \<Rightarrow> catalogue" where
  "markUnseen os_stat lib root seen ct =
     ct\<lparr>ct_media := map (\<lambda>(i, m). (i, if mf_Library m = lib \<and> mf_Rel m \<notin> set seen
            then m\<lparr>mf_Availability := ClassifyAvailability (os_stat (mf_Abs m)) root (os_stat root)\<rparr> else m)) (ct_media ct)\<rparr>"

definition markLibraryOffline :: "string \<Rightarrow> catalogue \<Rightarrow> catalogue" where
  "markLibraryOffline lib ct =
     ct\<lparr>ct_media := map (\<lambda>(i, m). (i, if mf_Library m = lib then m\<lparr>mf_Availability := Offline\<rparr> else m)) (ct_media ct)\<rparr>"

section \<open>The walk\<close>

text \<open>What the system answers: whether a path is inside the root once links are followed, the size and time of a
  file while walking and later, and whether the n-th transaction is committed.\<close>

record scan_answers =
  sa_disk :: disk
  sa_inside :: "string \<Rightarrow> string \<Rightarrow> bool"
  sa_info :: "string \<Rightarrow> (i64 \<times> string) option"
  sa_stat :: "string \<Rightarrow> stat_result"
  sa_commit :: "nat \<Rightarrow> bool"

definition under_root :: "string \<Rightarrow> string \<Rightarrow> bool" where
  "under_root root p \<longleftrightarrow> p \<noteq> root \<and> hasPrefix p (if root = ''/'' then ''/'' else root @ ''/'')"

definition nestedRoots :: "string \<Rightarrow> string \<Rightarrow> catalogue \<Rightarrow> string list" where
  "nestedRoots lib root ct =
     filter (\<lambda>r. r \<noteq> [] \<and> under_root root r \<and> \<not> hasPrefix (rel_path root r) ''..'')
       (map lib_RootPath (filter (\<lambda>l. lib_ID l \<noteq> lib) (map snd (ct_libraries ct))))"

definition IsVideoPath :: "string \<Rightarrow> bool" where
  "IsVideoPath rel \<longleftrightarrow> IsVideo (last (splitOn CHR ''/'' rel))"

definition skip_dir :: "string \<Rightarrow> string list \<Rightarrow> string \<Rightarrow> bool" where
  "skip_dir root nested dir \<longleftrightarrow>
     (dir \<noteq> root \<and> ShouldSkip (rel_path root dir)) \<or> toLower (pathBase dir) = ''.viewdock-staging'' \<or> dir \<in> set nested"

definition visited :: "disk \<Rightarrow> string \<Rightarrow> string list \<Rightarrow> string \<Rightarrow> bool" where
  "visited d root nested p \<longleftrightarrow>
     under_root root p \<and> map_of d p \<noteq> Some DirNode
     \<and> list_all (\<lambda>(dir, n). n = DirNode \<and> (dir = root \<or> under_root root dir) \<and> under_root dir p \<longrightarrow> \<not> skip_dir root nested dir) d"

text \<open>The files the walk keeps, folder by folder in the order of the names.\<close>

definition found_files :: "scan_answers \<Rightarrow> string \<Rightarrow> string \<Rightarrow> catalogue \<Rightarrow> found_file list" where
  "found_files a lib root ct =
     (let nested = nestedRoots lib root ct;
          paths = sort_key (\<lambda>p. splitOn CHR ''/'' (rel_path root p)) (filter (visited (sa_disk a) root nested) (remdups (keys (sa_disk a))))
      in List.map_filter (\<lambda>p.
           let rel = rel_path root p
           in if ShouldSkip rel \<or> \<not> IsVideoPath rel \<or> \<not> sa_inside a root p then None
              else map_option (\<lambda>(bytes, mtime). \<lparr>ff_Abs = p, ff_Rel = rel, ff_Size = bytes, ff_MTime = mtime\<rparr>) (sa_info a p))
         paths)"

section \<open>Scans\<close>

definition catalogueBatchSize :: nat where "catalogueBatchSize = 24"

text \<open>One batch: the new state, how many files were added and how many refused.\<close>

fun upsert_files :: "(nat \<Rightarrow> string) \<Rightarrow> string \<Rightarrow> string \<Rightarrow> found_file list \<Rightarrow> scan_state \<Rightarrow> scan_state \<times> nat \<times> nat" where
  "upsert_files uuid lib contentType [] s = (s, 0, 0)"
| "upsert_files uuid lib contentType (f # fs) s =
     (case upsertFile uuid lib contentType f s of
        (s, r) \<Rightarrow> (case upsert_files uuid lib contentType fs s of
                     (s, added, refused) \<Rightarrow>
                       (case r of Inl _ \<Rightarrow> (s, added, Suc refused) | Inr n \<Rightarrow> (s, n + added, refused))))"

definition catalogueBatch :: "bool \<Rightarrow> (nat \<Rightarrow> string) \<Rightarrow> string \<Rightarrow> string \<Rightarrow> found_file list \<Rightarrow> scan_state
    \<Rightarrow> scan_state \<times> nat \<times> nat \<times> bool" where
  "catalogueBatch committed uuid lib contentType fs s =
     (case upsert_files uuid lib contentType fs s of
        (s', added, refused) \<Rightarrow> (if committed then s' else s, added, refused, committed))"

function catalogue_files :: "(nat \<Rightarrow> bool) \<Rightarrow> nat \<Rightarrow> (nat \<Rightarrow> string) \<Rightarrow> string \<Rightarrow> string \<Rightarrow> found_file list \<Rightarrow> scan_state
    \<Rightarrow> scan_state \<times> nat \<times> bool" where
  "catalogue_files commit n uuid lib contentType fs s =
     (if fs = [] then (s, 0, True)
      else (case catalogueBatch (commit n) uuid lib contentType (take catalogueBatchSize fs) s of
              (s, added, refused, ok) \<Rightarrow>
                if \<not> ok then (s, added, False)
                else (case catalogue_files commit (Suc n) uuid lib contentType (drop catalogueBatchSize fs) s of
                        (s, others, ok) \<Rightarrow> (s, added + others, ok))))"
  by pat_completeness auto
termination
  by (relation "measure (\<lambda>(_, _, _, _, _, fs, _). length fs)") (auto simp: catalogueBatchSize_def)

declare catalogue_files.simps [simp del]

text \<open>A scan answers with an error or with the files seen; the files added come with both.\<close>

definition scanLibrary :: "scan_answers \<Rightarrow> (nat \<Rightarrow> string) \<Rightarrow> string \<Rightarrow> scan_state \<Rightarrow> scan_state \<times> nat \<times> (scan_error + nat)" where
  "scanLibrary a uuid lib s =
     (case map_of (ct_libraries (sn_cat s)) lib of
        None \<Rightarrow> (s, 0, Inl ErrScanMissing)
      | Some l \<Rightarrow>
          if sa_stat a (lib_RootPath l) \<noteq> Found then (on_cat (markLibraryOffline lib) s, 0, Inl ErrScanRoot)
          else (let files = found_files a lib (lib_RootPath l) (sn_cat s)
                in case catalogue_files (sa_commit a) 0 uuid lib (lib_ContentType l) files s of
                     (s, added, ok) \<Rightarrow>
                       if \<not> ok then (s, added, Inl ErrScanCommit)
                       else (on_cat (markUnseen (sa_stat a) lib (lib_RootPath l) (map ff_Rel files)) s, added, Inr (length files))))"

text \<open>One new file, from an upload or the watcher, at a path below the root.\<close>

definition IngestFile :: "scan_answers \<Rightarrow> (nat \<Rightarrow> string) \<Rightarrow> string \<Rightarrow> string \<Rightarrow> scan_state \<Rightarrow> scan_state \<times> scan_error option" where
  "IngestFile a uuid lib absPath s =
     (case map_of (ct_libraries (sn_cat s)) lib of
        None \<Rightarrow> (s, Some ErrScanMissing)
      | Some l \<Rightarrow>
          (let root = lib_RootPath l; rel = rel_path root absPath
           in if \<not> sa_inside a root absPath then (s, Some ErrOutside)
              else if \<not> under_root root absPath \<or> ShouldSkip rel \<or> \<not> IsVideoPath rel then (s, None)
              else (case sa_info a absPath of
                      None \<Rightarrow> (s, Some ErrScanMissing)
                    | Some (bytes, mtime) \<Rightarrow>
                        (case upsertFile uuid lib (lib_ContentType l)
                                \<lparr>ff_Abs = absPath, ff_Rel = rel, ff_Size = bytes, ff_MTime = mtime\<rparr> s of
                           (s', Inl e) \<Rightarrow> (s, Some e)
                         | (s', Inr n) \<Rightarrow> if sa_commit a 0 then (s', None) else (s, Some ErrScanCommit)))))"

section \<open>Attaching by hand\<close>

record attach_body =
  ab_Kind :: string
  ab_MovieID :: string
  ab_SeriesID :: string
  ab_Title :: string
  ab_Year :: int
  ab_Season :: int
  ab_Number :: int

definition attach_kind :: "string \<Rightarrow> string" where
  "attach_kind k =
     (let k = toLower (trimSpace k)
      in if k = KindMovie \<or> k = ''movies'' then KindMovie
         else if k = KindEpisode \<or> k = ''tv'' \<or> k = ''episodes'' then KindEpisode else [])"

text \<open>The database refuses a reference to a movie that does not exist.\<close>

definition attach_movie :: "(nat \<Rightarrow> string) \<Rightarrow> string \<Rightarrow> string \<Rightarrow> attach_body \<Rightarrow> scan_state \<Rightarrow> scan_error + scan_state" where
  "attach_movie uuid lib fileID b s =
     (let title = trimSpace (ab_Title b)
      in if ab_MovieID b = [] \<and> title = [] then Inl ErrAttach
         else (let (s, movie) = (if ab_MovieID b \<noteq> [] then (s, ab_MovieID b)
                   else ensureMovie uuid lib (no_result\<lparr>pr_Title := title, pr_Year := ab_Year b, pr_Confidence := ConfHigh\<rparr>) [] s)
               in if \<not> has_key (KindMovie, movie) (ct_titles (sn_cat s)) then Inl ErrAttach
                  else Inr (on_cat (update_media fileID (\<lambda>m. m\<lparr>mf_Kind := KindMovie, mf_ExtraKind := [], mf_Movie := movie,
                                      mf_Confidence := ConfHigh\<rparr>)) s)))"

definition attach_episode :: "(nat \<Rightarrow> string) \<Rightarrow> string \<Rightarrow> string \<Rightarrow> attach_body \<Rightarrow> scan_state \<Rightarrow> scan_error + scan_state" where
  "attach_episode uuid lib fileID b s =
     (case (if ab_SeriesID b = [] then Some (trimSpace (ab_Title b))
            else map_option tr_Title (map_of (ct_titles (sn_cat s)) (KindSeries, ab_SeriesID b))) of
        None \<Rightarrow> Inl ErrScanMissing
      | Some title \<Rightarrow>
          if title = [] then Inl ErrAttach
          else
            (let p = no_result\<lparr>pr_Title := title, pr_Year := ab_Year b, pr_Season := ab_Season b, pr_Episodes := [ab_Number b],
                       pr_Confidence := ConfHigh\<rparr>;
                 s = on_cat (\<lambda>ct. ct\<lparr>ct_links := filter (\<lambda>l. fst l \<noteq> fileID) (ct_links ct)\<rparr>) s;
                 s = ensureEpisodes uuid lib fileID p s
             in Inr (on_cat (update_media fileID (\<lambda>m. m\<lparr>mf_Kind := KindEpisode, mf_ExtraKind := [], mf_Movie := [],
                               mf_Confidence := ConfHigh\<rparr>)) s)))"

definition Attach :: "(nat \<Rightarrow> string) \<Rightarrow> bool \<Rightarrow> string \<Rightarrow> attach_body \<Rightarrow> scan_state \<Rightarrow> scan_state \<times> scan_error option" where
  "Attach uuid committed fileID b s =
     (case map_of (ct_media (sn_cat s)) fileID of
        None \<Rightarrow> (s, Some ErrScanMissing)
      | Some m \<Rightarrow>
          (let lib = mf_Library m; kind = attach_kind (ab_Kind b);
               contentType = (case map_of (ct_libraries (sn_cat s)) lib of Some l \<Rightarrow> lib_ContentType l | None \<Rightarrow> [])
           in if kind \<noteq> [] \<and> \<not> kindFits contentType kind then (s, Some ErrWrongKind)
              else (case (if kind = KindMovie then attach_movie uuid lib fileID b s
                          else if kind = KindEpisode then attach_episode uuid lib fileID b s
                          else Inl ErrAttach) of
                      Inl e \<Rightarrow> (s, Some e)
                    | Inr s' \<Rightarrow> if committed then (s', None) else (s, Some ErrScanCommit))))"

section \<open>The machine\<close>

datatype scan_event =
    RunScan scan_answers string
  | Ingest scan_answers string string
  | AttachTo bool string attach_body

definition scan_step :: "(nat \<Rightarrow> string) \<Rightarrow> scan_state \<Rightarrow> scan_event \<Rightarrow> scan_state" where
  "scan_step uuid s e =
     (case e of
        RunScan a lib \<Rightarrow> fst (scanLibrary a uuid lib s)
      | Ingest a lib path \<Rightarrow> fst (IngestFile a uuid lib path s)
      | AttachTo committed fileID b \<Rightarrow> fst (Attach uuid committed fileID b s))"

end
