(* ===== verification/Scan_Safety.thy ===== *)
theory Scan_Safety
  imports Scan
begin

text \<open>
  What every scan, every single file and every attachment keeps: the catalogue is well-formed (\<open>scan_inv\<close>), and
  nothing in it is lost (\<open>grows\<close>). Each table change is one lemma; \<open>with_id_good\<close> and \<open>on_cat_good\<close> put them together.
\<close>

section \<open>The invariant\<close>

definition cat_ids :: "catalogue \<Rightarrow> string set" where
  "cat_ids ct = set (keys (ct_media ct)) \<union> snd ` set (keys (ct_titles ct)) \<union> set (keys (ct_seasons ct)) \<union> set (keys (ct_episodes ct))"

definition file_key :: "string \<times> media_row \<Rightarrow> string \<times> string" where
  "file_key e = (mf_Library (snd e), mf_Rel (snd e))"

definition media_ok :: "catalogue \<Rightarrow> bool" where
  "media_ok ct \<longleftrightarrow> distinct (keys (ct_media ct)) \<and> distinct (map file_key (ct_media ct))
     \<and> (\<forall>e \<in> set (ct_media ct). mf_Movie (snd e) = [] \<or> (KindMovie, mf_Movie (snd e)) \<in> set (keys (ct_titles ct)))"

definition series_ok :: "catalogue \<Rightarrow> bool" where
  "series_ok ct \<longleftrightarrow> distinct (keys (ct_titles ct))
     \<and> distinct (keys (ct_seasons ct)) \<and> distinct (map snd (ct_seasons ct))
     \<and> (\<forall>e \<in> set (ct_seasons ct). (KindSeries, fst (snd e)) \<in> set (keys (ct_titles ct)))
     \<and> distinct (keys (ct_episodes ct)) \<and> distinct (map snd (ct_episodes ct))
     \<and> (\<forall>e \<in> set (ct_episodes ct). (KindSeries, ep_Series (snd e)) \<in> set (keys (ct_titles ct)))"

definition refs_ok :: "catalogue \<Rightarrow> bool" where
  "refs_ok ct \<longleftrightarrow> distinct (ct_links ct) \<and> set (ct_links ct) \<subseteq> set (keys (ct_media ct)) \<times> set (keys (ct_episodes ct))
     \<and> distinct (keys (ct_queue ct)) \<and> set (keys (ct_queue ct)) \<subseteq> set (keys (ct_titles ct))"

definition cat_ok :: "catalogue \<Rightarrow> bool" where
  "cat_ok ct \<longleftrightarrow> media_ok ct \<and> series_ok ct \<and> refs_ok ct"

definition scan_inv :: "(nat \<Rightarrow> string) \<Rightarrow> scan_state \<Rightarrow> bool" where
  "scan_inv uuid s \<longleftrightarrow> inj uuid \<and> (\<forall>j. uuid j \<noteq> []) \<and> (\<forall>j \<ge> sn_ids s. uuid j \<notin> cat_ids (sn_cat s)) \<and> cat_ok (sn_cat s)"

text \<open>Titles stay, and only movies that are unmatched and named after their file can change.\<close>

definition named_by_file :: "(string \<times> string) \<Rightarrow> title_row \<Rightarrow> bool" where
  "named_by_file k t \<longleftrightarrow> fst k = KindMovie \<and> tr_Source t = ''filename'' \<and> tr_Unmatched t"

definition grows :: "catalogue \<Rightarrow> catalogue \<Rightarrow> bool" where
  "grows ct ct' \<longleftrightarrow> ct_libraries ct' = ct_libraries ct
     \<and> set (keys (ct_media ct)) \<subseteq> set (keys (ct_media ct')) \<and> set (keys (ct_episodes ct)) \<subseteq> set (keys (ct_episodes ct'))
     \<and> (\<forall>k t. map_of (ct_titles ct) k = Some t \<longrightarrow>
          (\<exists>t'. map_of (ct_titles ct') k = Some t' \<and> (t' = t \<or> named_by_file k t \<and> named_by_file k t')))"

lemma grows_refl [simp]: "grows ct ct"
  by (auto simp: grows_def)

lemma grows_trans: "grows ct ct' \<Longrightarrow> grows ct' ct'' \<Longrightarrow> grows ct ct''"
proof -
  assume a: "grows ct ct'" and b: "grows ct' ct''"
  have "\<exists>t'. map_of (ct_titles ct'') k = Some t' \<and> (t' = t \<or> named_by_file k t \<and> named_by_file k t')"
    if "map_of (ct_titles ct) k = Some t" for k t
    using a b that unfolding grows_def by metis
  then show ?thesis using a b by (simp add: grows_def) blast
qed

lemma grows_titles:
  assumes "grows ct ct'" and "k \<in> set (keys (ct_titles ct))"
  shows "k \<in> set (keys (ct_titles ct'))"
proof -
  obtain t where "map_of (ct_titles ct) k = Some t" using assms(2) in_keys_map_of by metis
  then show ?thesis using assms(1) map_of_in_keys unfolding grows_def by metis
qed

lemma grows_media: "grows ct ct' \<Longrightarrow> i \<in> set (keys (ct_media ct)) \<Longrightarrow> i \<in> set (keys (ct_media ct'))"
  by (auto simp: grows_def)

definition scan_good :: "(nat \<Rightarrow> string) \<Rightarrow> scan_state \<Rightarrow> scan_state \<Rightarrow> bool" where
  "scan_good uuid s t \<longleftrightarrow> scan_inv uuid t \<and> grows (sn_cat s) (sn_cat t)"

lemma scan_good_refl: "scan_inv uuid s \<Longrightarrow> scan_good uuid s s"
  by (simp add: scan_good_def)

lemma scan_good_trans: "scan_good uuid s t \<Longrightarrow> scan_good uuid t u \<Longrightarrow> scan_good uuid s u"
  using grows_trans by (auto simp: scan_good_def)

lemma scan_goodD:
  assumes "scan_good uuid s t"
  shows "scan_inv uuid t" "k \<in> set (keys (ct_titles (sn_cat s))) \<Longrightarrow> k \<in> set (keys (ct_titles (sn_cat t)))"
    "i \<in> set (keys (ct_media (sn_cat s))) \<Longrightarrow> i \<in> set (keys (ct_media (sn_cat t)))"
    "ct_libraries (sn_cat t) = ct_libraries (sn_cat s)"
proof -
  have g: "scan_inv uuid t" "grows (sn_cat s) (sn_cat t)" using assms by (simp_all add: scan_good_def)
  show "scan_inv uuid t" by (rule g)
  show "k \<in> set (keys (ct_titles (sn_cat s))) \<Longrightarrow> k \<in> set (keys (ct_titles (sn_cat t)))" by (rule grows_titles [OF g(2)])
  show "i \<in> set (keys (ct_media (sn_cat s))) \<Longrightarrow> i \<in> set (keys (ct_media (sn_cat t)))" by (rule grows_media [OF g(2)])
  show "ct_libraries (sn_cat t) = ct_libraries (sn_cat s)" using g(2) by (simp add: grows_def)
qed

lemma scan_inv_cat: "scan_inv uuid s \<Longrightarrow> cat_ok (sn_cat s)"
  by (simp add: scan_inv_def)

definition table_change :: "catalogue \<Rightarrow> catalogue \<Rightarrow> bool" where
  "table_change ct ct' \<longleftrightarrow> cat_ok ct' \<and> cat_ids ct' \<subseteq> cat_ids ct \<and> grows ct ct'"

definition row_change :: "string \<Rightarrow> catalogue \<Rightarrow> catalogue \<Rightarrow> bool" where
  "row_change i ct ct' \<longleftrightarrow> cat_ok ct' \<and> cat_ids ct' \<subseteq> insert i (cat_ids ct) \<and> grows ct ct'"

lemma on_cat_good:
  assumes "scan_inv uuid s" and "table_change (sn_cat s) (f (sn_cat s))"
  shows "scan_good uuid s (on_cat f s)"
  using assms by (auto simp: table_change_def scan_good_def scan_inv_def on_cat_def)

lemma with_id_good:
  assumes "scan_inv uuid s"
    and "\<And>i. i \<notin> cat_ids (sn_cat s) \<Longrightarrow> i \<noteq> [] \<Longrightarrow> row_change i (sn_cat s) (f i (sn_cat s))"
  shows "scan_good uuid s (fst (with_id uuid f s))"
proof -
  let ?i = "uuid (sn_ids s)"
  have new: "?i \<notin> cat_ids (sn_cat s)" "?i \<noteq> []" and "inj uuid" "\<forall>j \<ge> sn_ids s. uuid j \<notin> cat_ids (sn_cat s)"
    using assms(1) by (auto simp: scan_inv_def)
  then have "uuid j \<notin> insert ?i (cat_ids (sn_cat s))" if "Suc (sn_ids s) \<le> j" for j
    using that inj_eq [of uuid j "sn_ids s"] by auto
  then show ?thesis
    using assms(1) assms(2) [OF new] by (auto simp: row_change_def scan_good_def scan_inv_def with_id_def Let_def)
qed

section \<open>Changes of single tables\<close>

lemma update_media_simps [simp]:
  "keys (ct_media (update_media i f ct)) = keys (ct_media ct)" "ct_titles (update_media i f ct) = ct_titles ct"
  "ct_seasons (update_media i f ct) = ct_seasons ct" "ct_episodes (update_media i f ct) = ct_episodes ct"
  "ct_links (update_media i f ct) = ct_links ct" "ct_queue (update_media i f ct) = ct_queue ct"
  "ct_libraries (update_media i f ct) = ct_libraries ct"
  by (auto simp: update_media_def keys_def)

lemma media_change:
  assumes "cat_ok ct" and ct': "ct' = ct\<lparr>ct_media := map (\<lambda>(j, m). (j, g j m)) (ct_media ct)\<rparr>"
    and g: "\<And>j m. mf_Library (g j m) = mf_Library m" "\<And>j m. mf_Rel (g j m) = mf_Rel m"
    and movie: "\<And>j m. mf_Movie (g j m) \<noteq> mf_Movie m \<Longrightarrow> mf_Movie (g j m) \<noteq> [] \<Longrightarrow> (KindMovie, mf_Movie (g j m)) \<in> set (keys (ct_titles ct))"
  shows "table_change ct ct'"
proof -
  have k: "keys (ct_media ct') = keys (ct_media ct)" by (auto simp: keys_def ct')
  have f: "map file_key (ct_media ct') = map file_key (ct_media ct)" by (auto simp: file_key_def ct' g)
  have "mf_Movie (g j m) = [] \<or> (KindMovie, mf_Movie (g j m)) \<in> set (keys (ct_titles ct))" if "(j, m) \<in> set (ct_media ct)" for j m
  proof -
    have "mf_Movie m = [] \<or> (KindMovie, mf_Movie m) \<in> set (keys (ct_titles ct))"
      using assms(1) that by (force simp: cat_ok_def media_ok_def)
    then show ?thesis using movie [of j m] by metis
  qed
  then have m: "\<forall>e \<in> set (ct_media ct'). mf_Movie (snd e) = [] \<or> (KindMovie, mf_Movie (snd e)) \<in> set (keys (ct_titles ct))"
    by (fastforce simp: ct')
  have same: "ct_titles ct' = ct_titles ct" "ct_seasons ct' = ct_seasons ct" "ct_episodes ct' = ct_episodes ct"
    "ct_links ct' = ct_links ct" "ct_queue ct' = ct_queue ct" "ct_libraries ct' = ct_libraries ct"
    by (simp_all add: ct')
  show ?thesis
    using assms(1) m unfolding table_change_def cat_ok_def media_ok_def series_ok_def refs_ok_def cat_ids_def grows_def same k f by blast
qed

lemma update_media_change:
  assumes "cat_ok ct" and "\<And>m. mf_Library (f m) = mf_Library m" "\<And>m. mf_Rel (f m) = mf_Rel m"
    and "\<And>m. mf_Movie (f m) \<noteq> mf_Movie m \<Longrightarrow> mf_Movie (f m) \<noteq> [] \<Longrightarrow> (KindMovie, mf_Movie (f m)) \<in> set (keys (ct_titles ct))"
  shows "table_change ct (update_media i f ct)"
  by (rule media_change [OF assms(1), where g = "\<lambda>j m. if j = i then f m else m"])
     (use assms(2-4) in \<open>auto simp: update_media_def split: if_splits\<close>)

lemma unseen_change: "cat_ok ct \<Longrightarrow> table_change ct (markUnseen os_stat lib root seen ct)"
  by (rule media_change [where g = "\<lambda>j m. if mf_Library m = lib \<and> mf_Rel m \<notin> set seen
            then m\<lparr>mf_Availability := ClassifyAvailability (os_stat (mf_Abs m)) root (os_stat root)\<rparr> else m"])
     (auto simp: markUnseen_def split: if_splits)

lemma offline_change: "cat_ok ct \<Longrightarrow> table_change ct (markLibraryOffline lib ct)"
  by (rule media_change [where g = "\<lambda>j m. if mf_Library m = lib then m\<lparr>mf_Availability := Offline\<rparr> else m"])
     (auto simp: markLibraryOffline_def split: if_splits)

lemma map_of_rows: "map_of (map (\<lambda>(k, t). (k, f k t)) xs) k = map_option (f k) (map_of xs k)"
  by (induction xs) auto

lemma refresh_change:
  assumes "cat_ok ct"
  shows "table_change ct (refreshFilenameMovie i p ct)"
proof -
  let ?ct = "refreshFilenameMovie i p ct"
  let ?g = "\<lambda>k t. if k = (KindMovie, i) \<and> tr_Source t = ''filename'' \<and> tr_Unmatched t
            then t\<lparr>tr_Title := pr_Title p, tr_Year := nullYear (pr_Year p), tr_SortTitle := sortTitle (pr_Title p)\<rparr> else t"
  have k: "keys (ct_titles ?ct) = keys (ct_titles ct)" by (auto simp: refreshFilenameMovie_def keys_def)
  have "map_of (ct_titles ?ct) k = map_option (?g k) (map_of (ct_titles ct) k)" for k
    by (simp add: refreshFilenameMovie_def map_of_rows)
  then have g: "grows ct ?ct"
    by (auto simp: grows_def named_by_file_def refreshFilenameMovie_def)
  have same: "ct_media ?ct = ct_media ct" "ct_seasons ?ct = ct_seasons ct" "ct_episodes ?ct = ct_episodes ct"
    "ct_links ?ct = ct_links ct" "ct_queue ?ct = ct_queue ct"
    by (simp_all add: refreshFilenameMovie_def)
  show ?thesis
    using assms g k by (simp add: table_change_def cat_ok_def media_ok_def series_ok_def refs_ok_def cat_ids_def same)
qed

lemma link_change:
  assumes "cat_ok ct" and "f \<in> set (keys (ct_media ct))" and "e \<in> set (keys (ct_episodes ct))"
  shows "table_change ct (add_link (f, e) ct)"
  using assms by (auto simp: table_change_def add_link_def cat_ok_def media_ok_def series_ok_def refs_ok_def cat_ids_def grows_def)

lemma unlink_change:
  assumes "cat_ok ct"
  shows "table_change ct (ct\<lparr>ct_links := filter P (ct_links ct)\<rparr>)"
proof -
  have "refs_ok (ct\<lparr>ct_links := filter P (ct_links ct)\<rparr>)"
    using assms by (simp add: cat_ok_def refs_ok_def) blast
  then show ?thesis
    using assms by (simp add: table_change_def cat_ok_def media_ok_def series_ok_def cat_ids_def grows_def)
qed

lemma queue_change:
  assumes "cat_ok ct" and "k \<in> set (keys (ct_titles ct))"
  shows "table_change ct (add_queued k q ct)"
proof (cases "has_key k (ct_queue ct)")
  case True
  then show ?thesis using assms(1) by (simp add: table_change_def add_queued_def)
next
  case False
  then have "k \<notin> set (keys (ct_queue ct))" by (simp add: has_key_iff)
  then have "refs_ok (add_queued k q ct)"
    using assms False by (simp add: cat_ok_def refs_ok_def add_queued_def keys_def)
  then show ?thesis
    using assms False by (simp add: table_change_def cat_ok_def media_ok_def series_ok_def cat_ids_def grows_def add_queued_def)
qed

section \<open>New rows\<close>

lemma keys_snoc: "keys (xs @ [(k, v)]) = keys xs @ [k]"
  by (simp add: keys_def)

lemma media_row_change:
  assumes "cat_ok ct" and "i \<notin> cat_ids ct" and "mf_Movie m = []" and "file_at (mf_Library m) (mf_Rel m) ct = None"
  shows "row_change i ct (ct\<lparr>ct_media := ct_media ct @ [(i, m)]\<rparr>)"
proof -
  have "file_key (i, m) \<notin> set (map file_key (ct_media ct))"
    using assms(4) by (fastforce simp: file_at_def file_key_def find_None_iff)
  then have "media_ok (ct\<lparr>ct_media := ct_media ct @ [(i, m)]\<rparr>)"
    using assms(1-3) by (simp add: cat_ok_def media_ok_def keys_snoc cat_ids_def)
  moreover have "refs_ok (ct\<lparr>ct_media := ct_media ct @ [(i, m)]\<rparr>)"
    using assms(1) by (simp add: cat_ok_def refs_ok_def keys_snoc) blast
  ultimately show ?thesis
    using assms(1) by (auto simp: row_change_def cat_ok_def series_ok_def keys_snoc cat_ids_def grows_def)
qed

lemma title_row_change:
  assumes "cat_ok ct" and "i \<notin> cat_ids ct"
  shows "row_change i ct (add_title kind lib p i ct)"
proof -
  let ?ct = "add_title kind lib p i ct"
  have k: "(kind, i) \<notin> set (keys (ct_titles ct))" using assms(2) by (force simp: cat_ids_def)
  have ks: "keys (ct_titles ?ct) = keys (ct_titles ct) @ [(kind, i)]" by (simp add: add_title_def keys_snoc)
  have none: "map_of (ct_titles ct) (kind, i) = None" using k by (simp add: keys_def map_of_eq_None_iff)
  then have "map_of (ct_titles ?ct) k = (if k = (kind, i) then Some (new_title lib p) else map_of (ct_titles ct) k)" for k
    by (auto simp: add_title_def map_add_def split: option.splits)
  with none have "grows ct ?ct" by (auto simp: grows_def add_title_def)
  moreover have "series_ok ?ct" using assms(1) k ks by (simp add: cat_ok_def series_ok_def) (auto simp: add_title_def)
  moreover have "media_ok ?ct" "refs_ok ?ct"
    using assms(1) ks by (auto simp: cat_ok_def media_ok_def refs_ok_def add_title_def)
  ultimately show ?thesis
    using ks by (auto simp: row_change_def cat_ok_def cat_ids_def add_title_def)
qed

lemma season_row_change:
  assumes "cat_ok ct" and "i \<notin> cat_ids ct" and "(series, n) \<notin> set (map snd (ct_seasons ct))" and "(KindSeries, series) \<in> set (keys (ct_titles ct))"
  shows "row_change i ct (ct\<lparr>ct_seasons := ct_seasons ct @ [(i, series, n)]\<rparr>)"
  using assms by (auto simp: row_change_def cat_ok_def media_ok_def series_ok_def refs_ok_def cat_ids_def grows_def keys_snoc)

lemma episode_row_change:
  assumes "cat_ok ct" and "i \<notin> cat_ids ct" and "e \<notin> set (map snd (ct_episodes ct))" and "(KindSeries, ep_Series e) \<in> set (keys (ct_titles ct))"
  shows "row_change i ct (ct\<lparr>ct_episodes := ct_episodes ct @ [(i, e)]\<rparr>)"
  using assms by (auto simp: row_change_def cat_ok_def media_ok_def series_ok_def refs_ok_def cat_ids_def grows_def keys_snoc)

section \<open>Operations\<close>

lemma with_id_result: "with_id uuid f s = (t, i) \<Longrightarrow> sn_cat t = f i (sn_cat s)"
  by (auto simp: with_id_def Let_def)

lemma on_cat_cat [simp]: "sn_cat (on_cat f s) = f (sn_cat s)"
  by (simp add: on_cat_def)

lemma find_title_in: "find_title kind strict lib p ct = Some i \<Longrightarrow> (kind, i) \<in> set (keys (ct_titles ct))"
  by (force simp: find_title_def find_Some_iff keys_def in_set_conv_nth)

lemma new_title_good:
  assumes "scan_inv uuid s" and "with_id uuid (add_title kind lib p) s = (t, i)"
  shows "scan_good uuid s t \<and> (kind, i) \<in> set (keys (ct_titles (sn_cat t))) \<and> ct_media (sn_cat t) = ct_media (sn_cat s)"
proof -
  have "scan_good uuid s (fst (with_id uuid (add_title kind lib p) s))"
    by (rule with_id_good [OF assms(1)]) (rule title_row_change [OF scan_inv_cat [OF assms(1)]])
  then show ?thesis using assms(2) with_id_result [OF assms(2)] by (simp add: add_title_def keys_snoc)
qed

lemma ensureMovie_good:
  assumes "scan_inv uuid s" and "existing = [] \<or> (KindMovie, existing) \<in> set (keys (ct_titles (sn_cat s)))"
    and "ensureMovie uuid lib p existing s = (t, i)"
  shows "scan_good uuid s t \<and> (KindMovie, i) \<in> set (keys (ct_titles (sn_cat t))) \<and> ct_media (sn_cat t) = ct_media (sn_cat s)"
proof (cases "existing = []")
  case True
  then show ?thesis
    using assms find_title_in scan_good_refl new_title_good by (auto simp: ensureMovie_def split: option.splits)
next
  case False
  then have r: "t = on_cat (refreshFilenameMovie existing p) s" "i = existing" "(KindMovie, i) \<in> set (keys (ct_titles (sn_cat s)))"
    using assms(2,3) by (auto simp: ensureMovie_def)
  have "scan_good uuid s t"
    unfolding r(1) by (rule on_cat_good [OF assms(1)]) (rule refresh_change [OF scan_inv_cat [OF assms(1)]])
  moreover have "ct_media (sn_cat t) = ct_media (sn_cat s)" by (simp add: r(1) refreshFilenameMovie_def)
  ultimately show ?thesis using scan_goodD(2) [of uuid s t] r(3) by blast
qed

lemma ensure_series_good:
  assumes "scan_inv uuid s" and "ensure_series uuid lib p s = (t, i)"
  shows "scan_good uuid s t \<and> (KindSeries, i) \<in> set (keys (ct_titles (sn_cat t))) \<and> ct_media (sn_cat t) = ct_media (sn_cat s)"
  using assms find_title_in scan_good_refl new_title_good by (auto simp: ensure_series_def split: option.splits)

lemma ensure_season_good:
  assumes "scan_inv uuid s" and "(KindSeries, series) \<in> set (keys (ct_titles (sn_cat s)))"
  shows "scan_good uuid s (ensure_season uuid series n s) \<and> ct_media (sn_cat (ensure_season uuid series n s)) = ct_media (sn_cat s)"
proof (cases "list_ex (\<lambda>(i, sn). sn = (series, n)) (ct_seasons (sn_cat s))")
  case True
  then show ?thesis using assms(1) scan_good_refl by (simp add: ensure_season_def)
next
  case False
  then have new: "(series, n) \<notin> set (map snd (ct_seasons (sn_cat s)))" by (auto simp: list_ex_iff)
  have "scan_good uuid s (fst (with_id uuid (\<lambda>i ct. ct\<lparr>ct_seasons := ct_seasons ct @ [(i, series, n)]\<rparr>) s))"
    by (rule with_id_good [OF assms(1)]) (rule season_row_change [OF scan_inv_cat [OF assms(1)] _ new assms(2)])
  then show ?thesis using False by (simp add: ensure_season_def with_id_def Let_def)
qed

lemma ensure_episode_good:
  assumes inv: "scan_inv uuid s" and series: "(KindSeries, ep_Series e) \<in> set (keys (ct_titles (sn_cat s)))"
    and f: "f \<in> set (keys (ct_media (sn_cat s)))"
  shows "scan_good uuid s (ensure_episode uuid e f s) \<and> ct_media (sn_cat (ensure_episode uuid e f s)) = ct_media (sn_cat s)"
proof -
  obtain t i where t: "(case find (\<lambda>(i, e'). e' = e) (ct_episodes (sn_cat s)) of
                      Some (i, _) \<Rightarrow> (s, i)
                    | None \<Rightarrow> with_id uuid (\<lambda>i ct. ct\<lparr>ct_episodes := ct_episodes ct @ [(i, e)]\<rparr>) s) = (t, i)"
    by fastforce
  have first: "scan_good uuid s t \<and> i \<in> set (keys (ct_episodes (sn_cat t))) \<and> ct_media (sn_cat t) = ct_media (sn_cat s)"
  proof (cases "find (\<lambda>(i, e'). e' = e) (ct_episodes (sn_cat s))")
    case None
    then have new: "e \<notin> set (map snd (ct_episodes (sn_cat s)))" by (auto simp: find_None_iff)
    have w: "with_id uuid (\<lambda>i ct. ct\<lparr>ct_episodes := ct_episodes ct @ [(i, e)]\<rparr>) s = (t, i)" using t None by simp
    have "scan_good uuid s (fst (with_id uuid (\<lambda>i ct. ct\<lparr>ct_episodes := ct_episodes ct @ [(i, e)]\<rparr>) s))"
      by (rule with_id_good [OF inv]) (rule episode_row_change [OF scan_inv_cat [OF inv] _ new series])
    then show ?thesis using w with_id_result [OF w] by (simp add: keys_snoc)
  next
    case (Some p)
    then have "t = s" "i = fst p" using t by (auto split: prod.splits)
    moreover have "p \<in> set (ct_episodes (sn_cat s))" using Some by (metis find_Some_iff nth_mem)
    ultimately show ?thesis using inv scan_good_refl by (auto simp: keys_def)
  qed
  have "f \<in> set (keys (ct_media (sn_cat t)))" using first f by simp
  then have "table_change (sn_cat t) (add_link (f, i) (sn_cat t))"
    using first scan_goodD(1) scan_inv_cat link_change by metis
  then have "scan_good uuid t (on_cat (add_link (f, i)) t)" using first on_cat_good scan_goodD(1) by blast
  then have "scan_good uuid s (on_cat (add_link (f, i)) t)" using first scan_good_trans by blast
  moreover have "ensure_episode uuid e f s = on_cat (add_link (f, i)) t" unfolding ensure_episode_def t by simp
  moreover have "ct_media (add_link (f, i) (sn_cat t)) = ct_media (sn_cat t)" by (simp add: add_link_def)
  ultimately show ?thesis using first by simp
qed

lemma episodes_good:
  assumes "scan_inv uuid s" and "(KindSeries, series) \<in> set (keys (ct_titles (sn_cat s)))" and "f \<in> set (keys (ct_media (sn_cat s)))"
  shows "scan_good uuid s (foldl (\<lambda>s n. ensure_episode uuid \<lparr>ep_Series = series, ep_Season = sn, ep_Number = n\<rparr> f s) s ns) \<and>
    ct_media (sn_cat (foldl (\<lambda>s n. ensure_episode uuid \<lparr>ep_Series = series, ep_Season = sn, ep_Number = n\<rparr> f s) s ns)) = ct_media (sn_cat s)"
  using assms
proof (induction ns arbitrary: s)
  case Nil
  then show ?case by (simp add: scan_good_refl)
next
  case (Cons n ns)
  let ?t = "ensure_episode uuid \<lparr>ep_Series = series, ep_Season = sn, ep_Number = n\<rparr> f s"
  have t: "scan_good uuid s ?t" "ct_media (sn_cat ?t) = ct_media (sn_cat s)"
    using ensure_episode_good [OF Cons.prems(1) _ Cons.prems(3)] Cons.prems(2) by simp_all
  from Cons.IH [OF scan_goodD(1) [OF t(1)] scan_goodD(2) [OF t(1) Cons.prems(2)]] t Cons.prems(3)
  show ?case by (auto intro: scan_good_trans)
qed

lemma ensureEpisodes_good:
  assumes "scan_inv uuid s" and "f \<in> set (keys (ct_media (sn_cat s)))"
  shows "scan_good uuid s (ensureEpisodes uuid lib f p s) \<and> ct_media (sn_cat (ensureEpisodes uuid lib f p s)) = ct_media (sn_cat s)"
proof -
  obtain t series where t: "ensure_series uuid lib p s = (t, series)" by fastforce
  note a = ensure_series_good [OF assms(1) t]
  let ?u = "ensure_season uuid series (pr_Season p) t"
  have u: "scan_good uuid t ?u" "ct_media (sn_cat ?u) = ct_media (sn_cat t)"
    using ensure_season_good [of uuid t series "pr_Season p"] a scan_goodD(1) by blast+
  have s: "(KindSeries, series) \<in> set (keys (ct_titles (sn_cat ?u)))" using a u(1) scan_goodD(2) by blast
  have m: "f \<in> set (keys (ct_media (sn_cat ?u)))" using a u(2) assms(2) by simp
  note e = episodes_good [OF scan_goodD(1) [OF u(1)] s m, of "pr_Season p" "if pr_Episodes p = [] then [0] else pr_Episodes p"]
  have "scan_good uuid s ?u" using a u(1) scan_good_trans by blast
  then show ?thesis
    using e a u(2) scan_good_trans [of uuid s ?u] by (simp add: ensureEpisodes_def t Let_def)
qed

lemma guessExtraMovie_good:
  assumes "scan_inv uuid s" and "guessExtraMovie uuid lib rel p s = (t, i)"
  shows "scan_good uuid s t \<and> (i = [] \<or> (KindMovie, i) \<in> set (keys (ct_titles (sn_cat t)))) \<and> ct_media (sn_cat t) = ct_media (sn_cat s)"
  using assms ensureMovie_good [OF assms(1), of "[]"] scan_good_refl
  by (auto simp: guessExtraMovie_def split: option.splits if_splits)

section \<open>The row of a file\<close>

lemma file_at_cong: "ct_media ct' = ct_media ct \<Longrightarrow> file_at l r ct' = file_at l r ct"
  by (simp add: file_at_def)

lemma file_at_in: "file_at l r ct = Some (i, m) \<Longrightarrow> (i, m) \<in> set (ct_media ct) \<and> mf_Library m = l \<and> mf_Rel m = r"
  by (auto simp: file_at_def find_Some_iff in_set_conv_nth)

lemma file_at_snoc:
  "file_at l r (ct\<lparr>ct_media := ct_media ct @ [(i, m)]\<rparr>) =
     (case file_at l r ct of Some e \<Rightarrow> Some e | None \<Rightarrow> if (l, r) = (mf_Library m, mf_Rel m) then Some (i, m) else None)"
proof -
  have "find P (xs @ [x]) = (case find P xs of Some e \<Rightarrow> Some e | None \<Rightarrow> if P x then Some x else None)" for P and xs :: "(string \<times> media_row) list" and x
    by (induction xs) auto
  then show ?thesis by (auto simp: file_at_def split: option.splits)
qed

lemma file_at_media: "file_at l r ct = Some (i, m) \<Longrightarrow> i \<in> set (keys (ct_media ct))"
  by (force simp: keys_def dest: file_at_in)

lemma find_rows:
  "(\<And>m. mf_Library (g m) = mf_Library m) \<Longrightarrow> (\<And>m. mf_Rel (g m) = mf_Rel m) \<Longrightarrow>
   find (\<lambda>(i, m). mf_Library m = l \<and> mf_Rel m = r) (map (\<lambda>(j, m). (j, if P j m then g m else m)) xs)
     = map_option (\<lambda>(j, m). (j, if P j m then g m else m)) (find (\<lambda>(i, m). mf_Library m = l \<and> mf_Rel m = r) xs)"
  by (induction xs) (auto split: if_splits)

lemma file_at_update:
  "(\<And>m. mf_Library (g m) = mf_Library m) \<Longrightarrow> (\<And>m. mf_Rel (g m) = mf_Rel m) \<Longrightarrow>
   file_at l r (update_media i g ct) = map_option (\<lambda>(j, m). (j, if j = i then g m else m)) (file_at l r ct)"
  by (simp add: file_at_def update_media_def find_rows [where P = "\<lambda>j m. j = i"])

lemma file_at_same_id:
  assumes "cat_ok ct" and "file_at l r ct = Some (i, m)" and "file_at l' r' ct = Some (i, m')"
  shows "l' = l \<and> r' = r"
proof -
  have "distinct (map fst (ct_media ct))" using assms(1) by (simp add: cat_ok_def media_ok_def keys_def)
  then have "m' = m" using file_at_in [OF assms(2)] file_at_in [OF assms(3)] by (metis eq_key_imp_eq_value)
  then show ?thesis using file_at_in [OF assms(2)] file_at_in [OF assms(3)] by simp
qed

text \<open>\<open>others_kept\<close>: no other file of any library changes its row.\<close>

definition others_kept :: "string \<Rightarrow> string \<Rightarrow> catalogue \<Rightarrow> catalogue \<Rightarrow> bool" where
  "others_kept lib rel ct ct' \<longleftrightarrow> (\<forall>l r. (l, r) \<noteq> (lib, rel) \<longrightarrow> file_at l r ct' = file_at l r ct)"

lemma update_file:
  assumes "cat_ok ct" and "file_at lib rel ct = Some (i, m)"
    and "\<And>m. mf_Library (g m) = mf_Library m" "\<And>m. mf_Rel (g m) = mf_Rel m"
  shows "file_at lib rel (update_media i g ct) = Some (i, g m) \<and> others_kept lib rel ct (update_media i g ct)"
proof -
  have "file_at l r (update_media i g ct) = file_at l r ct" if "(l, r) \<noteq> (lib, rel)" for l r
    using file_at_same_id [OF assms(1,2), of l r] that
    by (cases "file_at l r ct") (auto simp: file_at_update [OF assms(3,4)])
  then show ?thesis using assms(2) by (simp add: others_kept_def file_at_update [OF assms(3,4)])
qed

definition saved :: "found_file \<Rightarrow> media_row \<Rightarrow> bool" where
  "saved f m \<longleftrightarrow> mf_Abs m = ff_Abs f \<and> mf_Size m = ff_Size f \<and> mf_MTime m = ff_MTime f \<and> mf_Availability m = Online
     \<and> mf_Kind m = scan_kind (Parse (ff_Rel f))"

lemma save_file_facts:
  assumes inv: "scan_inv uuid s" and r: "save_file uuid lib f (Parse (ff_Rel f)) (scan_kind (Parse (ff_Rel f))) s = (t, i)"
  shows "scan_good uuid s t \<and> others_kept lib (ff_Rel f) (sn_cat s) (sn_cat t) \<and>
    (\<exists>m. file_at lib (ff_Rel f) (sn_cat t) = Some (i, m) \<and> saved f m \<and>
       mf_Movie m = (case file_at lib (ff_Rel f) (sn_cat s) of Some (_, m) \<Rightarrow> mf_Movie m | None \<Rightarrow> []))"
proof (cases "file_at lib (ff_Rel f) (sn_cat s)")
  case None
  let ?row = "new_row lib f (Parse (ff_Rel f)) (scan_kind (Parse (ff_Rel f)))"
  have w: "with_id uuid (\<lambda>i ct. ct\<lparr>ct_media := ct_media ct @ [(i, ?row)]\<rparr>) s = (t, i)" using r None by (simp add: save_file_def)
  have "scan_good uuid s (fst (with_id uuid (\<lambda>i ct. ct\<lparr>ct_media := ct_media ct @ [(i, ?row)]\<rparr>) s))"
    by (rule with_id_good [OF inv], rule media_row_change [OF scan_inv_cat [OF inv]]) (auto simp: new_row_def None)
  moreover have "file_at l r (sn_cat t) = (case file_at l r (sn_cat s) of Some e \<Rightarrow> Some e
      | None \<Rightarrow> if (l, r) = (lib, ff_Rel f) then Some (i, ?row) else None)" for l r
    using with_id_result [OF w] by (simp add: file_at_snoc new_row_def split: option.splits)
  ultimately show ?thesis
    using None w by (auto simp: others_kept_def saved_def new_row_def Online_def split: option.splits)
next
  case (Some e)
  then obtain m where e: "file_at lib (ff_Rel f) (sn_cat s) = Some (i, m)"
    and t: "t = on_cat (update_media i (saved_row f (Parse (ff_Rel f)) (scan_kind (Parse (ff_Rel f))))) s"
    using r by (cases e) (auto simp: save_file_def)
  have "scan_good uuid s t"
    unfolding t by (rule on_cat_good [OF inv], rule update_media_change [OF scan_inv_cat [OF inv]]) (auto simp: saved_row_def)
  then show ?thesis
    using update_file [OF scan_inv_cat [OF inv] e, of "saved_row f (Parse (ff_Rel f)) (scan_kind (Parse (ff_Rel f)))"] e
    by (simp add: t saved_row_def saved_def Online_def)
qed

definition movie_set :: "string \<Rightarrow> string \<Rightarrow> string \<Rightarrow> catalogue \<Rightarrow> catalogue \<Rightarrow> bool" where
  "movie_set lib rel i ct ct' \<longleftrightarrow> others_kept lib rel ct ct' \<and>
     (\<forall>m. file_at lib rel ct = Some (i, m) \<longrightarrow> (\<exists>movie. file_at lib rel ct' = Some (i, m\<lparr>mf_Movie := movie\<rparr>)))"

lemma movie_set_same: "ct_media ct' = ct_media ct \<Longrightarrow> movie_set lib rel i ct ct'"
proof -
  have "\<exists>movie. m = m\<lparr>mf_Movie := movie\<rparr>" for m :: media_row
    by (rule exI [of _ "mf_Movie m"]) simp
  moreover assume "ct_media ct' = ct_media ct"
  ultimately show ?thesis using file_at_cong [of ct' ct] by (auto simp: movie_set_def others_kept_def)
qed

lemma set_movie_good:
  assumes "scan_inv uuid s" and "(KindMovie, movie) \<in> set (keys (ct_titles (sn_cat s)))" and "file_at lib rel (sn_cat s) = Some (i, m)"
  shows "scan_good uuid s (on_cat (update_media i (\<lambda>m. m\<lparr>mf_Movie := movie\<rparr>)) s) \<and>
    movie_set lib rel i (sn_cat s) (sn_cat (on_cat (update_media i (\<lambda>m. m\<lparr>mf_Movie := movie\<rparr>)) s))"
proof -
  have "table_change (sn_cat s) (update_media i (\<lambda>m. m\<lparr>mf_Movie := movie\<rparr>) (sn_cat s))"
    using assms(2) by (intro update_media_change [OF scan_inv_cat [OF assms(1)]]) auto
  moreover have "file_at lib rel (update_media i (\<lambda>m. m\<lparr>mf_Movie := movie\<rparr>) (sn_cat s)) = Some (i, m\<lparr>mf_Movie := movie\<rparr>)
      \<and> others_kept lib rel (sn_cat s) (update_media i (\<lambda>m. m\<lparr>mf_Movie := movie\<rparr>) (sn_cat s))"
    by (rule update_file [OF scan_inv_cat [OF assms(1)] assms(3)]) simp_all
  ultimately show ?thesis using on_cat_good [OF assms(1)] assms(3) by (auto simp: movie_set_def)
qed

lemma movie_set_trans:
  assumes "ct_media ct' = ct_media ct" and "movie_set lib rel i ct' ct''"
  shows "movie_set lib rel i ct ct''"
  using assms file_at_cong [OF assms(1)] by (simp add: movie_set_def others_kept_def)

lemma title_file_facts:
  assumes inv: "scan_inv uuid s" and e: "file_at lib rel (sn_cat s) = Some (i, m)"
    and movie: "existing = [] \<or> (KindMovie, existing) \<in> set (keys (ct_titles (sn_cat s)))"
  shows "scan_good uuid s (title_file uuid lib contentType rel i existing kind p s) \<and>
    movie_set lib rel i (sn_cat s) (sn_cat (title_file uuid lib contentType rel i existing kind p s))"
proof -
  have set_good: "scan_good uuid s (on_cat (update_media i (\<lambda>m. m\<lparr>mf_Movie := j\<rparr>)) t) \<and>
      movie_set lib rel i (sn_cat s) (sn_cat (on_cat (update_media i (\<lambda>m. m\<lparr>mf_Movie := j\<rparr>)) t))"
    if "scan_good uuid s t" "(KindMovie, j) \<in> set (keys (ct_titles (sn_cat t)))" "ct_media (sn_cat t) = ct_media (sn_cat s)" for t j
  proof -
    have "file_at lib rel (sn_cat t) = Some (i, m)" using e file_at_cong [OF that(3)] by simp
    from set_movie_good [OF scan_goodD(1) [OF that(1)] that(2) this] show ?thesis
      using scan_good_trans [OF that(1)] movie_set_trans [OF that(3)] by blast
  qed
  obtain t j where t: "ensureMovie uuid lib p existing s = (t, j)" by fastforce
  obtain u k where u: "guessExtraMovie uuid lib rel p s = (u, k)" by fastforce
  show ?thesis
    using set_good [of t j] set_good [of u k] ensureMovie_good [OF inv movie t] guessExtraMovie_good [OF inv u]
      ensureEpisodes_good [OF inv file_at_media [OF e], of lib p] scan_good_refl [OF inv] movie_set_same
    by (auto simp: title_file_def t u)
qed

lemma enqueue_cases:
  "enqueueMatch kind lib p ct = ct \<or> (\<exists>k q. k \<in> set (keys (ct_titles ct)) \<and> enqueueMatch kind lib p ct = add_queued k q ct)"
proof -
  define k where "k = (if kind = KindMovie then KindMovie else if kind = KindEpisode then KindSeries else [])"
  have "enqueueMatch kind lib p ct = ct \<or>
      (\<exists>i. find_title k False lib p ct = Some i \<and> enqueueMatch kind lib p ct = add_queued (k, i) (pr_Title p, nullYear (pr_Year p)) ct)"
    by (simp add: enqueueMatch_def Let_def k_def [symmetric] split: option.split)
  then show ?thesis using find_title_in by blast
qed

lemma enqueue_good:
  assumes "scan_inv uuid s"
  shows "scan_good uuid s (on_cat (enqueueMatch kind lib p) s) \<and> ct_media (enqueueMatch kind lib p ct) = ct_media ct"
proof -
  have "table_change (sn_cat s) (enqueueMatch kind lib p (sn_cat s))"
  proof -
    have "table_change (sn_cat s) (sn_cat s)" using scan_inv_cat [OF assms] by (simp add: table_change_def)
    then show ?thesis using enqueue_cases [of kind lib p "sn_cat s"] queue_change [OF scan_inv_cat [OF assms]] by metis
  qed
  moreover have "ct_media (enqueueMatch kind lib p ct) = ct_media ct"
    using enqueue_cases [of kind lib p ct] by (auto simp: add_queued_def)
  ultimately show ?thesis using on_cat_good [OF assms] by blast
qed

lemma file_movie_exists:
  assumes "scan_inv uuid s" and "file_at l r (sn_cat s) = Some (i, m)"
  shows "mf_Movie m = [] \<or> (KindMovie, mf_Movie m) \<in> set (keys (ct_titles (sn_cat s)))"
  using scan_inv_cat [OF assms(1)] file_at_in [OF assms(2)] by (force simp: cat_ok_def media_ok_def)

text \<open>Which files get a row, and what it says.\<close>

definition accepted :: "string \<Rightarrow> string \<Rightarrow> catalogue \<Rightarrow> found_file \<Rightarrow> bool" where
  "accepted lib contentType ct f \<longleftrightarrow>
     \<not> pr_Skip (Parse (ff_Rel f)) \<and> (file_at lib (ff_Rel f) ct \<noteq> None \<or> kindFits contentType (scan_kind (Parse (ff_Rel f))))"

lemma upsertFile_refused: "\<not> accepted lib contentType (sn_cat s) f \<Longrightarrow> fst (upsertFile uuid lib contentType f s) = s"
  by (auto simp: accepted_def upsertFile_def Let_def)

lemma upsertFile_added:
  "(case snd (upsertFile uuid lib contentType f s) of Inl _ \<Rightarrow> 0 | Inr n \<Rightarrow> n)
     = (if accepted lib contentType (sn_cat s) f \<and> file_at lib (ff_Rel f) (sn_cat s) = None then 1 else 0)"
  by (simp add: accepted_def upsertFile_def Let_def split_beta)

lemma upsertFile_facts:
  assumes inv: "scan_inv uuid s" and acc: "accepted lib contentType (sn_cat s) f"
    and t: "t = fst (upsertFile uuid lib contentType f s)"
  shows "scan_good uuid s t \<and> others_kept lib (ff_Rel f) (sn_cat s) (sn_cat t) \<and>
    (\<exists>i m. file_at lib (ff_Rel f) (sn_cat t) = Some (i, m) \<and> saved f m)"
proof -
  let ?p = "Parse (ff_Rel f)" and ?kind = "scan_kind (Parse (ff_Rel f))"
  obtain u i where u: "save_file uuid lib f ?p ?kind s = (u, i)" by fastforce
  define existing where "existing = (case file_at lib (ff_Rel f) (sn_cat s) of Some (_, m) \<Rightarrow> mf_Movie m | None \<Rightarrow> [])"
  obtain m where m: "scan_good uuid s u" "others_kept lib (ff_Rel f) (sn_cat s) (sn_cat u)"
    "file_at lib (ff_Rel f) (sn_cat u) = Some (i, m)" "saved f m" "mf_Movie m = existing"
    using save_file_facts [OF inv u] unfolding existing_def by blast
  note invu = scan_goodD(1) [OF m(1)]
  have movie: "existing = [] \<or> (KindMovie, existing) \<in> set (keys (ct_titles (sn_cat u)))"
    using file_movie_exists [OF invu m(3)] m(5) by simp
  define v where "v = title_file uuid lib contentType (ff_Rel f) i existing ?kind ?p u"
  have v: "scan_good uuid u v" "movie_set lib (ff_Rel f) i (sn_cat u) (sn_cat v)"
    using title_file_facts [OF invu m(3) movie] by (auto simp: v_def)
  have r: "t = on_cat (enqueueMatch ?kind lib ?p) v"
    using acc u by (auto simp: t upsertFile_def accepted_def Let_def v_def existing_def)
  have q: "scan_good uuid v t" "ct_media (sn_cat t) = ct_media (sn_cat v)"
    using enqueue_good [OF scan_goodD(1) [OF v(1)]] by (simp_all add: r)
  have "scan_good uuid s t" using m(1) v(1) q(1) scan_good_trans by blast
  moreover have "others_kept lib (ff_Rel f) (sn_cat s) (sn_cat t)"
    using m(2) v(2) file_at_cong [OF q(2)] by (simp add: movie_set_def others_kept_def)
  moreover obtain movie where "file_at lib (ff_Rel f) (sn_cat t) = Some (i, m\<lparr>mf_Movie := movie\<rparr>)"
    using v(2) m(3) file_at_cong [OF q(2)] by (auto simp: movie_set_def)
  moreover have "saved f (m\<lparr>mf_Movie := movie\<rparr>)" using m(4) by (simp add: saved_def)
  ultimately show ?thesis by blast
qed

lemma upsertFile_good: "scan_inv uuid s \<Longrightarrow> scan_good uuid s (fst (upsertFile uuid lib contentType f s))"
  using upsertFile_facts upsertFile_refused scan_good_refl by (metis (no_types))

section \<open>Scans\<close>

text \<open>After cataloguing \<open>fs\<close>: accepted files have their rows, refused ones none, and nothing else changed.\<close>

definition catalogued :: "string \<Rightarrow> string \<Rightarrow> found_file list \<Rightarrow> catalogue \<Rightarrow> catalogue \<Rightarrow> bool" where
  "catalogued lib contentType fs ct ct' \<longleftrightarrow>
     (\<forall>f \<in> set fs. if accepted lib contentType ct f then \<exists>i m. file_at lib (ff_Rel f) ct' = Some (i, m) \<and> saved f m
                  else file_at lib (ff_Rel f) ct' = file_at lib (ff_Rel f) ct)
     \<and> (\<forall>l r. l \<noteq> lib \<or> r \<notin> ff_Rel ` set fs \<longrightarrow> file_at l r ct' = file_at l r ct)"

lemma catalogued_Nil [simp]: "catalogued lib contentType [] ct ct"
  by (simp add: catalogued_def)

lemma accepted_cong: "file_at lib (ff_Rel f) ct' = file_at lib (ff_Rel f) ct \<Longrightarrow> accepted lib contentType ct' f = accepted lib contentType ct f"
  by (simp add: accepted_def)

lemma catalogued_other:
  "catalogued lib contentType fs ct ct' \<Longrightarrow> l \<noteq> lib \<or> r \<notin> ff_Rel ` set fs \<Longrightarrow> file_at l r ct' = file_at l r ct"
  unfolding catalogued_def by blast

lemma catalogued_accepted:
  "catalogued lib contentType fs ct ct' \<Longrightarrow> f \<in> set fs \<Longrightarrow> accepted lib contentType ct f \<Longrightarrow>
     \<exists>i m. file_at lib (ff_Rel f) ct' = Some (i, m) \<and> saved f m"
  unfolding catalogued_def by metis

lemma catalogued_refused:
  "catalogued lib contentType fs ct ct' \<Longrightarrow> f \<in> set fs \<Longrightarrow> \<not> accepted lib contentType ct f \<Longrightarrow>
     file_at lib (ff_Rel f) ct' = file_at lib (ff_Rel f) ct"
  unfolding catalogued_def by metis

lemma cataloguedI:
  assumes "\<And>f. f \<in> set fs \<Longrightarrow> accepted lib contentType ct f \<Longrightarrow> \<exists>i m. file_at lib (ff_Rel f) ct' = Some (i, m) \<and> saved f m"
    and "\<And>f. f \<in> set fs \<Longrightarrow> \<not> accepted lib contentType ct f \<Longrightarrow> file_at lib (ff_Rel f) ct' = file_at lib (ff_Rel f) ct"
    and "\<And>l r. l \<noteq> lib \<or> r \<notin> ff_Rel ` set fs \<Longrightarrow> file_at l r ct' = file_at l r ct"
  shows "catalogued lib contentType fs ct ct'"
  unfolding catalogued_def
proof (intro conjI ballI allI impI)
  fix f assume f: "f \<in> set fs"
  show "if accepted lib contentType ct f then \<exists>i m. file_at lib (ff_Rel f) ct' = Some (i, m) \<and> saved f m
      else file_at lib (ff_Rel f) ct' = file_at lib (ff_Rel f) ct"
    using assms(1) [OF f] assms(2) [OF f] by (cases "accepted lib contentType ct f") simp_all
qed (rule assms(3))

lemma catalogued_append:
  assumes a: "catalogued lib contentType fs ct ct'" and b: "catalogued lib contentType gs ct' ct''"
    and d: "ff_Rel ` set fs \<inter> ff_Rel ` set gs = {}"
  shows "catalogued lib contentType (fs @ gs) ct ct''"
proof -
  have f: "file_at lib (ff_Rel f) ct'' = file_at lib (ff_Rel f) ct'" if "f \<in> set fs" for f
    using d that by (intro catalogued_other [OF b]) blast
  have g: "file_at lib (ff_Rel f) ct' = file_at lib (ff_Rel f) ct" if "f \<in> set gs" for f
    using d that by (intro catalogued_other [OF a]) blast
  show ?thesis
  proof (rule cataloguedI, goal_cases)
    case (1 f)
    show ?case
    proof (cases "f \<in> set fs")
      case True
      then show ?thesis using catalogued_accepted [OF a True 1(2)] f by simp
    next
      case False
      then have "f \<in> set gs" using 1(1) by simp
      then show ?thesis using catalogued_accepted [OF b] accepted_cong [OF g] 1(2) by blast
    qed
  next
    case (2 f)
    show ?case
    proof (cases "f \<in> set fs")
      case True
      then show ?thesis using catalogued_refused [OF a True 2(2)] f by simp
    next
      case False
      then have m: "f \<in> set gs" using 2(1) by simp
      then have "\<not> accepted lib contentType ct' f" using accepted_cong [OF g] 2(2) by blast
      then show ?thesis using catalogued_refused [OF b m] g [OF m] by simp
    qed
  next
    case (3 l r)
    then have "l \<noteq> lib \<or> r \<notin> ff_Rel ` set fs" "l \<noteq> lib \<or> r \<notin> ff_Rel ` set gs" by auto
    then show ?case using catalogued_other [OF a] catalogued_other [OF b] by presburger
  qed
qed

lemma catalogued_one:
  assumes "scan_inv uuid s"
  shows "catalogued lib contentType [f] (sn_cat s) (sn_cat (fst (upsertFile uuid lib contentType f s)))"
proof (cases "accepted lib contentType (sn_cat s) f")
  case True
  note u = upsertFile_facts [OF assms True refl]
  show ?thesis using u True by (intro cataloguedI) (auto simp: others_kept_def)
next
  case False
  then show ?thesis by (simp add: upsertFile_refused catalogued_def)
qed

text \<open>How many files are new.\<close>

definition news :: "string \<Rightarrow> string \<Rightarrow> catalogue \<Rightarrow> found_file list \<Rightarrow> nat" where
  "news lib contentType ct fs = length (filter (\<lambda>f. accepted lib contentType ct f \<and> file_at lib (ff_Rel f) ct = None) fs)"

lemma news_cong:
  "(\<And>f. f \<in> set fs \<Longrightarrow> file_at lib (ff_Rel f) ct' = file_at lib (ff_Rel f) ct) \<Longrightarrow> news lib contentType ct' fs = news lib contentType ct fs"
  unfolding news_def by (intro arg_cong [of _ _ length] filter_cong refl) (simp add: accepted_def)

lemma news_split: "news lib contentType ct fs = news lib contentType ct (take n fs) + news lib contentType ct (drop n fs)"
  unfolding news_def by (metis append_take_drop_id filter_append length_append)

lemma upsert_files_facts:
  assumes "scan_inv uuid s" and "distinct (map ff_Rel fs)" and "upsert_files uuid lib contentType fs s = (t, added, refused)"
  shows "scan_good uuid s t \<and> catalogued lib contentType fs (sn_cat s) (sn_cat t) \<and> added = news lib contentType (sn_cat s) fs"
  using assms
proof (induction fs arbitrary: s t added refused)
  case Nil
  then show ?case by (simp add: scan_good_refl news_def)
next
  case (Cons f fs)
  obtain u r where u: "upsertFile uuid lib contentType f s = (u, r)" by fastforce
  obtain added' refused' where v: "upsert_files uuid lib contentType fs u = (t, added', refused')"
    and added: "added = (case r of Inl _ \<Rightarrow> 0 | Inr n \<Rightarrow> n) + added'"
    using Cons.prems(3) u by (auto split: prod.splits sum.splits)
  have good: "scan_good uuid s u" using upsertFile_good [OF Cons.prems(1), of lib contentType f] u by simp
  have one: "catalogued lib contentType [f] (sn_cat s) (sn_cat u)" using catalogued_one [OF Cons.prems(1), of lib contentType f] u by simp
  have d: "ff_Rel f \<notin> ff_Rel ` set fs" "distinct (map ff_Rel fs)" using Cons.prems(2) by simp_all
  note ih = Cons.IH [OF scan_goodD(1) [OF good] d(2) v]
  have "catalogued lib contentType ([f] @ fs) (sn_cat s) (sn_cat t)"
    using catalogued_append [OF one] ih d(1) by simp
  moreover have "news lib contentType (sn_cat u) fs = news lib contentType (sn_cat s) fs"
    using d(1) by (intro news_cong catalogued_other [OF one]) (auto intro: rev_image_eqI)
  ultimately show ?case
    using ih good scan_good_trans upsertFile_added [of uuid lib contentType f s] u added
    by (auto simp: news_def)
qed

lemma catalogue_files_facts:
  assumes "scan_inv uuid s" and "distinct (map ff_Rel fs)" and "catalogue_files commit n uuid lib contentType fs s = (t, added, ok)"
  shows "scan_good uuid s t \<and> (ok \<longrightarrow> catalogued lib contentType fs (sn_cat s) (sn_cat t) \<and> added = news lib contentType (sn_cat s) fs)"
  using assms
proof (induction commit n uuid lib contentType fs s arbitrary: t added ok rule: catalogue_files.induct)
  case (1 commit n uuid lib contentType fs s)
  show ?case
  proof (cases "fs = []")
    case True
    then show ?thesis using 1(2,4) by (auto simp: catalogue_files.simps scan_good_refl news_def)
  next
    case False
    let ?now = "take catalogueBatchSize fs" and ?later = "drop catalogueBatchSize fs"
    obtain u a r where u: "upsert_files uuid lib contentType ?now s = (u, a, r)" by (metis prod_cases3)
    have d: "distinct (map ff_Rel ?now)" "distinct (map ff_Rel ?later)"
      using 1(3) by (simp_all add: take_map [symmetric] drop_map [symmetric])
    have sep: "ff_Rel ` set ?now \<inter> ff_Rel ` set ?later = {}"
      using 1(3) set_take_disj_set_drop_if_distinct [of "map ff_Rel fs" catalogueBatchSize catalogueBatchSize]
      by (simp add: take_map drop_map)
    note facts = upsert_files_facts [OF 1(2) d(1) u]
    show ?thesis
    proof (cases "commit n")
      case False
      then show ?thesis using 1(2,4) \<open>fs \<noteq> []\<close> u by (auto simp: catalogue_files.simps catalogueBatch_def scan_good_refl)
    next
      case True
      obtain others where v: "catalogue_files commit (Suc n) uuid lib contentType ?later u = (t, others, ok)" and added: "added = a + others"
        using 1(4) \<open>fs \<noteq> []\<close> u True by (subst (asm) catalogue_files.simps) (auto simp: catalogueBatch_def split: prod.splits)
      have good: "scan_good uuid s u" using facts by blast
      have ih: "scan_good uuid u t \<and> (ok \<longrightarrow> catalogued lib contentType ?later (sn_cat u) (sn_cat t) \<and> others = news lib contentType (sn_cat u) ?later)"
        using "1.IH" [OF False] u True scan_goodD(1) [OF good] d(2) v by (simp add: catalogueBatch_def)
      have cat: "catalogued lib contentType fs (sn_cat s) (sn_cat t)" if ok
        using catalogued_append [OF _ _ sep] facts ih that by (metis append_take_drop_id)
      have "news lib contentType (sn_cat u) ?later = news lib contentType (sn_cat s) ?later"
        using sep facts by (intro news_cong catalogued_other) auto
      then have "added = news lib contentType (sn_cat s) fs" if ok
        using facts ih that added news_split [of lib contentType "sn_cat s" fs catalogueBatchSize] by simp
      then show ?thesis using cat good ih scan_good_trans by blast
    qed
  qed
qed

lemma rel_path_inj: "under_root root p \<Longrightarrow> under_root root q \<Longrightarrow> rel_path root p = rel_path root q \<Longrightarrow> p = q"
  by (auto simp: under_root_def rel_path_def hasPrefix_iff split: if_splits)

lemma distinct_map_filter:
  "distinct xs \<Longrightarrow> (\<And>x y. x \<in> set xs \<Longrightarrow> g x = Some y \<Longrightarrow> h y = k x) \<Longrightarrow> inj_on k (set xs) \<Longrightarrow> distinct (map h (List.map_filter g xs))"
proof (induction xs)
  case Nil
  then show ?case by (simp add: List.map_filter_def)
next
  case (Cons x xs)
  have "distinct (map h (List.map_filter g xs))" using Cons by (auto simp: inj_on_def)
  moreover have "h y \<notin> set (map h (List.map_filter g xs))" if "g x = Some y" for y
  proof
    assume "h y \<in> set (map h (List.map_filter g xs))"
    then obtain x' y' where "x' \<in> set xs" "g x' = Some y'" "h y' = h y" by (auto simp: List.map_filter_def)
    then have "k x' = k x" "x' \<in> set xs" using Cons.prems(2) [of x' y'] Cons.prems(2) [of x y] that by auto
    then show False using Cons.prems(1,3) by (auto simp: inj_on_def)
  qed
  ultimately show ?case by (cases "g x") (simp_all add: List.map_filter_simps)
qed

lemma found_files_rel:
  assumes "f \<in> set (found_files a lib root ct)"
  shows "ff_Rel f = rel_path root (ff_Abs f)" "\<not> ShouldSkip (ff_Rel f)" "IsVideoPath (ff_Rel f)" "sa_inside a root (ff_Abs f)"
    "under_root root (ff_Abs f)"
  using assms
  by (auto simp: found_files_def Let_def List.map_filter_def visited_def keys_def map_of_eq_None_iff image_iff split: if_splits)

lemma found_files_distinct: "distinct (map ff_Rel (found_files a lib root ct))"
  unfolding found_files_def Let_def
proof (rule distinct_map_filter [where k = "rel_path root"])
  show "inj_on (rel_path root) (set (sort_key (\<lambda>p. splitOn CHR ''/'' (rel_path root p))
      (filter (visited (sa_disk a) root (nestedRoots lib root ct)) (remdups (keys (sa_disk a))))))"
    using rel_path_inj by (auto simp: inj_on_def visited_def)
qed (auto split: if_splits)

section \<open>The machine\<close>

lemma scanLibrary_facts:
  assumes inv: "scan_inv uuid s" and r: "scanLibrary a uuid lib s = (t, added, res)"
  shows "scan_good uuid s t"
proof (cases "map_of (ct_libraries (sn_cat s)) lib")
  case None
  then show ?thesis using r inv by (simp add: scanLibrary_def scan_good_refl)
next
  case (Some l)
  let ?files = "found_files a lib (lib_RootPath l) (sn_cat s)"
  obtain u n ok where u: "catalogue_files (sa_commit a) 0 uuid lib (lib_ContentType l) ?files s = (u, n, ok)" by (metis prod_cases3)
  have good: "scan_good uuid s u" using catalogue_files_facts [OF inv found_files_distinct u] by blast
  have "scan_good uuid u (on_cat (markUnseen (sa_stat a) lib (lib_RootPath l) (map ff_Rel ?files)) u)"
    by (rule on_cat_good [OF scan_goodD(1) [OF good]]) (rule unseen_change [OF scan_inv_cat [OF scan_goodD(1) [OF good]]])
  then have "scan_good uuid s (on_cat (markUnseen (sa_stat a) lib (lib_RootPath l) (map ff_Rel ?files)) u)"
    using good scan_good_trans by blast
  moreover have "scan_good uuid s (on_cat (markLibraryOffline lib) s)"
    by (rule on_cat_good [OF inv]) (rule offline_change [OF scan_inv_cat [OF inv]])
  moreover have "t \<in> {on_cat (markLibraryOffline lib) s, u, on_cat (markUnseen (sa_stat a) lib (lib_RootPath l) (map ff_Rel ?files)) u}"
    using r by (simp add: scanLibrary_def Let_def Some u split: if_splits)
  ultimately show ?thesis using good by blast
qed

lemma IngestFile_facts:
  assumes inv: "scan_inv uuid s"
  shows "scan_good uuid s (fst (IngestFile a uuid lib path s))"
proof -
  have "fst (IngestFile a uuid lib path s) = s \<or> (\<exists>ct f. fst (IngestFile a uuid lib path s) = fst (upsertFile uuid lib ct f s))"
  proof (cases "map_of (ct_libraries (sn_cat s)) lib")
    case None
    then show ?thesis by (simp add: IngestFile_def)
  next
    case (Some l)
    define f where "f = \<lparr>ff_Abs = path, ff_Rel = rel_path (lib_RootPath l) path, ff_Size = fst (the (sa_info a path)),
      ff_MTime = snd (the (sa_info a path))\<rparr>"
    have f: "IngestFile a uuid lib path s \<in> {(s, Some ErrOutside), (s, None), (s, Some ErrScanMissing)} \<or>
        IngestFile a uuid lib path s = (case upsertFile uuid lib (lib_ContentType l) f s of
          (s', Inl e) \<Rightarrow> (s, Some e) | (s', Inr n) \<Rightarrow> if sa_commit a 0 then (s', None) else (s, Some ErrScanCommit))"
      by (cases "sa_info a path") (simp_all add: IngestFile_def Let_def Some f_def split: prod.split)
    obtain u r where u: "upsertFile uuid lib (lib_ContentType l) f s = (u, r)" by fastforce
    have "fst (upsertFile uuid lib (lib_ContentType l) f s) = u" using u by simp
    moreover have "fst (IngestFile a uuid lib path s) = s \<or> fst (IngestFile a uuid lib path s) = u"
      using f u by (cases r) auto
    ultimately show ?thesis by metis
  qed
  then show ?thesis using upsertFile_good [OF inv] scan_good_refl [OF inv] by metis
qed

lemma attach_movie_good:
  assumes inv: "scan_inv uuid s" and r: "attach_movie uuid lib i b s = Inr t"
  shows "scan_good uuid s t"
proof -
  have row: "scan_good uuid u (on_cat (update_media i (\<lambda>m. m\<lparr>mf_Kind := KindMovie, mf_ExtraKind := [], mf_Movie := movie,
      mf_Confidence := ConfHigh\<rparr>)) u)"
    if "scan_inv uuid u" "(KindMovie, movie) \<in> set (keys (ct_titles (sn_cat u)))" for u movie
    by (rule on_cat_good [OF that(1)], rule update_media_change [OF scan_inv_cat [OF that(1)]]) (use that(2) in auto)
  let ?p = "no_result\<lparr>pr_Title := trimSpace (ab_Title b), pr_Year := ab_Year b, pr_Confidence := ConfHigh\<rparr>"
  obtain u movie where u: "(if ab_MovieID b \<noteq> [] then (s, ab_MovieID b) else ensureMovie uuid lib ?p [] s) = (u, movie)" by fastforce
  have good: "scan_good uuid s u"
  proof (cases "ab_MovieID b = []")
    case True
    then show ?thesis using u ensureMovie_good [OF inv, of "[]" "lib" ?p u movie] by simp
  next
    case False
    then show ?thesis using u scan_good_refl [OF inv] by simp
  qed
  have t: "has_key (KindMovie, movie) (ct_titles (sn_cat u))"
    "t = on_cat (update_media i (\<lambda>m. m\<lparr>mf_Kind := KindMovie, mf_ExtraKind := [], mf_Movie := movie, mf_Confidence := ConfHigh\<rparr>)) u"
    using r unfolding attach_movie_def Let_def u by (auto split: if_splits)
  show ?thesis
    using row [OF scan_goodD(1) [OF good]] t good scan_good_trans unfolding has_key_iff by blast
qed

lemma attach_episode_good:
  assumes inv: "scan_inv uuid s" and f: "i \<in> set (keys (ct_media (sn_cat s)))" and r: "attach_episode uuid lib i b s = Inr t"
  shows "scan_good uuid s t"
proof -
  let ?u = "on_cat (\<lambda>ct. ct\<lparr>ct_links := filter (\<lambda>l. fst l \<noteq> i) (ct_links ct)\<rparr>) s"
  have u: "scan_good uuid s ?u" by (rule on_cat_good [OF inv]) (rule unlink_change [OF scan_inv_cat [OF inv]])
  obtain p where t: "t = on_cat (update_media i (\<lambda>m. m\<lparr>mf_Kind := KindEpisode, mf_ExtraKind := [], mf_Movie := [],
      mf_Confidence := ConfHigh\<rparr>)) (ensureEpisodes uuid lib i p ?u)"
    using r unfolding attach_episode_def Let_def by (auto split: option.splits if_splits)
  let ?v = "ensureEpisodes uuid lib i p ?u"
  have v: "scan_good uuid ?u ?v"
    using ensureEpisodes_good [OF scan_goodD(1) [OF u] scan_goodD(3) [OF u f]] by blast
  have "scan_good uuid ?v t"
    unfolding t
    by (rule on_cat_good [OF scan_goodD(1) [OF v]], rule update_media_change [OF scan_inv_cat [OF scan_goodD(1) [OF v]]]) auto
  then show ?thesis using u v scan_good_trans by blast
qed

lemma Attach_facts:
  assumes inv: "scan_inv uuid s"
  shows "scan_good uuid s (fst (Attach uuid committed i b s))"
proof -
  have "fst (Attach uuid committed i b s) = s \<or> (\<exists>m t. map_of (ct_media (sn_cat s)) i = Some m \<and> fst (Attach uuid committed i b s) = t \<and>
      (attach_movie uuid (mf_Library m) i b s = Inr t \<or> attach_episode uuid (mf_Library m) i b s = Inr t))"
    by (simp add: Attach_def Let_def split: option.split sum.split)
  then show ?thesis
    using scan_good_refl [OF inv] attach_movie_good [OF inv] attach_episode_good [OF inv map_of_in_keys] by metis
qed

lemma scan_step_good: "scan_inv uuid s \<Longrightarrow> scan_good uuid s (scan_step uuid s e)"
  using scanLibrary_facts IngestFile_facts Attach_facts by (cases e) (auto simp: scan_step_def, metis prod.collapse)

interpretation scanning: invariant_machine "scan_step uuid" "scan_good uuid s"
  by unfold_locales (blast intro: scan_good_trans scan_step_good scan_goodD(1))

end
