(* ===== verification/Scan_Properties.thy ===== *)
theory Scan_Properties
  imports Scan_Safety Upload_Properties
begin

text \<open>
  What holds of parsed file names, of the catalogue under any scans, files and attachments, and of one scan; then
  what happens to numbered films and to attachments made by hand. The witnesses run on the library \<open>sc_start\<close>.
\<close>

section \<open>File names\<close>

lemma take_digits_bounds:
  "take_digits n rs acc = (k, v, rest) \<Longrightarrow> 0 \<le> acc \<Longrightarrow> k \<le> n \<and> acc * 10 ^ k \<le> v \<and> v < (acc + 1) * 10 ^ k"
proof (induction n rs acc arbitrary: k v rest rule: take_digits.induct)
  case (3 n r rs acc)
  show ?case
  proof (cases "digit_rune r")
    case None
    then show ?thesis using 3 by auto
  next
    case (Some d)
    have d: "0 \<le> d \<and> d \<le> 9"
      using Some by (auto simp: digit_rune_def digit_val_def Let_def split: list.splits if_splits)
    obtain k' where k': "k = Suc k'" "take_digits n rs (10 * acc + d) = (k', v, rest)"
      using 3(2) Some by (auto split: prod.splits)
    have "k' \<le> n \<and> (10 * acc + d) * 10 ^ k' \<le> v \<and> v < (10 * acc + d + 1) * 10 ^ k'"
      using 3(1) [OF Some k'(2)] 3(3) d by auto
    moreover have "k \<le> Suc n" if "k' \<le> n" using that k'(1) by simp
    moreover have "acc * 10 ^ k \<le> (10 * acc + d) * 10 ^ k'"
      using d k'(1) by (simp add: algebra_simps)
    moreover have "(10 * acc + d + 1) * 10 ^ k' \<le> (acc + 1) * 10 ^ k"
      using d k'(1) mult_right_mono [of "10 * acc + d + 1" "10 * (acc + 1)" "10 ^ k'"] by (simp add: algebra_simps)
    ultimately show ?thesis using k'(1) by linarith
  qed
qed auto

lemma take_digits_less:
  assumes "take_digits n rs 0 = (k, v, rest)"
  shows "0 \<le> v" "v < 10 ^ n"
proof -
  have b: "k \<le> n" "0 \<le> v" "v < 10 ^ k" using take_digits_bounds [OF assms] by auto
  show "0 \<le> v" by (rule b)
  have "(10::int) ^ k \<le> 10 ^ n" using b(1) by (intro power_increasing) auto
  then show "v < 10 ^ n" using b(3) by linarith
qed

lemma first_match_found:
  "first_match p start rs = Some (front, m) \<Longrightarrow> \<exists>start' rs' rest. p start' rs' = Some (m, rest)"
  by (induction rs arbitrary: start front) (auto split: option.splits)

lemma e_numbers_bounds: "e_numbers rs = (ns, rest) \<Longrightarrow> \<forall>n \<in> set ns. 0 \<le> n \<and> n < 1000"
proof (induction rs arbitrary: ns rest rule: e_numbers.induct)
  case (2 r rs)
  obtain k v more where d: "take_digits 3 rs 0 = (k, v, more)" by (cases "take_digits 3 rs 0") auto
  obtain ms rest' where e: "e_numbers more = (ms, rest')" by (cases "e_numbers more") auto
  show ?case
  proof (cases "letter_is ''e'' r \<and> k \<noteq> 0")
    case True
    have "\<forall>n \<in> set ms. 0 \<le> n \<and> n < 1000" using "2.IH" [OF _ d [symmetric]] e True by auto
    then show ?thesis using "2.prems" True d e take_digits_less [OF d] by auto
  next
    case False
    then show ?thesis using "2.prems" d by (auto split: if_splits)
  qed
qed auto

lemma tv_block_bounds:
  assumes "tv_block start rs = Some ((season, ns), rest)"
  shows "0 \<le> season" "season \<le> 99" "\<forall>n \<in> set ns. 0 \<le> n \<and> n \<le> 999"
proof -
  obtain r rs' k more rest' where "take_digits 2 rs' 0 = (k, season, more)" "e_numbers more = (ns, rest')"
    using assms by (auto simp: tv_block_def split: list.splits if_splits prod.splits)
  then show "0 \<le> season" "season \<le> 99" "\<forall>n \<in> set ns. 0 \<le> n \<and> n \<le> 999"
    using take_digits_less [of 2 rs' k season more] e_numbers_bounds [of more ns rest'] by force+
qed

lemma tv_x_bounds:
  assumes "tv_x start rs = Some ((season, eps), rest)"
  shows "0 \<le> season \<and> season \<le> 99 \<and> (\<exists>ep. eps = [ep] \<and> 0 \<le> ep \<and> ep \<le> 999)"
proof -
  have "0 \<le> season \<and> season \<le> 99 \<and> (\<exists>ep. eps = [ep] \<and> 0 \<le> ep \<and> ep \<le> 999)"
    if n: "tv_x_numbers rs = Some ((season, eps), rest)" for rs
  proof -
    obtain k more x more' k' ep rest' where
      "take_digits 2 rs 0 = (k, season, more)" "take_digits 3 more' 0 = (k', ep, rest')" "eps = [ep]"
      using n by (auto simp: tv_x_numbers_def split: list.splits if_splits prod.splits)
    then show ?thesis using take_digits_less [of 2 rs k season more] take_digits_less [of 3 more' k' ep rest'] by auto
  qed
  then show ?thesis using assms by (auto simp: tv_x_def split: option.splits if_splits list.splits)
qed

lemma year_at_bounds: "year_at rs = Some (y, rest) \<Longrightarrow> 1900 \<le> y \<and> y \<le> 2099"
  by (auto simp: year_at_def split: prod.splits if_splits)

lemma years_from_bounds: "h \<in> set (years_from pos prev rs) \<Longrightarrow> 1900 \<le> fst h \<and> fst h \<le> 2099"
  by (induction pos prev rs rule: years_from.induct)
     (auto split: option.splits if_splits dest: year_at_bounds)

lemma lastYear_bounds: "lastYear name = 0 \<or> 1900 \<le> lastYear name \<and> lastYear name \<le> 2099"
  using years_from_bounds [OF last_in_set] by (auto simp: lastYear_def findYears_def Let_def)


lemma fields_of_chars: "x \<in> set f \<Longrightarrow> f \<in> set (fields_of rs w) \<Longrightarrow> x \<in> set (concat rs) \<union> set (concat w)"
  by (induction rs w rule: fields_of.induct) (auto split: if_splits)

lemma joinWith_chars: "x \<in> set (joinWith sep ws) \<Longrightarrow> x \<in> set sep \<or> (\<exists>w \<in> set ws. x \<in> set w)"
  by (induction sep ws rule: joinWith.induct) auto

definition plain_title :: "string \<Rightarrow> bool" where
  "plain_title t \<longleftrightarrow> set t \<inter> set ''_.-'' = {}"

lemma plain_cleanTitle [simp]: "plain_title (cleanTitle raw year)"
proof -
  have "x \<notin> set ''_.-''" if x: "x \<in> set (cleanTitle raw year)" for x
  proof -
    obtain t where t: "cleanTitle raw year = trimSpace (joinWith '' '' (filter (\<lambda>f. \<not> isQualityToken f)
        (fields_of (runes (map (\<lambda>c. if c \<in> set ''_.-'' then CHR '' '' else c) t)) [])))"
      unfolding cleanTitle_def Let_def by blast
    have "x \<in> set (joinWith '' '' (filter (\<lambda>f. \<not> isQualityToken f)
        (fields_of (runes (map (\<lambda>c. if c \<in> set ''_.-'' then CHR '' '' else c) t)) [])))"
      using x trimSpace_subset unfolding t by blast
    then have "x = CHR '' '' \<or> x \<in> set (map (\<lambda>c. if c \<in> set ''_.-'' then CHR '' '' else c) t)"
      by (auto dest!: joinWith_chars dest: fields_of_chars simp del: set_map)
    then show ?thesis by (auto split: if_splits)
  qed
  then show ?thesis unfolding plain_title_def by blast
qed

definition parse_ok :: "parse_result \<Rightarrow> bool" where
  "parse_ok r \<longleftrightarrow> (pr_Year r = 0 \<or> 1900 \<le> pr_Year r \<and> pr_Year r \<le> 2099) \<and> 0 \<le> pr_Season r \<and> pr_Season r \<le> 99
     \<and> distinct (pr_Episodes r) \<and> set (pr_Episodes r) \<subseteq> {0..9999} \<and> plain_title (pr_Title r)"

lemma parse_ok_update [simp]:
  "parse_ok (r\<lparr>pr_Kind := k\<rparr>) = parse_ok r" "parse_ok (r\<lparr>pr_ExtraKind := e\<rparr>) = parse_ok r"
  "parse_ok (r\<lparr>pr_Confidence := c\<rparr>) = parse_ok r" "parse_ok (r\<lparr>pr_Hint := h\<rparr>) = parse_ok r"
  "parse_ok (r\<lparr>pr_Skip := b\<rparr>) = parse_ok r" "parse_ok (r\<lparr>pr_NeedsReview := b\<rparr>) = parse_ok r"
  by (simp_all add: parse_ok_def)

lemma parseTV_facts:
  assumes "parseTV name = Some r"
  shows "parse_ok r" "pr_Kind r = KindEpisode" "pr_ExtraKind r = []" "\<not> pr_Skip r" "pr_Confidence r \<noteq> []"
proof -
  consider season ns front where "first_match tv_block True (runes name) = Some (front, (season, ns))"
      "pr_Season r = season" "pr_Episodes r = extractENums ns"
    | season eps front where "first_match tv_x True (runes name) = Some (front, (season, eps))"
      "pr_Season r = season" "pr_Episodes r = eps"
    using assms by (auto simp: parseTV_def Let_def no_result_def split: option.splits prod.splits)
  then have nums: "0 \<le> pr_Season r \<and> pr_Season r \<le> 99 \<and> distinct (pr_Episodes r) \<and> set (pr_Episodes r) \<subseteq> {0..9999}"
  proof cases
    case 1
    obtain start' rs' rest where "tv_block start' rs' = Some ((season, ns), rest)"
      using first_match_found [OF 1(1)] by auto
    from tv_block_bounds [OF this] show ?thesis using 1(2,3) by (force simp: extractENums_def)
  next
    case 2
    obtain start' rs' rest where "tv_x start' rs' = Some ((season, eps), rest)"
      using first_match_found [OF 2(1)] by auto
    from tv_x_bounds [OF this] show ?thesis using 2(2,3) by auto
  qed
  have title: "plain_title (pr_Title r)" "pr_Year r = lastYear name"
    using assms by (auto simp: parseTV_def Let_def no_result_def split: option.splits prod.splits)
  show "parse_ok r"
    using nums title(1) lastYear_bounds [of name] unfolding parse_ok_def title(2) by blast
  show "pr_Kind r = KindEpisode" "pr_ExtraKind r = []" "\<not> pr_Skip r" "pr_Confidence r \<noteq> []"
    using assms by (auto simp: parseTV_def Let_def no_result_def ConfHigh_def ConfMedium_def split: option.splits prod.splits)
qed

lemma parseMovie_facts:
  assumes "parseMovie name = Some r"
  shows "parse_ok r" "pr_Kind r = KindMovie" "pr_ExtraKind r = []" "\<not> pr_Skip r" "pr_Confidence r \<noteq> []" "pr_Title r \<noteq> []"
    "pr_Episodes r = []"
  using assms lastYear_bounds [of "stripReleaseGroup name"]
  by (auto simp: parseMovie_def Let_def no_result_def parse_ok_def ConfHigh_def ConfMedium_def ConfLow_def
      split: if_splits)

lemma absolute_from_found: "absolute_from rs = Some (front, m) \<Longrightarrow> \<exists>rs'. absolute_at rs' = Some m"
  by (induction rs arbitrary: front) (auto split: option.splits if_splits)

lemma absolute_at_bounds: "absolute_at rs = Some (v, ds) \<Longrightarrow> 0 \<le> v \<and> v < 10000"
  unfolding absolute_at_def Let_def
  by (auto split: if_splits prod.splits dest: take_digits_less)

lemma parseAnime_facts:
  assumes "parseAnimeAbsolute name = Some r"
  shows "parse_ok r" "pr_Kind r = KindEpisode" "pr_ExtraKind r = []" "\<not> pr_Skip r"
proof -
  obtain front ep ds where a: "absolute_from (runes name) = Some (front, ep, ds)" "0 < ep"
    and r: "r = no_result\<lparr>pr_Kind := KindEpisode, pr_Title := cleanTitle (concat front) 0, pr_Season := 0, pr_Episodes := [ep],
                  pr_Confidence := ConfLow, pr_NeedsReview := True\<rparr>"
    using assms by (auto simp: parseAnimeAbsolute_def Let_def split: if_splits option.splits)
  have "ep < 10000" using absolute_from_found [OF a(1)] absolute_at_bounds by auto
  then show "parse_ok r" using a(2) by (simp add: r parse_ok_def no_result_def)
  show "pr_Kind r = KindEpisode" "pr_ExtraKind r = []" "\<not> pr_Skip r" by (simp_all add: r no_result_def)
qed

lemma parseCore_ok: "parse_ok (parseCore name)" "\<not> pr_Skip (parseCore name)"
  using parseTV_facts [of name] parseMovie_facts [of name]
  by (auto simp: parseCore_def no_result_def parse_ok_def split: option.splits)

lemma Parse_skip: "pr_Skip (Parse rel) = ShouldSkip rel"
proof (cases "ShouldSkip rel")
  case False
  show ?thesis
    using False parseTV_facts parseAnime_facts parseMovie_facts parseCore_ok
    by (auto simp: Parse_def Let_def no_result_def split: option.split)
qed (simp add: Parse_def)

lemma Parse_cases:
  obtains (skip) "ShouldSkip rel" "Parse rel = no_result\<lparr>pr_Kind := KindUnknown, pr_Skip := True\<rparr>"
    | (extra) ek c h name where "\<not> ShouldSkip rel" "ek \<noteq> []"
        "Parse rel = (parseCore name)\<lparr>pr_Kind := KindExtra, pr_ExtraKind := ek, pr_Confidence := c, pr_Hint := h\<rparr>"
    | (tv) r h name where "\<not> ShouldSkip rel" "parseTV name = Some r" "Parse rel = r\<lparr>pr_Hint := h\<rparr>"
    | (absolute) r h name where "\<not> ShouldSkip rel" "parseAnimeAbsolute name = Some r" "Parse rel = r\<lparr>pr_Hint := h\<rparr>"
    | (movie) r h name where "\<not> ShouldSkip rel" "parseMovie name = Some r" "Parse rel = r\<lparr>pr_Hint := h\<rparr>"
    | (unknown) h name where "\<not> ShouldSkip rel"
        "Parse rel = no_result\<lparr>pr_Kind := KindUnknown, pr_Title := cleanTitle name 0, pr_Confidence := ConfLow, pr_NeedsReview := True, pr_Hint := h\<rparr>"
proof -
  define name where "name = trimSuffix (last (splitOn CHR ''/'' rel)) (fileExt (last (splitOn CHR ''/'' rel)))"
  note p = Parse_def [of rel, unfolded Let_def, folded name_def]
  consider "ShouldSkip rel" | "\<not> ShouldSkip rel" "extraKind rel name \<noteq> []" | (plain) "\<not> ShouldSkip rel" "extraKind rel name = []"
    by blast
  then show ?thesis
  proof cases
    case 1
    then show ?thesis using skip p by simp
  next
    case 2
    show ?thesis by (rule extra [OF 2]) (simp only: p 2 if_False if_True not_False_eq_True)
  next
    case plain
    show ?thesis
    proof (cases "parseTV name")
      case (Some r)
      show ?thesis by (rule tv [OF plain(1) Some]) (simp add: p plain Some)
    next
      case None
      note no_tv = None
      show ?thesis
      proof (cases "parseAnimeAbsolute name")
        case (Some r)
        show ?thesis by (rule absolute [OF plain(1) Some]) (simp add: p plain no_tv Some)
      next
        case None
        note no_absolute = None
        show ?thesis
        proof (cases "parseMovie name")
          case (Some r)
          show ?thesis by (rule movie [OF plain(1) Some]) (simp add: p plain no_tv no_absolute Some)
        next
          case None
          show ?thesis by (rule unknown [OF plain(1)]) (simp add: p plain no_tv no_absolute None)
        qed
      qed
    qed
  qed
qed

text \<open>C37. What a file name is taken for is well-formed: one of four kinds, skipped exactly if it should be, the kind
  of extra given exactly for extras, no year or one of 1900 to 2099, a season of at most two digits, distinct
  numbers of at most four digits, a title without dots, hyphens and underscores, and for a movie a title.\<close>

theorem Parse_wellformed:
  "pr_Kind (Parse rel) \<in> {KindMovie, KindEpisode, KindExtra, KindUnknown}
   \<and> (pr_Skip (Parse rel) \<longleftrightarrow> ShouldSkip rel) \<and> (pr_ExtraKind (Parse rel) \<noteq> [] \<longleftrightarrow> pr_Kind (Parse rel) = KindExtra)
   \<and> (pr_Year (Parse rel) = 0 \<or> 1900 \<le> pr_Year (Parse rel) \<and> pr_Year (Parse rel) \<le> 2099)
   \<and> 0 \<le> pr_Season (Parse rel) \<and> pr_Season (Parse rel) \<le> 99
   \<and> distinct (pr_Episodes (Parse rel)) \<and> set (pr_Episodes (Parse rel)) \<subseteq> {0..9999}
   \<and> set (pr_Title (Parse rel)) \<inter> set ''_.-'' = {}
   \<and> (pr_Kind (Parse rel) = KindMovie \<longrightarrow> pr_Title (Parse rel) \<noteq> [] \<and> pr_Episodes (Parse rel) = [])"
proof -
  have kinds: "KindMovie \<noteq> KindExtra" "KindEpisode \<noteq> KindExtra" "KindUnknown \<noteq> KindExtra" "KindMovie \<noteq> KindEpisode"
    "KindExtra \<noteq> KindMovie" "KindUnknown \<noteq> KindMovie" "KindEpisode \<noteq> KindMovie"
    by (simp_all add: KindMovie_def KindExtra_def KindEpisode_def KindUnknown_def)
  have "parse_ok (Parse rel) \<and> pr_Kind (Parse rel) \<in> {KindMovie, KindEpisode, KindExtra, KindUnknown}
      \<and> (pr_ExtraKind (Parse rel) \<noteq> [] \<longleftrightarrow> pr_Kind (Parse rel) = KindExtra)
      \<and> (pr_Kind (Parse rel) = KindMovie \<longrightarrow> pr_Title (Parse rel) \<noteq> [] \<and> pr_Episodes (Parse rel) = [])"
  proof (cases rel rule: Parse_cases)
    case (tv r h name)
    then show ?thesis using parseTV_facts [OF tv(2)] kinds by simp
  next
    case (absolute r h name)
    then show ?thesis using parseAnime_facts [OF absolute(2)] kinds by simp
  next
    case (movie r h name)
    then show ?thesis using parseMovie_facts [OF movie(2)] kinds by simp
  next
    case (unknown h name)
    then show ?thesis using kinds by (simp add: parse_ok_def no_result_def)
  next
    case (extra ek c h name)
    then show ?thesis using kinds parseCore_ok(1) by simp
  next
    case skip
    then show ?thesis using kinds by (simp add: parse_ok_def no_result_def plain_title_def)
  qed
  then show ?thesis
    unfolding parse_ok_def plain_title_def using Parse_skip by blast
qed

section \<open>The catalogue under any requests\<close>

text \<open>C38. Whatever scans, single files and attachments come and fail, every file has one row, seasons and episodes are
  unique and belong to series, references lead to rows, no title is lost, and titles that are matched or not named
  after their file are never changed.\<close>

theorem scans_keep_catalogue:
  assumes "scan_inv uuid s"
  shows "cat_ok (sn_cat (foldl (scan_step uuid) s es))
    \<and> (\<forall>k. k \<in> set (keys (ct_titles (sn_cat s))) \<longrightarrow> k \<in> set (keys (ct_titles (sn_cat (foldl (scan_step uuid) s es)))))
    \<and> (\<forall>k t. map_of (ct_titles (sn_cat s)) k = Some t \<and> \<not> named_by_file k t \<longrightarrow>
         map_of (ct_titles (sn_cat (foldl (scan_step uuid) s es))) k = Some t)"
proof -
  have good: "scan_good uuid s (foldl (scan_step uuid) s es)"
    by (rule scanning.run_keeps) (rule scan_good_refl [OF assms])
  then have "grows (sn_cat s) (sn_cat (foldl (scan_step uuid) s es))" by (simp add: scan_good_def)
  then have "map_of (ct_titles (sn_cat (foldl (scan_step uuid) s es))) k = Some t"
    if "map_of (ct_titles (sn_cat s)) k = Some t" "\<not> named_by_file k t" for k t
    using that unfolding grows_def by metis
  then show ?thesis using scan_inv_cat [OF scan_goodD(1) [OF good]] scan_goodD(2) [OF good] by blast
qed

section \<open>One scan\<close>

lemma accepted_found:
  assumes "f \<in> set (found_files a lib root ct)"
  shows "accepted lib contentType ct' f \<longleftrightarrow> file_at lib (ff_Rel f) ct' \<noteq> None \<or> kindFits contentType (scan_kind (Parse (ff_Rel f)))"
  using found_files_rel(2) [OF assms] by (simp add: accepted_def Parse_skip)

lemma scan_result:
  assumes inv: "scan_inv uuid s" and l: "map_of (ct_libraries (sn_cat s)) lib = Some l"
    and r: "scanLibrary a uuid lib s = (t, added, Inr n)"
  obtains u where "scan_good uuid s u" "catalogued lib (lib_ContentType l) (found_files a lib (lib_RootPath l) (sn_cat s)) (sn_cat s) (sn_cat u)"
    "added = news lib (lib_ContentType l) (sn_cat s) (found_files a lib (lib_RootPath l) (sn_cat s))"
    "sn_cat t = markUnseen (sa_stat a) lib (lib_RootPath l) (map ff_Rel (found_files a lib (lib_RootPath l) (sn_cat s))) (sn_cat u)"
    "n = length (found_files a lib (lib_RootPath l) (sn_cat s))"
proof -
  let ?files = "found_files a lib (lib_RootPath l) (sn_cat s)"
  obtain u k ok where u: "catalogue_files (sa_commit a) 0 uuid lib (lib_ContentType l) ?files s = (u, k, ok)" by (metis prod_cases3)
  have "t = on_cat (markUnseen (sa_stat a) lib (lib_RootPath l) (map ff_Rel ?files)) u" "k = added" "ok" "n = length ?files"
    using r by (simp_all add: scanLibrary_def Let_def l u split: if_splits)
  then show ?thesis using that [of u] catalogue_files_facts [OF inv found_files_distinct u] by simp
qed

lemma file_at_unseen:
  "file_at l r (markUnseen os_stat lib root seen ct) =
     map_option (\<lambda>(i, m). (i, if l = lib \<and> r \<notin> set seen
        then m\<lparr>mf_Availability := ClassifyAvailability (os_stat (mf_Abs m)) root (os_stat root)\<rparr> else m)) (file_at l r ct)"
proof -
  have "find (\<lambda>(i, m). mf_Library m = l \<and> mf_Rel m = r) (map (\<lambda>(i, m). (i, if mf_Library m = lib \<and> mf_Rel m \<notin> set seen
            then m\<lparr>mf_Availability := ClassifyAvailability (os_stat (mf_Abs m)) root (os_stat root)\<rparr> else m)) xs) =
      map_option (\<lambda>(i, m). (i, if l = lib \<and> r \<notin> set seen
        then m\<lparr>mf_Availability := ClassifyAvailability (os_stat (mf_Abs m)) root (os_stat root)\<rparr> else m))
      (find (\<lambda>(i, m). mf_Library m = l \<and> mf_Rel m = r) xs)" for xs
    by (induction xs) auto
  then show ?thesis by (simp add: file_at_def markUnseen_def)
qed


lemma found_files_cong: "ct_libraries ct' = ct_libraries ct \<Longrightarrow> found_files a lib root ct' = found_files a lib root ct"
  by (simp add: found_files_def nestedRoots_def)

text \<open>C40. A second scan of unchanged folders adds no file and loses none, whatever the first one found.\<close>

theorem second_scan_adds_nothing:
  assumes inv: "scan_inv uuid s"
    and r: "scanLibrary a uuid lib s = (t, added, Inr n)" and r': "scanLibrary a uuid lib t = (t', added', Inr n')"
  shows "added' = 0 \<and> n' = n \<and> (\<forall>l rel. file_at l rel (sn_cat t') = None \<longleftrightarrow> file_at l rel (sn_cat t) = None)"
proof -
  obtain l where l: "map_of (ct_libraries (sn_cat s)) lib = Some l"
    using r by (cases "map_of (ct_libraries (sn_cat s)) lib") (simp_all add: scanLibrary_def)
  have good: "scan_good uuid s t" by (rule scanLibrary_facts [OF inv r])
  have libs: "ct_libraries (sn_cat t) = ct_libraries (sn_cat s)" by (rule scan_goodD(4) [OF good])
  define files where "files = found_files a lib (lib_RootPath l) (sn_cat s)"
  have files': "found_files a lib (lib_RootPath l) (sn_cat t) = files" unfolding files_def by (rule found_files_cong [OF libs])
  have l': "map_of (ct_libraries (sn_cat t)) lib = Some l" using l libs by simp
  obtain u where "scan_good uuid s u" and u: "catalogued lib (lib_ContentType l) files (sn_cat s) (sn_cat u)"
    and "added = news lib (lib_ContentType l) (sn_cat s) files"
    and t: "sn_cat t = markUnseen (sa_stat a) lib (lib_RootPath l) (map ff_Rel files) (sn_cat u)" and n: "n = length files"
    by (rule scan_result [OF inv l r, folded files_def])
  obtain v where "scan_good uuid t v" and v: "catalogued lib (lib_ContentType l) files (sn_cat t) (sn_cat v)"
    and added': "added' = news lib (lib_ContentType l) (sn_cat t) files"
    and t': "sn_cat t' = markUnseen (sa_stat a) lib (lib_RootPath l) (map ff_Rel files) (sn_cat v)" and n': "n' = length files"
    by (rule scan_result [OF scan_goodD(1) [OF good] l' r', unfolded files'])
  have known: "\<not> (accepted lib (lib_ContentType l) (sn_cat t) f \<and> file_at lib (ff_Rel f) (sn_cat t) = None)" if f: "f \<in> set files" for f
  proof (cases "accepted lib (lib_ContentType l) (sn_cat s) f")
    case True
    then show ?thesis using catalogued_accepted [OF u f] by (auto simp: t file_at_unseen)
  next
    case False
    then show ?thesis using catalogued_refused [OF u f False] by (auto simp: t file_at_unseen accepted_def)
  qed
  then have "added' = 0" by (simp add: added' news_def filter_empty_conv)
  moreover have "file_at l' rel (sn_cat v) = None \<longleftrightarrow> file_at l' rel (sn_cat t) = None" for l' rel
  proof (cases "l' = lib \<and> rel \<in> ff_Rel ` set files")
    case True
    then obtain f where f: "f \<in> set files" "rel = ff_Rel f" "l' = lib" by blast
    show ?thesis
    proof (cases "accepted lib (lib_ContentType l) (sn_cat t) f")
      case True
      then show ?thesis using known [OF f(1)] catalogued_accepted [OF v f(1) True] f by auto
    next
      case False
      then show ?thesis using catalogued_refused [OF v f(1) False] f by simp
    qed
  next
    case False
    then have "l' \<noteq> lib \<or> rel \<notin> ff_Rel ` set files" by blast
    then show ?thesis using catalogued_other [OF v] by simp
  qed
  ultimately show ?thesis using n n' by (simp add: t' file_at_unseen)
qed

section \<open>Numbered films\<close>

text \<open>A number at the end of a film's title makes the film an episode, which a library of movies refuses.\<close>

lemma numbered_film_kind: "scan_kind (Parse ''Toy Story 3 (2010).mkv'') = KindEpisode"
  by code_simp

lemma numbered_film_refused:
  assumes "file_at lib ''Toy Story 3 (2010).mkv'' (sn_cat s) = None" and "ff_Rel f = ''Toy Story 3 (2010).mkv''"
  shows "fst (upsertFile uuid lib ''movies'' f s) = s"
  using assms numbered_film_kind by (intro upsertFile_refused) (simp add: accepted_def kindFits_def)

section \<open>Witnesses\<close>

definition sc_uuid :: "nat \<Rightarrow> string" where
  "sc_uuid n = replicate (Suc n) CHR ''u''"

definition sc_start :: scan_state where
  "sc_start = \<lparr>sn_cat = \<lparr>ct_libraries = [(''m'', \<lparr>lib_ID = ''m'', lib_RootPath = ''/m'', lib_ContentType = ''movies''\<rparr>)], ct_roots = [''/m''],
      ct_titles = [], ct_media = [], ct_episodes = [], ct_links = [], ct_seasons = [], ct_queue = []\<rparr>, sn_ids = 0\<rparr>"

definition sc_answers :: scan_answers where
  "sc_answers = \<lparr>sa_disk = [(''/m'', DirNode), (''/m/A (1999).mkv'', FileNode [])], sa_inside = (\<lambda>_ _. True),
      sa_info = (\<lambda>_. Some (7, ''t'')), sa_stat = (\<lambda>_. Found), sa_commit = (\<lambda>_. True)\<rparr>"

lemma sc_inv: "scan_inv sc_uuid sc_start"
proof -
  have "inj sc_uuid" unfolding sc_uuid_def by (rule injI) (metis length_replicate nat.inject)
  then show ?thesis
    by (simp add: scan_inv_def sc_start_def sc_uuid_def cat_ids_def cat_ok_def media_ok_def series_ok_def refs_ok_def keys_def)
qed

lemma catalogue_files_ends: "(\<And>n. commit n) \<Longrightarrow> snd (snd (catalogue_files commit n uuid lib ct fs s))"
  by (induction commit n uuid lib ct fs s rule: catalogue_files.induct)
     (subst catalogue_files.simps, auto simp: catalogueBatch_def split: prod.splits)

lemma scan_ends:
  assumes "map_of (ct_libraries (sn_cat s)) lib = Some l" and "sa_stat a (lib_RootPath l) = Found" and "\<And>n. sa_commit a n"
  obtains t added n where "scanLibrary a uuid lib s = (t, added, Inr n)"
proof -
  obtain u k ok where u: "catalogue_files (sa_commit a) 0 uuid lib (lib_ContentType l) (found_files a lib (lib_RootPath l) (sn_cat s)) s = (u, k, ok)"
    by (metis prod_cases3)
  have "snd (snd (catalogue_files (sa_commit a) 0 uuid lib (lib_ContentType l) (found_files a lib (lib_RootPath l) (sn_cat s)) s))"
    by (rule catalogue_files_ends) (rule assms(3))
  then have "ok" using u by simp
  then show ?thesis using that by (simp add: scanLibrary_def Let_def assms u)
qed

lemma sc_library: "map_of (ct_libraries (sn_cat sc_start)) ''m'' = Some \<lparr>lib_ID = ''m'', lib_RootPath = ''/m'', lib_ContentType = ''movies''\<rparr>"
  by (simp add: sc_start_def)

lemma sc_scan: obtains t added n where "scanLibrary sc_answers sc_uuid ''m'' sc_start = (t, added, Inr n)"
  by (rule scan_ends [OF sc_library, of sc_answers sc_uuid]) (simp_all add: sc_answers_def)

lemma sc_files: "found_files sc_answers ''m'' ''/m'' (sn_cat sc_start) = [\<lparr>ff_Abs = ''/m/A (1999).mkv'', ff_Rel = ''A (1999).mkv'', ff_Size = 7, ff_MTime = ''t''\<rparr>]"
  by code_simp

lemma sc_parse: "pr_Kind (Parse ''A (1999).mkv'') = KindMovie"
  by code_simp

lemma Parse_wellformed_witness: "pr_Title (Parse ''A (1999).mkv'') \<noteq> [] \<and> pr_Episodes (Parse ''A (1999).mkv'') = []"
  using Parse_wellformed [of "''A (1999).mkv''"] sc_parse by simp

lemma scans_keep_catalogue_witness:
  "cat_ok (sn_cat (foldl (scan_step sc_uuid) sc_start [RunScan sc_answers ''m'', Ingest sc_answers ''m'' ''/m/B (2001).mkv'']))"
  using scans_keep_catalogue [OF sc_inv, of "[RunScan sc_answers ''m'', Ingest sc_answers ''m'' ''/m/B (2001).mkv'']"] by simp


lemma second_scan_adds_nothing_witness:
  "fst (snd (scanLibrary sc_answers sc_uuid ''m'' (fst (scanLibrary sc_answers sc_uuid ''m'' sc_start)))) = 0"
proof -
  obtain t added n where r: "scanLibrary sc_answers sc_uuid ''m'' sc_start = (t, added, Inr n)" by (rule sc_scan)
  have "map_of (ct_libraries (sn_cat t)) ''m'' = Some \<lparr>lib_ID = ''m'', lib_RootPath = ''/m'', lib_ContentType = ''movies''\<rparr>"
    using sc_library scan_goodD(4) [OF scanLibrary_facts [OF sc_inv r]] by simp
  then obtain t' added' n' where r': "scanLibrary sc_answers sc_uuid ''m'' t = (t', added', Inr n')"
    by (rule scan_ends [of t "''m''" _ sc_answers sc_uuid]) (simp_all add: sc_answers_def)
  show ?thesis using second_scan_adds_nothing [OF sc_inv r r'] by (simp add: r r')
qed

end
